(* ===== verification/Prelude.thy ===== *)
theory Prelude
  imports Main "HOL-Library.Word" "HOL-Library.AList" "HOL-Library.Multiset"
begin

text \<open>
  Shared vocabulary of the development: the Go types of the model, errors as values, the loop
  shapes that many functions of the program have (search by index, early return from a loop),
  Go maps as association lists where the program ranges over them, and the lemmas and named
  collections the component theories use.

  \<^item> \<open>uint64\<close> is \<open>u64\<close>, a 64-bit word: addition wraps, \<open><\<close> is unsigned.
  \<^item> \<open>int64\<close> is \<open>i64\<close>, the same word type read with \<open>sint\<close> (comparisons of heights are signed).
  \<^item> \<open>[]byte\<close> is \<open>bytes\<close> when it holds binary data and \<open>string\<close> when it holds text.
  \<^item> \<open>common.Address\<close> is Go's \<open>[20]byte\<close>: its 20 bytes read as one 160-bit word.
  \<^item> \<open>*big.Int\<close> is \<open>int\<close>, and \<open>int option\<close> where the program uses \<open>nil\<close>.
  \<^item> A Go map that is only looked up is a HOL map; one the program ranges over or counts is an
    association list with distinct keys, whose order is the order of insertion. Where the
    program ranges over it, the model takes the order of iteration as a parameter (\<open>ranging\<close>).
\<close>

section \<open>Types\<close>

type_synonym u64 = "64 word"
type_synonym i64 = "64 word"
type_synonym byte = "8 word"
type_synonym bytes = "byte list"
type_synonym address = "160 word"

text \<open>An error that a function returns, or a panic that stops the program.\<close>

datatype go_error = Errorf string | Panic string

type_synonym 'a result = "go_error + 'a"

text \<open>Facts about the operations of one component, for its own proofs and its clients'.\<close>

named_theorems range_simps \<open>results that do not depend on the order in which a map is ranged\<close>
named_theorems inv_intros \<open>operations keep the invariant of their component\<close>
named_theorems frame_simps \<open>fields an operation leaves as they were\<close>

section \<open>Errors and loops with an early return\<close>

text \<open>\<open>if err != nil { return err }\<close>: go on with the value of a call that did not fail.\<close>

fun result_bind :: "'a result \<Rightarrow> ('a \<Rightarrow> 'b result) \<Rightarrow> 'b result" where
  "result_bind (Inl e) f = Inl e"
| "result_bind (Inr v) f = f v"

lemma result_bind_Inr_iff: "result_bind x f = Inr w \<longleftrightarrow> (\<exists>v. x = Inr v \<and> f v = Inr w)"
  by (cases x) simp_all

lemma result_bind_split:
  "P (result_bind x f) \<longleftrightarrow> (\<forall>e. x = Inl e \<longrightarrow> P (Inl e)) \<and> (\<forall>v. x = Inr v \<longrightarrow> P (f v))"
  by (cases x) simp_all

lemma result_bind_split_asm:
  "P (result_bind x f) \<longleftrightarrow> \<not> ((\<exists>e. x = Inl e \<and> \<not> P (Inl e)) \<or> (\<exists>v. x = Inr v \<and> \<not> P (f v)))"
  by (cases x) simp_all

lemmas result_bind_splits = result_bind_split result_bind_split_asm

lemma result_bindE:
  assumes "result_bind x f = Inr w"
  obtains v where "x = Inr v" "f v = Inr w"
  using assms by (auto simp: result_bind_Inr_iff)

text \<open>\<open>if err != nil { ... }\<close> with a handler of its own; a panic is not an error value.\<close>

fun if_err :: "'a result \<Rightarrow> (string \<Rightarrow> 'b result) \<Rightarrow> ('a \<Rightarrow> 'b result) \<Rightarrow> 'b result" where
  "if_err (Inl (Errorf e)) handle k = handle e"
| "if_err (Inl (Panic p)) handle k = Inl (Panic p)"
| "if_err (Inr v) handle k = k v"

lemma if_err_split:
  "P (if_err x handle k) \<longleftrightarrow> (\<forall>e. x = Inl (Errorf e) \<longrightarrow> P (handle e)) \<and>
     (\<forall>p. x = Inl (Panic p) \<longrightarrow> P (Inl (Panic p))) \<and> (\<forall>v. x = Inr v \<longrightarrow> P (k v))"
proof (cases x)
  case (Inl e)
  then show ?thesis by (cases e) auto
qed simp

lemma if_err_split_asm:
  "P (if_err x handle k) \<longleftrightarrow> \<not> ((\<exists>e. x = Inl (Errorf e) \<and> \<not> P (handle e)) \<or>
     (\<exists>p. x = Inl (Panic p) \<and> \<not> P (Inl (Panic p))) \<or> (\<exists>v. x = Inr v \<and> \<not> P (k v)))"
  using if_err_split [of P x handle k] by blast

lemmas if_err_splits = if_err_split if_err_split_asm

text \<open>A call that returns, with a value or with an error.\<close>

fun no_panic :: "'a result \<Rightarrow> bool" where
  "no_panic (Inl (Panic p)) = False"
| "no_panic (Inl (Errorf e)) = True"
| "no_panic (Inr v) = True"

lemma no_panic_bind [intro]:
  "no_panic x \<Longrightarrow> (\<And>v. x = Inr v \<Longrightarrow> no_panic (f v)) \<Longrightarrow> no_panic (result_bind x f)"
  by (cases x rule: no_panic.cases) auto

lemma no_panic_if_err [intro]:
  "no_panic x \<Longrightarrow> (\<And>e. no_panic (handle e)) \<Longrightarrow> (\<And>v. x = Inr v \<Longrightarrow> no_panic (k v)) \<Longrightarrow>
   no_panic (if_err x handle k)"
  by (cases x rule: no_panic.cases) auto

lemma no_panicD: "no_panic x \<Longrightarrow> x \<noteq> Inl (Panic p)"
  by auto

text \<open>\<open>for i, x := range xs { if p(x) { return i, true } }; return _, false\<close>\<close>

fun find_index :: "('a \<Rightarrow> bool) \<Rightarrow> 'a list \<Rightarrow> nat option" where
  "find_index p [] = None"
| "find_index p (x # xs) = (if p x then Some 0 else map_option Suc (find_index p xs))"

lemma find_index_SomeD:
  "find_index p xs = Some i \<Longrightarrow> i < length xs \<and> p (xs ! i) \<and> (\<forall>j<i. \<not> p (xs ! j))"
  by (induction xs arbitrary: i) (auto split: if_splits simp: nth_Cons' less_Suc_eq_0_disj)

lemma find_index_None_iff [simp]: "find_index p xs = None \<longleftrightarrow> (\<forall>x\<in>set xs. \<not> p x)"
  by (induction xs) auto

lemma find_index_Some_ex: "x \<in> set xs \<Longrightarrow> p x \<Longrightarrow> \<exists>i. find_index p xs = Some i"
  by (metis find_index_None_iff not_None_eq)

lemma find_index_unique:
  assumes "i < length xs" "p (xs ! i)" "\<And>j. j < length xs \<Longrightarrow> p (xs ! j) \<Longrightarrow> j = i"
  shows "find_index p xs = Some i"
proof -
  have "xs ! i \<in> set xs" using assms(1) by simp
  then obtain k where k: "find_index p xs = Some k"
    using find_index_Some_ex assms(2) by metis
  from find_index_SomeD [OF k] assms(3) have "k = i" by blast
  with k show ?thesis by simp
qed

lemma find_index_nth_distinct:
  "distinct xs \<Longrightarrow> i < length xs \<Longrightarrow> find_index (\<lambda>x. x = xs ! i) xs = Some i"
  by (rule find_index_unique) (auto simp: nth_eq_iff_index_eq)

text \<open>\<open>for x := range xs { y, err := f(x); if err != nil { return err }; ys = append(ys, y) }\<close>\<close>

fun collect :: "('a \<Rightarrow> 'e + 'b) \<Rightarrow> 'a list \<Rightarrow> 'e + 'b list" where
  "collect f [] = Inr []"
| "collect f (x # xs) =
     (case f x of Inl e \<Rightarrow> Inl e
      | Inr y \<Rightarrow> (case collect f xs of Inl e \<Rightarrow> Inl e | Inr ys \<Rightarrow> Inr (y # ys)))"

lemma no_panic_collect [intro]: "(\<And>x. x \<in> set xs \<Longrightarrow> no_panic (f x)) \<Longrightarrow> no_panic (collect f xs)"
proof (induction xs)
  case (Cons x xs)
  then have "no_panic (f x)" "no_panic (collect f xs)" by simp_all
  then show ?case by (cases "f x" rule: no_panic.cases; cases "collect f xs" rule: no_panic.cases) simp_all
qed simp

lemma collect_Inr_iff: "collect f xs = Inr ys \<longleftrightarrow> list_all2 (\<lambda>x y. f x = Inr y) xs ys"
proof (induction xs arbitrary: ys)
  case Nil
  then show ?case by auto
next
  case (Cons x xs)
  show ?case
    by (cases "f x"; cases "collect f xs") (auto simp: list_all2_Cons1 Cons.IH [symmetric])
qed

lemma collect_map: "(\<And>x. x \<in> set xs \<Longrightarrow> f (g x) = Inr x) \<Longrightarrow> collect f (map g xs) = Inr xs"
  by (induction xs) auto

lemma collect_length: "collect f xs = Inr ys \<Longrightarrow> length ys = length xs"
  by (auto simp: collect_Inr_iff dest: list_all2_lengthD)

text \<open>\<open>for x := range xs { if err := f(x); err != nil { return err } }\<close>: the first error.\<close>

fun first_error :: "('a \<Rightarrow> 'e option) \<Rightarrow> 'a list \<Rightarrow> 'e option" where
  "first_error f [] = None"
| "first_error f (x # xs) = (case f x of Some e \<Rightarrow> Some e | None \<Rightarrow> first_error f xs)"

lemma first_error_None_iff [simp]: "first_error f xs = None \<longleftrightarrow> (\<forall>x\<in>set xs. f x = None)"
  by (induction xs) (auto split: option.splits)

lemma first_error_SomeD: "first_error f xs = Some e \<Longrightarrow> \<exists>x\<in>set xs. f x = Some e"
  by (induction xs) (auto split: option.splits)

section \<open>Go maps that are ranged over\<close>

text \<open>
  Go ranges over a map in an unspecified order. A function that ranges takes that order as a
  parameter: \<open>ranging ord\<close> says that \<open>ord\<close> visits every entry exactly once.
\<close>

definition ranging :: "('a list \<Rightarrow> 'a list) \<Rightarrow> bool" where
  "ranging ord \<longleftrightarrow> (\<forall>xs. mset (ord xs) = mset xs)"

lemma rangingD: "ranging ord \<Longrightarrow> mset (ord xs) = mset xs"
  by (simp add: ranging_def)

lemma ranging_set [range_simps]: "ranging ord \<Longrightarrow> set (ord xs) = set xs"
  by (metis rangingD set_mset_mset)

lemma ranging_length [range_simps]: "ranging ord \<Longrightarrow> length (ord xs) = length xs"
  by (metis rangingD size_mset)

lemma ranging_id [simp]: "ranging (\<lambda>xs. xs)"
  by (simp add: ranging_def)

lemma ranging_rev [simp]: "ranging rev"
  by (simp add: ranging_def)

lemma ranging_Nil: "ranging ord \<Longrightarrow> ord [] = []"
  using rangingD [of ord "[]"] by simp

text \<open>The maps themselves: \<open>distinct (map fst m)\<close> is their invariant.\<close>

definition wf_map :: "('k \<times> 'v) list \<Rightarrow> bool" where
  "wf_map m \<longleftrightarrow> distinct (map fst m)"

lemma wf_map_Nil [simp, intro]: "wf_map []"
  by (simp add: wf_map_def)

lemma wf_map_update [intro, simp]: "wf_map m \<Longrightarrow> wf_map (AList.update k v m)"
  by (simp add: wf_map_def distinct_update)

lemma wf_map_delete [intro, simp]: "wf_map m \<Longrightarrow> wf_map (AList.delete k m)"
  by (simp add: wf_map_def distinct_delete)

lemma map_of_update [simp]: "map_of (AList.update k v m) = (map_of m)(k \<mapsto> v)"
  by (simp add: update_conv')

lemma map_of_delete [simp]: "map_of (AList.delete k m) = (map_of m)(k := None)"
  by (simp add: delete_conv')

lemma wf_map_mem_iff: "wf_map m \<Longrightarrow> (k, v) \<in> set m \<longleftrightarrow> map_of m k = Some v"
  by (simp add: wf_map_def)

lemma update_absent: "map_of m k = None \<Longrightarrow> AList.update k v m = m @ [(k, v)]"
  by (induction m) (auto split: if_splits)

lemma update_mset:
  assumes "map_of m k = Some w" "wf_map m"
  shows "mset (AList.update k v m) = add_mset (k, v) (mset m - {#(k, w)#})"
  using assms
proof (induction m)
  case Nil
  then show ?case by simp
next
  case (Cons kv m)
  show ?case
  proof (cases "fst kv = k")
    case True
    with Cons.prems show ?thesis by (cases kv) auto
  next
    case False
    with Cons.prems have m: "map_of m k = Some w" "wf_map m"
      by (auto simp: wf_map_def split: if_splits)
    then have "(k, w) \<in># mset m" by (simp add: wf_map_mem_iff)
    with False Cons.IH [OF m] show ?thesis by (cases kv) auto
  qed
qed

section \<open>Sums, conditionals and counts\<close>

lemma Inr_if_iff [simp]:
  "(if b then Inl e else Inr x) = Inr y \<longleftrightarrow> \<not> b \<and> x = y"
  "(if b then Inr x else Inl e) = Inr y \<longleftrightarrow> b \<and> x = y"
  by auto

lemma unat_of_nat_u64: "n < 2 ^ 64 \<Longrightarrow> unat (of_nat n :: u64) = n"
  by (simp add: unsigned_of_nat take_bit_nat_eq_self)

lemma unat_less_u64: "unat (n :: u64) < 2 ^ 64"
proof -
  have "unat n < 2 ^ LENGTH(64)" by (rule unsigned_less)
  then show ?thesis by simp
qed

lemma of_nat_inject_u64:
  "m < 2 ^ 64 \<Longrightarrow> n < 2 ^ 64 \<Longrightarrow> (of_nat m :: u64) = of_nat n \<longleftrightarrow> m = n"
  by (metis unat_of_nat_u64)

lemma distinct_map_of_nat_u64: "n \<le> 2 ^ 64 \<Longrightarrow> distinct (map (of_nat :: nat \<Rightarrow> u64) [0..<n])"
  by (auto simp: distinct_map inj_on_def of_nat_inject_u64)

text \<open>The indices \<open>0, 1, \<dots>, n-1\<close> that \<open>for i := uint64(0); i < n; i++\<close> visits.\<close>

definition upto64 :: "u64 \<Rightarrow> u64 list" where
  "upto64 n = map of_nat [0..<unat n]"

lemma upto64_0 [simp]: "upto64 0 = []"
  by (simp add: upto64_def)

lemma set_upto64 [simp]: "set (upto64 n) = {i. i < n}"
proof -
  have "(\<lambda>k. of_nat k :: u64) ` {0..<unat n} = {i. i < n}"
  proof (intro set_eqI iffI)
    fix i :: u64
    assume "i \<in> (\<lambda>k. of_nat k) ` {0..<unat n}"
    then obtain k where "i = of_nat k" "k < unat n" by auto
    moreover note unat_less_u64 [of n]
    ultimately show "i \<in> {i. i < n}" by (simp add: word_less_nat_alt unat_of_nat_u64)
  next
    fix i :: u64
    assume "i \<in> {i. i < n}"
    then have "unat i < unat n" by (simp add: word_less_nat_alt)
    then show "i \<in> (\<lambda>k. of_nat k) ` {0..<unat n}"
      by (intro image_eqI [of _ _ "unat i"]) auto
  qed
  then show ?thesis by (simp add: upto64_def)
qed

lemma length_upto64 [simp]: "length (upto64 n) = unat n"
  by (simp add: upto64_def)

lemma nth_upto64 [simp]: "i < unat n \<Longrightarrow> upto64 n ! i = of_nat i"
  by (simp add: upto64_def)

lemma distinct_upto64 [simp]: "distinct (upto64 n)"
proof -
  have "unat n \<le> 2 ^ 64" using unat_less_u64 [of n] by simp
  then show ?thesis unfolding upto64_def by (rule distinct_map_of_nat_u64)
qed

end
