(* ===== verification/ModArith.thy ===== *)
theory ModArith
  imports Prelude
begin

text \<open>
  Arithmetic modulo the prime group order, as much of it as the threshold cryptography of
  \<open>shcrypto\<close> rests on: Fermat's little theorem (which makes \<open>invert\<close> an inverse) and Lagrange
  interpolation at zero (which makes \<open>ComputeEpochSecretKey\<close> independent of the set of
  keypers that sent shares). Nothing here models code.
\<close>

section \<open>Congruence\<close>

definition cng :: "int \<Rightarrow> int \<Rightarrow> int \<Rightarrow> bool" where
  "cng q a b \<longleftrightarrow> a mod q = b mod q"

named_theorems cng_intros \<open>congruence is kept by the ring operations\<close>

lemma cng_refl [simp, cng_intros]: "cng q a a"
  by (simp add: cng_def)

lemma cng_sym: "cng q a b \<Longrightarrow> cng q b a"
  by (simp add: cng_def)

lemma cng_trans [trans]: "cng q a b \<Longrightarrow> cng q b c \<Longrightarrow> cng q a c"
  by (simp add: cng_def)

lemma eq_cng_trans [trans]: "a = b \<Longrightarrow> cng q b c \<Longrightarrow> cng q a c"
  by simp

lemma cng_eq_trans [trans]: "cng q a b \<Longrightarrow> b = c \<Longrightarrow> cng q a c"
  by simp

lemma cng_add [cng_intros]: "cng q a b \<Longrightarrow> cng q c d \<Longrightarrow> cng q (a + c) (b + d)"
  unfolding cng_def by (rule mod_add_cong)

lemma cng_diff [cng_intros]: "cng q a b \<Longrightarrow> cng q c d \<Longrightarrow> cng q (a - c) (b - d)"
  unfolding cng_def by (rule mod_diff_cong)

lemma cng_mult [cng_intros]: "cng q a b \<Longrightarrow> cng q c d \<Longrightarrow> cng q (a * c) (b * d)"
  unfolding cng_def by (rule mod_mult_cong)

lemma cng_uminus [cng_intros]: "cng q a b \<Longrightarrow> cng q (- a) (- b)"
  using cng_diff [OF cng_refl, of q a b 0] by simp

lemma cng_sum [cng_intros]: "(\<And>i. i \<in> S \<Longrightarrow> cng q (f i) (g i)) \<Longrightarrow> cng q (sum f S) (sum g S)"
  unfolding cng_def by (metis (mono_tags, lifting) mod_sum_eq sum.cong)

lemma cng_prod [cng_intros]: "(\<And>i. i \<in> S \<Longrightarrow> cng q (f i) (g i)) \<Longrightarrow> cng q (prod f S) (prod g S)"
  unfolding cng_def by (metis (mono_tags, lifting) mod_prod_eq prod.cong)

lemma cng_mod [simp]: "cng q (a mod q) b = cng q a b" "cng q a (b mod q) = cng q a b"
  by (simp_all add: cng_def)

lemma cng_iff_dvd: "cng q a b \<longleftrightarrow> q dvd a - b"
  by (simp add: cng_def mod_eq_dvd_iff)

section \<open>The prime order\<close>

definition prime_order :: "int \<Rightarrow> bool" where
  "prime_order q \<longleftrightarrow> 1 < q \<and> (\<forall>d. 0 < d \<and> d dvd q \<longrightarrow> d = 1 \<or> d = q)"

lemma prime_order_gt1: "prime_order q \<Longrightarrow> 1 < q"
  by (simp add: prime_order_def)

lemma prime_order_coprime:
  assumes "prime_order q" "\<not> q dvd a"
  shows "coprime q a"
proof -
  have pos: "0 < gcd q a" using prime_order_gt1 [OF assms(1)] by (simp add: gcd_pos_int)
  then have "gcd q a = 1 \<or> gcd q a = q"
    using assms(1) unfolding prime_order_def by (meson gcd_dvd1)
  with assms(2) have "gcd q a = 1" by (metis gcd_dvd2)
  then show ?thesis by (simp add: coprime_iff_gcd_eq_1)
qed

lemma prime_order_dvd_mult:
  assumes "prime_order q" "q dvd a * b"
  shows "q dvd a \<or> q dvd b"
  using prime_order_coprime [OF assms(1), of a] assms(2) coprime_dvd_mult_right_iff by blast

lemma prime_order_cancel:
  assumes "prime_order q" "\<not> q dvd c" "cng q (c * a) (c * b)"
  shows "cng q a b"
  using prime_order_dvd_mult [OF assms(1), of c "a - b"] assms(2,3)
  by (simp add: cng_iff_dvd right_diff_distrib)

lemma prime_order_dvd_choose:
  assumes "prime_order q" "0 < k" "k < nat q"
  shows "q dvd int (nat q choose k)"
proof -
  have "k * (nat q choose k) = nat q * ((nat q - 1) choose (k - 1))"
    using assms(2) by (rule times_binomial_minus1_eq)
  then have "int k * int (nat q choose k) = q * int ((nat q - 1) choose (k - 1))"
    using prime_order_gt1 [OF assms(1)] by (metis int_nat_eq of_nat_mult not_less order.strict_trans2 zero_le_one less_imp_le)
  then have "q dvd int k * int (nat q choose k)" by simp
  moreover have "\<not> q dvd int k"
    using assms(2,3) by (auto dest: zdvd_imp_le)
  ultimately show ?thesis using prime_order_dvd_mult [OF assms(1)] by blast
qed

lemma binomial_mod_prime:
  assumes "prime_order q"
  shows "cng q ((a + 1) ^ nat q) (a ^ nat q + 1)"
proof -
  let ?n = "nat q"
  have n: "0 < ?n" using prime_order_gt1 [OF assms] by simp
  have "(a + 1) ^ ?n = (\<Sum>k\<le>?n. int (?n choose k) * a ^ k)"
    by (simp add: binomial_ring)
  also have "\<dots> = (\<Sum>k\<in>{0, ?n} \<union> {1..<?n}. int (?n choose k) * a ^ k)"
    using n by (intro sum.cong) auto
  also have "\<dots> = (\<Sum>k\<in>{0, ?n}. int (?n choose k) * a ^ k)
                 + (\<Sum>k\<in>{1..<?n}. int (?n choose k) * a ^ k)"
    by (rule sum.union_disjoint) auto
  also have "(\<Sum>k\<in>{0, ?n}. int (?n choose k) * a ^ k) = a ^ ?n + 1"
    using n by simp
  finally have eq: "(a + 1) ^ ?n = a ^ ?n + 1 + (\<Sum>k\<in>{1..<?n}. int (?n choose k) * a ^ k)" .
  have "q dvd (\<Sum>k\<in>{1..<?n}. int (?n choose k) * a ^ k)"
    by (rule dvd_sum) (auto intro!: dvd_mult2 prime_order_dvd_choose [OF assms])
  then show ?thesis by (simp add: eq cng_iff_dvd)
qed

lemma fermat_nat:
  assumes "prime_order q"
  shows "cng q (int a ^ nat q) (int a)"
proof (induction a)
  case 0
  have "0 < nat q" using prime_order_gt1 [OF assms] by simp
  then show ?case by (simp add: zero_power)
next
  case (Suc a)
  have "cng q ((int a + 1) ^ nat q) (int a ^ nat q + 1)" by (rule binomial_mod_prime [OF assms])
  also have "cng q (int a ^ nat q + 1) (int a + 1)" using Suc.IH by (intro cng_intros)
  finally show ?case by (simp add: add.commute)
qed

lemma fermat:
  assumes "prime_order q"
  shows "cng q (a ^ nat q) a"
proof -
  have "0 \<le> a mod q" using prime_order_gt1 [OF assms] by simp
  then obtain n where n: "a mod q = int n" using nonneg_int_cases by blast
  have "cng q (a ^ nat q) ((a mod q) ^ nat q)" by (simp add: power_mod cng_def)
  also have "cng q ((a mod q) ^ nat q) (a mod q)" unfolding n by (rule fermat_nat [OF assms])
  finally show ?thesis by simp
qed

lemma fermat_inverse:
  assumes "prime_order q" "\<not> q dvd a"
  shows "cng q (a * a ^ nat (q - 2)) 1"
proof -
  have q: "nat q = Suc (Suc (nat (q - 2)))" using prime_order_gt1 [OF assms(1)] by linarith
  have "cng q (a * (a * a ^ nat (q - 2))) (a * 1)"
    using fermat [OF assms(1), of a] unfolding q by (simp add: mult_ac)
  then show ?thesis by (rule prime_order_cancel [OF assms])
qed

section \<open>Polynomials given by their coefficients\<close>

text \<open>The lowest coefficient first, as in \<open>shcrypto.Polynomial\<close>.\<close>

primrec peval :: "int list \<Rightarrow> int \<Rightarrow> int" where
  "peval [] x = 0"
| "peval (c # cs) x = c + x * peval cs x"

lemma peval_snoc: "peval (cs @ [c]) x = peval cs x + c * x ^ length cs"
  by (induction cs) (auto simp: algebra_simps)

lemma peval_sum: "peval cs x = (\<Sum>i<length cs. cs ! i * x ^ i)"
  by (induction cs rule: rev_induct) (auto simp: peval_snoc nth_append)

lemma peval_cng: "cng q x y \<Longrightarrow> cng q (peval cs x) (peval cs y)"
  by (induction cs) (auto intro: cng_intros)

lemma peval_divide:
  "\<exists>r. length r = length p - 1 \<and> (\<forall>x. peval p x = peval p c + (x - c) * peval r x)"
proof (induction p)
  case Nil
  then show ?case by auto
next
  case (Cons a p)
  then obtain r where r: "length r = length p - 1" "\<And>x. peval p x = peval p c + (x - c) * peval r x"
    by blast
  show ?case
  proof (cases p)
    case Nil
    then show ?thesis by auto
  next
    case (Cons b p')
    have "\<forall>x. peval (a # p) x = peval (a # p) c + (x - c) * peval (peval p c # r) x"
    proof
      fix x
      have "peval (a # p) x = a + x * (peval p c + (x - c) * peval r x)"
        using r(2) [of x] by (simp only: peval.simps)
      also have "\<dots> = a + c * peval p c + (x - c) * (peval p c + x * peval r x)"
        by (simp add: algebra_simps)
      finally show "peval (a # p) x = peval (a # p) c + (x - c) * peval (peval p c # r) x"
        by (simp only: peval.simps)
    qed
    moreover have "length (peval p c # r) = length (a # p) - 1" using r(1) Cons by simp
    ultimately show ?thesis by blast
  qed
qed

text \<open>Coefficientwise sum, for the polynomial that the dealers of a DKG share between them.\<close>

fun padd :: "int list \<Rightarrow> int list \<Rightarrow> int list" where
  "padd [] ys = ys"
| "padd xs [] = xs"
| "padd (x # xs) (y # ys) = (x + y) # padd xs ys"

lemma peval_padd: "peval (padd xs ys) x = peval xs x + peval ys x"
  by (induction xs ys rule: padd.induct) (auto simp: algebra_simps)

lemma length_padd [simp]: "length (padd xs ys) = max (length xs) (length ys)"
  by (induction xs ys rule: padd.induct) auto

section \<open>Lagrange interpolation at zero\<close>

text \<open>
  \<open>x i\<close> are the evaluation points and \<open>d i j\<close> inverses of their differences. \<open>lagr x d S i\<close>
  is the coefficient of point \<open>i\<close> among the points \<open>S\<close>.
\<close>

definition lagr :: "('i \<Rightarrow> int) \<Rightarrow> ('i \<Rightarrow> 'i \<Rightarrow> int) \<Rightarrow> 'i set \<Rightarrow> 'i \<Rightarrow> int" where
  "lagr x d S i = (\<Prod>k\<in>S - {i}. x k * d i k)"

definition inverses :: "int \<Rightarrow> ('i \<Rightarrow> int) \<Rightarrow> ('i \<Rightarrow> 'i \<Rightarrow> int) \<Rightarrow> 'i set \<Rightarrow> bool" where
  "inverses q x d S \<longleftrightarrow> (\<forall>i\<in>S. \<forall>j\<in>S. i \<noteq> j \<longrightarrow> cng q ((x j - x i) * d i j) 1)"

lemma inversesD: "inverses q x d S \<Longrightarrow> i \<in> S \<Longrightarrow> j \<in> S \<Longrightarrow> i \<noteq> j \<Longrightarrow> cng q ((x j - x i) * d i j) 1"
  by (simp add: inverses_def)

lemma inverses_subset: "inverses q x d S \<Longrightarrow> T \<subseteq> S \<Longrightarrow> inverses q x d T"
  by (auto simp: inverses_def)

lemma lagr_insert:
  assumes "finite S" "a \<notin> S" "i \<noteq> a"
  shows "lagr x d (insert a S) i = x a * d i a * lagr x d S i"
proof -
  have "insert a S - {i} = insert a (S - {i})" using assms(3) by auto
  with assms show ?thesis by (simp add: lagr_def)
qed

lemma lagr_insert_self: "a \<notin> S \<Longrightarrow> lagr x d (insert a S) a = (\<Prod>k\<in>S. x k * d a k)"
  by (simp add: lagr_def)

lemma lagr_self: "a \<notin> S \<Longrightarrow> lagr x d (insert a S) a = lagr x d S a"
  by (simp add: lagr_def)

lemma neville_other:
  assumes "cng q ((xa - xi) * da) 1" "cng q ((xb - xi) * db) 1"
  shows "cng q ((xb - xa) * (xa * da * (xb * db * P))) (xb * (xa * da * P) - xa * (xb * db * P))"
proof -
  have "cng q (xa * xb * P * (((xb - xi) * db) * da - ((xa - xi) * da) * db))
          (xa * xb * P * (1 * da - 1 * db))"
    using assms by (intro cng_intros) auto
  then show ?thesis by (simp add: algebra_simps)
qed

lemma neville_step:
  assumes fin: "finite S" and ab: "a \<notin> S" "b \<notin> S" "a \<noteq> b"
    and inv: "inverses q x d (insert a (insert b S))" and i: "i \<in> S"
  shows "cng q ((x b - x a) * lagr x d (insert a (insert b S)) i)
          (x b * lagr x d (insert a S) i - x a * lagr x d (insert b S) i)"
proof -
  have ne: "i \<noteq> a" "i \<noteq> b" using ab i by auto
  have "cng q ((x a - x i) * d i a) 1" "cng q ((x b - x i) * d i b) 1"
    using inversesD [OF inv] i ne by auto
  from neville_other [OF this, of "lagr x d S i"] show ?thesis
    using fin ab ne by (simp add: lagr_insert)
qed

lemma lagr_sum_one:
  assumes "finite S" "S \<noteq> {}" "inverses q x d S"
  shows "cng q (\<Sum>i\<in>S. lagr x d S i) 1"
  using assms
proof (induction "card S" arbitrary: S rule: less_induct)
  case less
  obtain a where a: "a \<in> S" using less.prems(2) by auto
  show ?case
  proof (cases "S = {a}")
    case True
    then show ?thesis by (simp add: lagr_def)
  next
    case False
    then obtain b where b: "b \<in> S" "a \<noteq> b" using a by auto
    define T where "T = S - {a, b}"
    have T: "finite T" "a \<notin> T" "b \<notin> T" and S: "S = insert a (insert b T)"
      using less.prems(1) a b by (auto simp: T_def)
    note inv = less.prems(3) [unfolded S]
    have sum_a: "cng q (\<Sum>i\<in>insert a T. lagr x d (insert a T) i) 1"
      by (rule less.hyps) (use S T b inv in \<open>auto intro: inverses_subset\<close>)
    have sum_b: "cng q (\<Sum>i\<in>insert b T. lagr x d (insert b T) i) 1"
      by (rule less.hyps) (use S T b inv in \<open>auto intro: inverses_subset\<close>)
    have dab: "cng q ((x b - x a) * d a b) 1" "cng q ((x a - x b) * d b a) 1"
      using inversesD [OF inv] b by auto
    have at_a: "cng q ((x b - x a) * lagr x d S a) (x b * lagr x d (insert a T) a)"
    proof -
      have "lagr x d S a = x b * d a b * lagr x d T a"
        unfolding S using T b by (simp add: lagr_self lagr_insert)
      moreover have "lagr x d (insert a T) a = lagr x d T a" using T by (simp add: lagr_self)
      moreover have "cng q (x b * lagr x d T a * ((x b - x a) * d a b)) (x b * lagr x d T a * 1)"
        using dab(1) by (intro cng_intros) auto
      ultimately show ?thesis by (simp add: algebra_simps)
    qed
    have at_b: "cng q ((x b - x a) * lagr x d S b) (- (x a * lagr x d (insert b T) b))"
    proof -
      have "S = insert b (insert a T)" using S by auto
      then have "lagr x d S b = x a * d b a * lagr x d T b"
        using T b by (simp add: lagr_self lagr_insert)
      moreover have "lagr x d (insert b T) b = lagr x d T b" using T by (simp add: lagr_self)
      moreover have "cng q (- (x a * lagr x d T b * ((x a - x b) * d b a))) (- (x a * lagr x d T b * 1))"
        using dab(2) by (intro cng_intros) auto
      ultimately show ?thesis by (simp add: algebra_simps)
    qed
    have "(x b - x a) * (\<Sum>i\<in>S. lagr x d S i)
        = (x b - x a) * lagr x d S a + (x b - x a) * lagr x d S b
          + (\<Sum>i\<in>T. (x b - x a) * lagr x d S i)"
      using T b by (simp add: S sum_distrib_left algebra_simps)
    also have "cng q \<dots> (x b * lagr x d (insert a T) a - x a * lagr x d (insert b T) b
        + (\<Sum>i\<in>T. x b * lagr x d (insert a T) i - x a * lagr x d (insert b T) i))"
    proof -
      have "cng q (\<Sum>i\<in>T. (x b - x a) * lagr x d S i)
              (\<Sum>i\<in>T. x b * lagr x d (insert a T) i - x a * lagr x d (insert b T) i)"
        by (rule cng_sum) (use T b inv in \<open>auto simp: S intro: neville_step\<close>)
      from cng_add [OF cng_add [OF at_a at_b] this] show ?thesis by simp
    qed
    also have "x b * lagr x d (insert a T) a - x a * lagr x d (insert b T) b
        + (\<Sum>i\<in>T. x b * lagr x d (insert a T) i - x a * lagr x d (insert b T) i)
        = x b * (\<Sum>i\<in>insert a T. lagr x d (insert a T) i)
          - x a * (\<Sum>i\<in>insert b T. lagr x d (insert b T) i)"
      using T by (simp add: sum_subtractf sum_distrib_left algebra_simps)
    also have "cng q \<dots> (x b * 1 - x a * 1)"
      using sum_a sum_b by (intro cng_intros) auto
    finally have main: "cng q ((x b - x a) * (\<Sum>i\<in>S. lagr x d S i)) (x b - x a)" by simp
    have "cng q (\<Sum>i\<in>S. lagr x d S i) (((x b - x a) * d a b) * (\<Sum>i\<in>S. lagr x d S i))"
      using cng_mult [OF cng_sym [OF dab(1)] cng_refl, of "\<Sum>i\<in>S. lagr x d S i"] by simp
    also have "\<dots> = d a b * ((x b - x a) * (\<Sum>i\<in>S. lagr x d S i))" by (simp add: mult_ac)
    also have "cng q \<dots> (d a b * (x b - x a))"
      using main by (intro cng_intros)
    also have "d a b * (x b - x a) = (x b - x a) * d a b" by (rule mult.commute)
    also note dab(1)
    finally show ?thesis .
  qed
qed

theorem lagrange_at_zero:
  assumes "finite S" "inverses q x d S" "length p \<le> card S"
  shows "cng q (\<Sum>i\<in>S. peval p (x i) * lagr x d S i) (peval p 0)"
  using assms
proof (induction S arbitrary: p rule: finite_induct)
  case empty
  then show ?case by simp
next
  case (insert a S)
  obtain r where r: "length r = length p - 1"
      "\<And>y. peval p y = peval p (x a) + (y - x a) * peval r y"
    using peval_divide [of p "x a"] by blast
  let ?L = "lagr x d (insert a S)"
  have IH: "cng q (\<Sum>i\<in>S. peval r (x i) * lagr x d S i) (peval r 0)"
    using insert r(1) by (intro insert.IH) (auto intro: inverses_subset)
  have one: "cng q (\<Sum>i\<in>insert a S. ?L i) 1"
    using insert by (intro lagr_sum_one) auto
  have at: "cng q ((x i - x a) * peval r (x i) * ?L i) (- (x a * (peval r (x i) * lagr x d S i)))"
    if i: "i \<in> S" for i
  proof -
    have "i \<noteq> a" using i insert.hyps by auto
    then have L: "?L i = x a * d i a * lagr x d S i" using insert.hyps by (simp add: lagr_insert)
    have "cng q ((x a - x i) * d i a) 1"
      using inversesD [OF insert.prems(1), of i a] i \<open>i \<noteq> a\<close> by simp
    then have "cng q (- (x a * peval r (x i) * lagr x d S i * ((x a - x i) * d i a)))
        (- (x a * peval r (x i) * lagr x d S i * 1))"
      by (intro cng_intros) auto
    then show ?thesis by (simp add: L algebra_simps)
  qed
  have "(\<Sum>i\<in>insert a S. peval p (x i) * ?L i)
      = (\<Sum>i\<in>insert a S. peval p (x a) * ?L i + (x i - x a) * peval r (x i) * ?L i)"
  proof (rule sum.cong [OF refl])
    fix i
    show "peval p (x i) * ?L i = peval p (x a) * ?L i + (x i - x a) * peval r (x i) * ?L i"
      unfolding r(2) [of "x i"] by (rule distrib_right)
  qed
  also have "\<dots> = peval p (x a) * (\<Sum>i\<in>insert a S. ?L i) + (\<Sum>i\<in>S. (x i - x a) * peval r (x i) * ?L i)"
    using insert.hyps by (simp add: sum.distrib sum_distrib_left distrib_left)
  also have "cng q \<dots> (peval p (x a) * 1 + (\<Sum>i\<in>S. - (x a * (peval r (x i) * lagr x d S i))))"
    using one at by (intro cng_intros) auto
  also have "(\<Sum>i\<in>S. - (x a * (peval r (x i) * lagr x d S i)))
      = - (x a * (\<Sum>i\<in>S. peval r (x i) * lagr x d S i))"
    by (simp add: sum_negf sum_distrib_left)
  also have "cng q (peval p (x a) * 1 + - (x a * (\<Sum>i\<in>S. peval r (x i) * lagr x d S i)))
      (peval p (x a) * 1 + - (x a * peval r 0))"
    using IH by (intro cng_intros) auto
  also have "peval p (x a) * 1 + - (x a * peval r 0) = peval p 0"
    using r(2) [of 0] by simp
  finally show ?case .
qed

end
