(* ===== verification/GoLib.thy ===== *)
theory GoLib
  imports Prelude
begin

text \<open>
  The parts of Go's standard library that the program calls on data: \<open>sort.Search\<close>,
  \<open>strconv.FormatUint\<close> and \<open>ParseUint\<close>, \<open>strings.Join\<close> and \<open>Split\<close>, \<open>encoding/hex\<close>,
  \<open>encoding/base64\<close> (\<open>RawURLEncoding\<close>), \<open>encoding/binary\<close> (\<open>PutVarint\<close>) and the byte
  conversions of \<open>math/big\<close>. For each the facts its callers need: least index, round trips,
  injectivity.
\<close>

section \<open>sort.Search\<close>

text \<open>\<open>i, j := 0, n; for i < j { h := (i+j)/2; if !f(h) { i = h + 1 } else { j = h } }; return i\<close>\<close>

function sort_Search_loop :: "nat \<Rightarrow> nat \<Rightarrow> (nat \<Rightarrow> bool) \<Rightarrow> nat" where
  "sort_Search_loop i j f =
     (if i < j then (let h = (i + j) div 2 in
        if \<not> f h then sort_Search_loop (h + 1) j f else sort_Search_loop i h f)
      else i)"
  by pat_completeness auto
termination
  by (relation "measure (\<lambda>(i, j, f). j - i)") auto

declare sort_Search_loop.simps [simp del]

definition sort_Search :: "nat \<Rightarrow> (nat \<Rightarrow> bool) \<Rightarrow> nat" where
  "sort_Search n f = sort_Search_loop 0 n f"

definition upward :: "nat \<Rightarrow> (nat \<Rightarrow> bool) \<Rightarrow> bool" where
  "upward n f \<longleftrightarrow> (\<forall>a b. a \<le> b \<longrightarrow> b < n \<longrightarrow> f a \<longrightarrow> f b)"

lemma upwardD: "upward n f \<Longrightarrow> f a \<Longrightarrow> a \<le> b \<Longrightarrow> b < n \<Longrightarrow> f b"
  unfolding upward_def by blast

lemma sort_Search_loop_bounds:
  "i \<le> j \<Longrightarrow> i \<le> sort_Search_loop i j f \<and> sort_Search_loop i j f \<le> j"
proof (induction i j f rule: sort_Search_loop.induct)
  case (1 i j f)
  show ?case
  proof (cases "i < j")
    case True
    let ?h = "(i + j) div 2"
    have h: "i \<le> ?h" "?h < j" using True by auto
    show ?thesis
    proof (cases "f ?h")
      case False
      from "1.IH"(1) [OF True refl False] h True False show ?thesis
        by (simp add: sort_Search_loop.simps [of i j f] Let_def)
    next
      case t: True
      from "1.IH"(2) [OF True refl] t h True show ?thesis
        by (simp add: sort_Search_loop.simps [of i j f] Let_def)
    qed
  next
    case False
    then have "sort_Search_loop i j f = i" by (simp add: sort_Search_loop.simps [of i j f])
    with False "1.prems" show ?thesis by simp
  qed
qed

lemma sort_Search_loop_least:
  "i \<le> j \<Longrightarrow> j \<le> n \<Longrightarrow> upward n f \<Longrightarrow> (\<forall>k<i. \<not> f k) \<Longrightarrow> (\<forall>k. j \<le> k \<longrightarrow> k < n \<longrightarrow> f k) \<Longrightarrow>
   (\<forall>k < sort_Search_loop i j f. \<not> f k) \<and> (\<forall>k. sort_Search_loop i j f \<le> k \<longrightarrow> k < n \<longrightarrow> f k)"
proof (induction i j f rule: sort_Search_loop.induct)
  case (1 i j f)
  show ?case
  proof (cases "i < j")
    case True
    let ?h = "(i + j) div 2"
    have h: "i \<le> ?h" "?h < j" using True by auto
    show ?thesis
    proof (cases "f ?h")
      case False
      have "\<forall>k<?h + 1. \<not> f k"
        using False upwardD [OF "1.prems"(3)] h "1.prems"(2) by (metis Suc_eq_plus1 less_Suc_eq_le order.strict_trans2)
      with "1.IH"(1) [OF True refl False] "1.prems" h show ?thesis
        using True False by (simp add: sort_Search_loop.simps [of i j f] Let_def)
    next
      case t: True
      have "\<forall>k. ?h \<le> k \<longrightarrow> k < n \<longrightarrow> f k"
        using t upwardD [OF "1.prems"(3)] by blast
      with "1.IH"(2) [OF True refl] t "1.prems" h show ?thesis
        using True by (simp add: sort_Search_loop.simps [of i j f] Let_def)
    qed
  next
    case False
    then have "sort_Search_loop i j f = i" by (simp add: sort_Search_loop.simps [of i j f])
    with False "1.prems" show ?thesis by simp
  qed
qed

lemma sort_Search_le: "sort_Search n f \<le> n"
  unfolding sort_Search_def using sort_Search_loop_bounds [of 0 n f] by simp

lemma sort_Search_least:
  assumes "upward n f"
  shows "(\<forall>k < sort_Search n f. \<not> f k) \<and> (\<forall>k. sort_Search n f \<le> k \<longrightarrow> k < n \<longrightarrow> f k)"
  unfolding sort_Search_def using sort_Search_loop_least [of 0 n n f] assms by auto

section \<open>strconv: decimal numbers\<close>

definition digit_char :: "nat \<Rightarrow> char" where
  "digit_char d = char_of (48 + d)"

definition char_digit :: "char \<Rightarrow> nat option" where
  "char_digit c = (let n = of_char c in if 48 \<le> n \<and> n \<le> 57 then Some (n - 48) else None)"

lemma char_digit_char [simp]: "d < 10 \<Longrightarrow> char_digit (digit_char d) = Some d"
  by (simp add: char_digit_def digit_char_def of_char_of)

fun FormatUint :: "nat \<Rightarrow> string" where
  "FormatUint n = (if n < 10 then [digit_char n] else FormatUint (n div 10) @ [digit_char (n mod 10)])"

declare FormatUint.simps [simp del]

text \<open>The value of a non-empty string of digits, and \<open>ParseUint(s, 10, 64)\<close>: every other string and every value that
  does not fit into 64 bits is an error.\<close>

fun digits_value :: "nat \<Rightarrow> string \<Rightarrow> nat option" where
  "digits_value acc [] = Some acc"
| "digits_value acc (c # cs) =
     (case char_digit c of None \<Rightarrow> None | Some d \<Rightarrow> digits_value (10 * acc + d) cs)"

definition ParseUint :: "string \<Rightarrow> u64 result" where
  "ParseUint s =
     (if s = '''' then Inl (Errorf ''invalid syntax'')
      else case digits_value 0 s of
        None \<Rightarrow> Inl (Errorf ''invalid syntax'')
      | Some n \<Rightarrow> if n < 2 ^ 64 then Inr (of_nat n) else Inl (Errorf ''value out of range''))"

lemma FormatUint_nonempty [simp]: "FormatUint n \<noteq> []"
  by (subst FormatUint.simps) simp

lemma digits_value_snoc:
  "digits_value acc (s @ [c]) =
     (case digits_value acc s of None \<Rightarrow> None
      | Some n \<Rightarrow> map_option (\<lambda>d. 10 * n + d) (char_digit c))"
  by (induction s arbitrary: acc) (auto split: option.splits)

lemma digits_value_FormatUint: "digits_value 0 (FormatUint n) = Some n"
proof (induction n rule: FormatUint.induct)
  case (1 n)
  show ?case
  proof (cases "n < 10")
    case True
    then show ?thesis by (simp add: FormatUint.simps [of n])
  next
    case False
    with "1.IH" show ?thesis
      by (simp add: FormatUint.simps [of n] digits_value_snoc)
  qed
qed

lemma ParseUint_FormatUint [simp]: "ParseUint (FormatUint (unat v)) = Inr (v :: u64)"
  using unat_less_u64 [of v] by (simp add: ParseUint_def digits_value_FormatUint)

lemma set_FormatUint: "set (FormatUint n) \<subseteq> digit_char ` {..<10}"
proof (induction n rule: FormatUint.induct)
  case (1 n)
  then show ?case by (subst FormatUint.simps) auto
qed

section \<open>strings: Join and Split\<close>

fun strings_Join :: "string list \<Rightarrow> string" where
  "strings_Join [] = ''''"
| "strings_Join [s] = s"
| "strings_Join (s # t # ss) = s @ '','' @ strings_Join (t # ss)"

fun strings_Split :: "string \<Rightarrow> string list" where
  "strings_Split [] = [[]]"
| "strings_Split (c # cs) =
     (if c = CHR '','' then [] # strings_Split cs
      else (case strings_Split cs of [] \<Rightarrow> [[c]] | s # ss \<Rightarrow> (c # s) # ss))"

definition comma_free :: "string \<Rightarrow> bool" where
  "comma_free s \<longleftrightarrow> CHR '','' \<notin> set s"

lemma strings_Split_nonempty [simp]: "strings_Split s \<noteq> []"
  by (induction s) (auto split: list.splits)

lemma strings_Split_comma_free: "comma_free s \<Longrightarrow> strings_Split s = [s]"
  by (induction s) (auto simp: comma_free_def)

lemma strings_Split_append:
  "comma_free s \<Longrightarrow> strings_Split (s @ CHR '','' # t) = s # strings_Split t"
  by (induction s) (auto simp: comma_free_def)

lemma strings_Split_Join:
  "ss \<noteq> [] \<Longrightarrow> (\<forall>s\<in>set ss. comma_free s) \<Longrightarrow> strings_Split (strings_Join ss) = ss"
  by (induction ss rule: strings_Join.induct) (auto simp: strings_Split_comma_free strings_Split_append)

lemma strings_Join_eq_Nil: "strings_Join ss = '''' \<longleftrightarrow> ss = [] \<or> ss = ['''']"
  by (cases ss rule: strings_Join.cases) auto

section \<open>encoding/hex\<close>

definition hex_digit :: "nat \<Rightarrow> char" where
  "hex_digit n = (if n < 10 then char_of (48 + n) else char_of (87 + n))"

definition hex_value :: "char \<Rightarrow> nat option" where
  "hex_value c = (let n = of_char c in
     if 48 \<le> n \<and> n \<le> 57 then Some (n - 48)
     else if 97 \<le> n \<and> n \<le> 102 then Some (n - 87)
     else if 65 \<le> n \<and> n \<le> 70 then Some (n - 55) else None)"

lemma hex_value_digit [simp]: "n < 16 \<Longrightarrow> hex_value (hex_digit n) = Some n"
  by (simp add: hex_value_def hex_digit_def of_char_of)

definition byte_of_nat :: "nat \<Rightarrow> byte" where
  "byte_of_nat n = of_nat n"

lemma byte_of_nat_unat [simp]: "byte_of_nat (unat b) = b"
  by (simp add: byte_of_nat_def)

lemma unat_less_byte: "unat (b :: byte) < 256"
proof -
  have "unat b < 2 ^ LENGTH(8)" by (rule unsigned_less)
  then show ?thesis by simp
qed

lemma uint_byte_of_nat: "n < 256 \<Longrightarrow> uint (byte_of_nat n) = int n"
  by (simp add: byte_of_nat_def unsigned_of_nat take_bit_nat_eq_self)

lemma unat_byte_of_nat: "n < 256 \<Longrightarrow> unat (byte_of_nat n) = n"
  by (simp add: byte_of_nat_def unsigned_of_nat take_bit_nat_eq_self)

fun hex_EncodeToString :: "bytes \<Rightarrow> string" where
  "hex_EncodeToString [] = ''''"
| "hex_EncodeToString (b # bs) =
     hex_digit (unat b div 16) # hex_digit (unat b mod 16) # hex_EncodeToString bs"

fun hex_DecodeString :: "string \<Rightarrow> bytes result" where
  "hex_DecodeString [] = Inr []"
| "hex_DecodeString [c] = Inl (Errorf ''encoding/hex: odd length hex string'')"
| "hex_DecodeString (c # d # cs) =
     (case (hex_value c, hex_value d) of
        (Some m, Some n) \<Rightarrow>
          (case hex_DecodeString cs of Inl e \<Rightarrow> Inl e | Inr bs \<Rightarrow> Inr (byte_of_nat (16 * m + n) # bs))
      | _ \<Rightarrow> Inl (Errorf ''encoding/hex: invalid byte''))"

lemma hex_Decode_Encode [simp]: "hex_DecodeString (hex_EncodeToString bs) = Inr bs"
proof (induction bs)
  case Nil
  then show ?case by simp
next
  case (Cons b bs)
  have "unat b div 16 < 16" using unat_less_byte [of b] by (simp add: less_mult_imp_div_less)
  with Cons show ?case by simp
qed

lemma hex_digit_not_comma: "n < 16 \<Longrightarrow> hex_digit n \<noteq> CHR '',''"
proof
  assume n: "n < 16" and eq: "hex_digit n = CHR '',''"
  from n have "hex_value (hex_digit n) = Some n" by simp
  with eq show False by (simp add: hex_value_def)
qed

lemma comma_not_hex_digit: "n < 16 \<Longrightarrow> CHR '','' \<noteq> hex_digit n"
  using hex_digit_not_comma [of n] by metis

lemma comma_free_hex [simp]: "comma_free (hex_EncodeToString bs)"
proof (induction bs)
  case Nil
  then show ?case by (simp add: comma_free_def)
next
  case (Cons b bs)
  have "unat b div 16 < 16" using unat_less_byte [of b] by (simp add: less_mult_imp_div_less)
  with Cons show ?case by (auto simp: comma_free_def comma_not_hex_digit)
qed

section \<open>encoding/base64: RawURLEncoding\<close>

definition b64_alphabet :: string where
  "b64_alphabet = ''ABCDEFGHIJKLMNOPQRSTUVWXYZabcdefghijklmnopqrstuvwxyz0123456789-_''"

definition b64_char :: "nat \<Rightarrow> char" where
  "b64_char n = b64_alphabet ! n"

definition b64_value :: "char \<Rightarrow> nat option" where
  "b64_value c = find_index (\<lambda>x. x = c) b64_alphabet"

fun b64_EncodeToString :: "bytes \<Rightarrow> string" where
  "b64_EncodeToString [] = ''''"
| "b64_EncodeToString [a] = [b64_char (unat a div 4), b64_char (unat a mod 4 * 16)]"
| "b64_EncodeToString [a, b] =
     [b64_char (unat a div 4), b64_char (unat a mod 4 * 16 + unat b div 16),
      b64_char (unat b mod 16 * 4)]"
| "b64_EncodeToString (a # b # c # bs) =
     b64_char (unat a div 4) # b64_char (unat a mod 4 * 16 + unat b div 16) #
     b64_char (unat b mod 16 * 4 + unat c div 64) # b64_char (unat c mod 64) #
     b64_EncodeToString bs"

text \<open>The decoder drops carriage returns and line feeds; the bits left over at the end are ignored.\<close>

fun b64_decode_values :: "nat list \<Rightarrow> bytes result" where
  "b64_decode_values [] = Inr []"
| "b64_decode_values [x] = Inl (Errorf ''illegal base64 data'')"
| "b64_decode_values [x, y] = Inr [byte_of_nat (x * 4 + y div 16)]"
| "b64_decode_values [x, y, z] =
     Inr [byte_of_nat (x * 4 + y div 16), byte_of_nat (y mod 16 * 16 + z div 4)]"
| "b64_decode_values (x # y # z # w # vs) =
     (case b64_decode_values vs of Inl e \<Rightarrow> Inl e
      | Inr bs \<Rightarrow> Inr (byte_of_nat (x * 4 + y div 16) # byte_of_nat (y mod 16 * 16 + z div 4) #
                      byte_of_nat (z mod 4 * 64 + w) # bs))"

definition b64_DecodeString :: "string \<Rightarrow> bytes result" where
  "b64_DecodeString s =
     (case collect (\<lambda>c. case b64_value c of
          None \<Rightarrow> Inl (Errorf ''illegal base64 data'') | Some v \<Rightarrow> Inr v)
        (filter (\<lambda>c. of_char c \<noteq> (10 :: nat) \<and> of_char c \<noteq> (13 :: nat)) s) of
      Inl e \<Rightarrow> Inl e | Inr vs \<Rightarrow> b64_decode_values vs)"

lemma b64_alphabet_distinct: "distinct b64_alphabet"
  by (simp add: b64_alphabet_def)

lemma b64_alphabet_length: "length b64_alphabet = 64"
  by (simp add: b64_alphabet_def)

lemma b64_value_char [simp]: "n < 64 \<Longrightarrow> b64_value (b64_char n) = Some n"
  unfolding b64_value_def b64_char_def
  by (rule find_index_nth_distinct) (auto simp: b64_alphabet_distinct b64_alphabet_length)

lemma b64_char_printable:
  "n < 64 \<Longrightarrow> of_char (b64_char n) \<noteq> (10 :: nat) \<and> of_char (b64_char n) \<noteq> (13 :: nat)"
proof -
  assume "n < 64"
  then have "b64_char n \<in> set b64_alphabet" by (simp add: b64_char_def b64_alphabet_length)
  moreover have "\<forall>c\<in>set b64_alphabet. of_char c \<noteq> (10 :: nat) \<and> of_char c \<noteq> (13 :: nat)"
    unfolding b64_alphabet_def by simp
  ultimately show ?thesis by blast
qed

fun b64_values :: "bytes \<Rightarrow> nat list" where
  "b64_values [] = []"
| "b64_values [a] = [unat a div 4, unat a mod 4 * 16]"
| "b64_values [a, b] = [unat a div 4, unat a mod 4 * 16 + unat b div 16, unat b mod 16 * 4]"
| "b64_values (a # b # c # bs) =
     unat a div 4 # (unat a mod 4 * 16 + unat b div 16) # (unat b mod 16 * 4 + unat c div 64) #
     unat c mod 64 # b64_values bs"

lemma b64_encode_values: "b64_EncodeToString bs = map b64_char (b64_values bs)"
  by (induction bs rule: b64_EncodeToString.induct) auto

lemma b64_bounds:
  fixes a b :: nat
  assumes "a < 256" "b < 256"
  shows "a div 4 < 64" "a mod 4 * 16 < 64" "a mod 4 * 16 + b div 16 < 64" "a mod 16 * 4 < 64"
    "a mod 16 * 4 + b div 64 < 64" "a mod 64 < 64"
proof -
  have "a div 4 < 64" "b div 16 < 16" "b div 64 < 4"
    using assms by (simp_all add: less_mult_imp_div_less)
  moreover have "a mod 4 < 4" "a mod 16 < 16" by simp_all
  ultimately show "a div 4 < 64" "a mod 4 * 16 < 64" "a mod 4 * 16 + b div 16 < 64"
    "a mod 16 * 4 < 64" "a mod 16 * 4 + b div 64 < 64" "a mod 64 < 64"
    by linarith+
qed

lemma b64_values_less: "v \<in> set (b64_values bs) \<Longrightarrow> v < 64"
proof (induction bs rule: b64_values.induct)
  case 1
  then show ?case by simp
next
  case (2 a)
  then show ?case using b64_bounds [of "unat a" "unat a"] unat_less_byte by auto
next
  case (3 a b)
  then show ?case
    using b64_bounds [of "unat a" "unat b"] b64_bounds [of "unat b" "unat b"] unat_less_byte
    by auto
next
  case (4 a b c bs)
  then show ?case
    using b64_bounds [of "unat a" "unat b"] b64_bounds [of "unat b" "unat c"]
      b64_bounds [of "unat c" "unat c"] unat_less_byte
    by auto
qed

lemma b64_join:
  fixes a b c :: nat
  assumes "b < 256" "c < 256"
  shows
    "a div 4 * 4 + a mod 4 * 16 div 16 = a"
    "a div 4 * 4 + (a mod 4 * 16 + b div 16) div 16 = a"
    "(a mod 4 * 16 + b div 16) mod 16 * 16 + b mod 16 * 4 div 4 = b"
    "(a mod 4 * 16 + b div 16) mod 16 * 16 + (b mod 16 * 4 + c div 64) div 4 = b"
    "(b mod 16 * 4 + c div 64) mod 4 * 64 + c mod 64 = c"
proof -
  have join: "(k * n + r) div n = k" "(k * n + r) mod n = r" if "r < n" for k n r :: nat
    using that by simp_all
  have "b div 16 < 16" "c div 64 < 4"
    using assms by (simp_all add: less_mult_imp_div_less)
  note parts = join [OF this(1), of "a mod 4"] join [OF this(2), of "b mod 16"]
  show
    "a div 4 * 4 + a mod 4 * 16 div 16 = a"
    "a div 4 * 4 + (a mod 4 * 16 + b div 16) div 16 = a"
    "(a mod 4 * 16 + b div 16) mod 16 * 16 + b mod 16 * 4 div 4 = b"
    "(a mod 4 * 16 + b div 16) mod 16 * 16 + (b mod 16 * 4 + c div 64) div 4 = b"
    "(b mod 16 * 4 + c div 64) mod 4 * 64 + c mod 64 = c"
    by (simp_all only: parts div_mult_mod_eq nonzero_mult_div_cancel_right zero_neq_numeral
        not_False_eq_True)
qed

lemma b64_decode_values_values: "b64_decode_values (b64_values bs) = Inr bs"
proof (induction bs rule: b64_values.induct)
  case 1
  then show ?case by simp
next
  case (2 a)
  then show ?case by (simp add: b64_join(1) [of 0 0])
next
  case (3 a b)
  show ?case
    by (simp only: b64_values.simps b64_decode_values.simps byte_of_nat_unat
        b64_join(2,3) [OF unat_less_byte unat_less_byte])
next
  case (4 a b c bs)
  then show ?case
    by (simp only: b64_values.simps b64_decode_values.simps byte_of_nat_unat sum.case
        b64_join(2,4,5) [OF unat_less_byte unat_less_byte])
qed

lemma b64_Decode_Encode [simp]: "b64_DecodeString (b64_EncodeToString bs) = Inr bs"
proof -
  let ?ok = "\<lambda>c. of_char c \<noteq> (10 :: nat) \<and> of_char c \<noteq> (13 :: nat)"
  let ?val = "\<lambda>c. case b64_value c of None \<Rightarrow> Inl (Errorf ''illegal base64 data'') | Some v \<Rightarrow> Inr v"
  have "filter ?ok (b64_EncodeToString bs) = b64_EncodeToString bs"
    unfolding b64_encode_values filter_id_conv
    by (auto dest: b64_values_less b64_char_printable)
  moreover have "collect ?val (b64_EncodeToString bs) = Inr (b64_values bs)"
    unfolding b64_encode_values by (rule collect_map) (auto dest: b64_values_less)
  ultimately show ?thesis by (simp add: b64_DecodeString_def b64_decode_values_values)
qed

section \<open>math/big: Bytes and SetBytes\<close>

text \<open>\<open>Bytes\<close> is the big-endian absolute value without leading zeros, \<open>SetBytes\<close> its inverse.\<close>

fun nat_bytes :: "nat \<Rightarrow> bytes" where
  "nat_bytes n = (if n = 0 then [] else nat_bytes (n div 256) @ [byte_of_nat (n mod 256)])"

declare nat_bytes.simps [simp del]

definition big_Bytes :: "int \<Rightarrow> bytes" where
  "big_Bytes i = nat_bytes (nat \<bar>i\<bar>)"

definition big_SetBytes :: "bytes \<Rightarrow> int" where
  "big_SetBytes bs = foldl (\<lambda>n b. 256 * n + int (unat b)) 0 bs"

lemma SetBytes_nat_bytes: "big_SetBytes (nat_bytes n) = int n"
proof (induction n rule: nat_bytes.induct)
  case (1 n)
  show ?case
  proof (cases "n = 0")
    case True
    then show ?thesis by (subst nat_bytes.simps) (simp add: big_SetBytes_def)
  next
    case False
    have "big_SetBytes (nat_bytes n) = 256 * big_SetBytes (nat_bytes (n div 256)) + int (n mod 256)"
      using False by (subst nat_bytes.simps) (simp add: big_SetBytes_def uint_byte_of_nat)
    also have "\<dots> = int n" using "1.IH" False by (simp add: zdiv_int zmod_int)
    finally show ?thesis .
  qed
qed

lemma SetBytes_Bytes [simp]: "0 \<le> i \<Longrightarrow> big_SetBytes (big_Bytes i) = i"
  by (simp add: big_Bytes_def SetBytes_nat_bytes)

lemma SetBytes_nonneg [simp]: "0 \<le> big_SetBytes bs"
  unfolding big_SetBytes_def by (induction bs rule: rev_induct) auto

section \<open>encoding/binary: PutVarint\<close>

text \<open>
  \<open>PutVarint(buf, x)\<close> overwrites a prefix of the buffer with the zig-zag encoding of \<open>x\<close>, seven
  bits a byte, and leaves the rest of the buffer as it was. Only called with \<open>0 \<le> x\<close>.
\<close>

fun uvarint :: "nat \<Rightarrow> bytes" where
  "uvarint n = (if n < 128 then [byte_of_nat n] else byte_of_nat (128 + n mod 128) # uvarint (n div 128))"

declare uvarint.simps [simp del]

definition PutVarint :: "bytes \<Rightarrow> nat \<Rightarrow> bytes" where
  "PutVarint buf x = uvarint (2 * x) @ drop (length (uvarint (2 * x))) buf"

text \<open>Reading a number back from the front of a buffer.\<close>

fun uvarint_value :: "bytes \<Rightarrow> nat" where
  "uvarint_value [] = 0"
| "uvarint_value (b # bs) = (if unat b < 128 then unat b else unat b - 128 + 128 * uvarint_value bs)"

lemma uvarint_value_uvarint: "uvarint_value (uvarint n @ rest) = n"
proof (induction n rule: uvarint.induct)
  case (1 n)
  show ?case
  proof (cases "n < 128")
    case True
    then show ?thesis by (subst uvarint.simps) (simp add: unat_byte_of_nat)
  next
    case False
    have "unat (byte_of_nat (128 + n mod 128)) = 128 + n mod 128"
      by (rule unat_byte_of_nat) (use mod_less_divisor [of 128 n] in linarith)
    with False "1.IH" show ?thesis by (subst uvarint.simps) simp
  qed
qed

lemma PutVarint_inject: "PutVarint buf x = PutVarint buf' y \<Longrightarrow> x = y"
proof -
  assume "PutVarint buf x = PutVarint buf' y"
  then have "uvarint_value (PutVarint buf x) = uvarint_value (PutVarint buf' y)" by simp
  then show "x = y" by (simp add: PutVarint_def uvarint_value_uvarint)
qed

end
