(* ===== verification/Extern.thy ===== *)
theory Extern
  imports ModArith GoLib
begin

text \<open>
  The third-party code the program calls, as parameters of the model. Two records bundle the
  functions: \<open>bn256\<close> for the pairing-friendly curve of go-ethereum (\<open>crypto/bn256/cloudflare\<close>)
  together with \<open>crypto.Keccak256\<close>, and \<open>eth\<close> for the rest of go-ethereum that handles data
  (\<open>common.Address\<close>, \<open>hexutil\<close>, \<open>crypto\<close>, \<open>ecies\<close>). Nothing is defined for them; the
  predicates \<open>bn_ok\<close> and \<open>eth_ok\<close> name the documented behaviour that theorems rely on.
\<close>

section \<open>bn256\<close>

text \<open>
  \<open>'g1\<close>, \<open>'g2\<close> and \<open>'gt\<close> are the points of the three groups. An \<open>Unmarshal\<close> returns the point and
  the bytes that follow it, or nothing when it fails.
\<close>

record ('g1, 'g2, 'gt) bn256 =
  Order :: int
  G1_ScalarBaseMult :: "int \<Rightarrow> 'g1"
  G1_ScalarMult :: "'g1 \<Rightarrow> int \<Rightarrow> 'g1"
  G1_Add :: "'g1 \<Rightarrow> 'g1 \<Rightarrow> 'g1"
  G1_Neg :: "'g1 \<Rightarrow> 'g1"
  G1_Marshal :: "'g1 \<Rightarrow> bytes"
  G1_Unmarshal :: "bytes \<Rightarrow> ('g1 \<times> bytes) option"
  G2_ScalarBaseMult :: "int \<Rightarrow> 'g2"
  G2_ScalarMult :: "'g2 \<Rightarrow> int \<Rightarrow> 'g2"
  G2_Add :: "'g2 \<Rightarrow> 'g2 \<Rightarrow> 'g2"
  G2_Marshal :: "'g2 \<Rightarrow> bytes"
  G2_Unmarshal :: "bytes \<Rightarrow> ('g2 \<times> bytes) option"
  GT_ScalarMult :: "'gt \<Rightarrow> int \<Rightarrow> 'gt"
  GT_Marshal :: "'gt \<Rightarrow> bytes"
  GT_Unmarshal :: "bytes \<Rightarrow> ('gt \<times> bytes) option"
  Pair :: "'g1 \<Rightarrow> 'g2 \<Rightarrow> 'gt"
  PairingCheck :: "'g1 list \<Rightarrow> 'g2 list \<Rightarrow> bool"
  Keccak256 :: "bytes \<Rightarrow> bytes"

text \<open>
  The documented behaviour: G1 and G2 are cyclic groups of the same prime order, generated by
  the base points; the pairing is bilinear and non-degenerate; \<open>PairingCheck\<close> decides whether
  the product of the pairings is one; marshalling a point and reading it back gives the point.
\<close>

definition g1_ok :: "('g1, 'g2, 'gt) bn256 \<Rightarrow> bool" where
  "g1_ok B \<longleftrightarrow>
     (\<forall>g. \<exists>a. g = G1_ScalarBaseMult B a) \<and>
     (\<forall>a b. G1_ScalarBaseMult B a = G1_ScalarBaseMult B b \<longleftrightarrow> cng (Order B) a b) \<and>
     (\<forall>a b. G1_Add B (G1_ScalarBaseMult B a) (G1_ScalarBaseMult B b) = G1_ScalarBaseMult B (a + b)) \<and>
     (\<forall>a k. G1_ScalarMult B (G1_ScalarBaseMult B a) k = G1_ScalarBaseMult B (a * k)) \<and>
     (\<forall>a. G1_Neg B (G1_ScalarBaseMult B a) = G1_ScalarBaseMult B (- a)) \<and>
     (\<forall>g rest. G1_Unmarshal B (G1_Marshal B g @ rest) = Some (g, rest))"

definition g2_ok :: "('g1, 'g2, 'gt) bn256 \<Rightarrow> bool" where
  "g2_ok B \<longleftrightarrow>
     (\<forall>g. \<exists>a. g = G2_ScalarBaseMult B a) \<and>
     (\<forall>a b. G2_ScalarBaseMult B a = G2_ScalarBaseMult B b \<longleftrightarrow> cng (Order B) a b) \<and>
     (\<forall>a b. G2_Add B (G2_ScalarBaseMult B a) (G2_ScalarBaseMult B b) = G2_ScalarBaseMult B (a + b)) \<and>
     (\<forall>a k. G2_ScalarMult B (G2_ScalarBaseMult B a) k = G2_ScalarBaseMult B (a * k)) \<and>
     (\<forall>g rest. G2_Unmarshal B (G2_Marshal B g @ rest) = Some (g, rest)) \<and>
     (\<forall>g. G2_Marshal B g \<noteq> []) \<and> G2_Unmarshal B [] = None"

definition pairing_ok :: "('g1, 'g2, 'gt) bn256 \<Rightarrow> bool" where
  "pairing_ok B \<longleftrightarrow>
     (\<forall>a b c d. Pair B (G1_ScalarBaseMult B a) (G2_ScalarBaseMult B b)
              = Pair B (G1_ScalarBaseMult B c) (G2_ScalarBaseMult B d) \<longleftrightarrow> cng (Order B) (a * b) (c * d)) \<and>
     (\<forall>a b k. GT_ScalarMult B (Pair B (G1_ScalarBaseMult B a) (G2_ScalarBaseMult B b)) k
              = Pair B (G1_ScalarBaseMult B (a * k)) (G2_ScalarBaseMult B b)) \<and>
     (\<forall>a b c d. PairingCheck B [G1_ScalarBaseMult B a, G1_ScalarBaseMult B c]
                  [G2_ScalarBaseMult B b, G2_ScalarBaseMult B d]
              \<longleftrightarrow> cng (Order B) (a * b + c * d) 0)"

definition bn_ok :: "('g1, 'g2, 'gt) bn256 \<Rightarrow> bool" where
  "bn_ok B \<longleftrightarrow> prime_order (Order B) \<and> g1_ok B \<and> g2_ok B \<and> pairing_ok B \<and>
     (\<forall>d. length (Keccak256 B d) = 32)"

lemma bn_prime: "bn_ok B \<Longrightarrow> prime_order (Order B)"
  by (simp add: bn_ok_def)

lemma bn_order_pos: "bn_ok B \<Longrightarrow> 0 < Order B"
  using prime_order_gt1 bn_prime by fastforce

lemma Keccak256_length: "bn_ok B \<Longrightarrow> length (Keccak256 B d) = 32"
  by (simp add: bn_ok_def)

lemma G1_exp: "bn_ok B \<Longrightarrow> \<exists>a. g = G1_ScalarBaseMult B a"
  unfolding bn_ok_def g1_ok_def by blast

lemma G2_exp: "bn_ok B \<Longrightarrow> \<exists>a. g = G2_ScalarBaseMult B a"
  unfolding bn_ok_def g2_ok_def by blast

lemma G1_eq_iff: "bn_ok B \<Longrightarrow> G1_ScalarBaseMult B a = G1_ScalarBaseMult B b \<longleftrightarrow> cng (Order B) a b"
  unfolding bn_ok_def g1_ok_def by blast

lemma G2_eq_iff: "bn_ok B \<Longrightarrow> G2_ScalarBaseMult B a = G2_ScalarBaseMult B b \<longleftrightarrow> cng (Order B) a b"
  unfolding bn_ok_def g2_ok_def by blast

lemma G1_add: "bn_ok B \<Longrightarrow> G1_Add B (G1_ScalarBaseMult B a) (G1_ScalarBaseMult B b) = G1_ScalarBaseMult B (a + b)"
  unfolding bn_ok_def g1_ok_def by blast

lemma G2_add: "bn_ok B \<Longrightarrow> G2_Add B (G2_ScalarBaseMult B a) (G2_ScalarBaseMult B b) = G2_ScalarBaseMult B (a + b)"
  unfolding bn_ok_def g2_ok_def by blast

lemma G1_mult: "bn_ok B \<Longrightarrow> G1_ScalarMult B (G1_ScalarBaseMult B a) k = G1_ScalarBaseMult B (a * k)"
  unfolding bn_ok_def g1_ok_def by blast

lemma G2_mult: "bn_ok B \<Longrightarrow> G2_ScalarMult B (G2_ScalarBaseMult B a) k = G2_ScalarBaseMult B (a * k)"
  unfolding bn_ok_def g2_ok_def by blast

lemma G1_neg: "bn_ok B \<Longrightarrow> G1_Neg B (G1_ScalarBaseMult B a) = G1_ScalarBaseMult B (- a)"
  unfolding bn_ok_def g1_ok_def by blast

lemma G1_Unmarshal_Marshal: "bn_ok B \<Longrightarrow> G1_Unmarshal B (G1_Marshal B g @ rest) = Some (g, rest)"
  unfolding bn_ok_def g1_ok_def by blast

lemma G2_Unmarshal_Marshal: "bn_ok B \<Longrightarrow> G2_Unmarshal B (G2_Marshal B g @ rest) = Some (g, rest)"
  unfolding bn_ok_def g2_ok_def by blast

lemma G2_Marshal_nonempty: "bn_ok B \<Longrightarrow> G2_Marshal B g \<noteq> []"
  unfolding bn_ok_def g2_ok_def by blast

lemma G2_Unmarshal_Nil: "bn_ok B \<Longrightarrow> G2_Unmarshal B [] = None"
  unfolding bn_ok_def g2_ok_def by blast

lemma G1_Unmarshal_Marshal1: "bn_ok B \<Longrightarrow> G1_Unmarshal B (G1_Marshal B g) = Some (g, [])"
  using G1_Unmarshal_Marshal [of B g "[]"] by simp

lemma G2_Unmarshal_Marshal1: "bn_ok B \<Longrightarrow> G2_Unmarshal B (G2_Marshal B g) = Some (g, [])"
  using G2_Unmarshal_Marshal [of B g "[]"] by simp

lemma G2_Marshal_inject: "bn_ok B \<Longrightarrow> G2_Marshal B g = G2_Marshal B h \<longleftrightarrow> g = h"
  by (metis G2_Unmarshal_Marshal1 option.inject prod.inject)

lemma Pair_eq_iff: "bn_ok B \<Longrightarrow>
    Pair B (G1_ScalarBaseMult B a) (G2_ScalarBaseMult B b)
  = Pair B (G1_ScalarBaseMult B c) (G2_ScalarBaseMult B d) \<longleftrightarrow> cng (Order B) (a * b) (c * d)"
  unfolding bn_ok_def pairing_ok_def by blast

lemma GT_mult: "bn_ok B \<Longrightarrow>
    GT_ScalarMult B (Pair B (G1_ScalarBaseMult B a) (G2_ScalarBaseMult B b)) k
  = Pair B (G1_ScalarBaseMult B (a * k)) (G2_ScalarBaseMult B b)"
  unfolding bn_ok_def pairing_ok_def by blast

lemma PairingCheck_two: "bn_ok B \<Longrightarrow>
    PairingCheck B [G1_ScalarBaseMult B a, G1_ScalarBaseMult B c]
      [G2_ScalarBaseMult B b, G2_ScalarBaseMult B d]
  \<longleftrightarrow> cng (Order B) (a * b + c * d) 0"
  unfolding bn_ok_def pairing_ok_def by blast

lemmas group_simps = G1_eq_iff G2_eq_iff G1_add G2_add G1_mult G2_mult G1_neg Pair_eq_iff GT_mult
  PairingCheck_two

section \<open>go-ethereum: addresses, hexutil, crypto, ecies\<close>

text \<open>
  \<open>'pk\<close> and \<open>'sk\<close> are ECDSA keys, \<open>'ek\<close> and \<open>'dk\<close> the ecies public and private keys. A random
  reader handed to \<open>ecies.Encrypt\<close> is the bytes it yields.
\<close>

record ('pk, 'sk, 'ek, 'dk) eth =
  BytesToAddress :: "bytes \<Rightarrow> address"
  Address_Bytes :: "address \<Rightarrow> bytes"
  Address_Hex :: "address \<Rightarrow> string"
  HexToAddress :: "string \<Rightarrow> address"
  IsHexAddress :: "string \<Rightarrow> bool"
  hexutil_Encode :: "bytes \<Rightarrow> string"
  hexutil_Decode :: "string \<Rightarrow> bytes result"
  FromECDSAPub :: "'pk \<Rightarrow> bytes"
  UnmarshalPubkey :: "bytes \<Rightarrow> 'pk result"
  CompressPubkey :: "'pk \<Rightarrow> bytes"
  DecompressPubkey :: "bytes \<Rightarrow> 'pk result"
  ImportECDSAPublic :: "'pk \<Rightarrow> 'ek"
  ExportECDSA :: "'ek \<Rightarrow> 'pk"
  crypto_Sign :: "bytes \<Rightarrow> 'sk \<Rightarrow> bytes result"
  SigToPub :: "bytes \<Rightarrow> bytes \<Rightarrow> 'pk result"
  PubkeyToAddress :: "'pk \<Rightarrow> address"
  sk_PublicKey :: "'sk \<Rightarrow> 'pk"
  dk_PublicKey :: "'dk \<Rightarrow> 'ek"
  ecies_Encrypt :: "bytes \<Rightarrow> 'ek \<Rightarrow> bytes \<Rightarrow> bytes result"
  ecies_Decrypt :: "'dk \<Rightarrow> bytes \<Rightarrow> bytes result"

definition address_ok :: "('pk, 'sk, 'ek, 'dk) eth \<Rightarrow> bool" where
  "address_ok E \<longleftrightarrow>
     (\<forall>a. length (Address_Bytes E a) = 20 \<and> BytesToAddress E (Address_Bytes E a) = a) \<and>
     (\<forall>a. HexToAddress E (Address_Hex E a) = a \<and> IsHexAddress E (Address_Hex E a) \<and>
          comma_free (Address_Hex E a) \<and> Address_Hex E a \<noteq> '''')"

definition hexutil_ok :: "('pk, 'sk, 'ek, 'dk) eth \<Rightarrow> bool" where
  "hexutil_ok E \<longleftrightarrow>
     (\<forall>d. hexutil_Decode E (hexutil_Encode E d) = Inr d \<and>
          comma_free (hexutil_Encode E d) \<and> hexutil_Encode E d \<noteq> '''')"

definition keys_ok :: "('pk, 'sk, 'ek, 'dk) eth \<Rightarrow> bool" where
  "keys_ok E \<longleftrightarrow>
     (\<forall>p. UnmarshalPubkey E (FromECDSAPub E p) = Inr p \<and> DecompressPubkey E (CompressPubkey E p) = Inr p) \<and>
     (\<forall>k. ImportECDSAPublic E (ExportECDSA E k) = k) \<and>
     (\<forall>h sk sig. length h = 32 \<longrightarrow> crypto_Sign E h sk = Inr sig \<longrightarrow>
        length sig = 65 \<and> SigToPub E h sig = Inr (sk_PublicKey E sk)) \<and>
     (\<forall>r dk m c. ecies_Encrypt E r (dk_PublicKey E dk) m = Inr c \<longrightarrow> ecies_Decrypt E dk c = Inr m) \<and>
     (\<forall>d h sig. no_panic (DecompressPubkey E d) \<and> no_panic (SigToPub E h sig))"

definition eth_ok :: "('pk, 'sk, 'ek, 'dk) eth \<Rightarrow> bool" where
  "eth_ok E \<longleftrightarrow> address_ok E \<and> hexutil_ok E \<and> keys_ok E"

lemma Address_Bytes_ok: "eth_ok E \<Longrightarrow> length (Address_Bytes E a) = 20"
  "eth_ok E \<Longrightarrow> BytesToAddress E (Address_Bytes E a) = a"
  by (simp_all add: eth_ok_def address_ok_def)

lemma Address_Hex_ok: "eth_ok E \<Longrightarrow> HexToAddress E (Address_Hex E a) = a"
  "eth_ok E \<Longrightarrow> IsHexAddress E (Address_Hex E a)"
  "eth_ok E \<Longrightarrow> comma_free (Address_Hex E a)" "eth_ok E \<Longrightarrow> Address_Hex E a \<noteq> ''''"
  by (simp_all add: eth_ok_def address_ok_def)

lemma hexutil_laws: "eth_ok E \<Longrightarrow> hexutil_Decode E (hexutil_Encode E d) = Inr d"
  "eth_ok E \<Longrightarrow> comma_free (hexutil_Encode E d)" "eth_ok E \<Longrightarrow> hexutil_Encode E d \<noteq> ''''"
  by (simp_all add: eth_ok_def hexutil_ok_def)

lemma Pubkey_laws: "eth_ok E \<Longrightarrow> UnmarshalPubkey E (FromECDSAPub E p) = Inr p"
  "eth_ok E \<Longrightarrow> DecompressPubkey E (CompressPubkey E p) = Inr p"
  "eth_ok E \<Longrightarrow> ImportECDSAPublic E (ExportECDSA E k) = k"
  by (simp_all add: eth_ok_def keys_ok_def)

lemma Sign_laws: "eth_ok E \<Longrightarrow> length h = 32 \<Longrightarrow> crypto_Sign E h sk = Inr sig \<Longrightarrow> length sig = 65"
  "eth_ok E \<Longrightarrow> length h = 32 \<Longrightarrow> crypto_Sign E h sk = Inr sig \<Longrightarrow> SigToPub E h sig = Inr (sk_PublicKey E sk)"
  unfolding eth_ok_def keys_ok_def by blast+

lemma eth_no_panic [intro]: "eth_ok E \<Longrightarrow> no_panic (DecompressPubkey E d)"
  "eth_ok E \<Longrightarrow> no_panic (SigToPub E h sig)"
  unfolding eth_ok_def keys_ok_def by blast+

lemma ecies_law:
  "eth_ok E \<Longrightarrow> ecies_Encrypt E r (dk_PublicKey E dk) m = Inr c \<Longrightarrow> ecies_Decrypt E dk c = Inr m"
  unfolding eth_ok_def keys_ok_def by blast

end
