(* ===== verification/SmallInstance.thy ===== *)
theory SmallInstance
  imports Extern
begin

text \<open>
  Concrete parameters, for the witnesses only: groups of order five written with exponents, and
  a key library whose keys are single bytes. They satisfy \<open>bn_ok\<close> and \<open>eth_ok\<close>, so those
  hypotheses can hold. Nothing here models code.
\<close>

section \<open>Groups of order five\<close>

datatype z5 = Z0 | Z1 | Z2 | Z3 | Z4

definition z5_of :: "int \<Rightarrow> z5" where
  "z5_of i = (let r = i mod 5 in
     if r = 0 then Z0 else if r = 1 then Z1 else if r = 2 then Z2 else if r = 3 then Z3 else Z4)"

fun z5_to :: "z5 \<Rightarrow> int" where
  "z5_to Z0 = 0" | "z5_to Z1 = 1" | "z5_to Z2 = 2" | "z5_to Z3 = 3" | "z5_to Z4 = 4"

lemma z5_of_to [simp]: "z5_of (z5_to g) = g"
  by (cases g) (simp_all add: z5_of_def)

lemma z5_to_range: "0 \<le> z5_to g \<and> z5_to g < 5"
  by (cases g) simp_all

lemma z5_to_of [simp]: "z5_to (z5_of i) = i mod 5"
proof -
  have "i mod 5 \<in> {0, 1, 2, 3, 4}" by auto
  then show ?thesis by (auto simp: z5_of_def Let_def)
qed

lemma z5_of_eq_iff [simp]: "z5_of a = z5_of b \<longleftrightarrow> a mod 5 = b mod 5"
  by (metis z5_of_to z5_to_of)

definition z5_marshal :: "z5 \<Rightarrow> bytes" where
  "z5_marshal g = [byte_of_nat (nat (z5_to g))]"

definition z5_unmarshal :: "bytes \<Rightarrow> (z5 \<times> bytes) option" where
  "z5_unmarshal bs = (case bs of [] \<Rightarrow> None
     | b # rest \<Rightarrow> if unat b < 5 then Some (z5_of (int (unat b)), rest) else None)"

lemma z5_unmarshal_marshal [simp]: "z5_unmarshal (z5_marshal g @ rest) = Some (g, rest)"
  by (cases g)
    (simp_all add: z5_unmarshal_def z5_marshal_def unat_byte_of_nat uint_byte_of_nat z5_of_def)

lemma z5_marshal_nonempty [simp]: "z5_marshal g \<noteq> []" and z5_unmarshal_Nil [simp]: "z5_unmarshal [] = None"
  by (simp_all add: z5_marshal_def z5_unmarshal_def)

definition pad_bytes :: "nat \<Rightarrow> bytes \<Rightarrow> bytes" where
  "pad_bytes n d = take n (d @ replicate n 0)"

lemma length_pad_bytes [simp]: "length (pad_bytes n d) = n"
  by (simp add: pad_bytes_def)

definition bn5 :: "(z5, z5, z5) bn256" where
  "bn5 = \<lparr> Order = 5,
     G1_ScalarBaseMult = z5_of, G1_ScalarMult = (\<lambda>g k. z5_of (z5_to g * k)),
     G1_Add = (\<lambda>g h. z5_of (z5_to g + z5_to h)), G1_Neg = (\<lambda>g. z5_of (- z5_to g)),
     G1_Marshal = z5_marshal, G1_Unmarshal = z5_unmarshal,
     G2_ScalarBaseMult = z5_of, G2_ScalarMult = (\<lambda>g k. z5_of (z5_to g * k)),
     G2_Add = (\<lambda>g h. z5_of (z5_to g + z5_to h)),
     G2_Marshal = z5_marshal, G2_Unmarshal = z5_unmarshal,
     GT_ScalarMult = (\<lambda>g k. z5_of (z5_to g * k)),
     GT_Marshal = z5_marshal, GT_Unmarshal = z5_unmarshal,
     Pair = (\<lambda>g h. z5_of (z5_to g * z5_to h)),
     PairingCheck = (\<lambda>gs hs. sum_list (map2 (\<lambda>g h. z5_to g * z5_to h) gs hs) mod 5 = 0),
     Keccak256 = pad_bytes 32 \<rparr>"

lemma prime_order_5: "prime_order 5"
proof -
  have "d = 1 \<or> d = 5" if "0 < d" "d dvd 5" for d :: int
  proof -
    have "d \<le> 5" using that by (auto dest: zdvd_imp_le)
    with that(1) have "d \<in> {1, 2, 3, 4, 5}" by auto
    with that(2) show ?thesis by auto
  qed
  then show ?thesis by (auto simp: prime_order_def)
qed

lemma g1_ok_bn5: "g1_ok bn5"
  unfolding g1_ok_def bn5_def
  by (auto simp: cng_def mod_simps intro: exI [of _ "z5_to _"])

lemma g2_ok_bn5: "g2_ok bn5"
  unfolding g2_ok_def bn5_def
  by (auto simp: cng_def mod_simps intro: exI [of _ "z5_to _"])

lemma pairing_ok_bn5: "pairing_ok bn5"
proof -
  have "a mod 5 * (b mod 5) mod 5 = a * b mod 5" for a b :: int
    by (rule mod_mult_eq)
  moreover have "(a mod 5 * (b mod 5) + c mod 5 * (d mod 5)) mod 5 = (a * b + c * d) mod 5"
    for a b c d :: int
  proof -
    have "cng 5 (a mod 5 * (b mod 5) + c mod 5 * (d mod 5)) (a * b + c * d)"
      by (intro cng_add cng_mult) simp_all
    then show ?thesis unfolding cng_def .
  qed
  moreover have "a mod 5 * (b mod 5) mod 5 * k mod 5 = a * k mod 5 * (b mod 5) mod 5" for a b k :: int
  proof -
    have "cng 5 (a mod 5 * (b mod 5)) (a * b)" by (intro cng_mult) simp_all
    then have "cng 5 (a mod 5 * (b mod 5) mod 5 * k) (a * b * k)" by (intro cng_mult) simp_all
    also have "a * b * k = a * k * b" by simp
    also have "cng 5 \<dots> (a * k mod 5 * (b mod 5))" by (intro cng_mult) simp_all
    finally show ?thesis unfolding cng_def .
  qed
  ultimately show ?thesis
    unfolding pairing_ok_def bn5_def cng_def by simp
qed

lemma bn_ok_bn5: "bn_ok bn5"
  unfolding bn_ok_def using prime_order_5 g1_ok_bn5 g2_ok_bn5 pairing_ok_bn5
  by (simp add: bn5_def)

section \<open>A key library over bytes\<close>

lemma length_nat_bytes: "n < 256 ^ k \<Longrightarrow> length (nat_bytes n) \<le> k"
proof (induction k arbitrary: n)
  case 0
  then show ?case by (simp add: nat_bytes.simps [of 0])
next
  case (Suc k)
  show ?case
  proof (cases "n = 0")
    case True
    then show ?thesis by (simp add: nat_bytes.simps [of 0])
  next
    case False
    have "n div 256 < 256 ^ k" using Suc.prems by (simp add: less_mult_imp_div_less mult.commute)
    from Suc.IH [OF this] False show ?thesis by (simp add: nat_bytes.simps [of n])
  qed
qed

definition small_Address_Bytes :: "address \<Rightarrow> bytes" where
  "small_Address_Bytes a = (let d = nat_bytes (unat a) in replicate (20 - length d) 0 @ d)"

definition small_BytesToAddress :: "bytes \<Rightarrow> address" where
  "small_BytesToAddress d = of_int (big_SetBytes d)"

lemma SetBytes_zeros: "big_SetBytes (replicate n 0 @ d) = big_SetBytes d"
  by (induction n) (simp_all add: big_SetBytes_def)

lemma small_address_roundtrip: "small_BytesToAddress (small_Address_Bytes a) = a"
  by (simp add: small_BytesToAddress_def small_Address_Bytes_def SetBytes_zeros SetBytes_nat_bytes Let_def)

lemma small_address_length: "length (small_Address_Bytes a) = 20"
proof -
  have "unat a < 2 ^ LENGTH(160)" by (rule unsigned_less)
  then have "unat a < 256 ^ 20" by simp
  from length_nat_bytes [OF this] show ?thesis by (simp add: small_Address_Bytes_def Let_def)
qed

definition small_HexToAddress :: "string \<Rightarrow> address" where
  "small_HexToAddress s = (case hex_DecodeString s of Inl e \<Rightarrow> 0 | Inr d \<Rightarrow> small_BytesToAddress d)"

definition small_hexutil_Encode :: "bytes \<Rightarrow> string" where
  "small_hexutil_Encode d = CHR ''0'' # CHR ''x'' # hex_EncodeToString d"

definition small_hexutil_Decode :: "string \<Rightarrow> bytes result" where
  "small_hexutil_Decode s =
     (if take 2 s = ''0x'' then hex_DecodeString (drop 2 s) else Inl (Errorf ''hex string without 0x prefix''))"

definition small_eth :: "(byte, byte, byte, byte) eth" where
  "small_eth = \<lparr>
     BytesToAddress = small_BytesToAddress, Address_Bytes = small_Address_Bytes,
     Address_Hex = (\<lambda>a. hex_EncodeToString (small_Address_Bytes a)),
     HexToAddress = small_HexToAddress,
     IsHexAddress = (\<lambda>s. case hex_DecodeString s of Inl e \<Rightarrow> False | Inr d \<Rightarrow> length d = 20),
     hexutil_Encode = small_hexutil_Encode, hexutil_Decode = small_hexutil_Decode,
     FromECDSAPub = (\<lambda>p. [p]),
     UnmarshalPubkey = (\<lambda>d. case d of [p] \<Rightarrow> Inr p | _ \<Rightarrow> Inl (Errorf ''invalid public key'')),
     CompressPubkey = (\<lambda>p. [p]),
     DecompressPubkey = (\<lambda>d. case d of [p] \<Rightarrow> Inr p | _ \<Rightarrow> Inl (Errorf ''invalid public key'')),
     ImportECDSAPublic = (\<lambda>p. p), ExportECDSA = (\<lambda>k. k),
     crypto_Sign = (\<lambda>h sk. Inr (pad_bytes 65 [sk])),
     SigToPub = (\<lambda>h sig. case sig of [] \<Rightarrow> Inl (Errorf ''invalid signature'') | p # _ \<Rightarrow> Inr p),
     PubkeyToAddress = (\<lambda>p. of_nat (unat p)), sk_PublicKey = (\<lambda>sk. sk), dk_PublicKey = (\<lambda>dk. dk),
     ecies_Encrypt = (\<lambda>r k m. Inr (k # m)),
     ecies_Decrypt = (\<lambda>dk c. case c of [] \<Rightarrow> Inl (Errorf ''invalid message'')
        | k # m \<Rightarrow> if k = dk then Inr m else Inl (Errorf ''invalid message'')) \<rparr>"

lemma hex_EncodeToString_eq_Nil [simp]: "hex_EncodeToString d = [] \<longleftrightarrow> d = []"
  by (cases d) simp_all

lemma address_ok_small: "address_ok small_eth"
proof -
  have "small_Address_Bytes a \<noteq> []" for a
    using small_address_length [of a] by (metis length_0_conv zero_neq_numeral)
  then show ?thesis
    by (simp add: address_ok_def small_eth_def small_address_roundtrip small_address_length
        small_HexToAddress_def)
qed

lemma hexutil_ok_small: "hexutil_ok small_eth"
  using comma_free_hex
  by (auto simp: hexutil_ok_def small_eth_def small_hexutil_Encode_def small_hexutil_Decode_def
      comma_free_def)

lemma keys_ok_small: "keys_ok small_eth"
  by (auto simp: keys_ok_def small_eth_def pad_bytes_def split: list.split)

lemma eth_ok_small: "eth_ok small_eth"
  by (simp add: eth_ok_def address_ok_small hexutil_ok_small keys_ok_small)

end
