(* ===== verification/Feldman.thy ===== *)
theory Feldman
  imports Extern
begin

text \<open>
  \<open>shcrypto/feldman.go\<close>: polynomials over the integers modulo the group order, their public
  commitments in G2 (\<open>Gammas\<close>) and the check that an evaluation belongs to a commitment.
  A \<open>*Polynomial\<close> is its list of coefficients, a \<open>*Gammas\<close> its list of points; the reader handed
  to \<open>RandomPolynomial\<close> is the sequence of results of \<open>rand.Int(r, Order)\<close>.
\<close>

section \<open>Operations\<close>

definition zeroG1 :: "('g1, 'g2, 'gt) bn256 \<Rightarrow> 'g1" where
  "zeroG1 B = G1_ScalarBaseMult B 0"

definition zeroG2 :: "('g1, 'g2, 'gt) bn256 \<Rightarrow> 'g2" where
  "zeroG2 B = G2_ScalarBaseMult B 0"

definition NewPolynomial :: "('g1, 'g2, 'gt) bn256 \<Rightarrow> int list \<Rightarrow> int list result" where
  "NewPolynomial B coefficients =
     (if coefficients = [] then Inl (Errorf ''no coefficients given'')
      else case first_error (\<lambda>v.
          if v < 0 then Some (Errorf ''coefficient is negative'')
          else if v \<ge> Order B then Some (Errorf ''coefficient is too big'')
          else None) coefficients of
        Some e \<Rightarrow> Inl e
      | None \<Rightarrow> Inr coefficients)"

definition Polynomial_Degree :: "int list \<Rightarrow> u64" where
  "Polynomial_Degree p = of_nat (length p) - 1"

definition Gammas_Degree :: "'g2 list \<Rightarrow> u64" where
  "Gammas_Degree g = of_nat (length g) - 1"

definition ZeroGammas :: "('g1, 'g2, 'gt) bn256 \<Rightarrow> u64 \<Rightarrow> 'g2 list" where
  "ZeroGammas B degree = map (\<lambda>i. zeroG2 B) (upto64 (degree + 1))"

definition DegreeFromThreshold :: "u64 \<Rightarrow> u64" where
  "DegreeFromThreshold threshold = threshold - 1"

text \<open>Horner's method, from the highest coefficient down; an empty polynomial is an index out of range.\<close>

definition Eval :: "('g1, 'g2, 'gt) bn256 \<Rightarrow> int list \<Rightarrow> int \<Rightarrow> int result" where
  "Eval B p x =
     (if p = [] then Inl (Panic ''index out of range'')
      else Inr (foldl (\<lambda>res c. (res * x + c) mod Order B) (last p) (rev (butlast p))))"

text \<open>\<open>KeyperX\<close> of a Go \<open>int\<close>.\<close>

definition KeyperX :: "int \<Rightarrow> int" where
  "KeyperX keyperIndex = 1 + keyperIndex"

definition EvalForKeyper :: "('g1, 'g2, 'gt) bn256 \<Rightarrow> int list \<Rightarrow> int \<Rightarrow> int result" where
  "EvalForKeyper B p keyperIndex = Eval B p (KeyperX keyperIndex)"

definition ValidEval :: "('g1, 'g2, 'gt) bn256 \<Rightarrow> int \<Rightarrow> bool" where
  "ValidEval B v = (if v < 0 then False else if v \<ge> Order B then False else True)"

definition Polynomial_Gammas :: "('g1, 'g2, 'gt) bn256 \<Rightarrow> int list \<Rightarrow> 'g2 list" where
  "Polynomial_Gammas B p = map (G2_ScalarBaseMult B) p"

fun Pi_loop :: "('g1, 'g2, 'gt) bn256 \<Rightarrow> int \<Rightarrow> 'g2 list \<Rightarrow> int \<Rightarrow> 'g2 \<Rightarrow> 'g2" where
  "Pi_loop B xi [] xiToJ res = res"
| "Pi_loop B xi (gamma # g) xiToJ res =
     Pi_loop B xi g ((xiToJ * xi) mod Order B) (G2_Add B res (G2_ScalarMult B gamma xiToJ))"

definition Gammas_Pi :: "('g1, 'g2, 'gt) bn256 \<Rightarrow> 'g2 list \<Rightarrow> int \<Rightarrow> 'g2" where
  "Gammas_Pi B g xi = Pi_loop B xi g 1 (zeroG2 B)"

text \<open>A nil pointer encodes as no bytes. Decoding appends points until no data is left.\<close>

definition Gammas_GobEncode :: "('g1, 'g2, 'gt) bn256 \<Rightarrow> 'g2 list option \<Rightarrow> bytes" where
  "Gammas_GobEncode B g = (case g of None \<Rightarrow> [] | Some gs \<Rightarrow> concat (map (G2_Marshal B) gs))"

partial_function (option) Gammas_GobDecode ::
  "('g1, 'g2, 'gt) bn256 \<Rightarrow> 'g2 list \<Rightarrow> bytes \<Rightarrow> 'g2 list result option" where
  "Gammas_GobDecode B g d =
     (if d = [] then Some (Inr g)
      else case G2_Unmarshal B d of
        None \<Rightarrow> Some (Inl (Errorf ''bn256.G2: unmarshal''))
      | Some pr \<Rightarrow> Gammas_GobDecode B (g @ [fst pr]) (snd pr))"

definition EqualG1 :: "('g1, 'g2, 'gt) bn256 \<Rightarrow> 'g1 \<Rightarrow> 'g1 \<Rightarrow> bool" where
  "EqualG1 B p1 p2 \<longleftrightarrow> G1_Marshal B p1 = G1_Marshal B p2"

definition EqualG2 :: "('g1, 'g2, 'gt) bn256 \<Rightarrow> 'g2 \<Rightarrow> 'g2 \<Rightarrow> bool" where
  "EqualG2 B p1 p2 \<longleftrightarrow> G2_Marshal B p1 = G2_Marshal B p2"

definition VerifyPolyEval :: "('g1, 'g2, 'gt) bn256 \<Rightarrow> int \<Rightarrow> int \<Rightarrow> 'g2 list \<Rightarrow> u64 \<Rightarrow> bool" where
  "VerifyPolyEval B keyperIndex polyEval gammas threshold =
     (if Gammas_Degree gammas \<noteq> threshold - 1 then False
      else let rhs = G2_ScalarBaseMult B polyEval;
               lhs = Gammas_Pi B gammas (KeyperX keyperIndex)
           in EqualG2 B lhs rhs)"

text \<open>\<open>rnd i\<close> is the \<open>i\<close>-th number drawn, or the error of the reader.\<close>

definition RandomPolynomial ::
  "('g1, 'g2, 'gt) bn256 \<Rightarrow> (nat \<Rightarrow> int result) \<Rightarrow> u64 \<Rightarrow> int list result" where
  "RandomPolynomial B rnd degree =
     (case collect rnd [0..<unat (degree + 1)] of
        Inl e \<Rightarrow> Inl e
      | Inr coefficients \<Rightarrow> NewPolynomial B coefficients)"

section \<open>Polynomials\<close>

definition valid_poly :: "('g1, 'g2, 'gt) bn256 \<Rightarrow> int list \<Rightarrow> bool" where
  "valid_poly B p \<longleftrightarrow> p \<noteq> [] \<and> (\<forall>c\<in>set p. 0 \<le> c \<and> c < Order B)"

lemma NewPolynomial_Inr [simp]:
  "NewPolynomial B cs = Inr p \<longleftrightarrow> p = cs \<and> valid_poly B cs"
proof -
  let ?f = "\<lambda>v. if v < 0 then Some (Errorf ''coefficient is negative'')
          else if v \<ge> Order B then Some (Errorf ''coefficient is too big'') else None"
  have "first_error ?f cs = None \<longleftrightarrow> (\<forall>c\<in>set cs. 0 \<le> c \<and> c < Order B)"
    by auto
  then show ?thesis
    by (cases "first_error ?f cs")
      (auto simp: NewPolynomial_def valid_poly_def simp del: first_error_None_iff)
qed

lemma RandomPolynomial_valid:
  "RandomPolynomial B rnd degree = Inr p \<Longrightarrow> valid_poly B p \<and> length p = unat (degree + 1)"
  by (auto simp: RandomPolynomial_def split: sum.splits dest: collect_length)

lemma horner_mod:
  "foldl (\<lambda>res c. (res * x + c) mod q) r cs mod q = foldl (\<lambda>res c. res * x + c) r cs mod (q :: int)"
proof (induction cs rule: rev_induct)
  case Nil
  then show ?case by simp
next
  case (snoc c cs)
  then have "cng q (foldl (\<lambda>res c. (res * x + c) mod q) r cs * x + c)
      (foldl (\<lambda>res c. res * x + c) r cs * x + c)"
    by (intro cng_intros) (simp_all add: cng_def)
  then show ?case by (simp add: cng_def)
qed

lemma horner_peval: "foldl (\<lambda>res c. res * x + c) r (rev cs) = peval (cs @ [r]) x"
  by (induction cs) (auto simp: algebra_simps)

lemma horner_range:
  assumes "0 < q" "0 \<le> r" "r < q"
  shows "0 \<le> foldl (\<lambda>res c. (res * x + c) mod q) r cs \<and> foldl (\<lambda>res c. (res * x + c) mod q) r cs < (q :: int)"
  using assms by (induction cs rule: rev_induct) auto

lemma Eval_eq:
  assumes "valid_poly B p"
  shows "Eval B p x = Inr (peval p x mod Order B)"
proof -
  let ?q = "Order B"
  let ?h = "foldl (\<lambda>res c. (res * x + c) mod ?q) (last p) (rev (butlast p))"
  have p: "p \<noteq> []" "0 \<le> last p" "last p < ?q"
    using assms by (auto simp: valid_poly_def)
  then have "0 \<le> ?h \<and> ?h < ?q" by (intro horner_range) auto
  then have "?h = ?h mod ?q" by simp
  also have "\<dots> = peval p x mod ?q"
    using p(1) by (simp add: horner_mod horner_peval)
  finally show ?thesis using p(1) by (simp add: Eval_def)
qed

lemma ValidEval_iff: "ValidEval B v \<longleftrightarrow> 0 \<le> v \<and> v < Order B"
  by (auto simp: ValidEval_def)

section \<open>Commitments\<close>

lemma Pi_loop_exp:
  assumes "bn_ok B"
  shows "Pi_loop B xi (map (G2_ScalarBaseMult B) cs) xj (G2_ScalarBaseMult B r)
       = G2_ScalarBaseMult B (r + xj * peval cs xi)"
proof (induction cs arbitrary: xj r)
  case Nil
  then show ?case by simp
next
  case (Cons c cs)
  have "Pi_loop B xi (map (G2_ScalarBaseMult B) (c # cs)) xj (G2_ScalarBaseMult B r)
      = G2_ScalarBaseMult B ((r + c * xj) + (xj * xi) mod Order B * peval cs xi)"
    using assms Cons.IH by (simp add: group_simps)
  also have "cng (Order B) ((r + c * xj) + (xj * xi) mod Order B * peval cs xi)
      ((r + c * xj) + (xj * xi) * peval cs xi)"
    by (intro cng_intros) simp
  then have "G2_ScalarBaseMult B ((r + c * xj) + (xj * xi) mod Order B * peval cs xi)
      = G2_ScalarBaseMult B (r + xj * peval (c # cs) xi)"
    using assms by (simp add: group_simps algebra_simps)
  finally show ?case .
qed

lemma Pi_Gammas:
  "bn_ok B \<Longrightarrow> Gammas_Pi B (Polynomial_Gammas B p) xi = G2_ScalarBaseMult B (peval p xi)"
  using Pi_loop_exp [of B xi p 1 0] by (simp add: Gammas_Pi_def Polynomial_Gammas_def zeroG2_def)

text \<open>Every commitment is the commitment of a polynomial, because G2 is cyclic.\<close>

lemma Gammas_are_commitments:
  assumes "bn_ok B" "g \<noteq> []"
  shows "\<exists>p. valid_poly B p \<and> g = Polynomial_Gammas B p"
proof -
  have ex: "\<exists>a. 0 \<le> a \<and> a < Order B \<and> x = G2_ScalarBaseMult B a" for x
  proof -
    obtain a where a: "x = G2_ScalarBaseMult B a" using G2_exp [OF assms(1)] by blast
    then have "x = G2_ScalarBaseMult B (a mod Order B)" using assms(1) by (simp add: group_simps)
    then show ?thesis using bn_order_pos [OF assms(1)] by (metis pos_mod_bound pos_mod_sign)
  qed
  have "\<exists>p. length p = length g \<and> (\<forall>c\<in>set p. 0 \<le> c \<and> c < Order B) \<and> g = Polynomial_Gammas B p"
  proof (induction g)
    case Nil
    then show ?case by (simp add: Polynomial_Gammas_def)
  next
    case (Cons x g)
    then obtain p a where "length p = length g" "\<forall>c\<in>set p. 0 \<le> c \<and> c < Order B"
      "g = Polynomial_Gammas B p" "0 \<le> a" "a < Order B" "x = G2_ScalarBaseMult B a"
      using ex [of x] by blast
    then show ?case by (intro exI [of _ "a # p"]) (auto simp: Polynomial_Gammas_def)
  qed
  then obtain p where "length p = length g" "\<forall>c\<in>set p. 0 \<le> c \<and> c < Order B"
    "g = Polynomial_Gammas B p" by blast
  moreover from this assms(2) have "p \<noteq> []" by auto
  ultimately show ?thesis unfolding valid_poly_def by blast
qed

lemma EqualG2_iff [simp]: "bn_ok B \<Longrightarrow> EqualG2 B g h \<longleftrightarrow> g = h"
  by (simp add: EqualG2_def G2_Marshal_inject)

lemma length_Polynomial_Gammas [simp]: "length (Polynomial_Gammas B p) = length p"
  by (simp add: Polynomial_Gammas_def)

text \<open>The check accepts a value exactly when it is congruent to the committed polynomial's value.\<close>

lemma VerifyPolyEval_cng:
  assumes "bn_ok B"
  shows "VerifyPolyEval B i v (Polynomial_Gammas B p) t \<longleftrightarrow>
    Polynomial_Degree p = DegreeFromThreshold t \<and> cng (Order B) v (peval p (KeyperX i))"
  using assms
  by (auto simp: VerifyPolyEval_def Pi_Gammas group_simps Gammas_Degree_def Polynomial_Degree_def
      DegreeFromThreshold_def intro: cng_sym)

lemma VerifyPolyEval_iff_Eval:
  assumes "bn_ok B" "valid_poly B p" "ValidEval B v"
  shows "VerifyPolyEval B i v (Polynomial_Gammas B p) t \<longleftrightarrow>
    Polynomial_Degree p = DegreeFromThreshold t \<and> EvalForKeyper B p i = Inr v"
  using assms by (auto simp: VerifyPolyEval_cng EvalForKeyper_def Eval_eq ValidEval_iff cng_def)

lemma Degree_eq_iff:
  "length xs < 2 ^ 64 \<Longrightarrow> (of_nat (length xs) - 1 :: u64) = t - 1 \<longleftrightarrow> length xs = unat t"
  by (auto simp: unat_of_nat_u64)

lemma ZeroGammas_eq: "ZeroGammas B (DegreeFromThreshold t) = Polynomial_Gammas B (replicate (unat t) 0)"
  by (simp add: ZeroGammas_def DegreeFromThreshold_def Polynomial_Gammas_def zeroG2_def
      upto64_def map_replicate_const comp_def)

section \<open>Serialisation\<close>

lemma Gammas_GobDecode_append:
  "bn_ok B \<Longrightarrow> Gammas_GobDecode B g0 (concat (map (G2_Marshal B) gs)) = Some (Inr (g0 @ gs))"
proof (induction gs arbitrary: g0)
  case Nil
  then show ?case by (simp add: Gammas_GobDecode.simps)
next
  case (Cons g gs)
  have "concat (map (G2_Marshal B) (g # gs)) \<noteq> []"
    using G2_Marshal_nonempty [OF Cons.prems] by simp
  then show ?case
    using Cons by (subst Gammas_GobDecode.simps) (simp add: G2_Unmarshal_Marshal)
qed

end
