(* ===== verification/Keys.thy ===== *)
theory Keys
  imports Feldman
begin

text \<open>
  \<open>shcrypto/keys.go\<close>: eon keys and their shares, epoch ids, epoch secret keys and their shares.
  An \<open>EonSecretKeyShare\<close> is an \<open>int\<close>; \<open>EonPublicKeyShare\<close> and \<open>EonPublicKey\<close> are points of G2,
  \<open>EpochID\<close>, \<open>EpochSecretKeyShare\<close> and \<open>EpochSecretKey\<close> points of G1.
\<close>

section \<open>Operations\<close>

definition EonPublicKey_Marshal :: "('g1, 'g2, 'gt) bn256 \<Rightarrow> 'g2 \<Rightarrow> bytes" where
  "EonPublicKey_Marshal B k = G2_Marshal B k"

definition EonPublicKey_Unmarshal :: "('g1, 'g2, 'gt) bn256 \<Rightarrow> bytes \<Rightarrow> 'g2 result" where
  "EonPublicKey_Unmarshal B m =
     (case G2_Unmarshal B m of None \<Rightarrow> Inl (Errorf ''bn256.G2: unmarshal'') | Some (g, rest) \<Rightarrow> Inr g)"

definition EonPublicKey_GobEncode :: "('g1, 'g2, 'gt) bn256 \<Rightarrow> 'g2 \<Rightarrow> bytes" where
  "EonPublicKey_GobEncode B k = EonPublicKey_Marshal B k"

definition EonPublicKey_GobDecode :: "('g1, 'g2, 'gt) bn256 \<Rightarrow> bytes \<Rightarrow> 'g2 result" where
  "EonPublicKey_GobDecode B d = EonPublicKey_Unmarshal B d"

text \<open>The G2 and the G1 key types share the two following pairs.\<close>

definition G2Key_GobEncode :: "('g1, 'g2, 'gt) bn256 \<Rightarrow> 'g2 \<Rightarrow> bytes" where
  "G2Key_GobEncode B g = G2_Marshal B g"

definition G2Key_GobDecode :: "('g1, 'g2, 'gt) bn256 \<Rightarrow> bytes \<Rightarrow> 'g2 result" where
  "G2Key_GobDecode B d =
     (case G2_Unmarshal B d of None \<Rightarrow> Inl (Errorf ''bn256.G2: unmarshal'') | Some (g, rest) \<Rightarrow> Inr g)"

definition G1Key_GobEncode :: "('g1, 'g2, 'gt) bn256 \<Rightarrow> 'g1 \<Rightarrow> bytes" where
  "G1Key_GobEncode B g = G1_Marshal B g"

definition G1Key_GobDecode :: "('g1, 'g2, 'gt) bn256 \<Rightarrow> bytes \<Rightarrow> 'g1 result" where
  "G1Key_GobDecode B d =
     (case G1_Unmarshal B d of None \<Rightarrow> Inl (Errorf ''bn256.G1: unmarshal'') | Some (g, rest) \<Rightarrow> Inr g)"

definition ComputeEonSecretKeyShare :: "('g1, 'g2, 'gt) bn256 \<Rightarrow> int list \<Rightarrow> int" where
  "ComputeEonSecretKeyShare B polyEvals = foldl (\<lambda>res si. (res + si) mod Order B) 0 polyEvals"

definition ComputeEonPublicKeyShare :: "('g1, 'g2, 'gt) bn256 \<Rightarrow> int \<Rightarrow> 'g2 list list \<Rightarrow> 'g2" where
  "ComputeEonPublicKeyShare B keyperIndex gammas =
     (let keyperX = KeyperX keyperIndex
      in foldl (\<lambda>g2 gs. G2_Add B g2 (Gammas_Pi B gs keyperX)) (zeroG2 B) gammas)"

definition ComputeEonPublicKey :: "('g1, 'g2, 'gt) bn256 \<Rightarrow> 'g2 list list \<Rightarrow> 'g2" where
  "ComputeEonPublicKey B gammas =
     foldl (\<lambda>g2 gs. G2_Add B g2 (Gammas_Pi B gs 0)) (zeroG2 B) gammas"

definition ComputeEpochSecretKeyShare :: "('g1, 'g2, 'gt) bn256 \<Rightarrow> int \<Rightarrow> 'g1 \<Rightarrow> 'g1" where
  "ComputeEpochSecretKeyShare B eonSecretKeyShare epochID = G1_ScalarMult B epochID eonSecretKeyShare"

definition ComputeEpochID :: "('g1, 'g2, 'gt) bn256 \<Rightarrow> u64 \<Rightarrow> 'g1" where
  "ComputeEpochID B epochIndex = G1_ScalarBaseMult B (uint (epochIndex + 1))"

definition invert :: "('g1, 'g2, 'gt) bn256 \<Rightarrow> int \<Rightarrow> int" where
  "invert B x = x ^ nat (Order B - 2) mod Order B"

definition lagrangeCoefficientFactor :: "('g1, 'g2, 'gt) bn256 \<Rightarrow> int \<Rightarrow> int \<Rightarrow> int" where
  "lagrangeCoefficientFactor B k keyperIndex =
     (let xj = KeyperX keyperIndex;
          xk = KeyperX k;
          dx = (xk - xj) mod Order B;
          dxInv = invert B dx
      in (xk * dxInv) mod Order B)"

definition lagrangeCoefficient :: "('g1, 'g2, 'gt) bn256 \<Rightarrow> int \<Rightarrow> int list \<Rightarrow> int" where
  "lagrangeCoefficient B keyperIndex keyperIndices =
     foldl (\<lambda>lambda k. if k = keyperIndex then lambda
       else (lambda * lagrangeCoefficientFactor B k keyperIndex) mod Order B) 1 keyperIndices"

definition ComputeEpochSecretKey ::
  "('g1, 'g2, 'gt) bn256 \<Rightarrow> int list \<Rightarrow> 'g1 list \<Rightarrow> u64 \<Rightarrow> 'g1 result" where
  "ComputeEpochSecretKey B keyperIndices epochSecretKeyShares threshold =
     (if length keyperIndices \<noteq> length epochSecretKeyShares
      then Inl (Errorf ''numbers of keyper indices and secret shares differ'')
      else if (of_nat (length keyperIndices) :: u64) \<noteq> threshold
      then Inl (Errorf ''number of shares is not the threshold'')
      else Inr (foldl (\<lambda>skG1 (keyperIndex, share).
             let lambda = lagrangeCoefficient B keyperIndex keyperIndices;
                 qTimesLambda = G1_ScalarMult B share lambda
             in G1_Add B skG1 qTimesLambda)
           (zeroG1 B) (zip keyperIndices epochSecretKeyShares)))"

definition VerifyEpochSecretKeyShare ::
  "('g1, 'g2, 'gt) bn256 \<Rightarrow> 'g1 \<Rightarrow> 'g2 \<Rightarrow> 'g1 \<Rightarrow> bool" where
  "VerifyEpochSecretKeyShare B epochSecretKeyShare eonPublicKeyShare epochID =
     PairingCheck B [epochSecretKeyShare, G1_Neg B epochID]
       [G2_ScalarBaseMult B 1, eonPublicKeyShare]"

section \<open>Eon keys\<close>

lemma ComputeEonSecretKeyShare_sum:
  assumes "0 < Order B"
  shows "ComputeEonSecretKeyShare B evals = sum_list evals mod Order B"
proof -
  have "foldl (\<lambda>res si. (res + si) mod Order B) 0 evals = sum_list evals mod Order B"
    by (induction evals rule: rev_induct) (auto simp: mod_simps)
  then show ?thesis by (simp add: ComputeEonSecretKeyShare_def)
qed

lemma foldl_Pi_exp:
  assumes "bn_ok B"
  shows "foldl (\<lambda>g2 gs. G2_Add B g2 (Gammas_Pi B gs x)) (G2_ScalarBaseMult B r) (map (Polynomial_Gammas B) ps)
       = G2_ScalarBaseMult B (r + (\<Sum>p\<leftarrow>ps. peval p x))"
  by (induction ps arbitrary: r) (simp_all add: Pi_Gammas [OF assms] group_simps assms add.assoc)

lemma ComputeEonPublicKeyShare_exp:
  "bn_ok B \<Longrightarrow> ComputeEonPublicKeyShare B i (map (Polynomial_Gammas B) ps)
     = G2_ScalarBaseMult B (\<Sum>p\<leftarrow>ps. peval p (KeyperX i))"
  using foldl_Pi_exp [of B "KeyperX i" 0 ps]
  by (simp add: ComputeEonPublicKeyShare_def zeroG2_def)

lemma ComputeEonPublicKey_exp:
  "bn_ok B \<Longrightarrow> ComputeEonPublicKey B (map (Polynomial_Gammas B) ps)
     = G2_ScalarBaseMult B (\<Sum>p\<leftarrow>ps. peval p 0)"
  using foldl_Pi_exp [of B 0 0 ps] by (simp add: ComputeEonPublicKey_def zeroG2_def)

section \<open>Epoch secret key shares\<close>

lemma Verify_exp:
  assumes "bn_ok B"
  shows "VerifyEpochSecretKeyShare B (G1_ScalarBaseMult B s) (G2_ScalarBaseMult B k) (G1_ScalarBaseMult B h)
     \<longleftrightarrow> cng (Order B) s (h * k)"
  using assms by (simp add: VerifyEpochSecretKeyShare_def group_simps cng_iff_dvd)

text \<open>The check accepts one share per keyper: the one computed with the keyper's secret.\<close>

lemma Verify_iff_share:
  assumes "bn_ok B"
  shows "VerifyEpochSecretKeyShare B share (G2_ScalarBaseMult B sk) epochID \<longleftrightarrow>
    share = ComputeEpochSecretKeyShare B sk epochID"
proof -
  obtain s h where "share = G1_ScalarBaseMult B s" "epochID = G1_ScalarBaseMult B h"
    using G1_exp [OF assms] by blast
  then show ?thesis
    using Verify_exp [OF assms, of s sk h] assms
    by (simp add: ComputeEpochSecretKeyShare_def group_simps)
qed

section \<open>Lagrange coefficients\<close>

lemma invert_inverse:
  assumes "prime_order (Order B)" "\<not> Order B dvd x"
  shows "cng (Order B) (x * invert B x) 1"
proof -
  have "cng (Order B) (x * invert B x) (x * x ^ nat (Order B - 2))"
    unfolding invert_def by (intro cng_intros) simp
  also have "cng (Order B) \<dots> 1" by (rule fermat_inverse [OF assms])
  finally show ?thesis .
qed

definition lagr_inv :: "('g1, 'g2, 'gt) bn256 \<Rightarrow> int \<Rightarrow> int \<Rightarrow> int" where
  "lagr_inv B i k = invert B ((KeyperX k - KeyperX i) mod Order B)"

text \<open>Keypers are told apart modulo the order.\<close>

definition distinct_keypers :: "('g1, 'g2, 'gt) bn256 \<Rightarrow> int set \<Rightarrow> bool" where
  "distinct_keypers B S \<longleftrightarrow> (\<forall>i\<in>S. \<forall>j\<in>S. cng (Order B) i j \<longrightarrow> i = j)"

lemma distinct_keypers_bounded:
  "(\<And>i. i \<in> S \<Longrightarrow> 0 \<le> i \<and> i < Order B) \<Longrightarrow> distinct_keypers B S"
  by (auto simp: distinct_keypers_def cng_def)

lemma inverses_lagr_inv:
  assumes "prime_order (Order B)" "distinct_keypers B S"
  shows "inverses (Order B) KeyperX (lagr_inv B) S"
  unfolding inverses_def
proof (intro ballI impI)
  fix i j
  assume ij: "i \<in> S" "j \<in> S" "i \<noteq> j"
  let ?dx = "(KeyperX j - KeyperX i) mod Order B"
  have "\<not> cng (Order B) j i" using assms(2) ij unfolding distinct_keypers_def by metis
  then have "\<not> Order B dvd ?dx" by (simp add: cng_iff_dvd KeyperX_def dvd_mod_iff)
  from invert_inverse [OF assms(1) this] have "cng (Order B) (?dx * lagr_inv B i j) 1"
    by (simp add: lagr_inv_def)
  moreover have "cng (Order B) ((KeyperX j - KeyperX i) * lagr_inv B i j) (?dx * lagr_inv B i j)"
    by (intro cng_intros) simp
  ultimately show "cng (Order B) ((KeyperX j - KeyperX i) * lagr_inv B i j) 1"
    by (rule cng_trans [rotated])
qed

lemma lagrangeCoefficient_lagr:
  assumes "distinct ks"
  shows "cng (Order B) (lagrangeCoefficient B i ks) (lagr KeyperX (lagr_inv B) (set ks) i)"
proof -
  let ?q = "Order B" and ?f = "\<lambda>k. KeyperX k * lagr_inv B i k"
  let ?step = "\<lambda>lambda k. if k = i then lambda else (lambda * lagrangeCoefficientFactor B k i) mod ?q"
  have fac: "cng ?q (lagrangeCoefficientFactor B k i) (?f k)" for k
    by (simp add: lagrangeCoefficientFactor_def lagr_inv_def Let_def)
  have "cng ?q (foldl ?step 1 ks) (\<Prod>k\<in>set ks - {i}. ?f k)"
    using assms
  proof (induction ks rule: rev_induct)
    case Nil
    then show ?case by simp
  next
    case (snoc k ks)
    then have IH: "cng ?q (foldl ?step 1 ks) (\<Prod>k\<in>set ks - {i}. ?f k)" by simp
    show ?case
    proof (cases "k = i")
      case True
      with snoc.prems IH show ?thesis by simp
    next
      case False
      have "cng ?q (foldl ?step 1 ks * lagrangeCoefficientFactor B k i) ((\<Prod>k\<in>set ks - {i}. ?f k) * ?f k)"
        using IH fac by (intro cng_intros)
      moreover have "set (ks @ [k]) - {i} = insert k (set ks - {i})" using False by auto
      moreover have "k \<notin> set ks - {i}" using snoc.prems by auto
      ultimately show ?thesis using False by (simp add: mult.commute)
    qed
  qed
  then show ?thesis by (simp add: lagrangeCoefficient_def lagr_def)
qed

lemma foldl_shares_exp:
  assumes "bn_ok B"
  shows "foldl (\<lambda>skG1 (i, share). G1_Add B skG1 (G1_ScalarMult B share (c i)))
           (G1_ScalarBaseMult B r) (zip ks (map (\<lambda>i. G1_ScalarBaseMult B (s i)) ks))
       = G1_ScalarBaseMult B (r + (\<Sum>i\<leftarrow>ks. s i * c i))"
  by (induction ks arbitrary: r) (simp_all add: group_simps assms add.assoc)

text \<open>Any threshold many shares of distinct keypers combine to the value of the polynomial at zero.\<close>

lemma ComputeEpochSecretKey_interpolates:
  assumes B: "bn_ok B" and ks: "distinct ks" "distinct_keypers B (set ks)"
    and len: "length ks = unat threshold" "length p \<le> length ks"
    and shares: "shares = map (\<lambda>i. ComputeEpochSecretKeyShare B (peval p (KeyperX i)) epochID) ks"
  shows "ComputeEpochSecretKey B ks shares threshold = Inr (ComputeEpochSecretKeyShare B (peval p 0) epochID)"
proof -
  let ?q = "Order B" and ?c = "\<lambda>i. lagrangeCoefficient B i ks"
  let ?L = "lagr KeyperX (lagr_inv B) (set ks)"
  obtain h where h: "epochID = G1_ScalarBaseMult B h" using G1_exp [OF B] by blast
  let ?s = "\<lambda>i. h * peval p (KeyperX i)"
  have "cng ?q (\<Sum>i\<leftarrow>ks. ?s i * ?c i) (\<Sum>i\<leftarrow>ks. ?s i * ?L i)"
    unfolding sum_list_distinct_conv_sum_set [OF ks(1)]
    by (intro cng_sum cng_mult cng_refl lagrangeCoefficient_lagr ks(1))
  also have "(\<Sum>i\<leftarrow>ks. ?s i * ?L i) = h * (\<Sum>i\<in>set ks. peval p (KeyperX i) * ?L i)"
    unfolding sum_list_distinct_conv_sum_set [OF ks(1)] by (simp add: sum_distrib_left mult.assoc)
  also have "cng ?q \<dots> (h * peval p 0)"
    using len(2) ks
    by (intro cng_intros lagrange_at_zero inverses_lagr_inv bn_prime B) (auto simp: distinct_card)
  finally have exp: "cng ?q (\<Sum>i\<leftarrow>ks. ?s i * ?c i) (h * peval p 0)" .
  have sh: "shares = map (\<lambda>i. G1_ScalarBaseMult B (?s i)) ks"
    using B by (simp add: shares h ComputeEpochSecretKeyShare_def group_simps)
  have "ComputeEpochSecretKey B ks shares threshold
      = Inr (foldl (\<lambda>skG1 (i, share). G1_Add B skG1 (G1_ScalarMult B share (?c i)))
           (G1_ScalarBaseMult B 0) (zip ks shares))"
    using len(1) by (simp add: ComputeEpochSecretKey_def sh zeroG1_def Let_def)
  also have "\<dots> = Inr (G1_ScalarBaseMult B (h * peval p 0))"
    using foldl_shares_exp [OF B, of ?c 0 ks ?s] exp B by (simp add: sh group_simps)
  finally show ?thesis using B by (simp add: h ComputeEpochSecretKeyShare_def group_simps)
qed

text \<open>Epoch ids have known discrete logarithms, so one epoch key determines all others.\<close>

lemma epoch_keys_related:
  assumes "bn_ok B"
  shows "ComputeEpochSecretKeyShare B s (ComputeEpochID B e) =
    G1_ScalarMult B (ComputeEpochSecretKeyShare B s (ComputeEpochID B 0)) (uint (e + 1))"
  using assms
  by (simp add: ComputeEpochSecretKeyShare_def ComputeEpochID_def group_simps mult.commute)

end
