(* ===== verification/Encryption.thy ===== *)
theory Encryption
  imports Keys
begin

text \<open>
  \<open>shcrypto/encryption.go\<close>, \<open>shcrypto/encoding.go\<close> and \<open>shcrypto/shuffle.go\<close>: encrypting a message for
  an epoch, decrypting it with the epoch secret key, the byte format of an encrypted message and
  the order in which decrypted transactions are executed. A \<open>Block\<close> is a list of 32 bytes.
\<close>

section \<open>Operations\<close>

type_synonym block = bytes

definition BlockSize :: nat where
  "BlockSize = 32"

definition is_block :: "block \<Rightarrow> bool" where
  "is_block b \<longleftrightarrow> length b = BlockSize"

definition zero_block :: block where
  "zero_block = replicate BlockSize 0"

text \<open>Go's \<open>copy\<close>: as many bytes as both slices have.\<close>

definition copy_bytes :: "bytes \<Rightarrow> bytes \<Rightarrow> bytes" where
  "copy_bytes dst src = take (length dst) src @ drop (length src) dst"

record 'g2 EncryptedMessage =
  C1 :: "'g2 option"
  C2 :: block
  C3 :: "block list"

definition HashBytesToBlock :: "('g1, 'g2, 'gt) bn256 \<Rightarrow> bytes \<Rightarrow> block" where
  "HashBytesToBlock B d = copy_bytes zero_block (Keccak256 B d)"

definition HashBlockToInt :: "('g1, 'g2, 'gt) bn256 \<Rightarrow> block \<Rightarrow> int" where
  "HashBlockToInt B d = big_SetBytes (Keccak256 B d) mod Order B"

definition HashGTToBlock :: "('g1, 'g2, 'gt) bn256 \<Rightarrow> 'gt \<Rightarrow> block" where
  "HashGTToBlock B gt = HashBytesToBlock B (GT_Marshal B gt)"

definition XORBlocks :: "block \<Rightarrow> block \<Rightarrow> block" where
  "XORBlocks b1 b2 = map (\<lambda>i. xor (b1 ! i) (b2 ! i)) [0..<BlockSize]"

text \<open>
  The reader is what one \<open>Read\<close> of 32 bytes returns. A failing reader is reported as success with
  a block of zeros.
\<close>

definition RandomSigma :: "(nat \<Rightarrow> bytes result) \<Rightarrow> block result" where
  "RandomSigma Read = (case Read BlockSize of
       Inl err \<Rightarrow> Inr zero_block
     | Inr data \<Rightarrow> Inr (copy_bytes zero_block (copy_bytes (replicate BlockSize 0) data)))"

definition computeR :: "('g1, 'g2, 'gt) bn256 \<Rightarrow> block \<Rightarrow> int" where
  "computeR B sigma = HashBlockToInt B sigma"

definition computeC1 :: "('g1, 'g2, 'gt) bn256 \<Rightarrow> int \<Rightarrow> 'g2" where
  "computeC1 B r = G2_ScalarBaseMult B r"

definition computeC2 :: "('g1, 'g2, 'gt) bn256 \<Rightarrow> block \<Rightarrow> int \<Rightarrow> 'g1 \<Rightarrow> 'g2 \<Rightarrow> block" where
  "computeC2 B sigma r epochID eonPublicKey =
     (let pairing = Pair B epochID eonPublicKey;
          preimage = GT_ScalarMult B pairing r;
          key = HashGTToBlock B preimage
      in XORBlocks sigma key)"

text \<open>The loop of \<open>computeBlockKeys\<close> reuses its ten-byte buffer.\<close>

fun computeBlockKeys_loop :: "('g1, 'g2, 'gt) bn256 \<Rightarrow> block \<Rightarrow> nat list \<Rightarrow> bytes \<Rightarrow> block list \<Rightarrow> block list" where
  "computeBlockKeys_loop B sigma [] buf keys = keys"
| "computeBlockKeys_loop B sigma (i # is) buf keys =
     (let buf' = PutVarint buf i;
          preimage = sigma @ buf';
          key = HashBytesToBlock B preimage
      in computeBlockKeys_loop B sigma is buf' (keys @ [key]))"

definition computeBlockKeys :: "('g1, 'g2, 'gt) bn256 \<Rightarrow> block \<Rightarrow> nat \<Rightarrow> block list" where
  "computeBlockKeys B sigma n = computeBlockKeys_loop B sigma [0..<n] (replicate 10 0) []"

definition computeC3 :: "('g1, 'g2, 'gt) bn256 \<Rightarrow> block list \<Rightarrow> block \<Rightarrow> block list" where
  "computeC3 B blocks sigma =
     (let numBlocks = length blocks;
          keys = computeBlockKeys B sigma numBlocks
      in map (\<lambda>i. XORBlocks (keys ! i) (blocks ! i)) [0..<numBlocks])"

definition PadMessage :: "bytes \<Rightarrow> block list" where
  "PadMessage m =
     (let paddingLength = BlockSize - length m mod BlockSize;
          padding = replicate paddingLength (byte_of_nat paddingLength);
          padded = m @ padding;
          numBlocks = length padded div BlockSize
      in map (\<lambda>i. take BlockSize (drop (i * BlockSize) padded)) [0..<numBlocks])"

definition UnpadMessage :: "block list \<Rightarrow> bytes result" where
  "UnpadMessage blocks =
     (if blocks = [] then Inr []
      else let lastBlock = last blocks;
               paddingLength = unat (lastBlock ! (BlockSize - 1))
           in if paddingLength = 0 then Inl (Errorf ''invalid padding length 0'')
              else if paddingLength > BlockSize
              then Inl (Errorf ''invalid padding length (greater than block size)'')
              else Inr (concat (butlast blocks) @ take (BlockSize - paddingLength) lastBlock))"

definition Encrypt ::
  "('g1, 'g2, 'gt) bn256 \<Rightarrow> bytes \<Rightarrow> 'g2 \<Rightarrow> 'g1 \<Rightarrow> block \<Rightarrow> 'g2 EncryptedMessage" where
  "Encrypt B message eonPublicKey epochID sigma =
     (let messageBlocks = PadMessage message;
          r = computeR B sigma
      in \<lparr> C1 = Some (computeC1 B r),
           C2 = computeC2 B sigma r epochID eonPublicKey,
           C3 = computeC3 B messageBlocks sigma \<rparr>)"

definition Sigma :: "('g1, 'g2, 'gt) bn256 \<Rightarrow> 'g2 EncryptedMessage \<Rightarrow> 'g1 \<Rightarrow> block result" where
  "Sigma B m epochSecretKey =
     (case C1 m of
        None \<Rightarrow> Inl (Panic ''nil pointer'')
      | Some c1 \<Rightarrow>
          (let pairing = Pair B epochSecretKey c1;
               key = HashGTToBlock B pairing
           in Inr (XORBlocks (C2 m) key)))"

definition decryptBlocks :: "('g1, 'g2, 'gt) bn256 \<Rightarrow> block list \<Rightarrow> block \<Rightarrow> block list" where
  "decryptBlocks B encryptedBlocks sigma =
     (let numBlocks = length encryptedBlocks;
          keys = computeBlockKeys B sigma numBlocks
      in map (\<lambda>i. XORBlocks (encryptedBlocks ! i) (keys ! i)) [0..<numBlocks])"

definition Decrypt :: "('g1, 'g2, 'gt) bn256 \<Rightarrow> 'g2 EncryptedMessage \<Rightarrow> 'g1 \<Rightarrow> bytes result" where
  "Decrypt B m epochSecretKey =
     (case Sigma B m epochSecretKey of
        Inl e \<Rightarrow> Inl e
      | Inr sigma \<Rightarrow> UnpadMessage (decryptBlocks B (C3 m) sigma))"

section \<open>Encoding\<close>

definition EncryptedMessage_Marshal :: "('g1, 'g2, 'gt) bn256 \<Rightarrow> 'g2 EncryptedMessage \<Rightarrow> bytes result" where
  "EncryptedMessage_Marshal B m =
     (case C1 m of
        None \<Rightarrow> Inl (Panic ''not a valid encrypted message. C1==nil'')
      | Some c1 \<Rightarrow> Inr (G2_Marshal B c1 @ C2 m @ concat (C3 m)))"

fun Unmarshal_blocks :: "nat \<Rightarrow> bytes \<Rightarrow> block list" where
  "Unmarshal_blocks 0 d = []"
| "Unmarshal_blocks (Suc k) d =
     (if d = [] then [] else copy_bytes zero_block d # Unmarshal_blocks k (drop BlockSize d))"

text \<open>The loop over \<open>d\<close> drops 32 bytes at a time, so it ends within \<open>len(d)\<close> rounds.\<close>

definition EncryptedMessage_Unmarshal ::
  "('g1, 'g2, 'gt) bn256 \<Rightarrow> bytes \<Rightarrow> 'g2 EncryptedMessage result" where
  "EncryptedMessage_Unmarshal B d0 =
     (case G2_Unmarshal B d0 of
        None \<Rightarrow> Inl (Errorf ''bn256.G2: unmarshal'')
      | Some (c1, d) \<Rightarrow>
          if length d mod BlockSize \<noteq> 0 then Inl (Errorf ''length not a multiple of the block size'')
          else if length d < BlockSize then Inl (Errorf ''short block'')
          else Inr \<lparr> C1 = Some c1, C2 = copy_bytes zero_block d,
                     C3 = Unmarshal_blocks (length d) (drop BlockSize d) \<rparr>)"

section \<open>Shuffling\<close>

text \<open>
  \<open>rand.New(rand.NewSource(seed))\<close> is a parameter: \<open>int31n seed k n\<close> is the \<open>k\<close>-th number it draws
  below \<open>n\<close>. \<open>Rand.Shuffle\<close> walks from the last index down and swaps with a drawn index.
\<close>

definition little_endian :: "bytes \<Rightarrow> nat" where
  "little_endian bs = foldr (\<lambda>b n. unat b + 256 * n) bs 0"

definition computeSeed :: "('g1, 'g2, 'gt) bn256 \<Rightarrow> 'g1 \<Rightarrow> i64" where
  "computeSeed B key =
     (let keyBytes = G1_Marshal B key;
          keyHash = Keccak256 B keyBytes
      in of_nat (little_endian (take 8 keyHash)))"

definition swap_elems :: "nat \<Rightarrow> nat \<Rightarrow> 'a list \<Rightarrow> 'a list" where
  "swap_elems i j xs = xs[i := xs ! j, j := xs ! i]"

fun rand_Shuffle :: "(nat \<Rightarrow> nat \<Rightarrow> nat) \<Rightarrow> nat \<Rightarrow> nat \<Rightarrow> 'a list \<Rightarrow> 'a list" where
  "rand_Shuffle draw k 0 xs = xs"
| "rand_Shuffle draw k (Suc i) xs =
     (if i = 0 then xs else rand_Shuffle draw (Suc k) i (swap_elems i (draw k (Suc i)) xs))"

definition Shuffle ::
  "('g1, 'g2, 'gt) bn256 \<Rightarrow> (i64 \<Rightarrow> nat \<Rightarrow> nat \<Rightarrow> nat) \<Rightarrow> bytes list \<Rightarrow> 'g1 \<Rightarrow> bytes list" where
  "Shuffle B int31n txs key = rand_Shuffle (int31n (computeSeed B key)) 0 (length txs) txs"

section \<open>Blocks\<close>

lemma copy_bytes_length [simp]: "length (copy_bytes dst src) = length dst"
  by (simp add: copy_bytes_def)

lemma copy_bytes_full: "length src = length dst \<Longrightarrow> copy_bytes dst src = src"
  by (simp add: copy_bytes_def)

lemma copy_bytes_prefix: "length dst = length src \<Longrightarrow> copy_bytes dst (src @ rest) = src"
  by (simp add: copy_bytes_def)

lemma is_block_zero [simp]: "is_block zero_block"
  by (simp add: is_block_def zero_block_def)

lemma length_zero_block [simp]: "length zero_block = BlockSize"
  by (simp add: zero_block_def)

lemma is_block_hash [simp]: "is_block (HashBytesToBlock B d)" "is_block (HashGTToBlock B gt)"
  by (simp_all add: is_block_def HashBytesToBlock_def HashGTToBlock_def)

lemma is_block_XOR [simp]: "is_block (XORBlocks a b)"
  by (simp add: is_block_def XORBlocks_def)

lemma XORBlocks_cancel:
  assumes "is_block a"
  shows "XORBlocks (XORBlocks a k) k = a" "XORBlocks (XORBlocks k a) k = a"
  using assms
  by (auto intro!: nth_equalityI simp: XORBlocks_def is_block_def xor.assoc xor.commute xor.left_commute)

lemma computeBlockKeys_loop_blocks:
  "(\<forall>b\<in>set keys. is_block b) \<Longrightarrow>
   length (computeBlockKeys_loop B sigma is buf keys) = length keys + length is \<and>
   (\<forall>b\<in>set (computeBlockKeys_loop B sigma is buf keys). is_block b)"
proof (induction "is" arbitrary: buf keys)
  case Nil
  then show ?case by simp
next
  case (Cons i "is")
  let ?keys = "keys @ [HashBytesToBlock B (sigma @ PutVarint buf i)]"
  have "\<forall>b\<in>set ?keys. is_block b" using Cons.prems by auto
  from Cons.IH [OF this, of "PutVarint buf i"] show ?case by (simp add: Let_def)
qed

lemma computeBlockKeys_blocks [simp]:
  "length (computeBlockKeys B sigma n) = n" "b \<in> set (computeBlockKeys B sigma n) \<Longrightarrow> is_block b"
  using computeBlockKeys_loop_blocks [of "[]" B sigma "[0..<n]" "replicate 10 0"]
  by (simp_all add: computeBlockKeys_def)

text \<open>Every block key is the hash of sigma and an encoding of its index.\<close>

lemma computeBlockKeys_loop_nth:
  "j < length keys + length is \<Longrightarrow>
   \<exists>buf'. computeBlockKeys_loop B sigma is buf keys ! j =
     (if j < length keys then keys ! j
      else HashBytesToBlock B (sigma @ PutVarint buf' (is ! (j - length keys))))"
proof (induction "is" arbitrary: buf keys)
  case Nil
  then show ?case by simp
next
  case (Cons i "is")
  let ?key = "HashBytesToBlock B (sigma @ PutVarint buf i)"
  obtain buf' where "computeBlockKeys_loop B sigma is (PutVarint buf i) (keys @ [?key]) ! j =
     (if j < length (keys @ [?key]) then (keys @ [?key]) ! j
      else HashBytesToBlock B (sigma @ PutVarint buf' (is ! (j - length (keys @ [?key])))))"
    using Cons.IH [of "keys @ [?key]" "PutVarint buf i"] Cons.prems by auto
  moreover have "j = length keys \<or> j < length keys \<or> length keys < j" by linarith
  ultimately show ?case by (auto simp: Let_def nth_append intro: exI [of _ buf])
qed

lemma computeBlockKeys_nth:
  "j < n \<Longrightarrow> \<exists>buf. computeBlockKeys B sigma n ! j = HashBytesToBlock B (sigma @ PutVarint buf j)"
  using computeBlockKeys_loop_nth [of j "[]" "[0..<n]" B sigma "replicate 10 0"]
  by (auto simp: computeBlockKeys_def)

lemma decryptBlocks_computeC3:
  assumes "\<forall>b\<in>set blocks. is_block b"
  shows "decryptBlocks B (computeC3 B blocks sigma) sigma = blocks"
  using assms by (intro nth_equalityI) (auto simp: decryptBlocks_def computeC3_def Let_def XORBlocks_cancel)


section \<open>Padding\<close>

lemma concat_chunks:
  "length xs = n * k \<Longrightarrow> concat (map (\<lambda>i. take k (drop (i * k) xs)) [0..<n]) = xs"
proof (induction n arbitrary: xs)
  case 0
  then show ?case by simp
next
  case (Suc n)
  have "[0..<Suc n] = 0 # map Suc [0..<n]" by (simp add: map_Suc_upt upt_conv_Cons del: upt_Suc)
  then have "concat (map (\<lambda>i. take k (drop (i * k) xs)) [0..<Suc n])
      = take k xs @ concat (map (\<lambda>i. take k (drop (i * k) (drop k xs))) [0..<n])"
    by (simp add: add.commute comp_def del: upt_Suc)
  also have "\<dots> = take k xs @ drop k xs" using Suc by (subst Suc.IH) simp_all
  finally show ?case by simp
qed

lemma PadMessage_padded:
  defines "pl \<equiv> \<lambda>m. BlockSize - length m mod BlockSize"
  shows "concat (PadMessage m) = m @ replicate (pl m) (byte_of_nat (pl m))"
    "0 < pl m" "pl m \<le> BlockSize" "b \<in> set (PadMessage m) \<Longrightarrow> is_block b"
    "length (PadMessage m) * BlockSize = length m + pl m"
proof -
  have "length m mod 32 < 32" by simp
  then show "0 < pl m" "pl m \<le> BlockSize" unfolding pl_def BlockSize_def by linarith+
  have len: "length m + pl m = (length m div BlockSize + 1) * BlockSize"
    unfolding pl_def BlockSize_def by presburger
  then have n: "(length m + pl m) div BlockSize = length m div BlockSize + 1" by (simp add: BlockSize_def)
  show "length (PadMessage m) * BlockSize = length m + pl m"
    using len n by (simp add: PadMessage_def Let_def pl_def)
  show "concat (PadMessage m) = m @ replicate (pl m) (byte_of_nat (pl m))"
    using len n unfolding PadMessage_def Let_def pl_def by (subst concat_chunks) simp_all
  assume "b \<in> set (PadMessage m)"
  then obtain i where "i < length m div BlockSize + 1"
    and b: "b = take BlockSize (drop (i * BlockSize) (m @ replicate (pl m) (byte_of_nat (pl m))))"
    using n by (auto simp: PadMessage_def Let_def pl_def)
  then have "i * BlockSize + BlockSize \<le> length m + pl m" using len by (simp add: BlockSize_def)
  then show "is_block b" using b by (simp add: is_block_def)
qed

lemma Unpad_Pad: "UnpadMessage (PadMessage m) = Inr m"
proof -
  let ?p = "BlockSize - length m mod BlockSize"
  let ?bs = "PadMessage m"
  note P = PadMessage_padded [of m]
  have ne: "?bs \<noteq> []" using P(5,2) by (metis add_is_0 length_0_conv mult_is_0 not_gr_zero)
  have split: "concat ?bs = concat (butlast ?bs) @ last ?bs"
    using ne by (metis append_butlast_last_id concat.simps(2) concat_append concat.simps(1) append_Nil2)
  have ll: "length (last ?bs) = BlockSize" using PadMessage_padded(4) [of "last ?bs" m] ne by (simp add: is_block_def)
  have eq: "concat (butlast ?bs) @ last ?bs = m @ replicate ?p (byte_of_nat ?p)"
    using P(1) split by simp
  have lm: "length (concat (butlast ?bs)) + BlockSize = length m + ?p"
    using arg_cong [OF eq, of length] ll by simp
  have "last ?bs \<noteq> []" using ll by (auto simp: BlockSize_def)
  then have "last (last ?bs) = last (concat (butlast ?bs) @ last ?bs)" by (simp add: last_append)
  also have "\<dots> = byte_of_nat ?p" unfolding eq using P(2) by (simp add: last_append)
  finally have lst: "last ?bs ! (BlockSize - 1) = byte_of_nat ?p"
    using ll by (metis last_conv_nth list.size(3) BlockSize_def zero_neq_numeral)
  have lt: "?p < 256" using P(3) by (simp add: BlockSize_def)
  have "concat (butlast ?bs) @ take (BlockSize - ?p) (last ?bs)
      = take (length m) (concat (butlast ?bs) @ last ?bs)"
  proof -
    have la: "length m = length (concat (butlast ?bs)) + (BlockSize - ?p)" using lm P(2,3) by linarith
    have "take (length A + k) (A @ L) = A @ take k L" for A L :: bytes and k by simp
    from this [of "concat (butlast ?bs)" "BlockSize - ?p" "last ?bs", folded la]
    show ?thesis by (rule sym)
  qed
  also have "\<dots> = m" unfolding eq by simp
  finally show ?thesis
    using ne lst lt P(2,3) by (simp add: UnpadMessage_def unat_byte_of_nat Let_def)
qed

section \<open>Decryption undoes encryption\<close>

text \<open>The epoch secret key is the epoch id times the secret of the eon public key.\<close>

lemma Sigma_Encrypt:
  assumes B: "bn_ok B" and s: "is_block sigma"
  shows "Sigma B (Encrypt B m (G2_ScalarBaseMult B sk) epochID sigma)
           (ComputeEpochSecretKeyShare B sk epochID) = Inr sigma"
proof -
  obtain h where h: "epochID = G1_ScalarBaseMult B h" using G1_exp [OF B] by blast
  let ?r = "computeR B sigma"
  have "Pair B (G1_ScalarBaseMult B (h * sk)) (G2_ScalarBaseMult B ?r)
      = GT_ScalarMult B (Pair B (G1_ScalarBaseMult B h) (G2_ScalarBaseMult B sk)) ?r"
    using B by (simp add: group_simps mult.commute mult.left_commute)
  then show ?thesis
    using s by (simp add: Sigma_def Encrypt_def Let_def h computeC1_def computeC2_def
        ComputeEpochSecretKeyShare_def G1_mult [OF B] XORBlocks_cancel)
qed

lemma Decrypt_Encrypt:
  assumes "bn_ok B" and "is_block sigma"
  shows "Decrypt B (Encrypt B m (G2_ScalarBaseMult B sk) epochID sigma)
           (ComputeEpochSecretKeyShare B sk epochID) = Inr m"
  using assms Sigma_Encrypt [OF assms, of m sk epochID] PadMessage_padded(4) [where m = m]
  by (simp add: Decrypt_def Encrypt_def Let_def decryptBlocks_computeC3 Unpad_Pad)

section \<open>Marshalling\<close>

definition wf_message :: "'g2 EncryptedMessage \<Rightarrow> bool" where
  "wf_message m \<longleftrightarrow> C1 m \<noteq> None \<and> is_block (C2 m) \<and> (\<forall>b\<in>set (C3 m). is_block b)"

lemma concat_blocks_length: "\<forall>b\<in>set bs. is_block b \<Longrightarrow> length (concat bs) = length bs * BlockSize"
  by (induction bs) (simp_all add: is_block_def)

lemma Unmarshal_blocks_concat:
  "\<forall>b\<in>set bs. is_block b \<Longrightarrow> length bs \<le> k \<Longrightarrow> Unmarshal_blocks k (concat bs) = bs"
proof (induction bs arbitrary: k)
  case Nil
  then show ?case by (cases k) simp_all
next
  case (Cons b bs)
  then obtain k' where "k = Suc k'" by (cases k) auto
  moreover have "b \<noteq> []" "length b = BlockSize" using Cons.prems by (auto simp: is_block_def BlockSize_def)
  ultimately show ?case using Cons by (simp add: copy_bytes_prefix)
qed

lemma Encrypt_wf: "wf_message (Encrypt B m pk epochID sigma)"
  by (auto simp: wf_message_def Encrypt_def Let_def computeC2_def computeC3_def)

lemma Unmarshal_Marshal:
  assumes B: "bn_ok B" and wf: "wf_message m"
  shows "\<exists>d. EncryptedMessage_Marshal B m = Inr d \<and> EncryptedMessage_Unmarshal B d = Inr m"
proof -
  obtain c where c: "C1 m = Some c" using wf by (auto simp: wf_message_def)
  have l2: "length (C2 m) = BlockSize" and b3: "\<forall>b\<in>set (C3 m). is_block b"
    using wf by (auto simp: wf_message_def is_block_def)
  have len: "length (C2 m @ concat (C3 m)) = (1 + length (C3 m)) * BlockSize"
    using l2 concat_blocks_length [OF b3] by simp
  have "length (C3 m) \<le> length (C2 m @ concat (C3 m))"
    using len by (simp add: BlockSize_def)
  then have "Unmarshal_blocks (length (C2 m @ concat (C3 m))) (concat (C3 m)) = C3 m"
    using b3 by (intro Unmarshal_blocks_concat)
  moreover have "copy_bytes zero_block (C2 m @ concat (C3 m)) = C2 m"
    using l2 by (simp add: copy_bytes_prefix)
  moreover have "length (C2 m @ concat (C3 m)) mod BlockSize = 0" using len by simp
  moreover have "\<not> length (C2 m @ concat (C3 m)) < BlockSize" using len by simp
  moreover have "drop BlockSize (C2 m @ concat (C3 m)) = concat (C3 m)" using l2 by simp
  ultimately have "EncryptedMessage_Unmarshal B (G2_Marshal B c @ C2 m @ concat (C3 m)) = Inr m"
    using c by (simp add: EncryptedMessage_Unmarshal_def G2_Unmarshal_Marshal [OF B] del: length_append)
  then show ?thesis using c by (simp add: EncryptedMessage_Marshal_def)
qed

section \<open>Shuffling\<close>

lemma swap_elems_mset: "i < length xs \<Longrightarrow> j < length xs \<Longrightarrow> mset (swap_elems i j xs) = mset xs"
  by (simp add: swap_elems_def mset_swap)

lemma swap_elems_length [simp]: "length (swap_elems i j xs) = length xs"
  by (simp add: swap_elems_def)

lemma rand_Shuffle_mset:
  "(\<And>k n. 0 < n \<Longrightarrow> draw k n < n) \<Longrightarrow> i \<le> length xs \<Longrightarrow> mset (rand_Shuffle draw k i xs) = mset xs"
proof (induction i arbitrary: k xs)
  case 0
  then show ?case by simp
next
  case (Suc i)
  have "draw k (Suc i) < Suc i" using Suc.prems(1) [of "Suc i" k] by blast
  then have "draw k (Suc i) < length xs" using Suc.prems(2) by linarith
  then show ?case
    using Suc.IH [OF Suc.prems(1), of "swap_elems i (draw k (Suc i)) xs" "Suc k"] Suc.prems(2)
    by (simp add: swap_elems_mset)
qed

lemma Shuffle_mset:
  "(\<And>s k n. 0 < n \<Longrightarrow> int31n s k n < n) \<Longrightarrow> mset (Shuffle B int31n txs key) = mset txs"
  unfolding Shuffle_def by (intro rand_Shuffle_mset) auto

end
