(* ===== verification/ShMsg.thy ===== *)
theory ShMsg
  imports Encryption
begin

text \<open>
  \<open>shmsg\<close>: the messages keypers send to the shuttermint chain (the structs protoc generates from
  \<open>shmsg.proto\<close>), their constructors (\<open>messages.go\<close>), signing (\<open>encode.go\<close>) and the wrappers of
  group elements (\<open>extend.go\<close>).
\<close>

section \<open>Messages\<close>

record ShBatchConfig =
  sbc_StartBatchIndex :: u64
  sbc_Keypers :: "bytes list"
  sbc_Threshold :: u64
  sbc_ConfigContractAddress :: bytes
  sbc_ConfigIndex :: u64
  sbc_Started :: bool
  sbc_ValidatorsUpdated :: bool

record ShCheckIn =
  sci_ValidatorPublicKey :: bytes
  sci_EncryptionPublicKey :: bytes

record ShDecryptionSignature =
  sds_BatchIndex :: u64
  sds_Signature :: bytes

record ShPolyEval =
  spe_Eon :: u64
  spe_Receivers :: "bytes list"
  spe_EncryptedEvals :: "bytes list"

record ShPolyCommitment =
  spc_Eon :: u64
  spc_Gammas :: "bytes list"

record ShAccusation =
  sac_Eon :: u64
  sac_Accused :: "bytes list"

record ShApology =
  sap_Eon :: u64
  sap_Accusers :: "bytes list"
  sap_PolyEvals :: "bytes list"

record ShEpochSecretKeyShare =
  ses_Eon :: u64
  ses_Epoch :: u64
  ses_Share :: bytes

text \<open>The payload of a \<open>Message\<close>; the two one-field messages carry their field.\<close>

datatype payload =
    Message_BatchConfig ShBatchConfig
  | Message_BatchConfigStarted u64
  | Message_CheckIn ShCheckIn
  | Message_DecryptionSignature ShDecryptionSignature
  | Message_PolyEval ShPolyEval
  | Message_PolyCommitment ShPolyCommitment
  | Message_Accusation ShAccusation
  | Message_Apology ShApology
  | Message_EonStartVote u64
  | Message_EpochSecretKeyShare ShEpochSecretKeyShare

text \<open>A \<open>*Message\<close> whose oneof is not set is \<open>None\<close>.\<close>

type_synonym Message = "payload option"

record MessageWithNonce =
  mwn_Msg :: "Message option"
  mwn_ChainId :: bytes
  mwn_RandomNonce :: u64

text \<open>The protocol buffer runtime and \<open>sha3.New256\<close> are parameters.\<close>

record proto =
  proto_Marshal :: "MessageWithNonce \<Rightarrow> bytes result"
  proto_Unmarshal :: "bytes \<Rightarrow> MessageWithNonce result"
  msg_Marshal :: "Message \<Rightarrow> bytes result"
  msg_Unmarshal :: "bytes \<Rightarrow> Message result"
  sha3_256 :: "bytes \<Rightarrow> bytes"

definition proto_ok :: "proto \<Rightarrow> bool" where
  "proto_ok P \<longleftrightarrow>
     (\<forall>m d. proto_Marshal P m = Inr d \<longrightarrow> proto_Unmarshal P d = Inr m) \<and>
     (\<forall>m d. msg_Marshal P m = Inr d \<longrightarrow> msg_Unmarshal P d = Inr m) \<and>
     (\<forall>d. length (sha3_256 P d) = 32) \<and> (\<forall>d. no_panic (proto_Unmarshal P d))"

section \<open>Constructors\<close>

definition NewBatchConfig ::
  "('pk, 'sk, 'ek, 'dk) eth \<Rightarrow> u64 \<Rightarrow> address list \<Rightarrow> u64 \<Rightarrow> address \<Rightarrow> u64 \<Rightarrow> bool \<Rightarrow> bool \<Rightarrow> Message" where
  "NewBatchConfig E startBatchIndex keypers threshold configContractAddress configIndex started validatorsUpdated =
     Some (Message_BatchConfig
       \<lparr> sbc_StartBatchIndex = startBatchIndex,
         sbc_Keypers = map (Address_Bytes E) keypers,
         sbc_Threshold = threshold,
         sbc_ConfigContractAddress = Address_Bytes E configContractAddress,
         sbc_ConfigIndex = configIndex,
         sbc_Started = started,
         sbc_ValidatorsUpdated = validatorsUpdated \<rparr>)"

definition NewDecryptionSignature :: "u64 \<Rightarrow> bytes \<Rightarrow> Message" where
  "NewDecryptionSignature batchIndex signature =
     Some (Message_DecryptionSignature \<lparr> sds_BatchIndex = batchIndex, sds_Signature = signature \<rparr>)"

definition NewApology ::
  "('pk, 'sk, 'ek, 'dk) eth \<Rightarrow> u64 \<Rightarrow> address list \<Rightarrow> int list \<Rightarrow> Message result" where
  "NewApology E eon accusers polyEvals =
     (if length accusers \<noteq> length polyEvals then Inl (Panic ''bad call to NewApology'')
      else Inr (Some (Message_Apology
        \<lparr> sap_Eon = eon,
          sap_Accusers = map (Address_Bytes E) accusers,
          sap_PolyEvals = map big_Bytes polyEvals \<rparr>)))"

definition NewAccusation :: "('pk, 'sk, 'ek, 'dk) eth \<Rightarrow> u64 \<Rightarrow> address list \<Rightarrow> Message" where
  "NewAccusation E eon accused =
     Some (Message_Accusation \<lparr> sac_Eon = eon, sac_Accused = map (Address_Bytes E) accused \<rparr>)"

definition NewPolyCommitment :: "('g1, 'g2, 'gt) bn256 \<Rightarrow> u64 \<Rightarrow> 'g2 list \<Rightarrow> Message" where
  "NewPolyCommitment B eon gammas =
     Some (Message_PolyCommitment \<lparr> spc_Eon = eon, spc_Gammas = map (G2_Marshal B) gammas \<rparr>)"

definition NewPolyEval ::
  "('pk, 'sk, 'ek, 'dk) eth \<Rightarrow> u64 \<Rightarrow> address list \<Rightarrow> bytes list \<Rightarrow> Message" where
  "NewPolyEval E eon receivers encryptedEvals =
     Some (Message_PolyEval
       \<lparr> spe_Eon = eon,
         spe_Receivers = map (Address_Bytes E) receivers,
         spe_EncryptedEvals = encryptedEvals \<rparr>)"

definition NewEonStartVote :: "u64 \<Rightarrow> Message" where
  "NewEonStartVote startBatchIndex = Some (Message_EonStartVote startBatchIndex)"

definition NewBatchConfigStarted :: "u64 \<Rightarrow> Message" where
  "NewBatchConfigStarted configIndex = Some (Message_BatchConfigStarted configIndex)"

definition NewCheckIn :: "('pk, 'sk, 'ek, 'dk) eth \<Rightarrow> bytes \<Rightarrow> 'ek \<Rightarrow> Message" where
  "NewCheckIn E validatorPublicKey encryptionKey =
     (let encryptionKeyECDSA = ExportECDSA E encryptionKey
      in Some (Message_CheckIn
        \<lparr> sci_ValidatorPublicKey = validatorPublicKey,
          sci_EncryptionPublicKey = CompressPubkey E encryptionKeyECDSA \<rparr>))"

definition NewEpochSecretKeyShare :: "('g1, 'g2, 'gt) bn256 \<Rightarrow> u64 \<Rightarrow> u64 \<Rightarrow> 'g1 \<Rightarrow> Message" where
  "NewEpochSecretKeyShare B eon epoch share =
     Some (Message_EpochSecretKeyShare
       \<lparr> ses_Eon = eon, ses_Epoch = epoch, ses_Share = G1Key_GobEncode B share \<rparr>)"

section \<open>Signing\<close>

definition SignatureLength :: nat where
  "SignatureLength = 65"

definition hashPrefix :: bytes where
  "hashPrefix = [0x19, 0x73, 0x68, 0x6d, 0x73, 0x67]"

definition SignMessage ::
  "('pk, 'sk, 'ek, 'dk) eth \<Rightarrow> proto \<Rightarrow> MessageWithNonce \<Rightarrow> 'sk \<Rightarrow> bytes result" where
  "SignMessage E P msg privkey =
     (case proto_Marshal P msg of
        Inl err \<Rightarrow> Inl err
      | Inr marshaled \<Rightarrow>
          (let h = sha3_256 P (hashPrefix @ marshaled)
           in case crypto_Sign E h privkey of
                Inl err \<Rightarrow> Inl err
              | Inr signature \<Rightarrow> Inr (signature @ marshaled)))"

definition GetSigner :: "('pk, 'sk, 'ek, 'dk) eth \<Rightarrow> proto \<Rightarrow> bytes \<Rightarrow> address result" where
  "GetSigner E P signedMessage =
     (if length signedMessage < SignatureLength then Inl (Errorf ''message too short'')
      else let h = sha3_256 P (hashPrefix @ drop SignatureLength signedMessage)
           in case SigToPub E h (take SignatureLength signedMessage) of
                Inl err \<Rightarrow> Inl err
              | Inr pubkey \<Rightarrow> Inr (PubkeyToAddress E pubkey))"

definition GetMessage :: "proto \<Rightarrow> bytes \<Rightarrow> MessageWithNonce result" where
  "GetMessage P signedMessage =
     (if length signedMessage < SignatureLength then Inl (Panic ''slice bounds out of range'')
      else proto_Unmarshal P (drop SignatureLength signedMessage))"

definition Message_GobEncode :: "proto \<Rightarrow> Message \<Rightarrow> bytes result" where
  "Message_GobEncode P m = msg_Marshal P m"

definition Message_GobDecode :: "proto \<Rightarrow> bytes \<Rightarrow> Message result" where
  "Message_GobDecode P data = msg_Unmarshal P data"

section \<open>Group elements in messages\<close>

definition G1_Set :: "('g1, 'g2, 'gt) bn256 \<Rightarrow> 'g1 \<Rightarrow> bytes" where
  "G1_Set B v = G1_Marshal B v"

definition G1_Get :: "('g1, 'g2, 'gt) bn256 \<Rightarrow> bytes \<Rightarrow> 'g1 result" where
  "G1_Get B g1bytes =
     (case G1_Unmarshal B g1bytes of None \<Rightarrow> Inl (Errorf ''bn256.G1: unmarshal'') | Some (v, rest) \<Rightarrow> Inr v)"

definition G2_Set :: "('g1, 'g2, 'gt) bn256 \<Rightarrow> 'g2 \<Rightarrow> bytes" where
  "G2_Set B v = G2_Marshal B v"

definition G2_Get :: "('g1, 'g2, 'gt) bn256 \<Rightarrow> bytes \<Rightarrow> 'g2 result" where
  "G2_Get B g2bytes =
     (case G2_Unmarshal B g2bytes of None \<Rightarrow> Inl (Errorf ''bn256.G2: unmarshal'') | Some (v, rest) \<Rightarrow> Inr v)"

definition GT_Set :: "('g1, 'g2, 'gt) bn256 \<Rightarrow> 'gt \<Rightarrow> bytes" where
  "GT_Set B v = GT_Marshal B v"

definition GT_Get :: "('g1, 'g2, 'gt) bn256 \<Rightarrow> bytes \<Rightarrow> 'gt result" where
  "GT_Get B gtbytes =
     (case GT_Unmarshal B gtbytes of None \<Rightarrow> Inl (Errorf ''bn256.GT: unmarshal'') | Some (v, rest) \<Rightarrow> Inr v)"

lemma G1_Get_Set: "bn_ok B \<Longrightarrow> G1_Get B (G1_Set B v) = Inr v"
  by (simp add: G1_Get_def G1_Set_def G1_Unmarshal_Marshal1)

lemma G2_Get_Set: "bn_ok B \<Longrightarrow> G2_Get B (G2_Set B v) = Inr v"
  by (simp add: G2_Get_def G2_Set_def G2_Unmarshal_Marshal1)

section \<open>A signed message names its signer and gives back the message\<close>

lemma SignMessage_cases:
  assumes "SignMessage E P msg sk = Inr signedMsg"
  obtains marshaled signature where "proto_Marshal P msg = Inr marshaled"
    "crypto_Sign E (sha3_256 P (hashPrefix @ marshaled)) sk = Inr signature"
    "signedMsg = signature @ marshaled"
  using assms by (auto simp: SignMessage_def Let_def split: sum.splits)

lemma GetSigner_SignMessage:
  assumes E: "eth_ok E" and P: "proto_ok P" and s: "SignMessage E P msg sk = Inr signedMsg"
  shows "GetSigner E P signedMsg = Inr (PubkeyToAddress E (sk_PublicKey E sk))" "GetMessage P signedMsg = Inr msg"
proof -
  obtain d sig where d: "proto_Marshal P msg = Inr d"
    "crypto_Sign E (sha3_256 P (hashPrefix @ d)) sk = Inr sig" "signedMsg = sig @ d"
    using s by (rule SignMessage_cases)
  have h: "length (sha3_256 P (hashPrefix @ d)) = 32" using P by (simp add: proto_ok_def)
  have "length sig = 65" "SigToPub E (sha3_256 P (hashPrefix @ d)) sig = Inr (sk_PublicKey E sk)"
    using Sign_laws [OF E h d(2)] by simp_all
  moreover have "proto_Unmarshal P d = Inr msg" using P d(1) by (auto simp: proto_ok_def)
  ultimately show "GetSigner E P signedMsg = Inr (PubkeyToAddress E (sk_PublicKey E sk))"
    "GetMessage P signedMsg = Inr msg"
    using d(3) by (simp_all add: GetSigner_def GetMessage_def SignatureLength_def)
qed

text \<open>A message that \<open>GetSigner\<close> accepts is long enough for \<open>GetMessage\<close> to slice it.\<close>

lemma GetMessage_no_panic:
  "GetSigner E P signedMsg = Inr signer \<Longrightarrow> GetMessage P signedMsg = proto_Unmarshal P (drop 65 signedMsg)"
  by (auto simp: GetSigner_def GetMessage_def SignatureLength_def split: if_splits)

end
