(* ===== verification/Medley.thy ===== *)
theory Medley
  imports Prelude
begin

text \<open>
  \<open>medley/medley.go\<close>: search in, uniqueness and deduplication of slices of addresses.
  \<open>WaitMined\<close> and \<open>WaitMinedMany\<close> are in \<open>WaitTx\<close>; \<open>CloneWithGob\<close> is a deep copy through serialisation (the
  identity on values) and is not modelled.
\<close>

definition FindAddressIndex :: "address list \<Rightarrow> address \<Rightarrow> nat result" where
  "FindAddressIndex addresses addr =
     (case find_index (\<lambda>a. a = addr) addresses of
        Some i \<Rightarrow> Inr i
      | None \<Rightarrow> Inl (Errorf ''address not found''))"

text \<open>The loops of the next two functions carry the set \<open>seen\<close> of the addresses met so far.\<close>

fun EnsureUniqueAddresses_loop :: "address set \<Rightarrow> address list \<Rightarrow> go_error option" where
  "EnsureUniqueAddresses_loop seen [] = None"
| "EnsureUniqueAddresses_loop seen (a # addrs) =
     (if a \<in> seen then Some (Errorf ''duplicate address'')
      else EnsureUniqueAddresses_loop (insert a seen) addrs)"

definition EnsureUniqueAddresses :: "address list \<Rightarrow> go_error option" where
  "EnsureUniqueAddresses addrs = EnsureUniqueAddresses_loop {} addrs"

fun DedupAddresses_loop :: "address set \<Rightarrow> address list \<Rightarrow> address list" where
  "DedupAddresses_loop seen [] = []"
| "DedupAddresses_loop seen (a # addrs) =
     (if a \<in> seen then DedupAddresses_loop seen addrs
      else a # DedupAddresses_loop (insert a seen) addrs)"

definition DedupAddresses :: "address list \<Rightarrow> address list" where
  "DedupAddresses addrs = DedupAddresses_loop {} addrs"

lemma FindAddressIndex_Inr:
  "FindAddressIndex addrs a = Inr i \<Longrightarrow> i < length addrs \<and> addrs ! i = a"
  by (auto simp: FindAddressIndex_def split: option.splits dest: find_index_SomeD)

lemma FindAddressIndex_Inl_iff: "(\<exists>e. FindAddressIndex addrs a = Inl e) \<longleftrightarrow> a \<notin> set addrs"
  by (auto simp: FindAddressIndex_def split: option.splits dest: find_index_SomeD)

lemma FindAddressIndex_nth:
  "distinct addrs \<Longrightarrow> i < length addrs \<Longrightarrow> FindAddressIndex addrs (addrs ! i) = Inr i"
  by (simp add: FindAddressIndex_def find_index_nth_distinct)

lemma EnsureUniqueAddresses_loop_None:
  "EnsureUniqueAddresses_loop seen addrs = None \<longleftrightarrow> distinct addrs \<and> set addrs \<inter> seen = {}"
  by (induction seen addrs rule: EnsureUniqueAddresses_loop.induct) auto

lemma EnsureUniqueAddresses_None [simp]: "EnsureUniqueAddresses addrs = None \<longleftrightarrow> distinct addrs"
  by (simp add: EnsureUniqueAddresses_def EnsureUniqueAddresses_loop_None)

lemma DedupAddresses_loop_props:
  "distinct (DedupAddresses_loop seen addrs) \<and>
   set (DedupAddresses_loop seen addrs) = set addrs - seen"
  by (induction seen addrs rule: DedupAddresses_loop.induct) auto

lemma DedupAddresses_distinct [simp]: "distinct (DedupAddresses addrs)"
  by (simp add: DedupAddresses_def DedupAddresses_loop_props)

lemma DedupAddresses_set [simp]: "set (DedupAddresses addrs) = set addrs"
  by (simp add: DedupAddresses_def DedupAddresses_loop_props)

lemma DedupAddresses_loop_id:
  "distinct addrs \<Longrightarrow> set addrs \<inter> seen = {} \<Longrightarrow> DedupAddresses_loop seen addrs = addrs"
  by (induction seen addrs rule: DedupAddresses_loop.induct) auto

lemma DedupAddresses_id [simp]: "distinct addrs \<Longrightarrow> DedupAddresses addrs = addrs"
  by (simp add: DedupAddresses_def DedupAddresses_loop_id)

end
