(* ===== verification/ShielderEvents.thy ===== *)
theory ShielderEvents
  imports ShMsg Medley
begin

text \<open>
  \<open>keyper/shutterevents\<close>: the events shuttermint emits and keypers read back, as typed structs
  (\<open>events.go\<close>), the batch config they share (\<open>batchconfig.go\<close>), and the textual encoding of
  event attributes (\<open>marshal.go\<close>, \<open>helpers.go\<close>, \<open>evtype.go\<close>). Attribute keys and values, byte slices
  of ASCII text in the code, are strings.
\<close>

section \<open>Batch configurations\<close>

record BatchConfig =
  bc_Height :: i64
  bc_Keypers :: "address list"
  bc_StartBatchIndex :: u64
  bc_Threshold :: u64
  bc_ConfigIndex :: u64
  bc_ConfigContractAddress :: address
  bc_Started :: bool
  bc_ValidatorsUpdated :: bool

definition KeyperIndex :: "BatchConfig \<Rightarrow> address \<Rightarrow> u64 option" where
  "KeyperIndex bc addr = map_option of_nat (find_index (\<lambda>k. k = addr) (bc_Keypers bc))"

definition IsKeyper :: "BatchConfig \<Rightarrow> address \<Rightarrow> bool" where
  "IsKeyper bc candidate = (KeyperIndex bc candidate \<noteq> None)"

definition EnsureValid :: "BatchConfig \<Rightarrow> go_error option" where
  "EnsureValid bc =
     (if length (bc_Keypers bc) = 0 then Some (Errorf ''no keypers in batch config'')
      else if bc_Threshold bc = 0 then Some (Errorf ''threshold must not be zero'')
      else if sint (bc_Threshold bc) > int (length (bc_Keypers bc)) then Some (Errorf ''threshold too high'')
      else None)"

definition AddressLength :: nat where
  "AddressLength = 20"

definition BatchConfigFromMessage :: "('pk, 'sk, 'ek, 'dk) eth \<Rightarrow> ShBatchConfig \<Rightarrow> BatchConfig result" where
  "BatchConfigFromMessage E m =
     result_bind (collect (\<lambda>b. if length b \<noteq> AddressLength
         then Inl (Errorf ''keyper address has invalid length'')
         else Inr (BytesToAddress E b)) (sbc_Keypers m))
     (\<lambda>keypers. case EnsureUniqueAddresses keypers of
        Some err \<Rightarrow> Inl err
      | None \<Rightarrow>
          if length (sbc_ConfigContractAddress m) \<noteq> AddressLength
          then Inl (Errorf ''config contract address has invalid length'')
          else Inr
            \<lparr> bc_Height = 0,
              bc_Keypers = keypers,
              bc_StartBatchIndex = sbc_StartBatchIndex m,
              bc_Threshold = sbc_Threshold m,
              bc_ConfigIndex = sbc_ConfigIndex m,
              bc_ConfigContractAddress = BytesToAddress E (sbc_ConfigContractAddress m),
              bc_Started = sbc_Started m,
              bc_ValidatorsUpdated = sbc_ValidatorsUpdated m \<rparr>)"

section \<open>Events\<close>

record Accusation =
  acc_Height :: i64
  acc_Eon :: u64
  acc_Sender :: address
  acc_Accused :: "address list"

record Apology =
  apo_Height :: i64
  apo_Eon :: u64
  apo_Sender :: address
  apo_Accusers :: "address list"
  apo_PolyEval :: "int list"

record 'ek CheckIn =
  ci_Height :: i64
  ci_Sender :: address
  ci_EncryptionPublicKey :: 'ek

record DecryptionSignature =
  ds_Height :: i64
  ds_BatchIndex :: u64
  ds_Sender :: address
  ds_Signature :: bytes

record EonStarted =
  es_Height :: i64
  es_Eon :: u64
  es_BatchIndex :: u64

record 'g2 PolyCommitment =
  pc_Height :: i64
  pc_Eon :: u64
  pc_Sender :: address
  pc_Gammas :: "'g2 list option"

record PolyEval =
  pe_Height :: i64
  pe_Sender :: address
  pe_Eon :: u64
  pe_Receivers :: "address list"
  pe_EncryptedEvals :: "bytes list"

record 'g1 EpochSecretKeyShare =
  sks_Height :: i64
  sks_Sender :: address
  sks_Eon :: u64
  sks_Epoch :: u64
  sks_Share :: 'g1

text \<open>The interface \<open>IEvent\<close> and the types that implement it.\<close>

datatype ('g1, 'g2, 'ek) IEvent =
    EvAccusation Accusation
  | EvApology Apology
  | EvBatchConfig BatchConfig
  | EvCheckIn "'ek CheckIn"
  | EvDecryptionSignature DecryptionSignature
  | EvEonStarted EonStarted
  | EvPolyCommitment "'g2 PolyCommitment"
  | EvPolyEval PolyEval
  | EvEpochSecretKeyShare "'g1 EpochSecretKeyShare"

record abci_attribute =
  at_Key :: string
  at_Value :: string
  at_Index :: bool

record abci_event =
  ev_Type :: string
  ev_Attributes :: "abci_attribute list"

definition evtype_Accusation :: string where "evtype_Accusation = ''shielder.accusation-registered''"
definition evtype_Apology :: string where "evtype_Apology = ''shielder.apology-registered''"
definition evtype_BatchConfig :: string where "evtype_BatchConfig = ''shielder.batch-config''"
definition evtype_CheckIn :: string where "evtype_CheckIn = ''shielder.check-in''"
definition evtype_DecryptionSignature :: string where "evtype_DecryptionSignature = ''shielder.decryption-signature''"
definition evtype_EonStarted :: string where "evtype_EonStarted = ''shielder.eon-started''"
definition evtype_PolyCommitment :: string where "evtype_PolyCommitment = ''shielder.poly-commitment-registered''"
definition evtype_PolyEval :: string where "evtype_PolyEval = ''shielder.poly-eval-registered''"
definition evtype_EpochSecretKeyShare :: string where "evtype_EpochSecretKeyShare = ''shielder.epoch-secret-key-share''"

lemmas evtype_defs = evtype_Accusation_def evtype_Apology_def evtype_BatchConfig_def evtype_CheckIn_def
  evtype_DecryptionSignature_def evtype_EonStarted_def evtype_PolyCommitment_def evtype_PolyEval_def
  evtype_EpochSecretKeyShare_def

section \<open>Encoding of attribute values\<close>

definition encodeUint64 :: "u64 \<Rightarrow> string" where
  "encodeUint64 val = FormatUint (unat val)"

definition decodeUint64 :: "string \<Rightarrow> u64 result" where
  "decodeUint64 val = ParseUint val"

definition encodeAddresses :: "('pk, 'sk, 'ek, 'dk) eth \<Rightarrow> address list \<Rightarrow> string" where
  "encodeAddresses E addr = strings_Join (map (Address_Hex E) addr)"

definition decodeAddresses :: "('pk, 'sk, 'ek, 'dk) eth \<Rightarrow> string \<Rightarrow> address list result" where
  "decodeAddresses E s =
     (if s = '''' then Inr []
      else collect (\<lambda>a. if \<not> IsHexAddress E a then Inl (Errorf ''malformed address'')
                        else Inr (HexToAddress E a)) (strings_Split s))"

definition encodeBytes :: "('pk, 'sk, 'ek, 'dk) eth \<Rightarrow> bytes \<Rightarrow> string" where
  "encodeBytes E v = hexutil_Encode E v"

definition decodeBytes :: "('pk, 'sk, 'ek, 'dk) eth \<Rightarrow> string \<Rightarrow> bytes result" where
  "decodeBytes E val = hexutil_Decode E val"

definition encodeEpochSecretKeyShare ::
  "('g1, 'g2, 'gt) bn256 \<Rightarrow> ('pk, 'sk, 'ek, 'dk) eth \<Rightarrow> 'g1 \<Rightarrow> string" where
  "encodeEpochSecretKeyShare B E v = encodeBytes E (G1Key_GobEncode B v)"

definition decodeEpochSecretKeyShare ::
  "('g1, 'g2, 'gt) bn256 \<Rightarrow> ('pk, 'sk, 'ek, 'dk) eth \<Rightarrow> string \<Rightarrow> 'g1 result" where
  "decodeEpochSecretKeyShare B E v =
     result_bind (decodeBytes E v) (\<lambda>decoded. G1Key_GobDecode B decoded)"

definition encodeByteSequence :: "('pk, 'sk, 'ek, 'dk) eth \<Rightarrow> bytes list \<Rightarrow> string" where
  "encodeByteSequence E v = strings_Join (map (hexutil_Encode E) v)"

definition decodeByteSequence :: "('pk, 'sk, 'ek, 'dk) eth \<Rightarrow> string \<Rightarrow> bytes list result" where
  "decodeByteSequence E s =
     (if s = '''' then Inr [] else collect (hexutil_Decode E) (strings_Split s))"

definition encodePubkey :: "('pk, 'sk, 'ek, 'dk) eth \<Rightarrow> 'pk \<Rightarrow> string" where
  "encodePubkey E pubkey = b64_EncodeToString (FromECDSAPub E pubkey)"

definition decodePubkey :: "('pk, 'sk, 'ek, 'dk) eth \<Rightarrow> string \<Rightarrow> 'pk result" where
  "decodePubkey E val = result_bind (b64_DecodeString val) (\<lambda>data. UnmarshalPubkey E data)"

definition encodeGammas :: "('g1, 'g2, 'gt) bn256 \<Rightarrow> 'g2 list option \<Rightarrow> string" where
  "encodeGammas B gammas = strings_Join
     (case gammas of None \<Rightarrow> [] | Some gs \<Rightarrow> map (\<lambda>g. hex_EncodeToString (G2_Marshal B g)) gs)"

definition decodeGammas :: "('g1, 'g2, 'gt) bn256 \<Rightarrow> string \<Rightarrow> 'g2 list result" where
  "decodeGammas B eventValue =
     collect (\<lambda>p. result_bind (hex_DecodeString p) (\<lambda>marshaledG2.
        case G2_Unmarshal B marshaledG2 of
          None \<Rightarrow> Inl (Errorf ''bn256.G2: unmarshal'')
        | Some (g, rest) \<Rightarrow> Inr g)) (strings_Split eventValue)"

definition encodeAddress :: "('pk, 'sk, 'ek, 'dk) eth \<Rightarrow> address \<Rightarrow> string" where
  "encodeAddress E a = Address_Hex E a"

definition decodeAddress :: "('pk, 'sk, 'ek, 'dk) eth \<Rightarrow> string \<Rightarrow> address result" where
  "decodeAddress E s =
     (let a = HexToAddress E s
      in if Address_Hex E a \<noteq> s then Inl (Errorf ''invalid address'') else Inr a)"

definition encodeECIESPublicKey :: "('pk, 'sk, 'ek, 'dk) eth \<Rightarrow> 'ek \<Rightarrow> string" where
  "encodeECIESPublicKey E key = encodePubkey E (ExportECDSA E key)"

definition decodeECIESPublicKey :: "('pk, 'sk, 'ek, 'dk) eth \<Rightarrow> string \<Rightarrow> 'ek result" where
  "decodeECIESPublicKey E val =
     result_bind (decodePubkey E val) (\<lambda>publicKeyECDSA. Inr (ImportECDSAPublic E publicKeyECDSA))"

section \<open>Attributes\<close>

definition newAddressPair :: "('pk, 'sk, 'ek, 'dk) eth \<Rightarrow> string \<Rightarrow> address \<Rightarrow> abci_attribute" where
  "newAddressPair E key val = \<lparr> at_Key = key, at_Value = encodeAddress E val, at_Index = True \<rparr>"

definition newAddressesPair :: "('pk, 'sk, 'ek, 'dk) eth \<Rightarrow> string \<Rightarrow> address list \<Rightarrow> abci_attribute" where
  "newAddressesPair E key val = \<lparr> at_Key = key, at_Value = encodeAddresses E val, at_Index = False \<rparr>"

definition newByteSequencePair :: "('pk, 'sk, 'ek, 'dk) eth \<Rightarrow> string \<Rightarrow> bytes list \<Rightarrow> abci_attribute" where
  "newByteSequencePair E key val = \<lparr> at_Key = key, at_Value = encodeByteSequence E val, at_Index = False \<rparr>"

definition newUintPair :: "string \<Rightarrow> u64 \<Rightarrow> abci_attribute" where
  "newUintPair key val = \<lparr> at_Key = key, at_Value = encodeUint64 val, at_Index = True \<rparr>"

definition newGammas :: "('g1, 'g2, 'gt) bn256 \<Rightarrow> string \<Rightarrow> 'g2 list option \<Rightarrow> abci_attribute" where
  "newGammas B key gammas = \<lparr> at_Key = key, at_Value = encodeGammas B gammas, at_Index = False \<rparr>"

definition newEpochSecretKeyShare ::
  "('g1, 'g2, 'gt) bn256 \<Rightarrow> ('pk, 'sk, 'ek, 'dk) eth \<Rightarrow> string \<Rightarrow> 'g1 \<Rightarrow> abci_attribute" where
  "newEpochSecretKeyShare B E key share =
     \<lparr> at_Key = key, at_Value = encodeEpochSecretKeyShare B E share, at_Index = False \<rparr>"

section \<open>From a struct to an ABCI event\<close>

definition Accusation_MakeABCIEvent :: "('pk, 'sk, 'ek, 'dk) eth \<Rightarrow> Accusation \<Rightarrow> abci_event" where
  "Accusation_MakeABCIEvent E acc =
     \<lparr> ev_Type = evtype_Accusation, ev_Attributes =
        [newAddressPair E ''Sender'' (acc_Sender acc),
         newUintPair ''Eon'' (acc_Eon acc),
         newAddressesPair E ''Accused'' (acc_Accused acc)] \<rparr>"

definition Apology_MakeABCIEvent :: "('pk, 'sk, 'ek, 'dk) eth \<Rightarrow> Apology \<Rightarrow> abci_event" where
  "Apology_MakeABCIEvent E msg =
     (let polyEvalBytes = map big_Bytes (apo_PolyEval msg)
      in \<lparr> ev_Type = evtype_Apology, ev_Attributes =
        [newAddressPair E ''Sender'' (apo_Sender msg),
         newUintPair ''Eon'' (apo_Eon msg),
         newAddressesPair E ''Accusers'' (apo_Accusers msg),
         newByteSequencePair E ''PolyEvals'' polyEvalBytes] \<rparr>)"

definition BatchConfig_MakeABCIEvent :: "('pk, 'sk, 'ek, 'dk) eth \<Rightarrow> BatchConfig \<Rightarrow> abci_event" where
  "BatchConfig_MakeABCIEvent E bc =
     \<lparr> ev_Type = evtype_BatchConfig, ev_Attributes =
        [\<lparr> at_Key = ''StartBatchIndex'', at_Value = FormatUint (unat (bc_StartBatchIndex bc)), at_Index = True \<rparr>,
         \<lparr> at_Key = ''Threshold'', at_Value = FormatUint (unat (bc_Threshold bc)), at_Index = False \<rparr>,
         \<lparr> at_Key = ''Keypers'', at_Value = encodeAddresses E (bc_Keypers bc), at_Index = False \<rparr>,
         \<lparr> at_Key = ''ConfigIndex'', at_Value = FormatUint (unat (bc_ConfigIndex bc)), at_Index = False \<rparr>] \<rparr>"

definition CheckIn_MakeABCIEvent :: "('pk, 'sk, 'ek, 'dk) eth \<Rightarrow> 'ek CheckIn \<Rightarrow> abci_event" where
  "CheckIn_MakeABCIEvent E msg =
     \<lparr> ev_Type = evtype_CheckIn, ev_Attributes =
        [newAddressPair E ''Sender'' (ci_Sender msg),
         \<lparr> at_Key = ''EncryptionPublicKey'',
           at_Value = encodeECIESPublicKey E (ci_EncryptionPublicKey msg), at_Index = False \<rparr>] \<rparr>"

definition DecryptionSignature_MakeABCIEvent ::
  "('pk, 'sk, 'ek, 'dk) eth \<Rightarrow> DecryptionSignature \<Rightarrow> abci_event" where
  "DecryptionSignature_MakeABCIEvent E msg =
     (let encodedSignature = b64_EncodeToString (ds_Signature msg)
      in \<lparr> ev_Type = evtype_DecryptionSignature, ev_Attributes =
        [\<lparr> at_Key = ''BatchIndex'', at_Value = FormatUint (unat (ds_BatchIndex msg)), at_Index = True \<rparr>,
         \<lparr> at_Key = ''Sender'', at_Value = Address_Hex E (ds_Sender msg), at_Index = True \<rparr>,
         \<lparr> at_Key = ''Signature'', at_Value = encodedSignature, at_Index = False \<rparr>] \<rparr>)"

definition EonStarted_MakeABCIEvent :: "EonStarted \<Rightarrow> abci_event" where
  "EonStarted_MakeABCIEvent msg =
     \<lparr> ev_Type = evtype_EonStarted, ev_Attributes =
        [newUintPair ''Eon'' (es_Eon msg), newUintPair ''BatchIndex'' (es_BatchIndex msg)] \<rparr>"

definition PolyCommitment_MakeABCIEvent ::
  "('g1, 'g2, 'gt) bn256 \<Rightarrow> ('pk, 'sk, 'ek, 'dk) eth \<Rightarrow> 'g2 PolyCommitment \<Rightarrow> abci_event" where
  "PolyCommitment_MakeABCIEvent B E msg =
     \<lparr> ev_Type = evtype_PolyCommitment, ev_Attributes =
        [newAddressPair E ''Sender'' (pc_Sender msg),
         newUintPair ''Eon'' (pc_Eon msg),
         newGammas B ''Gammas'' (pc_Gammas msg)] \<rparr>"

definition PolyEval_MakeABCIEvent :: "('pk, 'sk, 'ek, 'dk) eth \<Rightarrow> PolyEval \<Rightarrow> abci_event" where
  "PolyEval_MakeABCIEvent E msg =
     \<lparr> ev_Type = evtype_PolyEval, ev_Attributes =
        [newAddressPair E ''Sender'' (pe_Sender msg),
         newUintPair ''Eon'' (pe_Eon msg),
         newAddressesPair E ''Receivers'' (pe_Receivers msg),
         newByteSequencePair E ''EncryptedEvals'' (pe_EncryptedEvals msg)] \<rparr>"

definition EpochSecretKeyShare_MakeABCIEvent ::
  "('g1, 'g2, 'gt) bn256 \<Rightarrow> ('pk, 'sk, 'ek, 'dk) eth \<Rightarrow> 'g1 EpochSecretKeyShare \<Rightarrow> abci_event" where
  "EpochSecretKeyShare_MakeABCIEvent B E msg =
     \<lparr> ev_Type = evtype_EpochSecretKeyShare, ev_Attributes =
        [newAddressPair E ''Sender'' (sks_Sender msg),
         newUintPair ''Eon'' (sks_Eon msg),
         newUintPair ''Epoch'' (sks_Epoch msg),
         newEpochSecretKeyShare B E ''Share'' (sks_Share msg)] \<rparr>"

fun MakeABCIEvent ::
  "('g1, 'g2, 'gt) bn256 \<Rightarrow> ('pk, 'sk, 'ek, 'dk) eth \<Rightarrow> ('g1, 'g2, 'ek) IEvent \<Rightarrow> abci_event" where
  "MakeABCIEvent B E (EvAccusation m) = Accusation_MakeABCIEvent E m"
| "MakeABCIEvent B E (EvApology m) = Apology_MakeABCIEvent E m"
| "MakeABCIEvent B E (EvBatchConfig m) = BatchConfig_MakeABCIEvent E m"
| "MakeABCIEvent B E (EvCheckIn m) = CheckIn_MakeABCIEvent E m"
| "MakeABCIEvent B E (EvDecryptionSignature m) = DecryptionSignature_MakeABCIEvent E m"
| "MakeABCIEvent B E (EvEonStarted m) = EonStarted_MakeABCIEvent m"
| "MakeABCIEvent B E (EvPolyCommitment m) = PolyCommitment_MakeABCIEvent B E m"
| "MakeABCIEvent B E (EvPolyEval m) = PolyEval_MakeABCIEvent E m"
| "MakeABCIEvent B E (EvEpochSecretKeyShare m) = EpochSecretKeyShare_MakeABCIEvent B E m"

section \<open>From an ABCI event to a struct\<close>

definition expectAttributes :: "abci_event \<Rightarrow> string list \<Rightarrow> go_error option" where
  "expectAttributes ev names =
     (if length (ev_Attributes ev) < length names then Some (Errorf ''expected at least more attributes'')
      else first_error (\<lambda>i. if at_Key (ev_Attributes ev ! i) \<noteq> names ! i
             then Some (Errorf ''bad attribute'') else None) [0..<length names])"

definition attr_value :: "abci_event \<Rightarrow> nat \<Rightarrow> string" where
  "attr_value ev i = at_Value (ev_Attributes ev ! i)"

definition makeAccusation :: "('pk, 'sk, 'ek, 'dk) eth \<Rightarrow> abci_event \<Rightarrow> i64 \<Rightarrow> Accusation result" where
  "makeAccusation E ev height =
     (case expectAttributes ev [''Sender'', ''Eon'', ''Accused''] of Some err \<Rightarrow> Inl err | None \<Rightarrow>
      result_bind (decodeAddress E (attr_value ev 0)) (\<lambda>sender.
      result_bind (decodeUint64 (attr_value ev 1)) (\<lambda>eon.
      result_bind (decodeAddresses E (attr_value ev 2)) (\<lambda>accused.
      Inr \<lparr> acc_Height = height, acc_Eon = eon, acc_Sender = sender, acc_Accused = accused \<rparr>))))"

definition makeApology :: "('pk, 'sk, 'ek, 'dk) eth \<Rightarrow> abci_event \<Rightarrow> i64 \<Rightarrow> Apology result" where
  "makeApology E ev height =
     (case expectAttributes ev [''Sender'', ''Eon'', ''Accusers'', ''PolyEvals''] of Some err \<Rightarrow> Inl err | None \<Rightarrow>
      result_bind (decodeAddress E (attr_value ev 0)) (\<lambda>sender.
      result_bind (decodeUint64 (attr_value ev 1)) (\<lambda>eon.
      result_bind (decodeAddresses E (attr_value ev 2)) (\<lambda>accusers.
      result_bind (decodeByteSequence E (attr_value ev 3)) (\<lambda>polyEvalBytes.
      Inr \<lparr> apo_Height = height, apo_Eon = eon, apo_Sender = sender, apo_Accusers = accusers,
            apo_PolyEval = map big_SetBytes polyEvalBytes \<rparr>)))))"

definition makeBatchConfig :: "('pk, 'sk, 'ek, 'dk) eth \<Rightarrow> abci_event \<Rightarrow> i64 \<Rightarrow> BatchConfig result" where
  "makeBatchConfig E ev height =
     (case expectAttributes ev [''StartBatchIndex'', ''Threshold'', ''Keypers'', ''ConfigIndex''] of
        Some err \<Rightarrow> Inl err | None \<Rightarrow>
      result_bind (decodeUint64 (attr_value ev 0)) (\<lambda>startBatchIndex.
      result_bind (decodeUint64 (attr_value ev 1)) (\<lambda>threshold.
      result_bind (decodeAddresses E (attr_value ev 2)) (\<lambda>keypers.
      result_bind (decodeUint64 (attr_value ev 3)) (\<lambda>configIndex.
      Inr \<lparr> bc_Height = height, bc_Keypers = keypers, bc_StartBatchIndex = startBatchIndex,
            bc_Threshold = threshold, bc_ConfigIndex = configIndex,
            bc_ConfigContractAddress = 0, bc_Started = False, bc_ValidatorsUpdated = False \<rparr>)))))"

definition makeCheckIn :: "('pk, 'sk, 'ek, 'dk) eth \<Rightarrow> abci_event \<Rightarrow> i64 \<Rightarrow> 'ek CheckIn result" where
  "makeCheckIn E ev height =
     (case expectAttributes ev [''Sender'', ''EncryptionPublicKey''] of Some err \<Rightarrow> Inl err | None \<Rightarrow>
      result_bind (decodeAddress E (attr_value ev 0)) (\<lambda>sender.
      result_bind (decodeECIESPublicKey E (attr_value ev 1)) (\<lambda>publicKey.
      Inr \<lparr> ci_Height = height, ci_Sender = sender, ci_EncryptionPublicKey = publicKey \<rparr>)))"

definition makeDecryptionSignature ::
  "('pk, 'sk, 'ek, 'dk) eth \<Rightarrow> abci_event \<Rightarrow> i64 \<Rightarrow> DecryptionSignature result" where
  "makeDecryptionSignature E ev height =
     (case expectAttributes ev [''BatchIndex'', ''Sender'', ''Signature''] of Some err \<Rightarrow> Inl err | None \<Rightarrow>
      result_bind (decodeUint64 (attr_value ev 0)) (\<lambda>batchIndex.
      result_bind (decodeAddress E (attr_value ev 1)) (\<lambda>sender.
      result_bind (b64_DecodeString (attr_value ev 2)) (\<lambda>signature.
      Inr \<lparr> ds_Height = height, ds_BatchIndex = batchIndex, ds_Sender = sender, ds_Signature = signature \<rparr>))))"

definition makeEonStarted :: "abci_event \<Rightarrow> i64 \<Rightarrow> EonStarted result" where
  "makeEonStarted ev height =
     (case expectAttributes ev [''Eon'', ''BatchIndex''] of Some err \<Rightarrow> Inl err | None \<Rightarrow>
      result_bind (decodeUint64 (attr_value ev 0)) (\<lambda>eon.
      result_bind (decodeUint64 (attr_value ev 1)) (\<lambda>batchIndex.
      Inr \<lparr> es_Height = height, es_Eon = eon, es_BatchIndex = batchIndex \<rparr>)))"

definition makePolyCommitment ::
  "('g1, 'g2, 'gt) bn256 \<Rightarrow> ('pk, 'sk, 'ek, 'dk) eth \<Rightarrow> abci_event \<Rightarrow> i64 \<Rightarrow> 'g2 PolyCommitment result" where
  "makePolyCommitment B E ev height =
     (case expectAttributes ev [''Sender'', ''Eon'', ''Gammas''] of Some err \<Rightarrow> Inl err | None \<Rightarrow>
      result_bind (decodeAddress E (attr_value ev 0)) (\<lambda>sender.
      result_bind (decodeUint64 (attr_value ev 1)) (\<lambda>eon.
      result_bind (decodeGammas B (attr_value ev 2)) (\<lambda>gammas.
      Inr \<lparr> pc_Height = height, pc_Eon = eon, pc_Sender = sender, pc_Gammas = Some gammas \<rparr>))))"

definition makePolyEval :: "('pk, 'sk, 'ek, 'dk) eth \<Rightarrow> abci_event \<Rightarrow> i64 \<Rightarrow> PolyEval result" where
  "makePolyEval E ev height =
     (case expectAttributes ev [''Sender'', ''Eon'', ''Receivers'', ''EncryptedEvals''] of
        Some err \<Rightarrow> Inl err | None \<Rightarrow>
      result_bind (decodeAddress E (attr_value ev 0)) (\<lambda>sender.
      result_bind (decodeUint64 (attr_value ev 1)) (\<lambda>eon.
      result_bind (decodeAddresses E (attr_value ev 2)) (\<lambda>receivers.
      result_bind (decodeByteSequence E (attr_value ev 3)) (\<lambda>encryptedEvals.
      Inr \<lparr> pe_Height = height, pe_Sender = sender, pe_Eon = eon, pe_Receivers = receivers,
            pe_EncryptedEvals = encryptedEvals \<rparr>)))))"

definition makeEpochSecretKeyShare ::
  "('g1, 'g2, 'gt) bn256 \<Rightarrow> ('pk, 'sk, 'ek, 'dk) eth \<Rightarrow> abci_event \<Rightarrow> i64 \<Rightarrow> 'g1 EpochSecretKeyShare result" where
  "makeEpochSecretKeyShare B E ev height =
     (case expectAttributes ev [''Sender'', ''Eon'', ''Epoch'', ''Share''] of Some err \<Rightarrow> Inl err | None \<Rightarrow>
      result_bind (decodeAddress E (attr_value ev 0)) (\<lambda>sender.
      result_bind (decodeUint64 (attr_value ev 1)) (\<lambda>eon.
      result_bind (decodeUint64 (attr_value ev 2)) (\<lambda>epoch.
      result_bind (decodeEpochSecretKeyShare B E (attr_value ev 3)) (\<lambda>share.
      Inr \<lparr> sks_Height = height, sks_Sender = sender, sks_Eon = eon, sks_Epoch = epoch,
            sks_Share = share \<rparr>)))))"

definition result_map :: "('a \<Rightarrow> 'b) \<Rightarrow> 'a result \<Rightarrow> 'b result" where
  "result_map f x = result_bind x (\<lambda>v. Inr (f v))"

definition MakeEvent ::
  "('g1, 'g2, 'gt) bn256 \<Rightarrow> ('pk, 'sk, 'ek, 'dk) eth \<Rightarrow> abci_event \<Rightarrow> i64 \<Rightarrow> ('g1, 'g2, 'ek) IEvent result" where
  "MakeEvent B E ev height =
     (let t = ev_Type ev
      in if t = evtype_CheckIn then result_map EvCheckIn (makeCheckIn E ev height)
         else if t = evtype_BatchConfig then result_map EvBatchConfig (makeBatchConfig E ev height)
         else if t = evtype_DecryptionSignature
              then result_map EvDecryptionSignature (makeDecryptionSignature E ev height)
         else if t = evtype_EonStarted then result_map EvEonStarted (makeEonStarted ev height)
         else if t = evtype_PolyCommitment then result_map EvPolyCommitment (makePolyCommitment B E ev height)
         else if t = evtype_PolyEval then result_map EvPolyEval (makePolyEval E ev height)
         else if t = evtype_Accusation then result_map EvAccusation (makeAccusation E ev height)
         else if t = evtype_Apology then result_map EvApology (makeApology E ev height)
         else if t = evtype_EpochSecretKeyShare
              then result_map EvEpochSecretKeyShare (makeEpochSecretKeyShare B E ev height)
         else Inl (Errorf ''cannot make event from type''))"

section \<open>The interface of the attribute codecs\<close>

text \<open>
  What the event code relies on: decoding undoes encoding for the values \<open>good\<close> describes. A codec
  whose texts are not empty and hold no comma also serves for comma-separated lists.
\<close>

locale text_codec =
  fixes enc :: "'a \<Rightarrow> string" and dec :: "string \<Rightarrow> 'a result" and good :: "'a \<Rightarrow> bool"
  assumes dec_enc: "good x \<Longrightarrow> dec (enc x) = Inr x"
begin

lemma enc_inject: "good x \<Longrightarrow> good y \<Longrightarrow> enc x = enc y \<Longrightarrow> x = y"
  by (metis dec_enc sum.inject(2))

end

locale token_codec = text_codec +
  assumes enc_token: "good x \<Longrightarrow> comma_free (enc x) \<and> enc x \<noteq> ''''"
begin

lemma list_dec_enc:
  "xs \<noteq> [] \<Longrightarrow> \<forall>x\<in>set xs. good x \<Longrightarrow>
   strings_Join (map enc xs) \<noteq> '''' \<and> collect dec (strings_Split (strings_Join (map enc xs))) = Inr xs"
  using enc_token dec_enc by (auto simp: strings_Split_Join strings_Join_eq_Nil intro!: collect_map)

end

interpretation uint_codec: text_codec encodeUint64 decodeUint64 "\<lambda>v. True"
  by unfold_locales (simp add: encodeUint64_def decodeUint64_def)

interpretation address_codec: token_codec "encodeAddress E" "decodeAddress E" "\<lambda>a. eth_ok E" for E
  by unfold_locales (simp_all add: encodeAddress_def decodeAddress_def Address_Hex_ok Let_def)

interpretation address_list_codec: token_codec "Address_Hex E"
    "\<lambda>a. if \<not> IsHexAddress E a then Inl (Errorf ''malformed address'') else Inr (HexToAddress E a)"
    "\<lambda>a. eth_ok E" for E
  by unfold_locales (simp_all add: Address_Hex_ok)

interpretation bytes_codec: token_codec "hexutil_Encode E" "hexutil_Decode E" "\<lambda>d. eth_ok E" for E
  by unfold_locales (simp_all add: hexutil_laws)

lemma hex_Encode_nonempty: "d \<noteq> [] \<Longrightarrow> hex_EncodeToString d \<noteq> ''''"
  by (cases d) simp_all

interpretation gamma_codec: token_codec "\<lambda>g. hex_EncodeToString (G2_Marshal B g)"
    "\<lambda>p. result_bind (hex_DecodeString p) (\<lambda>marshaledG2. case G2_Unmarshal B marshaledG2 of
          None \<Rightarrow> Inl (Errorf ''bn256.G2: unmarshal'') | Some (g, rest) \<Rightarrow> Inr g)"
    "\<lambda>g. bn_ok B" for B
  by unfold_locales (simp_all add: G2_Unmarshal_Marshal1 hex_Encode_nonempty G2_Marshal_nonempty)

interpretation share_codec: text_codec "encodeEpochSecretKeyShare B E" "decodeEpochSecretKeyShare B E"
    "\<lambda>g. bn_ok B \<and> eth_ok E" for B E
  by unfold_locales (simp add: encodeEpochSecretKeyShare_def decodeEpochSecretKeyShare_def encodeBytes_def
      decodeBytes_def hexutil_laws G1Key_GobEncode_def G1Key_GobDecode_def G1_Unmarshal_Marshal1)

interpretation ecies_codec: text_codec "encodeECIESPublicKey E" "decodeECIESPublicKey E" "\<lambda>k. eth_ok E" for E
  by unfold_locales (simp add: encodeECIESPublicKey_def decodeECIESPublicKey_def encodePubkey_def
      decodePubkey_def Pubkey_laws)

interpretation addresses_codec: text_codec "encodeAddresses E" "decodeAddresses E" "\<lambda>l. eth_ok E" for E
proof
  fix l
  assume "eth_ok E"
  then show "decodeAddresses E (encodeAddresses E l) = Inr l"
    using address_list_codec.list_dec_enc [of l E]
    by (cases "l = []") (auto simp: decodeAddresses_def encodeAddresses_def)
qed

interpretation byte_sequence_codec: text_codec "encodeByteSequence E" "decodeByteSequence E" "\<lambda>l. eth_ok E" for E
proof
  fix l
  assume "eth_ok E"
  then show "decodeByteSequence E (encodeByteSequence E l) = Inr l"
    using bytes_codec.list_dec_enc [of l E]
    by (cases "l = []") (auto simp: decodeByteSequence_def encodeByteSequence_def)
qed

text \<open>A commitment without points is written as the empty text, which does not decode.\<close>

lemma decodeGammas_encodeGammas:
  "bn_ok B \<Longrightarrow> gs \<noteq> [] \<Longrightarrow> decodeGammas B (encodeGammas B (Some gs)) = Inr gs"
  using gamma_codec.list_dec_enc [of gs B] by (auto simp: decodeGammas_def encodeGammas_def)

interpretation gammas_codec: text_codec "\<lambda>gs. encodeGammas B (Some gs)" "decodeGammas B"
    "\<lambda>gs. bn_ok B \<and> gs \<noteq> []" for B
  by unfold_locales (simp add: decodeGammas_encodeGammas)

lemma decodeGammas_empty:
  "bn_ok B \<Longrightarrow> decodeGammas B (encodeGammas B None) = Inl (Errorf ''bn256.G2: unmarshal'')"
  "bn_ok B \<Longrightarrow> decodeGammas B (encodeGammas B (Some [])) = Inl (Errorf ''bn256.G2: unmarshal'')"
  by (simp_all add: decodeGammas_def encodeGammas_def G2_Unmarshal_Nil)

lemmas codec_simps = uint_codec.dec_enc address_codec.dec_enc addresses_codec.dec_enc
  byte_sequence_codec.dec_enc share_codec.dec_enc ecies_codec.dec_enc gammas_codec.dec_enc

section \<open>Reading an event back\<close>

text \<open>What survives the way through an ABCI event, and the event with the height it is read at.\<close>

fun wire_part :: "i64 \<Rightarrow> ('g1, 'g2, 'ek) IEvent \<Rightarrow> ('g1, 'g2, 'ek) IEvent" where
  "wire_part h (EvAccusation m) = EvAccusation (m \<lparr> acc_Height := h \<rparr>)"
| "wire_part h (EvApology m) = EvApology (m \<lparr> apo_Height := h \<rparr>)"
| "wire_part h (EvBatchConfig m) = EvBatchConfig (m \<lparr> bc_Height := h, bc_ConfigContractAddress := 0,
     bc_Started := False, bc_ValidatorsUpdated := False \<rparr>)"
| "wire_part h (EvCheckIn m) = EvCheckIn (m \<lparr> ci_Height := h \<rparr>)"
| "wire_part h (EvDecryptionSignature m) = EvDecryptionSignature (m \<lparr> ds_Height := h \<rparr>)"
| "wire_part h (EvEonStarted m) = EvEonStarted (m \<lparr> es_Height := h \<rparr>)"
| "wire_part h (EvPolyCommitment m) = EvPolyCommitment (m \<lparr> pc_Height := h \<rparr>)"
| "wire_part h (EvPolyEval m) = EvPolyEval (m \<lparr> pe_Height := h \<rparr>)"
| "wire_part h (EvEpochSecretKeyShare m) = EvEpochSecretKeyShare (m \<lparr> sks_Height := h \<rparr>)"

fun readable :: "('g1, 'g2, 'ek) IEvent \<Rightarrow> bool" where
  "readable (EvApology m) = (\<forall>e\<in>set (apo_PolyEval m). 0 \<le> e)"
| "readable (EvPolyCommitment m) = (pc_Gammas m \<noteq> None \<and> pc_Gammas m \<noteq> Some [])"
| "readable _ = True"

lemma FormatUint_codec: "decodeUint64 (FormatUint (unat v)) = Inr v"
  by (simp add: decodeUint64_def)

lemma map_SetBytes_Bytes: "\<forall>e\<in>set es. 0 \<le> e \<Longrightarrow> map (big_SetBytes \<circ> big_Bytes) es = es"
  by (induction es) simp_all

lemmas make_defs = makeAccusation_def makeApology_def makeBatchConfig_def makeCheckIn_def
  makeDecryptionSignature_def makeEonStarted_def makePolyCommitment_def makePolyEval_def
  makeEpochSecretKeyShare_def

lemmas MakeABCIEvent_defs = Accusation_MakeABCIEvent_def Apology_MakeABCIEvent_def
  BatchConfig_MakeABCIEvent_def CheckIn_MakeABCIEvent_def DecryptionSignature_MakeABCIEvent_def
  EonStarted_MakeABCIEvent_def PolyCommitment_MakeABCIEvent_def PolyEval_MakeABCIEvent_def
  EpochSecretKeyShare_MakeABCIEvent_def

lemmas pair_defs = newAddressPair_def newAddressesPair_def newByteSequencePair_def newUintPair_def
  newGammas_def newEpochSecretKeyShare_def

lemma decode_Address_Hex: "eth_ok E \<Longrightarrow> decodeAddress E (Address_Hex E a) = Inr a"
  using address_codec.dec_enc [of E a] by (simp add: encodeAddress_def)

lemma expect_upt: "[0..<Suc 0] = [0]" "[0..<Suc (Suc 0)] = [0, 1]" "[0..<3] = [0, 1, 2]" "[0..<4] = [0, 1, 2, 3]"
  by (simp_all add: upt_rec)

lemma MakeEvent_MakeABCIEvent:
  assumes B: "bn_ok B" and E: "eth_ok E" and ok: "readable ev"
  shows "MakeEvent B E (MakeABCIEvent B E ev) h = Inr (wire_part h ev)"
proof (cases ev)
  case (EvPolyCommitment m)
  then obtain gs where "pc_Gammas m = Some gs" "gs \<noteq> []" using ok by auto
  then show ?thesis using EvPolyCommitment B E
    by (simp add: MakeEvent_def MakeABCIEvent_defs evtype_defs make_defs pair_defs expectAttributes_def
        attr_value_def result_map_def codec_simps expect_upt)
next
  case (EvApology m)
  then show ?thesis using B E ok
    by (simp add: MakeEvent_def MakeABCIEvent_defs evtype_defs make_defs pair_defs expectAttributes_def
        attr_value_def result_map_def codec_simps expect_upt Let_def map_SetBytes_Bytes)
next
  case (EvDecryptionSignature m)
  then show ?thesis using B E
    by (simp add: MakeEvent_def MakeABCIEvent_defs evtype_defs make_defs pair_defs expectAttributes_def
        attr_value_def result_map_def codec_simps expect_upt Let_def FormatUint_codec decode_Address_Hex)
qed (use B E in \<open>simp_all add: MakeEvent_def MakeABCIEvent_defs evtype_defs make_defs pair_defs
    expectAttributes_def attr_value_def result_map_def codec_simps expect_upt FormatUint_codec\<close>)

text \<open>Two readable events that look alike on the wire carry the same data.\<close>

lemma MakeABCIEvent_inject:
  assumes "bn_ok B" "eth_ok E" "readable ev" "readable ev'"
    and "MakeABCIEvent B E ev = MakeABCIEvent B E ev'"
  shows "wire_part h ev = wire_part h ev'"
  using assms MakeEvent_MakeABCIEvent [of B E ev h] MakeEvent_MakeABCIEvent [of B E ev' h] by simp

section \<open>Batch configurations from messages\<close>

lemma EnsureValid_None_iff:
  "EnsureValid bc = None \<longleftrightarrow> bc_Keypers bc \<noteq> [] \<and> bc_Threshold bc \<noteq> 0 \<and>
     sint (bc_Threshold bc) \<le> int (length (bc_Keypers bc))"
  by (simp add: EnsureValid_def)

lemma IsKeyper_iff: "IsKeyper bc a \<longleftrightarrow> a \<in> set (bc_Keypers bc)"
  by (auto simp: IsKeyper_def KeyperIndex_def)

lemma KeyperIndex_SomeD:
  assumes "KeyperIndex bc a = Some i" "length (bc_Keypers bc) \<le> 2 ^ 64"
  shows "unat i < length (bc_Keypers bc) \<and> bc_Keypers bc ! unat i = a"
proof -
  obtain n where n: "find_index (\<lambda>k. k = a) (bc_Keypers bc) = Some n" "i = of_nat n"
    using assms(1) by (auto simp: KeyperIndex_def)
  have "n < length (bc_Keypers bc)" "bc_Keypers bc ! n = a" using find_index_SomeD [OF n(1)] by auto
  then show ?thesis using assms(2) n(2) by (simp add: unat_of_nat_u64)
qed

lemma BatchConfigFromMessage_distinct:
  "BatchConfigFromMessage E m = Inr bc \<Longrightarrow> distinct (bc_Keypers bc)"
  by (auto simp: BatchConfigFromMessage_def split: option.splits if_splits elim!: result_bindE)

lemma BatchConfigFromMessage_fields:
  "BatchConfigFromMessage E m = Inr bc \<Longrightarrow> bc_StartBatchIndex bc = sbc_StartBatchIndex m \<and>
     bc_Threshold bc = sbc_Threshold m \<and> bc_ConfigIndex bc = sbc_ConfigIndex m \<and>
     bc_Started bc = sbc_Started m \<and> bc_ValidatorsUpdated bc = sbc_ValidatorsUpdated m \<and>
     length (bc_Keypers bc) = length (sbc_Keypers m)"
  by (auto simp: BatchConfigFromMessage_def split: option.splits if_split_asm elim!: result_bindE
      dest!: collect_length)

text \<open>The message a keyper builds for a config is read back as that config.\<close>

lemma BatchConfigFromMessage_NewBatchConfig:
  assumes E: "eth_ok E" and d: "distinct ks"
    and m: "NewBatchConfig E sbi ks t cca ci st vu = Some (Message_BatchConfig m)"
  shows "BatchConfigFromMessage E m = Inr \<lparr> bc_Height = 0, bc_Keypers = ks, bc_StartBatchIndex = sbi,
     bc_Threshold = t, bc_ConfigIndex = ci, bc_ConfigContractAddress = cca, bc_Started = st,
     bc_ValidatorsUpdated = vu \<rparr>"
proof -
  have "collect (\<lambda>b. if length b \<noteq> AddressLength then Inl (Errorf ''keyper address has invalid length'')
      else Inr (BytesToAddress E b)) (map (Address_Bytes E) ks) = Inr ks"
    using E by (intro collect_map) (simp add: Address_Bytes_ok AddressLength_def)
  then show ?thesis using m E d
    by (auto simp: NewBatchConfig_def BatchConfigFromMessage_def Address_Bytes_ok AddressLength_def
        split: option.split)
qed

end
