(* ===== verification/Powers.thy ===== *)
theory Powers
  imports Prelude "HOL-Library.List_Lexorder"
begin

text \<open>
  \<open>app/powermap.go\<close> and the validator keys of \<open>app/types.go\<close>: the voting power of the validators,
  and the updates sent to tendermint when it changes. A Go map that is ranged over is an
  association list with distinct keys; \<open>ord\<close> is the order in which one range statement visits it.
\<close>

section \<open>Operations\<close>

text \<open>A validator key is the struct of its 32 raw bytes, ordered as byte strings.\<close>

datatype ValidatorPubkey = ValidatorPubkey (Ed25519pubkey: bytes)

instantiation ValidatorPubkey :: linorder
begin

definition less_eq_ValidatorPubkey :: "ValidatorPubkey \<Rightarrow> ValidatorPubkey \<Rightarrow> bool" where
  "less_eq_ValidatorPubkey a b \<longleftrightarrow> Ed25519pubkey a \<le> Ed25519pubkey b"

definition less_ValidatorPubkey :: "ValidatorPubkey \<Rightarrow> ValidatorPubkey \<Rightarrow> bool" where
  "less_ValidatorPubkey a b \<longleftrightarrow> Ed25519pubkey a < Ed25519pubkey b"

instance
  by standard (auto simp: less_eq_ValidatorPubkey_def less_ValidatorPubkey_def
      intro: ValidatorPubkey.expand)

end

type_synonym Powermap = "(ValidatorPubkey \<times> i64) list"

record ValidatorUpdate =
  vu_PubKey :: "bytes option"
  vu_Power :: i64

text \<open>\<open>GetEd25519()\<close> is nil for a key of another type.\<close>

definition GetEd25519 :: "ValidatorUpdate \<Rightarrow> bytes" where
  "GetEd25519 v = (case vu_PubKey v of None \<Rightarrow> [] | Some k \<Rightarrow> k)"

definition PublicKeySize :: nat where
  "PublicKeySize = 32"

definition NewValidatorPubkey :: "bytes \<Rightarrow> ValidatorPubkey result" where
  "NewValidatorPubkey pubkey =
     (if length pubkey \<noteq> PublicKeySize then Inl (Errorf ''pubkey must be 32 bytes'')
      else Inr (ValidatorPubkey pubkey))"

text \<open>\<open>pm[k]\<close> is 0 for a missing key.\<close>

definition power_of :: "Powermap \<Rightarrow> ValidatorPubkey \<Rightarrow> i64" where
  "power_of pm k = (case map_of pm k of None \<Rightarrow> 0 | Some p \<Rightarrow> p)"

definition add_power :: "ValidatorPubkey \<Rightarrow> i64 \<Rightarrow> Powermap \<Rightarrow> Powermap" where
  "add_power k p pm = AList.update k (power_of pm k + p) pm"

fun MakePowermap_loop :: "Powermap \<Rightarrow> ValidatorUpdate list \<Rightarrow> Powermap result" where
  "MakePowermap_loop res [] = Inr res"
| "MakePowermap_loop res (v # validators) =
     (case vu_PubKey v of
        None \<Rightarrow> Inl (Errorf ''cannot handle key'')
      | Some data \<Rightarrow>
          (case NewValidatorPubkey data of
             Inl err \<Rightarrow> Inl err
           | Inr pk \<Rightarrow> MakePowermap_loop (add_power pk (vu_Power v) res) validators))"

definition MakePowermap :: "ValidatorUpdate list \<Rightarrow> Powermap result" where
  "MakePowermap validators = MakePowermap_loop [] validators"

definition SortValidators :: "ValidatorUpdate list \<Rightarrow> ValidatorUpdate list" where
  "SortValidators validators = sort_key GetEd25519 validators"

definition DiffPowermaps :: "(Powermap \<Rightarrow> Powermap) \<Rightarrow> Powermap \<Rightarrow> Powermap \<Rightarrow> Powermap" where
  "DiffPowermaps ord oldpm newpm =
     (let res = foldl (\<lambda>res (v, _). if map_of newpm v = None then AList.update v 0 res else res) [] (ord oldpm)
      in foldl (\<lambda>res (v, p). if power_of oldpm v \<noteq> p then AList.update v p res else res) res (ord newpm))"

definition ValidatorUpdates :: "(Powermap \<Rightarrow> Powermap) \<Rightarrow> Powermap \<Rightarrow> ValidatorUpdate list" where
  "ValidatorUpdates ord pm =
     SortValidators (map (\<lambda>(k, p). \<lparr> vu_PubKey = Some (Ed25519pubkey k), vu_Power = p \<rparr>) (ord pm))"

text \<open>What tendermint does with the updates: power 0 removes the validator.\<close>

definition apply_update :: "ValidatorUpdate \<Rightarrow> (ValidatorPubkey \<Rightarrow> i64) \<Rightarrow> ValidatorPubkey \<Rightarrow> i64" where
  "apply_update u f = f (ValidatorPubkey (GetEd25519 u) := vu_Power u)"

section \<open>The difference of two power maps\<close>

lemma add_power_wf [intro, simp]: "wf_map pm \<Longrightarrow> wf_map (add_power k p pm)"
  by (simp add: add_power_def)

lemma MakePowermap_loop_wf: "wf_map res \<Longrightarrow> MakePowermap_loop res vs = Inr pm \<Longrightarrow> wf_map pm"
  by (induction vs arbitrary: res) (auto split: option.splits sum.splits)

lemma MakePowermap_wf: "MakePowermap vs = Inr pm \<Longrightarrow> wf_map pm"
  using MakePowermap_loop_wf by (auto simp: MakePowermap_def)

lemma foldl_removed:
  "wf_map res \<Longrightarrow>
   wf_map (foldl (\<lambda>res (v, _). if map_of newpm v = None then AList.update v 0 res else res) res xs) \<and>
   map_of (foldl (\<lambda>res (v, _). if map_of newpm v = None then AList.update v 0 res else res) res xs) k =
     (if map_of newpm k = None \<and> k \<in> fst ` set xs then Some 0 else map_of res k)"
proof (induction xs arbitrary: res)
  case (Cons x xs)
  obtain v p where x: "x = (v, p)" by (cases x)
  have "wf_map (if map_of newpm v = None then AList.update v 0 res else res)"
    using Cons.prems by simp
  from Cons.IH [OF this] show ?case by (auto simp: x)
qed simp

lemma foldl_changed:
  "wf_map res \<Longrightarrow> distinct (map fst xs) \<Longrightarrow>
   wf_map (foldl (\<lambda>res (v, p). if power_of oldpm v \<noteq> p then AList.update v p res else res) res xs) \<and>
   map_of (foldl (\<lambda>res (v, p). if power_of oldpm v \<noteq> p then AList.update v p res else res) res xs) k =
     (case map_of xs k of Some p \<Rightarrow> if power_of oldpm k \<noteq> p then Some p else map_of res k
      | None \<Rightarrow> map_of res k)"
proof (induction xs arbitrary: res)
  case (Cons x xs)
  obtain v p where x: "x = (v, p)" by (cases x)
  have w: "wf_map (if power_of oldpm v \<noteq> p then AList.update v p res else res)"
    using Cons.prems by simp
  have n: "map_of xs v = None" using Cons.prems(2) by (simp add: x map_of_eq_None_iff)
  show ?case using Cons.IH [OF w] Cons.prems(2) n by (auto simp: x split: option.splits)
qed simp

lemma wf_map_ord: "ranging ord \<Longrightarrow> wf_map m \<Longrightarrow> wf_map (ord m)"
  by (metis wf_map_def mset_map rangingD mset_eq_imp_distinct_iff)

lemma map_of_ord: "ranging ord \<Longrightarrow> wf_map m \<Longrightarrow> map_of (ord m) = map_of m"
  by (rule ext) (metis (no_types, lifting) option.exhaust ranging_set wf_map_mem_iff wf_map_ord)

lemma DiffPowermaps_map:
  assumes "ranging ord" "wf_map oldpm" "wf_map newpm"
  shows "wf_map (DiffPowermaps ord oldpm newpm)"
    "map_of (DiffPowermaps ord oldpm newpm) k =
      (case map_of newpm k of
         None \<Rightarrow> if map_of oldpm k \<noteq> None then Some 0 else None
       | Some p \<Rightarrow> if power_of oldpm k \<noteq> p then Some p else None)"
proof -
  let ?r = "foldl (\<lambda>res (v, _). if map_of newpm v = None then AList.update v 0 res else res) [] (ord oldpm)"
  have k: "k \<in> fst ` set (ord oldpm) \<longleftrightarrow> map_of oldpm k \<noteq> None" for k
    using ranging_set [OF assms(1)] by (metis map_of_eq_None_iff)
  have r: "wf_map ?r" "map_of ?r k = (if map_of newpm k = None \<and> map_of oldpm k \<noteq> None then Some 0 else None)" for k
    by (simp_all add: foldl_removed k)
  have d: "distinct (map fst (ord newpm))" using wf_map_ord [OF assms(1,3)] by (simp add: wf_map_def)
  note c = foldl_changed [OF r(1) d, of oldpm] map_of_ord [OF assms(1,3)]
  show "wf_map (DiffPowermaps ord oldpm newpm)" using c by (simp add: DiffPowermaps_def)
  show "map_of (DiffPowermaps ord oldpm newpm) k =
      (case map_of newpm k of
         None \<Rightarrow> if map_of oldpm k \<noteq> None then Some 0 else None
       | Some p \<Rightarrow> if power_of oldpm k \<noteq> p then Some p else None)"
    using c by (auto simp: DiffPowermaps_def r(2) split: option.splits)
qed

section \<open>Validator updates\<close>

lemma wf_map_same:
  "wf_map m \<Longrightarrow> wf_map m' \<Longrightarrow> map_of m = map_of m' \<Longrightarrow> mset m = mset m'"
  by (metis wf_map_mem_iff distinct_zipI1 subrelI subset_antisym set_eq_iff_mset_eq_distinct
      wf_map_def distinct_map)

lemma update_key_inj:
  "inj_on GetEd25519 (set (map (\<lambda>(k, p). \<lparr> vu_PubKey = Some (Ed25519pubkey k), vu_Power = p \<rparr>) m))"
  if "wf_map m"
  using that unfolding wf_map_def
  by (auto simp: inj_on_def GetEd25519_def distinct_map) (metis ValidatorPubkey.expand fst_conv snd_conv)+

text \<open>The list depends on the entries of the map only.\<close>

lemma ValidatorUpdates_order_independent:
  assumes R: "ranging ord" "ranging ord'" and m: "mset pm = mset pm'" and wf: "wf_map pm"
  shows "ValidatorUpdates ord pm = ValidatorUpdates ord' pm'"
proof -
  let ?u = "\<lambda>(k, p). \<lparr> vu_PubKey = Some (Ed25519pubkey k), vu_Power = p \<rparr>"
  have e: "mset (map ?u (ord pm)) = mset (map ?u (ord' pm'))" using R m by (simp add: rangingD)
  have i: "inj_on GetEd25519 (set (map ?u (ord pm)))"
    using update_key_inj [OF wf_map_ord [OF R(1) wf]] .
  have "mset (map ?u (ord pm)) = mset (sort_key GetEd25519 (map ?u (ord' pm')))"
    unfolding mset_sort by (rule e)
  then have "sort_key GetEd25519 (map ?u (ord pm)) = sort_key GetEd25519 (map ?u (ord' pm'))"
    using i by (rule sort_key_inj_key_eq) simp
  then show ?thesis by (simp add: ValidatorUpdates_def SortValidators_def)
qed

text \<open>Applied in their order, the updates turn the old powers into the new ones.\<close>

lemma foldl_apply_updates:
  "distinct (map GetEd25519 us) \<Longrightarrow> foldl (\<lambda>f u. apply_update u f) f us k =
     (case find (\<lambda>u. ValidatorPubkey (GetEd25519 u) = k) us of None \<Rightarrow> f k | Some u \<Rightarrow> vu_Power u)"
proof (induction us arbitrary: f)
  case (Cons u us)
  have "find (\<lambda>u. ValidatorPubkey (GetEd25519 u) = k) us = None" if "ValidatorPubkey (GetEd25519 u) = k"
    using Cons.prems that by (auto simp: find_None_iff) (metis image_eqI)
  then show ?case using Cons by (auto simp: apply_update_def split: option.splits)
qed simp

lemma ValidatorUpdates_distinct:
  assumes "ranging ord" "wf_map pm"
  shows "distinct (map GetEd25519 (ValidatorUpdates ord pm))"
proof -
  let ?us = "map (\<lambda>(k, p). \<lparr> vu_PubKey = Some (Ed25519pubkey k), vu_Power = p \<rparr>) (ord pm)"
  have "map GetEd25519 ?us = map (Ed25519pubkey \<circ> fst) (ord pm)" by (auto simp: GetEd25519_def)
  moreover have "distinct (map (Ed25519pubkey \<circ> fst) (ord pm))"
    using wf_map_ord [OF assms] by (auto simp: wf_map_def distinct_map inj_on_def intro: ValidatorPubkey.expand)
  ultimately have "distinct (map GetEd25519 ?us)" by (simp only:)
  moreover have "mset (map GetEd25519 (sort_key GetEd25519 ?us)) = mset (map GetEd25519 ?us)"
    by (simp only: mset_map mset_sort)
  ultimately show ?thesis
    unfolding ValidatorUpdates_def SortValidators_def using mset_eq_imp_distinct_iff by blast
qed

lemma ValidatorUpdates_mem:
  assumes "ranging ord" "wf_map pm"
  shows "u \<in> set (ValidatorUpdates ord pm) \<longleftrightarrow>
    (\<exists>k p. map_of pm k = Some p \<and> u = \<lparr> vu_PubKey = Some (Ed25519pubkey k), vu_Power = p \<rparr>)"
  using assms by (auto simp: ValidatorUpdates_def SortValidators_def ranging_set wf_map_mem_iff [symmetric])

lemma updates_give_new_powers:
  assumes R: "ranging ord" "ranging ord'" and o: "wf_map oldpm" and n: "wf_map newpm"
  shows "foldl (\<lambda>f u. apply_update u f) (power_of oldpm) (ValidatorUpdates ord' (DiffPowermaps ord oldpm newpm))
       = power_of newpm"
proof
  fix k
  let ?d = "DiffPowermaps ord oldpm newpm"
  let ?us = "ValidatorUpdates ord' ?d"
  note D = DiffPowermaps_map [OF R(1) o n]
  note F = foldl_apply_updates [OF ValidatorUpdates_distinct [OF R(2) D(1)], of "power_of oldpm" k]
  show "foldl (\<lambda>f u. apply_update u f) (power_of oldpm) ?us k = power_of newpm k"
  proof (cases "find (\<lambda>u. ValidatorPubkey (GetEd25519 u) = k) ?us")
    case None
    have "map_of ?d k = None"
    proof (rule ccontr)
      assume "map_of ?d k \<noteq> None"
      then obtain p where "map_of ?d k = Some p" by blast
      then have "\<lparr> vu_PubKey = Some (Ed25519pubkey k), vu_Power = p \<rparr> \<in> set ?us"
        using ValidatorUpdates_mem [OF R(2) D(1)] by blast
      then show False using None by (auto simp: find_None_iff GetEd25519_def)
    qed
    then show ?thesis using D(2) [of k] None F by (auto simp: power_of_def split: option.splits if_splits)
  next
    case (Some u)
    then have "u \<in> set ?us" "ValidatorPubkey (GetEd25519 u) = k" by (auto simp: find_Some_iff)
    then have "map_of ?d k = Some (vu_Power u)"
      using ValidatorUpdates_mem [OF R(2) D(1)] by (auto simp: GetEd25519_def)
    then show ?thesis using D(2) [of k] Some F by (auto simp: power_of_def split: option.splits if_splits)
  qed
qed

lemma updates_order_independent:
  assumes "ranging ord" "ranging ord'" "wf_map oldpm" "wf_map newpm"
  shows "ValidatorUpdates ord (DiffPowermaps ord oldpm newpm)
       = ValidatorUpdates ord' (DiffPowermaps ord' oldpm newpm)"
proof (rule ValidatorUpdates_order_independent [OF assms(1,2)])
  note D = DiffPowermaps_map [OF assms(1,3,4)] DiffPowermaps_map [OF assms(2-4)]
  show "wf_map (DiffPowermaps ord oldpm newpm)" by (rule D(1))
  show "mset (DiffPowermaps ord oldpm newpm) = mset (DiffPowermaps ord' oldpm newpm)"
    by (rule wf_map_same [OF D(1,3)]) (auto simp: D(2,4))
qed

end
