(* ===== verification/Votes.thy ===== *)
theory Votes
  imports ShielderEvents Powers
begin

text \<open>
  \<open>app/voting.go\<close>, \<open>app/configvoting.go\<close> and \<open>app/eonvoting.go\<close>: the votes of the keypers on the next
  batch config and on the start of an eon. The embedded struct \<open>Voting\<close> is extended by the two
  voting structs the way Go embeds it.

  The program ranges over maps, and Go picks the order anew each time. \<open>map_orders\<close> holds one such
  choice for every type of map the chain ranges over; the results must not depend on it, since all
  replicas have to agree.
\<close>

section \<open>Operations\<close>

record map_orders =
  ord_votes :: "(address \<times> nat) list \<Rightarrow> (address \<times> nat) list"
  ord_counts :: "(nat \<times> nat) list \<Rightarrow> (nat \<times> nat) list"
  ord_powers :: "Powermap \<Rightarrow> Powermap"

definition orders_ok :: "map_orders \<Rightarrow> bool" where
  "orders_ok R \<longleftrightarrow> ranging (ord_votes R) \<and> ranging (ord_counts R) \<and> ranging (ord_powers R)"

record Voting =
  vt_Votes :: "(address \<times> nat) list"

record ConfigVoting = Voting +
  cv_Candidates :: "BatchConfig list"

record EonStartVoting = Voting +
  ev_Candidates :: "u64 list"

definition NewVoting :: Voting where
  "NewVoting = \<lparr> vt_Votes = [] \<rparr>"

definition AddVoteForIndex :: "address \<Rightarrow> nat \<Rightarrow> 'a Voting_scheme \<Rightarrow> 'a Voting_scheme" where
  "AddVoteForIndex sender index v = v \<lparr> vt_Votes := AList.update sender index (vt_Votes v) \<rparr>"

definition count_votes :: "(address \<times> nat) list \<Rightarrow> (nat \<times> nat) list" where
  "count_votes votes = foldl (\<lambda>numVotes (sender, vote). AList.update vote
       (case map_of numVotes vote of None \<Rightarrow> 1 | Some k \<Rightarrow> k + 1) numVotes) [] votes"

definition OutcomeIndex :: "map_orders \<Rightarrow> 'a Voting_scheme \<Rightarrow> int \<Rightarrow> nat option" where
  "OutcomeIndex R v numRequiredVotes =
     (let numVotes = count_votes (ord_votes R (vt_Votes v))
      in map_option fst (find (\<lambda>(index, votes). int votes \<ge> numRequiredVotes) (ord_counts R numVotes)))"

definition NewConfigVoting :: ConfigVoting where
  "NewConfigVoting = \<lparr> vt_Votes = [], cv_Candidates = [] \<rparr>"

definition ConfigVoting_AddVote :: "address \<Rightarrow> BatchConfig \<Rightarrow> ConfigVoting \<Rightarrow> ConfigVoting result" where
  "ConfigVoting_AddVote sender batchConfig cfgv =
     (if map_of (vt_Votes cfgv) sender \<noteq> None then Inl (Errorf ''sender already voted'')
      else case find_index (\<lambda>bc. bc = batchConfig) (cv_Candidates cfgv) of
        Some i \<Rightarrow> Inr (AddVoteForIndex sender i cfgv)
      | None \<Rightarrow>
          (let cfgv' = cfgv \<lparr> cv_Candidates := cv_Candidates cfgv @ [batchConfig] \<rparr>
           in Inr (AddVoteForIndex sender (length (cv_Candidates cfgv') - 1) cfgv')))"

definition ConfigVoting_Outcome :: "map_orders \<Rightarrow> ConfigVoting \<Rightarrow> int \<Rightarrow> BatchConfig option" where
  "ConfigVoting_Outcome R cfgv numRequiredVotes =
     (case OutcomeIndex R cfgv numRequiredVotes of
        None \<Rightarrow> None
      | Some outcomeIndex \<Rightarrow> Some (cv_Candidates cfgv ! outcomeIndex))"

definition NewEonStartVoting :: EonStartVoting where
  "NewEonStartVoting = \<lparr> vt_Votes = [], ev_Candidates = [] \<rparr>"

definition EonStartVoting_AddVote :: "address \<Rightarrow> u64 \<Rightarrow> EonStartVoting \<Rightarrow> EonStartVoting" where
  "EonStartVoting_AddVote sender batchIndex v =
     (case find_index (\<lambda>b. b = batchIndex) (ev_Candidates v) of
        Some i \<Rightarrow> AddVoteForIndex sender i v
      | None \<Rightarrow>
          (let v' = v \<lparr> ev_Candidates := ev_Candidates v @ [batchIndex] \<rparr>
           in AddVoteForIndex sender (length (ev_Candidates v') - 1) v'))"

definition EonStartVoting_Outcome :: "map_orders \<Rightarrow> EonStartVoting \<Rightarrow> int \<Rightarrow> u64 option" where
  "EonStartVoting_Outcome R v numRequiredVotes =
     (case OutcomeIndex R v numRequiredVotes of
        None \<Rightarrow> None
      | Some i \<Rightarrow> Some (ev_Candidates v ! i))"

section \<open>Counting\<close>

lemma count_votes_snoc:
  "count_votes (xs @ [(a, i)]) = AList.update i
     (case map_of (count_votes xs) i of None \<Rightarrow> 1 | Some k \<Rightarrow> k + 1) (count_votes xs)"
  by (simp add: count_votes_def)

lemma count_votes_wf: "wf_map (count_votes xs)"
proof (induction xs rule: rev_induct)
  case Nil
  then show ?case by (simp add: count_votes_def)
next
  case (snoc x xs)
  then show ?case by (cases x) (simp add: count_votes_snoc)
qed

lemma count_votes_map:
  "map_of (count_votes xs) i =
     (let n = length (filter (\<lambda>x. snd x = i) xs) in if n = 0 then None else Some n)"
proof (induction xs rule: rev_induct)
  case Nil
  then show ?case by (simp add: count_votes_def)
next
  case (snoc x xs)
  then show ?case by (cases x) (auto simp: count_votes_snoc Let_def)
qed

lemma votes_card:
  assumes "wf_map votes"
  shows "length (filter (\<lambda>x. snd x = i) votes) = card {a. map_of votes a = Some i}"
proof -
  have d: "distinct (map fst (filter (\<lambda>x. snd x = i) votes))"
    using assms by (simp add: wf_map_def distinct_map_filter)
  have "{a. map_of votes a = Some i} = set (map fst (filter (\<lambda>x. snd x = i) votes))"
    using wf_map_mem_iff [OF assms] by force
  then show ?thesis using distinct_card [OF d] by simp
qed

text \<open>\<open>backers v i\<close>: who voted for the candidate with index \<open>i\<close>.\<close>

definition backers :: "'a Voting_scheme \<Rightarrow> nat \<Rightarrow> address set" where
  "backers v i = {a. map_of (vt_Votes v) a = Some i}"

lemma finite_backers [simp]: "finite (backers v i)"
proof -
  have "backers v i \<subseteq> dom (map_of (vt_Votes v))" by (auto simp: backers_def)
  then show ?thesis using finite_dom_map_of finite_subset by blast
qed

lemma counts_entry_iff:
  assumes R: "orders_ok R" and wf: "wf_map (vt_Votes v)"
  shows "(i, n) \<in> set (ord_counts R (count_votes (ord_votes R (vt_Votes v)))) \<longleftrightarrow>
     n = card (backers v i) \<and> backers v i \<noteq> {}"
proof -
  let ?c = "count_votes (ord_votes R (vt_Votes v))"
  have m: "mset (ord_votes R (vt_Votes v)) = mset (vt_Votes v)"
    using R by (simp add: orders_ok_def rangingD)
  have "length (filter (\<lambda>x. snd x = i) (ord_votes R (vt_Votes v)))
      = length (filter (\<lambda>x. snd x = i) (vt_Votes v))"
    using m by (metis mset_filter size_mset)
  then have l: "length (filter (\<lambda>x. snd x = i) (ord_votes R (vt_Votes v))) = card (backers v i)"
    using votes_card [OF wf] by (simp add: backers_def)
  have "(i, n) \<in> set (ord_counts R ?c) \<longleftrightarrow> (i, n) \<in> set ?c"
    using R by (simp add: orders_ok_def ranging_set)
  also have "\<dots> \<longleftrightarrow> map_of ?c i = Some n" by (rule wf_map_mem_iff [OF count_votes_wf])
  also have "\<dots> \<longleftrightarrow> n = card (backers v i) \<and> backers v i \<noteq> {}"
    unfolding count_votes_map l Let_def by auto
  finally show ?thesis .
qed

lemma OutcomeIndex_SomeD:
  assumes "orders_ok R" "wf_map (vt_Votes v)" "OutcomeIndex R v n = Some i"
  shows "backers v i \<noteq> {} \<and> n \<le> int (card (backers v i))"
proof -
  let ?xs = "ord_counts R (count_votes (ord_votes R (vt_Votes v)))"
  obtain k where "find (\<lambda>(index, votes). int votes \<ge> n) ?xs = Some (i, k)"
    using assms(3) by (auto simp: OutcomeIndex_def Let_def)
  then have "(i, k) \<in> set ?xs" "n \<le> int k" by (auto simp: find_Some_iff in_set_conv_nth)
  then show ?thesis using counts_entry_iff [OF assms(1,2)] by auto
qed

lemma OutcomeIndex_NoneD:
  assumes "orders_ok R" "wf_map (vt_Votes v)" "OutcomeIndex R v n = None" "backers v i \<noteq> {}"
  shows "int (card (backers v i)) < n"
proof -
  let ?xs = "ord_counts R (count_votes (ord_votes R (vt_Votes v)))"
  have "find (\<lambda>(index, votes). int votes \<ge> n) ?xs = None"
    using assms(3) by (auto simp: OutcomeIndex_def Let_def)
  then have "\<forall>x\<in>set ?xs. \<not> int (snd x) \<ge> n" by (force simp: find_None_iff)
  moreover have "(i, card (backers v i)) \<in> set ?xs"
    using counts_entry_iff [OF assms(1,2)] assms(4) by blast
  ultimately show ?thesis by fastforce
qed

section \<open>The contract of a vote\<close>

text \<open>
  \<open>choice v\<close> says who backs what. An outcome is backed by at least the required number of voters,
  and there is one when a candidate with a voter has that many.
\<close>

locale ballot =
  fixes choice :: "'v \<Rightarrow> address \<Rightarrow> 'c option"
    and good :: "'v \<Rightarrow> bool"
    and outcome :: "map_orders \<Rightarrow> 'v \<Rightarrow> int \<Rightarrow> 'c option"
  assumes finite_choice: "good v \<Longrightarrow> finite {a. choice v a = Some c}"
    and outcome_Some: "orders_ok R \<Longrightarrow> good v \<Longrightarrow> outcome R v n = Some c \<Longrightarrow>
      (\<exists>a. choice v a = Some c) \<and> n \<le> int (card {a. choice v a = Some c})"
    and outcome_None: "orders_ok R \<Longrightarrow> good v \<Longrightarrow> outcome R v n = None \<Longrightarrow> choice v a = Some c \<Longrightarrow>
      int (card {a. choice v a = Some c}) < n"
begin

definition undecided :: "'v \<Rightarrow> int \<Rightarrow> bool" where
  "undecided v n \<longleftrightarrow> (\<forall>a c. choice v a = Some c \<longrightarrow> int (card {a. choice v a = Some c}) < n)"

lemma outcome_None_undecided: "orders_ok R \<Longrightarrow> good v \<Longrightarrow> outcome R v n = None \<Longrightarrow> undecided v n"
  unfolding undecided_def using outcome_None by blast

lemma undecided_outcome: "orders_ok R \<Longrightarrow> good v \<Longrightarrow> undecided v n \<Longrightarrow> outcome R v n = None"
  unfolding undecided_def using outcome_Some by (metis not_le not_Some_eq)

text \<open>After one more vote on an undecided ballot only the candidate voted for can win.\<close>

lemma winner_is_last_vote:
  assumes u: "undecided v n" and g: "good v" "good v'" and R: "orders_ok R"
    and v': "choice v' = (choice v)(a \<mapsto> c)" and o: "outcome R v' n = Some d"
  shows "d = c"
proof (rule ccontr)
  assume ne: "d \<noteq> c"
  obtain b where b: "choice v' b = Some d" and n: "n \<le> int (card {x. choice v' x = Some d})"
    using outcome_Some [OF R g(2) o] by blast
  then have "choice v b = Some d" using v' ne by (auto split: if_splits)
  then have "int (card {x. choice v x = Some d}) < n" using u by (auto simp: undecided_def)
  moreover have "{x. choice v' x = Some d} \<subseteq> {x. choice v x = Some d}" using v' ne by auto
  then have "card {x. choice v' x = Some d} \<le> card {x. choice v x = Some d}"
    using finite_choice [OF g(1)] by (intro card_mono)
  ultimately show False using n by linarith
qed

lemma outcome_after_vote:
  assumes u: "undecided v n" and g: "good v" "good v'" and R: "orders_ok R"
    and v': "choice v' = (choice v)(a \<mapsto> c)"
  shows "outcome R v' n = (if n \<le> int (card {b. choice v' b = Some c}) then Some c else None)"
proof (cases "outcome R v' n")
  case None
  then show ?thesis using outcome_None [OF R g(2) None, of a c] v' by simp
next
  case (Some d)
  moreover have "d = c" using u g R v' Some by (rule winner_is_last_vote)
  ultimately show ?thesis using outcome_Some [OF R g(2) Some] by simp
qed

text \<open>So the outcome of an undecided ballot after a vote is the same in every map order.\<close>

lemma outcome_order_independent:
  assumes "undecided v n" "good v" "good v'" "orders_ok R" "orders_ok R'" "choice v' = (choice v)(a \<mapsto> c)"
  shows "outcome R v' n = outcome R' v' n"
  using outcome_after_vote [OF assms(1-4,6)] outcome_after_vote [OF assms(1-3,5,6)] by simp

end

section \<open>The two votes of the chain keep the contract\<close>

definition wf_voting :: "'a Voting_scheme \<Rightarrow> 'c list \<Rightarrow> bool" where
  "wf_voting v candidates \<longleftrightarrow> wf_map (vt_Votes v) \<and> distinct candidates \<and>
     (\<forall>a i. map_of (vt_Votes v) a = Some i \<longrightarrow> i < length candidates)"

definition choice_of :: "'a Voting_scheme \<Rightarrow> 'c list \<Rightarrow> address \<Rightarrow> 'c option" where
  "choice_of v candidates a = map_option ((!) candidates) (map_of (vt_Votes v) a)"

definition wf_ConfigVoting :: "ConfigVoting \<Rightarrow> bool" where
  "wf_ConfigVoting v \<longleftrightarrow> wf_voting v (cv_Candidates v)"

definition wf_EonStartVoting :: "EonStartVoting \<Rightarrow> bool" where
  "wf_EonStartVoting v \<longleftrightarrow> wf_voting v (ev_Candidates v)"

definition config_choice :: "ConfigVoting \<Rightarrow> address \<Rightarrow> BatchConfig option" where
  "config_choice v = choice_of v (cv_Candidates v)"

definition eon_choice :: "EonStartVoting \<Rightarrow> address \<Rightarrow> u64 option" where
  "eon_choice v = choice_of v (ev_Candidates v)"

lemma choice_backers:
  assumes "wf_voting v cs" "choice_of v cs a = Some c"
  obtains i where "a \<in> backers v i" "cs ! i = c" "{a. choice_of v cs a = Some c} = backers v i"
proof -
  obtain i where i: "map_of (vt_Votes v) a = Some i" "cs ! i = c"
    using assms(2) by (auto simp: choice_of_def)
  have "{a. choice_of v cs a = Some c} = backers v i"
    using assms(1) i by (auto simp: choice_of_def backers_def wf_voting_def nth_eq_iff_index_eq)
  then show thesis using that i by (auto simp: backers_def)
qed

lemma finite_choice_of: "finite {a. choice_of v cs a = Some c}"
proof -
  have "{a. choice_of v cs a = Some c} \<subseteq> dom (map_of (vt_Votes v))" by (auto simp: choice_of_def)
  then show ?thesis using finite_dom_map_of finite_subset by blast
qed

lemma choice_outcome_Some:
  assumes R: "orders_ok R" and wf: "wf_voting v cs" and o: "OutcomeIndex R v n = Some i"
  shows "(\<exists>a. choice_of v cs a = Some (cs ! i)) \<and> n \<le> int (card {a. choice_of v cs a = Some (cs ! i)})"
proof -
  have i: "backers v i \<noteq> {}" "n \<le> int (card (backers v i))"
    using OutcomeIndex_SomeD [OF R _ o] wf by (auto simp: wf_voting_def)
  then obtain a where a: "map_of (vt_Votes v) a = Some i" by (auto simp: backers_def)
  then have c: "choice_of v cs a = Some (cs ! i)" by (simp add: choice_of_def)
  have "{a. choice_of v cs a = Some (cs ! i)} = backers v i"
    using wf a by (auto simp: choice_of_def backers_def wf_voting_def nth_eq_iff_index_eq)
  then show ?thesis using i c by auto
qed

lemma choice_outcome_None:
  assumes R: "orders_ok R" and wf: "wf_voting v cs" and o: "OutcomeIndex R v n = None"
    and c: "choice_of v cs a = Some c"
  shows "int (card {a. choice_of v cs a = Some c}) < n"
proof -
  obtain i where "a \<in> backers v i" "{a. choice_of v cs a = Some c} = backers v i"
    using choice_backers [OF wf c] by metis
  then show ?thesis using OutcomeIndex_NoneD [OF R _ o, of i] wf by (auto simp: wf_voting_def)
qed

interpretation config_ballot: ballot config_choice wf_ConfigVoting ConfigVoting_Outcome
proof unfold_locales
  fix R v n c
  assume "orders_ok R" "wf_ConfigVoting v" "ConfigVoting_Outcome R v n = Some c"
  then show "(\<exists>a. config_choice v a = Some c) \<and> n \<le> int (card {a. config_choice v a = Some c})"
    using choice_outcome_Some [of R v "cv_Candidates v" n]
    by (auto simp: ConfigVoting_Outcome_def config_choice_def wf_ConfigVoting_def split: option.splits)
next
  fix R v n a c
  assume "orders_ok R" "wf_ConfigVoting v" "ConfigVoting_Outcome R v n = None" "config_choice v a = Some c"
  then show "int (card {a. config_choice v a = Some c}) < n"
    using choice_outcome_None [of R v "cv_Candidates v" n a c]
    by (auto simp: ConfigVoting_Outcome_def config_choice_def wf_ConfigVoting_def split: option.splits)
qed (simp add: config_choice_def finite_choice_of)

interpretation eon_ballot: ballot eon_choice wf_EonStartVoting EonStartVoting_Outcome
proof unfold_locales
  fix R v n c
  assume "orders_ok R" "wf_EonStartVoting v" "EonStartVoting_Outcome R v n = Some c"
  then show "(\<exists>a. eon_choice v a = Some c) \<and> n \<le> int (card {a. eon_choice v a = Some c})"
    using choice_outcome_Some [of R v "ev_Candidates v" n]
    by (auto simp: EonStartVoting_Outcome_def eon_choice_def wf_EonStartVoting_def split: option.splits)
next
  fix R v n a c
  assume "orders_ok R" "wf_EonStartVoting v" "EonStartVoting_Outcome R v n = None" "eon_choice v a = Some c"
  then show "int (card {a. eon_choice v a = Some c}) < n"
    using choice_outcome_None [of R v "ev_Candidates v" n a c]
    by (auto simp: EonStartVoting_Outcome_def eon_choice_def wf_EonStartVoting_def split: option.splits)
qed (simp add: eon_choice_def finite_choice_of)

section \<open>What adding a vote does\<close>

lemma add_vote_old:
  assumes "wf_voting v cs" "i < length cs"
  shows "wf_voting (AddVoteForIndex a i v) cs"
    "choice_of (AddVoteForIndex a i v) cs = (choice_of v cs)(a \<mapsto> cs ! i)"
  using assms by (auto simp: wf_voting_def AddVoteForIndex_def choice_of_def)

lemma wf_voting_append: "wf_voting v cs \<Longrightarrow> c \<notin> set cs \<Longrightarrow> wf_voting v (cs @ [c])"
  unfolding wf_voting_def by (auto intro: less_SucI)

lemma choice_of_append: "wf_voting v cs \<Longrightarrow> choice_of v (cs @ [c]) = choice_of v cs"
proof
  fix a
  assume "wf_voting v cs"
  then show "choice_of v (cs @ [c]) a = choice_of v cs a"
    by (cases "map_of (vt_Votes v) a") (auto simp: wf_voting_def choice_of_def nth_append)
qed

lemma choice_of_cong: "vt_Votes v = vt_Votes w \<Longrightarrow> choice_of v cs = choice_of w cs"
  "vt_Votes v = vt_Votes w \<Longrightarrow> wf_voting v cs = wf_voting w cs"
  by (simp_all add: choice_of_def [abs_def] wf_voting_def)

lemma add_vote_new:
  assumes "wf_voting v cs" "c \<notin> set cs"
  shows "wf_voting (AddVoteForIndex a (length cs) v) (cs @ [c])"
    "choice_of (AddVoteForIndex a (length cs) v) (cs @ [c]) = (choice_of v cs)(a \<mapsto> c)"
  using add_vote_old [OF wf_voting_append [OF assms], of "length cs" a] choice_of_append [OF assms(1), of c]
  by simp_all

lemma AddVoteForIndex_candidates [simp]:
  "cv_Candidates (AddVoteForIndex a i w) = cv_Candidates w" "ev_Candidates (AddVoteForIndex a i w') = ev_Candidates w'"
  "vt_Votes (AddVoteForIndex a i v) = AList.update a i (vt_Votes v)"
  by (simp_all add: AddVoteForIndex_def)

lemma ConfigVoting_AddVote_spec:
  assumes wf: "wf_ConfigVoting v"
  shows "ConfigVoting_AddVote a c v = Inr v' \<Longrightarrow>
      wf_ConfigVoting v' \<and> config_choice v' = (config_choice v)(a \<mapsto> c) \<and> config_choice v a = None"
    "(\<exists>e. ConfigVoting_AddVote a c v = Inl e) \<longleftrightarrow> config_choice v a \<noteq> None"
proof -
  let ?w = "v \<lparr> cv_Candidates := cv_Candidates v @ [c] \<rparr>"
  show "(\<exists>e. ConfigVoting_AddVote a c v = Inl e) \<longleftrightarrow> config_choice v a \<noteq> None"
    by (auto simp: ConfigVoting_AddVote_def config_choice_def choice_of_def Let_def split: option.splits)
  assume s: "ConfigVoting_AddVote a c v = Inr v'"
  then have n: "config_choice v a = None"
    by (auto simp: ConfigVoting_AddVote_def config_choice_def choice_of_def split: if_splits)
  show "wf_ConfigVoting v' \<and> config_choice v' = (config_choice v)(a \<mapsto> c) \<and> config_choice v a = None"
  proof (cases "find_index (\<lambda>bc. bc = c) (cv_Candidates v)")
    case None
    then have v': "v' = AddVoteForIndex a (length (cv_Candidates v)) ?w"
      using s by (auto simp: ConfigVoting_AddVote_def Let_def simp del: find_index_None_iff split: if_splits)
    have n_mem: "c \<notin> set (cv_Candidates v)" using None by auto
    have "wf_voting ?w (cv_Candidates v)" "choice_of ?w (cv_Candidates v) = choice_of v (cv_Candidates v)"
      using wf choice_of_cong [of ?w v] by (auto simp: wf_ConfigVoting_def)
    then show ?thesis
      using add_vote_new [of ?w "cv_Candidates v" c a] n_mem n
      by (simp add: v' wf_ConfigVoting_def config_choice_def)
  next
    case (Some i)
    then have v': "v' = AddVoteForIndex a i v"
      using s by (auto simp: ConfigVoting_AddVote_def split: if_splits)
    show ?thesis
      using add_vote_old [of v "cv_Candidates v" i a] find_index_SomeD [OF Some] wf n
      by (simp add: v' wf_ConfigVoting_def config_choice_def)
  qed
qed

lemma EonStartVoting_AddVote_spec:
  assumes wf: "wf_EonStartVoting v"
  shows "wf_EonStartVoting (EonStartVoting_AddVote a c v)"
    "eon_choice (EonStartVoting_AddVote a c v) = (eon_choice v)(a \<mapsto> c)"
proof -
  let ?w = "v \<lparr> ev_Candidates := ev_Candidates v @ [c] \<rparr>"
  have "wf_EonStartVoting (EonStartVoting_AddVote a c v) \<and>
    eon_choice (EonStartVoting_AddVote a c v) = (eon_choice v)(a \<mapsto> c)"
  proof (cases "find_index (\<lambda>b. b = c) (ev_Candidates v)")
    case None
    then have v': "EonStartVoting_AddVote a c v = AddVoteForIndex a (length (ev_Candidates v)) ?w"
      by (simp add: EonStartVoting_AddVote_def Let_def del: find_index_None_iff)
    have n_mem: "c \<notin> set (ev_Candidates v)" using None by auto
    have "wf_voting ?w (ev_Candidates v)" "choice_of ?w (ev_Candidates v) = choice_of v (ev_Candidates v)"
      using wf choice_of_cong [of ?w v] by (auto simp: wf_EonStartVoting_def)
    then show ?thesis
      using add_vote_new [of ?w "ev_Candidates v" c a] n_mem
      by (simp add: v' wf_EonStartVoting_def eon_choice_def)
  next
    case (Some i)
    then have v': "EonStartVoting_AddVote a c v = AddVoteForIndex a i v"
      by (simp add: EonStartVoting_AddVote_def)
    show ?thesis
      using add_vote_old [of v "ev_Candidates v" i a] find_index_SomeD [OF Some] wf
      by (simp add: v' wf_EonStartVoting_def eon_choice_def)
  qed
  then show "wf_EonStartVoting (EonStartVoting_AddVote a c v)"
    "eon_choice (EonStartVoting_AddVote a c v) = (eon_choice v)(a \<mapsto> c)" by simp_all
qed

lemma new_votings [simp]:
  "wf_ConfigVoting NewConfigVoting" "config_choice NewConfigVoting = Map.empty"
  "wf_EonStartVoting NewEonStartVoting" "eon_choice NewEonStartVoting = Map.empty"
  by (auto simp: wf_ConfigVoting_def NewConfigVoting_def wf_EonStartVoting_def NewEonStartVoting_def
      wf_voting_def config_choice_def eon_choice_def choice_of_def)

lemma undecided_new [simp]:
  "config_ballot.undecided NewConfigVoting n" "eon_ballot.undecided NewEonStartVoting n"
  by (simp_all add: config_ballot.undecided_def eon_ballot.undecided_def)

end
