(* ===== verification/Mempool.thy ===== *)
theory Mempool
  imports Votes
begin

text \<open>
  \<open>app/noncetracker.go\<close>, \<open>app/checktx.go\<close> and \<open>app/batch_state.go\<close>: the nonces already used by each
  sender, the limits on what enters the mempool, and the decryption signatures of one batch.
\<close>

section \<open>Nonces\<close>

record NonceTracker =
  nt_RandomNonces :: "address \<Rightarrow> (u64 \<Rightarrow> bool option) option"

definition NewNonceTracker :: NonceTracker where
  "NewNonceTracker = \<lparr> nt_RandomNonces = Map.empty \<rparr>"

definition NonceTracker_Check :: "NonceTracker \<Rightarrow> address \<Rightarrow> u64 \<Rightarrow> bool" where
  "NonceTracker_Check t sender randomNonce =
     (case nt_RandomNonces t sender of
        None \<Rightarrow> True
      | Some m \<Rightarrow> \<not> (case m randomNonce of None \<Rightarrow> False | Some b \<Rightarrow> b))"

definition NonceTracker_Add :: "address \<Rightarrow> u64 \<Rightarrow> NonceTracker \<Rightarrow> NonceTracker" where
  "NonceTracker_Add sender randomNonce t =
     (let m = (case nt_RandomNonces t sender of None \<Rightarrow> Map.empty | Some m \<Rightarrow> m)
      in t \<lparr> nt_RandomNonces := (nt_RandomNonces t)(sender \<mapsto> m(randomNonce \<mapsto> True)) \<rparr>)"

lemma Check_New [simp]: "NonceTracker_Check NewNonceTracker a n"
  by (simp add: NonceTracker_Check_def NewNonceTracker_def)

lemma Check_Add [simp]:
  "NonceTracker_Check (NonceTracker_Add a n t) b m \<longleftrightarrow> (a, n) \<noteq> (b, m) \<and> NonceTracker_Check t b m"
  by (auto simp: NonceTracker_Check_def NonceTracker_Add_def Let_def split: option.splits)

section \<open>The mempool check\<close>

text \<open>Members that are in the Go map are mapped to true, so the map is a set.\<close>

record CheckTxState =
  ct_Members :: "address set"
  ct_TxCounts :: "address \<Rightarrow> int option"
  ct_NonceTracker :: NonceTracker

definition MaxTxsPerBlock :: int where
  "MaxTxsPerBlock = 10"

definition CheckTxState_Reset :: "CheckTxState \<Rightarrow> CheckTxState" where
  "CheckTxState_Reset s = s \<lparr> ct_TxCounts := Map.empty, ct_NonceTracker := NewNonceTracker \<rparr>"

definition NewCheckTxState :: CheckTxState where
  "NewCheckTxState = CheckTxState_Reset
     \<lparr> ct_Members = {}, ct_TxCounts = Map.empty, ct_NonceTracker = NewNonceTracker \<rparr>"

definition SetMembers :: "address list \<Rightarrow> CheckTxState \<Rightarrow> CheckTxState" where
  "SetMembers members s = s \<lparr> ct_Members := set members \<rparr>"

definition tx_count :: "CheckTxState \<Rightarrow> address \<Rightarrow> int" where
  "tx_count s sender = (case ct_TxCounts s sender of None \<Rightarrow> 0 | Some c \<Rightarrow> c)"

definition AddTx :: "address \<Rightarrow> MessageWithNonce \<Rightarrow> CheckTxState \<Rightarrow> bool \<times> CheckTxState" where
  "AddTx sender msg s =
     (if ct_Members s \<noteq> {} \<and> sender \<notin> ct_Members s then (False, s)
      else if tx_count s sender \<ge> MaxTxsPerBlock then (False, s)
      else if \<not> NonceTracker_Check (ct_NonceTracker s) sender (mwn_RandomNonce msg) then (False, s)
      else (True, s \<lparr> ct_TxCounts := (ct_TxCounts s)(sender \<mapsto> tx_count s sender + 1),
                     ct_NonceTracker := NonceTracker_Add sender (mwn_RandomNonce msg) (ct_NonceTracker s) \<rparr>))"

lemma AddTx_accepts_iff:
  "fst (AddTx a msg s) \<longleftrightarrow> (ct_Members s = {} \<or> a \<in> ct_Members s) \<and> tx_count s a < MaxTxsPerBlock \<and>
     NonceTracker_Check (ct_NonceTracker s) a (mwn_RandomNonce msg)"
  by (auto simp: AddTx_def)

lemma AddTx_accepted:
  "fst (AddTx a msg s) \<Longrightarrow> snd (AddTx a msg s) =
     s \<lparr> ct_TxCounts := (ct_TxCounts s)(a \<mapsto> tx_count s a + 1),
         ct_NonceTracker := NonceTracker_Add a (mwn_RandomNonce msg) (ct_NonceTracker s) \<rparr>"
  by (auto simp: AddTx_def split: if_split_asm)

lemma AddTx_state:
  "\<not> fst (AddTx a msg s) \<Longrightarrow> snd (AddTx a msg s) = s"
  "fst (AddTx a msg s) \<Longrightarrow> tx_count (snd (AddTx a msg s)) b = tx_count s b + (if a = b then 1 else 0)"
  "ct_Members (snd (AddTx a msg s)) = ct_Members s"
proof -
  show "\<not> fst (AddTx a msg s) \<Longrightarrow> snd (AddTx a msg s) = s"
    "ct_Members (snd (AddTx a msg s)) = ct_Members s" by (auto simp: AddTx_def)
  show "fst (AddTx a msg s) \<Longrightarrow>
      tx_count (snd (AddTx a msg s)) b = tx_count s b + (if a = b then 1 else 0)"
    by (simp add: AddTx_accepted) (simp add: tx_count_def)
qed

text \<open>Since the last reset, a sender got at most ten transactions through.\<close>

fun AddTx_all :: "(address \<times> MessageWithNonce) list \<Rightarrow> CheckTxState \<Rightarrow> (address \<times> MessageWithNonce) list \<times> CheckTxState" where
  "AddTx_all [] s = ([], s)"
| "AddTx_all ((a, m) # txs) s =
     (let (ok, s') = AddTx a m s; (rest, s'') = AddTx_all txs s'
      in (if ok then (a, m) # rest else rest, s''))"

lemma AddTx_count_le: "tx_count s b \<le> MaxTxsPerBlock \<Longrightarrow> tx_count (snd (AddTx a m s)) b \<le> MaxTxsPerBlock"
  by (auto simp: AddTx_def tx_count_def)

lemma AddTx_all_counts:
  "(\<And>b. tx_count s b \<le> MaxTxsPerBlock) \<Longrightarrow>
   int (length (filter (\<lambda>x. fst x = b) (fst (AddTx_all txs s)))) + tx_count s b \<le> MaxTxsPerBlock"
proof (induction txs s rule: AddTx_all.induct)
  case (1 s)
  then show ?case by simp
next
  case (2 a m txs s)
  obtain ok s' where A: "AddTx a m s = (ok, s')" by fastforce
  obtain rest s'' where B: "AddTx_all txs s' = (rest, s'')" by fastforce
  have "\<And>c. tx_count s' c \<le> MaxTxsPerBlock" using AddTx_count_le [of s _ a m] 2(2) A by simp
  then have "int (length (filter (\<lambda>x. fst x = b) rest)) + tx_count s' b \<le> MaxTxsPerBlock"
    using 2(1) [OF A [symmetric] refl] B by simp
  moreover have "tx_count s' b = tx_count s b + (if ok \<and> a = b then 1 else 0)"
    using AddTx_state [of a m s] A by (cases ok) auto
  ultimately show ?case using A B by auto
qed

text \<open>and never the same nonce twice.\<close>

lemma AddTx_all_nonces:
  "distinct (map (\<lambda>(a, m). (a, mwn_RandomNonce m)) (fst (AddTx_all txs s))) \<and>
   (\<forall>(a, m)\<in>set (fst (AddTx_all txs s)). NonceTracker_Check (ct_NonceTracker s) a (mwn_RandomNonce m))"
proof (induction txs s rule: AddTx_all.induct)
  case (1 s)
  then show ?case by simp
next
  case (2 a m txs s)
  obtain ok s' where A: "AddTx a m s = (ok, s')" by fastforce
  obtain rest s'' where B: "AddTx_all txs s' = (rest, s'')" by fastforce
  have IH: "distinct (map (\<lambda>(a, m). (a, mwn_RandomNonce m)) rest)"
    "\<forall>(b, k)\<in>set rest. NonceTracker_Check (ct_NonceTracker s') b (mwn_RandomNonce k)"
    using 2(1) [OF A [symmetric] refl] B by simp_all
  show ?case
  proof (cases ok)
    case True
    then have t: "ct_NonceTracker s' = NonceTracker_Add a (mwn_RandomNonce m) (ct_NonceTracker s)"
      "NonceTracker_Check (ct_NonceTracker s) a (mwn_RandomNonce m)"
      using A by (auto simp: AddTx_def split: if_splits)
    show ?thesis using IH t A B True by (auto simp: split: prod.splits)
  next
    case False
    then have "s' = s" using A by (auto simp: AddTx_def split: if_splits)
    then show ?thesis using IH A B False by simp
  qed
qed

section \<open>Decryption signatures of a batch\<close>

text \<open>
  The struct keeps a pointer to a batch config; only its list of keypers is read through it, which
  nothing changes, so the model keeps the config.
\<close>

record SignatureEntry =
  sig_Sender :: address
  sig_Signature :: bytes

record BatchState =
  bs_BatchIndex :: u64
  bs_Config :: BatchConfig
  bs_DecryptionSignatures :: "SignatureEntry list"

definition AddDecryptionSignature :: "SignatureEntry \<Rightarrow> BatchState \<Rightarrow> BatchState result" where
  "AddDecryptionSignature ds bs =
     (if \<not> IsKeyper (bs_Config bs) (sig_Sender ds) then Inl (Errorf ''sender is not a keyper'')
      else if \<exists>sig\<in>set (bs_DecryptionSignatures bs). sig_Sender sig = sig_Sender ds
      then Inl (Errorf ''already have decryption signature'')
      else Inr (bs \<lparr> bs_DecryptionSignatures := bs_DecryptionSignatures bs @ [ds] \<rparr>))"

definition wf_BatchState :: "BatchState \<Rightarrow> bool" where
  "wf_BatchState bs \<longleftrightarrow> distinct (map sig_Sender (bs_DecryptionSignatures bs)) \<and>
     (\<forall>sig\<in>set (bs_DecryptionSignatures bs). IsKeyper (bs_Config bs) (sig_Sender sig))"

lemma AddDecryptionSignature_wf [inv_intros]:
  "wf_BatchState bs \<Longrightarrow> AddDecryptionSignature ds bs = Inr bs' \<Longrightarrow> wf_BatchState bs'"
  by (auto simp: wf_BatchState_def AddDecryptionSignature_def split: if_splits) blast

lemma wf_BatchState_bound:
  assumes "wf_BatchState bs"
  shows "length (bs_DecryptionSignatures bs) \<le> length (bc_Keypers (bs_Config bs))"
proof -
  have "length (bs_DecryptionSignatures bs) = card (sig_Sender ` set (bs_DecryptionSignatures bs))"
    using assms by (metis wf_BatchState_def distinct_card length_map set_map)
  also have "\<dots> \<le> card (set (bc_Keypers (bs_Config bs)))"
    using assms by (intro card_mono) (auto simp: wf_BatchState_def IsKeyper_iff)
  also have "\<dots> \<le> length (bc_Keypers (bs_Config bs))" by (rule card_length)
  finally show ?thesis .
qed

end
