(* ===== verification/AppDKG.thy ===== *)
theory AppDKG
  imports Mempool
begin

text \<open>
  \<open>app/dkg.go\<close> and \<open>app/messages.go\<close>: how the chain reads the messages of the key generation, and
  which of them it lets through. A Go map to \<open>struct{}\<close> is a set.
\<close>

section \<open>Reading messages\<close>

definition validateAddress :: "('pk, 'sk, 'ek, 'dk) eth \<Rightarrow> bytes \<Rightarrow> address result" where
  "validateAddress E addr =
     (if length addr \<noteq> AddressLength then Inl (Errorf ''address has invalid length'')
      else Inr (BytesToAddress E addr))"

definition ParsePolyEvalMsg :: "('pk, 'sk, 'ek, 'dk) eth \<Rightarrow> ShPolyEval \<Rightarrow> address \<Rightarrow> PolyEval result" where
  "ParsePolyEvalMsg E msg sender =
     (if length (spe_Receivers msg) \<noteq> length (spe_EncryptedEvals msg)
      then Inl (Errorf ''number of receivers does not match number of evals'')
      else result_bind (collect (validateAddress E) (spe_Receivers msg)) (\<lambda>receivers.
        case EnsureUniqueAddresses receivers of
          Some err \<Rightarrow> Inl err
        | None \<Rightarrow> Inr \<lparr> pe_Height = 0, pe_Sender = sender, pe_Eon = spe_Eon msg, pe_Receivers = receivers,
                        pe_EncryptedEvals = spe_EncryptedEvals msg \<rparr>))"

definition ParsePolyCommitmentMsg ::
  "('g1, 'g2, 'gt) bn256 \<Rightarrow> ShPolyCommitment \<Rightarrow> address \<Rightarrow> 'g2 PolyCommitment result" where
  "ParsePolyCommitmentMsg B msg sender =
     result_bind (collect (\<lambda>g. case G2_Unmarshal B g of
         None \<Rightarrow> Inl (Errorf ''bn256.G2: unmarshal'') | Some (g2, rest) \<Rightarrow> Inr g2) (spc_Gammas msg))
       (\<lambda>gammas. Inr \<lparr> pc_Height = 0, pc_Eon = spc_Eon msg, pc_Sender = sender, pc_Gammas = Some gammas \<rparr>)"

definition ParseAccusationMsg :: "('pk, 'sk, 'ek, 'dk) eth \<Rightarrow> ShAccusation \<Rightarrow> address \<Rightarrow> Accusation result" where
  "ParseAccusationMsg E msg sender =
     result_bind (collect (validateAddress E) (sac_Accused msg)) (\<lambda>accused.
        case EnsureUniqueAddresses accused of
          Some err \<Rightarrow> Inl err
        | None \<Rightarrow> Inr \<lparr> acc_Height = 0, acc_Eon = sac_Eon msg, acc_Sender = sender, acc_Accused = accused \<rparr>)"

definition ParseApologyMsg :: "('pk, 'sk, 'ek, 'dk) eth \<Rightarrow> ShApology \<Rightarrow> address \<Rightarrow> Apology result" where
  "ParseApologyMsg E msg sender =
     (if length (sap_Accusers msg) \<noteq> length (sap_PolyEvals msg)
      then Inl (Errorf ''number of accusers and apology evals not equal'')
      else result_bind (collect (validateAddress E) (sap_Accusers msg)) (\<lambda>accusers.
        case EnsureUniqueAddresses accusers of
          Some err \<Rightarrow> Inl err
        | None \<Rightarrow> Inr \<lparr> apo_Height = 0, apo_Eon = sap_Eon msg, apo_Sender = sender, apo_Accusers = accusers,
                        apo_PolyEval = map big_SetBytes (sap_PolyEvals msg) \<rparr>))"

definition ParseEpochSecretKeyShareMsg ::
  "('g1, 'g2, 'gt) bn256 \<Rightarrow> ShEpochSecretKeyShare \<Rightarrow> address \<Rightarrow> 'g1 EpochSecretKeyShare result" where
  "ParseEpochSecretKeyShareMsg B msg sender =
     result_bind (G1Key_GobDecode B (ses_Share msg)) (\<lambda>share.
       Inr \<lparr> sks_Height = 0, sks_Sender = sender, sks_Eon = ses_Eon msg, sks_Epoch = ses_Epoch msg,
             sks_Share = share \<rparr>)"

section \<open>The instance of one eon\<close>

record DKGInstance =
  dkg_Config :: BatchConfig
  dkg_Eon :: u64
  dkg_PolyEvalsSeen :: "(address \<times> address) set"
  dkg_PolyCommitmentsSeen :: "address set"
  dkg_AccusationsSeen :: "address set"
  dkg_ApologiesSeen :: "address set"
  dkg_SubmissionsClosed :: bool
  dkg_AccusationsClosed :: bool
  dkg_ApologiesClosed :: bool

definition NewDKGInstance :: "BatchConfig \<Rightarrow> u64 \<Rightarrow> DKGInstance" where
  "NewDKGInstance config eon =
     \<lparr> dkg_Config = config, dkg_Eon = eon, dkg_PolyEvalsSeen = {}, dkg_PolyCommitmentsSeen = {},
       dkg_AccusationsSeen = {}, dkg_ApologiesSeen = {}, dkg_SubmissionsClosed = False,
       dkg_AccusationsClosed = False, dkg_ApologiesClosed = False \<rparr>"

definition RegisterPolyEvalMsg :: "PolyEval \<Rightarrow> DKGInstance \<Rightarrow> DKGInstance result" where
  "RegisterPolyEvalMsg msg dkg =
     (if pe_Eon msg \<noteq> dkg_Eon dkg then Inl (Errorf ''msg is from another eon'')
      else if dkg_SubmissionsClosed dkg then Inl (Errorf ''submissions are already closed'')
      else let sender = pe_Sender msg in
        if \<not> IsKeyper (dkg_Config dkg) sender then Inl (Errorf ''sender is not a keyper'')
        else case first_error (\<lambda>receiver.
            if \<not> IsKeyper (dkg_Config dkg) receiver then Some (Errorf ''receiver is not a keyper'')
            else if receiver = sender then Some (Errorf ''receiver is also the sender'')
            else if (sender, receiver) \<in> dkg_PolyEvalsSeen dkg
            then Some (Errorf ''polynomial evaluation already present'')
            else None) (pe_Receivers msg) of
          Some err \<Rightarrow> Inl err
        | None \<Rightarrow> Inr (dkg \<lparr> dkg_PolyEvalsSeen :=
            foldl (\<lambda>seen receiver. insert (sender, receiver) seen) (dkg_PolyEvalsSeen dkg) (pe_Receivers msg) \<rparr>))"

definition RegisterPolyCommitmentMsg :: "'g2 PolyCommitment \<Rightarrow> DKGInstance \<Rightarrow> DKGInstance result" where
  "RegisterPolyCommitmentMsg msg dkg =
     (if pc_Eon msg \<noteq> dkg_Eon dkg then Inl (Errorf ''msg is from another eon'')
      else if dkg_SubmissionsClosed dkg then Inl (Errorf ''submissions are already closed'')
      else if \<not> IsKeyper (dkg_Config dkg) (pc_Sender msg) then Inl (Errorf ''sender is not a keyper'')
      else if pc_Sender msg \<in> dkg_PolyCommitmentsSeen dkg
      then Inl (Errorf ''polynomial commitment already present'')
      else Inr (dkg \<lparr> dkg_PolyCommitmentsSeen := insert (pc_Sender msg) (dkg_PolyCommitmentsSeen dkg) \<rparr>))"

definition RegisterAccusationMsg :: "Accusation \<Rightarrow> DKGInstance \<Rightarrow> DKGInstance result" where
  "RegisterAccusationMsg msg dkg =
     (if acc_Eon msg \<noteq> dkg_Eon dkg then Inl (Errorf ''msg is from another eon'')
      else if dkg_AccusationsClosed dkg then Inl (Errorf ''accusations are already closed'')
      else if \<not> IsKeyper (dkg_Config dkg) (acc_Sender msg) then Inl (Errorf ''sender is not a keyper'')
      else case first_error (\<lambda>accused.
          if \<not> IsKeyper (dkg_Config dkg) accused then Some (Errorf ''accused is not a keyper'')
          else if acc_Sender msg = accused then Some (Errorf ''sender is accusing themselves'')
          else None) (acc_Accused msg) of
        Some err \<Rightarrow> Inl err
      | None \<Rightarrow>
          if acc_Sender msg \<in> dkg_AccusationsSeen dkg then Inl (Errorf ''accusation already present'')
          else Inr (dkg \<lparr> dkg_AccusationsSeen := insert (acc_Sender msg) (dkg_AccusationsSeen dkg) \<rparr>))"

definition RegisterApologyMsg :: "Apology \<Rightarrow> DKGInstance \<Rightarrow> DKGInstance result" where
  "RegisterApologyMsg msg dkg =
     (if apo_Eon msg \<noteq> dkg_Eon dkg then Inl (Errorf ''msg is from another eon'')
      else if dkg_ApologiesClosed dkg then Inl (Errorf ''apologies are already closed'')
      else if \<not> IsKeyper (dkg_Config dkg) (apo_Sender msg) then Inl (Errorf ''sender is not a keyper'')
      else case first_error (\<lambda>accuser.
          if \<not> IsKeyper (dkg_Config dkg) accuser then Some (Errorf ''accuser is not a keyper'')
          else if apo_Sender msg = accuser then Some (Errorf ''sender apologizes to themselves'')
          else None) (apo_Accusers msg) of
        Some err \<Rightarrow> Inl err
      | None \<Rightarrow>
          if apo_Sender msg \<in> dkg_ApologiesSeen dkg then Inl (Errorf ''apology already present'')
          else Inr (dkg \<lparr> dkg_ApologiesSeen := insert (apo_Sender msg) (dkg_ApologiesSeen dkg) \<rparr>))"

definition CloseSubmissions :: "DKGInstance \<Rightarrow> DKGInstance" where
  "CloseSubmissions dkg = dkg \<lparr> dkg_SubmissionsClosed := True \<rparr>"

definition CloseAccusations :: "DKGInstance \<Rightarrow> DKGInstance" where
  "CloseAccusations dkg = dkg \<lparr> dkg_AccusationsClosed := True \<rparr>"

definition CloseApologies :: "DKGInstance \<Rightarrow> DKGInstance" where
  "CloseApologies dkg = dkg \<lparr> dkg_ApologiesClosed := True \<rparr>"

section \<open>The contract of a register\<close>

text \<open>
  Each of the four register operations lets a message through at most once per key: \<open>seen\<close> is what
  the instance remembers, \<open>keys\<close> what the message would add.
\<close>

locale once_per_key =
  fixes register :: "'m \<Rightarrow> DKGInstance \<Rightarrow> DKGInstance result"
    and keys :: "'m \<Rightarrow> 'k set" and seen :: "DKGInstance \<Rightarrow> 'k set" and closed :: "DKGInstance \<Rightarrow> bool"
  assumes fresh: "register m d = Inr d' \<Longrightarrow> keys m \<inter> seen d = {}"
    and remembers: "register m d = Inr d' \<Longrightarrow> seen d' = seen d \<union> keys m"
    and frame: "register m d = Inr d' \<Longrightarrow> closed d' = closed d \<and> dkg_Config d' = dkg_Config d \<and> dkg_Eon d' = dkg_Eon d"
    and not_closed: "closed d \<Longrightarrow> \<exists>e. register m d = Inl e"
begin

lemma replay_rejected:
  assumes "register m d = Inr d'" "keys m' \<inter> keys m \<noteq> {}"
  shows "\<exists>e. register m' d' = Inl e"
  using assms fresh [of m' d'] remembers [of m d d'] by (cases "register m' d'") auto

text \<open>A run of register calls: failing messages leave the instance as it was.\<close>

definition register_all :: "'m list \<Rightarrow> DKGInstance \<Rightarrow> DKGInstance" where
  "register_all ms d = foldl (\<lambda>d m. case register m d of Inl e \<Rightarrow> d | Inr d' \<Rightarrow> d') d ms"

lemma register_all_seen: "seen d \<subseteq> seen (register_all ms d)"
proof (induction ms arbitrary: d)
  case Nil
  then show ?case by (simp add: register_all_def)
next
  case (Cons m ms)
  let ?d = "case register m d of Inl e \<Rightarrow> d | Inr d' \<Rightarrow> d'"
  have "seen d \<subseteq> seen ?d" using remembers [of m d] by (cases "register m d") auto
  also have "\<dots> \<subseteq> seen (register_all ms ?d)" by (rule Cons.IH)
  finally show ?case by (simp add: register_all_def)
qed

lemma never_again:
  assumes "register m d = Inr d'" "keys m' \<inter> keys m \<noteq> {}"
  shows "\<exists>e. register m' (register_all ms d') = Inl e"
  using assms register_all_seen [of d' ms] remembers [OF assms(1)] fresh [of m' "register_all ms d'"]
  by (cases "register m' (register_all ms d')") auto

end

lemma foldl_insert: "foldl (\<lambda>seen r. insert (s, r) seen) S rs = S \<union> {s} \<times> set rs"
  by (induction rs arbitrary: S) auto

lemma RegisterPolyEvalMsg_Inr:
  "RegisterPolyEvalMsg m d = Inr d' \<longleftrightarrow> pe_Eon m = dkg_Eon d \<and> \<not> dkg_SubmissionsClosed d \<and>
     IsKeyper (dkg_Config d) (pe_Sender m) \<and>
     (\<forall>r\<in>set (pe_Receivers m). IsKeyper (dkg_Config d) r \<and> r \<noteq> pe_Sender m \<and> (pe_Sender m, r) \<notin> dkg_PolyEvalsSeen d) \<and>
     d' = d \<lparr> dkg_PolyEvalsSeen := dkg_PolyEvalsSeen d \<union> {pe_Sender m} \<times> set (pe_Receivers m) \<rparr>"
proof -
  let ?f = "\<lambda>receiver. if \<not> IsKeyper (dkg_Config d) receiver then Some (Errorf ''receiver is not a keyper'')
            else if receiver = pe_Sender m then Some (Errorf ''receiver is also the sender'')
            else if (pe_Sender m, receiver) \<in> dkg_PolyEvalsSeen d
            then Some (Errorf ''polynomial evaluation already present'') else None"
  have "first_error ?f (pe_Receivers m) = None \<longleftrightarrow> (\<forall>r\<in>set (pe_Receivers m).
      IsKeyper (dkg_Config d) r \<and> r \<noteq> pe_Sender m \<and> (pe_Sender m, r) \<notin> dkg_PolyEvalsSeen d)" by auto
  then show ?thesis
    by (cases "first_error ?f (pe_Receivers m)")
      (auto simp: RegisterPolyEvalMsg_def Let_def foldl_insert simp del: first_error_None_iff split: if_splits)
qed

lemma RegisterPolyCommitmentMsg_Inr:
  "RegisterPolyCommitmentMsg m d = Inr d' \<longleftrightarrow> pc_Eon m = dkg_Eon d \<and> \<not> dkg_SubmissionsClosed d \<and>
     IsKeyper (dkg_Config d) (pc_Sender m) \<and> pc_Sender m \<notin> dkg_PolyCommitmentsSeen d \<and>
     d' = d \<lparr> dkg_PolyCommitmentsSeen := insert (pc_Sender m) (dkg_PolyCommitmentsSeen d) \<rparr>"
  by (auto simp: RegisterPolyCommitmentMsg_def)

lemma RegisterAccusationMsg_Inr:
  "RegisterAccusationMsg m d = Inr d' \<longleftrightarrow> acc_Eon m = dkg_Eon d \<and> \<not> dkg_AccusationsClosed d \<and>
     IsKeyper (dkg_Config d) (acc_Sender m) \<and>
     (\<forall>a\<in>set (acc_Accused m). IsKeyper (dkg_Config d) a \<and> a \<noteq> acc_Sender m) \<and>
     acc_Sender m \<notin> dkg_AccusationsSeen d \<and>
     d' = d \<lparr> dkg_AccusationsSeen := insert (acc_Sender m) (dkg_AccusationsSeen d) \<rparr>"
proof -
  let ?f = "\<lambda>accused. if \<not> IsKeyper (dkg_Config d) accused then Some (Errorf ''accused is not a keyper'')
          else if acc_Sender m = accused then Some (Errorf ''sender is accusing themselves'') else None"
  have "first_error ?f (acc_Accused m) = None \<longleftrightarrow>
      (\<forall>a\<in>set (acc_Accused m). IsKeyper (dkg_Config d) a \<and> a \<noteq> acc_Sender m)" by auto
  then show ?thesis
    by (cases "first_error ?f (acc_Accused m)")
      (auto simp: RegisterAccusationMsg_def simp del: first_error_None_iff split: if_splits)
qed

lemma RegisterApologyMsg_Inr:
  "RegisterApologyMsg m d = Inr d' \<longleftrightarrow> apo_Eon m = dkg_Eon d \<and> \<not> dkg_ApologiesClosed d \<and>
     IsKeyper (dkg_Config d) (apo_Sender m) \<and>
     (\<forall>a\<in>set (apo_Accusers m). IsKeyper (dkg_Config d) a \<and> a \<noteq> apo_Sender m) \<and>
     apo_Sender m \<notin> dkg_ApologiesSeen d \<and>
     d' = d \<lparr> dkg_ApologiesSeen := insert (apo_Sender m) (dkg_ApologiesSeen d) \<rparr>"
proof -
  let ?f = "\<lambda>accuser. if \<not> IsKeyper (dkg_Config d) accuser then Some (Errorf ''accuser is not a keyper'')
          else if apo_Sender m = accuser then Some (Errorf ''sender apologizes to themselves'') else None"
  have "first_error ?f (apo_Accusers m) = None \<longleftrightarrow>
      (\<forall>a\<in>set (apo_Accusers m). IsKeyper (dkg_Config d) a \<and> a \<noteq> apo_Sender m)" by auto
  then show ?thesis
    by (cases "first_error ?f (apo_Accusers m)")
      (auto simp: RegisterApologyMsg_def simp del: first_error_None_iff split: if_splits)
qed

lemmas register_Inr = RegisterPolyEvalMsg_Inr RegisterPolyCommitmentMsg_Inr RegisterAccusationMsg_Inr
  RegisterApologyMsg_Inr

lemma closed_rejects:
  "dkg_SubmissionsClosed d \<Longrightarrow> \<exists>e. RegisterPolyEvalMsg pe d = Inl e"
  "dkg_SubmissionsClosed d \<Longrightarrow> \<exists>e. RegisterPolyCommitmentMsg pcm d = Inl e"
  "dkg_AccusationsClosed d \<Longrightarrow> \<exists>e. RegisterAccusationMsg acc d = Inl e"
  "dkg_ApologiesClosed d \<Longrightarrow> \<exists>e. RegisterApologyMsg apo d = Inl e"
  by (simp_all add: RegisterPolyEvalMsg_def RegisterPolyCommitmentMsg_def RegisterAccusationMsg_def
      RegisterApologyMsg_def)

interpretation poly_eval_register: once_per_key RegisterPolyEvalMsg
    "\<lambda>m. {pe_Sender m} \<times> set (pe_Receivers m)" dkg_PolyEvalsSeen dkg_SubmissionsClosed
  by unfold_locales (auto simp: register_Inr closed_rejects)

interpretation poly_commitment_register: once_per_key RegisterPolyCommitmentMsg
    "\<lambda>m. {pc_Sender m}" dkg_PolyCommitmentsSeen dkg_SubmissionsClosed
  by unfold_locales (auto simp: register_Inr closed_rejects)

interpretation accusation_register: once_per_key RegisterAccusationMsg
    "\<lambda>m. {acc_Sender m}" dkg_AccusationsSeen dkg_AccusationsClosed
  by unfold_locales (auto simp: register_Inr closed_rejects)

interpretation apology_register: once_per_key RegisterApologyMsg
    "\<lambda>m. {apo_Sender m}" dkg_ApologiesSeen dkg_ApologiesClosed
  by unfold_locales (auto simp: register_Inr closed_rejects)

section \<open>Messages a keyper builds are read back\<close>

lemma collect_validateAddress: "eth_ok E \<Longrightarrow> collect (validateAddress E) (map (Address_Bytes E) as) = Inr as"
  by (intro collect_map) (simp add: validateAddress_def AddressLength_def Address_Bytes_ok)

lemma Parse_New:
  assumes E: "eth_ok E"
  shows "distinct rs \<Longrightarrow> length rs = length evs \<Longrightarrow>
      NewPolyEval E eon rs evs = Some (Message_PolyEval pm) \<Longrightarrow> ParsePolyEvalMsg E pm s =
        Inr \<lparr> pe_Height = 0, pe_Sender = s, pe_Eon = eon, pe_Receivers = rs, pe_EncryptedEvals = evs \<rparr>"
    "distinct as \<Longrightarrow> NewAccusation E eon as = Some (Message_Accusation am) \<Longrightarrow> ParseAccusationMsg E am s =
        Inr \<lparr> acc_Height = 0, acc_Eon = eon, acc_Sender = s, acc_Accused = as \<rparr>"
    "distinct as \<Longrightarrow> \<forall>e\<in>set es. 0 \<le> e \<Longrightarrow> NewApology E eon as es = Inr (Some (Message_Apology om)) \<Longrightarrow>
      ParseApologyMsg E om s =
        Inr \<lparr> apo_Height = 0, apo_Eon = eon, apo_Sender = s, apo_Accusers = as, apo_PolyEval = es \<rparr>"
  using E by (auto simp: NewPolyEval_def ParsePolyEvalMsg_def NewAccusation_def ParseAccusationMsg_def
      NewApology_def ParseApologyMsg_def collect_validateAddress map_SetBytes_Bytes
      split: option.split if_split_asm)

lemma Parse_New_group:
  assumes B: "bn_ok B"
  shows "NewPolyCommitment B eon gs = Some (Message_PolyCommitment cm) \<Longrightarrow> ParsePolyCommitmentMsg B cm s =
        Inr \<lparr> pc_Height = 0, pc_Eon = eon, pc_Sender = s, pc_Gammas = Some gs \<rparr>"
    "NewEpochSecretKeyShare B eon epoch share = Some (Message_EpochSecretKeyShare sm) \<Longrightarrow>
      ParseEpochSecretKeyShareMsg B sm s =
        Inr \<lparr> sks_Height = 0, sks_Sender = s, sks_Eon = eon, sks_Epoch = epoch, sks_Share = share \<rparr>"
proof -
  have "collect (\<lambda>g. case G2_Unmarshal B g of None \<Rightarrow> Inl (Errorf ''bn256.G2: unmarshal'')
      | Some (g2, rest) \<Rightarrow> Inr g2) (map (G2_Marshal B) gs) = Inr gs"
    using B by (intro collect_map) (simp add: G2_Unmarshal_Marshal1)
  then show "NewPolyCommitment B eon gs = Some (Message_PolyCommitment cm) \<Longrightarrow> ParsePolyCommitmentMsg B cm s =
        Inr \<lparr> pc_Height = 0, pc_Eon = eon, pc_Sender = s, pc_Gammas = Some gs \<rparr>"
    by (auto simp: NewPolyCommitment_def ParsePolyCommitmentMsg_def)
  show "NewEpochSecretKeyShare B eon epoch share = Some (Message_EpochSecretKeyShare sm) \<Longrightarrow>
      ParseEpochSecretKeyShareMsg B sm s =
        Inr \<lparr> sks_Height = 0, sks_Sender = s, sks_Eon = eon, sks_Epoch = epoch, sks_Share = share \<rparr>"
    using B by (auto simp: NewEpochSecretKeyShare_def ParseEpochSecretKeyShareMsg_def G1Key_GobEncode_def
        G1Key_GobDecode_def G1_Unmarshal_Marshal1)
qed

end
