(* ===== verification/App.thy ===== *)
theory App
  imports AppDKG
begin

text \<open>
  \<open>app/app.go\<close> and the state of \<open>app/types.go\<close>: the tendermint application. Each ABCI call is a
  function from the state to a response and the next state; a Go panic, and a call of \<open>log.Fatalf\<close>,
  is an \<open>Inl (Panic _)\<close>. The state keeps pointers to batch configs and to the instances of the
  key generation; each of them has one place in the state, so the model keeps the structs there.
  Log texts are shortened; the calls that answer with an empty response are left out.
\<close>

section \<open>State\<close>

record GenesisAppState =
  gs_Keypers :: "address list"
  gs_Threshold :: u64

text \<open>A \<open>MixedcaseAddress\<close> is its address.\<close>

definition NewGenesisAppState :: "address list \<Rightarrow> int \<Rightarrow> GenesisAppState" where
  "NewGenesisAppState keypers threshold = \<lparr> gs_Keypers = keypers, gs_Threshold = of_int threshold \<rparr>"

definition GetKeypers :: "GenesisAppState \<Rightarrow> address list" where
  "GetKeypers appState = gs_Keypers appState"

record ShielderApp =
  app_Configs :: "BatchConfig list"
  app_BatchStates :: "u64 \<Rightarrow> BatchState option"
  app_DKGMap :: "u64 \<Rightarrow> DKGInstance option"
  app_ConfigVoting :: ConfigVoting
  app_EonStartVotings :: "u64 \<Rightarrow> EonStartVoting option"
  app_Gobpath :: string
  app_LastSaved :: int
  app_LastBlockHeight :: i64
  app_Identities :: "address \<Rightarrow> ValidatorPubkey option"
  app_StartedVotes :: "address set"
  app_Validators :: Powermap
  app_EONCounter :: u64
  app_DevMode :: bool
  app_CheckTxState :: CheckTxState
  app_NonceTracker :: NonceTracker
  app_ChainID :: bytes

definition emptyBatchConfig :: BatchConfig where
  "emptyBatchConfig = \<lparr> bc_Height = 0, bc_Keypers = [], bc_StartBatchIndex = 0, bc_Threshold = 0,
     bc_ConfigIndex = 0, bc_ConfigContractAddress = 0, bc_Started = False, bc_ValidatorsUpdated = False \<rparr>"

definition NewShielderApp :: ShielderApp where
  "NewShielderApp =
     \<lparr> app_Configs = [emptyBatchConfig], app_BatchStates = Map.empty, app_DKGMap = Map.empty,
       app_ConfigVoting = NewConfigVoting, app_EonStartVotings = Map.empty, app_Gobpath = '''',
       app_LastSaved = 0, app_LastBlockHeight = 0, app_Identities = Map.empty, app_StartedVotes = {},
       app_Validators = [], app_EONCounter = 0, app_DevMode = False, app_CheckTxState = NewCheckTxState,
       app_NonceTracker = NewNonceTracker, app_ChainID = [] \<rparr>"

text \<open>
  The saved state, as the file system gives it: nothing when the file does not exist, the error of
  opening or decoding it, or the decoded struct.
\<close>

definition LoadShielderAppFromFile :: "ShielderApp result option \<Rightarrow> int \<Rightarrow> string \<Rightarrow> ShielderApp result" where
  "LoadShielderAppFromFile gobfile now gobpath =
     result_bind (case gobfile of None \<Rightarrow> Inr NewShielderApp | Some r \<Rightarrow> r)
       (\<lambda>shapp. Inr (shapp \<lparr> app_Gobpath := gobpath, app_LastSaved := now \<rparr>))"

text \<open>\<open>novalidator\<close> and zeros, 32 bytes.\<close>

definition NonExistentValidator :: ValidatorPubkey where
  "NonExistentValidator = ValidatorPubkey
     ([0x6e, 0x6f, 0x76, 0x61, 0x6c, 0x69, 0x64, 0x61, 0x74, 0x6f, 0x72] @ replicate 21 0)"

section \<open>Batch configs\<close>

definition LastConfig :: "ShielderApp \<Rightarrow> BatchConfig result" where
  "LastConfig app =
     (if app_Configs app = [] then Inl (Panic ''internal error: app.Configs is empty'')
      else Inr (last (app_Configs app)))"

definition getConfig :: "ShielderApp \<Rightarrow> u64 \<Rightarrow> BatchConfig result" where
  "getConfig app batchIndex =
     (case find (\<lambda>c. bc_StartBatchIndex c \<le> batchIndex) (rev (app_Configs app)) of
        None \<Rightarrow> Inl (Panic ''guard element missing'')
      | Some c \<Rightarrow> Inr c)"

definition checkConfig :: "ShielderApp \<Rightarrow> BatchConfig \<Rightarrow> unit result" where
  "checkConfig app cfg =
     (case EnsureValid cfg of Some err \<Rightarrow> Inl err | None \<Rightarrow>
      result_bind (LastConfig app) (\<lambda>lastConfig.
        if bc_StartBatchIndex cfg < bc_StartBatchIndex lastConfig
        then Inl (Errorf ''start batch index of next config lower than current one'')
        else if bc_ConfigIndex cfg \<le> bc_ConfigIndex lastConfig
        then Inl (Errorf ''config index of next config not greater than current one'')
        else Inr ()))"

definition updateCheckTxMembers :: "ShielderApp \<Rightarrow> ShielderApp" where
  "updateCheckTxMembers app =
     (let members = concat (map bc_Keypers (app_Configs app))
      in app \<lparr> app_CheckTxState := SetMembers members (app_CheckTxState app) \<rparr>)"

definition addConfig :: "BatchConfig \<Rightarrow> ShielderApp \<Rightarrow> ShielderApp result" where
  "addConfig cfg app =
     result_bind (checkConfig app cfg) (\<lambda>_.
       Inr (updateCheckTxMembers (app \<lparr> app_Configs := app_Configs app @ [cfg] \<rparr>)))"

definition getBatchState :: "ShielderApp \<Rightarrow> u64 \<Rightarrow> BatchState result" where
  "getBatchState app batchIndex =
     (case app_BatchStates app batchIndex of
        Some bs \<Rightarrow> Inr bs
      | None \<Rightarrow> result_bind (getConfig app batchIndex) (\<lambda>config.
          Inr \<lparr> bs_BatchIndex = batchIndex, bs_Config = config, bs_DecryptionSignatures = [] \<rparr>))"

definition allowedToVoteOnConfigChanges :: "ShielderApp \<Rightarrow> address \<Rightarrow> bool result" where
  "allowedToVoteOnConfigChanges app sender =
     result_bind (LastConfig app) (\<lambda>lastConfig. Inr (KeyperIndex lastConfig sender \<noteq> None))"

definition app_isKeyper :: "ShielderApp \<Rightarrow> address \<Rightarrow> bool" where
  "app_isKeyper app a = (\<exists>cfg\<in>set (app_Configs app). KeyperIndex cfg a \<noteq> None)"

section \<open>Responses\<close>

record ResponseDeliverTx =
  resp_Code :: nat
  resp_Log :: string
  resp_Events :: "abci_event list"

definition okResponse :: "abci_event list \<Rightarrow> ResponseDeliverTx" where
  "okResponse events = \<lparr> resp_Code = 0, resp_Log = '''', resp_Events = events \<rparr>"

definition makeErrorResponse :: "string \<Rightarrow> ResponseDeliverTx" where
  "makeErrorResponse msg = \<lparr> resp_Code = 1, resp_Log = msg, resp_Events = [] \<rparr>"

definition notAKeyper :: "address \<Rightarrow> ResponseDeliverTx" where
  "notAKeyper sender = makeErrorResponse ''sender is not a keyper''"

section \<open>Delivering messages\<close>

type_synonym step_result = "(ResponseDeliverTx \<times> ShielderApp) result"

definition ShouldStartDKG :: "ShielderApp \<Rightarrow> BatchConfig \<Rightarrow> bool" where
  "ShouldStartDKG app config =
     (case app_DKGMap app (app_EONCounter app) of
        None \<Rightarrow> True
      | Some dkg \<Rightarrow>
          (let previousConfig = dkg_Config dkg
           in bc_Threshold previousConfig \<noteq> bc_Threshold config \<or>
              bc_Keypers previousConfig \<noteq> bc_Keypers config))"

definition StartDKG :: "BatchConfig \<Rightarrow> ShielderApp \<Rightarrow> DKGInstance \<times> ShielderApp" where
  "StartDKG config app =
     (let eon = app_EONCounter app + 1;
          dkg = NewDKGInstance config eon
      in (dkg, app \<lparr> app_EONCounter := eon, app_DKGMap := (app_DKGMap app)(dkg_Eon dkg \<mapsto> dkg) \<rparr>))"

definition eonStartedEvent :: "u64 \<Rightarrow> u64 \<Rightarrow> abci_event" where
  "eonStartedEvent eon batchIndex =
     EonStarted_MakeABCIEvent \<lparr> es_Height = 0, es_Eon = eon, es_BatchIndex = batchIndex \<rparr>"

definition deliverBatchConfig ::
  "map_orders \<Rightarrow> ('pk, 'sk, 'ek, 'dk) eth \<Rightarrow> ShBatchConfig \<Rightarrow> address \<Rightarrow> ShielderApp \<Rightarrow> step_result" where
  "deliverBatchConfig R E msg sender app =
     if_err (BatchConfigFromMessage E msg) (\<lambda>err. Inr (makeErrorResponse ''Malformed BatchConfig message'', app)) (\<lambda>bc.
     result_bind (LastConfig app) (\<lambda>lastConfig.
     if lastConfig = bc then Inr (okResponse [], app)
     else if_err (checkConfig app bc) (\<lambda>err. Inr (makeErrorResponse (''checkConfig: '' @ err), app)) (\<lambda>_.
     result_bind (allowedToVoteOnConfigChanges app sender) (\<lambda>allowed.
     if \<not> allowed then Inr (makeErrorResponse ''not allowed to vote on config changes'', app)
     else if_err (ConfigVoting_AddVote sender bc (app_ConfigVoting app))
       (\<lambda>err. Inr (makeErrorResponse (''Error adding vote: '' @ err), app)) (\<lambda>voting.
     let app1 = app \<lparr> app_ConfigVoting := voting \<rparr>
     in case ConfigVoting_Outcome R voting (sint (bc_Threshold lastConfig)) of
          None \<Rightarrow> Inr (okResponse [], app1)
        | Some _ \<Rightarrow>
            (let app2 = app1 \<lparr> app_ConfigVoting := NewConfigVoting \<rparr>
             in if_err (addConfig bc app2)
                  (\<lambda>err. Inr (makeErrorResponse (''Error in addConfig: '' @ err), app2)) (\<lambda>app3.
                if ShouldStartDKG app3 bc
                then let (dkg, app4) = StartDKG bc app3
                     in result_bind (LastConfig app4) (\<lambda>lastConfig'.
                          Inr (okResponse [BatchConfig_MakeABCIEvent E bc,
                            eonStartedEvent (dkg_Eon dkg) (bc_StartBatchIndex lastConfig')], app4))
                else Inr (okResponse [BatchConfig_MakeABCIEvent E bc], app3))))))))"

definition deliverCheckIn ::
  "('pk, 'sk, 'ek, 'dk) eth \<Rightarrow> ShCheckIn \<Rightarrow> address \<Rightarrow> ShielderApp \<Rightarrow> step_result" where
  "deliverCheckIn E msg sender app =
     (if app_Identities app sender \<noteq> None then Inr (makeErrorResponse ''sender already checked in'', app)
      else if \<not> app_isKeyper app sender then Inr (notAKeyper sender, app)
      else if_err (NewValidatorPubkey (sci_ValidatorPublicKey msg))
        (\<lambda>err. Inr (makeErrorResponse (''malformed validator public key: '' @ err), app)) (\<lambda>validatorPublicKey.
      if_err (DecompressPubkey E (sci_EncryptionPublicKey msg))
        (\<lambda>err. Inr (makeErrorResponse (''malformed encryption public key: '' @ err), app)) (\<lambda>encryptionPublicKeyECDSA.
      let encryptionPublicKey = ImportECDSAPublic E encryptionPublicKeyECDSA;
          app1 = app \<lparr> app_Identities := (app_Identities app)(sender \<mapsto> validatorPublicKey) \<rparr>
      in Inr (okResponse [CheckIn_MakeABCIEvent E
           \<lparr> ci_Height = 0, ci_Sender = sender, ci_EncryptionPublicKey = encryptionPublicKey \<rparr>], app1))))"

definition deliverBatchConfigStarted :: "u64 \<Rightarrow> address \<Rightarrow> ShielderApp \<Rightarrow> step_result" where
  "deliverBatchConfigStarted configIndex sender app =
     result_bind (LastConfig app) (\<lambda>lastBatchConfig.
     if configIndex \<noteq> bc_ConfigIndex lastBatchConfig
     then Inr (makeErrorResponse ''can only start last config'', app)
     else if length (app_Configs app) \<le> 1 then Inr (makeErrorResponse ''no config to vote on'', app)
     else if \<not> IsKeyper (app_Configs app ! (length (app_Configs app) - 2)) sender
     then Inr (notAKeyper sender, app)
     else let app1 = (if \<not> bc_Started lastBatchConfig
                      then app \<lparr> app_StartedVotes := insert sender (app_StartedVotes app) \<rparr> else app)
          in Inr (okResponse [], app1))"

definition countEonStartVote :: "address \<Rightarrow> BatchConfig \<Rightarrow> u64 \<Rightarrow> ShielderApp \<Rightarrow> ShielderApp" where
  "countEonStartVote sender config startBatchIndex app =
     (let v = (case app_EonStartVotings app (bc_ConfigIndex config) of
                 None \<Rightarrow> NewEonStartVoting | Some v \<Rightarrow> v)
      in app \<lparr> app_EonStartVotings := (app_EonStartVotings app)
           (bc_ConfigIndex config \<mapsto> EonStartVoting_AddVote sender startBatchIndex v) \<rparr>)"

definition maybeStartEon ::
  "map_orders \<Rightarrow> BatchConfig \<Rightarrow> ShielderApp \<Rightarrow> (DKGInstance \<times> u64) option \<times> ShielderApp" where
  "maybeStartEon R config app =
     (case app_EonStartVotings app (bc_ConfigIndex config) of
        None \<Rightarrow> (None, app)
      | Some v \<Rightarrow>
          (case EonStartVoting_Outcome R v (sint (bc_Threshold config)) of
             None \<Rightarrow> (None, app)
           | Some startBatchIndex \<Rightarrow>
               (let app1 = app \<lparr> app_EonStartVotings := (app_EonStartVotings app)(bc_ConfigIndex config := None) \<rparr>;
                    (dkg, app2) = StartDKG config app1
                in (Some (dkg, startBatchIndex), app2))))"

definition deliverEonStartVoteMsg ::
  "map_orders \<Rightarrow> u64 \<Rightarrow> address \<Rightarrow> ShielderApp \<Rightarrow> step_result" where
  "deliverEonStartVoteMsg R startBatchIndex sender app =
     result_bind (getConfig app startBatchIndex) (\<lambda>config.
     if \<not> IsKeyper config sender then Inr (notAKeyper sender, app)
     else let app1 = countEonStartVote sender config startBatchIndex app
          in case maybeStartEon R config app1 of
               (None, app2) \<Rightarrow> Inr (okResponse [], app2)
             | (Some (dkg, start), app2) \<Rightarrow> Inr (okResponse [eonStartedEvent (dkg_Eon dkg) start], app2))"

definition deliverDecryptionSignature ::
  "('pk, 'sk, 'ek, 'dk) eth \<Rightarrow> ShDecryptionSignature \<Rightarrow> address \<Rightarrow> ShielderApp \<Rightarrow> step_result" where
  "deliverDecryptionSignature E msg sender app =
     result_bind (getBatchState app (sds_BatchIndex msg)) (\<lambda>bs.
     if_err (AddDecryptionSignature \<lparr> sig_Sender = sender, sig_Signature = sds_Signature msg \<rparr> bs)
       (\<lambda>err. Inr (makeErrorResponse ''Error: cannot add decryption signature'', app)) (\<lambda>bs'.
     let app1 = app \<lparr> app_BatchStates := (app_BatchStates app)(sds_BatchIndex msg \<mapsto> bs') \<rparr>;
         event = DecryptionSignature_MakeABCIEvent E
           \<lparr> ds_Height = 0, ds_BatchIndex = sds_BatchIndex msg, ds_Sender = sender,
             ds_Signature = sds_Signature msg \<rparr>
     in Inr (okResponse [event], app1)))"

text \<open>
  The four handlers of key generation messages have the same shape: parse, find the instance of the
  eon, register, publish.
\<close>

definition handleDKGMsg ::
  "'m result \<Rightarrow> ('m \<Rightarrow> u64) \<Rightarrow> ('m \<Rightarrow> DKGInstance \<Rightarrow> DKGInstance result) \<Rightarrow> ('m \<Rightarrow> abci_event) \<Rightarrow>
   ShielderApp \<Rightarrow> step_result" where
  "handleDKGMsg parsed eon register event app =
     if_err parsed (\<lambda>err. Inr (makeErrorResponse ''Error: Failed to parse message'', app)) (\<lambda>appMsg.
     case app_DKGMap app (eon appMsg) of
       None \<Rightarrow> Inr (makeErrorResponse ''Error: Received message while DKG is not active'', app)
     | Some dkg \<Rightarrow>
         if_err (register appMsg dkg)
           (\<lambda>err. Inr (makeErrorResponse ''Error: Failed to register message'', app)) (\<lambda>dkg'.
         Inr (okResponse [event appMsg],
              app \<lparr> app_DKGMap := (app_DKGMap app)(eon appMsg \<mapsto> dkg') \<rparr>)))"

definition handlePolyEvalMsg ::
  "('pk, 'sk, 'ek, 'dk) eth \<Rightarrow> ShPolyEval \<Rightarrow> address \<Rightarrow> ShielderApp \<Rightarrow> step_result" where
  "handlePolyEvalMsg E msg sender app =
     handleDKGMsg (ParsePolyEvalMsg E msg sender) pe_Eon RegisterPolyEvalMsg (PolyEval_MakeABCIEvent E) app"

definition handlePolyCommitmentMsg ::
  "('g1, 'g2, 'gt) bn256 \<Rightarrow> ('pk, 'sk, 'ek, 'dk) eth \<Rightarrow> ShPolyCommitment \<Rightarrow> address \<Rightarrow> ShielderApp \<Rightarrow> step_result" where
  "handlePolyCommitmentMsg B E msg sender app =
     handleDKGMsg (ParsePolyCommitmentMsg B msg sender) pc_Eon RegisterPolyCommitmentMsg
       (PolyCommitment_MakeABCIEvent B E) app"

definition handleAccusationMsg ::
  "('pk, 'sk, 'ek, 'dk) eth \<Rightarrow> ShAccusation \<Rightarrow> address \<Rightarrow> ShielderApp \<Rightarrow> step_result" where
  "handleAccusationMsg E msg sender app =
     handleDKGMsg (ParseAccusationMsg E msg sender) acc_Eon RegisterAccusationMsg (Accusation_MakeABCIEvent E) app"

definition handleApologyMsg ::
  "('pk, 'sk, 'ek, 'dk) eth \<Rightarrow> ShApology \<Rightarrow> address \<Rightarrow> ShielderApp \<Rightarrow> step_result" where
  "handleApologyMsg E msg sender app =
     handleDKGMsg (ParseApologyMsg E msg sender) apo_Eon RegisterApologyMsg (Apology_MakeABCIEvent E) app"

definition handleEpochSecretKeyShareMsg ::
  "('g1, 'g2, 'gt) bn256 \<Rightarrow> ('pk, 'sk, 'ek, 'dk) eth \<Rightarrow> ShEpochSecretKeyShare \<Rightarrow> address \<Rightarrow> ShielderApp \<Rightarrow> step_result" where
  "handleEpochSecretKeyShareMsg B E msg sender app =
     if_err (ParseEpochSecretKeyShareMsg B msg sender)
       (\<lambda>err. Inr (makeErrorResponse ''Error: Failed to parse EpochSecretKeyShare message'', app)) (\<lambda>appMsg.
     Inr (okResponse [EpochSecretKeyShare_MakeABCIEvent B E appMsg], app))"

fun deliverMessage ::
  "map_orders \<Rightarrow> ('g1, 'g2, 'gt) bn256 \<Rightarrow> ('pk, 'sk, 'ek, 'dk) eth \<Rightarrow> Message option \<Rightarrow> address \<Rightarrow>
   ShielderApp \<Rightarrow> step_result" where
  "deliverMessage R B E (Some (Some (Message_BatchConfig m))) sender app = deliverBatchConfig R E m sender app"
| "deliverMessage R B E (Some (Some (Message_BatchConfigStarted i))) sender app = deliverBatchConfigStarted i sender app"
| "deliverMessage R B E (Some (Some (Message_CheckIn m))) sender app = deliverCheckIn E m sender app"
| "deliverMessage R B E (Some (Some (Message_EonStartVote i))) sender app = deliverEonStartVoteMsg R i sender app"
| "deliverMessage R B E (Some (Some (Message_DecryptionSignature m))) sender app = deliverDecryptionSignature E m sender app"
| "deliverMessage R B E (Some (Some (Message_PolyEval m))) sender app = handlePolyEvalMsg E m sender app"
| "deliverMessage R B E (Some (Some (Message_PolyCommitment m))) sender app = handlePolyCommitmentMsg B E m sender app"
| "deliverMessage R B E (Some (Some (Message_Accusation m))) sender app = handleAccusationMsg E m sender app"
| "deliverMessage R B E (Some (Some (Message_Apology m))) sender app = handleApologyMsg E m sender app"
| "deliverMessage R B E (Some (Some (Message_EpochSecretKeyShare m))) sender app =
     handleEpochSecretKeyShareMsg B E m sender app"
| "deliverMessage R B E _ sender app = Inr (makeErrorResponse ''cannot deliver message'', app)"

section \<open>ABCI calls\<close>

definition decodeTx ::
  "('pk, 'sk, 'ek, 'dk) eth \<Rightarrow> proto \<Rightarrow> string \<Rightarrow> (address \<times> MessageWithNonce) result" where
  "decodeTx E P tx =
     result_bind (b64_DecodeString tx) (\<lambda>signedMsg.
     result_bind (GetSigner E P signedMsg) (\<lambda>signer.
     result_bind (GetMessage P signedMsg) (\<lambda>msg.
     Inr (signer, msg))))"

text \<open>The response of \<open>CheckTx\<close> is its code.\<close>

definition CheckTx ::
  "('pk, 'sk, 'ek, 'dk) eth \<Rightarrow> proto \<Rightarrow> string \<Rightarrow> ShielderApp \<Rightarrow> (nat \<times> ShielderApp) result" where
  "CheckTx E P tx app =
     if_err (decodeTx E P tx) (\<lambda>err. Inr (1, app)) (\<lambda>(signer, msg).
     if mwn_ChainId msg \<noteq> app_ChainID app then Inr (1, app)
     else if \<not> NonceTracker_Check (app_NonceTracker app) signer (mwn_RandomNonce msg) then Inr (1, app)
     else let (ok, s) = AddTx signer msg (app_CheckTxState app);
              app1 = app \<lparr> app_CheckTxState := s \<rparr>
          in Inr (if ok then 0 else 1, app1))"

definition DeliverTx ::
  "map_orders \<Rightarrow> ('g1, 'g2, 'gt) bn256 \<Rightarrow> ('pk, 'sk, 'ek, 'dk) eth \<Rightarrow> proto \<Rightarrow> string \<Rightarrow> ShielderApp \<Rightarrow> step_result" where
  "DeliverTx R B E P tx app =
     if_err (decodeTx E P tx)
       (\<lambda>err. Inr (makeErrorResponse (''Error while decoding transaction: '' @ err), app)) (\<lambda>(signer, msg).
     if mwn_ChainId msg \<noteq> app_ChainID app then Inr (makeErrorResponse ''wrong chain id'', app)
     else if \<not> NonceTracker_Check (app_NonceTracker app) signer (mwn_RandomNonce msg)
     then Inr (makeErrorResponse ''Nonce already used'', app)
     else deliverMessage R B E (mwn_Msg msg) signer
            (app \<lparr> app_NonceTracker := NonceTracker_Add signer (mwn_RandomNonce msg) (app_NonceTracker app) \<rparr>))"

record RequestInitChain =
  req_AppStateBytes :: bytes
  req_Validators :: "ValidatorUpdate list"
  req_ChainId :: bytes

definition InitChain ::
  "(bytes \<Rightarrow> GenesisAppState result) \<Rightarrow> RequestInitChain \<Rightarrow> ShielderApp \<Rightarrow> ShielderApp result" where
  "InitChain UnmarshalJSON req app =
     if_err (UnmarshalJSON (req_AppStateBytes req)) (\<lambda>err. Inl (Panic ''Cannot unmarshal genesis app state'')) (\<lambda>genesisState.
     let bc = emptyBatchConfig \<lparr> bc_StartBatchIndex := 0, bc_Keypers := GetKeypers genesisState,
                bc_Threshold := gs_Threshold genesisState \<rparr>
     in case EnsureValid bc of
          Some err \<Rightarrow> Inl (Panic ''Invalid genesis app state'')
        | None \<Rightarrow>
           if length (app_Configs app) = 1 \<and> bc_Keypers (app_Configs app ! 0) = [] then
             if_err (MakePowermap (req_Validators req))
               (\<lambda>err. Inl (Panic ''InitChain: cannot handle validator keys'')) (\<lambda>validators.
             Inr (updateCheckTxMembers (app \<lparr> app_Validators := validators, app_Configs := [bc],
                    app_CheckTxState := NewCheckTxState \<rparr>) \<lparr> app_ChainID := req_ChainId req \<rparr>))
           else if app_Configs app = [] then Inl (Panic ''index out of range'')
           else if bc \<noteq> app_Configs app ! 0
           then Inl (Panic ''Mismatch between stored app state and initial app state'')
           else Inr (app \<lparr> app_ChainID := req_ChainId req \<rparr>))"

definition makePowermap :: "ShielderApp \<Rightarrow> address list \<Rightarrow> Powermap" where
  "makePowermap app keypers =
     foldl (\<lambda>pm k. case app_Identities app k of
         Some pk \<Rightarrow> add_power pk 10 pm
       | None \<Rightarrow> add_power NonExistentValidator 10 pm) [] keypers"

definition CurrentValidators :: "ShielderApp \<Rightarrow> Powermap" where
  "CurrentValidators app =
     (case find (\<lambda>c. bc_Started c \<and> bc_ValidatorsUpdated c) (rev (app_Configs app)) of
        Some c \<Rightarrow> makePowermap app (bc_Keypers c)
      | None \<Rightarrow> app_Validators app)"

definition countCheckedInKeypers :: "ShielderApp \<Rightarrow> address list \<Rightarrow> u64" where
  "countCheckedInKeypers app keypers =
     foldl (\<lambda>numCheckedIn k. if app_Identities app k \<noteq> None then numCheckedIn + 1 else numCheckedIn) 0 keypers"

definition enoughStartedVotes :: "ShielderApp \<Rightarrow> bool" where
  "enoughStartedVotes app \<longleftrightarrow> length (app_Configs app) \<ge> 2 \<and>
     (of_nat (card (app_StartedVotes app)) :: u64) \<ge>
       bc_Threshold (app_Configs app ! (length (app_Configs app) - 2))"

text \<open>\<open>EndBlock\<close> mutates the last config through its pointer, in two steps.\<close>

definition EndBlock :: "map_orders \<Rightarrow> i64 \<Rightarrow> ShielderApp \<Rightarrow> (ValidatorUpdate list \<times> ShielderApp) result" where
  "EndBlock R height app =
     result_bind (LastConfig app) (\<lambda>lastConfig.
     let (lastConfig1, votes) =
           (if enoughStartedVotes app then (lastConfig \<lparr> bc_Started := True \<rparr>, {})
            else (lastConfig, app_StartedVotes app));
         lastConfig2 =
           (if bc_Started lastConfig1 \<and> \<not> bc_ValidatorsUpdated lastConfig1 \<and>
               countCheckedInKeypers app (bc_Keypers lastConfig1) \<ge> bc_Threshold lastConfig1
            then lastConfig1 \<lparr> bc_ValidatorsUpdated := True \<rparr> else lastConfig1);
         app1 = app \<lparr> app_Configs := butlast (app_Configs app) @ [lastConfig2], app_StartedVotes := votes \<rparr>;
         newValidators = CurrentValidators app1;
         validatorUpdates = ValidatorUpdates (ord_powers R)
           (DiffPowermaps (ord_powers R) (app_Validators app1) newValidators);
         app2 = app1 \<lparr> app_Validators := newValidators, app_LastBlockHeight := height \<rparr>
     in Inr (if app_DevMode app then [] else validatorUpdates, app2))"

text \<open>What the file system answers while the state is saved; \<open>now\<close> is the clock.\<close>

record disk =
  disk_Create :: "go_error option"
  disk_Encode :: "go_error option"
  disk_Sync :: "go_error option"
  disk_Rename :: "go_error option"

definition PersistToDisk :: "int \<Rightarrow> disk \<Rightarrow> ShielderApp \<Rightarrow> go_error option \<times> ShielderApp" where
  "PersistToDisk now D app =
     (case disk_Create D of
        Some err \<Rightarrow> (Some err, app)
      | None \<Rightarrow>
          (let app1 = app \<lparr> app_LastSaved := now \<rparr>
           in case disk_Encode D of
                Some err \<Rightarrow> (Some err, app1)
              | None \<Rightarrow> (case disk_Sync D of
                  Some err \<Rightarrow> (Some err, app1)
                | None \<Rightarrow> (disk_Rename D, app1))))"

definition PersistMinDuration :: int where
  "PersistMinDuration = 30000000000"

definition maybePersistToDisk :: "int \<Rightarrow> disk \<Rightarrow> ShielderApp \<Rightarrow> go_error option \<times> ShielderApp" where
  "maybePersistToDisk now D app =
     (if app_Gobpath app = '''' then (None, app)
      else if now - app_LastSaved app \<le> PersistMinDuration then (None, app)
      else PersistToDisk now D app)"

definition Commit :: "int \<Rightarrow> disk \<Rightarrow> ShielderApp \<Rightarrow> ShielderApp" where
  "Commit now D app =
     snd (maybePersistToDisk now D (app \<lparr> app_CheckTxState := CheckTxState_Reset (app_CheckTxState app) \<rparr>))"

end
