(* ===== verification/AppInv.thy ===== *)
theory AppInv
  imports App
begin

text \<open>
  The invariant of the tendermint application, and that every ABCI call keeps it: the list of batch
  configs always has its guard element and grows upwards, no vote is left decided, and what is stored
  for batches and eons belongs to them.
\<close>

section \<open>The invariant\<close>

definition wf_configs :: "BatchConfig list \<Rightarrow> bool" where
  "wf_configs cs \<longleftrightarrow> cs \<noteq> [] \<and> bc_StartBatchIndex (hd cs) = 0 \<and> sorted (map bc_StartBatchIndex cs) \<and>
     sorted_wrt (<) (map bc_ConfigIndex cs) \<and> (\<forall>c\<in>set cs. EnsureValid c = None)"

definition required_votes :: "BatchConfig \<Rightarrow> int" where
  "required_votes c = sint (bc_Threshold c)"

definition config_voting_ok :: "BatchConfig list \<Rightarrow> ConfigVoting \<Rightarrow> bool" where
  "config_voting_ok cs v \<longleftrightarrow> wf_ConfigVoting v \<and> config_ballot.undecided v (required_votes (last cs)) \<and>
     dom (config_choice v) \<subseteq> set (bc_Keypers (last cs))"

definition eon_voting_ok :: "BatchConfig \<Rightarrow> EonStartVoting \<Rightarrow> bool" where
  "eon_voting_ok c v \<longleftrightarrow> wf_EonStartVoting v \<and> eon_ballot.undecided v (required_votes c) \<and>
     dom (eon_choice v) \<subseteq> set (bc_Keypers c)"

definition eon_votings_ok :: "BatchConfig list \<Rightarrow> (u64 \<Rightarrow> EonStartVoting option) \<Rightarrow> bool" where
  "eon_votings_ok cs vs \<longleftrightarrow>
     (\<forall>i v. vs i = Some v \<longrightarrow> (\<exists>c\<in>set cs. bc_ConfigIndex c = i \<and> eon_voting_ok c v))"

definition batches_ok :: "BatchConfig list \<Rightarrow> (u64 \<Rightarrow> BatchState option) \<Rightarrow> bool" where
  "batches_ok cs bss \<longleftrightarrow>
     (\<forall>i bs. bss i = Some bs \<longrightarrow> wf_BatchState bs \<and> bs_BatchIndex bs = i \<and>
        (\<exists>c\<in>set cs. bc_Keypers c = bc_Keypers (bs_Config bs)))"

definition dkgs_ok :: "BatchConfig list \<Rightarrow> (u64 \<Rightarrow> DKGInstance option) \<Rightarrow> bool" where
  "dkgs_ok cs dkgs \<longleftrightarrow>
     (\<forall>e d. dkgs e = Some d \<longrightarrow> dkg_Eon d = e \<and>
        (\<exists>c\<in>set cs. bc_Keypers c = bc_Keypers (dkg_Config d) \<and> bc_Threshold c = bc_Threshold (dkg_Config d)))"

definition all_keypers :: "BatchConfig list \<Rightarrow> address set" where
  "all_keypers cs = (\<Union>c\<in>set cs. set (bc_Keypers c))"

definition app_inv :: "ShielderApp \<Rightarrow> bool" where
  "app_inv app \<longleftrightarrow>
     wf_configs (app_Configs app) \<and>
     config_voting_ok (app_Configs app) (app_ConfigVoting app) \<and>
     eon_votings_ok (app_Configs app) (app_EonStartVotings app) \<and>
     batches_ok (app_Configs app) (app_BatchStates app) \<and>
     dkgs_ok (app_Configs app) (app_DKGMap app) \<and>
     finite (app_StartedVotes app) \<and> wf_map (app_Validators app) \<and>
     ct_Members (app_CheckTxState app) = all_keypers (app_Configs app)"

section \<open>Configs\<close>

lemma wf_configs_nonempty: "wf_configs cs \<Longrightarrow> cs \<noteq> []"
  by (simp add: wf_configs_def)

lemma LastConfig_last: "app_Configs app \<noteq> [] \<Longrightarrow> LastConfig app = Inr (last (app_Configs app))"
  by (simp add: LastConfig_def)

lemma wf_configs_index_unique:
  assumes "wf_configs cs" "c \<in> set cs" "c' \<in> set cs" "bc_ConfigIndex c = bc_ConfigIndex c'"
  shows "c = c'"
proof -
  have "distinct (map bc_ConfigIndex cs)"
    using assms(1) strict_sorted_iff by (auto simp: wf_configs_def)
  then show ?thesis using assms(2-4) by (auto simp: distinct_map inj_on_def)
qed

text \<open>The guard element: a batch index always has a config, the last one that starts at or before it.\<close>

lemma find_first: "find P xs = Some x \<longleftrightarrow> (\<exists>us vs. xs = us @ x # vs \<and> P x \<and> (\<forall>u\<in>set us. \<not> P u))"
proof (induction xs)
  case (Cons y xs)
  show ?case
  proof (cases "P y")
    case True
    then show ?thesis by (auto simp: Cons_eq_append_conv)
  next
    case False
    then show ?thesis using Cons by (auto simp: Cons_eq_append_conv) (metis set_ConsD)
  qed
qed simp

lemma find_rev_last: "find P (rev xs) = Some x \<longleftrightarrow> (\<exists>ys zs. xs = ys @ x # zs \<and> P x \<and> (\<forall>z\<in>set zs. \<not> P z))"
proof
  assume "find P (rev xs) = Some x"
  then obtain us vs where "rev xs = us @ x # vs" "P x" "\<forall>u\<in>set us. \<not> P u" by (auto simp: find_first)
  then show "\<exists>ys zs. xs = ys @ x # zs \<and> P x \<and> (\<forall>z\<in>set zs. \<not> P z)"
    by (intro exI [of _ "rev vs"] exI [of _ "rev us"]) (auto simp: rev_swap)
next
  assume "\<exists>ys zs. xs = ys @ x # zs \<and> P x \<and> (\<forall>z\<in>set zs. \<not> P z)"
  then obtain ys zs where "xs = ys @ x # zs" "P x" "\<forall>z\<in>set zs. \<not> P z" by blast
  then show "find P (rev xs) = Some x"
    unfolding find_first by (intro exI [of _ "rev zs"] exI [of _ "rev ys"]) auto
qed

lemma getConfig_Inr_iff:
  "getConfig app i = Inr c \<longleftrightarrow> (\<exists>ys zs. app_Configs app = ys @ c # zs \<and> bc_StartBatchIndex c \<le> i \<and>
     (\<forall>z\<in>set zs. \<not> bc_StartBatchIndex z \<le> i))"
proof -
  have "getConfig app i = Inr c \<longleftrightarrow> find (\<lambda>c. bc_StartBatchIndex c \<le> i) (rev (app_Configs app)) = Some c"
    by (auto simp: getConfig_def split: option.splits)
  then show ?thesis by (simp add: find_rev_last)
qed

lemma getConfig_exists:
  assumes "wf_configs (app_Configs app)"
  shows "\<exists>c\<in>set (app_Configs app). getConfig app i = Inr c"
proof -
  let ?P = "\<lambda>c. bc_StartBatchIndex c \<le> i"
  have "hd (app_Configs app) \<in> set (app_Configs app)" "?P (hd (app_Configs app))"
    using assms by (auto simp: wf_configs_def)
  then have "find ?P (rev (app_Configs app)) \<noteq> None" by (auto simp: find_None_iff)
  then obtain c where "find ?P (rev (app_Configs app)) = Some c" by blast
  then show ?thesis using find_rev_last [of ?P "app_Configs app" c] by (auto simp: getConfig_def)
qed

lemma checkConfig_Inr:
  "app_Configs app \<noteq> [] \<Longrightarrow> checkConfig app c = Inr u \<longleftrightarrow> EnsureValid c = None \<and>
     bc_StartBatchIndex (last (app_Configs app)) \<le> bc_StartBatchIndex c \<and>
     bc_ConfigIndex (last (app_Configs app)) < bc_ConfigIndex c"
  by (auto simp: checkConfig_def LastConfig_last split: option.splits)

lemma wf_configs_snoc:
  assumes wf: "wf_configs cs" and c: "EnsureValid c = None" "bc_StartBatchIndex (last cs) \<le> bc_StartBatchIndex c"
    "bc_ConfigIndex (last cs) < bc_ConfigIndex c"
  shows "wf_configs (cs @ [c])" "\<forall>d\<in>set cs. bc_ConfigIndex d < bc_ConfigIndex c"
proof -
  obtain ds l where cs: "cs = ds @ [l]" using wf by (metis rev_exhaust wf_configs_nonempty)
  have "\<forall>d\<in>set ds. bc_ConfigIndex d < bc_ConfigIndex l" "\<forall>d\<in>set ds. bc_StartBatchIndex d \<le> bc_StartBatchIndex l"
    using wf by (auto simp: wf_configs_def cs sorted_wrt_append)
  then have lt: "\<forall>d\<in>set cs. bc_ConfigIndex d < bc_ConfigIndex c"
    "\<forall>d\<in>set cs. bc_StartBatchIndex d \<le> bc_StartBatchIndex c"
    using c(2,3) by (auto simp: cs)
  then show "wf_configs (cs @ [c])"
    using wf c(1) by (auto simp: wf_configs_def sorted_wrt_append)
  show "\<forall>d\<in>set cs. bc_ConfigIndex d < bc_ConfigIndex c" by (rule lt(1))
qed

text \<open>Replacing the last config by one that differs only in its flags keeps everything.\<close>

definition same_but_flags :: "BatchConfig \<Rightarrow> BatchConfig \<Rightarrow> bool" where
  "same_but_flags c d \<longleftrightarrow>
     (\<exists>s u. d = c \<lparr> bc_Started := s, bc_ValidatorsUpdated := u \<rparr>)"

lemma same_but_flags_fields:
  assumes "same_but_flags c d"
  shows "bc_Keypers d = bc_Keypers c" "bc_Threshold d = bc_Threshold c" "bc_ConfigIndex d = bc_ConfigIndex c"
    "bc_StartBatchIndex d = bc_StartBatchIndex c" "EnsureValid d = EnsureValid c" "required_votes d = required_votes c"
  using assms by (auto simp: same_but_flags_def EnsureValid_def required_votes_def)


text \<open>The parts of the invariant look at configs up to their flags.\<close>

definition same_configs :: "BatchConfig list \<Rightarrow> BatchConfig list \<Rightarrow> bool" where
  "same_configs cs ds \<longleftrightarrow> list_all2 same_but_flags cs ds"

lemma same_but_flags_refl [simp]: "same_but_flags c c"
  unfolding same_but_flags_def by (intro exI [of _ "bc_Started c"] exI [of _ "bc_ValidatorsUpdated c"]) simp

lemma same_configs_mem: "same_configs cs ds \<Longrightarrow> c \<in> set cs \<Longrightarrow> \<exists>d\<in>set ds. same_but_flags c d"
  unfolding same_configs_def by (auto simp: list_all2_conv_all_nth in_set_conv_nth) (metis nth_mem)

lemma same_configs_maps:
  assumes "same_configs cs ds"
  shows "map bc_StartBatchIndex ds = map bc_StartBatchIndex cs" "map bc_ConfigIndex ds = map bc_ConfigIndex cs"
    "map bc_Keypers ds = map bc_Keypers cs" "map EnsureValid ds = map EnsureValid cs"
    "map required_votes ds = map required_votes cs" "length ds = length cs"
  using assms unfolding same_configs_def
  by (auto simp: list_all2_conv_all_nth same_but_flags_fields intro!: nth_equalityI)

lemma wf_configs_same:
  assumes s: "same_configs cs ds" and w: "wf_configs cs"
  shows "wf_configs ds"
proof -
  have ne: "ds \<noteq> []" using same_configs_maps(6) [OF s] w by (auto simp: wf_configs_def)
  have "bc_StartBatchIndex (hd ds) = 0"
    using same_configs_maps(1) [OF s] w ne by (metis wf_configs_def hd_map)
  moreover have "EnsureValid ` set ds = EnsureValid ` set cs"
    using same_configs_maps(4) [OF s] by (metis list.set_map)
  then have "\<forall>c\<in>set ds. EnsureValid c = None" using w by (auto simp: wf_configs_def)
  ultimately show ?thesis
    using w ne same_configs_maps(1,2) [OF s] by (simp add: wf_configs_def)
qed

lemma same_configs_last:
  assumes "same_configs cs ds" "cs \<noteq> []"
  shows "same_but_flags (last cs) (last ds)"
proof -
  have "length ds = length cs" using assms(1) by (rule same_configs_maps(6))
  then have "ds \<noteq> []" using assms(2) by auto
  then show ?thesis using assms by (simp add: same_configs_def list_all2_conv_all_nth last_conv_nth)
qed

lemma config_voting_ok_same:
  "same_configs cs ds \<Longrightarrow> cs \<noteq> [] \<Longrightarrow> config_voting_ok cs v \<Longrightarrow> config_voting_ok ds v"
  using same_but_flags_fields [OF same_configs_last] by (simp add: config_voting_ok_def)

lemma eon_votings_ok_same:
  assumes "same_configs cs ds" "eon_votings_ok cs vs"
  shows "eon_votings_ok ds vs"
  unfolding eon_votings_ok_def
proof (intro allI impI)
  fix i v
  assume "vs i = Some v"
  then obtain c where c: "c \<in> set cs" "bc_ConfigIndex c = i" "eon_voting_ok c v"
    using assms(2) by (auto simp: eon_votings_ok_def)
  then obtain d where "d \<in> set ds" "same_but_flags c d" using same_configs_mem [OF assms(1)] by blast
  then show "\<exists>c\<in>set ds. bc_ConfigIndex c = i \<and> eon_voting_ok c v"
    using c same_but_flags_fields by (auto simp: eon_voting_ok_def intro!: bexI [of _ d])
qed

lemma batches_ok_same:
  assumes "same_configs cs ds" "batches_ok cs bss"
  shows "batches_ok ds bss"
  using assms(2) same_configs_mem [OF assms(1)] same_but_flags_fields(1)
  unfolding batches_ok_def by metis

lemma dkgs_ok_same:
  assumes "same_configs cs ds" "dkgs_ok cs m"
  shows "dkgs_ok ds m"
  unfolding dkgs_ok_def
proof (intro allI impI conjI)
  fix e d
  assume m: "m e = Some d"
  then show "dkg_Eon d = e" using assms(2) by (simp add: dkgs_ok_def)
  obtain c where c: "c \<in> set cs" "bc_Keypers c = bc_Keypers (dkg_Config d)"
    "bc_Threshold c = bc_Threshold (dkg_Config d)"
    using m assms(2) unfolding dkgs_ok_def by blast
  then obtain c' where "c' \<in> set ds" "same_but_flags c c'" using same_configs_mem [OF assms(1)] by blast
  then show "\<exists>c\<in>set ds. bc_Keypers c = bc_Keypers (dkg_Config d) \<and> bc_Threshold c = bc_Threshold (dkg_Config d)"
    using c same_but_flags_fields(1,2) by (intro bexI [of _ c']) auto
qed

lemma all_keypers_same: "same_configs cs ds \<Longrightarrow> all_keypers ds = all_keypers cs"
  using same_configs_maps(3) [of cs ds] unfolding all_keypers_def by (metis image_image list.set_map)

lemma same_configs_replace_last:
  assumes "cs \<noteq> []" "same_but_flags (last cs) d"
  shows "same_configs cs (butlast cs @ [d])"
proof -
  have "list_all2 same_but_flags (butlast cs @ [last cs]) (butlast cs @ [d])"
    using assms(2) by (intro list_all2_appendI) (simp_all add: list_all2_refl)
  then show ?thesis using assms(1) by (simp add: same_configs_def)
qed

lemmas same_configs_ok = wf_configs_same config_voting_ok_same eon_votings_ok_same batches_ok_same
  dkgs_ok_same all_keypers_same

text \<open>More configs at the end do no harm.\<close>

lemma configs_snoc_ok:
  "eon_votings_ok cs vs \<Longrightarrow> eon_votings_ok (cs @ [c]) vs"
  "batches_ok cs bss \<Longrightarrow> batches_ok (cs @ [c]) bss"
  "dkgs_ok cs m \<Longrightarrow> dkgs_ok (cs @ [c]) m"
  "config_voting_ok (cs @ [c]) NewConfigVoting"
  unfolding eon_votings_ok_def batches_ok_def dkgs_ok_def config_voting_ok_def
  by (fastforce, fastforce, fastforce, simp)

section \<open>The first state\<close>

lemma EnsureValid_keypers: "EnsureValid c = None \<Longrightarrow> bc_Keypers c \<noteq> []"
  by (simp add: EnsureValid_None_iff)

lemma updateCheckTxMembers_members:
  "ct_Members (app_CheckTxState (updateCheckTxMembers app)) = all_keypers (app_Configs app)"
  by (simp add: updateCheckTxMembers_def SetMembers_def all_keypers_def)

lemma updateCheckTxMembers_frame [frame_simps]:
  "app_Configs (updateCheckTxMembers app) = app_Configs app"
  "app_ConfigVoting (updateCheckTxMembers app) = app_ConfigVoting app"
  "app_EonStartVotings (updateCheckTxMembers app) = app_EonStartVotings app"
  "app_BatchStates (updateCheckTxMembers app) = app_BatchStates app"
  "app_DKGMap (updateCheckTxMembers app) = app_DKGMap app"
  "app_StartedVotes (updateCheckTxMembers app) = app_StartedVotes app"
  "app_Validators (updateCheckTxMembers app) = app_Validators app"
  "app_EONCounter (updateCheckTxMembers app) = app_EONCounter app"
  "app_NonceTracker (updateCheckTxMembers app) = app_NonceTracker app"
  "app_Identities (updateCheckTxMembers app) = app_Identities app"
  "app_ChainID (updateCheckTxMembers app) = app_ChainID app"
  by (simp_all add: updateCheckTxMembers_def)

lemma InitChain_inv:
  assumes i: "InitChain U req NewShielderApp = Inr app"
  shows "app_inv app"
proof -
  obtain g where g: "U (req_AppStateBytes req) = Inr g"
    using i by (auto simp: InitChain_def split: if_err_splits)
  let ?bc = "emptyBatchConfig \<lparr> bc_StartBatchIndex := 0, bc_Keypers := GetKeypers g, bc_Threshold := gs_Threshold g \<rparr>"
  have v: "EnsureValid ?bc = None"
    using i g by (auto simp: InitChain_def Let_def split: option.splits)
  obtain pm where pm: "MakePowermap (req_Validators req) = Inr pm"
    and app: "app = updateCheckTxMembers (NewShielderApp \<lparr> app_Validators := pm, app_Configs := [?bc],
        app_CheckTxState := NewCheckTxState \<rparr>) \<lparr> app_ChainID := req_ChainId req \<rparr>"
    using i g v by (auto simp: InitChain_def Let_def NewShielderApp_def emptyBatchConfig_def split: if_err_splits)
  have "wf_configs [?bc]" using v by (simp add: wf_configs_def)
  moreover have "config_voting_ok [?bc] NewConfigVoting" by (simp add: config_voting_ok_def)
  ultimately show ?thesis
    using MakePowermap_wf [OF pm]
    by (simp add: app app_inv_def frame_simps updateCheckTxMembers_members)
      (simp add: NewShielderApp_def eon_votings_ok_def batches_ok_def dkgs_ok_def)
qed

end
