(* ===== verification/AppSteps.thy ===== *)
theory AppSteps
  imports AppInv
begin

text \<open>
  What each ABCI call does to a state that satisfies the invariant: it keeps the invariant, does not
  panic, and its result does not depend on the order in which maps are ranged. Then the chain as a
  step relation and the states it can reach.
\<close>

section \<open>Batch config votes\<close>

text \<open>The state after a config is accepted.\<close>

definition accepted :: "BatchConfig \<Rightarrow> ShielderApp \<Rightarrow> ShielderApp" where
  "accepted bc app =
     (let app3 = updateCheckTxMembers (app \<lparr> app_ConfigVoting := NewConfigVoting,
                    app_Configs := app_Configs app @ [bc] \<rparr>)
      in if ShouldStartDKG app3 bc then snd (StartDKG bc app3) else app3)"

lemma checkConfig_frame: "checkConfig (app \<lparr> app_ConfigVoting := v \<rparr>) c = checkConfig app c"
  by (simp add: checkConfig_def LastConfig_def split: option.split)

lemma app_voting_twice [simp]:
  "app \<lparr> app_ConfigVoting := v, app_Configs := c \<rparr> = app \<lparr> app_Configs := c, app_ConfigVoting := v \<rparr>"
  by simp

text \<open>
  A config message leaves the state alone, adds a vote, or adds the config it carries; the error
  branch after the outcome is never taken.
\<close>

lemma deliverBatchConfig_cases:
  assumes ne: "app_Configs app \<noteq> []" and d: "deliverBatchConfig R E msg s app = Inr (r, app')"
  shows "app' = app \<or> resp_Code r = 0 \<and> (\<exists>bc v. BatchConfigFromMessage E msg = Inr bc \<and> checkConfig app bc = Inr () \<and>
      IsKeyper (last (app_Configs app)) s \<and> ConfigVoting_AddVote s bc (app_ConfigVoting app) = Inr v \<and>
      (ConfigVoting_Outcome R v (required_votes (last (app_Configs app))) = None \<and>
         app' = app \<lparr> app_ConfigVoting := v \<rparr> \<or>
       ConfigVoting_Outcome R v (required_votes (last (app_Configs app))) \<noteq> None \<and> app' = accepted bc app))"
proof (cases "app' = app")
  case False
  let ?last = "last (app_Configs app)"
  obtain bc where bc: "BatchConfigFromMessage E msg = Inr bc"
    using d False by (auto simp: deliverBatchConfig_def split: if_err_splits)
  have n: "?last \<noteq> bc" using d False bc by (auto simp: deliverBatchConfig_def LastConfig_last [OF ne])
  have c: "checkConfig app bc = Inr ()"
    using d False bc n by (auto simp: deliverBatchConfig_def LastConfig_last [OF ne] split: if_err_splits)
  have k: "IsKeyper ?last s"
    using d False bc n c by (auto simp: deliverBatchConfig_def LastConfig_last [OF ne] IsKeyper_def
        allowedToVoteOnConfigChanges_def split: if_splits)
  obtain v where v: "ConfigVoting_AddVote s bc (app_ConfigVoting app) = Inr v"
    using d False bc n c k by (auto simp: deliverBatchConfig_def LastConfig_last [OF ne] IsKeyper_def
        allowedToVoteOnConfigChanges_def split: if_err_splits)
  have "addConfig bc (app \<lparr> app_ConfigVoting := NewConfigVoting \<rparr>)
      = Inr (updateCheckTxMembers (app \<lparr> app_ConfigVoting := NewConfigVoting, app_Configs := app_Configs app @ [bc] \<rparr>))"
    using c by (simp add: addConfig_def checkConfig_frame)
  then have "app' = (case ConfigVoting_Outcome R v (required_votes ?last) of
      None \<Rightarrow> app \<lparr> app_ConfigVoting := v \<rparr> | Some _ \<Rightarrow> accepted bc app)" "resp_Code r = 0"
    using d bc n c k v by (auto simp: deliverBatchConfig_def LastConfig_last [OF ne] IsKeyper_def
        allowedToVoteOnConfigChanges_def Let_def required_votes_def accepted_def okResponse_def
        split: option.splits if_splits result_bind_splits prod.splits)
  then show ?thesis using bc c k v by (auto split: option.splits)
qed simp

lemma StartDKG_frame [frame_simps]:
  "app_Configs (snd (StartDKG c app)) = app_Configs app"
  "app_ConfigVoting (snd (StartDKG c app)) = app_ConfigVoting app"
  "app_EonStartVotings (snd (StartDKG c app)) = app_EonStartVotings app"
  "app_BatchStates (snd (StartDKG c app)) = app_BatchStates app"
  "app_StartedVotes (snd (StartDKG c app)) = app_StartedVotes app"
  "app_Validators (snd (StartDKG c app)) = app_Validators app"
  "app_CheckTxState (snd (StartDKG c app)) = app_CheckTxState app"
  "app_NonceTracker (snd (StartDKG c app)) = app_NonceTracker app"
  "app_Identities (snd (StartDKG c app)) = app_Identities app"
  "app_ChainID (snd (StartDKG c app)) = app_ChainID app"
  "app_EONCounter (snd (StartDKG c app)) = app_EONCounter app + 1"
  "fst (StartDKG c app) = NewDKGInstance c (app_EONCounter app + 1)"
  "app_DKGMap (snd (StartDKG c app)) =
     (app_DKGMap app)(app_EONCounter app + 1 \<mapsto> NewDKGInstance c (app_EONCounter app + 1))"
  by (simp_all add: StartDKG_def Let_def NewDKGInstance_def)

lemma StartDKG_Configs: "StartDKG c app = (dkg, app') \<Longrightarrow> app_Configs app' = app_Configs app"
  using StartDKG_frame(1) [of c app] by simp

lemma dkgs_ok_new: "dkgs_ok cs m \<Longrightarrow> c \<in> set cs \<Longrightarrow> dkgs_ok cs (m(e \<mapsto> NewDKGInstance c e))"
  by (auto simp: dkgs_ok_def NewDKGInstance_def)

lemma StartDKG_inv [inv_intros]:
  "app_inv app \<Longrightarrow> c \<in> set (app_Configs app) \<Longrightarrow> app_inv (snd (StartDKG c app))"
  by (simp add: app_inv_def frame_simps dkgs_ok_new)

lemma accepted_Configs [simp]: "app_Configs (accepted bc app) = app_Configs app @ [bc]"
  by (simp add: accepted_def Let_def frame_simps)

lemma accepted_inv [inv_intros]:
  assumes inv: "app_inv app" and c: "checkConfig app bc = Inr ()"
  shows "app_inv (accepted bc app)"
proof -
  let ?app3 = "updateCheckTxMembers (app \<lparr> app_ConfigVoting := NewConfigVoting,
      app_Configs := app_Configs app @ [bc] \<rparr>)"
  have ne: "app_Configs app \<noteq> []" using inv by (simp add: app_inv_def wf_configs_def)
  have "wf_configs (app_Configs app @ [bc])"
    using inv c by (intro wf_configs_snoc) (simp_all add: checkConfig_Inr [OF ne] app_inv_def)
  then have "app_inv ?app3"
    using inv by (simp add: app_inv_def frame_simps updateCheckTxMembers_members configs_snoc_ok)
  moreover have "bc \<in> set (app_Configs ?app3)" by (simp add: frame_simps)
  ultimately show ?thesis using StartDKG_inv by (simp add: accepted_def Let_def)
qed

lemma app_inv_ne [simp]: "app_inv app \<Longrightarrow> app_Configs app \<noteq> []"
  by (simp add: app_inv_def wf_configs_def)

lemma deliverBatchConfig_inv [inv_intros]:
  assumes inv: "app_inv app" and R: "orders_ok R" and d: "deliverBatchConfig R E msg s app = Inr (r, app')"
  shows "app_inv app'"
proof -
  let ?last = "last (app_Configs app)"
  consider "app' = app" | bc v where "ConfigVoting_AddVote s bc (app_ConfigVoting app) = Inr v"
      "IsKeyper ?last s" "ConfigVoting_Outcome R v (required_votes ?last) = None" "app' = app \<lparr> app_ConfigVoting := v \<rparr>"
    | bc where "checkConfig app bc = Inr ()" "app' = accepted bc app"
    using deliverBatchConfig_cases [OF app_inv_ne [OF inv] d] by blast
  then show ?thesis
  proof cases
    case 2
    have "wf_ConfigVoting (app_ConfigVoting app)" "dom (config_choice (app_ConfigVoting app)) \<subseteq> set (bc_Keypers ?last)"
      using inv by (auto simp: app_inv_def config_voting_ok_def)
    then have "config_voting_ok (app_Configs app) v"
      using ConfigVoting_AddVote_spec(1) [OF _ 2(1)] config_ballot.outcome_None_undecided [OF R _ 2(3)] 2(2)
      by (auto simp: config_voting_ok_def IsKeyper_iff)
    then show ?thesis using inv 2(4) by (simp add: app_inv_def)
  qed (use inv accepted_inv in auto)
qed

text \<open>The accepted config is the outcome of the vote, and enough keypers of the last config backed it.\<close>

lemma accepted_config_backed:
  assumes inv: "app_inv app" and R: "orders_ok R" and d: "deliverBatchConfig R E msg s app = Inr (r, app')"
    and new: "app_Configs app' \<noteq> app_Configs app"
  shows "\<exists>bc v. BatchConfigFromMessage E msg = Inr bc \<and> app_Configs app' = app_Configs app @ [bc] \<and>
     ConfigVoting_AddVote s bc (app_ConfigVoting app) = Inr v \<and>
     ConfigVoting_Outcome R v (required_votes (last (app_Configs app))) = Some bc \<and>
     {a. config_choice v a = Some bc} \<subseteq> set (bc_Keypers (last (app_Configs app))) \<and>
     required_votes (last (app_Configs app)) \<le> int (card {a. config_choice v a = Some bc})"
proof -
  let ?last = "last (app_Configs app)"
  obtain bc v where bc: "BatchConfigFromMessage E msg = Inr bc" "IsKeyper ?last s"
      "ConfigVoting_AddVote s bc (app_ConfigVoting app) = Inr v"
      "ConfigVoting_Outcome R v (required_votes ?last) \<noteq> None" "app' = accepted bc app"
    using deliverBatchConfig_cases [OF app_inv_ne [OF inv] d] new by auto
  have old: "wf_ConfigVoting (app_ConfigVoting app)"
    "config_ballot.undecided (app_ConfigVoting app) (required_votes ?last)"
    "dom (config_choice (app_ConfigVoting app)) \<subseteq> set (bc_Keypers ?last)"
    using inv by (auto simp: app_inv_def config_voting_ok_def)
  have v: "wf_ConfigVoting v" "config_choice v = (config_choice (app_ConfigVoting app))(s \<mapsto> bc)"
    using ConfigVoting_AddVote_spec(1) [OF old(1) bc(3)] by auto
  obtain d where d: "ConfigVoting_Outcome R v (required_votes ?last) = Some d" using bc(4) by blast
  have "d = bc" using config_ballot.winner_is_last_vote [OF old(2,1) v(1) R v(2) d] .
  then have o: "ConfigVoting_Outcome R v (required_votes ?last) = Some bc" using d by simp
  have "required_votes ?last \<le> int (card {a. config_choice v a = Some bc})"
    using config_ballot.outcome_Some [OF R v(1) o] by blast
  moreover have "{a. config_choice v a = Some bc} \<subseteq> set (bc_Keypers ?last)"
    using old(3) bc(2) by (auto simp: v(2) IsKeyper_iff split: if_splits)
  ultimately show ?thesis using bc o by auto
qed

section \<open>The other handlers\<close>

lemma deliverCheckIn_inv [inv_intros]:
  "app_inv app \<Longrightarrow> deliverCheckIn E msg s app = Inr (r, app') \<Longrightarrow> app_inv app'"
  by (auto simp: deliverCheckIn_def app_inv_def Let_def split: if_splits if_err_splits)

lemma deliverBatchConfigStarted_inv [inv_intros]:
  "app_inv app \<Longrightarrow> deliverBatchConfigStarted i s app = Inr (r, app') \<Longrightarrow> app_inv app'"
  by (auto simp: deliverBatchConfigStarted_def app_inv_def Let_def split: if_splits result_bind_splits)

lemma eon_votings_ok_update:
  "eon_votings_ok cs vs \<Longrightarrow> c \<in> set cs \<Longrightarrow> eon_voting_ok c v \<Longrightarrow> eon_votings_ok cs (vs(bc_ConfigIndex c \<mapsto> v))"
  by (auto simp: eon_votings_ok_def)

lemma eon_votings_ok_delete: "eon_votings_ok cs vs \<Longrightarrow> eon_votings_ok cs (vs(i := None))"
  by (auto simp: eon_votings_ok_def)

text \<open>The voting of a config, before and after one more vote.\<close>

lemma eon_vote_step:
  assumes inv: "app_inv app" and c: "c \<in> set (app_Configs app)" "IsKeyper c s"
  defines "v \<equiv> case app_EonStartVotings app (bc_ConfigIndex c) of None \<Rightarrow> NewEonStartVoting | Some v \<Rightarrow> v"
  shows "eon_voting_ok c v"
    "wf_EonStartVoting (EonStartVoting_AddVote s b v)"
    "eon_choice (EonStartVoting_AddVote s b v) = (eon_choice v)(s \<mapsto> b)"
    "dom (eon_choice (EonStartVoting_AddVote s b v)) \<subseteq> set (bc_Keypers c)"
proof -
  show v: "eon_voting_ok c v"
  proof (cases "app_EonStartVotings app (bc_ConfigIndex c)")
    case None
    then show ?thesis by (simp add: v_def eon_voting_ok_def)
  next
    case (Some w)
    then obtain c' where "c' \<in> set (app_Configs app)" "bc_ConfigIndex c' = bc_ConfigIndex c" "eon_voting_ok c' w"
      using inv unfolding app_inv_def eon_votings_ok_def by blast
    then show ?thesis
      using Some wf_configs_index_unique [of "app_Configs app" c' c] inv c(1) by (simp add: v_def app_inv_def)
  qed
  then have w: "wf_EonStartVoting v" "dom (eon_choice v) \<subseteq> set (bc_Keypers c)" by (auto simp: eon_voting_ok_def)
  show a: "wf_EonStartVoting (EonStartVoting_AddVote s b v)"
    "eon_choice (EonStartVoting_AddVote s b v) = (eon_choice v)(s \<mapsto> b)"
    using EonStartVoting_AddVote_spec [OF w(1)] by simp_all
  show "dom (eon_choice (EonStartVoting_AddVote s b v)) \<subseteq> set (bc_Keypers c)"
    using w(2) c(2) by (auto simp: a(2) IsKeyper_iff)
qed

lemma countEonStartVote_frame [frame_simps]:
  "app_Configs (countEonStartVote s c b app) = app_Configs app"
  "app_NonceTracker (countEonStartVote s c b app) = app_NonceTracker app"
  by (simp_all add: countEonStartVote_def Let_def)

lemma deliverEonStartVoteMsg_cases:
  assumes inv: "app_inv app" and d: "deliverEonStartVoteMsg R b s app = Inr (r, app')"
  obtains "app' = app"
  | c v where "c \<in> set (app_Configs app)" "getConfig app b = Inr c" "IsKeyper c s"
      "v = EonStartVoting_AddVote s b (case app_EonStartVotings app (bc_ConfigIndex c) of
         None \<Rightarrow> NewEonStartVoting | Some v \<Rightarrow> v)"
      "EonStartVoting_Outcome R v (required_votes c) = None"
      "app' = app \<lparr> app_EonStartVotings := (app_EonStartVotings app)(bc_ConfigIndex c \<mapsto> v) \<rparr>"
  | c v start where "c \<in> set (app_Configs app)" "getConfig app b = Inr c" "IsKeyper c s"
      "v = EonStartVoting_AddVote s b (case app_EonStartVotings app (bc_ConfigIndex c) of
         None \<Rightarrow> NewEonStartVoting | Some v \<Rightarrow> v)"
      "EonStartVoting_Outcome R v (required_votes c) = Some start"
      "app' = snd (StartDKG c (app \<lparr> app_EonStartVotings := (app_EonStartVotings app)(bc_ConfigIndex c := None) \<rparr>))"
      "r = okResponse [eonStartedEvent (app_EONCounter app + 1) start]"
proof -
  obtain c where c: "c \<in> set (app_Configs app)" "getConfig app b = Inr c"
    using getConfig_exists [of app b] inv by (auto simp: app_inv_def)
  let ?v = "EonStartVoting_AddVote s b (case app_EonStartVotings app (bc_ConfigIndex c) of
         None \<Rightarrow> NewEonStartVoting | Some v \<Rightarrow> v)"
  show thesis
  proof (cases "IsKeyper c s")
    case False
    then show thesis using that(1) d c by (simp add: deliverEonStartVoteMsg_def)
  next
    case True
    show thesis
    proof (cases "EonStartVoting_Outcome R ?v (required_votes c)")
      case None
      then show thesis using that(2) [OF c True refl None] d c True
        by (simp add: deliverEonStartVoteMsg_def countEonStartVote_def maybeStartEon_def required_votes_def Let_def)
    next
      case (Some start)
      then show thesis using that(3) [OF c True refl Some] d c True
        by (simp add: deliverEonStartVoteMsg_def countEonStartVote_def maybeStartEon_def required_votes_def Let_def
            StartDKG_def NewDKGInstance_def)
    qed
  qed
qed

lemma deliverEonStartVoteMsg_inv [inv_intros]:
  assumes inv: "app_inv app" and R: "orders_ok R" and d: "deliverEonStartVoteMsg R b s app = Inr (r, app')"
  shows "app_inv app'"
  using inv d
proof (cases rule: deliverEonStartVoteMsg_cases)
  case 1
  then show ?thesis using inv by simp
next
  case (2 c v)
  have "eon_voting_ok c v"
    using eon_vote_step(2,4) [OF inv 2(1,3), of b] 2(4) eon_ballot.outcome_None_undecided [OF R _ 2(5)]
    by (simp add: eon_voting_ok_def)
  then show ?thesis using inv 2(1,6) by (simp add: app_inv_def eon_votings_ok_update)
next
  case (3 c v start)
  let ?app1 = "app \<lparr> app_EonStartVotings := (app_EonStartVotings app)(bc_ConfigIndex c := None) \<rparr>"
  have "app_inv ?app1" using inv by (simp add: app_inv_def eon_votings_ok_delete)
  then have "app_inv (snd (StartDKG c ?app1))" by (rule StartDKG_inv) (simp add: 3(1))
  then show ?thesis by (simp add: 3(6))
qed

lemma deliverDecryptionSignature_inv [inv_intros]:
  assumes inv: "app_inv app" and d: "deliverDecryptionSignature E msg s app = Inr (r, app')"
  shows "app_inv app'"
proof -
  let ?i = "sds_BatchIndex msg"
  obtain bs where bs: "getBatchState app ?i = Inr bs"
    using d by (auto simp: deliverDecryptionSignature_def split: result_bind_splits)
  have old: "wf_BatchState bs \<and> bs_BatchIndex bs = ?i \<and>
     (\<exists>c\<in>set (app_Configs app). bc_Keypers c = bc_Keypers (bs_Config bs))"
  proof (cases "app_BatchStates app ?i")
    case None
    then obtain c where "getConfig app ?i = Inr c"
      "bs = \<lparr> bs_BatchIndex = ?i, bs_Config = c, bs_DecryptionSignatures = [] \<rparr>"
      using bs by (auto simp: getBatchState_def split: result_bind_splits)
    moreover then have "c \<in> set (app_Configs app)" by (auto simp: getConfig_Inr_iff)
    ultimately show ?thesis by (auto simp: wf_BatchState_def)
  next
    case (Some bs')
    then show ?thesis using bs inv by (simp add: getBatchState_def app_inv_def batches_ok_def)
  qed
  show ?thesis
  proof (cases "AddDecryptionSignature \<lparr> sig_Sender = s, sig_Signature = sds_Signature msg \<rparr> bs")
    case (Inl e)
    then show ?thesis using d bs inv
      by (cases e) (auto simp: deliverDecryptionSignature_def)
  next
    case (Inr bs')
    then have "bs_BatchIndex bs' = bs_BatchIndex bs" "bs_Config bs' = bs_Config bs"
      by (auto simp: AddDecryptionSignature_def split: if_splits)
    then have "batches_ok (app_Configs app) ((app_BatchStates app)(?i \<mapsto> bs'))"
      using old AddDecryptionSignature_wf [OF _ Inr] inv by (simp add: batches_ok_def app_inv_def)
    moreover have "app' = app \<lparr> app_BatchStates := (app_BatchStates app)(?i \<mapsto> bs') \<rparr>"
      using d bs Inr by (auto simp: deliverDecryptionSignature_def Let_def)
    ultimately show ?thesis using inv by (simp add: app_inv_def)
  qed
qed

text \<open>The handlers of the key generation replace the instance of an eon by one with the same config.\<close>

lemma handleDKGMsg_cases:
  assumes "handleDKGMsg parsed eon register event app = Inr (r, app')"
  obtains "app' = app" "resp_Code r = 1"
  | m d d' where "parsed = Inr m" "app_DKGMap app (eon m) = Some d" "register m d = Inr d'"
      "app' = app \<lparr> app_DKGMap := (app_DKGMap app)(eon m \<mapsto> d') \<rparr>" "r = okResponse [event m]"
proof (cases parsed rule: no_panic.cases)
  case (1 p)
  then show thesis using assms by (simp add: handleDKGMsg_def)
next
  case (2 e)
  then show thesis using assms that(1) by (auto simp: handleDKGMsg_def makeErrorResponse_def)
next
  case (3 m)
  show thesis
  proof (cases "app_DKGMap app (eon m)")
    case None
    then show thesis using assms 3 that(1) by (auto simp: handleDKGMsg_def makeErrorResponse_def)
  next
    case (Some d)
    show thesis
    proof (cases "register m d" rule: no_panic.cases)
      case (3 d')
      then show thesis
        using assms \<open>parsed = Inr m\<close> Some that(2) [of m d d'] by (simp add: handleDKGMsg_def)
    qed (use assms 3 Some that(1) in \<open>auto simp: handleDKGMsg_def makeErrorResponse_def\<close>)
  qed
qed

lemma handleDKGMsg_inv:
  assumes inv: "app_inv app" and h: "handleDKGMsg parsed eon register event app = Inr (r, app')"
    and same: "\<And>m d d'. register m d = Inr d' \<Longrightarrow> dkg_Config d' = dkg_Config d \<and> dkg_Eon d' = dkg_Eon d"
  shows "app_inv app'"
  using h
proof (cases rule: handleDKGMsg_cases)
  case 1
  then show ?thesis using inv by simp
next
  case (2 m d d')
  then have "dkgs_ok (app_Configs app) ((app_DKGMap app)(eon m \<mapsto> d'))"
    using inv same [OF 2(3)] by (auto simp: dkgs_ok_def app_inv_def)
  then show ?thesis using inv 2(4) by (simp add: app_inv_def)
qed

lemma handlers_inv [inv_intros]:
  assumes "app_inv app"
  shows "handlePolyEvalMsg E pe s app = Inr (r, app') \<Longrightarrow> app_inv app'"
    "handlePolyCommitmentMsg B E pcm s app = Inr (r, app') \<Longrightarrow> app_inv app'"
    "handleAccusationMsg E acc s app = Inr (r, app') \<Longrightarrow> app_inv app'"
    "handleApologyMsg E apo s app = Inr (r, app') \<Longrightarrow> app_inv app'"
    "handleEpochSecretKeyShareMsg B E sks s app = Inr (r, app') \<Longrightarrow> app_inv app'"
proof -
  show "handlePolyEvalMsg E pe s app = Inr (r, app') \<Longrightarrow> app_inv app'"
    unfolding handlePolyEvalMsg_def
    by (rule handleDKGMsg_inv [OF assms]) (auto dest: poly_eval_register.frame)
  show "handlePolyCommitmentMsg B E pcm s app = Inr (r, app') \<Longrightarrow> app_inv app'"
    unfolding handlePolyCommitmentMsg_def
    by (rule handleDKGMsg_inv [OF assms]) (auto dest: poly_commitment_register.frame)
  show "handleAccusationMsg E acc s app = Inr (r, app') \<Longrightarrow> app_inv app'"
    unfolding handleAccusationMsg_def
    by (rule handleDKGMsg_inv [OF assms]) (auto dest: accusation_register.frame)
  show "handleApologyMsg E apo s app = Inr (r, app') \<Longrightarrow> app_inv app'"
    unfolding handleApologyMsg_def
    by (rule handleDKGMsg_inv [OF assms]) (auto dest: apology_register.frame)
  show "handleEpochSecretKeyShareMsg B E sks s app = Inr (r, app') \<Longrightarrow> app_inv app'"
    using assms by (auto simp: handleEpochSecretKeyShareMsg_def split: if_err_splits)
qed

section \<open>DeliverTx and CheckTx\<close>

lemma deliverMessage_inv [inv_intros]:
  assumes inv: "app_inv app" and R: "orders_ok R" and d: "deliverMessage R B E m s app = Inr (r, app')"
  shows "app_inv app'"
proof (cases "\<exists>p. m = Some (Some p)")
  case True
  then obtain p where "m = Some (Some p)" by blast
  then show ?thesis
    using d by (cases p) (auto intro: deliverBatchConfig_inv [OF inv R] deliverEonStartVoteMsg_inv [OF inv R]
        deliverBatchConfigStarted_inv [OF inv] deliverCheckIn_inv [OF inv] deliverDecryptionSignature_inv [OF inv]
        handlers_inv [OF inv])
next
  case False
  then have "m = None \<or> m = Some None" by (cases m) auto
  then show ?thesis using d inv by auto
qed

lemma app_inv_nonce [simp]: "app_inv (app \<lparr> app_NonceTracker := t \<rparr>) \<longleftrightarrow> app_inv app"
  by (simp add: app_inv_def)

lemma DeliverTx_cases:
  assumes "DeliverTx R B E P tx app = Inr (r, app')"
  obtains "app' = app" "resp_Code r = 1"
  | signer msg where "decodeTx E P tx = Inr (signer, msg)" "mwn_ChainId msg = app_ChainID app"
      "NonceTracker_Check (app_NonceTracker app) signer (mwn_RandomNonce msg)"
      "deliverMessage R B E (mwn_Msg msg) signer (app \<lparr> app_NonceTracker :=
         NonceTracker_Add signer (mwn_RandomNonce msg) (app_NonceTracker app) \<rparr>) = Inr (r, app')"
proof (cases "decodeTx E P tx" rule: no_panic.cases)
  case (1 p)
  then show thesis using assms by (simp add: DeliverTx_def)
next
  case (2 e)
  then show thesis using assms that(1) by (auto simp: DeliverTx_def makeErrorResponse_def)
next
  case (3 sm)
  obtain signer msg where sm: "sm = (signer, msg)" by (cases sm)
  show thesis using assms that 3
    by (simp add: sm DeliverTx_def makeErrorResponse_def split: if_splits) auto
qed

lemma DeliverTx_inv [inv_intros]:
  "app_inv app \<Longrightarrow> orders_ok R \<Longrightarrow> DeliverTx R B E P tx app = Inr (r, app') \<Longrightarrow> app_inv app'"
  by (erule DeliverTx_cases) (blast intro: deliverMessage_inv app_inv_nonce [THEN iffD2])+

lemma CheckTx_inv [inv_intros]:
  "app_inv app \<Longrightarrow> CheckTx E P tx app = Inr (c, app') \<Longrightarrow> app_inv app'"
  using AddTx_state(3)
  by (auto simp: CheckTx_def app_inv_def Let_def split: if_err_splits prod.splits if_splits)
    (metis snd_conv)+

section \<open>EndBlock, Commit\<close>

lemma makePowermap_wf: "wf_map (makePowermap app ks)"
proof -
  let ?f = "\<lambda>pm k. case app_Identities app k of Some pk \<Rightarrow> add_power pk 10 pm
       | None \<Rightarrow> add_power NonExistentValidator 10 pm"
  have "wf_map pm \<Longrightarrow> wf_map (foldl ?f pm ks)" for pm
    by (induction ks arbitrary: pm) (auto split: option.splits)
  then show ?thesis by (simp add: makePowermap_def)
qed

lemma CurrentValidators_wf: "wf_map (app_Validators app) \<Longrightarrow> wf_map (CurrentValidators app)"
  by (simp add: CurrentValidators_def makePowermap_wf split: option.split)

text \<open>The last config after \<open>EndBlock\<close>.\<close>

definition ended :: "ShielderApp \<Rightarrow> BatchConfig" where
  "ended app =
     (let lastConfig = last (app_Configs app);
          c1 = (if enoughStartedVotes app then lastConfig \<lparr> bc_Started := True \<rparr> else lastConfig)
      in if bc_Started c1 \<and> \<not> bc_ValidatorsUpdated c1 \<and>
            countCheckedInKeypers app (bc_Keypers c1) \<ge> bc_Threshold c1
         then c1 \<lparr> bc_ValidatorsUpdated := True \<rparr> else c1)"

lemma ended_same: "same_but_flags (last (app_Configs app)) (ended app)"
proof -
  let ?l = "last (app_Configs app)"
  have "\<exists>s u. ended app = ?l \<lparr> bc_Started := s, bc_ValidatorsUpdated := u \<rparr>"
    by (simp add: ended_def Let_def)
      (metis BatchConfig.surjective BatchConfig.update_convs(7) BatchConfig.update_convs(8))
  then show ?thesis by (simp add: same_but_flags_def)
qed

lemma EndBlock_eq:
  assumes "app_Configs app \<noteq> []"
  shows "EndBlock R h app = Inr
    (let app1 = app \<lparr> app_Configs := butlast (app_Configs app) @ [ended app],
           app_StartedVotes := (if enoughStartedVotes app then {} else app_StartedVotes app) \<rparr>;
         newValidators = CurrentValidators app1
     in (if app_DevMode app then [] else ValidatorUpdates (ord_powers R)
           (DiffPowermaps (ord_powers R) (app_Validators app) newValidators),
         app1 \<lparr> app_Validators := newValidators, app_LastBlockHeight := h \<rparr>))"
  by (simp add: EndBlock_def LastConfig_last [OF assms] ended_def Let_def)

lemma EndBlock_inv [inv_intros]:
  assumes inv: "app_inv app" and e: "EndBlock R h app = Inr (us, app')"
  shows "app_inv app'"
proof -
  let ?cs = "butlast (app_Configs app) @ [ended app]"
  have ne: "app_Configs app \<noteq> []" using inv by simp
  have s: "same_configs (app_Configs app) ?cs" by (rule same_configs_replace_last [OF ne ended_same])
  have w: "wf_map (CurrentValidators a)" if "app_Validators a = app_Validators app" for a
    using inv that by (intro CurrentValidators_wf) (simp add: app_inv_def)
  show ?thesis
    using inv e w same_configs_ok [OF s] ne
    by (auto simp: EndBlock_eq [OF ne] Let_def app_inv_def)
qed

lemma Commit_inv [inv_intros]: "app_inv app \<Longrightarrow> app_inv (Commit now D app)"
  by (simp add: Commit_def maybePersistToDisk_def PersistToDisk_def CheckTxState_Reset_def app_inv_def
      Let_def split: option.split)

section \<open>The chain\<close>

text \<open>
  One step is one ABCI call; the map orders, the transaction, the clock and the disk are arbitrary.
  Replicas start from an initialized chain.
\<close>

inductive chain_step ::
  "('g1, 'g2, 'gt) bn256 \<Rightarrow> ('pk, 'sk, 'ek, 'dk) eth \<Rightarrow> proto \<Rightarrow> ShielderApp \<Rightarrow> ShielderApp \<Rightarrow> bool"
  for B E P where
  deliver_tx: "orders_ok R \<Longrightarrow> DeliverTx R B E P tx app = Inr (r, app') \<Longrightarrow> chain_step B E P app app'"
| check_tx: "CheckTx E P tx app = Inr (code, app') \<Longrightarrow> chain_step B E P app app'"
| end_block: "orders_ok R \<Longrightarrow> EndBlock R height app = Inr (us, app') \<Longrightarrow> chain_step B E P app app'"
| commit: "chain_step B E P app (Commit now D app)"

inductive_cases chain_stepE: "chain_step B E P app app'"

inductive chain_run ::
  "('g1, 'g2, 'gt) bn256 \<Rightarrow> ('pk, 'sk, 'ek, 'dk) eth \<Rightarrow> proto \<Rightarrow> ShielderApp \<Rightarrow> ShielderApp \<Rightarrow> bool"
  for B E P where
  run_refl: "chain_run B E P app app"
| run_step: "chain_run B E P app app' \<Longrightarrow> chain_step B E P app' app'' \<Longrightarrow> chain_run B E P app app''"

definition reachable ::
  "(bytes \<Rightarrow> GenesisAppState result) \<Rightarrow> ('g1, 'g2, 'gt) bn256 \<Rightarrow> ('pk, 'sk, 'ek, 'dk) eth \<Rightarrow> proto \<Rightarrow> ShielderApp \<Rightarrow> bool" where
  "reachable U B E P app \<longleftrightarrow>
     (\<exists>req app0. InitChain U req NewShielderApp = Inr app0 \<and> chain_run B E P app0 app)"

lemma chain_step_inv [inv_intros]: "chain_step B E P app app' \<Longrightarrow> app_inv app \<Longrightarrow> app_inv app'"
  by (erule chain_stepE) (auto intro: DeliverTx_inv CheckTx_inv EndBlock_inv Commit_inv)

lemma chain_run_inv: "chain_run B E P app app' \<Longrightarrow> app_inv app \<Longrightarrow> app_inv app'"
  by (induction rule: chain_run.induct) (auto intro: chain_step_inv)

lemma reachable_inv: "reachable U B E P app \<Longrightarrow> app_inv app"
  unfolding reachable_def using chain_run_inv InitChain_inv by blast

section \<open>No panics\<close>

lemma no_panic_simple [simp]: "EnsureValid c = Some e \<Longrightarrow> no_panic (Inl e)"
  "EnsureUniqueAddresses as = Some e \<Longrightarrow> no_panic (Inl e)"
  "no_panic (NewValidatorPubkey k)" "no_panic (validateAddress E d)"
proof -
  show "EnsureValid c = Some e \<Longrightarrow> no_panic (Inl e)" by (auto simp: EnsureValid_def split: if_splits)
  have "EnsureUniqueAddresses_loop seen as = Some e \<Longrightarrow> no_panic (Inl e)" for seen
    by (induction seen as rule: EnsureUniqueAddresses_loop.induct) (auto split: if_splits)
  then show "EnsureUniqueAddresses as = Some e \<Longrightarrow> no_panic (Inl e)" by (auto simp: EnsureUniqueAddresses_def)
qed (simp_all add: NewValidatorPubkey_def validateAddress_def)

lemma no_panic_parse:
  "no_panic (BatchConfigFromMessage E bcm)" "no_panic (ParsePolyEvalMsg E pe s)"
  "no_panic (ParsePolyCommitmentMsg B pcm s)" "no_panic (ParseAccusationMsg E acc s)"
  "no_panic (ParseApologyMsg E apo s)" "no_panic (ParseEpochSecretKeyShareMsg B sks s)"
proof -
  show "no_panic (BatchConfigFromMessage E bcm)"
    unfolding BatchConfigFromMessage_def by (rule no_panic_bind) (auto split: option.split)
  show "no_panic (ParsePolyEvalMsg E pe s)"
    unfolding ParsePolyEvalMsg_def by (simp, intro impI no_panic_bind no_panic_collect) (auto split: option.split)
  show "no_panic (ParseAccusationMsg E acc s)"
    unfolding ParseAccusationMsg_def by (rule no_panic_bind) (auto split: option.split)
  show "no_panic (ParseApologyMsg E apo s)"
    unfolding ParseApologyMsg_def by (simp, intro impI no_panic_bind no_panic_collect) (auto split: option.split)
  show "no_panic (ParsePolyCommitmentMsg B pcm s)"
    unfolding ParsePolyCommitmentMsg_def by (rule no_panic_bind) (auto split: option.split)
  show "no_panic (ParseEpochSecretKeyShareMsg B sks s)"
    unfolding ParseEpochSecretKeyShareMsg_def G1Key_GobDecode_def
    by (rule no_panic_bind) (auto split: option.split)
qed

lemma no_panic_checkConfig: "app_Configs app \<noteq> [] \<Longrightarrow> no_panic (checkConfig app c)"
  by (auto simp: checkConfig_def LastConfig_last split: option.split)

lemma no_panic_first_error: "(\<And>x e. f x = Some e \<Longrightarrow> no_panic (Inl e :: 'b result)) \<Longrightarrow>
    first_error f xs = Some e \<Longrightarrow> no_panic (Inl e :: 'b result)"
  using first_error_SomeD by metis

lemma no_panic_register:
  "no_panic (RegisterPolyEvalMsg pe d)" "no_panic (RegisterPolyCommitmentMsg pcm d)"
  "no_panic (RegisterAccusationMsg acc d)" "no_panic (RegisterApologyMsg apo d)"
  by (auto simp: RegisterPolyEvalMsg_def RegisterPolyCommitmentMsg_def RegisterAccusationMsg_def
      RegisterApologyMsg_def Let_def simp del: first_error_None_iff split: option.split if_splits
      elim!: no_panic_first_error [rotated])

lemma no_panic_deliverBatchConfig:
  assumes inv: "app_inv app"
  shows "no_panic (deliverBatchConfig R E msg s app)"
proof -
  have ne: "app_Configs app \<noteq> []" using inv by simp
  have "no_panic (ConfigVoting_AddVote s bc v)" for bc v
    by (auto simp: ConfigVoting_AddVote_def Let_def split: option.split)
  then show ?thesis
    using no_panic_checkConfig [OF ne] no_panic_parse(1)
    unfolding deliverBatchConfig_def LastConfig_last [OF ne] allowedToVoteOnConfigChanges_def
    by (intro no_panic_if_err no_panic_bind)
      (auto simp: Let_def addConfig_def checkConfig_frame frame_simps LastConfig_def
        split: option.split prod.split result_bind_split
        intro!: no_panic_if_err no_panic_bind dest: no_panicD dest!: StartDKG_Configs)
qed

lemma no_panic_handleDKGMsg:
  "no_panic parsed \<Longrightarrow> (\<And>m d. no_panic (register m d)) \<Longrightarrow> no_panic (handleDKGMsg parsed eon register event app)"
  unfolding handleDKGMsg_def by (rule no_panic_if_err) (auto split: option.split)

lemma no_panic_getConfig: "app_inv app \<Longrightarrow> no_panic (getConfig app i)"
  using getConfig_exists [of app i] by (auto simp: app_inv_def)

lemma no_panic_getBatchState: "app_inv app \<Longrightarrow> no_panic (getBatchState app i)"
  using no_panic_getConfig by (auto simp: getBatchState_def split: option.split)

lemma no_panic_deliverMessage:
  assumes inv: "app_inv app" and E: "eth_ok E"
  shows "no_panic (deliverMessage R B E m s app)"
proof (cases "\<exists>p. m = Some (Some p)")
  case True
  then obtain p where m: "m = Some (Some p)" by blast
  have ne: "app_Configs app \<noteq> []" using inv by simp
  have "no_panic (deliverEonStartVoteMsg R i s app)" for i
    unfolding deliverEonStartVoteMsg_def
    by (rule no_panic_bind [OF no_panic_getConfig [OF inv]]) (auto simp: Let_def split: prod.split option.split)
  moreover have "no_panic (deliverBatchConfigStarted i s app)" for i
    by (simp add: deliverBatchConfigStarted_def LastConfig_last [OF ne] Let_def)
  moreover have "no_panic (deliverCheckIn E ci s app)" for ci
    using eth_no_panic(1) [OF E] by (auto simp: deliverCheckIn_def Let_def intro!: no_panic_if_err)
  moreover have "no_panic (AddDecryptionSignature sg bs)" for sg bs
    by (simp add: AddDecryptionSignature_def)
  then have "no_panic (deliverDecryptionSignature E ds s app)" for ds
    unfolding deliverDecryptionSignature_def Let_def
    by (intro no_panic_bind no_panic_if_err no_panic_getBatchState [OF inv]) auto
  ultimately show ?thesis
    using no_panic_deliverBatchConfig [OF inv] no_panic_parse no_panic_register
    by (cases p) (auto simp: m handlePolyEvalMsg_def handlePolyCommitmentMsg_def handleAccusationMsg_def
        handleApologyMsg_def handleEpochSecretKeyShareMsg_def intro!: no_panic_handleDKGMsg no_panic_if_err)
next
  case False
  then have "m = None \<or> m = Some None" by (cases m) auto
  then show ?thesis by auto
qed

lemma no_panic_case_sum:
  "no_panic x \<Longrightarrow> (\<And>v. no_panic (k v)) \<Longrightarrow> no_panic (case x of Inl e \<Rightarrow> Inl e | Inr v \<Rightarrow> k v)"
  by (cases x rule: no_panic.cases) auto

lemma b64_no_panic: "no_panic (b64_DecodeString s)"
proof -
  have "no_panic (b64_decode_values vs)" for vs
    by (induction vs rule: b64_decode_values.induct) (auto split: sum.split)
  then show ?thesis unfolding b64_DecodeString_def Let_def
    by (intro no_panic_case_sum no_panic_collect) (auto split: option.split)
qed

lemma no_panic_decodeTx: "eth_ok E \<Longrightarrow> proto_ok P \<Longrightarrow> no_panic (decodeTx E P tx)"
proof -
  assume E: "eth_ok E" and P: "proto_ok P"
  have "no_panic (GetSigner E P d)" for d
    unfolding GetSigner_def Let_def
    by (cases "length d < SignatureLength") (auto intro!: no_panic_case_sum eth_no_panic(2) [OF E])
  moreover have "no_panic (GetMessage P d)" if "GetSigner E P d = Inr a" for d a
    using GetMessage_no_panic [OF that] P by (simp add: proto_ok_def)
  ultimately show "no_panic (decodeTx E P tx)"
    unfolding decodeTx_def by (intro no_panic_bind b64_no_panic) auto
qed

lemma DeliverTx_no_panic:
  assumes "app_inv app" "eth_ok E" "proto_ok P"
  shows "no_panic (DeliverTx R B E P tx app)"
  unfolding DeliverTx_def
  by (intro no_panic_if_err no_panic_decodeTx assms) (auto intro!: no_panic_deliverMessage assms split: prod.split)

lemma CheckTx_no_panic: "eth_ok E \<Longrightarrow> proto_ok P \<Longrightarrow> no_panic (CheckTx E P tx app)"
  unfolding CheckTx_def by (intro no_panic_if_err no_panic_decodeTx) (auto simp: Let_def split: prod.split)

lemma no_panic_Inr_ex: "no_panic x \<Longrightarrow> (\<exists>v. x = Inr v) \<or> (\<exists>e. x = Inl (Errorf e))"
  by (cases x rule: no_panic.cases) auto

section \<open>Agreement of replicas\<close>

text \<open>The order in which a replica ranges over its maps does not change what it computes.\<close>

lemma deliverBatchConfig_deterministic:
  assumes inv: "app_inv app" and R: "orders_ok R" "orders_ok R'"
  shows "deliverBatchConfig R E msg s app = deliverBatchConfig R' E msg s app"
proof -
  have ne: "app_Configs app \<noteq> []" using inv by simp
  have old: "wf_ConfigVoting (app_ConfigVoting app)"
    "config_ballot.undecided (app_ConfigVoting app) (sint (bc_Threshold (last (app_Configs app))))"
    using inv by (auto simp: app_inv_def config_voting_ok_def required_votes_def)
  have "ConfigVoting_Outcome R v (sint (bc_Threshold (last (app_Configs app))))
      = ConfigVoting_Outcome R' v (sint (bc_Threshold (last (app_Configs app))))"
    if "ConfigVoting_AddVote s bc (app_ConfigVoting app) = Inr v" for bc v
    using ConfigVoting_AddVote_spec(1) [OF old(1) that]
    by (intro config_ballot.outcome_order_independent [OF old(2,1) _ R]) blast+
  then show ?thesis
    by (auto simp: deliverBatchConfig_def LastConfig_last [OF ne] Let_def split: if_err_split result_bind_split)
qed

lemma maybeStartEon_deterministic:
  assumes inv: "app_inv app" and R: "orders_ok R" "orders_ok R'" and c: "c \<in> set (app_Configs app)" "IsKeyper c s"
  shows "maybeStartEon R c (countEonStartVote s c b app) = maybeStartEon R' c (countEonStartVote s c b app)"
proof -
  let ?v = "case app_EonStartVotings app (bc_ConfigIndex c) of None \<Rightarrow> NewEonStartVoting | Some v \<Rightarrow> v"
  have "eon_ballot.undecided ?v (sint (bc_Threshold c))" "wf_EonStartVoting ?v"
    using eon_vote_step(1) [OF inv c] by (auto simp: eon_voting_ok_def required_votes_def)
  then have "EonStartVoting_Outcome R (EonStartVoting_AddVote s b ?v) (sint (bc_Threshold c))
      = EonStartVoting_Outcome R' (EonStartVoting_AddVote s b ?v) (sint (bc_Threshold c))"
    using eon_vote_step(2,3) [OF inv c] by (intro eon_ballot.outcome_order_independent [OF _ _ _ R])
  then show ?thesis by (simp add: maybeStartEon_def countEonStartVote_def Let_def)
qed

lemma deliverEonStartVoteMsg_deterministic:
  assumes inv: "app_inv app" and R: "orders_ok R" "orders_ok R'"
  shows "deliverEonStartVoteMsg R b s app = deliverEonStartVoteMsg R' b s app"
proof -
  obtain c where c: "c \<in> set (app_Configs app)" "getConfig app b = Inr c"
    using getConfig_exists [of app b] inv by (auto simp: app_inv_def)
  show ?thesis
    using maybeStartEon_deterministic [OF inv R c(1)]
    by (simp add: deliverEonStartVoteMsg_def c(2))
qed

lemma deliverMessage_deterministic:
  assumes "app_inv app" "orders_ok R" "orders_ok R'"
  shows "deliverMessage R B E m s app = deliverMessage R' B E m s app"
  using deliverBatchConfig_deterministic [OF assms] deliverEonStartVoteMsg_deterministic [OF assms]
  by (cases "(R, B, E, m, s, app)" rule: deliverMessage.cases) simp_all

lemma DeliverTx_deterministic:
  assumes "app_inv app" "orders_ok R" "orders_ok R'"
  shows "DeliverTx R B E P tx app = DeliverTx R' B E P tx app"
proof -
  have "deliverMessage R B E m s (app \<lparr> app_NonceTracker := t \<rparr>)
      = deliverMessage R' B E m s (app \<lparr> app_NonceTracker := t \<rparr>)" for m s t
    by (rule deliverMessage_deterministic [OF _ assms(2,3)]) (simp add: assms(1))
  then show ?thesis unfolding DeliverTx_def by (auto split: if_err_split)
qed

lemma EndBlock_deterministic:
  assumes inv: "app_inv app" and R: "orders_ok R" "orders_ok R'"
  shows "EndBlock R h app = EndBlock R' h app"
proof -
  have ne: "app_Configs app \<noteq> []" using inv by simp
  have r: "ranging (ord_powers R)" "ranging (ord_powers R')" using R by (simp_all add: orders_ok_def)
  have w: "wf_map (app_Validators app)" using inv by (simp add: app_inv_def)
  then have "wf_map (CurrentValidators a)" if "app_Validators a = app_Validators app" for a
    using that by (intro CurrentValidators_wf) simp
  then show ?thesis
    using updates_order_independent [OF r w] by (simp add: EndBlock_eq [OF ne] Let_def)
qed

section \<open>Replay of transactions\<close>

lemma handlers_nonce [frame_simps]:
  "deliverBatchConfigStarted i s app = Inr (r, app') \<Longrightarrow> app_NonceTracker app' = app_NonceTracker app"
  "deliverCheckIn E ci s app = Inr (r, app') \<Longrightarrow> app_NonceTracker app' = app_NonceTracker app"
  "deliverDecryptionSignature E ds s app = Inr (r, app') \<Longrightarrow> app_NonceTracker app' = app_NonceTracker app"
  "handleEpochSecretKeyShareMsg B E sks s app = Inr (r, app') \<Longrightarrow> app_NonceTracker app' = app_NonceTracker app"
  by (auto simp: deliverBatchConfigStarted_def deliverCheckIn_def deliverDecryptionSignature_def
      handleEpochSecretKeyShareMsg_def Let_def split: if_splits result_bind_splits if_err_splits)

lemma handleDKGMsg_nonce:
  "handleDKGMsg parsed eon register event app = Inr (r, app') \<Longrightarrow> app_NonceTracker app' = app_NonceTracker app"
  by (erule handleDKGMsg_cases) auto

lemma accepted_nonce: "app_NonceTracker (accepted bc app) = app_NonceTracker app"
  by (simp add: accepted_def Let_def frame_simps)

lemma deliverMessage_nonce:
  assumes inv: "app_inv app" and d: "deliverMessage R B E m s app = Inr (r, app')"
  shows "app_NonceTracker app' = app_NonceTracker app"
proof (cases "\<exists>p. m = Some (Some p)")
  case True
  then obtain p where m: "m = Some (Some p)" by blast
  show ?thesis
  proof (cases p)
    case (Message_BatchConfig bm)
    then show ?thesis
      using d deliverBatchConfig_cases [OF app_inv_ne [OF inv], of R E bm s r app'] by (auto simp: m accepted_nonce)
  next
    case (Message_EonStartVote b)
    then have "deliverEonStartVoteMsg R b s app = Inr (r, app')" using d by (simp add: m)
    with inv show ?thesis by (cases rule: deliverEonStartVoteMsg_cases) (auto simp: frame_simps)
  qed (use d in \<open>auto simp: m handlePolyEvalMsg_def handlePolyCommitmentMsg_def handleAccusationMsg_def
      handleApologyMsg_def dest: handlers_nonce handleDKGMsg_nonce\<close>)
next
  case False
  then have "m = None \<or> m = Some None" by (cases m) auto
  then show ?thesis using d by auto
qed

definition nonce_used :: "ShielderApp \<Rightarrow> address \<Rightarrow> u64 \<Rightarrow> bool" where
  "nonce_used app a n \<longleftrightarrow> \<not> NonceTracker_Check (app_NonceTracker app) a n"

lemma DeliverTx_nonce_used:
  assumes inv: "app_inv app" and d: "DeliverTx R B E P tx app = Inr (r, app')"
  shows "nonce_used app a n \<Longrightarrow> nonce_used app' a n"
    "decodeTx E P tx = Inr (a, msg) \<Longrightarrow> resp_Code r = 0 \<Longrightarrow> nonce_used app' a (mwn_RandomNonce msg)"
proof -
  note * = deliverMessage_nonce [OF app_inv_nonce [THEN iffD2, OF inv]]
  show "nonce_used app a n \<Longrightarrow> nonce_used app' a n"
    using d by (cases rule: DeliverTx_cases) (auto simp: nonce_used_def dest!: *)
  show "decodeTx E P tx = Inr (a, msg) \<Longrightarrow> resp_Code r = 0 \<Longrightarrow> nonce_used app' a (mwn_RandomNonce msg)"
    using d by (cases rule: DeliverTx_cases) (auto simp: nonce_used_def dest!: *)
qed

lemma nonce_used_step:
  assumes "chain_step B E P app app'" "app_inv app" "nonce_used app a n"
  shows "nonce_used app' a n"
  using assms(1)
proof (cases rule: chain_step.cases)
  case (deliver_tx R tx r)
  then show ?thesis using DeliverTx_nonce_used(1) [OF assms(2)] assms(3) by blast
next
  case (check_tx tx code)
  then show ?thesis using assms(3)
    by (auto simp: CheckTx_def nonce_used_def Let_def split: if_err_splits prod.splits if_splits)
next
  case (end_block R height us)
  then show ?thesis using assms(3)
    by (auto simp: EndBlock_eq [OF app_inv_ne [OF assms(2)]] nonce_used_def Let_def)
next
  case (commit now D)
  then show ?thesis using assms(3)
    by (auto simp: Commit_def maybePersistToDisk_def PersistToDisk_def nonce_used_def Let_def split: option.split)
qed

lemma nonce_used_run: "chain_run B E P app app' \<Longrightarrow> app_inv app \<Longrightarrow> nonce_used app a n \<Longrightarrow> nonce_used app' a n"
  by (induction rule: chain_run.induct) (auto intro: nonce_used_step chain_run_inv)

lemma replay_rejected_now:
  assumes "decodeTx E P tx = Inr (a, msg)" "nonce_used app a (mwn_RandomNonce msg)"
  shows "\<exists>r. DeliverTx R B E P tx app = Inr (r, app) \<and> resp_Code r = 1 \<and> CheckTx E P tx app = Inr (1, app)"
  using assms by (auto simp: DeliverTx_def CheckTx_def nonce_used_def makeErrorResponse_def)

section \<open>Configs are only added\<close>

lemma same_configs_refl: "same_configs cs cs"
  by (simp add: same_configs_def list_all2_refl)

definition extends_configs :: "BatchConfig list \<Rightarrow> BatchConfig list \<Rightarrow> bool" where
  "extends_configs cs ds \<longleftrightarrow> (\<exists>es. same_configs (cs @ es) ds)"

lemma same_but_flags_trans: "same_but_flags a b \<Longrightarrow> same_but_flags b c \<Longrightarrow> same_but_flags a c"
  unfolding same_but_flags_def by (elim exE) (simp, intro exI, rule refl)

lemma extends_configs_refl: "extends_configs cs cs"
  unfolding extends_configs_def by (rule exI [of _ "[]"]) (simp add: same_configs_refl)

lemma extends_configs_trans:
  assumes "extends_configs cs ds" "extends_configs ds es"
  shows "extends_configs cs es"
proof -
  obtain x y where x: "same_configs (cs @ x) ds" and y: "same_configs (ds @ y) es"
    using assms by (auto simp: extends_configs_def)
  have "list_all2 same_but_flags (cs @ x @ y) (ds @ y)"
    using x unfolding same_configs_def append_assoc [symmetric]
    by (intro list_all2_appendI) (simp_all add: list_all2_refl)
  then have "list_all2 same_but_flags (cs @ x @ y) es"
    using y unfolding same_configs_def by (auto simp: list_all2_conv_all_nth intro: same_but_flags_trans)
  then show ?thesis unfolding extends_configs_def same_configs_def by blast
qed

lemma handlers_Configs:
  "deliverBatchConfigStarted i s app = Inr (r, app') \<Longrightarrow> app_Configs app' = app_Configs app"
  "deliverCheckIn E ci s app = Inr (r, app') \<Longrightarrow> app_Configs app' = app_Configs app"
  "deliverDecryptionSignature E ds s app = Inr (r, app') \<Longrightarrow> app_Configs app' = app_Configs app"
  "handleEpochSecretKeyShareMsg B E sks s app = Inr (r, app') \<Longrightarrow> app_Configs app' = app_Configs app"
  "handleDKGMsg parsed eon register event app = Inr (r, app') \<Longrightarrow> app_Configs app' = app_Configs app"
  by (auto simp: deliverBatchConfigStarted_def deliverCheckIn_def deliverDecryptionSignature_def
      handleEpochSecretKeyShareMsg_def Let_def split: if_splits result_bind_splits if_err_splits
      elim!: handleDKGMsg_cases)

text \<open>Only a config message adds a config.\<close>

lemma deliverMessage_Configs:
  assumes inv: "app_inv app" and d: "deliverMessage R B E m s app = Inr (r, app')"
  shows "app_Configs app' = app_Configs app \<or>
    (\<exists>bm bc. m = Some (Some (Message_BatchConfig bm)) \<and> deliverBatchConfig R E bm s app = Inr (r, app') \<and>
       app_Configs app' = app_Configs app @ [bc])"
proof (cases "\<exists>p. m = Some (Some p)")
  case True
  then obtain p where m: "m = Some (Some p)" by blast
  show ?thesis
  proof (cases p)
    case (Message_BatchConfig bm)
    then show ?thesis
      using d deliverBatchConfig_cases [OF app_inv_ne [OF inv], of R E bm s r app'] by (auto simp: m)
  next
    case (Message_EonStartVote b)
    then have "deliverEonStartVoteMsg R b s app = Inr (r, app')" using d by (simp add: m)
    with inv show ?thesis by (cases rule: deliverEonStartVoteMsg_cases) (auto simp: frame_simps)
  qed (use d in \<open>auto simp: m handlePolyEvalMsg_def handlePolyCommitmentMsg_def handleAccusationMsg_def
      handleApologyMsg_def dest: handlers_Configs\<close>)
next
  case False
  then have "m = None \<or> m = Some None" by (cases m) auto
  then show ?thesis using d by auto
qed

lemma chain_step_extends:
  assumes "chain_step B E P app app'" "app_inv app"
  shows "extends_configs (app_Configs app) (app_Configs app')"
  using assms(1)
proof (cases rule: chain_step.cases)
  case (deliver_tx R tx r)
  from deliver_tx(2) show ?thesis
  proof (cases rule: DeliverTx_cases)
    case 1
    then show ?thesis by (simp add: extends_configs_refl)
  next
    case (2 signer msg)
    have "app_Configs app' = app_Configs app \<or> (\<exists>bc. app_Configs app' = app_Configs app @ [bc])"
      using deliverMessage_Configs [OF app_inv_nonce [THEN iffD2, OF assms(2)] 2(4)] by auto
    then show ?thesis
      by (auto simp: extends_configs_refl) (auto simp: extends_configs_def intro!: same_configs_refl exI)
  qed
next
  case (check_tx tx code)
  then have "app_Configs app' = app_Configs app"
    by (auto simp: CheckTx_def Let_def split: if_err_splits prod.splits if_splits)
  then show ?thesis by (simp add: extends_configs_refl)
next
  case (end_block R height us)
  have ne: "app_Configs app \<noteq> []" using assms(2) by simp
  have "app_Configs app' = butlast (app_Configs app) @ [ended app]"
    using end_block by (auto simp: EndBlock_eq [OF ne] Let_def)
  then show ?thesis
    using same_configs_replace_last [OF ne ended_same]
    unfolding extends_configs_def by (intro exI [of _ "[]"]) simp
next
  case (commit now D)
  then have "app_Configs app' = app_Configs app"
    by (auto simp: Commit_def maybePersistToDisk_def PersistToDisk_def Let_def split: option.split)
  then show ?thesis by (simp add: extends_configs_refl)
qed

lemma chain_run_extends:
  "chain_run B E P app app' \<Longrightarrow> app_inv app \<Longrightarrow> extends_configs (app_Configs app) (app_Configs app')"
  by (induction rule: chain_run.induct)
    (auto intro: extends_configs_refl extends_configs_trans chain_step_extends chain_run_inv)

end
