(* ===== verification/PureDKG.thy ===== *)
theory PureDKG
  imports Keys
begin

text \<open>
  \<open>keyper/puredkg/puredkg.go\<close>: the distributed key generation, as one keyper runs it. The struct
  \<open>PureDKG\<close> is the record of the same name, a Go slice of pointers a list of options, the key of an
  accusation the pair of accuser and accused. Every method returns the next state beside its result;
  an index out of range and the wrong phase are panics.
\<close>

section \<open>Data\<close>

datatype Phase = Off | Dealing | Accusing | Apologizing | Finalized

text \<open>The Go constants count from 0.\<close>

fun phase_num :: "Phase \<Rightarrow> nat" where
  "phase_num Off = 0"
| "phase_num Dealing = 1"
| "phase_num Accusing = 2"
| "phase_num Apologizing = 3"
| "phase_num Finalized = 4"

lemma phase_num_inject [simp]: "phase_num p = phase_num q \<longleftrightarrow> p = q"
  by (cases p; cases q) simp_all

instantiation Phase :: linorder
begin

definition less_eq_Phase :: "Phase \<Rightarrow> Phase \<Rightarrow> bool" where
  "less_eq_Phase p q \<longleftrightarrow> phase_num p \<le> phase_num q"

definition less_Phase :: "Phase \<Rightarrow> Phase \<Rightarrow> bool" where
  "less_Phase p q \<longleftrightarrow> phase_num p < phase_num q"

instance
proof
  fix p q :: Phase
  assume "p \<le> q" "q \<le> p"
  then have "phase_num p = phase_num q" by (simp add: less_eq_Phase_def)
  then show "p = q" by simp
qed (auto simp: less_eq_Phase_def less_Phase_def)

end

fun Phase_String :: "Phase \<Rightarrow> string" where
  "Phase_String Off = ''Off''"
| "Phase_String Dealing = ''Dealing''"
| "Phase_String Accusing = ''Accusing''"
| "Phase_String Apologizing = ''Apologizing''"
| "Phase_String Finalized = ''Finalized''"

record 'g2 Result =
  res_Eon :: u64
  res_NumKeypers :: u64
  res_Threshold :: u64
  res_Keyper :: u64
  res_SecretKeyShare :: int
  res_PublicKey :: 'g2
  res_PublicKeyShares :: "'g2 list"

record 'g2 PolyCommitmentMsg =
  pcm_Eon :: u64
  pcm_Sender :: u64
  pcm_Gammas :: "'g2 list option"

record PolyEvalMsg =
  pem_Eon :: u64
  pem_Sender :: u64
  pem_Receiver :: u64
  pem_Eval :: int

record AccusationMsg =
  acm_Eon :: u64
  acm_Accuser :: u64
  acm_Accused :: u64

record ApologyMsg =
  apm_Eon :: u64
  apm_Accuser :: u64
  apm_Accused :: u64
  apm_Eval :: int

type_synonym accusationKey = "u64 \<times> u64"

record 'g2 PureDKG =
  pd_Phase :: Phase
  pd_Eon :: u64
  pd_NumKeypers :: u64
  pd_Threshold :: u64
  pd_Keyper :: u64
  pd_Polynomial :: "int list option"
  pd_Commitments :: "'g2 list option list"
  pd_Evals :: "int option list"
  pd_Accusations :: "accusationKey list"
  pd_Apologies :: "(accusationKey \<times> int) list"

text \<open>The orders in which the two maps are ranged over.\<close>

record dkg_orders =
  ord_Accusations :: "accusationKey list \<Rightarrow> accusationKey list"
  ord_Apologies :: "(accusationKey \<times> int) list \<Rightarrow> (accusationKey \<times> int) list"

definition dkg_orders_ok :: "dkg_orders \<Rightarrow> bool" where
  "dkg_orders_ok O' \<longleftrightarrow> ranging (ord_Accusations O') \<and> ranging (ord_Apologies O')"

definition index_at :: "'a list \<Rightarrow> u64 \<Rightarrow> 'a result" where
  "index_at xs i = (if unat i < length xs then Inr (xs ! unat i) else Inl (Panic ''index out of range''))"

section \<open>Phases\<close>

definition NewPureDKG :: "u64 \<Rightarrow> u64 \<Rightarrow> u64 \<Rightarrow> u64 \<Rightarrow> 'g2 PureDKG" where
  "NewPureDKG eon numKeypers threshold keyper =
     \<lparr> pd_Phase = Off, pd_Eon = eon, pd_NumKeypers = numKeypers, pd_Threshold = threshold,
       pd_Keyper = keyper, pd_Polynomial = None,
       pd_Commitments = replicate (unat numKeypers) None, pd_Evals = replicate (unat numKeypers) None,
       pd_Accusations = [], pd_Apologies = [] \<rparr>"

definition setPhase :: "Phase \<Rightarrow> 'g2 PureDKG \<Rightarrow> 'g2 PureDKG result" where
  "setPhase p pure =
     (if phase_num p \<noteq> phase_num (pd_Phase pure) + 1 then Inl (Panic ''wrong phase'')
      else Inr (pure \<lparr> pd_Phase := p \<rparr>))"

definition checkPhase :: "'g2 PureDKG \<Rightarrow> Phase \<Rightarrow> go_error option" where
  "checkPhase pure maxPhase =
     (if pd_Phase pure > maxPhase then Some (Errorf ''received msg for an earlier phase'') else None)"

definition checkEon :: "'g2 PureDKG \<Rightarrow> u64 \<Rightarrow> go_error option" where
  "checkEon pure eon =
     (if pd_Eon pure \<noteq> eon then Some (Errorf ''received msg for another eon'') else None)"

definition checkEonAndPhase :: "'g2 PureDKG \<Rightarrow> u64 \<Rightarrow> Phase \<Rightarrow> go_error option" where
  "checkEonAndPhase pure eon maxPhase =
     (case checkEon pure eon of Some err \<Rightarrow> Some err | None \<Rightarrow> checkPhase pure maxPhase)"

section \<open>Handling messages\<close>

definition HandlePolyCommitmentMsg :: "'g2 PolyCommitmentMsg \<Rightarrow> 'g2 PureDKG \<Rightarrow> 'g2 PureDKG result" where
  "HandlePolyCommitmentMsg msg pure =
     (case checkEonAndPhase pure (pcm_Eon msg) Dealing of Some err \<Rightarrow> Inl err | None \<Rightarrow>
      result_bind (index_at (pd_Commitments pure) (pcm_Sender msg)) (\<lambda>c.
      if c \<noteq> None then Inl (Errorf ''received duplicate poly commitment msg'')
      else case pcm_Gammas msg of
        None \<Rightarrow> Inl (Panic ''nil pointer'')
      | Some gammas \<Rightarrow>
          if Gammas_Degree gammas \<noteq> DegreeFromThreshold (pd_Threshold pure)
          then Inl (Errorf ''received poly commitment with unexpected degree'')
          else Inr (pure \<lparr> pd_Commitments := (pd_Commitments pure) [unat (pcm_Sender msg) := Some gammas] \<rparr>)))"

definition HandlePolyEvalMsg ::
  "('g1, 'g2, 'gt) bn256 \<Rightarrow> PolyEvalMsg \<Rightarrow> 'g2 PureDKG \<Rightarrow> 'g2 PureDKG result" where
  "HandlePolyEvalMsg B msg pure =
     (case checkEonAndPhase pure (pem_Eon msg) Dealing of Some err \<Rightarrow> Inl err | None \<Rightarrow>
      if pem_Receiver msg \<noteq> pd_Keyper pure then Inl (Errorf ''received poly eval msg for another keyper'')
      else result_bind (index_at (pd_Evals pure) (pem_Sender msg)) (\<lambda>e.
      if e \<noteq> None then Inl (Errorf ''received duplicate poly eval msg'')
      else if \<not> ValidEval B (pem_Eval msg) then Inl (Errorf ''received invalid poly eval'')
      else Inr (pure \<lparr> pd_Evals := (pd_Evals pure) [unat (pem_Sender msg) := Some (pem_Eval msg)] \<rparr>)))"

definition HandleAccusationMsg :: "AccusationMsg \<Rightarrow> 'g2 PureDKG \<Rightarrow> 'g2 PureDKG result" where
  "HandleAccusationMsg msg pure =
     (case checkEonAndPhase pure (acm_Eon msg) Accusing of Some err \<Rightarrow> Inl err | None \<Rightarrow>
      let key = (acm_Accuser msg, acm_Accused msg)
      in if key \<in> set (pd_Accusations pure) then Inl (Errorf ''received duplicate accusation'')
         else Inr (pure \<lparr> pd_Accusations := pd_Accusations pure @ [key] \<rparr>))"

definition HandleApologyMsg ::
  "('g1, 'g2, 'gt) bn256 \<Rightarrow> ApologyMsg \<Rightarrow> 'g2 PureDKG \<Rightarrow> 'g2 PureDKG result" where
  "HandleApologyMsg B msg pure =
     (case checkEonAndPhase pure (apm_Eon msg) Apologizing of Some err \<Rightarrow> Inl err | None \<Rightarrow>
      let key = (apm_Accuser msg, apm_Accused msg)
      in if map_of (pd_Apologies pure) key \<noteq> None then Inl (Errorf ''received duplicate apology'')
         else if \<not> ValidEval B (apm_Eval msg) then Inl (Errorf ''received apology with invalid poly eval'')
         else Inr (pure \<lparr> pd_Apologies := AList.update key (apm_Eval msg) (pd_Apologies pure) \<rparr>))"

section \<open>Starting the phases\<close>

text \<open>
  The loop over the receivers: the evaluation for oneself is handled at once (an error panics), the
  others become messages. \<open>int(receiver)\<close> reads the word as a signed integer.
\<close>

fun Dealing_loop ::
  "('g1, 'g2, 'gt) bn256 \<Rightarrow> int list \<Rightarrow> u64 list \<Rightarrow> PolyEvalMsg list \<Rightarrow> 'g2 PureDKG \<Rightarrow>
   (PolyEvalMsg list \<times> 'g2 PureDKG) result" where
  "Dealing_loop B polynomial [] msgs pure = Inr (msgs, pure)"
| "Dealing_loop B polynomial (receiver # receivers) msgs pure =
     result_bind (EvalForKeyper B polynomial (sint receiver)) (\<lambda>eval.
     let msg = \<lparr> pem_Eon = pd_Eon pure, pem_Sender = pd_Keyper pure, pem_Receiver = receiver, pem_Eval = eval \<rparr>
     in if receiver = pd_Keyper pure
        then (case HandlePolyEvalMsg B msg pure of
                Inl err \<Rightarrow> Inl (Panic ''poly eval for oneself'')
              | Inr pure' \<Rightarrow> Dealing_loop B polynomial receivers msgs pure')
        else Dealing_loop B polynomial receivers (msgs @ [msg]) pure)"

text \<open>The state is returned beside the result: an error of the random source leaves the phase advanced.\<close>

definition StartPhase1Dealing ::
  "('g1, 'g2, 'gt) bn256 \<Rightarrow> (nat \<Rightarrow> int result) \<Rightarrow> 'g2 PureDKG \<Rightarrow>
   ('g2 PolyCommitmentMsg \<times> PolyEvalMsg list) result \<times> 'g2 PureDKG" where
  "StartPhase1Dealing B rnd pure =
     (case setPhase Dealing pure of
        Inl p \<Rightarrow> (Inl p, pure)
      | Inr pure1 \<Rightarrow>
          (case RandomPolynomial B rnd (DegreeFromThreshold (pd_Threshold pure)) of
             Inl err \<Rightarrow> (Inl err, pure1)
           | Inr polynomial \<Rightarrow>
               (let pure2 = pure1 \<lparr> pd_Polynomial := Some polynomial \<rparr>;
                    polyCommitmentMsg = \<lparr> pcm_Eon = pd_Eon pure, pcm_Sender = pd_Keyper pure,
                                          pcm_Gammas = Some (Polynomial_Gammas B polynomial) \<rparr>
                in case Dealing_loop B polynomial (upto64 (pd_NumKeypers pure)) [] pure2 of
                     Inl p \<Rightarrow> (Inl p, pure2)
                   | Inr (polyEvalMsgs, pure3) \<Rightarrow> (Inr (polyCommitmentMsg, polyEvalMsgs), pure3))))"

definition accuses ::
  "('g1, 'g2, 'gt) bn256 \<Rightarrow> 'g2 PureDKG \<Rightarrow> int option \<Rightarrow> 'g2 list option \<Rightarrow> bool" where
  "accuses B pure eval c =
     (case (eval, c) of
        (Some e, Some gammas) \<Rightarrow> \<not> VerifyPolyEval B (sint (pd_Keyper pure)) e gammas (pd_Threshold pure)
      | _ \<Rightarrow> True)"

definition StartPhase2Accusing ::
  "('g1, 'g2, 'gt) bn256 \<Rightarrow> 'g2 PureDKG \<Rightarrow> (AccusationMsg list \<times> 'g2 PureDKG) result" where
  "StartPhase2Accusing B pure0 =
     result_bind (setPhase Accusing pure0) (\<lambda>pure.
     result_bind (collect (\<lambda>dealer.
         if dealer = pd_Keyper pure then Inr []
         else result_bind (index_at (pd_Evals pure) dealer) (\<lambda>eval.
              result_bind (index_at (pd_Commitments pure) dealer) (\<lambda>c.
              Inr (if accuses B pure eval c
                   then [\<lparr> acm_Eon = pd_Eon pure, acm_Accuser = pd_Keyper pure, acm_Accused = dealer \<rparr>]
                   else [])))) (upto64 (pd_NumKeypers pure)))
       (\<lambda>accusations. Inr (concat accusations, pure)))"

definition StartPhase3Apologizing ::
  "dkg_orders \<Rightarrow> ('g1, 'g2, 'gt) bn256 \<Rightarrow> 'g2 PureDKG \<Rightarrow> (ApologyMsg list \<times> 'g2 PureDKG) result" where
  "StartPhase3Apologizing O' B pure0 =
     result_bind (setPhase Apologizing pure0) (\<lambda>pure.
     result_bind (collect (\<lambda>(accuser, accused).
         if accused = pd_Keyper pure
         then (case pd_Polynomial pure of
                 None \<Rightarrow> Inl (Panic ''nil pointer'')
               | Some polynomial \<Rightarrow> result_bind (EvalForKeyper B polynomial (sint accuser)) (\<lambda>eval.
                   Inr [\<lparr> apm_Eon = pd_Eon pure, apm_Accuser = accuser, apm_Accused = accused, apm_Eval = eval \<rparr>]))
         else Inr []) (ord_Accusations O' (pd_Accusations pure)))
       (\<lambda>apologies. Inr (concat apologies, pure)))"

definition Finalize :: "'g2 PureDKG \<Rightarrow> 'g2 PureDKG result" where
  "Finalize pure = setPhase Finalized pure"

section \<open>The result\<close>

text \<open>The two range loops return true at the first entry that shows the dealer corrupt.\<close>

definition isCorrupt :: "('g1, 'g2, 'gt) bn256 \<Rightarrow> 'g2 PureDKG \<Rightarrow> u64 \<Rightarrow> bool result" where
  "isCorrupt B pure dealer =
     result_bind (index_at (pd_Commitments pure) dealer) (\<lambda>commitment.
     Inr (case commitment of
            None \<Rightarrow> True
          | Some c \<Rightarrow>
              (\<exists>((accuser, accused), polyEval)\<in>set (pd_Apologies pure). accused = dealer \<and>
                 \<not> VerifyPolyEval B (sint accuser) polyEval c (pd_Threshold pure)) \<or>
              (\<exists>(accuser, accused)\<in>set (pd_Accusations pure). accused = dealer \<and>
                 map_of (pd_Apologies pure) (accuser, accused) = None)))"

definition polyEval :: "dkg_orders \<Rightarrow> 'g2 PureDKG \<Rightarrow> u64 \<Rightarrow> int option result" where
  "polyEval O' pure dealer =
     (case find (\<lambda>((accuser, accused), eval). accuser = pd_Keyper pure \<and> accused = dealer)
             (ord_Apologies O' (pd_Apologies pure)) of
        Some (key, eval) \<Rightarrow> Inr (Some eval)
      | None \<Rightarrow> index_at (pd_Evals pure) dealer)"

text \<open>One round of the loop of \<open>ComputeResult\<close>: whether the dealer takes part, and what is used of it.\<close>

definition dealer_part ::
  "dkg_orders \<Rightarrow> ('g1, 'g2, 'gt) bn256 \<Rightarrow> 'g2 PureDKG \<Rightarrow> u64 \<Rightarrow> (bool \<times> 'g2 list \<times> int) result" where
  "dealer_part O' B pure dealer =
     result_bind (isCorrupt B pure dealer) (\<lambda>corrupt.
     if \<not> corrupt then
       result_bind (index_at (pd_Commitments pure) dealer) (\<lambda>commitment.
       result_bind (polyEval O' pure dealer) (\<lambda>eval.
       case (commitment, eval) of
         (Some c, Some e) \<Rightarrow>
           if \<not> VerifyPolyEval B (sint (pd_Keyper pure)) e c (pd_Threshold pure)
           then Inl (Errorf ''corrupt keyper not considered corrupt'')
           else Inr (True, c, e)
       | _ \<Rightarrow> Inl (Errorf ''corrupt keyper not considered corrupt'')))
     else Inr (False, ZeroGammas B (DegreeFromThreshold (pd_Threshold pure)), 0))"

definition ComputeResult :: "dkg_orders \<Rightarrow> ('g1, 'g2, 'gt) bn256 \<Rightarrow> 'g2 PureDKG \<Rightarrow> 'g2 Result result" where
  "ComputeResult O' B pure =
     (if pd_Phase pure < Finalized then Inl (Errorf ''dkg is not finalized yet'')
      else result_bind (collect (dealer_part O' B pure) (upto64 (pd_NumKeypers pure))) (\<lambda>parts.
        let numParticipants = length (filter fst parts);
            commitments = map (\<lambda>(_, c, _). c) parts;
            evals = map (\<lambda>(_, _, e). e) parts
        in if (of_nat numParticipants :: u64) < pd_Threshold pure
           then Inl (Errorf ''too few keypers participated'')
           else Inr \<lparr> res_Eon = pd_Eon pure,
                      res_NumKeypers = pd_NumKeypers pure,
                      res_Threshold = pd_Threshold pure,
                      res_Keyper = pd_Keyper pure,
                      res_SecretKeyShare = ComputeEonSecretKeyShare B evals,
                      res_PublicKey = ComputeEonPublicKey B commitments,
                      res_PublicKeyShares = map (\<lambda>dealer. ComputeEonPublicKeyShare B (sint dealer) commitments)
                        (upto64 (pd_NumKeypers pure)) \<rparr>))"

definition ShortInfo :: "dkg_orders \<Rightarrow> ('g1, 'g2, 'gt) bn256 \<Rightarrow> 'g2 PureDKG \<Rightarrow> string result" where
  "ShortInfo O' B pure =
     result_bind (collect (\<lambda>dealer.
         result_bind (index_at (pd_Commitments pure) dealer) (\<lambda>c.
         result_bind (polyEval O' pure dealer) (\<lambda>eval.
         result_bind (isCorrupt B pure dealer) (\<lambda>corrupt.
         Inr (c \<noteq> None \<and> c \<noteq> Some [],
              corrupt \<or> pd_Phase pure > Dealing \<and> accuses B pure eval c))))) (upto64 (pd_NumKeypers pure)))
       (\<lambda>infos.
     let numCommitments = length (filter fst infos);
         numCorrupt = length (filter snd infos)
     in Inr (''phase='' @ Phase_String (pd_Phase pure) @ ''(commitments='' @ FormatUint numCommitments @
          '', corrupt='' @ FormatUint numCorrupt @ '', accusations='' @ FormatUint (length (pd_Accusations pure)) @
          '', apologies='' @ FormatUint (length (pd_Apologies pure)) @ '')''))"

section \<open>The invariant of a run\<close>

definition wf_dkg :: "('g1, 'g2, 'gt) bn256 \<Rightarrow> 'g2 PureDKG \<Rightarrow> bool" where
  "wf_dkg B pure \<longleftrightarrow>
     length (pd_Commitments pure) = unat (pd_NumKeypers pure) \<and>
     length (pd_Evals pure) = unat (pd_NumKeypers pure) \<and>
     distinct (pd_Accusations pure) \<and> wf_map (pd_Apologies pure) \<and>
     (\<forall>c. Some c \<in> set (pd_Commitments pure) \<longrightarrow> Gammas_Degree c = DegreeFromThreshold (pd_Threshold pure)) \<and>
     (\<forall>e. Some e \<in> set (pd_Evals pure) \<longrightarrow> ValidEval B e) \<and>
     (\<forall>e\<in>snd ` set (pd_Apologies pure). ValidEval B e)"

lemma wf_NewPureDKG [inv_intros]: "wf_dkg B (NewPureDKG eon n t k)"
  by (auto simp: wf_dkg_def NewPureDKG_def)

lemma setPhase_Inr: "setPhase p pure = Inr pure' \<longleftrightarrow> phase_num p = phase_num (pd_Phase pure) + 1 \<and> pure' = pure \<lparr> pd_Phase := p \<rparr>"
  by (auto simp: setPhase_def)

lemma checkEonAndPhase_None:
  "checkEonAndPhase pure eon p = None \<longleftrightarrow> pd_Eon pure = eon \<and> pd_Phase pure \<le> p"
  by (auto simp: checkEonAndPhase_def checkEon_def checkPhase_def split: option.split)

lemma index_at_Inr: "index_at xs i = Inr x \<longleftrightarrow> unat i < length xs \<and> xs ! unat i = x"
  by (auto simp: index_at_def)

text \<open>What each handler accepts, and the one entry it adds.\<close>

lemma HandlePolyCommitmentMsg_Inr:
  "HandlePolyCommitmentMsg m pure = Inr pure' \<longleftrightarrow>
     pd_Eon pure = pcm_Eon m \<and> pd_Phase pure \<le> Dealing \<and> unat (pcm_Sender m) < length (pd_Commitments pure) \<and>
     pd_Commitments pure ! unat (pcm_Sender m) = None \<and>
     (\<exists>g. pcm_Gammas m = Some g \<and> Gammas_Degree g = DegreeFromThreshold (pd_Threshold pure) \<and>
        pure' = pure \<lparr> pd_Commitments := (pd_Commitments pure) [unat (pcm_Sender m) := Some g] \<rparr>)"
  using checkEonAndPhase_None [of pure "pcm_Eon m" Dealing]
  by (cases "checkEonAndPhase pure (pcm_Eon m) Dealing"; cases "pcm_Gammas m")
    (auto simp: HandlePolyCommitmentMsg_def index_at_def)

lemma HandlePolyEvalMsg_Inr:
  "HandlePolyEvalMsg B m pure = Inr pure' \<longleftrightarrow>
     pd_Eon pure = pem_Eon m \<and> pd_Phase pure \<le> Dealing \<and> pem_Receiver m = pd_Keyper pure \<and>
     unat (pem_Sender m) < length (pd_Evals pure) \<and> pd_Evals pure ! unat (pem_Sender m) = None \<and>
     ValidEval B (pem_Eval m) \<and>
     pure' = pure \<lparr> pd_Evals := (pd_Evals pure) [unat (pem_Sender m) := Some (pem_Eval m)] \<rparr>"
  using checkEonAndPhase_None [of pure "pem_Eon m" Dealing]
  by (cases "checkEonAndPhase pure (pem_Eon m) Dealing") (auto simp: HandlePolyEvalMsg_def index_at_def)

lemma HandleAccusationMsg_Inr:
  "HandleAccusationMsg m pure = Inr pure' \<longleftrightarrow>
     pd_Eon pure = acm_Eon m \<and> pd_Phase pure \<le> Accusing \<and>
     (acm_Accuser m, acm_Accused m) \<notin> set (pd_Accusations pure) \<and>
     pure' = pure \<lparr> pd_Accusations := pd_Accusations pure @ [(acm_Accuser m, acm_Accused m)] \<rparr>"
  using checkEonAndPhase_None [of pure "acm_Eon m" Accusing]
  by (cases "checkEonAndPhase pure (acm_Eon m) Accusing") (auto simp: HandleAccusationMsg_def Let_def)

lemma HandleApologyMsg_Inr:
  "HandleApologyMsg B m pure = Inr pure' \<longleftrightarrow>
     pd_Eon pure = apm_Eon m \<and> pd_Phase pure \<le> Apologizing \<and>
     map_of (pd_Apologies pure) (apm_Accuser m, apm_Accused m) = None \<and> ValidEval B (apm_Eval m) \<and>
     pure' = pure \<lparr> pd_Apologies := AList.update (apm_Accuser m, apm_Accused m) (apm_Eval m) (pd_Apologies pure) \<rparr>"
  using checkEonAndPhase_None [of pure "apm_Eon m" Apologizing]
  by (cases "checkEonAndPhase pure (apm_Eon m) Apologizing") (auto simp: HandleApologyMsg_def Let_def)

lemmas Handle_Inr = HandlePolyCommitmentMsg_Inr HandlePolyEvalMsg_Inr HandleAccusationMsg_Inr HandleApologyMsg_Inr

lemma set_list_update: "x \<in> set (xs[i := y]) \<Longrightarrow> x = y \<or> x \<in> set xs"
  using set_update_subset_insert by fastforce

lemma wf_map_snoc: "map_of m k = None \<Longrightarrow> wf_map m \<Longrightarrow> wf_map (m @ [(k, v)])"
  by (metis update_absent wf_map_update)

lemma Handle_wf [inv_intros]:
  "wf_dkg B pure \<Longrightarrow> HandlePolyCommitmentMsg pc pure = Inr pure' \<Longrightarrow> wf_dkg B pure'"
  "wf_dkg B pure \<Longrightarrow> HandlePolyEvalMsg B pe pure = Inr pure' \<Longrightarrow> wf_dkg B pure'"
  "wf_dkg B pure \<Longrightarrow> HandleAccusationMsg ac pure = Inr pure' \<Longrightarrow> wf_dkg B pure'"
  "wf_dkg B pure \<Longrightarrow> HandleApologyMsg B ap pure = Inr pure' \<Longrightarrow> wf_dkg B pure'"
  by (auto simp: Handle_Inr wf_dkg_def update_absent wf_map_snoc dest!: set_list_update)

lemma setPhase_wf [inv_intros]: "wf_dkg B pure \<Longrightarrow> setPhase p pure = Inr pure' \<Longrightarrow> wf_dkg B pure'"
  by (auto simp: setPhase_Inr wf_dkg_def)

lemma Dealing_loop_wf:
  "wf_dkg B pure \<Longrightarrow> Dealing_loop B p rs msgs pure = Inr (out, pure') \<Longrightarrow> wf_dkg B pure'"
proof (induction rs arbitrary: msgs pure)
  case (Cons r rs)
  obtain v where v: "EvalForKeyper B p (sint r) = Inr v"
    using Cons.prems(2) by (auto elim: result_bindE)
  let ?m = "\<lparr> pem_Eon = pd_Eon pure, pem_Sender = pd_Keyper pure, pem_Receiver = r, pem_Eval = v \<rparr>"
  show ?case
  proof (cases "r = pd_Keyper pure")
    case True
    then obtain pure1 where "HandlePolyEvalMsg B ?m pure = Inr pure1" "Dealing_loop B p rs msgs pure1 = Inr (out, pure')"
      using Cons.prems(2) v by (auto simp: Let_def split: sum.splits)
    then show ?thesis using Cons.IH Handle_wf(2) [OF Cons.prems(1)] by blast
  next
    case False
    then show ?thesis using Cons v by (auto simp: Let_def)
  qed
qed simp

lemma StartPhase1Dealing_wf [inv_intros]:
  "wf_dkg B pure \<Longrightarrow> wf_dkg B (snd (StartPhase1Dealing B rnd pure))"
proof -
  assume wf: "wf_dkg B pure"
  have "wf_dkg B (pure \<lparr> pd_Phase := q, pd_Polynomial := x \<rparr>)" "wf_dkg B (pure \<lparr> pd_Phase := q \<rparr>)" for q x
    using wf by (simp_all add: wf_dkg_def)
  then show ?thesis
    using wf by (auto simp: StartPhase1Dealing_def Let_def setPhase_def intro: Dealing_loop_wf split: sum.split prod.split)
qed

text \<open>The phases advance one by one.\<close>

lemma phases_advance:
  "StartPhase2Accusing B pure = Inr (as, pure') \<Longrightarrow> pd_Phase pure = Dealing \<and> pure' = pure \<lparr> pd_Phase := Accusing \<rparr>"
  "StartPhase3Apologizing O' B pure = Inr (ap, pure') \<Longrightarrow>
     pd_Phase pure = Accusing \<and> pure' = pure \<lparr> pd_Phase := Apologizing \<rparr>"
  "Finalize pure = Inr pure' \<Longrightarrow> pd_Phase pure = Apologizing \<and> pure' = pure \<lparr> pd_Phase := Finalized \<rparr>"
  by (cases "pd_Phase pure"; auto simp: StartPhase2Accusing_def StartPhase3Apologizing_def Finalize_def setPhase_def
      split: result_bind_splits)+

lemma Inl_if_no_Inr: "(\<And>v. x \<noteq> Inr v) \<Longrightarrow> \<exists>e. x = Inl e"
  by (cases x) auto

text \<open>Once the dealing is over, no commitment and no evaluation is taken any more.\<close>

lemma late_messages_rejected:
  "pd_Phase pure > Dealing \<Longrightarrow> \<exists>e. HandlePolyCommitmentMsg pc pure = Inl e"
  "pd_Phase pure > Dealing \<Longrightarrow> \<exists>e. HandlePolyEvalMsg B pe pure = Inl e"
  "pd_Phase pure > Accusing \<Longrightarrow> \<exists>e. HandleAccusationMsg ac pure = Inl e"
  "pd_Phase pure > Apologizing \<Longrightarrow> \<exists>e. HandleApologyMsg B ap pure = Inl e"
  by (rule Inl_if_no_Inr, auto simp: Handle_Inr)+

end
