(* ===== verification/DKGResult.thy ===== *)
theory DKGResult
  imports PureDKG
begin

text \<open>
  What \<open>ComputeResult\<close> computes: the shares and the public key of one joint polynomial, the same for
  all keypers that saw the same public messages, in whatever order the maps are ranged.
\<close>

section \<open>Ranging over the maps\<close>

lemma polyEval_lookup:
  assumes O: "dkg_orders_ok O'" and wf: "wf_map (pd_Apologies pure)"
  shows "polyEval O' pure dealer =
    (case map_of (pd_Apologies pure) (pd_Keyper pure, dealer) of
       Some e \<Rightarrow> Inr (Some e) | None \<Rightarrow> index_at (pd_Evals pure) dealer)"
proof -
  let ?P = "\<lambda>((accuser, accused), eval :: int). accuser = pd_Keyper pure \<and> accused = dealer"
  let ?xs = "ord_Apologies O' (pd_Apologies pure)"
  have m: "(k, e) \<in> set ?xs \<longleftrightarrow> map_of (pd_Apologies pure) k = Some e" for k e
    using O wf by (simp add: dkg_orders_ok_def ranging_set wf_map_mem_iff)
  show ?thesis
  proof (cases "find ?P ?xs")
    case None
    then have "map_of (pd_Apologies pure) (pd_Keyper pure, dealer) = None"
      using m by (fastforce simp: find_None_iff)
    then show ?thesis using None by (simp add: polyEval_def)
  next
    case (Some x)
    then have "x \<in> set ?xs" "?P x" unfolding find_Some_iff by (metis nth_mem)+
    then obtain e where "x = ((pd_Keyper pure, dealer), e)" "x \<in> set ?xs" by auto
    then show ?thesis using Some m by (auto simp: polyEval_def)
  qed
qed

lemma dealer_part_order_independent:
  "dkg_orders_ok O1 \<Longrightarrow> dkg_orders_ok O2 \<Longrightarrow> wf_map (pd_Apologies pure) \<Longrightarrow>
   dealer_part O1 B pure dealer = dealer_part O2 B pure dealer"
proof -
  assume "dkg_orders_ok O1" "dkg_orders_ok O2" "wf_map (pd_Apologies pure)"
  then have "polyEval O1 pure dealer = polyEval O2 pure dealer" by (simp add: polyEval_lookup)
  then show ?thesis by (simp only: dealer_part_def)
qed

lemma ComputeResult_order_independent:
  assumes "dkg_orders_ok O1" "dkg_orders_ok O2" "wf_dkg B pure"
  shows "ComputeResult O1 B pure = ComputeResult O2 B pure"
proof -
  have "dealer_part O1 B pure = dealer_part O2 B pure"
    using assms by (intro ext dealer_part_order_independent) (simp_all add: wf_dkg_def)
  then show ?thesis by (simp add: ComputeResult_def)
qed

section \<open>The joint polynomial\<close>

text \<open>A Go slice has a length below \<open>2 ^ 63\<close>.\<close>

definition sane_commitments :: "'g2 PureDKG \<Rightarrow> bool" where
  "sane_commitments pure \<longleftrightarrow> (\<forall>c. Some c \<in> set (pd_Commitments pure) \<longrightarrow> length c < 2 ^ 63)"

lemma commitment_poly:
  assumes B: "bn_ok B" and v: "VerifyPolyEval B i e c t" and len: "length c < 2 ^ 63"
  shows "\<exists>p. length p = unat t \<and> c = Polynomial_Gammas B p \<and> cng (Order B) e (peval p (KeyperX i))"
proof -
  obtain p where p: "c = Polynomial_Gammas B p"
    using Gammas_are_commitments [OF B, of c] by (cases "c = []") (auto simp: Polynomial_Gammas_def)
  then have "Polynomial_Degree p = DegreeFromThreshold t" "cng (Order B) e (peval p (KeyperX i))"
    using v VerifyPolyEval_cng [OF B] by auto
  moreover have "length p < 2 ^ 64" using len p by simp
  ultimately show ?thesis
    using p Degree_eq_iff [of p t] by (auto simp: Polynomial_Degree_def DegreeFromThreshold_def)
qed

lemma peval_zero: "peval (replicate n 0) x = 0"
  by (induction n) simp_all

lemma dealer_part_poly:
  assumes B: "bn_ok B" and sane: "sane_commitments pure" and d: "dealer_part O' B pure dealer = Inr (b, c, e)"
  shows "\<exists>p. length p = unat (pd_Threshold pure) \<and> c = Polynomial_Gammas B p \<and>
     cng (Order B) e (peval p (KeyperX (sint (pd_Keyper pure))))"
proof (cases b)
  case False
  then have "c = ZeroGammas B (DegreeFromThreshold (pd_Threshold pure))" "e = 0"
    using d by (auto simp: dealer_part_def split: result_bind_splits if_splits option.splits)
  then show ?thesis
    by (intro exI [of _ "replicate (unat (pd_Threshold pure)) 0"]) (simp add: ZeroGammas_eq peval_zero)
next
  case True
  then have "index_at (pd_Commitments pure) dealer = Inr (Some c)"
    "VerifyPolyEval B (sint (pd_Keyper pure)) e c (pd_Threshold pure)"
    using d by (auto simp: dealer_part_def split: result_bind_splits if_splits option.splits)
  moreover then have "length c < 2 ^ 63"
    using sane by (auto simp: sane_commitments_def index_at_Inr) (metis nth_mem)
  ultimately show ?thesis using commitment_poly [OF B] by blast
qed

text \<open>All rounds together.\<close>

definition psum :: "int list list \<Rightarrow> int list" where
  "psum ps = foldr padd ps []"

lemma peval_psum: "peval (psum ps) x = (\<Sum>p\<leftarrow>ps. peval p x)"
  by (induction ps) (simp_all add: psum_def peval_padd)

lemma length_psum: "\<forall>p\<in>set ps. length p = n \<Longrightarrow> length (psum ps) \<le> n"
  by (induction ps) (auto simp: psum_def)

lemma parts_polys:
  assumes B: "bn_ok B" and sane: "sane_commitments pure"
    and c: "collect (dealer_part O' B pure) ds = Inr parts"
  shows "\<exists>ps. (\<forall>p\<in>set ps. length p = unat (pd_Threshold pure)) \<and>
     map (\<lambda>(_, c, _). c) parts = map (Polynomial_Gammas B) ps \<and>
     cng (Order B) (\<Sum>x\<leftarrow>parts. snd (snd x)) (\<Sum>p\<leftarrow>ps. peval p (KeyperX (sint (pd_Keyper pure))))"
proof -
  have "list_all2 (\<lambda>d x. dealer_part O' B pure d = Inr x) ds parts"
    using c by (simp add: collect_Inr_iff)
  then show ?thesis
  proof (induction rule: list_all2_induct)
    case Nil
    show ?case by (intro exI [of _ "[]"]) simp
  next
    case (Cons d ds x parts)
    obtain b c e where x: "x = (b, c, e)" by (cases x)
    obtain p where p: "length p = unat (pd_Threshold pure)" "c = Polynomial_Gammas B p"
      "cng (Order B) e (peval p (KeyperX (sint (pd_Keyper pure))))"
      using dealer_part_poly [OF B sane] Cons.hyps(1) x by blast
    obtain ps where "(\<forall>p\<in>set ps. length p = unat (pd_Threshold pure))"
      "map (\<lambda>(_, c, _). c) parts = map (Polynomial_Gammas B) ps"
      "cng (Order B) (\<Sum>x\<leftarrow>parts. snd (snd x)) (\<Sum>p\<leftarrow>ps. peval p (KeyperX (sint (pd_Keyper pure))))"
      using Cons.IH by blast
    then show ?case using p by (intro exI [of _ "p # ps"]) (auto simp: x intro: cng_intros)
  qed
qed

lemma ComputeResult_Inr:
  assumes "ComputeResult O' B pure = Inr r"
  obtains parts where "collect (dealer_part O' B pure) (upto64 (pd_NumKeypers pure)) = Inr parts"
    "pd_Phase pure = Finalized" "pd_Threshold pure \<le> of_nat (length (filter fst parts))"
    "r = \<lparr> res_Eon = pd_Eon pure, res_NumKeypers = pd_NumKeypers pure, res_Threshold = pd_Threshold pure,
       res_Keyper = pd_Keyper pure,
       res_SecretKeyShare = ComputeEonSecretKeyShare B (map (\<lambda>(_, _, e). e) parts),
       res_PublicKey = ComputeEonPublicKey B (map (\<lambda>(_, c, _). c) parts),
       res_PublicKeyShares = map (\<lambda>dealer. ComputeEonPublicKeyShare B (sint dealer) (map (\<lambda>(_, c, _). c) parts))
         (upto64 (pd_NumKeypers pure)) \<rparr>"
proof -
  have "pd_Phase pure = Finalized"
    using assms by (cases "pd_Phase pure") (auto simp: ComputeResult_def less_Phase_def)
  then show thesis
    using assms that by (auto simp: ComputeResult_def Let_def split: result_bind_splits if_splits)
qed

text \<open>
  \<open>consistent\<close>: public key, public key shares and secret share all belong to one polynomial with as
  many coefficients as the threshold.
\<close>

definition consistent :: "('g1, 'g2, 'gt) bn256 \<Rightarrow> int list \<Rightarrow> 'g2 Result \<Rightarrow> bool" where
  "consistent B p r \<longleftrightarrow> length p \<le> unat (res_Threshold r) \<and>
     res_PublicKey r = G2_ScalarBaseMult B (peval p 0) \<and>
     length (res_PublicKeyShares r) = unat (res_NumKeypers r) \<and>
     (\<forall>i < res_NumKeypers r. res_PublicKeyShares r ! unat i = G2_ScalarBaseMult B (peval p (KeyperX (sint i)))) \<and>
     res_SecretKeyShare r = peval p (KeyperX (sint (res_Keyper r))) mod Order B"

lemma sum_list_map_case: "sum_list (map (\<lambda>(_, _, e). e) parts) = (\<Sum>x\<leftarrow>parts. snd (snd x))"
  by (induction parts) auto

lemma ComputeResult_consistent:
  assumes B: "bn_ok B" and sane: "sane_commitments pure" and r: "ComputeResult O' B pure = Inr r"
  shows "\<exists>p. consistent B p r"
proof -
  obtain parts where c: "collect (dealer_part O' B pure) (upto64 (pd_NumKeypers pure)) = Inr parts"
    and req: "r = \<lparr> res_Eon = pd_Eon pure, res_NumKeypers = pd_NumKeypers pure, res_Threshold = pd_Threshold pure,
       res_Keyper = pd_Keyper pure,
       res_SecretKeyShare = ComputeEonSecretKeyShare B (map (\<lambda>(_, _, e). e) parts),
       res_PublicKey = ComputeEonPublicKey B (map (\<lambda>(_, c, _). c) parts),
       res_PublicKeyShares = map (\<lambda>dealer. ComputeEonPublicKeyShare B (sint dealer) (map (\<lambda>(_, c, _). c) parts))
         (upto64 (pd_NumKeypers pure)) \<rparr>"
    using r by (rule ComputeResult_Inr)
  obtain ps where ps: "\<forall>p\<in>set ps. length p = unat (pd_Threshold pure)"
    "map (\<lambda>(_, c, _). c) parts = map (Polynomial_Gammas B) ps"
    "cng (Order B) (\<Sum>x\<leftarrow>parts. snd (snd x)) (\<Sum>p\<leftarrow>ps. peval p (KeyperX (sint (pd_Keyper pure))))"
    using parts_polys [OF B sane c] by blast
  have "(\<Sum>x\<leftarrow>parts. snd (snd x)) mod Order B = peval (psum ps) (KeyperX (sint (pd_Keyper pure))) mod Order B"
    using ps(3) by (simp add: cng_def peval_psum)
  moreover have "unat i < unat (pd_NumKeypers pure)" if "i < pd_NumKeypers pure" for i
    using that by (simp add: word_less_nat_alt)
  ultimately have "consistent B (psum ps) r"
    using ps(2) bn_order_pos [OF B] length_psum [OF ps(1)]
    by (simp add: consistent_def req ComputeEonSecretKeyShare_sum sum_list_map_case ComputeEonPublicKey_exp [OF B]
        ComputeEonPublicKeyShare_exp [OF B] peval_psum)
  then show ?thesis by blast
qed

section \<open>Agreement\<close>

text \<open>What all keypers see: the messages on the chain.\<close>

definition same_view :: "'g2 PureDKG \<Rightarrow> 'g2 PureDKG \<Rightarrow> bool" where
  "same_view a b \<longleftrightarrow> pd_NumKeypers a = pd_NumKeypers b \<and> pd_Threshold a = pd_Threshold b \<and>
     pd_Commitments a = pd_Commitments b \<and> set (pd_Accusations a) = set (pd_Accusations b) \<and>
     map_of (pd_Apologies a) = map_of (pd_Apologies b)"

lemma isCorrupt_same_view:
  assumes v: "same_view a b" and wf: "wf_map (pd_Apologies a)" "wf_map (pd_Apologies b)"
  shows "isCorrupt B a dealer = isCorrupt B b dealer"
proof -
  have "set (pd_Apologies a) = set (pd_Apologies b)"
    using v wf_map_mem_iff [OF wf(1)] wf_map_mem_iff [OF wf(2)] by (auto simp: same_view_def)
  then show ?thesis using v by (simp only: isCorrupt_def same_view_def)
qed

lemma dealer_part_commitment:
  assumes "dealer_part O' B pure dealer = Inr (b, c, e)"
  shows "isCorrupt B pure dealer = Inr (\<not> b)"
    "c = (if b then the (pd_Commitments pure ! unat dealer)
          else ZeroGammas B (DegreeFromThreshold (pd_Threshold pure)))"
  using assms by (auto simp: dealer_part_def index_at_Inr split: result_bind_splits if_splits option.splits)

lemma same_view_commitments:
  assumes v: "same_view a b" and wf: "wf_map (pd_Apologies a)" "wf_map (pd_Apologies b)"
    and c: "collect (dealer_part O1 B a) ds = Inr xs" "collect (dealer_part O2 B b) ds = Inr ys"
  shows "map (\<lambda>(_, c, _). c) xs = map (\<lambda>(_, c, _). c) ys"
proof (rule nth_equalityI)
  have l: "length xs = length ds" "length ys = length ds" using c by (auto dest: collect_length)
  then show "length (map (\<lambda>(_, c, _). c) xs) = length (map (\<lambda>(_, c, _). c) ys)" by simp
  fix i
  assume "i < length (map (\<lambda>(_, c, _). c) xs)"
  then have i: "i < length ds" using l by simp
  obtain b1 c1 e1 b2 c2 e2 where x: "xs ! i = (b1, c1, e1)" and y: "ys ! i = (b2, c2, e2)"
    by (cases "xs ! i"; cases "ys ! i")
  have "dealer_part O1 B a (ds ! i) = Inr (b1, c1, e1)" "dealer_part O2 B b (ds ! i) = Inr (b2, c2, e2)"
    using c i x y by (auto simp: collect_Inr_iff list_all2_conv_all_nth)
  then have "c1 = c2"
    using dealer_part_commitment [of O1 B a] dealer_part_commitment [of O2 B b] isCorrupt_same_view [OF v wf] v
    unfolding same_view_def by (metis sum.inject(2))
  then show "map (\<lambda>(_, c, _). c) xs ! i = map (\<lambda>(_, c, _). c) ys ! i" using x y i l by simp
qed

lemma ComputeResult_agreement:
  assumes v: "same_view a b" and wf: "wf_dkg B a" "wf_dkg B b"
    and r: "ComputeResult O1 B a = Inr ra" "ComputeResult O2 B b = Inr rb"
  shows "res_PublicKey ra = res_PublicKey rb \<and> res_PublicKeyShares ra = res_PublicKeyShares rb \<and>
    res_NumKeypers ra = res_NumKeypers rb \<and> res_Threshold ra = res_Threshold rb"
proof -
  obtain xs where x: "collect (dealer_part O1 B a) (upto64 (pd_NumKeypers a)) = Inr xs"
    "res_PublicKey ra = ComputeEonPublicKey B (map (\<lambda>(_, c, _). c) xs)"
    "res_PublicKeyShares ra = map (\<lambda>dealer. ComputeEonPublicKeyShare B (sint dealer) (map (\<lambda>(_, c, _). c) xs))
       (upto64 (pd_NumKeypers a))" "res_NumKeypers ra = pd_NumKeypers a" "res_Threshold ra = pd_Threshold a"
    using r(1) by (rule ComputeResult_Inr) simp
  obtain ys where y: "collect (dealer_part O2 B b) (upto64 (pd_NumKeypers b)) = Inr ys"
    "res_PublicKey rb = ComputeEonPublicKey B (map (\<lambda>(_, c, _). c) ys)"
    "res_PublicKeyShares rb = map (\<lambda>dealer. ComputeEonPublicKeyShare B (sint dealer) (map (\<lambda>(_, c, _). c) ys))
       (upto64 (pd_NumKeypers b))" "res_NumKeypers rb = pd_NumKeypers b" "res_Threshold rb = pd_Threshold b"
    using r(2) by (rule ComputeResult_Inr) simp
  have n: "pd_NumKeypers a = pd_NumKeypers b" "pd_Threshold a = pd_Threshold b"
    using v by (simp_all add: same_view_def)
  have "map (\<lambda>(_, c, _). c) xs = map (\<lambda>(_, c, _). c) ys"
    using same_view_commitments [OF v _ _ x(1)] y(1) n wf by (simp add: wf_dkg_def)
  then show ?thesis using x y n by simp
qed

text \<open>The polynomial of one keyper's result also gives the secret share of every other.\<close>

lemma agreed_secret_shares:
  assumes B: "bn_ok B" and p: "consistent B p ra" and q: "consistent B q rb"
    and eq: "res_PublicKeyShares ra = res_PublicKeyShares rb" "res_NumKeypers ra = res_NumKeypers rb"
      "res_Keyper rb < res_NumKeypers rb"
  shows "res_SecretKeyShare rb = peval p (KeyperX (sint (res_Keyper rb))) mod Order B"
proof -
  have "G2_ScalarBaseMult B (peval p (KeyperX (sint (res_Keyper rb)))) = G2_ScalarBaseMult B (peval q (KeyperX (sint (res_Keyper rb))))"
    using p q eq unfolding consistent_def by metis
  then have "cng (Order B) (peval p (KeyperX (sint (res_Keyper rb)))) (peval q (KeyperX (sint (res_Keyper rb))))"
    using B by (simp add: group_simps)
  then show ?thesis using q by (simp add: consistent_def cng_def)
qed

section \<open>Honest dealers\<close>

text \<open>
  A dealer whose commitment is that of its polynomial and who apologizes to every accuser with the
  value of that polynomial is not corrupt, whatever the others do.
\<close>

lemma honest_not_corrupt:
  assumes B: "bn_ok B" and c: "unat dealer < length (pd_Commitments pure)"
      "pd_Commitments pure ! unat dealer = Some (Polynomial_Gammas B p)"
    and p: "Polynomial_Degree p = DegreeFromThreshold (pd_Threshold pure)"
    and wf: "wf_map (pd_Apologies pure)"
    and ans: "\<And>accuser. (accuser, dealer) \<in> set (pd_Accusations pure) \<Longrightarrow>
      map_of (pd_Apologies pure) (accuser, dealer) \<noteq> None"
    and truth: "\<And>accuser e. map_of (pd_Apologies pure) (accuser, dealer) = Some e \<Longrightarrow>
      cng (Order B) e (peval p (KeyperX (sint accuser)))"
  shows "isCorrupt B pure dealer = Inr False"
proof -
  have "VerifyPolyEval B (sint accuser) e (Polynomial_Gammas B p) (pd_Threshold pure)"
    if "((accuser, dealer), e) \<in> set (pd_Apologies pure)" for accuser e
    using that p truth [of accuser e] by (simp add: VerifyPolyEval_cng [OF B] wf_map_mem_iff [OF wf])
  then show ?thesis using c ans by (fastforce simp: isCorrupt_def index_at_def)
qed

text \<open>An accusation that is not answered, or answered with a wrong value, makes the dealer corrupt.\<close>

lemma unanswered_corrupt:
  assumes "unat dealer < length (pd_Commitments pure)" "(accuser, dealer) \<in> set (pd_Accusations pure)"
    "map_of (pd_Apologies pure) (accuser, dealer) = None"
  shows "isCorrupt B pure dealer = Inr True"
  using assms by (force simp: isCorrupt_def index_at_def split: option.split)

section \<open>The key generation succeeds\<close>

text \<open>
  A dealer a keyper has no complaint about: its commitment is that of \<open>p\<close>, every accusation against
  it was answered with the value of \<open>p\<close>, and the keyper itself holds its own value, sent privately
  or in an apology.
\<close>

definition honest_dealer :: "('g1, 'g2, 'gt) bn256 \<Rightarrow> 'g2 PureDKG \<Rightarrow> u64 \<Rightarrow> int list \<Rightarrow> bool" where
  "honest_dealer B pure dealer p \<longleftrightarrow>
     index_at (pd_Commitments pure) dealer = Inr (Some (Polynomial_Gammas B p)) \<and>
     Polynomial_Degree p = DegreeFromThreshold (pd_Threshold pure) \<and>
     (\<forall>(accuser, accused)\<in>set (pd_Accusations pure). accused = dealer \<longrightarrow>
        map_of (pd_Apologies pure) (accuser, dealer) \<noteq> None) \<and>
     (\<forall>((accuser, accused), e)\<in>set (pd_Apologies pure). accused = dealer \<longrightarrow>
        cng (Order B) e (peval p (KeyperX (sint accuser)))) \<and>
     (map_of (pd_Apologies pure) (pd_Keyper pure, dealer) = None \<longrightarrow>
        (\<exists>e. index_at (pd_Evals pure) dealer = Inr (Some e) \<and>
           cng (Order B) e (peval p (KeyperX (sint (pd_Keyper pure))))))"

lemma honest_dealer_part:
  assumes B: "bn_ok B" and O: "dkg_orders_ok O'" and wf: "wf_map (pd_Apologies pure)" and h: "honest_dealer B pure dealer p"
  shows "\<exists>e. dealer_part O' B pure dealer = Inr (True, Polynomial_Gammas B p, e)"
proof -
  let ?ok = "\<lambda>e. VerifyPolyEval B (sint (pd_Keyper pure)) e (Polynomial_Gammas B p) (pd_Threshold pure)"
  have c: "index_at (pd_Commitments pure) dealer = Inr (Some (Polynomial_Gammas B p))"
    and p: "Polynomial_Degree p = DegreeFromThreshold (pd_Threshold pure)"
    and apo: "\<And>accuser e. map_of (pd_Apologies pure) (accuser, dealer) = Some e \<Longrightarrow>
      cng (Order B) e (peval p (KeyperX (sint accuser)))"
    using h by (auto simp: honest_dealer_def dest!: map_of_SomeD)
  have "isCorrupt B pure dealer = Inr False"
    using h apo by (intro honest_not_corrupt [OF B _ _ p wf]) (auto simp: honest_dealer_def index_at_Inr)
  moreover obtain e where "polyEval O' pure dealer = Inr (Some e)" "?ok e"
  proof (cases "map_of (pd_Apologies pure) (pd_Keyper pure, dealer)")
    case None
    then obtain e where "index_at (pd_Evals pure) dealer = Inr (Some e)"
      "cng (Order B) e (peval p (KeyperX (sint (pd_Keyper pure))))" using h by (auto simp: honest_dealer_def)
    then show thesis using None p by (intro that) (simp_all add: polyEval_lookup [OF O wf] VerifyPolyEval_cng [OF B])
  next
    case (Some e)
    then show thesis using apo p
      by (intro that) (simp_all add: polyEval_lookup [OF O wf] VerifyPolyEval_cng [OF B])
  qed
  ultimately show ?thesis using c by (simp add: dealer_part_def)
qed

lemma list_all2_refl_mem: "(\<And>x. x \<in> set xs \<Longrightarrow> P x x) \<Longrightarrow> list_all2 P xs xs"
  by (induction xs) auto

text \<open>
  When every dealer is honest or found corrupt, and threshold many are honest, the result is there,
  with the public key of the sum of the honest dealers' polynomials.
\<close>

lemma ComputeResult_succeeds:
  assumes B: "bn_ok B" and O: "dkg_orders_ok O'" and wf: "wf_map (pd_Apologies pure)" and ph: "pd_Phase pure = Finalized"
    and dealers: "\<And>i. i < pd_NumKeypers pure \<Longrightarrow>
      (case ps i of Some p \<Rightarrow> honest_dealer B pure i p | None \<Rightarrow> isCorrupt B pure i = Inr True)"
    and enough: "unat (pd_Threshold pure) \<le> length (filter (\<lambda>i. ps i \<noteq> None) (upto64 (pd_NumKeypers pure)))"
  shows "\<exists>r. ComputeResult O' B pure = Inr r \<and>
    res_PublicKey r = G2_ScalarBaseMult B (\<Sum>i\<leftarrow>upto64 (pd_NumKeypers pure). case ps i of Some p \<Rightarrow> peval p 0 | None \<Rightarrow> 0)"
proof -
  let ?us = "upto64 (pd_NumKeypers pure)" and ?t = "pd_Threshold pure"
  define q where "q i = (case ps i of Some p \<Rightarrow> p | None \<Rightarrow> replicate (unat ?t) 0)" for i
  have "\<exists>e. dealer_part O' B pure i = Inr (ps i \<noteq> None, Polynomial_Gammas B (q i), e)" if "i \<in> set ?us" for i
    using dealers [of i] that honest_dealer_part [OF B O wf]
    by (cases "ps i") (auto simp: q_def dealer_part_def ZeroGammas_eq)
  then obtain e where e: "\<And>i. i \<in> set ?us \<Longrightarrow>
      dealer_part O' B pure i = Inr (ps i \<noteq> None, Polynomial_Gammas B (q i), e i)" by metis
  let ?parts = "map (\<lambda>i. (ps i \<noteq> None, Polynomial_Gammas B (q i), e i)) ?us"
  have c: "collect (dealer_part O' B pure) ?us = Inr ?parts"
    unfolding collect_Inr_iff list_all2_map2 using e by (intro list_all2_refl_mem)
  have n: "length (filter fst ?parts) = length (filter (\<lambda>i. ps i \<noteq> None) ?us)"
    by (simp add: filter_map comp_def)
  have "length (filter fst ?parts) \<le> unat (pd_NumKeypers pure)"
    unfolding n by (rule order_trans [OF length_filter_le]) simp
  then have "length (filter fst ?parts) < 2 ^ LENGTH(64)"
    using unsigned_less [of "pd_NumKeypers pure"] by (rule le_less_trans)
  then have "unat (of_nat (length (filter fst ?parts)) :: u64) = length (filter fst ?parts)"
    by (intro unat_of_nat_u64) simp
  then have th: "\<not> (of_nat (length (filter fst ?parts)) :: u64) < ?t"
    using enough by (simp only: word_less_nat_alt n)
  have pk: "map (\<lambda>(_, c, _). c) ?parts = map (Polynomial_Gammas B) (map q ?us)" by simp
  have "(\<Sum>p\<leftarrow>map q ?us. peval p 0) = (\<Sum>i\<leftarrow>?us. case ps i of Some p \<Rightarrow> peval p 0 | None \<Rightarrow> 0)"
    by (intro arg_cong [where f = sum_list]) (auto simp: q_def peval_zero split: option.split)
  then have "ComputeEonPublicKey B (map (\<lambda>(_, c, _). c) ?parts) =
      G2_ScalarBaseMult B (\<Sum>i\<leftarrow>?us. case ps i of Some p \<Rightarrow> peval p 0 | None \<Rightarrow> 0)"
    unfolding pk ComputeEonPublicKey_exp [OF B] by simp
  then show ?thesis using c th ph unfolding ComputeResult_def by (simp add: Let_def del: filter_map)
qed

end
