(* ===== verification/EpochKG.thy ===== *)
theory EpochKG
  imports DKGResult Encryption
begin

text \<open>
  \<open>keyper/epochkg/epochkg.go\<close>: collecting the shares of an epoch secret key, with the result of the
  distributed key generation, until there are threshold many and the key can be computed. A nil key
  (stored when the computation fails) is \<open>None\<close> below the map's own \<open>Some\<close>.
\<close>

section \<open>Operations\<close>

record 'g1 KGShare =
  kgs_Eon :: u64
  kgs_Epoch :: u64
  kgs_Sender :: u64
  kgs_Share :: 'g1

record ('g1, 'g2) EpochKG =
  kg_Eon :: u64
  kg_NumKeypers :: u64
  kg_Threshold :: u64
  kg_Keyper :: u64
  kg_SecretKeyShare :: int
  kg_PublicKey :: 'g2
  kg_PublicKeyShares :: "'g2 list"
  kg_SecretShares :: "u64 \<Rightarrow> 'g1 KGShare list option"
  kg_SecretKeys :: "u64 \<Rightarrow> 'g1 option option"

definition NewEpochKG :: "'g2 Result \<Rightarrow> ('g1, 'g2) EpochKG" where
  "NewEpochKG r =
     \<lparr> kg_Eon = res_Eon r, kg_NumKeypers = res_NumKeypers r, kg_Threshold = res_Threshold r,
       kg_Keyper = res_Keyper r, kg_SecretKeyShare = res_SecretKeyShare r, kg_PublicKey = res_PublicKey r,
       kg_PublicKeyShares = res_PublicKeyShares r, kg_SecretShares = Map.empty, kg_SecretKeys = Map.empty \<rparr>"

definition kg_ComputeEpochSecretKeyShare ::
  "('g1, 'g2, 'gt) bn256 \<Rightarrow> ('g1, 'g2) EpochKG \<Rightarrow> u64 \<Rightarrow> 'g1" where
  "kg_ComputeEpochSecretKeyShare B kg epoch =
     (let epochID = ComputeEpochID B epoch
      in ComputeEpochSecretKeyShare B (kg_SecretKeyShare kg) epochID)"

definition computeEpochSecretKey ::
  "('g1, 'g2, 'gt) bn256 \<Rightarrow> ('g1, 'g2) EpochKG \<Rightarrow> 'g1 KGShare list \<Rightarrow> 'g1 result" where
  "computeEpochSecretKey B kg shares =
     (let keyperIndices = map (\<lambda>s. sint (kgs_Sender s)) shares;
          epochSecretKeyShares = map kgs_Share shares
      in ComputeEpochSecretKey B keyperIndices epochSecretKeyShares (kg_Threshold kg))"

text \<open>The error, if any, and the next state.\<close>

definition addEpochSecretKeyShare ::
  "('g1, 'g2, 'gt) bn256 \<Rightarrow> 'g1 KGShare \<Rightarrow> ('g1, 'g2) EpochKG \<Rightarrow> go_error option \<times> ('g1, 'g2) EpochKG" where
  "addEpochSecretKeyShare B share kg =
     (let epoch = kgs_Epoch share;
          shares = (case kg_SecretShares kg epoch of None \<Rightarrow> [] | Some ss \<Rightarrow> ss)
      in if \<exists>s\<in>set shares. kgs_Sender s = kgs_Sender share
         then (Some (Errorf ''already have EpochSecretKeyShare from sender''), kg)
         else let shares' = shares @ [share]
              in if int (length shares') \<noteq> sint (kg_Threshold kg)
                 then (None, kg \<lparr> kg_SecretShares := (kg_SecretShares kg)(epoch \<mapsto> shares') \<rparr>)
                 else let secretKey = computeEpochSecretKey B kg shares';
                          kg' = kg \<lparr> kg_SecretShares := (kg_SecretShares kg)(epoch := None) \<rparr>
                      in case secretKey of
                           Inl (Panic p) \<Rightarrow> (Some (Panic p), kg)
                         | Inl err \<Rightarrow> (Some err, kg' \<lparr> kg_SecretKeys := (kg_SecretKeys kg)(epoch \<mapsto> None) \<rparr>)
                         | Inr k \<Rightarrow> (None, kg' \<lparr> kg_SecretKeys := (kg_SecretKeys kg)(epoch \<mapsto> Some k) \<rparr>))"

text \<open>The shares held for an epoch, and the three outcomes.\<close>

definition held_shares :: "('g1, 'g2) EpochKG \<Rightarrow> u64 \<Rightarrow> 'g1 KGShare list" where
  "held_shares kg epoch = (case kg_SecretShares kg epoch of None \<Rightarrow> [] | Some ss \<Rightarrow> ss)"

lemma add_duplicate:
  "\<exists>s\<in>set (held_shares kg (kgs_Epoch sh)). kgs_Sender s = kgs_Sender sh \<Longrightarrow>
   addEpochSecretKeyShare B sh kg = (Some (Errorf ''already have EpochSecretKeyShare from sender''), kg)"
  unfolding addEpochSecretKeyShare_def Let_def held_shares_def by (rule if_P)

lemma add_collect:
  "\<forall>s\<in>set (held_shares kg (kgs_Epoch sh)). kgs_Sender s \<noteq> kgs_Sender sh \<Longrightarrow>
   int (length (held_shares kg (kgs_Epoch sh) @ [sh])) \<noteq> sint (kg_Threshold kg) \<Longrightarrow>
   addEpochSecretKeyShare B sh kg =
     (None, kg \<lparr> kg_SecretShares := (kg_SecretShares kg)(kgs_Epoch sh \<mapsto> held_shares kg (kgs_Epoch sh) @ [sh]) \<rparr>)"
  unfolding addEpochSecretKeyShare_def Let_def held_shares_def [symmetric] by simp

lemma add_finish:
  "\<forall>s\<in>set (held_shares kg (kgs_Epoch sh)). kgs_Sender s \<noteq> kgs_Sender sh \<Longrightarrow>
   int (length (held_shares kg (kgs_Epoch sh) @ [sh])) = sint (kg_Threshold kg) \<Longrightarrow>
   computeEpochSecretKey B kg (held_shares kg (kgs_Epoch sh) @ [sh]) = Inr k \<Longrightarrow>
   addEpochSecretKeyShare B sh kg =
     (None, kg \<lparr> kg_SecretShares := (kg_SecretShares kg)(kgs_Epoch sh := None),
        kg_SecretKeys := (kg_SecretKeys kg)(kgs_Epoch sh \<mapsto> Some k) \<rparr>)"
  unfolding addEpochSecretKeyShare_def Let_def held_shares_def [symmetric] by simp

definition HandleEpochSecretKeyShare ::
  "('g1, 'g2, 'gt) bn256 \<Rightarrow> 'g1 KGShare \<Rightarrow> ('g1, 'g2) EpochKG \<Rightarrow> go_error option \<times> ('g1, 'g2) EpochKG" where
  "HandleEpochSecretKeyShare B share kg =
     (if kg_SecretKeys kg (kgs_Epoch share) \<noteq> None then (None, kg)
      else let epochID = ComputeEpochID B (kgs_Epoch share)
           in case index_at (kg_PublicKeyShares kg) (kgs_Sender share) of
                Inl p \<Rightarrow> (Some p, kg)
              | Inr publicKeyShare \<Rightarrow>
                  if \<not> VerifyEpochSecretKeyShare B (kgs_Share share) publicKeyShare epochID
                  then (Some (Errorf ''cannot verify epoch secret key share''), kg)
                  else addEpochSecretKeyShare B share kg)"

section \<open>The invariant\<close>

text \<open>\<open>p\<close> is the joint polynomial of the key generation.\<close>

definition share_of :: "('g1, 'g2, 'gt) bn256 \<Rightarrow> int list \<Rightarrow> u64 \<Rightarrow> u64 \<Rightarrow> 'g1" where
  "share_of B p sender epoch =
     ComputeEpochSecretKeyShare B (peval p (KeyperX (sint sender))) (ComputeEpochID B epoch)"

definition epoch_key :: "('g1, 'g2, 'gt) bn256 \<Rightarrow> int list \<Rightarrow> u64 \<Rightarrow> 'g1" where
  "epoch_key B p epoch = ComputeEpochSecretKeyShare B (peval p 0) (ComputeEpochID B epoch)"

definition kg_setup :: "('g1, 'g2, 'gt) bn256 \<Rightarrow> int list \<Rightarrow> ('g1, 'g2) EpochKG \<Rightarrow> bool" where
  "kg_setup B p kg \<longleftrightarrow> length p \<le> unat (kg_Threshold kg) \<and> 0 < kg_Threshold kg \<and>
     kg_Threshold kg \<le> kg_NumKeypers kg \<and> unat (kg_NumKeypers kg) < 2 ^ 63 \<and>
     int (unat (kg_NumKeypers kg)) \<le> Order B \<and>
     length (kg_PublicKeyShares kg) = unat (kg_NumKeypers kg) \<and>
     (\<forall>i < kg_NumKeypers kg. kg_PublicKeyShares kg ! unat i = G2_ScalarBaseMult B (peval p (KeyperX (sint i))))"

definition good_shares :: "('g1, 'g2, 'gt) bn256 \<Rightarrow> int list \<Rightarrow> u64 \<Rightarrow> u64 \<Rightarrow> 'g1 KGShare list \<Rightarrow> bool" where
  "good_shares B p n epoch ss \<longleftrightarrow> distinct (map kgs_Sender ss) \<and>
     (\<forall>s\<in>set ss. kgs_Epoch s = epoch \<and> kgs_Sender s < n \<and> kgs_Share s = share_of B p (kgs_Sender s) epoch)"

definition kg_inv :: "('g1, 'g2, 'gt) bn256 \<Rightarrow> int list \<Rightarrow> ('g1, 'g2) EpochKG \<Rightarrow> bool" where
  "kg_inv B p kg \<longleftrightarrow> kg_setup B p kg \<and>
     (\<forall>e ss. kg_SecretShares kg e = Some ss \<longrightarrow>
        good_shares B p (kg_NumKeypers kg) e ss \<and> length ss < unat (kg_Threshold kg)) \<and>
     (\<forall>e k. kg_SecretKeys kg e = Some k \<longrightarrow> k = Some (epoch_key B p e))"

lemma good_shares_snoc: "good_shares B p n e (ss @ [sh]) \<longleftrightarrow> good_shares B p n e ss \<and> kgs_Epoch sh = e \<and>
    kgs_Sender sh < n \<and> kgs_Share sh = share_of B p (kgs_Sender sh) e \<and> (\<forall>s\<in>set ss. kgs_Sender s \<noteq> kgs_Sender sh)"
proof -
  have d: "distinct (map kgs_Sender (ss @ [sh])) \<longleftrightarrow>
      distinct (map kgs_Sender ss) \<and> (\<forall>s\<in>set ss. kgs_Sender s \<noteq> kgs_Sender sh)"
    by (auto simp del: distinct_map simp: image_iff)
  have b: "(\<forall>s\<in>set (ss @ [sh]). P s) \<longleftrightarrow> (\<forall>s\<in>set ss. P s) \<and> P sh" for P by auto
  show ?thesis unfolding good_shares_def d b by blast
qed

lemma sint_small: "unat (i :: u64) < 2 ^ 63 \<Longrightarrow> sint i = int (unat i)"
proof -
  assume "unat i < 2 ^ 63"
  then have "int (unat i) < int (2 ^ 63)" by (simp only: of_nat_less_iff)
  then have "int (unat i) < 2 ^ 63" by (simp only: of_nat_power of_nat_numeral)
  then have u: "uint i < 2 ^ 63" unfolding uint_nat .
  have "- (2 ^ 63) \<le> uint i" by (rule order_trans [OF _ uint_ge_0]) simp
  then have "signed_take_bit 63 (uint i) = uint i" using u by (rule signed_take_bit_int_eq_self)
  then have "sint i = uint i" unfolding sint_uint by simp
  then show ?thesis unfolding uint_nat .
qed

lemma sender_indices:
  assumes s: "kg_setup B p kg" and g: "good_shares B p (kg_NumKeypers kg) e ss"
  shows "distinct (map (\<lambda>s. sint (kgs_Sender s)) ss)"
    "distinct_keypers B (set (map (\<lambda>s. sint (kgs_Sender s)) ss))"
proof -
  have b: "unat (kgs_Sender s) < unat (kg_NumKeypers kg)" if "s \<in> set ss" for s
    using g that by (auto simp: good_shares_def word_less_nat_alt)
  then have si: "sint (kgs_Sender s) = int (unat (kgs_Sender s))" if "s \<in> set ss" for s
    using s that by (intro sint_small) (force simp: kg_setup_def)
  have "inj_on kgs_Sender (set ss)" "distinct ss" using g by (auto simp: good_shares_def distinct_map)
  then show "distinct (map (\<lambda>s. sint (kgs_Sender s)) ss)"
    by (auto simp: distinct_map inj_on_def si dest: word_uint_eqI [of "kgs_Sender _"])
  show "distinct_keypers B (set (map (\<lambda>s. sint (kgs_Sender s)) ss))"
  proof (rule distinct_keypers_bounded)
    fix i assume "i \<in> set (map (\<lambda>s. sint (kgs_Sender s)) ss)"
    then obtain s' where s': "s' \<in> set ss" "i = sint (kgs_Sender s')" by auto
    have "int (unat (kgs_Sender s')) < int (unat (kg_NumKeypers kg))" using b [OF s'(1)] by (simp only: of_nat_less_iff)
    also have "\<dots> \<le> Order B" using s by (simp only: kg_setup_def)
    finally show "0 \<le> i \<and> i < Order B" unfolding s'(2) si [OF s'(1)] by simp
  qed
qed

lemma computeEpochSecretKey_key:
  assumes B: "bn_ok B" and s: "kg_setup B p kg" and g: "good_shares B p (kg_NumKeypers kg) e ss"
    and len: "length ss = unat (kg_Threshold kg)"
  shows "computeEpochSecretKey B kg ss = Inr (epoch_key B p e)"
proof -
  let ?ks = "map (\<lambda>s. sint (kgs_Sender s)) ss"
  have sh: "map kgs_Share ss = map (\<lambda>i. ComputeEpochSecretKeyShare B (peval p (KeyperX i)) (ComputeEpochID B e)) ?ks"
    using g by (auto simp: good_shares_def share_of_def)
  have "ComputeEpochSecretKey B ?ks (map kgs_Share ss) (kg_Threshold kg) = Inr (epoch_key B p e)"
    unfolding epoch_key_def
    using s len by (intro ComputeEpochSecretKey_interpolates [OF B sender_indices [OF s g] _ _ sh])
      (simp_all add: kg_setup_def)
  then show ?thesis by (simp add: computeEpochSecretKey_def Let_def)
qed

text \<open>The verification lets through exactly the shares of the joint polynomial.\<close>

lemma verify_share:
  assumes B: "bn_ok B" and s: "kg_setup B p kg" and n: "sender < kg_NumKeypers kg"
  shows "VerifyEpochSecretKeyShare B share (kg_PublicKeyShares kg ! unat sender) (ComputeEpochID B epoch) \<longleftrightarrow>
    share = share_of B p sender epoch"
  using s n Verify_iff_share [OF B] by (simp add: kg_setup_def share_of_def)

lemma index_shares:
  assumes "kg_setup B p kg"
  shows "index_at (kg_PublicKeyShares kg) i =
    (if i < kg_NumKeypers kg then Inr (kg_PublicKeyShares kg ! unat i) else Inl (Panic ''index out of range''))"
  using assms by (simp add: index_at_def kg_setup_def word_less_nat_alt)

lemma threshold_int: "kg_setup B p kg \<Longrightarrow> sint (kg_Threshold kg) = int (unat (kg_Threshold kg))"
  by (rule sint_small) (auto simp: kg_setup_def word_le_nat_alt)

text \<open>One share, in full: what happens to it and to the state.\<close>

lemma Handle_held:
  assumes inv: "kg_inv B p kg"
  shows "good_shares B p (kg_NumKeypers kg) e (held_shares kg e)" "length (held_shares kg e) < unat (kg_Threshold kg)"
proof -
  have "0 < unat (kg_Threshold kg)" using inv by (simp add: kg_inv_def kg_setup_def word_less_nat_alt)
  then show "good_shares B p (kg_NumKeypers kg) e (held_shares kg e)"
    "length (held_shares kg e) < unat (kg_Threshold kg)"
    using inv by (simp_all add: held_shares_def kg_inv_def good_shares_def split: option.split)
qed

lemma Handle_good:
  assumes B: "bn_ok B" and inv: "kg_inv B p kg" and none: "kg_SecretKeys kg (kgs_Epoch sh) = None"
    and good: "good_shares B p (kg_NumKeypers kg) (kgs_Epoch sh) (held_shares kg (kgs_Epoch sh) @ [sh])"
  shows "HandleEpochSecretKeyShare B sh kg =
    (None,
     if Suc (length (held_shares kg (kgs_Epoch sh))) = unat (kg_Threshold kg)
     then kg \<lparr> kg_SecretShares := (kg_SecretShares kg)(kgs_Epoch sh := None),
         kg_SecretKeys := (kg_SecretKeys kg)(kgs_Epoch sh \<mapsto> Some (epoch_key B p (kgs_Epoch sh))) \<rparr>
     else kg \<lparr> kg_SecretShares := (kg_SecretShares kg)(kgs_Epoch sh \<mapsto> held_shares kg (kgs_Epoch sh) @ [sh]) \<rparr>)"
    (is "_ = (None, ?kg')")
proof -
  let ?ss = "held_shares kg (kgs_Epoch sh) @ [sh]"
  have s: "kg_setup B p kg" using inv by (simp add: kg_inv_def)
  have sh: "kgs_Sender sh < kg_NumKeypers kg" "kgs_Share sh = share_of B p (kgs_Sender sh) (kgs_Epoch sh)"
    and ne: "\<forall>s\<in>set (held_shares kg (kgs_Epoch sh)). kgs_Sender s \<noteq> kgs_Sender sh"
    using good by (simp_all add: good_shares_snoc)
  have "addEpochSecretKeyShare B sh kg = (None, ?kg')"
  proof (cases "length ?ss = unat (kg_Threshold kg)")
    case True
    then have len: "int (length ?ss) = sint (kg_Threshold kg)" unfolding threshold_int [OF s] by (rule arg_cong)
    show ?thesis using add_finish [OF ne len computeEpochSecretKey_key [OF B s good True]] True by simp
  next
    case False
    then have len: "int (length ?ss) \<noteq> sint (kg_Threshold kg)" unfolding threshold_int [OF s] of_nat_eq_iff .
    show ?thesis using add_collect [OF ne len] False by simp
  qed
  then show ?thesis
    using sh by (simp only: HandleEpochSecretKeyShare_def none index_shares [OF s] Let_def verify_share [OF B s]
      if_True if_False not_True_eq_False sum.case simp_thms)
qed

lemma Handle_bad:
  assumes B: "bn_ok B" and inv: "kg_inv B p kg" and none: "kg_SecretKeys kg (kgs_Epoch sh) = None"
    and bad: "\<not> good_shares B p (kg_NumKeypers kg) (kgs_Epoch sh) (held_shares kg (kgs_Epoch sh) @ [sh])"
  shows "\<exists>e. HandleEpochSecretKeyShare B sh kg = (Some e, kg)"
proof -
  have s: "kg_setup B p kg" using inv by (simp add: kg_inv_def)
  consider "\<not> kgs_Sender sh < kg_NumKeypers kg"
    | "kgs_Sender sh < kg_NumKeypers kg" "kgs_Share sh \<noteq> share_of B p (kgs_Sender sh) (kgs_Epoch sh)"
    | "kgs_Sender sh < kg_NumKeypers kg" "kgs_Share sh = share_of B p (kgs_Sender sh) (kgs_Epoch sh)"
      "\<exists>s\<in>set (held_shares kg (kgs_Epoch sh)). kgs_Sender s = kgs_Sender sh"
    using bad Handle_held(1) [OF inv] by (auto simp: good_shares_snoc)
  then show ?thesis
  proof cases
    case 1
    then show ?thesis by (simp add: HandleEpochSecretKeyShare_def none index_shares [OF s] Let_def)
  next
    case 2
    then show ?thesis
      by (simp add: HandleEpochSecretKeyShare_def none index_shares [OF s] Let_def verify_share [OF B s])
  next
    case 3
    then show ?thesis
      by (simp add: HandleEpochSecretKeyShare_def none index_shares [OF s] Let_def verify_share [OF B s] add_duplicate)
  qed
qed

lemma Handle_known: "kg_SecretKeys kg (kgs_Epoch sh) \<noteq> None \<Longrightarrow> HandleEpochSecretKeyShare B sh kg = (None, kg)"
  by (simp add: HandleEpochSecretKeyShare_def)

lemma Handle_inv [inv_intros]:
  assumes B: "bn_ok B" and inv: "kg_inv B p kg"
  shows "kg_inv B p (snd (HandleEpochSecretKeyShare B sh kg))"
proof (cases "kg_SecretKeys kg (kgs_Epoch sh) = None")
  case none: True
  show ?thesis
  proof (cases "good_shares B p (kg_NumKeypers kg) (kgs_Epoch sh) (held_shares kg (kgs_Epoch sh) @ [sh])")
    case True
    then show ?thesis using inv Handle_held(2) [OF inv, of "kgs_Epoch sh"]
      by (simp add: Handle_good [OF B inv none True] kg_inv_def kg_setup_def)
  next
    case False
    then show ?thesis using Handle_bad [OF B inv none False] inv by auto
  qed
qed (use inv in \<open>simp add: Handle_known\<close>)

lemma NewEpochKG_inv [inv_intros]:
  assumes c: "consistent B p r" and t: "0 < res_Threshold r" "res_Threshold r \<le> res_NumKeypers r"
    and n: "unat (res_NumKeypers r) < 2 ^ 63" "int (unat (res_NumKeypers r)) \<le> Order B"
  shows "kg_inv B p (NewEpochKG r)"
  using assms by (simp add: kg_inv_def kg_setup_def NewEpochKG_def consistent_def)

text \<open>The share a keyper computes is the one the others accept.\<close>

lemma own_share:
  assumes B: "bn_ok B" and c: "kg_SecretKeyShare kg = peval p (KeyperX (sint k)) mod Order B"
  shows "kg_ComputeEpochSecretKeyShare B kg epoch = share_of B p k epoch"
proof -
  obtain h where h: "ComputeEpochID B epoch = G1_ScalarBaseMult B h" using G1_exp [OF B] by blast
  have "cng (Order B) (h * (peval p (KeyperX (sint k)) mod Order B)) (h * peval p (KeyperX (sint k)))"
    by (intro cng_intros) simp
  then show ?thesis using B
    by (simp add: kg_ComputeEpochSecretKeyShare_def share_of_def c h ComputeEpochSecretKeyShare_def group_simps)
qed

section \<open>Enough shares give the key\<close>

text \<open>
  A keyper that handles the shares it reads one after the other; the errors are only logged. What each call
  returns is dropped, also its panic, which needs a sender that is no index of the public key shares: the
  caller (\<open>syncEpochSecretKeySharesForEon\<close>) passes the index of a keyper of the key generation.
\<close>

definition Handle_all :: "('g1, 'g2, 'gt) bn256 \<Rightarrow> 'g1 KGShare list \<Rightarrow> ('g1, 'g2) EpochKG \<Rightarrow> ('g1, 'g2) EpochKG" where
  "Handle_all B shs kg = foldl (\<lambda>kg sh. snd (HandleEpochSecretKeyShare B sh kg)) kg shs"

lemma Handle_all_snoc: "Handle_all B (shs @ [sh]) kg = snd (HandleEpochSecretKeyShare B sh (Handle_all B shs kg))"
  by (simp add: Handle_all_def)

lemma Handle_all_inv: "bn_ok B \<Longrightarrow> kg_inv B p kg \<Longrightarrow> kg_inv B p (Handle_all B shs kg)"
  by (induction shs rule: rev_induct) (simp_all add: Handle_all_snoc Handle_inv, simp add: Handle_all_def)

lemma Handle_frame:
  "kg_NumKeypers (snd (HandleEpochSecretKeyShare B sh kg)) = kg_NumKeypers kg"
  "kg_Threshold (snd (HandleEpochSecretKeyShare B sh kg)) = kg_Threshold kg"
  by (auto simp: HandleEpochSecretKeyShare_def addEpochSecretKeyShare_def Let_def split: sum.split go_error.split)

lemma Handle_all_frame:
  "kg_NumKeypers (Handle_all B shs kg) = kg_NumKeypers kg" "kg_Threshold (Handle_all B shs kg) = kg_Threshold kg"
  by (induction shs rule: rev_induct) (simp_all add: Handle_all_snoc Handle_frame, simp_all add: Handle_all_def)

text \<open>
  Whatever shares arrive, in whatever order, valid or not, repeated or not: the key of an epoch is
  there exactly when threshold many keypers have sent a valid share, and it is the right one.
\<close>

definition valid_share :: "('g1, 'g2, 'gt) bn256 \<Rightarrow> int list \<Rightarrow> u64 \<Rightarrow> u64 \<Rightarrow> 'g1 KGShare \<Rightarrow> bool" where
  "valid_share B p n epoch sh \<longleftrightarrow> kgs_Epoch sh = epoch \<and> kgs_Sender sh < n \<and> kgs_Share sh = share_of B p (kgs_Sender sh) epoch"

definition valid_senders :: "('g1, 'g2, 'gt) bn256 \<Rightarrow> int list \<Rightarrow> u64 \<Rightarrow> u64 \<Rightarrow> 'g1 KGShare list \<Rightarrow> u64 set" where
  "valid_senders B p n epoch shs = kgs_Sender ` {sh\<in>set shs. valid_share B p n epoch sh}"

lemma valid_senders_snoc: "valid_senders B p n e (shs @ [sh]) =
  (if valid_share B p n e sh then insert (kgs_Sender sh) (valid_senders B p n e shs) else valid_senders B p n e shs)"
  by (auto simp: valid_senders_def)

lemma good_valid: "good_shares B p n e ss \<Longrightarrow> good_shares B p n e (ss @ [sh]) \<longleftrightarrow>
    valid_share B p n e sh \<and> kgs_Sender sh \<notin> kgs_Sender ` set ss"
  unfolding good_shares_snoc valid_share_def by (metis (no_types, lifting) image_iff)

lemma held_update [simp]:
  "held_shares (kg \<lparr> kg_SecretShares := (kg_SecretShares kg)(e' := x) \<rparr>) e =
     (if e = e' then (case x of None \<Rightarrow> [] | Some ss \<Rightarrow> ss) else held_shares kg e)"
  "held_shares (kg \<lparr> kg_SecretShares := f, kg_SecretKeys := k \<rparr>) e = held_shares (kg \<lparr> kg_SecretShares := f \<rparr>) e"
  by (simp_all add: held_shares_def)

definition collected :: "('g1, 'g2, 'gt) bn256 \<Rightarrow> int list \<Rightarrow> u64 \<Rightarrow> 'g1 KGShare list \<Rightarrow> ('g1, 'g2) EpochKG \<Rightarrow> bool" where
  "collected B p e shs kg \<longleftrightarrow>
     (if kg_SecretKeys kg e = None then kgs_Sender ` set (held_shares kg e) = valid_senders B p (kg_NumKeypers kg) e shs
      else unat (kg_Threshold kg) \<le> card (valid_senders B p (kg_NumKeypers kg) e shs))"

lemma finite_valid_senders [simp]: "finite (valid_senders B p n e shs)"
  by (simp add: valid_senders_def)

lemma collected_more:
  "collected B p e shs kg \<Longrightarrow> kg_SecretKeys kg e \<noteq> None \<Longrightarrow> collected B p e (shs @ [sh]) kg"
  unfolding collected_def valid_senders_snoc by (auto intro: order_trans [OF _ card_mono])

lemma collected_step:
  assumes B: "bn_ok B" and inv: "kg_inv B p kg" and c: "collected B p e shs kg"
  shows "collected B p e (shs @ [sh]) (snd (HandleEpochSecretKeyShare B sh kg))"
proof (cases "kg_SecretKeys kg (kgs_Epoch sh) = None")
  case False
  then have h: "snd (HandleEpochSecretKeyShare B sh kg) = kg" by (simp add: Handle_known)
  show ?thesis
  proof (cases "kgs_Epoch sh = e")
    case True
    then show ?thesis unfolding h using collected_more [OF c] False by simp
  next
    case other: False
    then have "\<not> valid_share B p (kg_NumKeypers kg) e sh" by (simp add: valid_share_def)
    then show ?thesis unfolding h using c by (simp add: collected_def valid_senders_snoc)
  qed
next
  case none: True
  note old = Handle_held [OF inv, of "kgs_Epoch sh"]
  show ?thesis
  proof (cases "good_shares B p (kg_NumKeypers kg) (kgs_Epoch sh) (held_shares kg (kgs_Epoch sh) @ [sh])")
    case True
    note step = Handle_good [OF B inv none True]
    have v: "valid_share B p (kg_NumKeypers kg) (kgs_Epoch sh) sh" "kgs_Sender sh \<notin> kgs_Sender ` set (held_shares kg (kgs_Epoch sh))"
      using True good_valid [OF old(1)] by simp_all
    show ?thesis
    proof (cases "kgs_Epoch sh = e")
      case e: True
      have s: "kgs_Sender ` set (held_shares kg e) = valid_senders B p (kg_NumKeypers kg) e shs"
        using c none e by (simp add: collected_def)
      note v' = v [unfolded e s]
      have "card (valid_senders B p (kg_NumKeypers kg) e shs) = length (held_shares kg e)"
        using old(1) e s distinct_card [of "map kgs_Sender (held_shares kg e)"] by (simp add: good_shares_def)
      then have n: "card (valid_senders B p (kg_NumKeypers kg) e (shs @ [sh])) = Suc (length (held_shares kg e))"
        using v' by (simp add: valid_senders_snoc)
      show ?thesis using n v'(1) none s by (simp add: step e collected_def) (simp add: valid_senders_snoc)
    next
      case False
      then have "\<not> valid_share B p (kg_NumKeypers kg) e sh" by (simp add: valid_share_def)
      then show ?thesis using c False by (simp add: step collected_def valid_senders_snoc)
    qed
  next
    case False
    then have "\<not> (valid_share B p (kg_NumKeypers kg) (kgs_Epoch sh) sh \<and>
        kgs_Sender sh \<notin> kgs_Sender ` set (held_shares kg (kgs_Epoch sh)))"
      using good_valid [OF old(1)] by simp
    moreover have "snd (HandleEpochSecretKeyShare B sh kg) = kg" using Handle_bad [OF B inv none False] by auto
    ultimately show ?thesis using c none
      by (cases "kgs_Epoch sh = e") (auto simp: collected_def valid_senders_snoc valid_share_def)
  qed
qed

lemma Handle_all_collected:
  assumes B: "bn_ok B" and inv: "kg_inv B p kg" and none: "kg_SecretShares kg e = None" "kg_SecretKeys kg e = None"
  shows "collected B p e shs (Handle_all B shs kg)"
proof (induction shs rule: rev_induct)
  case Nil
  then show ?case using none by (simp add: Handle_all_def collected_def valid_senders_def held_shares_def)
next
  case (snoc sh shs)
  then show ?case unfolding Handle_all_snoc by (rule collected_step [OF B Handle_all_inv [OF B inv]])
qed

lemma key_iff_enough_shares:
  assumes B: "bn_ok B" and inv: "kg_inv B p kg" and none: "kg_SecretShares kg e = None" "kg_SecretKeys kg e = None"
  shows "kg_SecretKeys (Handle_all B shs kg) e =
    (if unat (kg_Threshold kg) \<le> card (valid_senders B p (kg_NumKeypers kg) e shs)
     then Some (Some (epoch_key B p e)) else None)"

proof (cases "kg_SecretKeys (Handle_all B shs kg) e")
  case None
  have "card (valid_senders B p (kg_NumKeypers kg) e shs) \<le> length (held_shares (Handle_all B shs kg) e)"
    using Handle_all_collected [OF assms, of shs] None card_length [of "map kgs_Sender (held_shares (Handle_all B shs kg) e)"]
    by (simp add: collected_def Handle_all_frame)
  also have "\<dots> < unat (kg_Threshold kg)"
    using Handle_held(2) [OF Handle_all_inv [OF B inv]] by (simp add: Handle_all_frame)
  finally show ?thesis using None by simp
next
  case (Some k)
  then have "unat (kg_Threshold kg) \<le> card (valid_senders B p (kg_NumKeypers kg) e shs)"
    using Handle_all_collected [OF assms, of shs] by (simp add: collected_def Handle_all_frame)
  moreover have "k = Some (epoch_key B p e)" using Some Handle_all_inv [OF B inv, of shs] by (simp add: kg_inv_def)
  ultimately show ?thesis using Some by simp
qed

section \<open>From the key generation to decryption\<close>

text \<open>A share computed by a keyper whose key generation saw the same messages as \<open>a\<close>.\<close>

definition keyper_share :: "('g1, 'g2, 'gt) bn256 \<Rightarrow> 'g2 PureDKG \<Rightarrow> u64 \<Rightarrow> 'g1 KGShare \<Rightarrow> bool" where
  "keyper_share B a epoch sh \<longleftrightarrow> kgs_Epoch sh = epoch \<and> kgs_Sender sh < pd_NumKeypers a \<and>
     (\<exists>b O' r. same_view a b \<and> wf_dkg B b \<and> pd_Keyper b = kgs_Sender sh \<and> ComputeResult O' B b = Inr r \<and>
        kgs_Share sh = kg_ComputeEpochSecretKeyShare B (NewEpochKG r) epoch)"

lemma result_fields:
  "ComputeResult O' B a = Inr r \<Longrightarrow> res_NumKeypers r = pd_NumKeypers a \<and> res_Threshold r = pd_Threshold a \<and>
     res_Keyper r = pd_Keyper a"
  by (auto elim!: ComputeResult_Inr)

lemma same_view_sane: "same_view a b \<Longrightarrow> sane_commitments a \<Longrightarrow> sane_commitments b"
  by (simp add: same_view_def sane_commitments_def)

lemma keyper_share_valid:
  assumes B: "bn_ok B" and a: "wf_dkg B a" "sane_commitments a" and ra: "ComputeResult O' B a = Inr ra"
    and p: "consistent B p ra" and sh: "keyper_share B a epoch sh"
  shows "valid_share B p (pd_NumKeypers a) epoch sh"
proof -
  obtain b O2 rb where b: "same_view a b" "wf_dkg B b" "pd_Keyper b = kgs_Sender sh" "ComputeResult O2 B b = Inr rb"
    "kgs_Share sh = kg_ComputeEpochSecretKeyShare B (NewEpochKG rb) epoch"
    using sh by (auto simp: keyper_share_def)
  obtain q where q: "consistent B q rb"
    using ComputeResult_consistent [OF B same_view_sane [OF b(1) a(2)] b(4)] by blast
  have lt: "kgs_Sender sh < pd_NumKeypers a" using sh by (simp add: keyper_share_def)
  have "res_SecretKeyShare rb = peval p (KeyperX (sint (res_Keyper rb))) mod Order B"
    using ComputeResult_agreement [OF b(1) a(1) b(2) ra b(4)] result_fields [OF b(4)] result_fields [OF ra] b lt
    by (intro agreed_secret_shares [OF B p q]) simp_all
  then have "kg_SecretKeyShare (NewEpochKG rb) = peval p (KeyperX (sint (kgs_Sender sh))) mod Order B"
    using result_fields [OF b(4)] b(3) by (simp add: NewEpochKG_def)
  then have "kgs_Share sh = share_of B p (kgs_Sender sh) epoch" using own_share [OF B] b(5) by metis
  then show ?thesis using sh by (simp add: valid_share_def keyper_share_def)
qed

text \<open>
  Shares of threshold many keypers, among any others, give a key that decrypts what was encrypted
  with the public key of the generation.
\<close>

lemma collected_key_decrypts:
  assumes B: "bn_ok B" and a: "wf_dkg B a" "sane_commitments a" and ra: "ComputeResult O' B a = Inr ra"
    and t: "0 < pd_Threshold a" "pd_Threshold a \<le> pd_NumKeypers a"
    and n: "unat (pd_NumKeypers a) < 2 ^ 63" "int (unat (pd_NumKeypers a)) \<le> Order B"
    and enough: "unat (pd_Threshold a) \<le> card (kgs_Sender ` {sh\<in>set shs. keyper_share B a epoch sh})"
    and sigma: "is_block sigma"
  shows "\<exists>k. kg_SecretKeys (Handle_all B shs (NewEpochKG ra)) epoch = Some (Some k) \<and>
    Decrypt B (Encrypt B m (res_PublicKey ra) (ComputeEpochID B epoch) sigma) k = Inr m"
proof -
  obtain p where p: "consistent B p ra" using ComputeResult_consistent [OF B a(2) ra] by blast
  note f = result_fields [OF ra]
  have inv: "kg_inv B p (NewEpochKG ra)" using NewEpochKG_inv [OF p] t n f by simp
  have "kgs_Sender ` {sh\<in>set shs. keyper_share B a epoch sh} \<subseteq> valid_senders B p (pd_NumKeypers a) epoch shs"
    using keyper_share_valid [OF B a ra p] by (auto simp: valid_senders_def)
  then have "unat (pd_Threshold a) \<le> card (valid_senders B p (pd_NumKeypers a) epoch shs)"
    using enough card_mono [OF finite_valid_senders] by (meson order_trans)
  then have "kg_SecretKeys (Handle_all B shs (NewEpochKG ra)) epoch = Some (Some (epoch_key B p epoch))"
    using key_iff_enough_shares [OF B inv] f by (simp add: NewEpochKG_def)
  then show ?thesis
    using Decrypt_Encrypt [OF B sigma] p
    by (intro exI [of _ "epoch_key B p epoch"]) (simp add: epoch_key_def consistent_def)
qed

end
