(* ===== verification/SmallRun.thy ===== *)
theory SmallRun
  imports SmallInstance AppSteps EpochKG
begin

text \<open>
  Concrete messages, chain states and key generations, for the witnesses only: a chain of two keypers
  with threshold one, one signed transaction, and a key generation of two keypers with threshold two
  over the groups of order five. Nothing here models code.
\<close>

section \<open>The chain\<close>

definition small_orders :: map_orders where
  "small_orders = \<lparr> ord_votes = (\<lambda>xs. xs), ord_counts = (\<lambda>xs. xs), ord_powers = (\<lambda>xs. xs) \<rparr>"

definition rev_orders :: map_orders where
  "rev_orders = \<lparr> ord_votes = rev, ord_counts = rev, ord_powers = rev \<rparr>"

lemma small_orders_ok: "orders_ok small_orders" "orders_ok rev_orders"
  by (simp_all add: orders_ok_def small_orders_def rev_orders_def ranging_def)

definition small_mwn :: MessageWithNonce where
  "small_mwn = \<lparr> mwn_Msg = Some (NewEonStartVote 5), mwn_ChainId = [7], mwn_RandomNonce = 42 \<rparr>"

definition small_mwn2 :: MessageWithNonce where
  "small_mwn2 = \<lparr> mwn_Msg = Some (NewDecryptionSignature 5 [0]), mwn_ChainId = [7], mwn_RandomNonce = 43 \<rparr>"

lemma small_mwn_diff [simp]: "small_mwn2 \<noteq> small_mwn" "small_mwn \<noteq> small_mwn2"
  by (simp_all add: small_mwn_def small_mwn2_def)

definition small_proto :: proto where
  "small_proto = \<lparr>
     proto_Marshal = (\<lambda>m. if m = small_mwn then Inr [1] else if m = small_mwn2 then Inr [2] else Inl (Errorf ''marshal'')),
     proto_Unmarshal = (\<lambda>d. if d = [1] then Inr small_mwn else if d = [2] then Inr small_mwn2 else Inl (Errorf ''unmarshal'')),
     msg_Marshal = (\<lambda>m. Inl (Errorf ''marshal'')), msg_Unmarshal = (\<lambda>d. Inl (Errorf ''unmarshal'')),
     sha3_256 = pad_bytes 32 \<rparr>"

lemma small_proto_ok: "proto_ok small_proto"
  by (simp add: proto_ok_def small_proto_def)

definition small_signed :: bytes where
  "small_signed = pad_bytes 65 [1] @ [1]"

lemma small_SignMessage: "SignMessage small_eth small_proto small_mwn 1 = Inr small_signed"
  by (simp add: SignMessage_def small_proto_def small_eth_def small_signed_def)

definition small_tx :: string where
  "small_tx = b64_EncodeToString small_signed"

lemma small_signer: "PubkeyToAddress small_eth (sk_PublicKey small_eth 1) = 1"
  by (simp add: small_eth_def)

lemma small_decodeTx: "decodeTx small_eth small_proto small_tx = Inr (1, small_mwn)"
  using GetSigner_SignMessage [OF eth_ok_small small_proto_ok small_SignMessage]
  by (simp add: decodeTx_def small_tx_def small_signer)

definition small_tx2 :: string where
  "small_tx2 = b64_EncodeToString (pad_bytes 65 [1] @ [2])"

lemma small_decodeTx2: "decodeTx small_eth small_proto small_tx2 = Inr (1, small_mwn2)"
proof -
  have "SignMessage small_eth small_proto small_mwn2 1 = Inr (pad_bytes 65 [1] @ [2])"
    by (simp add: SignMessage_def small_proto_def small_eth_def)
  from GetSigner_SignMessage [OF eth_ok_small small_proto_ok this] show ?thesis
    by (simp add: decodeTx_def small_tx2_def small_signer)
qed

definition small_disk :: disk where
  "small_disk = \<lparr> disk_Create = None, disk_Encode = None, disk_Sync = None, disk_Rename = None \<rparr>"

definition small_unmarshal :: "bytes \<Rightarrow> GenesisAppState result" where
  "small_unmarshal d = Inr (NewGenesisAppState [1, 2] 1)"

definition small_request :: RequestInitChain where
  "small_request = \<lparr> req_AppStateBytes = [], req_Validators =
     [\<lparr> vu_PubKey = Some (replicate 32 9), vu_Power = 10 \<rparr>], req_ChainId = [7] \<rparr>"

definition small_config :: BatchConfig where
  "small_config = emptyBatchConfig \<lparr> bc_Keypers := [1, 2], bc_Threshold := 1 \<rparr>"

definition small_app :: ShielderApp where
  "small_app = NewShielderApp \<lparr> app_Configs := [small_config],
     app_Validators := [(ValidatorPubkey (replicate 32 9), 10)],
     app_CheckTxState := SetMembers [1, 2] NewCheckTxState, app_ChainID := [7] \<rparr>"

lemma small_InitChain: "InitChain small_unmarshal small_request NewShielderApp = Inr small_app"
  by (simp add: InitChain_def small_unmarshal_def small_request_def small_app_def small_config_def
      NewShielderApp_def emptyBatchConfig_def NewGenesisAppState_def GetKeypers_def EnsureValid_def
      MakePowermap_def NewValidatorPubkey_def PublicKeySize_def add_power_def power_of_def Let_def
      updateCheckTxMembers_def)

lemma small_reachable: "reachable small_unmarshal B E P small_app"
  unfolding reachable_def using small_InitChain run_refl by blast

lemma small_app_inv: "app_inv small_app"
  by (rule InitChain_inv [OF small_InitChain])

section \<open>A key generation\<close>

definition small_dkg_orders :: dkg_orders where
  "small_dkg_orders = \<lparr> ord_Accusations = (\<lambda>xs. xs), ord_Apologies = (\<lambda>xs. xs) \<rparr>"

definition small_dkg :: "u64 \<Rightarrow> int list \<Rightarrow> z5 PureDKG" where
  "small_dkg keyper evals = \<lparr> pd_Phase = Finalized, pd_Eon = 1, pd_NumKeypers = 2, pd_Threshold = 2,
     pd_Keyper = keyper, pd_Polynomial = None,
     pd_Commitments = [Some (Polynomial_Gammas bn5 [1, 2]), Some (Polynomial_Gammas bn5 [3, 1])],
     pd_Evals = map Some evals, pd_Accusations = [(1, 0)], pd_Apologies = [((1, 0), 0)] \<rparr>"

definition small_result :: "u64 \<Rightarrow> int \<Rightarrow> z5 Result" where
  "small_result keyper share = \<lparr> res_Eon = 1, res_NumKeypers = 2, res_Threshold = 2, res_Keyper = keyper,
     res_SecretKeyShare = share, res_PublicKey = Z4, res_PublicKeyShares = [Z2, Z0] \<rparr>"

lemma small_dkg_orders_ok: "dkg_orders_ok small_dkg_orders"
  by (simp add: dkg_orders_ok_def small_dkg_orders_def ranging_def)

lemma small_results:
  "ComputeResult small_dkg_orders bn5 (small_dkg 0 [3, 4]) = Inr (small_result 0 2)"
  "ComputeResult small_dkg_orders bn5 (small_dkg 1 [4, 0]) = Inr (small_result 1 0)"
  by code_simp+

lemma small_wf: "wf_dkg bn5 (small_dkg 0 [3, 4])" "wf_dkg bn5 (small_dkg 1 [4, 0])"
  by (auto simp: wf_dkg_def small_dkg_def wf_map_def Gammas_Degree_def DegreeFromThreshold_def ValidEval_iff bn5_def
      Polynomial_Gammas_def)

lemma small_sane: "sane_commitments (small_dkg k es)"
  by (auto simp: sane_commitments_def small_dkg_def Polynomial_Gammas_def)

lemma small_view: "same_view (small_dkg j es) (small_dkg k fs)"
  by (simp add: same_view_def small_dkg_def)

definition small_share :: "u64 \<Rightarrow> int \<Rightarrow> z5 KGShare" where
  "small_share k share = \<lparr> kgs_Eon = 1, kgs_Epoch = 7, kgs_Sender = k,
     kgs_Share = kg_ComputeEpochSecretKeyShare bn5 (NewEpochKG (small_result k share)) 7 \<rparr>"

lemma small_share_fields [simp]: "kgs_Epoch (small_share k x) = 7" "kgs_Sender (small_share k x) = k"
  "pd_NumKeypers (small_dkg k es) = 2" "pd_Threshold (small_dkg k es) = 2" "pd_Keyper (small_dkg k es) = k"
  by (simp_all add: small_share_def small_dkg_def)

lemma small_keyper_share:
  assumes "wf_dkg bn5 (small_dkg k es)" "ComputeResult small_dkg_orders bn5 (small_dkg k es) = Inr (small_result k x)" "k < 2"
  shows "keyper_share bn5 (small_dkg j fs) 7 (small_share k x)"
  unfolding keyper_share_def using small_view assms
  by (intro conjI exI [of _ "small_dkg k es"] exI [of _ small_dkg_orders] exI [of _ "small_result k x"])
    (simp_all add: small_share_def)

lemma small_keyper_shares:
  "keyper_share bn5 (small_dkg 0 [3, 4]) 7 (small_share 0 2)"
  "keyper_share bn5 (small_dkg 0 [3, 4]) 7 (small_share 1 0)"
  by (rule small_keyper_share [OF small_wf(1) small_results(1)], simp,
      rule small_keyper_share [OF small_wf(2) small_results(2)], simp)

lemma small_phase [simp]: "pd_Phase (small_dkg k es) = Finalized"
  by (simp add: small_dkg_def)

lemma small_upto: "upto64 2 = [0, 1]"
  by (simp add: upto64_def upt_rec)

lemma small_two: "i < (2 :: u64) \<Longrightarrow> i = 0 \<or> i = 1"
  using set_upto64 [of 2] unfolding small_upto by auto

lemma small_consistent: "consistent bn5 [4, 3] (small_result 0 2)"
  by (auto simp: consistent_def small_result_def bn5_def KeyperX_def z5_of_def dest!: small_two)

lemma small_base: "G2_ScalarBaseMult bn5 4 = Z4"
  by (simp add: bn5_def z5_of_def)

definition small_polys :: "u64 \<Rightarrow> int list option" where
  "small_polys i = (if i = 0 then Some [1, 2] else Some [3, 1])"

lemma small_dealers:
  assumes "i < pd_NumKeypers (small_dkg 0 [3, 4])"
  shows "case small_polys i of Some p \<Rightarrow> honest_dealer bn5 (small_dkg 0 [3, 4]) i p
    | None \<Rightarrow> isCorrupt bn5 (small_dkg 0 [3, 4]) i = Inr True"
proof -
  have "honest_dealer bn5 (small_dkg 0 [3, 4]) 0 [1, 2]"
    by (simp add: honest_dealer_def small_dkg_def index_at_def Polynomial_Degree_def DegreeFromThreshold_def
        KeyperX_def cng_def bn5_def)
  moreover have "honest_dealer bn5 (small_dkg 0 [3, 4]) 1 [3, 1]"
    by (simp add: honest_dealer_def small_dkg_def index_at_def Polynomial_Degree_def DegreeFromThreshold_def
        KeyperX_def cng_def bn5_def)
  ultimately show ?thesis using assms by (auto simp: small_polys_def dest!: small_two)
qed

section \<open>A transaction\<close>

lemma small_DeliverTx:
  "\<exists>r app'. DeliverTx small_orders bn5 small_eth small_proto small_tx small_app = Inr (r, app') \<and> resp_Code r = 0"
proof -
  have "small_app \<lparr> app_NonceTracker := t \<rparr> = x \<Longrightarrow> getConfig x 5 = Inr small_config" for x t
    by (auto simp: getConfig_def small_app_def small_config_def emptyBatchConfig_def)
  moreover have "IsKeyper small_config 1" by (simp add: IsKeyper_iff small_config_def)
  ultimately show ?thesis
    by (auto simp: DeliverTx_def small_decodeTx small_mwn_def NewEonStartVote_def deliverEonStartVoteMsg_def
        okResponse_def small_app_def NewShielderApp_def Let_def split: prod.split option.split)
qed

section \<open>The votes of the small chain\<close>

definition small_next :: BatchConfig where
  "small_next = emptyBatchConfig \<lparr> bc_Keypers := [1, 2, 3], bc_StartBatchIndex := 10, bc_Threshold := 2, bc_ConfigIndex := 1 \<rparr>"

definition small_bcm :: ShBatchConfig where
  "small_bcm = \<lparr> sbc_StartBatchIndex = 10, sbc_Keypers = map (Address_Bytes small_eth) [1, 2, 3], sbc_Threshold = 2,
     sbc_ConfigContractAddress = Address_Bytes small_eth 0, sbc_ConfigIndex = 1, sbc_Started = False,
     sbc_ValidatorsUpdated = False \<rparr>"

lemma small_bcm_decoded: "BatchConfigFromMessage small_eth small_bcm = Inr small_next"
  using BatchConfigFromMessage_NewBatchConfig [OF eth_ok_small, of "[1, 2, 3]" 10 2 0 1 False False small_bcm]
  by (simp add: NewBatchConfig_def small_bcm_def small_next_def emptyBatchConfig_def)

lemma small_last: "LastConfig (small_app \<lparr> app_StartedVotes := S \<rparr>) = Inr small_config"
  by (simp add: LastConfig_def small_app_def)

lemma small_accept:
  "\<exists>r app'. deliverBatchConfig small_orders small_eth small_bcm 1 (small_app \<lparr> app_StartedVotes := S \<rparr>) = Inr (r, app') \<and>
     app_Configs app' \<noteq> app_Configs (small_app \<lparr> app_StartedVotes := S \<rparr>)"
proof -
  let ?app = "small_app \<lparr> app_StartedVotes := S \<rparr>"
  have c: "checkConfig ?app small_next = Inr ()"
    using checkConfig_Inr [of ?app small_next "()"]
    by (simp add: small_app_def small_config_def small_next_def emptyBatchConfig_def EnsureValid_None_iff)
  have a: "allowedToVoteOnConfigChanges ?app 1 = Inr True"
    using IsKeyper_iff [of small_config 1]
    by (simp add: allowedToVoteOnConfigChanges_def small_last IsKeyper_def) (simp add: small_config_def)
  let ?v = "\<lparr> vt_Votes = [(1, 0)], cv_Candidates = [small_next] \<rparr>"
  have cfg: "app_Configs small_app = [small_config]" by (simp add: small_app_def)
  have v: "ConfigVoting_AddVote 1 small_next (app_ConfigVoting small_app) = Inr ?v"
    by (simp add: ConfigVoting_AddVote_def small_app_def NewShielderApp_def NewConfigVoting_def AddVoteForIndex_def)
  have o: "ConfigVoting_Outcome small_orders ?v (sint (bc_Threshold small_config)) = Some small_next"
    by (simp add: ConfigVoting_Outcome_def OutcomeIndex_def count_votes_def small_orders_def small_config_def)
  have d: "addConfig small_next (small_app \<lparr> app_StartedVotes := S, app_ConfigVoting := x \<rparr>) = Inr (updateCheckTxMembers
      (small_app \<lparr> app_StartedVotes := S, app_ConfigVoting := x, app_Configs := [small_config, small_next] \<rparr>))" for x
    using c checkConfig_frame [of _ ?app] by (simp add: addConfig_def cfg)
  have "small_config \<noteq> small_next"
    by (simp add: small_config_def small_next_def emptyBatchConfig_def)
  then show ?thesis
    by (auto simp: deliverBatchConfig_def small_bcm_decoded cfg c a v o d Let_def frame_simps LastConfig_def
        StartDKG_def cfg split: prod.split)
qed

lemma small_eon:
  "\<exists>r app'. deliverEonStartVoteMsg small_orders 5 1 small_app = Inr (r, app') \<and> app_EONCounter app' \<noteq> app_EONCounter small_app"
proof -
  have g: "getConfig small_app 5 = Inr small_config"
    by (simp add: getConfig_def small_app_def) (simp add: small_config_def emptyBatchConfig_def)
  have k: "IsKeyper small_config 1" by (simp add: IsKeyper_iff small_config_def)
  let ?v = "\<lparr> vt_Votes = [(1, 0)], ev_Candidates = [5] \<rparr>"
  have v: "EonStartVoting_AddVote 1 5 NewEonStartVoting = ?v"
    by (simp add: EonStartVoting_AddVote_def NewEonStartVoting_def AddVoteForIndex_def)
  have o: "EonStartVoting_Outcome small_orders ?v (sint (bc_Threshold small_config)) = Some 5"
    by (simp add: EonStartVoting_Outcome_def OutcomeIndex_def count_votes_def small_orders_def small_config_def)
  have f: "app_EonStartVotings small_app = Map.empty" "app_EONCounter small_app = 0"
    by (simp_all add: small_app_def NewShielderApp_def)
  show ?thesis
    by (auto simp: deliverEonStartVoteMsg_def g k countEonStartVote_def maybeStartEon_def f v o Let_def StartDKG_def)
qed

lemma small_signature:
  "\<exists>r app' bs. DeliverTx small_orders bn5 small_eth small_proto small_tx2 small_app = Inr (r, app') \<and>
     app_BatchStates app' 5 = Some bs \<and> bs_DecryptionSignatures bs \<noteq> []"
proof -
  have g: "getConfig (small_app \<lparr> app_NonceTracker := t \<rparr>) 5 = Inr small_config" for t
    by (simp add: getConfig_def small_app_def) (simp add: small_config_def emptyBatchConfig_def)
  have k: "IsKeyper small_config 1" by (simp add: IsKeyper_iff small_config_def)
  have f: "app_ChainID small_app = [7]" "app_BatchStates small_app = Map.empty"
    "NonceTracker_Check (app_NonceTracker small_app) a n" for a n
    by (simp_all add: small_app_def NewShielderApp_def)
  show ?thesis
    using g k by (simp add: DeliverTx_def small_decodeTx2 small_mwn2_def NewDecryptionSignature_def f
        deliverDecryptionSignature_def getBatchState_def AddDecryptionSignature_def Let_def)
qed

section \<open>Messages of a key generation\<close>

definition small_poly_eval :: PolyEval where
  "small_poly_eval = \<lparr> pe_Height = 0, pe_Sender = 1, pe_Eon = 1, pe_Receivers = [2], pe_EncryptedEvals = [[5]] \<rparr>"

definition small_commitment :: "z5 PolyCommitment" where
  "small_commitment = \<lparr> pc_Height = 0, pc_Eon = 1, pc_Sender = 1, pc_Gammas = Some [Z1] \<rparr>"

lemma small_poly_eval_accepted: "\<exists>d'. RegisterPolyEvalMsg small_poly_eval (NewDKGInstance small_config 1) = Inr d'"
  unfolding RegisterPolyEvalMsg_Inr
  by (simp add: small_poly_eval_def NewDKGInstance_def IsKeyper_iff) (simp add: small_config_def)

lemma small_commitment_accepted:
  "\<exists>d'. RegisterPolyCommitmentMsg small_commitment (NewDKGInstance small_config 1) = Inr d'"
  unfolding RegisterPolyCommitmentMsg_Inr
  by (simp add: small_commitment_def NewDKGInstance_def IsKeyper_iff) (simp add: small_config_def)

end
