(* ===== verification/AppFacts.thy ===== *)
theory AppFacts
  imports AppSteps
begin

text \<open>
  What follows for whole calls of the application: a transaction that fails changes nothing but the
  nonce it used, an eon starts only on the votes of threshold many keypers, the updates of a block
  turn the old voting powers into the new ones; and three consequences of how configs are stored.
\<close>

section \<open>Failed transactions\<close>

lemma okResponse_Code [simp]: "resp_Code (okResponse evs) = 0"
  by (simp add: okResponse_def)

lemma makeErrorResponse_Code [simp]: "resp_Code (makeErrorResponse msg) = 1"
  by (simp add: makeErrorResponse_def)

lemma handler_errors:
  "deliverBatchConfigStarted i s app = Inr (r, app') \<Longrightarrow> resp_Code r \<noteq> 0 \<Longrightarrow> app' = app"
  "deliverCheckIn E ci s app = Inr (r, app') \<Longrightarrow> resp_Code r \<noteq> 0 \<Longrightarrow> app' = app"
  "deliverEonStartVoteMsg R b s app = Inr (r, app') \<Longrightarrow> resp_Code r \<noteq> 0 \<Longrightarrow> app' = app"
  "deliverDecryptionSignature E ds s app = Inr (r, app') \<Longrightarrow> resp_Code r \<noteq> 0 \<Longrightarrow> app' = app"
  "handleEpochSecretKeyShareMsg B E sks s app = Inr (r, app') \<Longrightarrow> resp_Code r \<noteq> 0 \<Longrightarrow> app' = app"
  "handleDKGMsg parsed eon register event app = Inr (r, app') \<Longrightarrow> resp_Code r \<noteq> 0 \<Longrightarrow> app' = app"
  by (auto simp: deliverBatchConfigStarted_def deliverCheckIn_def deliverEonStartVoteMsg_def deliverDecryptionSignature_def
      handleEpochSecretKeyShareMsg_def handleDKGMsg_def Let_def
      split: if_err_splits result_bind_splits if_splits prod.splits option.splits)

lemma deliverBatchConfig_error:
  "app_Configs app \<noteq> [] \<Longrightarrow> deliverBatchConfig R E msg s app = Inr (r, app') \<Longrightarrow> resp_Code r \<noteq> 0 \<Longrightarrow> app' = app"
  by (drule (1) deliverBatchConfig_cases) simp

lemma deliverMessage_error:
  assumes ne: "app_Configs app \<noteq> []" and d: "deliverMessage R B E m s app = Inr (r, app')" and e: "resp_Code r \<noteq> 0"
  shows "app' = app"
  using d e
  by (cases "(R, B, E, m, s, app)" rule: deliverMessage.cases)
    (auto simp: handlePolyEvalMsg_def handlePolyCommitmentMsg_def handleAccusationMsg_def handleApologyMsg_def
      dest: handler_errors deliverBatchConfig_error [OF ne])

lemma DeliverTx_error:
  assumes inv: "app_inv app" and d: "DeliverTx R B E P tx app = Inr (r, app')" and e: "resp_Code r \<noteq> 0"
  shows "app' = app \<or> (\<exists>signer msg. decodeTx E P tx = Inr (signer, msg) \<and>
    app' = app \<lparr> app_NonceTracker := NonceTracker_Add signer (mwn_RandomNonce msg) (app_NonceTracker app) \<rparr>)"
  using d
proof (cases rule: DeliverTx_cases)
  case 1
  then show ?thesis by simp
next
  case (2 signer msg)
  from deliverMessage_error [OF _ 2(4) e] 2(1) inv show ?thesis by simp
qed

section \<open>Starting an eon\<close>

lemma eon_started_backed:
  assumes inv: "app_inv app" and R: "orders_ok R" and d: "deliverEonStartVoteMsg R b s app = Inr (r, app')"
    and new: "app_EONCounter app' \<noteq> app_EONCounter app"
  shows "\<exists>c v start. getConfig app b = Inr c \<and>
     v = EonStartVoting_AddVote s b (case app_EonStartVotings app (bc_ConfigIndex c) of
       None \<Rightarrow> NewEonStartVoting | Some v \<Rightarrow> v) \<and>
     {a. eon_choice v a = Some start} \<subseteq> set (bc_Keypers c) \<and>
     required_votes c \<le> int (card {a. eon_choice v a = Some start}) \<and>
     app_EONCounter app' = app_EONCounter app + 1 \<and>
     app_DKGMap app' (app_EONCounter app') = Some (NewDKGInstance c (app_EONCounter app')) \<and>
     r = okResponse [eonStartedEvent (app_EONCounter app') start]"
  using inv d
proof (cases rule: deliverEonStartVoteMsg_cases)
  case (3 c v start)
  have "wf_EonStartVoting v" "dom (eon_choice v) \<subseteq> set (bc_Keypers c)"
    unfolding 3(4) by (rule eon_vote_step(2) [OF inv 3(1,3)], rule eon_vote_step(4) [OF inv 3(1,3)])
  then have "{a. eon_choice v a = Some start} \<subseteq> set (bc_Keypers c)"
    "required_votes c \<le> int (card {a. eon_choice v a = Some start})"
    using eon_ballot.outcome_Some [OF R _ 3(5)] by auto
  then show ?thesis using 3 by (intro exI [of _ c] exI [of _ v] exI [of _ start]) (simp add: StartDKG_def NewDKGInstance_def Let_def)
qed (use new in simp_all)

section \<open>Voting powers\<close>

lemma EndBlock_powers:
  assumes inv: "app_inv app" and R: "orders_ok R" and dev: "\<not> app_DevMode app"
    and e: "EndBlock R h app = Inr (us, app')"
  shows "foldl (\<lambda>f u. apply_update u f) (power_of (app_Validators app)) us = power_of (app_Validators app')"
proof -
  have wf: "wf_map (app_Validators app)" "wf_map (app_Validators app')"
    using inv EndBlock_inv [OF inv e] by (simp_all add: app_inv_def)
  have us: "us = ValidatorUpdates (ord_powers R) (DiffPowermaps (ord_powers R) (app_Validators app) (app_Validators app'))"
    using e dev EndBlock_eq [of app R h] inv by (auto simp: Let_def)
  show ?thesis unfolding us using R by (intro updates_give_new_powers wf) (simp_all add: orders_ok_def)
qed

section \<open>Votes outlive the config they were cast for\<close>

lemma accepted_StartedVotes: "app_StartedVotes (accepted bc app) = app_StartedVotes app"
  by (simp add: accepted_def Let_def frame_simps StartDKG_def)

lemma started_votes_survive:
  assumes inv: "app_inv app" and R: "orders_ok R" and d: "deliverBatchConfig R E msg s app = Inr (r, app')"
    and new: "app_Configs app' \<noteq> app_Configs app"
    and votes: "bc_Threshold (last (app_Configs app)) \<le> of_nat (card (app_StartedVotes app))"
  shows "\<exists>us app''. EndBlock R h app' = Inr (us, app'') \<and> bc_Started (last (app_Configs app''))"
proof -
  obtain bc where bc: "app_Configs app' = app_Configs app @ [bc]"
    using accepted_config_backed [OF inv R d new] by blast
  have v: "app_StartedVotes app' = app_StartedVotes app"
    using deliverBatchConfig_cases [OF _ d] inv by (auto simp: accepted_StartedVotes)
  have ne: "app_Configs app \<noteq> []" using inv by simp
  then have "app_Configs app' ! (length (app_Configs app') - 2) = last (app_Configs app)"
    unfolding bc by (simp add: nth_append last_conv_nth)
  then have "enoughStartedVotes app'" using votes ne by (simp add: enoughStartedVotes_def v bc Suc_le_eq)
  then have "bc_Started (ended app')" by (simp add: ended_def Let_def)
  then show ?thesis using EndBlock_eq [of app' R h] bc by (simp add: Let_def)
qed

section \<open>Thresholds with the top bit set\<close>

lemma sint_large: "2 ^ 63 \<le> unat (x :: u64) \<Longrightarrow> sint x < 0"
proof -
  assume "2 ^ 63 \<le> unat x"
  then have "int (2 ^ 63) \<le> int (unat x)" by (simp only: of_nat_le_iff)
  then have "2 ^ 63 \<le> uint x" by (simp only: of_nat_power of_nat_numeral uint_nat)
  then have "signed_take_bit 63 (uint x) \<le> uint x - 2 ^ Suc 63" by (rule signed_take_bit_int_less_eq)
  moreover have "uint x < 2 ^ LENGTH(64)" by (rule uint_bounded)
  ultimately have "signed_take_bit 63 (uint x) < 0" by (simp del: signed_take_bit_negative_iff)
  then show ?thesis unfolding sint_uint by simp
qed

lemma threshold_overflow:
  assumes t: "2 ^ 63 \<le> unat (bc_Threshold bc)" and k: "bc_Keypers bc \<noteq> []"
    and R: "orders_ok R" and v: "wf_ConfigVoting v" "config_choice v a = Some c"
  shows "EnsureValid bc = None \<and> ConfigVoting_Outcome R v (sint (bc_Threshold bc)) \<noteq> None"
proof -
  have "sint (bc_Threshold bc) < 0" using t by (rule sint_large)
  then have neg: "sint (bc_Threshold bc) < int n" for n by linarith
  have "bc_Threshold bc \<noteq> 0" using t by auto
  then have "EnsureValid bc = None"
    unfolding EnsureValid_None_iff using k neg [THEN less_imp_le, of "length (bc_Keypers bc)"] by (intro conjI)
  moreover have "ConfigVoting_Outcome R v (sint (bc_Threshold bc)) \<noteq> None"
    using config_ballot.outcome_None [OF R v(1) _ v(2)] neg by (meson less_asym)
  ultimately show ?thesis by simp
qed

section \<open>Every transaction gets a response\<close>

text \<open>An error of the code becomes a response; only a panic would leave none.\<close>

definition panics_only :: "'a result \<Rightarrow> bool" where
  "panics_only x \<longleftrightarrow> (\<forall>e. x \<noteq> Inl (Errorf e))"

lemma panics_only_simps [simp]: "panics_only (Inr v)" "panics_only (Inl (Panic p))"
  by (simp_all add: panics_only_def)

lemma panics_only_bind [intro]: "panics_only x \<Longrightarrow> (\<And>v. panics_only (k v)) \<Longrightarrow> panics_only (result_bind x k)"
  by (auto simp: panics_only_def split: result_bind_splits)

lemma panics_only_if_err [intro]:
  "(\<And>e. panics_only (h e)) \<Longrightarrow> (\<And>v. panics_only (k v)) \<Longrightarrow> panics_only (if_err x h k)"
  by (auto simp: panics_only_def split: if_err_splits)

lemma panics_only_lookups: "panics_only (LastConfig app)" "panics_only (getConfig app i)"
  "panics_only (getBatchState app i)" "panics_only (allowedToVoteOnConfigChanges app s)"
  by (auto simp: LastConfig_def getConfig_def getBatchState_def allowedToVoteOnConfigChanges_def split: option.split)

lemma panics_only_deliverBatchConfig: "panics_only (deliverBatchConfig R E m s app)"
  unfolding deliverBatchConfig_def Let_def
  by (auto simp: panics_only_lookups split: option.split prod.split intro!: panics_only_bind panics_only_if_err)

lemma panics_only_handlers:
  "panics_only (deliverBatchConfigStarted i s app)" "panics_only (deliverCheckIn E ci s app)"
  "panics_only (deliverEonStartVoteMsg R b s app)" "panics_only (deliverDecryptionSignature E ds s app)"
  "panics_only (handleEpochSecretKeyShareMsg B E sks s app)" "panics_only (handleDKGMsg parsed eon register event app)"
  unfolding deliverBatchConfigStarted_def deliverCheckIn_def deliverEonStartVoteMsg_def deliverDecryptionSignature_def
    handleEpochSecretKeyShareMsg_def handleDKGMsg_def Let_def
  by (auto simp: panics_only_lookups split: option.split prod.split intro!: panics_only_bind panics_only_if_err)

lemma panics_only_deliverMessage: "panics_only (deliverMessage R B E m s app)"
  by (cases "(R, B, E, m, s, app)" rule: deliverMessage.cases)
    (simp_all add: handlePolyEvalMsg_def handlePolyCommitmentMsg_def handleAccusationMsg_def handleApologyMsg_def
      panics_only_handlers panics_only_deliverBatchConfig)

lemma panics_only_DeliverTx: "panics_only (DeliverTx R B E P tx app)"
  unfolding DeliverTx_def
  by (auto split: prod.split intro!: panics_only_if_err panics_only_deliverMessage)

lemma DeliverTx_total:
  assumes "app_inv app" "eth_ok E" "proto_ok P"
  shows "\<exists>r app'. DeliverTx R B E P tx app = Inr (r, app')"
  using no_panic_Inr_ex [OF DeliverTx_no_panic [OF assms, of R B tx]] panics_only_DeliverTx [of R B E P tx app]
  by (auto simp: panics_only_def)

section \<open>Replicas\<close>

text \<open>A block on one replica: its transactions, then \<open>EndBlock\<close>; every call ranges over maps in its own order.\<close>

fun DeliverTxs ::
  "(nat \<Rightarrow> map_orders) \<Rightarrow> ('g1, 'g2, 'gt) bn256 \<Rightarrow> ('pk, 'sk, 'ek, 'dk) eth \<Rightarrow> proto \<Rightarrow> string list \<Rightarrow> ShielderApp \<Rightarrow>
   (ResponseDeliverTx list \<times> ShielderApp) result" where
  "DeliverTxs Rs B E P [] app = Inr ([], app)"
| "DeliverTxs Rs B E P (tx # txs) app =
     result_bind (DeliverTx (Rs (length txs)) B E P tx app) (\<lambda>(r, app').
     result_bind (DeliverTxs Rs B E P txs app') (\<lambda>(rs, app''). Inr (r # rs, app'')))"

definition run_block ::
  "(nat \<Rightarrow> map_orders) \<Rightarrow> map_orders \<Rightarrow> ('g1, 'g2, 'gt) bn256 \<Rightarrow> ('pk, 'sk, 'ek, 'dk) eth \<Rightarrow> proto \<Rightarrow> i64 \<Rightarrow> string list \<Rightarrow>
   ShielderApp \<Rightarrow> (ResponseDeliverTx list \<times> ValidatorUpdate list \<times> ShielderApp) result" where
  "run_block Rs R B E P h txs app =
     result_bind (DeliverTxs Rs B E P txs app) (\<lambda>(rs, app').
     result_bind (EndBlock R h app') (\<lambda>(us, app''). Inr (rs, us, app'')))"

lemma DeliverTxs_inv:
  "app_inv app \<Longrightarrow> (\<And>i. orders_ok (Rs i)) \<Longrightarrow> DeliverTxs Rs B E P txs app = Inr (rs, app') \<Longrightarrow> app_inv app'"
  by (induction txs arbitrary: app rs) (auto split: result_bind_splits prod.splits dest: DeliverTx_inv)

lemma DeliverTxs_deterministic:
  "app_inv app \<Longrightarrow> (\<And>i. orders_ok (Rs i)) \<Longrightarrow> (\<And>i. orders_ok (Rs' i)) \<Longrightarrow>
   DeliverTxs Rs B E P txs app = DeliverTxs Rs' B E P txs app"
proof (induction txs arbitrary: app)
  case (Cons tx txs)
  have "DeliverTx (Rs (length txs)) B E P tx app = DeliverTx (Rs' (length txs)) B E P tx app"
    by (rule DeliverTx_deterministic [OF Cons.prems])
  moreover have "DeliverTxs Rs B E P txs app' = DeliverTxs Rs' B E P txs app'"
    if "DeliverTx (Rs' (length txs)) B E P tx app = Inr (r, app')" for r app'
    by (rule Cons.IH [OF DeliverTx_inv [OF Cons.prems(1,3) that] Cons.prems(2,3)])
  ultimately show ?case by (cases "DeliverTx (Rs' (length txs)) B E P tx app") auto
qed simp

lemma run_block_deterministic:
  assumes inv: "app_inv app" and R: "\<And>i. orders_ok (Rs i)" "\<And>i. orders_ok (Rs' i)" "orders_ok R" "orders_ok R'"
  shows "run_block Rs R B E P h txs app = run_block Rs' R' B E P h txs app"
proof -
  have d: "DeliverTxs Rs B E P txs app = DeliverTxs Rs' B E P txs app"
    by (rule DeliverTxs_deterministic [OF inv]) (rule R)+
  have e: "EndBlock R h app' = EndBlock R' h app'" if "DeliverTxs Rs' B E P txs app = Inr (rs, app')" for rs app'
    by (rule EndBlock_deterministic [OF DeliverTxs_inv [OF inv R(2) that] R(3,4)])
  show ?thesis
    unfolding run_block_def d using e by (cases "DeliverTxs Rs' B E P txs app") auto
qed

end
