(* ===== verification/DKGRun.thy ===== *)
theory DKGRun
  imports PureDKG
begin

text \<open>
  One keyper's key generation as a state machine: every call of an operation of \<open>puredkg.go\<close> that
  returns without an error is a step. The well-formedness invariant holds in every state a
  \<open>NewPureDKG\<close> can reach, what was recorded is never overwritten, and a finalized instance never
  changes again.
\<close>

section \<open>Steps\<close>

inductive dkg_step :: "('g1, 'g2, 'gt) bn256 \<Rightarrow> 'g2 PureDKG \<Rightarrow> 'g2 PureDKG \<Rightarrow> bool" for B where
  poly_commitment: "HandlePolyCommitmentMsg pc pure = Inr pure' \<Longrightarrow> dkg_step B pure pure'"
| poly_eval: "HandlePolyEvalMsg B pe pure = Inr pure' \<Longrightarrow> dkg_step B pure pure'"
| accusation: "HandleAccusationMsg ac pure = Inr pure' \<Longrightarrow> dkg_step B pure pure'"
| apology: "HandleApologyMsg B ap pure = Inr pure' \<Longrightarrow> dkg_step B pure pure'"
| dealing: "StartPhase1Dealing B rnd pure = (Inr out, pure') \<Longrightarrow> dkg_step B pure pure'"
| accusing: "StartPhase2Accusing B pure = Inr (accusations, pure') \<Longrightarrow> dkg_step B pure pure'"
| apologizing: "dkg_orders_ok O' \<Longrightarrow> StartPhase3Apologizing O' B pure = Inr (apologies, pure') \<Longrightarrow> dkg_step B pure pure'"
| finalizing: "Finalize pure = Inr pure' \<Longrightarrow> dkg_step B pure pure'"

inductive_cases dkg_stepE: "dkg_step B pure pure'"

inductive dkg_run :: "('g1, 'g2, 'gt) bn256 \<Rightarrow> 'g2 PureDKG \<Rightarrow> 'g2 PureDKG \<Rightarrow> bool" for B where
  dkg_run_refl: "dkg_run B pure pure"
| dkg_run_step: "dkg_run B pure pure' \<Longrightarrow> dkg_step B pure' pure'' \<Longrightarrow> dkg_run B pure pure''"

section \<open>What a step keeps\<close>

text \<open>
  \<open>recorded a b\<close>: the instance is the same, its phase has not gone back, and everything that was
  recorded in \<open>a\<close> is recorded unchanged in \<open>b\<close>.
\<close>

definition kept :: "'a option list \<Rightarrow> 'a option list \<Rightarrow> bool" where
  "kept xs ys \<longleftrightarrow> length ys = length xs \<and> (\<forall>i < length xs. xs ! i \<noteq> None \<longrightarrow> ys ! i = xs ! i)"

definition recorded :: "'g2 PureDKG \<Rightarrow> 'g2 PureDKG \<Rightarrow> bool" where
  "recorded a b \<longleftrightarrow>
     pd_Eon b = pd_Eon a \<and> pd_NumKeypers b = pd_NumKeypers a \<and> pd_Threshold b = pd_Threshold a \<and>
     pd_Keyper b = pd_Keyper a \<and> pd_Phase a \<le> pd_Phase b \<and>
     kept (pd_Commitments a) (pd_Commitments b) \<and> kept (pd_Evals a) (pd_Evals b) \<and>
     set (pd_Accusations a) \<subseteq> set (pd_Accusations b) \<and> map_of (pd_Apologies a) \<subseteq>\<^sub>m map_of (pd_Apologies b)"

lemma kept_refl [simp]: "kept xs xs"
  by (simp add: kept_def)

lemma kept_update: "xs ! i = None \<Longrightarrow> kept xs (xs [i := Some x])"
  unfolding kept_def by (metis length_list_update nth_list_update_neq)

lemma kept_trans: "kept xs ys \<Longrightarrow> kept ys zs \<Longrightarrow> kept xs zs"
  unfolding kept_def by metis

lemma recorded_refl [simp]: "recorded a a"
  by (simp add: recorded_def)

lemma recorded_trans: "recorded a b \<Longrightarrow> recorded b c \<Longrightarrow> recorded a c"
  unfolding recorded_def by (intro conjI) (auto intro: kept_trans map_le_trans order_trans)

lemma Handle_recorded:
  "HandlePolyCommitmentMsg pc pure = Inr pure' \<Longrightarrow> recorded pure pure'"
  "HandlePolyEvalMsg B pe pure = Inr pure' \<Longrightarrow> recorded pure pure'"
  "HandleAccusationMsg ac pure = Inr pure' \<Longrightarrow> recorded pure pure'"
  "HandleApologyMsg B ap pure = Inr pure' \<Longrightarrow> recorded pure pure'"
  unfolding HandlePolyCommitmentMsg_Inr HandlePolyEvalMsg_Inr HandleAccusationMsg_Inr HandleApologyMsg_Inr
  by (auto simp: recorded_def kept_update update_conv' map_le_def)

lemma setPhase_recorded: "setPhase p pure = Inr pure' \<Longrightarrow> recorded pure pure'"
  by (auto simp: setPhase_Inr recorded_def less_eq_Phase_def)

lemma Dealing_loop_recorded:
  "Dealing_loop B p rs msgs pure = Inr (out, pure') \<Longrightarrow> recorded pure pure'"
proof (induction B p rs msgs pure rule: Dealing_loop.induct)
  case (2 B polynomial receiver receivers msgs pure)
  then show ?case
    by (auto simp: Let_def split: result_bind_splits if_splits sum.splits
        dest: Handle_recorded(2) intro: recorded_trans)
qed simp

lemma StartPhase1Dealing_recorded:
  assumes "StartPhase1Dealing B rnd pure = (Inr out, pure')"
  shows "recorded pure pure'"
proof -
  obtain pure1 p msgs where s: "setPhase Dealing pure = Inr pure1"
    and l: "Dealing_loop B p (upto64 (pd_NumKeypers pure)) [] (pure1 \<lparr> pd_Polynomial := Some p \<rparr>) = Inr (msgs, pure')"
    using assms by (auto simp: StartPhase1Dealing_def Let_def split: sum.splits prod.splits)
  have "recorded pure1 (pure1 \<lparr> pd_Polynomial := Some p \<rparr>)" by (simp add: recorded_def)
  then show ?thesis using setPhase_recorded [OF s] Dealing_loop_recorded [OF l] recorded_trans by blast
qed

lemma phase_calls:
  "StartPhase2Accusing B pure = Inr (accusations, pure') \<Longrightarrow> setPhase Accusing pure = Inr pure'"
  "StartPhase3Apologizing O' B pure = Inr (apologies, pure') \<Longrightarrow> setPhase Apologizing pure = Inr pure'"
  "Finalize pure = Inr pure' \<Longrightarrow> setPhase Finalized pure = Inr pure'"
  by (auto simp: setPhase_Inr dest: phases_advance)

lemma dkg_step_recorded: "dkg_step B pure pure' \<Longrightarrow> recorded pure pure'"
  by (erule dkg_stepE)
    (blast intro: Handle_recorded StartPhase1Dealing_recorded setPhase_recorded phase_calls)+

lemma dkg_run_recorded: "dkg_run B pure pure' \<Longrightarrow> recorded pure pure'"
  by (induction rule: dkg_run.induct) (auto intro: recorded_trans dkg_step_recorded)

section \<open>The invariant\<close>

lemma dkg_step_wf [inv_intros]: "dkg_step B pure pure' \<Longrightarrow> wf_dkg B pure \<Longrightarrow> wf_dkg B pure'"
proof (erule dkg_stepE)
  fix rnd out
  assume "StartPhase1Dealing B rnd pure = (Inr out, pure')" "wf_dkg B pure"
  then show "wf_dkg B pure'" using StartPhase1Dealing_wf [of B pure rnd] by simp
qed (blast intro: Handle_wf setPhase_wf phase_calls)+

lemma dkg_run_wf: "dkg_run B pure pure' \<Longrightarrow> wf_dkg B pure \<Longrightarrow> wf_dkg B pure'"
  by (induction rule: dkg_run.induct) (auto intro: dkg_step_wf)

section \<open>Finalized\<close>

lemma finalized_no_step: "pd_Phase pure = Finalized \<Longrightarrow> \<not> dkg_step B pure pure'"
proof
  assume f: "pd_Phase pure = Finalized" and "dkg_step B pure pure'"
  from this(2) show False
    using f
    by (cases rule: dkg_step.cases)
      (auto simp: HandlePolyCommitmentMsg_Inr HandlePolyEvalMsg_Inr HandleAccusationMsg_Inr HandleApologyMsg_Inr
        less_eq_Phase_def setPhase_def StartPhase1Dealing_def Finalize_def dest!: phases_advance split: sum.splits)
qed

lemma finalized_run: "dkg_run B pure pure' \<Longrightarrow> pd_Phase pure = Finalized \<Longrightarrow> pure' = pure"
  by (induction rule: dkg_run.induct) (auto simp: finalized_no_step)

end
