(* ===== verification/ContractConfig.thy ===== *)
theory ContractConfig
  imports Medley
begin

text \<open>
  \<open>contract/config.go\<close>: the batch configuration of the config contract and the arithmetic that maps
  block numbers to batch indices, and the queries that assemble configurations from single contract
  calls; \<open>contract/signatures.go\<close> and \<open>contract/batcher.go\<close>. The calls of the generated binding,
  at one block of the main chain, are the parameter \<open>config_contract\<close>. A panic is a value \<open>Inl\<close>.
\<close>

section \<open>The configuration\<close>

text \<open>What the getter \<open>configs(i)\<close> of the contract returns, and the struct with the keypers added.\<close>

record ConfigFields =
  cc_StartBatchIndex :: u64
  cc_StartBlockNumber :: u64
  cc_Threshold :: u64
  cc_BatchSpan :: u64
  cc_BatchSizeLimit :: u64
  cc_TransactionSizeLimit :: u64
  cc_TransactionGasLimit :: u64
  cc_FeeReceiver :: address
  cc_TargetAddress :: address
  cc_TargetFunctionSelector :: bytes
  cc_ExecutionTimeout :: u64

record ContractConfig = ConfigFields +
  cc_Keypers :: "address list"

text \<open>\<open>BatchConfig{}\<close>: the zero value returned beside an error.\<close>

definition zero_ContractConfig :: ContractConfig where
  "zero_ContractConfig =
     \<lparr> cc_StartBatchIndex = 0, cc_StartBlockNumber = 0, cc_Threshold = 0, cc_BatchSpan = 0,
       cc_BatchSizeLimit = 0, cc_TransactionSizeLimit = 0, cc_TransactionGasLimit = 0,
       cc_FeeReceiver = 0, cc_TargetAddress = 0, cc_TargetFunctionSelector = [0, 0, 0, 0],
       cc_ExecutionTimeout = 0, cc_Keypers = [] \<rparr>"

definition cc_KeyperIndex :: "ContractConfig \<Rightarrow> address \<Rightarrow> u64 option" where
  "cc_KeyperIndex bc address = map_option of_nat (find_index (\<lambda>k. k = address) (cc_Keypers bc))"

definition cc_IsKeyper :: "ContractConfig \<Rightarrow> address \<Rightarrow> bool" where
  "cc_IsKeyper bc address = (cc_KeyperIndex bc address \<noteq> None)"

definition IsActive :: "('c) ConfigFields_scheme \<Rightarrow> bool" where
  "IsActive bc = (cc_BatchSpan bc > 0)"

definition BatchStartBlock :: "('c) ConfigFields_scheme \<Rightarrow> u64 \<Rightarrow> u64 result" where
  "BatchStartBlock bc batchIndex =
     (if batchIndex < cc_StartBatchIndex bc then Inl (Panic ''BatchStartBlock called with bad parameter'')
      else let relativeBatchIndex = batchIndex - cc_StartBatchIndex bc
           in Inr (cc_StartBlockNumber bc + relativeBatchIndex * cc_BatchSpan bc))"

definition BatchEndBlock :: "('c) ConfigFields_scheme \<Rightarrow> u64 \<Rightarrow> u64 result" where
  "BatchEndBlock bc batchIndex =
     result_bind (BatchStartBlock bc batchIndex) (\<lambda>start. Inr (start + cc_BatchSpan bc))"

definition BatchIndex :: "('c) ConfigFields_scheme \<Rightarrow> u64 \<Rightarrow> u64 result" where
  "BatchIndex bc blockNumber =
     (if blockNumber < cc_StartBlockNumber bc
      then Inl (Panic ''internal error: BatchIndex called with bad blockNumber'')
      else if cc_BatchSpan bc = 0 then Inr (cc_StartBatchIndex bc)
      else Inr (cc_StartBatchIndex bc + (blockNumber - cc_StartBlockNumber bc) div cc_BatchSpan bc))"

section \<open>Queries\<close>

record config_contract =
  call_NumConfigs :: "u64 result"
  call_Configs :: "u64 \<Rightarrow> ConfigFields result"
  call_ConfigNumKeypers :: "u64 \<Rightarrow> u64 result"
  call_ConfigKeypers :: "u64 \<Rightarrow> u64 \<Rightarrow> address result"
  call_NextConfig :: "ConfigFields result"
  call_NextConfigNumKeypers :: "u64 result"
  call_NextConfigKeypers :: "u64 \<Rightarrow> address result"

text \<open>The loop of \<open>NextBatchIndex\<close> runs from the last config down to the first.\<close>

fun NextBatchIndex_loop :: "config_contract \<Rightarrow> u64 \<Rightarrow> nat \<Rightarrow> u64 result" where
  "NextBatchIndex_loop cc blockNumber 0 = Inl (Errorf ''contract misconfigured'')"
| "NextBatchIndex_loop cc blockNumber (Suc i) =
     result_bind (call_Configs cc (of_nat i)) (\<lambda>cfg.
     if cc_StartBlockNumber cfg \<le> blockNumber
     then (if cc_BatchSpan cfg = 0 then Inr (cc_StartBatchIndex cfg)
           else Inr (cc_StartBatchIndex cfg + (blockNumber - cc_StartBlockNumber cfg) div cc_BatchSpan cfg + 1))
     else NextBatchIndex_loop cc blockNumber i)"

definition NextBatchIndex :: "config_contract \<Rightarrow> u64 \<Rightarrow> u64 result" where
  "NextBatchIndex cc blockNumber =
     result_bind (call_NumConfigs cc) (\<lambda>n. NextBatchIndex_loop cc blockNumber (unat n))"

definition GetConfigKeypers :: "config_contract \<Rightarrow> u64 \<Rightarrow> address list result" where
  "GetConfigKeypers cc configIndex =
     result_bind (call_ConfigNumKeypers cc configIndex) (\<lambda>numKeypers.
     collect (call_ConfigKeypers cc configIndex) (upto64 numKeypers))"

definition GetNextConfigKeypers :: "config_contract \<Rightarrow> address list result" where
  "GetNextConfigKeypers cc =
     result_bind (call_NextConfigNumKeypers cc) (\<lambda>numKeypers.
     collect (call_NextConfigKeypers cc) (upto64 numKeypers))"

definition GetConfigByIndex :: "config_contract \<Rightarrow> u64 \<Rightarrow> ContractConfig result" where
  "GetConfigByIndex cc configIndex =
     result_bind (call_Configs cc configIndex) (\<lambda>config.
     result_bind (GetConfigKeypers cc configIndex) (\<lambda>keypers.
     Inr
      \<lparr> cc_StartBatchIndex = cc_StartBatchIndex config,
        cc_StartBlockNumber = cc_StartBlockNumber config,
        cc_Threshold = cc_Threshold config,
        cc_BatchSpan = cc_BatchSpan config,
        cc_BatchSizeLimit = cc_BatchSizeLimit config,
        cc_TransactionSizeLimit = cc_TransactionSizeLimit config,
        cc_TransactionGasLimit = cc_TransactionGasLimit config,
        cc_FeeReceiver = cc_FeeReceiver config,
        cc_TargetAddress = cc_TargetAddress config,
        cc_TargetFunctionSelector = cc_TargetFunctionSelector config,
        cc_ExecutionTimeout = cc_ExecutionTimeout config,
        cc_Keypers = DedupAddresses keypers \<rparr>))"

definition GetNextConfig :: "config_contract \<Rightarrow> ContractConfig result" where
  "GetNextConfig cc =
     result_bind (call_NextConfig cc) (\<lambda>config.
     result_bind (GetNextConfigKeypers cc) (\<lambda>keypers.
     Inr
      \<lparr> cc_StartBatchIndex = cc_StartBatchIndex config,
        cc_StartBlockNumber = cc_StartBlockNumber config,
        cc_Threshold = cc_Threshold config,
        cc_BatchSpan = cc_BatchSpan config,
        cc_BatchSizeLimit = cc_BatchSizeLimit config,
        cc_TransactionSizeLimit = cc_TransactionSizeLimit config,
        cc_TransactionGasLimit = cc_TransactionGasLimit config,
        cc_FeeReceiver = cc_FeeReceiver config,
        cc_TargetAddress = cc_TargetAddress config,
        cc_TargetFunctionSelector = cc_TargetFunctionSelector config,
        cc_ExecutionTimeout = cc_ExecutionTimeout config,
        cc_Keypers = DedupAddresses keypers \<rparr>))"

text \<open>\<open>for i := numConfigs; i >= 1; i--\<close>, prepending each config, up to the first one that has started.\<close>

fun CurrentAndFuture_loop ::
  "config_contract \<Rightarrow> u64 \<Rightarrow> nat \<Rightarrow> ContractConfig list \<Rightarrow> ContractConfig list result" where
  "CurrentAndFuture_loop cc blockNumber 0 configs = Inr configs"
| "CurrentAndFuture_loop cc blockNumber (Suc i) configs =
     result_bind (GetConfigByIndex cc (of_nat i)) (\<lambda>config.
     if cc_StartBlockNumber config \<le> blockNumber then Inr (config # configs)
     else CurrentAndFuture_loop cc blockNumber i (config # configs))"

definition CurrentAndFutureConfigs :: "config_contract \<Rightarrow> u64 \<Rightarrow> ContractConfig list result" where
  "CurrentAndFutureConfigs cc blockNumber =
     result_bind (call_NumConfigs cc) (\<lambda>numConfigs.
     CurrentAndFuture_loop cc blockNumber (unat numConfigs) [])"

section \<open>Transaction types and signatures\<close>

definition TransactionTypeCipher :: byte where
  "TransactionTypeCipher = 0"

definition TransactionTypePlain :: byte where
  "TransactionTypePlain = 1"

text \<open>The last byte of a signature goes from 0/1 to 27/28; a shorter slice panics.\<close>

definition SignatureToContractFormat :: "bytes \<Rightarrow> bytes result" where
  "SignatureToContractFormat sig =
     (if 64 < length sig then Inr (sig [64 := sig ! 64 + 27]) else Inl (Panic ''index out of range''))"

definition SignaturesToContractFormat :: "bytes list \<Rightarrow> bytes list result" where
  "SignaturesToContractFormat sigs = collect SignatureToContractFormat sigs"

section \<open>Keypers\<close>

lemma cc_IsKeyper_iff [simp]: "cc_IsKeyper bc a \<longleftrightarrow> a \<in> set (cc_Keypers bc)"
  by (auto simp: cc_IsKeyper_def cc_KeyperIndex_def)

lemma cc_KeyperIndex_SomeD:
  assumes "cc_KeyperIndex bc a = Some i" "length (cc_Keypers bc) < 2 ^ 64"
  shows "unat i < length (cc_Keypers bc) \<and> cc_Keypers bc ! unat i = a"
proof -
  from assms(1) obtain k where k: "find_index (\<lambda>x. x = a) (cc_Keypers bc) = Some k" "i = of_nat k"
    by (auto simp: cc_KeyperIndex_def)
  from find_index_SomeD [OF k(1)] have "k < length (cc_Keypers bc)" "cc_Keypers bc ! k = a" by auto
  with assms(2) show ?thesis by (simp add: k(2) unat_of_nat_u64)
qed

section \<open>Blocks and batches\<close>

text \<open>The end of the batch is a 64-bit number.\<close>

definition batch_fits :: "('c) ConfigFields_scheme \<Rightarrow> u64 \<Rightarrow> bool" where
  "batch_fits bc i \<longleftrightarrow> cc_StartBatchIndex bc \<le> i \<and>
     unat (cc_StartBlockNumber bc) +
       (unat i - unat (cc_StartBatchIndex bc) + 1) * unat (cc_BatchSpan bc) < 2 ^ 64"

lemma unat_add_u64: "unat (a :: u64) + unat b < 2 ^ 64 \<Longrightarrow> unat (a + b) = unat a + unat b"
  by (simp add: unat_word_ariths)

lemma unat_mult_u64: "unat (a :: u64) * unat b < 2 ^ 64 \<Longrightarrow> unat (a * b) = unat a * unat b"
  by (simp add: unat_word_ariths)

lemma unat_sub_u64: "b \<le> (a :: u64) \<Longrightarrow> unat (a - b) = unat a - unat b"
  by (rule unat_sub)

lemma BatchStartBlock_fits:
  assumes "batch_fits bc i"
  obtains s e where "BatchStartBlock bc i = Inr s" "BatchEndBlock bc i = Inr e"
    "unat s = unat (cc_StartBlockNumber bc) + (unat i - unat (cc_StartBatchIndex bc)) * unat (cc_BatchSpan bc)"
    "unat e = unat s + unat (cc_BatchSpan bc)"
proof -
  let ?d = "i - cc_StartBatchIndex bc" and ?p = "cc_BatchSpan bc" and ?b = "cc_StartBlockNumber bc"
  have le: "cc_StartBatchIndex bc \<le> i"
    and bound: "unat ?b + (unat i - unat (cc_StartBatchIndex bc) + 1) * unat ?p < 2 ^ 64"
    using assms by (simp_all only: batch_fits_def)
  have d: "unat ?d = unat i - unat (cc_StartBatchIndex bc)" using le by (rule unat_sub_u64)
  with bound have bound': "unat ?b + (unat ?d * unat ?p + unat ?p) < 2 ^ 64" by (simp add: algebra_simps)
  have m: "unat (?d * ?p) = unat ?d * unat ?p" by (rule unat_mult_u64) (use bound' in linarith)
  have s: "unat (?b + ?d * ?p) = unat ?b + unat ?d * unat ?p"
    unfolding m [symmetric] by (rule unat_add_u64) (use bound' m in linarith)
  have e: "unat (?b + ?d * ?p + ?p) = unat (?b + ?d * ?p) + unat ?p"
    by (rule unat_add_u64) (use bound' s in linarith)
  from le have "BatchStartBlock bc i = Inr (?b + ?d * ?p)" by (simp add: BatchStartBlock_def Let_def)
  moreover from this have "BatchEndBlock bc i = Inr (?b + ?d * ?p + ?p)" by (simp add: BatchEndBlock_def)
  ultimately show thesis using s e d that by metis
qed

lemma BatchIndex_unat:
  assumes "cc_StartBlockNumber bc \<le> n" "IsActive bc"
  shows "BatchIndex bc n = Inr (cc_StartBatchIndex bc +
    of_nat ((unat n - unat (cc_StartBlockNumber bc)) div unat (cc_BatchSpan bc)))"
proof -
  have "(n - cc_StartBlockNumber bc) div cc_BatchSpan bc =
      of_nat (unat ((n - cc_StartBlockNumber bc) div cc_BatchSpan bc))" by simp
  also have "unat ((n - cc_StartBlockNumber bc) div cc_BatchSpan bc) =
      (unat n - unat (cc_StartBlockNumber bc)) div unat (cc_BatchSpan bc)"
    using assms(1) by (simp add: unat_div unat_sub_u64)
  finally show ?thesis using assms by (simp add: BatchIndex_def IsActive_def)
qed

text \<open>\<open>a + k = i\<close> on words without wrap-around, for \<open>k < 2^64\<close>.\<close>

lemma add_of_nat_eq_iff:
  assumes "(a :: u64) \<le> i" "k < 2 ^ 64"
  shows "a + of_nat k = i \<longleftrightarrow> k = unat i - unat a"
proof -
  have "a + of_nat k = i \<longleftrightarrow> of_nat k = i - a" by (auto simp: algebra_simps)
  also have "\<dots> \<longleftrightarrow> k = unat (i - a)" using unat_of_nat_u64 [OF assms(2)] by (auto simp del: unat_of_nat)
  finally show ?thesis using unat_sub_u64 [OF assms(1)] by simp
qed

lemma nat_div_eq_iff: "0 < (p :: nat) \<Longrightarrow> m div p = d \<longleftrightarrow> d * p \<le> m \<and> m < d * p + p"
proof
  assume "0 < p" "m div p = d"
  then show "d * p \<le> m \<and> m < d * p + p"
    using dividend_less_div_times [of p m] by (auto simp: add.commute)
next
  assume p: "0 < p" and m: "d * p \<le> m \<and> m < d * p + p"
  show "m div p = d" by (rule div_nat_eqI) (use m in \<open>simp_all add: algebra_simps\<close>)
qed

lemma BatchIndex_iff:
  assumes "IsActive bc" "cc_StartBlockNumber bc \<le> n" "batch_fits bc i"
  shows "BatchIndex bc n = Inr i \<longleftrightarrow>
    (\<exists>s e. BatchStartBlock bc i = Inr s \<and> BatchEndBlock bc i = Inr e \<and> s \<le> n \<and> n < e)"
proof -
  let ?p = "unat (cc_BatchSpan bc)" and ?b = "unat (cc_StartBlockNumber bc)"
    and ?d = "unat i - unat (cc_StartBatchIndex bc)"
  have p: "0 < ?p" using assms(1) by (simp add: IsActive_def word_less_nat_alt)
  have b: "?b \<le> unat n" using assms(2) by (simp add: word_le_nat_alt)
  have k: "(unat n - ?b) div ?p < 2 ^ 64"
    using unat_less_u64 [of n] by (meson div_le_dividend diff_le_self le_less_trans)
  have le: "cc_StartBatchIndex bc \<le> i" using assms(3) by (simp add: batch_fits_def)
  from BatchStartBlock_fits [OF assms(3)] obtain s e where
    se: "BatchStartBlock bc i = Inr s" "BatchEndBlock bc i = Inr e"
      "unat s = ?b + ?d * ?p" "unat e = unat s + ?p" .
  have "BatchIndex bc n = Inr i \<longleftrightarrow> (unat n - ?b) div ?p = ?d"
    using add_of_nat_eq_iff [OF le k] by (simp add: BatchIndex_unat [OF assms(2,1)])
  also have "\<dots> \<longleftrightarrow> ?d * ?p \<le> unat n - ?b \<and> unat n - ?b < ?d * ?p + ?p"
    by (rule nat_div_eq_iff [OF p])
  also have "\<dots> \<longleftrightarrow> s \<le> n \<and> n < e"
    using b se(3,4) by (simp add: word_le_nat_alt word_less_nat_alt) linarith
  finally show ?thesis using se(1,2) by simp
qed

text \<open>Consecutive batches are adjacent.\<close>

lemma batch_end_is_next_start:
  assumes "batch_fits bc (i + 1)" "cc_StartBatchIndex bc \<le> i" "i + 1 \<noteq> 0"
  shows "BatchEndBlock bc i = BatchStartBlock bc (i + 1)"
proof -
  have "cc_StartBatchIndex bc \<le> i + 1" using assms(1) by (simp add: batch_fits_def)
  then have "\<not> i + 1 < cc_StartBatchIndex bc" "\<not> i < cc_StartBatchIndex bc"
    using assms(2) by (simp_all add: not_less)
  then show ?thesis by (simp add: BatchEndBlock_def BatchStartBlock_def Let_def algebra_simps)
qed

section \<open>The config active at a block\<close>

text \<open>The last of the first \<open>n\<close> configs of the contract whose start block is not after \<open>blockNumber\<close>.\<close>

definition active_at :: "config_contract \<Rightarrow> u64 \<Rightarrow> nat \<Rightarrow> nat \<Rightarrow> ConfigFields \<Rightarrow> bool" where
  "active_at cc blockNumber n i cfg \<longleftrightarrow> i < n \<and> call_Configs cc (of_nat i) = Inr cfg \<and>
     cc_StartBlockNumber cfg \<le> blockNumber \<and>
     (\<forall>j. i < j \<longrightarrow> j < n \<longrightarrow> (\<exists>c. call_Configs cc (of_nat j) = Inr c \<and> blockNumber < cc_StartBlockNumber c))"

definition configs_readable :: "config_contract \<Rightarrow> nat \<Rightarrow> bool" where
  "configs_readable cc n \<longleftrightarrow> (\<forall>i<n. (\<exists>c. call_Configs cc (of_nat i) = Inr c) \<and> (\<exists>ks. GetConfigKeypers cc (of_nat i) = Inr ks))"

definition next_batch :: "ConfigFields \<Rightarrow> u64 \<Rightarrow> u64" where
  "next_batch cfg blockNumber =
     (if cc_BatchSpan cfg = 0 then cc_StartBatchIndex cfg
      else cc_StartBatchIndex cfg + (blockNumber - cc_StartBlockNumber cfg) div cc_BatchSpan cfg + 1)"

lemma active_at_Suc:
  "call_Configs cc (of_nat n) = Inr c \<Longrightarrow> \<not> cc_StartBlockNumber c \<le> b \<Longrightarrow>
   active_at cc b (Suc n) i cfg \<longleftrightarrow> active_at cc b n i cfg"
  unfolding active_at_def by (auto simp: less_Suc_eq)

lemma active_at_last:
  "call_Configs cc (of_nat n) = Inr c \<Longrightarrow> cc_StartBlockNumber c \<le> b \<Longrightarrow>
   active_at cc b (Suc n) i cfg \<longleftrightarrow> i = n \<and> cfg = c"
  unfolding active_at_def by (auto simp: less_Suc_eq)

lemma NextBatchIndex_loop_Inr:
  "NextBatchIndex_loop cc b n = Inr k \<Longrightarrow> \<exists>i cfg. active_at cc b n i cfg \<and> k = next_batch cfg b"
proof (induction n)
  case (Suc n)
  then obtain c where c: "call_Configs cc (of_nat n) = Inr c" by (auto elim: result_bindE)
  show ?case
  proof (cases "cc_StartBlockNumber c \<le> b")
    case True
    with Suc.prems c have "k = next_batch c b" by (auto simp: next_batch_def split: if_splits)
    then show ?thesis using active_at_last [OF c True] by auto
  next
    case False
    with Suc c show ?thesis using active_at_Suc [OF c False] by simp
  qed
qed simp

lemma NextBatchIndex_loop_active:
  "active_at cc b n i cfg \<Longrightarrow> NextBatchIndex_loop cc b n = Inr (next_batch cfg b)"
proof (induction n)
  case (Suc n)
  show ?case
  proof (cases "i = n")
    case True
    with Suc.prems show ?thesis by (simp add: active_at_def next_batch_def)
  next
    case False
    with Suc.prems obtain c where c: "call_Configs cc (of_nat n) = Inr c" "\<not> cc_StartBlockNumber c \<le> b"
      unfolding active_at_def by (metis less_antisym lessI not_le)
    with Suc active_at_Suc [OF c] show ?thesis by simp
  qed
qed (simp add: active_at_def)

lemma NextBatchIndex_loop_iff:
  "NextBatchIndex_loop cc b n = Inr k \<longleftrightarrow> (\<exists>i cfg. active_at cc b n i cfg \<and> k = next_batch cfg b)"
  using NextBatchIndex_loop_Inr NextBatchIndex_loop_active by metis

text \<open>The configs collected are those from the active one on, in the order of their indices.\<close>

lemma CurrentAndFuture_loop_active:
  "active_at cc b n i cfg \<Longrightarrow> configs_readable cc n \<Longrightarrow>
   \<exists>cs. CurrentAndFuture_loop cc b n acc = Inr (cs @ acc) \<and> length cs = n - i \<and>
     (\<forall>j<n - i. GetConfigByIndex cc (of_nat (i + j)) = Inr (cs ! j))"
proof (induction n arbitrary: acc)
  case (Suc n)
  from Suc.prems(2) obtain c ks where c: "call_Configs cc (of_nat n) = Inr c"
    and ks: "GetConfigKeypers cc (of_nat n) = Inr ks" unfolding configs_readable_def by blast
  then obtain C where C: "GetConfigByIndex cc (of_nat n) = Inr C" "cc_StartBlockNumber C = cc_StartBlockNumber c"
    by (simp add: GetConfigByIndex_def)
  show ?case
  proof (cases "cc_StartBlockNumber c \<le> b")
    case True
    with Suc.prems(1) active_at_last [OF c] have "i = n" by blast
    with True C show ?thesis by (intro exI [of _ "[C]"]) simp
  next
    case False
    with Suc.prems(1) active_at_Suc [OF c] have a: "active_at cc b n i cfg" by blast
    moreover have "configs_readable cc n" using Suc.prems(2) by (simp add: configs_readable_def)
    ultimately obtain cs where cs: "CurrentAndFuture_loop cc b n (C # acc) = Inr (cs @ C # acc)"
      "length cs = n - i" "\<forall>j<n - i. GetConfigByIndex cc (of_nat (i + j)) = Inr (cs ! j)"
      using Suc.IH by blast
    from a have i: "i < n" by (simp add: active_at_def)
    have "\<forall>j<Suc n - i. GetConfigByIndex cc (of_nat (i + j)) = Inr ((cs @ [C]) ! j)"
    proof (intro allI impI)
      fix j
      assume "j < Suc n - i"
      then have "j < n - i \<or> i + j = n" using i by linarith
      then show "GetConfigByIndex cc (of_nat (i + j)) = Inr ((cs @ [C]) ! j)"
        using cs(2,3) C(1) i by (auto simp: nth_append)
    qed
    with cs(1,2) False C i show ?thesis
      by (intro exI [of _ "cs @ [C]"]) (simp add: Suc_diff_le)
  qed
qed (simp add: active_at_def)

lemma GetConfigByIndex_distinct:
  "GetConfigByIndex cc i = Inr c \<Longrightarrow> distinct (cc_Keypers c)"
  by (auto simp: GetConfigByIndex_def elim!: result_bindE)

end
