(* ===== verification/ObserveMain.thy ===== *)
theory ObserveMain
  imports ContractConfig Encryption
begin

text \<open>
  \<open>keyper/observe/mainchain.go\<close>: what a keyper knows about the main chain, read from an Ethereum node.
  \<open>SyncToHead\<close> clones the object before it changes it and drops the clone on an error, so the model
  returns the new state or the error. The node is the parameter \<open>main_node\<close>: calls of contracts at a
  block, event logs in a range of blocks. A panic is a value \<open>Inl\<close>.
\<close>

section \<open>State\<close>

record MBatch =
  mb_BatchIndex :: u64
  mb_EncryptedBatchHash :: bytes
  mb_EncryptedTransactions :: "bytes list"
  mb_PlainTransactions :: "bytes list"
  mb_PlainBatchHash :: bytes

record Deposit =
  dp_Account :: address
  dp_Slashed :: bool
  dp_Amount :: "int option"
  dp_WithdrawalDelayBlocks :: u64
  dp_WithdrawalRequestedBlock :: u64

record MAccusation =
  ma_Executor :: address
  ma_Accuser :: address
  ma_Appealed :: bool
  ma_HalfStep :: u64
  ma_BlockNumber :: u64

record CipherExecutionReceipt =
  cr_Executed :: bool
  cr_Executor :: address
  cr_HalfStep :: u64
  cr_CipherBatchHash :: bytes
  cr_BatchHash :: bytes

text \<open>
  Of the sync progress only whether it is nil is read: \<open>True\<close> stands for a value. The accusations are
  ranged over, so they are an association list.
\<close>

record MainChain =
  mc_FollowDistance :: u64
  mc_CurrentBlock :: u64
  mc_NodeSyncProgress :: bool
  mc_BatchConfigs :: "ContractConfig list"
  mc_Batches :: "u64 \<Rightarrow> MBatch option"
  mc_NumExecutionHalfSteps :: u64
  mc_CipherExecutionReceipts :: "u64 \<Rightarrow> CipherExecutionReceipt option"
  mc_Deposits :: "address \<Rightarrow> Deposit option"
  mc_Accusations :: "(u64 \<times> MAccusation) list"

definition NewMainChain :: "u64 \<Rightarrow> MainChain" where
  "NewMainChain followDistance =
     \<lparr> mc_FollowDistance = followDistance, mc_CurrentBlock = 0, mc_NodeSyncProgress = False,
       mc_BatchConfigs = [], mc_Batches = Map.empty, mc_NumExecutionHalfSteps = 0,
       mc_CipherExecutionReceipts = Map.empty, mc_Deposits = Map.empty, mc_Accusations = [] \<rparr>"

definition zero_hash :: bytes where
  "zero_hash = replicate 32 0"

text \<open>\<open>Batch{BatchIndex: batchIndex}\<close>\<close>

definition emptyBatch :: "u64 \<Rightarrow> MBatch" where
  "emptyBatch batchIndex =
     \<lparr> mb_BatchIndex = batchIndex, mb_EncryptedBatchHash = zero_hash, mb_EncryptedTransactions = [],
       mb_PlainTransactions = [], mb_PlainBatchHash = zero_hash \<rparr>"

section \<open>Loops\<close>

text \<open>\<open>for i := n - 1; i >= 0; i--\<close>: the last index below \<open>n\<close> with a property.\<close>

fun search_down :: "(nat \<Rightarrow> bool) \<Rightarrow> nat \<Rightarrow> nat option" where
  "search_down p 0 = None"
| "search_down p (Suc i) = (if p i then Some i else search_down p i)"

text \<open>\<open>for i := a; i < b; i++\<close> over 64-bit numbers.\<close>

definition range64 :: "u64 \<Rightarrow> u64 \<Rightarrow> u64 list" where
  "range64 a b = map of_nat [unat a..<unat b]"

text \<open>A loop whose body can fail.\<close>

fun loop_result :: "('a \<Rightarrow> 's \<Rightarrow> 's result) \<Rightarrow> 'a list \<Rightarrow> 's \<Rightarrow> 's result" where
  "loop_result f [] s = Inr s"
| "loop_result f (x # xs) s = result_bind (f x s) (loop_result f xs)"

section \<open>Configs\<close>

definition ActiveConfigIndex :: "MainChain \<Rightarrow> u64 \<Rightarrow> nat result" where
  "ActiveConfigIndex mc blocknum =
     (case search_down (\<lambda>i. cc_StartBlockNumber (mc_BatchConfigs mc ! i) \<le> blocknum) (length (mc_BatchConfigs mc)) of
        Some i \<Rightarrow> Inr i
      | None \<Rightarrow> Inl (Panic ''illegal values in MainChain.Configs field''))"

definition ActiveConfig :: "MainChain \<Rightarrow> u64 \<Rightarrow> ContractConfig result" where
  "ActiveConfig mc blocknum =
     result_bind (ActiveConfigIndex mc blocknum) (\<lambda>index. Inr (mc_BatchConfigs mc ! index))"

definition CurrentConfig :: "MainChain \<Rightarrow> ContractConfig result" where
  "CurrentConfig mc = ActiveConfig mc (mc_CurrentBlock mc)"

definition ActiveConfigs :: "MainChain \<Rightarrow> ContractConfig list result" where
  "ActiveConfigs mc =
     result_bind (ActiveConfigIndex mc (mc_CurrentBlock mc)) (\<lambda>index. Inr (drop index (mc_BatchConfigs mc)))"

definition IsActiveKeyper :: "MainChain \<Rightarrow> address \<Rightarrow> bool result" where
  "IsActiveKeyper mc addr =
     result_bind (ActiveConfigs mc) (\<lambda>activeConfigs. Inr (\<exists>c\<in>set activeConfigs. cc_IsKeyper c addr))"

definition ConfigIndexForBatchIndex :: "MainChain \<Rightarrow> u64 \<Rightarrow> nat option result" where
  "ConfigIndexForBatchIndex mc batchIndex =
     (case search_down (\<lambda>i. cc_StartBatchIndex (mc_BatchConfigs mc ! i) \<le> batchIndex) (length (mc_BatchConfigs mc)) of
        Some i \<Rightarrow> Inr (if IsActive (mc_BatchConfigs mc ! i) then Some i else None)
      | None \<Rightarrow> Inl (Panic ''illegal values in MainChain.Configs field''))"

definition ConfigForBatchIndex :: "MainChain \<Rightarrow> u64 \<Rightarrow> ContractConfig option result" where
  "ConfigForBatchIndex mc batchIndex =
     result_bind (ConfigIndexForBatchIndex mc batchIndex) (\<lambda>index.
       Inr (map_option (\<lambda>i. mc_BatchConfigs mc ! i) index))"

section \<open>The node\<close>

record TransactionAdded =
  ta_BatchIndex :: u64
  ta_TransactionType :: byte
  ta_Transaction :: bytes
  ta_BatchHash :: bytes
  ta_BlockNumber :: u64

record DepositChanged =
  dc_Account :: address
  dc_Amount :: int
  dc_WithdrawalDelayBlocks :: u64
  dc_WithdrawalRequestedBlock :: u64
  dc_Slashed :: bool
  dc_BlockNumber :: u64

record Accused =
  ka_HalfStep :: u64
  ka_Executor :: address
  ka_Accuser :: address
  ka_BlockNumber :: u64

record Appealed =
  kp_HalfStep :: u64
  kp_Executor :: address
  kp_BlockNumber :: u64

record main_node =
  mn_SyncProgress :: "bool result"
  mn_HeadNumber :: "u64 result"
  mn_ConfigContract :: "u64 \<Rightarrow> config_contract"
  mn_NumExecutionHalfSteps :: "u64 \<Rightarrow> u64 result"
  mn_GetReceipt :: "u64 \<Rightarrow> u64 \<Rightarrow> CipherExecutionReceipt result"
  mn_TransactionAdded :: "u64 \<Rightarrow> u64 \<Rightarrow> TransactionAdded list result"
  mn_DepositChanged :: "u64 \<Rightarrow> u64 \<Rightarrow> DepositChanged list result"
  mn_Accused :: "u64 \<Rightarrow> u64 \<Rightarrow> Accused list result"
  mn_Appealed :: "u64 \<Rightarrow> u64 \<Rightarrow> Appealed list result"

section \<open>Synchronisation\<close>

definition syncConfigs :: "main_node \<Rightarrow> u64 \<Rightarrow> MainChain \<Rightarrow> MainChain result" where
  "syncConfigs N block mc =
     result_bind (call_NumConfigs (mn_ConfigContract N block)) (\<lambda>numConfigs.
     loop_result (\<lambda>configIndex mc.
         result_bind (GetConfigByIndex (mn_ConfigContract N block) configIndex) (\<lambda>config.
         Inr (mc \<lparr> mc_BatchConfigs := mc_BatchConfigs mc @ [config] \<rparr>)))
       (range64 (of_nat (length (mc_BatchConfigs mc))) numConfigs) mc)"

definition addTransaction :: "TransactionAdded \<Rightarrow> MainChain \<Rightarrow> MainChain result" where
  "addTransaction event mc =
     (let batch = (case mc_Batches mc (ta_BatchIndex event) of Some b \<Rightarrow> b | None \<Rightarrow> emptyBatch (ta_BatchIndex event));
          put = (\<lambda>b. Inr (mc \<lparr> mc_Batches := (mc_Batches mc)(ta_BatchIndex event \<mapsto> b) \<rparr>))
      in if ta_TransactionType event = TransactionTypeCipher
         then put (batch \<lparr> mb_EncryptedTransactions := mb_EncryptedTransactions batch @ [ta_Transaction event],
                           mb_EncryptedBatchHash := ta_BatchHash event \<rparr>)
         else if ta_TransactionType event = TransactionTypePlain
         then put (batch \<lparr> mb_PlainTransactions := mb_PlainTransactions batch @ [ta_Transaction event],
                           mb_PlainBatchHash := ta_BatchHash event \<rparr>)
         else Inl (Panic ''unknown transaction type''))"

definition syncBatches :: "main_node \<Rightarrow> u64 \<Rightarrow> u64 \<Rightarrow> MainChain \<Rightarrow> MainChain result" where
  "syncBatches N start last_block mc =
     result_bind (mn_TransactionAdded N start last_block) (\<lambda>events. loop_result addTransaction events mc)"

definition syncExecutionState :: "main_node \<Rightarrow> u64 \<Rightarrow> MainChain \<Rightarrow> MainChain result" where
  "syncExecutionState N block mc =
     result_bind (mn_NumExecutionHalfSteps N block) (\<lambda>numExecutionHalfSteps.
     result_bind (loop_result (\<lambda>halfStep mc.
         if halfStep mod 2 \<noteq> 0 then Inr mc
         else result_bind (mn_GetReceipt N block halfStep) (\<lambda>receipt.
              Inr (mc \<lparr> mc_CipherExecutionReceipts :=
                (mc_CipherExecutionReceipts mc)(cr_HalfStep receipt \<mapsto> receipt) \<rparr>)))
       (range64 (mc_NumExecutionHalfSteps mc) numExecutionHalfSteps) mc)
     (\<lambda>mc'. Inr (mc' \<lparr> mc_NumExecutionHalfSteps := numExecutionHalfSteps \<rparr>)))"

definition GetDeposit :: "address \<Rightarrow> MainChain \<Rightarrow> Deposit \<times> MainChain" where
  "GetDeposit account mc =
     (case mc_Deposits mc account of
        Some d \<Rightarrow> (d, mc)
      | None \<Rightarrow>
          (let d = \<lparr> dp_Account = account, dp_Slashed = False, dp_Amount = None, dp_WithdrawalDelayBlocks = 0,
                     dp_WithdrawalRequestedBlock = 0 \<rparr>
           in (d, mc \<lparr> mc_Deposits := (mc_Deposits mc)(account \<mapsto> d) \<rparr>)))"

definition changeDeposit :: "DepositChanged \<Rightarrow> MainChain \<Rightarrow> MainChain" where
  "changeDeposit ev mc =
     (let (deposit, mc1) = GetDeposit (dc_Account ev) mc
      in mc1 \<lparr> mc_Deposits := (mc_Deposits mc1)(dc_Account ev \<mapsto>
           deposit \<lparr> dp_Amount := Some (dc_Amount ev),
                     dp_WithdrawalDelayBlocks := dc_WithdrawalDelayBlocks ev,
                     dp_WithdrawalRequestedBlock := dc_WithdrawalRequestedBlock ev,
                     dp_Slashed := dc_Slashed ev \<rparr>) \<rparr>)"

definition syncDeposits :: "main_node \<Rightarrow> u64 \<Rightarrow> u64 \<Rightarrow> MainChain \<Rightarrow> MainChain result" where
  "syncDeposits N start last_block mc =
     result_bind (mn_DepositChanged N start last_block) (\<lambda>events. Inr (foldl (\<lambda>mc ev. changeDeposit ev mc) mc events))"

definition addAccusation :: "Accused \<Rightarrow> MainChain \<Rightarrow> MainChain" where
  "addAccusation ev mc =
     (let accusation = \<lparr> ma_Executor = ka_Executor ev, ma_Accuser = ka_Accuser ev, ma_Appealed = False,
                         ma_HalfStep = ka_HalfStep ev, ma_BlockNumber = ka_BlockNumber ev \<rparr>
      in mc \<lparr> mc_Accusations := AList.update (ma_HalfStep accusation) accusation (mc_Accusations mc) \<rparr>)"

definition addAppeal :: "Appealed \<Rightarrow> MainChain \<Rightarrow> MainChain result" where
  "addAppeal ev mc =
     (case map_of (mc_Accusations mc) (kp_HalfStep ev) of
        None \<Rightarrow> Inl (Errorf ''got appeal without prior accusation'')
      | Some accusation \<Rightarrow> Inr (mc \<lparr> mc_Accusations :=
          AList.update (kp_HalfStep ev) (accusation \<lparr> ma_Appealed := True \<rparr>) (mc_Accusations mc) \<rparr>))"

definition syncSlashings :: "main_node \<Rightarrow> u64 \<Rightarrow> u64 \<Rightarrow> MainChain \<Rightarrow> MainChain result" where
  "syncSlashings N start last_block mc =
     result_bind (mn_Accused N start last_block) (\<lambda>accusedEvents.
     result_bind (mn_Appealed N start last_block) (\<lambda>appealedEvents.
     loop_result addAppeal appealedEvents (foldl (\<lambda>mc ev. addAccusation ev mc) mc accusedEvents)))"

text \<open>The block up to which the keyper follows the chain.\<close>

definition syncUntilBlock :: "MainChain \<Rightarrow> u64 \<Rightarrow> u64" where
  "syncUntilBlock mc latestBlockNumber =
     (if latestBlockNumber \<ge> mc_FollowDistance mc then latestBlockNumber - mc_FollowDistance mc else 0)"

definition mc_SyncToHead :: "main_node \<Rightarrow> MainChain \<Rightarrow> MainChain result" where
  "mc_SyncToHead N mc =
     result_bind (mn_SyncProgress N) (\<lambda>syncProgress.
     result_bind (mn_HeadNumber N) (\<lambda>latestBlockNumber.
     if latestBlockNumber = mc_CurrentBlock mc then Inr mc
     else
       let syncUntilBlockNumber = syncUntilBlock mc latestBlockNumber;
           start = mc_CurrentBlock mc + 1
       in result_bind (syncConfigs N syncUntilBlockNumber mc) (\<lambda>mc1.
          result_bind (syncBatches N start syncUntilBlockNumber mc1) (\<lambda>mc2.
          result_bind (syncExecutionState N syncUntilBlockNumber mc2) (\<lambda>mc3.
          result_bind (syncDeposits N start syncUntilBlockNumber mc3) (\<lambda>mc4.
          result_bind (syncSlashings N start syncUntilBlockNumber mc4) (\<lambda>mc5.
          Inr (mc5 \<lparr> mc_CurrentBlock := syncUntilBlockNumber, mc_NodeSyncProgress := syncProgress \<rparr>))))))))"

definition mc_IsSynced :: "MainChain \<Rightarrow> bool" where
  "mc_IsSynced mc \<longleftrightarrow> \<not> mc_NodeSyncProgress mc"

section \<open>Decrypting a batch\<close>

text \<open>A transaction that cannot be read or decrypted is logged and skipped.\<close>

definition decrypt_transaction :: "('g1, 'g2, 'gt) bn256 \<Rightarrow> 'g1 \<Rightarrow> bytes \<Rightarrow> bytes option" where
  "decrypt_transaction B key encTx =
     (case EncryptedMessage_Unmarshal B encTx of
        Inl err \<Rightarrow> None
      | Inr m \<Rightarrow> (case Decrypt B m key of Inl err \<Rightarrow> None | Inr decrypted \<Rightarrow> Some decrypted))"

definition DecryptTransactions ::
  "('g1, 'g2, 'gt) bn256 \<Rightarrow> (i64 \<Rightarrow> nat \<Rightarrow> nat \<Rightarrow> nat) \<Rightarrow> MBatch \<Rightarrow> 'g1 \<Rightarrow> bytes list" where
  "DecryptTransactions B int31n batch key =
     Shuffle B int31n (List.map_filter (decrypt_transaction B key) (mb_EncryptedTransactions batch)) key"

end
