(* ===== verification/ObserveShielder.thy ===== *)
theory ObserveShielder
  imports ShielderEvents
begin

text \<open>
  \<open>keyper/observe/shutter.go\<close>: what a keyper knows about the shuttermint chain, built from the events
  of the chain alone. A pointer into \<open>shielder.Eons\<close> is its index. Maps of pointers hold the structs
  themselves: \<open>Clone\<close> is a deep copy and precedes every change but that of \<open>getBatchData\<close>.
\<close>

section \<open>State\<close>

record ShielderFilter =
  flt_SyncHeight :: i64
  flt_BatchIndex :: u64

definition NeedsUpdate :: "ShielderFilter \<Rightarrow> ShielderFilter \<Rightarrow> bool" where
  "NeedsUpdate flt newFilter \<longleftrightarrow>
     sint (flt_SyncHeight newFilter) > sint (flt_SyncHeight flt) \<or>
     flt_BatchIndex newFilter > flt_BatchIndex flt"

record ('g1, 'g2) Eon =
  eo_Eon :: u64
  eo_StartHeight :: i64
  eo_StartEvent :: EonStarted
  eo_Commitments :: "'g2 PolyCommitment list"
  eo_PolyEvals :: "PolyEval list"
  eo_Accusations :: "Accusation list"
  eo_Apologies :: "Apology list"
  eo_EpochSecretKeyShares :: "'g1 EpochSecretKeyShare list"

record BatchData =
  bd_BatchIndex :: u64
  bd_DecryptionSignatures :: "DecryptionSignature list"

text \<open>Of the node status only \<open>SyncInfo.CatchingUp\<close> is read; \<open>None\<close> is a nil status.\<close>

record ('g1, 'g2, 'ek) Shielder =
  sh_CurrentBlock :: i64
  sh_LastCommittedHeight :: i64
  sh_NodeStatus :: "bool option"
  sh_KeyperEncryptionKeys :: "address \<Rightarrow> 'ek option"
  sh_BatchConfigs :: "BatchConfig list"
  sh_Batches :: "u64 \<Rightarrow> BatchData option"
  sh_Eons :: "('g1, 'g2) Eon list"
  sh_Filter :: ShielderFilter

definition NewShielder :: "('g1, 'g2, 'ek) Shielder" where
  "NewShielder =
     \<lparr> sh_CurrentBlock = - 1, sh_LastCommittedHeight = 0, sh_NodeStatus = None,
       sh_KeyperEncryptionKeys = Map.empty, sh_BatchConfigs = [], sh_Batches = Map.empty, sh_Eons = [],
       sh_Filter = \<lparr> flt_SyncHeight = 0, flt_BatchIndex = 0 \<rparr> \<rparr>"

section \<open>Filtering\<close>

text \<open>The five accessors have the same body; \<open>height\<close> reads the field \<open>Height\<close>.\<close>

definition events_from :: "('e \<Rightarrow> i64) \<Rightarrow> 'e list \<Rightarrow> i64 \<Rightarrow> 'e list" where
  "events_from height evs syncHeight =
     (let idx = sort_Search (length evs) (\<lambda>i. sint (height (evs ! i)) \<ge> sint syncHeight)
      in if idx = length evs then [] else drop idx evs)"

definition GetPolyCommitments :: "('g1, 'g2) Eon \<Rightarrow> i64 \<Rightarrow> 'g2 PolyCommitment list" where
  "GetPolyCommitments eon syncHeight = events_from pc_Height (eo_Commitments eon) syncHeight"

definition GetPolyEvals :: "('g1, 'g2) Eon \<Rightarrow> i64 \<Rightarrow> PolyEval list" where
  "GetPolyEvals eon syncHeight = events_from pe_Height (eo_PolyEvals eon) syncHeight"

definition GetAccusations :: "('g1, 'g2) Eon \<Rightarrow> i64 \<Rightarrow> Accusation list" where
  "GetAccusations eon syncHeight = events_from acc_Height (eo_Accusations eon) syncHeight"

definition GetApologies :: "('g1, 'g2) Eon \<Rightarrow> i64 \<Rightarrow> Apology list" where
  "GetApologies eon syncHeight = events_from apo_Height (eo_Apologies eon) syncHeight"

definition GetEpochSecretKeyShares :: "('g1, 'g2) Eon \<Rightarrow> i64 \<Rightarrow> 'g1 EpochSecretKeyShare list" where
  "GetEpochSecretKeyShares eon syncHeight = events_from sks_Height (eo_EpochSecretKeyShares eon) syncHeight"

text \<open>The epoch secret key shares are not copied.\<close>

definition Eon_ApplyFilter :: "i64 \<Rightarrow> ('g1, 'g2) Eon \<Rightarrow> ('g1, 'g2) Eon" where
  "Eon_ApplyFilter syncHeight eon =
     \<lparr> eo_Eon = eo_Eon eon, eo_StartHeight = eo_StartHeight eon, eo_StartEvent = eo_StartEvent eon,
       eo_Commitments = GetPolyCommitments eon syncHeight,
       eo_PolyEvals = GetPolyEvals eon syncHeight,
       eo_Accusations = GetAccusations eon syncHeight,
       eo_Apologies = GetApologies eon syncHeight,
       eo_EpochSecretKeyShares = [] \<rparr>"

definition filterSyncHeight :: "('g1, 'g2, 'ek) Shielder \<Rightarrow> ('g1, 'g2, 'ek) Shielder" where
  "filterSyncHeight sh =
     sh \<lparr> sh_Eons := map (Eon_ApplyFilter (flt_SyncHeight (sh_Filter sh))) (sh_Eons sh) \<rparr>"

definition filterBatchIndex :: "('g1, 'g2, 'ek) Shielder \<Rightarrow> ('g1, 'g2, 'ek) Shielder" where
  "filterBatchIndex sh =
     sh \<lparr> sh_Batches := (\<lambda>b. if b \<ge> flt_BatchIndex (sh_Filter sh) then sh_Batches sh b else None) \<rparr>"

definition ApplyFilter :: "ShielderFilter \<Rightarrow> ('g1, 'g2, 'ek) Shielder \<Rightarrow> ('g1, 'g2, 'ek) Shielder" where
  "ApplyFilter newFilter sh =
     (if \<not> NeedsUpdate (sh_Filter sh) newFilter then sh
      else filterBatchIndex (filterSyncHeight (sh \<lparr> sh_Filter := newFilter \<rparr>)))"

section \<open>Finding eons, batches and configs\<close>

definition getBatchData :: "u64 \<Rightarrow> ('g1, 'g2, 'ek) Shielder \<Rightarrow> BatchData \<times> ('g1, 'g2, 'ek) Shielder" where
  "getBatchData batchIndex sh =
     (case sh_Batches sh batchIndex of
        Some b \<Rightarrow> (b, sh)
      | None \<Rightarrow>
          (let b = \<lparr> bd_BatchIndex = batchIndex, bd_DecryptionSignatures = [] \<rparr>
           in (b, sh \<lparr> sh_Batches := (sh_Batches sh)(batchIndex \<mapsto> b) \<rparr>)))"

definition searchEon :: "('g1, 'g2, 'ek) Shielder \<Rightarrow> u64 \<Rightarrow> nat" where
  "searchEon sh eon = sort_Search (length (sh_Eons sh)) (\<lambda>i. eon \<le> eo_Eon (sh_Eons sh ! i))"

fun FindEonByBatchIndex_loop :: "('g1, 'g2) Eon list \<Rightarrow> u64 \<Rightarrow> nat \<Rightarrow> nat result" where
  "FindEonByBatchIndex_loop eons batchIndex 0 = Inl (Errorf ''eon not found'')"
| "FindEonByBatchIndex_loop eons batchIndex (Suc i) =
     (if es_BatchIndex (eo_StartEvent (eons ! i)) \<le> batchIndex then Inr i
      else FindEonByBatchIndex_loop eons batchIndex i)"

definition FindEonByBatchIndex :: "('g1, 'g2, 'ek) Shielder \<Rightarrow> u64 \<Rightarrow> nat result" where
  "FindEonByBatchIndex sh batchIndex =
     FindEonByBatchIndex_loop (sh_Eons sh) batchIndex (length (sh_Eons sh))"

definition FindEon :: "('g1, 'g2, 'ek) Shielder \<Rightarrow> u64 \<Rightarrow> nat result" where
  "FindEon sh eon =
     (let idx = searchEon sh eon
      in if idx = length (sh_Eons sh) \<or> eon < eo_Eon (sh_Eons sh ! idx) then Inl (Errorf ''eon not found'')
         else Inr idx)"

definition IsCheckedIn :: "('g1, 'g2, 'ek) Shielder \<Rightarrow> address \<Rightarrow> bool" where
  "IsCheckedIn sh addr = (sh_KeyperEncryptionKeys sh addr \<noteq> None)"

definition sh_IsKeyper :: "('g1, 'g2, 'ek) Shielder \<Rightarrow> address \<Rightarrow> bool" where
  "sh_IsKeyper sh addr = (\<exists>cfg\<in>set (sh_BatchConfigs sh). IsKeyper cfg addr)"

definition FindBatchConfigByConfigIndex :: "('g1, 'g2, 'ek) Shielder \<Rightarrow> u64 \<Rightarrow> BatchConfig result" where
  "FindBatchConfigByConfigIndex sh configIndex =
     (case find (\<lambda>bc. bc_ConfigIndex bc = configIndex) (sh_BatchConfigs sh) of
        Some bc \<Rightarrow> Inr bc
      | None \<Rightarrow> Inl (Errorf ''cannot find BatchConfig''))"

text \<open>\<open>BatchConfig{}\<close>, and the loop \<open>for i := len(configs); i > 0; i++\<close>, which counts upwards.\<close>

definition zero_BatchConfig :: BatchConfig where
  "zero_BatchConfig = \<lparr> bc_Height = 0, bc_Keypers = [], bc_StartBatchIndex = 0, bc_Threshold = 0,
     bc_ConfigIndex = 0, bc_ConfigContractAddress = 0, bc_Started = False, bc_ValidatorsUpdated = False \<rparr>"

function FindBatchConfig_loop :: "BatchConfig list \<Rightarrow> u64 \<Rightarrow> nat \<Rightarrow> BatchConfig result" where
  "FindBatchConfig_loop configs batchIndex i =
     (if i > 0
      then (if i - 1 < length configs
            then (if bc_StartBatchIndex (configs ! (i - 1)) \<le> batchIndex then Inr (configs ! (i - 1))
                  else FindBatchConfig_loop configs batchIndex (i + 1))
            else Inl (Panic ''index out of range''))
      else Inr zero_BatchConfig)"
  by pat_completeness auto
termination
  by (relation "measure (\<lambda>(configs, batchIndex, i). Suc (length configs) - i)") auto

declare FindBatchConfig_loop.simps [simp del]

definition FindBatchConfigByBatchIndex :: "('g1, 'g2, 'ek) Shielder \<Rightarrow> u64 \<Rightarrow> BatchConfig result" where
  "FindBatchConfigByBatchIndex sh batchIndex =
     FindBatchConfig_loop (sh_BatchConfigs sh) batchIndex (length (sh_BatchConfigs sh))"

text \<open>
  \<open>sort.Slice\<close> is not stable: the model sorts with \<open>sort_key\<close>, which is the only result when no
  keyper has signed twice.
\<close>

definition GetSortedDecryptionSignaturesWithIndices ::
  "u64 \<Rightarrow> ('g1, 'g2, 'ek) Shielder \<Rightarrow> (bytes list \<times> u64 list) result \<times> ('g1, 'g2, 'ek) Shielder" where
  "GetSortedDecryptionSignaturesWithIndices batchIndex sh =
     (case FindBatchConfigByBatchIndex sh batchIndex of
        Inl p \<Rightarrow> (Inl p, sh)
      | Inr config \<Rightarrow>
          (let (b, sh') = getBatchData batchIndex sh
           in (result_bind (collect (\<lambda>ev. case KeyperIndex config (ds_Sender ev) of
                   None \<Rightarrow> Inl (Errorf ''signer not a keyper in batch'')
                 | Some keyperIndex \<Rightarrow> Inr (ds_Signature ev, keyperIndex)) (bd_DecryptionSignatures b))
               (\<lambda>sigsAndIndices. let sorted = sort_key snd sigsAndIndices
                  in Inr (map fst sorted, map snd sorted)), sh')))"

definition sh_IsSynced :: "('g1, 'g2, 'ek) Shielder \<Rightarrow> bool" where
  "sh_IsSynced sh \<longleftrightarrow> (case sh_NodeStatus sh of None \<Rightarrow> True | Some catchingUp \<Rightarrow> \<not> catchingUp)"

section \<open>Applying events\<close>

definition applyCheckIn :: "'ek CheckIn \<Rightarrow> ('g1, 'g2, 'ek) Shielder \<Rightarrow> ('g1, 'g2, 'ek) Shielder result" where
  "applyCheckIn e sh =
     Inr (sh \<lparr> sh_KeyperEncryptionKeys := (sh_KeyperEncryptionKeys sh)(ci_Sender e \<mapsto> ci_EncryptionPublicKey e) \<rparr>)"

definition applyBatchConfig :: "BatchConfig \<Rightarrow> ('g1, 'g2, 'ek) Shielder \<Rightarrow> ('g1, 'g2, 'ek) Shielder result" where
  "applyBatchConfig e sh = Inr (sh \<lparr> sh_BatchConfigs := sh_BatchConfigs sh @ [e] \<rparr>)"

definition applyDecryptionSignature ::
  "DecryptionSignature \<Rightarrow> ('g1, 'g2, 'ek) Shielder \<Rightarrow> ('g1, 'g2, 'ek) Shielder result" where
  "applyDecryptionSignature e sh =
     (let (b, sh') = getBatchData (ds_BatchIndex e) sh
      in Inr (sh' \<lparr> sh_Batches := (sh_Batches sh')(ds_BatchIndex e \<mapsto>
           b \<lparr> bd_DecryptionSignatures := bd_DecryptionSignatures b @ [e] \<rparr>) \<rparr>))"

definition new_eon :: "EonStarted \<Rightarrow> ('g1, 'g2) Eon" where
  "new_eon e =
     \<lparr> eo_Eon = es_Eon e, eo_StartHeight = es_Height e, eo_StartEvent = e, eo_Commitments = [],
       eo_PolyEvals = [], eo_Accusations = [], eo_Apologies = [], eo_EpochSecretKeyShares = [] \<rparr>"

definition applyEonStarted :: "EonStarted \<Rightarrow> ('g1, 'g2, 'ek) Shielder \<Rightarrow> ('g1, 'g2, 'ek) Shielder result" where
  "applyEonStarted e sh =
     (let idx = searchEon sh (es_Eon e)
      in if idx < length (sh_Eons sh) then Inl (Errorf ''eons should increase'')
         else Inr (sh \<lparr> sh_Eons := sh_Eons sh @ [new_eon e] \<rparr>))"

text \<open>The rest of the handlers append the event to a field of the eon it names.\<close>

definition append_to_eon ::
  "u64 \<Rightarrow> (('g1, 'g2) Eon \<Rightarrow> ('g1, 'g2) Eon) \<Rightarrow> ('g1, 'g2, 'ek) Shielder \<Rightarrow> ('g1, 'g2, 'ek) Shielder result" where
  "append_to_eon eon f sh =
     result_bind (FindEon sh eon) (\<lambda>idx. Inr (sh \<lparr> sh_Eons := (sh_Eons sh) [idx := f (sh_Eons sh ! idx)] \<rparr>))"

definition applyPolyCommitment ::
  "'g2 PolyCommitment \<Rightarrow> ('g1, 'g2, 'ek) Shielder \<Rightarrow> ('g1, 'g2, 'ek) Shielder result" where
  "applyPolyCommitment e = append_to_eon (pc_Eon e) (\<lambda>eon. eon \<lparr> eo_Commitments := eo_Commitments eon @ [e] \<rparr>)"

definition applyPolyEval :: "PolyEval \<Rightarrow> ('g1, 'g2, 'ek) Shielder \<Rightarrow> ('g1, 'g2, 'ek) Shielder result" where
  "applyPolyEval e = append_to_eon (pe_Eon e) (\<lambda>eon. eon \<lparr> eo_PolyEvals := eo_PolyEvals eon @ [e] \<rparr>)"

definition applyAccusation :: "Accusation \<Rightarrow> ('g1, 'g2, 'ek) Shielder \<Rightarrow> ('g1, 'g2, 'ek) Shielder result" where
  "applyAccusation e = append_to_eon (acc_Eon e) (\<lambda>eon. eon \<lparr> eo_Accusations := eo_Accusations eon @ [e] \<rparr>)"

definition applyApology :: "Apology \<Rightarrow> ('g1, 'g2, 'ek) Shielder \<Rightarrow> ('g1, 'g2, 'ek) Shielder result" where
  "applyApology e = append_to_eon (apo_Eon e) (\<lambda>eon. eon \<lparr> eo_Apologies := eo_Apologies eon @ [e] \<rparr>)"

definition applyEpochSecretKeyShare ::
  "'g1 EpochSecretKeyShare \<Rightarrow> ('g1, 'g2, 'ek) Shielder \<Rightarrow> ('g1, 'g2, 'ek) Shielder result" where
  "applyEpochSecretKeyShare e =
     append_to_eon (sks_Eon e) (\<lambda>eon. eon \<lparr> eo_EpochSecretKeyShares := eo_EpochSecretKeyShares eon @ [e] \<rparr>)"

fun apply_to :: "('g1, 'g2, 'ek) IEvent \<Rightarrow> ('g1, 'g2, 'ek) Shielder \<Rightarrow> ('g1, 'g2, 'ek) Shielder result" where
  "apply_to (EvCheckIn e) sh = applyCheckIn e sh"
| "apply_to (EvBatchConfig e) sh = applyBatchConfig e sh"
| "apply_to (EvDecryptionSignature e) sh = applyDecryptionSignature e sh"
| "apply_to (EvEonStarted e) sh = applyEonStarted e sh"
| "apply_to (EvPolyCommitment e) sh = applyPolyCommitment e sh"
| "apply_to (EvPolyEval e) sh = applyPolyEval e sh"
| "apply_to (EvAccusation e) sh = applyAccusation e sh"
| "apply_to (EvApology e) sh = applyApology e sh"
| "apply_to (EvEpochSecretKeyShare e) sh = applyEpochSecretKeyShare e sh"

text \<open>An error is logged; the handlers fail before they change anything.\<close>

definition applyEvent :: "('g1, 'g2, 'ek) IEvent \<Rightarrow> ('g1, 'g2, 'ek) Shielder \<Rightarrow> ('g1, 'g2, 'ek) Shielder" where
  "applyEvent ev sh = (case apply_to ev sh of Inl err \<Rightarrow> sh | Inr sh' \<Rightarrow> sh')"

fun applyTxEvents ::
  "('g1, 'g2, 'gt) bn256 \<Rightarrow> ('pk, 'sk, 'ek, 'dk) eth \<Rightarrow> i64 \<Rightarrow> abci_event list \<Rightarrow>
   ('g1, 'g2, 'ek) Shielder \<Rightarrow> ('g1, 'g2, 'ek) Shielder" where
  "applyTxEvents B E height [] sh = sh"
| "applyTxEvents B E height (ev # events) sh =
     applyTxEvents B E height events
       (case MakeEvent B E ev height of Inl err \<Rightarrow> sh | Inr x \<Rightarrow> applyEvent x sh)"

section \<open>Reading the chain\<close>

text \<open>
  The RPC client of a tendermint node: the transactions in a range of heights, page by page; the height
  of the last commit (\<open>None\<close> when the block or its commit is nil); the node status.
\<close>

record tm_tx =
  tx_Height :: i64
  tx_Events :: "abci_event list"

record tm_search =
  tr_Txs :: "tm_tx list"
  tr_TotalCount :: int

record tm_client =
  TxSearch :: "i64 \<Rightarrow> i64 \<Rightarrow> nat \<Rightarrow> nat \<Rightarrow> tm_search result"
  Block_LastCommit :: "i64 option result"
  Status_CatchingUp :: "bool result"

definition perQuery :: i64 where
  "perQuery = 500"

definition perPage :: nat where
  "perPage = 100"

definition apply_txs ::
  "('g1, 'g2, 'gt) bn256 \<Rightarrow> ('pk, 'sk, 'ek, 'dk) eth \<Rightarrow> tm_tx list \<Rightarrow>
   ('g1, 'g2, 'ek) Shielder \<Rightarrow> ('g1, 'g2, 'ek) Shielder" where
  "apply_txs B E txs sh = foldl (\<lambda>sh tx. applyTxEvents B E (tx_Height tx) (tx_Events tx) sh) sh txs"

text \<open>
  The inner loop of \<open>fetchAndApplyEvents\<close> reads the pages of one query; its result says whether the
  function returns at once (nothing to apply, so a shallow clone is enough). \<open>None\<close>: the loop does not end.
\<close>

partial_function (option) fetch_pages ::
  "('g1, 'g2, 'gt) bn256 \<Rightarrow> ('pk, 'sk, 'ek, 'dk) eth \<Rightarrow> tm_client \<Rightarrow> i64 \<Rightarrow> i64 \<Rightarrow> i64 \<Rightarrow> nat \<Rightarrow> nat \<Rightarrow>
   bool \<Rightarrow> ('g1, 'g2, 'ek) Shielder \<Rightarrow> (bool \<times> ('g1, 'g2, 'ek) Shielder) result option" where
  "fetch_pages B E C lo height targetHeight page received cloned sh =
     (case TxSearch C lo height page perPage of
        Inl err \<Rightarrow> Some (Inl err)
      | Inr res \<Rightarrow>
          if \<not> cloned \<and> tr_TotalCount res = 0 \<and> height = targetHeight then Some (Inr (True, sh))
          else let received' = received + length (tr_Txs res);
                   sh' = apply_txs B E (tr_Txs res) sh
               in if int (page * perPage) \<ge> tr_TotalCount res
                  then (if int received' \<noteq> tr_TotalCount res then Some (Inl (Panic ''internal error''))
                        else Some (Inr (False, sh')))
                  else fetch_pages B E C lo height targetHeight (page + 1) received' True sh')"

partial_function (option) fetch_heights ::
  "('g1, 'g2, 'gt) bn256 \<Rightarrow> ('pk, 'sk, 'ek, 'dk) eth \<Rightarrow> tm_client \<Rightarrow> i64 \<Rightarrow> i64 \<Rightarrow>
   bool \<Rightarrow> ('g1, 'g2, 'ek) Shielder \<Rightarrow> ('g1, 'g2, 'ek) Shielder result option" where
  "fetch_heights B E C targetHeight currentBlock cloned sh =
     (let height = (if sint (currentBlock + perQuery) > sint targetHeight then targetHeight
                    else currentBlock + perQuery)
      in case fetch_pages B E C (currentBlock + 1) height targetHeight 1 0 cloned sh of
           None \<Rightarrow> None
         | Some r \<Rightarrow> (case r of Inl err \<Rightarrow> Some (Inl err) | Inr (returns, sh') \<Rightarrow>
             if returns then Some (Inr sh')
             else if height = targetHeight then Some (Inr sh')
             else fetch_heights B E C targetHeight height True sh'))"

definition fetchAndApplyEvents ::
  "('g1, 'g2, 'gt) bn256 \<Rightarrow> ('pk, 'sk, 'ek, 'dk) eth \<Rightarrow> tm_client \<Rightarrow> i64 \<Rightarrow>
   ('g1, 'g2, 'ek) Shielder \<Rightarrow> ('g1, 'g2, 'ek) Shielder result option" where
  "fetchAndApplyEvents B E C targetHeight sh =
     (if sint targetHeight < sint (sh_CurrentBlock sh)
      then Some (Inl (Panic ''internal error: fetchAndApplyEvents bad arguments''))
      else fetch_heights B E C targetHeight (sh_CurrentBlock sh) False sh)"

definition GetLastCommittedHeight :: "tm_client \<Rightarrow> i64 result" where
  "GetLastCommittedHeight C =
     result_bind (Block_LastCommit C) (\<lambda>latestBlock. case latestBlock of
        None \<Rightarrow> Inl (Errorf ''empty blockchain'') | Some h \<Rightarrow> Inr h)"

definition SyncToHeight ::
  "('g1, 'g2, 'gt) bn256 \<Rightarrow> ('pk, 'sk, 'ek, 'dk) eth \<Rightarrow> tm_client \<Rightarrow> i64 \<Rightarrow>
   ('g1, 'g2, 'ek) Shielder \<Rightarrow> ('g1, 'g2, 'ek) Shielder result option" where
  "SyncToHeight B E C height sh =
     (case Status_CatchingUp C of Inl err \<Rightarrow> Some (Inl err) | Inr nodeStatus \<Rightarrow>
     (case GetLastCommittedHeight C of Inl err \<Rightarrow> Some (Inl err) | Inr lastCommittedHeight \<Rightarrow>
      map_option (\<lambda>r. result_bind r (\<lambda>clone. Inr (clone \<lparr> sh_CurrentBlock := height,
          sh_LastCommittedHeight := lastCommittedHeight, sh_NodeStatus := Some nodeStatus \<rparr>)))
        (fetchAndApplyEvents B E C height sh)))"

text \<open>The node can answer the first question from another block than the later ones: \<open>C0\<close> and \<open>C\<close>.\<close>

definition sh_SyncToHead ::
  "('g1, 'g2, 'gt) bn256 \<Rightarrow> ('pk, 'sk, 'ek, 'dk) eth \<Rightarrow> tm_client \<Rightarrow> tm_client \<Rightarrow>
   ('g1, 'g2, 'ek) Shielder \<Rightarrow> ('g1, 'g2, 'ek) Shielder result option" where
  "sh_SyncToHead B E C0 C sh =
     (case GetLastCommittedHeight C0 of Inl err \<Rightarrow> Some (Inl err) | Inr height \<Rightarrow>
      if height = sh_CurrentBlock sh then Some (Inr sh) else SyncToHeight B E C height sh)"

end
