(* ===== verification/Actions.thy ===== *)
theory Actions
  imports ObserveMain ObserveShielder ShMsg
begin

text \<open>
  \<open>keyper/fx\<close>: the actions the decider asks for (\<open>actions.go\<close>), how one of them is sent
  (\<open>messagesender.go\<close>, \<open>SendTX\<close>) and the store of the actions that are not done yet (\<open>pending.go\<close>).
  The Ethereum node and the contracts (bindings, generated) and the tendermint client are records of
  functions; a transaction is its hash.
\<close>

section \<open>Actions\<close>

record Authorization =
  au_HalfStep :: u64
  au_BatchHash :: bytes
  au_SignerIndices :: "u64 list"
  au_Signatures :: "bytes list"

datatype 'g2 IAction =
  SendShielderMessage (ac_Description: string) (ac_Msg: Message)
| ExecuteCipherBatch (ac_BatchIndex: u64) (ac_CipherBatchHash: bytes) (ac_Transactions: "bytes list")
    (ac_KeyperIndex: u64) (ac_TransactionGasLimit: u64)
| ExecutePlainBatch (ac_BatchIndex: u64) (ac_Transactions: "bytes list") (ac_TransactionGasLimit: u64)
| SkipCipherBatch (ac_BatchIndex: u64)
| Accuse (ac_HalfStep: u64) (ac_KeyperIndex: u64)
| Appeal (ac_Authorization: Authorization)
| EonKeyBroadcast (ac_KeyperIndex: u64) (ac_StartBatchIndex: u64) (ac_EonPublicKey: 'g2)

text \<open>The type switch between \<open>*SendShielderMessage\<close> and \<open>MainChainTX\<close>.\<close>

fun is_MainChainTX :: "'g2 IAction \<Rightarrow> bool" where
  "is_MainChainTX (SendShielderMessage d m) = False"
| "is_MainChainTX _ = True"

record ('g1, 'g2, 'ek) World =
  w_Shielder :: "('g1, 'g2, 'ek) Shielder"
  w_MainChain :: MainChain

fun IsExpired :: "MainChain \<Rightarrow> 'g2 IAction \<Rightarrow> bool" where
  "IsExpired mc (SendShielderMessage d m) = False"
| "IsExpired mc (ExecuteCipherBatch batchIndex hash txs keyperIndex gas) =
     (let halfStep = 2 * batchIndex in mc_NumExecutionHalfSteps mc > halfStep)"
| "IsExpired mc (ExecutePlainBatch batchIndex txs gas) =
     (let halfStep = 2 * batchIndex + 1 in mc_NumExecutionHalfSteps mc > halfStep)"
| "IsExpired mc (SkipCipherBatch batchIndex) =
     (let halfStep = 2 * batchIndex in mc_NumExecutionHalfSteps mc > halfStep)"
| "IsExpired mc (Accuse halfStep keyperIndex) = False"
| "IsExpired mc (Appeal authorization) = False"
| "IsExpired mc (EonKeyBroadcast keyperIndex startBatchIndex eonPublicKey) = False"

definition eonKeyBroadcastGasLimit :: u64 where
  "eonKeyBroadcastGasLimit = 1000000"

definition executeCipherBatchBaseLimit :: u64 where
  "executeCipherBatchBaseLimit = 250000"

definition executePlainBatchBaseLimit :: u64 where
  "executePlainBatchBaseLimit = 250000"

definition skipCipherExecutionLimit :: u64 where
  "skipCipherExecutionLimit = 200000"

text \<open>\<open>gasLimit\<close> of the two batch actions: the base limit and the transactions' limits, in 64 bits.\<close>

definition gasLimit :: "u64 \<Rightarrow> bytes list \<Rightarrow> u64 \<Rightarrow> u64" where
  "gasLimit baseLimit transactions transactionGasLimit =
     baseLimit + of_nat (length transactions) * transactionGasLimit"

section \<open>Transactions\<close>

text \<open>\<open>bind.TransactOpts\<close>; a gas limit of 0 lets the node estimate it.\<close>

record transact_opts =
  auth_Nonce :: int
  auth_GasPrice :: int
  auth_GasLimit :: u64

record eth_client =
  ec_ChainID :: "int result"
  ec_Transactor :: "int \<Rightarrow> transact_opts result"
  ec_PendingNonce :: "u64 result"
  ec_SuggestGasPrice :: "int result"
  ec_ExecuteCipherBatch :: "transact_opts \<Rightarrow> u64 \<Rightarrow> bytes \<Rightarrow> bytes list \<Rightarrow> u64 \<Rightarrow> bytes result"
  ec_ExecutePlainBatch :: "transact_opts \<Rightarrow> u64 \<Rightarrow> bytes list \<Rightarrow> bytes result"
  ec_SkipCipherExecution :: "transact_opts \<Rightarrow> u64 \<Rightarrow> bytes result"
  ec_Accuse :: "transact_opts \<Rightarrow> u64 \<Rightarrow> u64 \<Rightarrow> bytes result"
  ec_Appeal :: "transact_opts \<Rightarrow> Authorization \<Rightarrow> bytes result"
  ec_Vote :: "transact_opts \<Rightarrow> u64 \<Rightarrow> u64 \<Rightarrow> bytes \<Rightarrow> bytes result"

text \<open>\<open>Caller.Auth\<close>: the suggested gas price times one and a half; \<open>big.Int.Div\<close> rounds down here.\<close>

definition Auth :: "eth_client \<Rightarrow> transact_opts result" where
  "Auth C =
     result_bind (ec_ChainID C) (\<lambda>chainID.
     result_bind (ec_Transactor C chainID) (\<lambda>auth.
     result_bind (ec_PendingNonce C) (\<lambda>nonce.
     result_bind (ec_SuggestGasPrice C) (\<lambda>gasPrice.
     Inr (auth \<lparr> auth_Nonce := sint nonce, auth_GasPrice := gasPrice * 3 div 2 \<rparr>)))))"

fun SendTX :: "('g1, 'g2, 'gt) bn256 \<Rightarrow> eth_client \<Rightarrow> transact_opts \<Rightarrow> 'g2 IAction \<Rightarrow> bytes result" where
  "SendTX B C auth (SendShielderMessage d m) = Inl (Panic ''not a main chain transaction'')"
| "SendTX B C auth (ExecuteCipherBatch batchIndex hash txs keyperIndex gas) =
     ec_ExecuteCipherBatch C (auth \<lparr> auth_GasLimit := gasLimit executeCipherBatchBaseLimit txs gas \<rparr>)
       batchIndex hash txs keyperIndex"
| "SendTX B C auth (ExecutePlainBatch batchIndex txs gas) =
     ec_ExecutePlainBatch C (auth \<lparr> auth_GasLimit := gasLimit executePlainBatchBaseLimit txs gas \<rparr>) batchIndex txs"
| "SendTX B C auth (SkipCipherBatch batchIndex) =
     ec_SkipCipherExecution C (auth \<lparr> auth_GasLimit := skipCipherExecutionLimit \<rparr>) batchIndex"
| "SendTX B C auth (Accuse halfStep keyperIndex) = ec_Accuse C auth halfStep keyperIndex"
| "SendTX B C auth (Appeal authorization) = ec_Appeal C auth authorization"
| "SendTX B C auth (EonKeyBroadcast keyperIndex startBatchIndex eonPublicKey) =
     ec_Vote C (auth \<lparr> auth_GasLimit := eonKeyBroadcastGasLimit \<rparr>) keyperIndex startBatchIndex
       (EonPublicKey_Marshal B eonPublicKey)"

section \<open>Messages\<close>

text \<open>
  The chain id is a byte string. \<open>BroadcastTxCommit\<close> answers with the code of \<open>DeliverTx\<close>;
  a \<open>RemoteError\<close> (a code that is not 0) is not retried, every other error is.
\<close>

record tm_rpc =
  rpc_BlockchainInfo :: "bytes list result"
  rpc_BroadcastTxCommit :: "string \<Rightarrow> nat result"

datatype send_error = RemoteError | OtherError go_error

fun IsRetriable :: "send_error \<Rightarrow> bool" where
  "IsRetriable RemoteError = False"
| "IsRetriable (OtherError err) = True"

record 'sk RPCMessageSender =
  ms_chainID :: bytes
  ms_signingKey :: 'sk

definition NewRPCMessageSender :: "'sk \<Rightarrow> 'sk RPCMessageSender" where
  "NewRPCMessageSender signingKey = \<lparr> ms_chainID = [], ms_signingKey = signingKey \<rparr>"

definition maybeFetchChainID :: "tm_rpc \<Rightarrow> 'sk RPCMessageSender \<Rightarrow> 'sk RPCMessageSender result" where
  "maybeFetchChainID T ms =
     (if ms_chainID ms \<noteq> [] then Inr ms
      else result_bind (rpc_BlockchainInfo T) (\<lambda>blockMetas.
           case blockMetas of
             [] \<Rightarrow> Inl (Errorf ''failed to fetch block meta to check chain id'')
           | m # _ \<Rightarrow> Inr (ms \<lparr> ms_chainID := m \<rparr>)))"

definition addNonceAndChainID :: "u64 \<Rightarrow> Message \<Rightarrow> 'sk RPCMessageSender \<Rightarrow> MessageWithNonce" where
  "addNonceAndChainID randomNonce msg ms =
     \<lparr> mwn_Msg = Some msg, mwn_ChainId = ms_chainID ms, mwn_RandomNonce = randomNonce \<rparr>"

text \<open>The error, if any, and the sender, which keeps a chain id it has fetched.\<close>

definition SendMessage ::
  "('pk, 'sk, 'ek, 'dk) eth \<Rightarrow> proto \<Rightarrow> tm_rpc \<Rightarrow> u64 \<Rightarrow> Message \<Rightarrow> 'sk RPCMessageSender \<Rightarrow>
   send_error option \<times> 'sk RPCMessageSender" where
  "SendMessage E P T randomNonce msg ms =
     (case maybeFetchChainID T ms of
        Inl err \<Rightarrow> (Some (OtherError err), ms)
      | Inr ms' \<Rightarrow>
          (case SignMessage E P (addNonceAndChainID randomNonce msg ms') (ms_signingKey ms') of
             Inl err \<Rightarrow> (Some (OtherError err), ms')
           | Inr signedMessage \<Rightarrow>
               (case rpc_BroadcastTxCommit T (b64_EncodeToString signedMessage) of
                  Inl err \<Rightarrow> (Some (OtherError err), ms')
                | Inr code \<Rightarrow> (if code \<noteq> 0 then Some RemoteError else None, ms'))))"

section \<open>Pending actions\<close>

type_synonym ActionID = u64

text \<open>
  The map of the actions is ranged over and then sorted by id. The file that \<open>save\<close> writes is not part of
  the record: every operation saves before it returns, so the file holds the record of the last operation.
\<close>

record 'g2 PendingActions =
  pa_ActionMap :: "(ActionID \<times> 'g2 IAction) list"
  pa_MainChainTXHashes :: "ActionID \<Rightarrow> bytes option"
  pa_CurrentID :: ActionID

definition NewPendingActions :: "'g2 PendingActions" where
  "NewPendingActions = \<lparr> pa_ActionMap = [], pa_MainChainTXHashes = Map.empty, pa_CurrentID = 0 \<rparr>"

definition SortedIDs :: "'g2 PendingActions \<Rightarrow> ActionID list" where
  "SortedIDs pending = sort (map fst (pa_ActionMap pending))"

text \<open>\<open>for i, act := range actions { pending.ActionMap[startID+ActionID(i)] = act }\<close>\<close>

fun put_actions :: "ActionID \<Rightarrow> 'g2 IAction list \<Rightarrow> (ActionID \<times> 'g2 IAction) list \<Rightarrow> (ActionID \<times> 'g2 IAction) list" where
  "put_actions aid [] m = m"
| "put_actions aid (act # acts) m = put_actions (aid + 1) acts (AList.update aid act m)"

definition AddActions ::
  "ActionID \<Rightarrow> 'g2 IAction list \<Rightarrow> 'g2 PendingActions \<Rightarrow> ((ActionID \<times> ActionID) \<times> 'g2 PendingActions) result" where
  "AddActions aid actions pending =
     (if aid > pa_CurrentID pending then Inl (Panic ''AddAction called with wrong id'')
      else let startID = pa_CurrentID pending
           in if pa_CurrentID pending \<ge> aid + of_nat (length actions) then Inr ((startID, startID), pending)
              else let skip = pa_CurrentID pending - aid
                   in if unat skip > length actions then Inl (Panic ''slice bounds out of range'')
                      else let actions' = drop (unat skip) actions;
                               pending' = pending \<lparr>
                                 pa_ActionMap := put_actions startID actions' (pa_ActionMap pending),
                                 pa_CurrentID := pa_CurrentID pending + of_nat (length actions') \<rparr>
                           in Inr ((startID, pa_CurrentID pending'), pending'))"

definition SetMainChainTXHash :: "ActionID \<Rightarrow> bytes \<Rightarrow> 'g2 PendingActions \<Rightarrow> 'g2 PendingActions" where
  "SetMainChainTXHash aid hash pending =
     pending \<lparr> pa_MainChainTXHashes := (pa_MainChainTXHashes pending)(aid \<mapsto> hash) \<rparr>"

definition GetMainChainTXHash :: "ActionID \<Rightarrow> 'g2 PendingActions \<Rightarrow> bytes" where
  "GetMainChainTXHash aid pending =
     (case pa_MainChainTXHashes pending aid of None \<Rightarrow> zero_hash | Some hash \<Rightarrow> hash)"

definition RemoveAction :: "ActionID \<Rightarrow> 'g2 PendingActions \<Rightarrow> 'g2 PendingActions" where
  "RemoveAction aid pending =
     pending \<lparr> pa_ActionMap := AList.delete aid (pa_ActionMap pending),
               pa_MainChainTXHashes := (pa_MainChainTXHashes pending)(aid := None) \<rparr>"

text \<open>\<open>None\<close> is the nil interface.\<close>

definition GetAction :: "ActionID \<Rightarrow> 'g2 PendingActions \<Rightarrow> 'g2 IAction option" where
  "GetAction aid pending = map_of (pa_ActionMap pending) aid"

end
