(* ===== verification/DecideDKG.thy ===== *)
theory DecideDKG
  imports EpochKG Actions
begin

text \<open>
  \<open>keyper/decide.go\<close>, first part: the keyper's state, the \<open>Decider\<close> and its handlers for check-ins, batch
  configs and the distributed key generations. The decider changes its state in place; the model passes it
  through the handlers. Logging is left out; \<open>log.Fatalf\<close> and \<open>log.Panicf\<close> stop the program like a panic.
  \<open>dec_choices\<close> collects what a run leaves open: the orders of ranges over maps and the random numbers.
\<close>

section \<open>State\<close>

text \<open>Of the configuration (\<open>keyper/config.go\<close>), the fields that the decider reads.\<close>

record ('sk, 'dk) Config =
  kc_SigningKey :: 'sk
  kc_ValidatorKey :: bytes
  kc_EncryptionKey :: 'dk
  kc_ConfigContractAddress :: address
  kc_BatcherContractAddress :: address
  kc_MainChainFollowDistance :: u64
  kc_ExecutionStaggering :: u64
  kc_DKGPhaseLength :: u64

definition Config_Address :: "('pk, 'sk, 'ek, 'dk) eth \<Rightarrow> ('sk, 'dk) Config \<Rightarrow> address" where
  "Config_Address E config = PubkeyToAddress E (sk_PublicKey E (kc_SigningKey config))"

record PhaseLength =
  pl_Off :: i64
  pl_Dealing :: i64
  pl_Accusing :: i64
  pl_Apologizing :: i64

record Batch =
  ba_BatchIndex :: u64
  ba_DecryptionSignatureHash :: bytes
  ba_DecryptedTransactions :: "bytes list"
  ba_DecryptedBatchHash :: bytes
  ba_DecryptionSignatureIndex :: nat
  ba_SignatureCount :: nat

text \<open>\<open>Pure\<close> is a pointer that \<open>startDKG\<close> sets; it is never nil.\<close>

record 'g2 DKG =
  dg_Eon :: u64
  dg_StartBatchIndex :: u64
  dg_Keypers :: "address list"
  dg_Pure :: "'g2 PureDKG"
  dg_OutgoingPolyEvalMsgs :: "PolyEvalMsg list"
  dg_PhaseLength :: PhaseLength

record ('g1, 'g2) EKG =
  ek_Eon :: u64
  ek_Keypers :: "address list"
  ek_EpochKG :: "('g1, 'g2) EpochKG"

text \<open>The pending appeals are a set; the batches are ranged over.\<close>

record ('g1, 'g2) State =
  st_CheckInMessageSent :: bool
  st_LastSentBatchConfigIndex :: u64
  st_LastEonStarted :: u64
  st_DKGs :: "'g2 DKG list"
  st_EKGs :: "('g1, 'g2) EKG list"
  st_PendingHalfStep :: "u64 option"
  st_PendingAppeals :: "u64 list"
  st_NextEpochSecretShare :: u64
  st_Batches :: "(u64 \<times> Batch) list"
  st_HalfStepsChecked :: u64
  st_ActionCounter :: u64
  st_Actions :: "'g2 IAction list"
  st_SyncHeight :: i64

definition NewState :: "('g1, 'g2) State" where
  "NewState =
     \<lparr> st_CheckInMessageSent = False, st_LastSentBatchConfigIndex = 0, st_LastEonStarted = 0,
       st_DKGs = [], st_EKGs = [], st_PendingHalfStep = None, st_PendingAppeals = [],
       st_NextEpochSecretShare = 0, st_Batches = [], st_HalfStepsChecked = 0, st_ActionCounter = 0,
       st_Actions = [], st_SyncHeight = 0 \<rparr>"

definition GetShielderFilter :: "MainChain \<Rightarrow> ('g1, 'g2) State \<Rightarrow> ShielderFilter" where
  "GetShielderFilter mc st =
     \<lparr> flt_SyncHeight = st_SyncHeight st, flt_BatchIndex = mc_NumExecutionHalfSteps mc div 2 \<rparr>"

record ('g1, 'g2, 'sk, 'ek, 'dk) Decider =
  dc_Config :: "('sk, 'dk) Config"
  dc_State :: "('g1, 'g2) State"
  dc_Shielder :: "('g1, 'g2, 'ek) Shielder"
  dc_MainChain :: MainChain
  dc_Actions :: "'g2 IAction list"
  dc_PhaseLength :: PhaseLength

record dec_choices =
  dec_orders :: dkg_orders
  dec_Batches :: "(u64 \<times> Batch) list \<Rightarrow> (u64 \<times> Batch) list"
  dec_Accusations :: "(u64 \<times> MAccusation) list \<Rightarrow> (u64 \<times> MAccusation) list"
  dec_Polynomial :: "u64 \<Rightarrow> nat \<Rightarrow> int result"
  dec_Encrypt :: "u64 \<Rightarrow> u64 \<Rightarrow> bytes"
  dec_int31n :: "i64 \<Rightarrow> nat \<Rightarrow> nat \<Rightarrow> nat"

section \<open>Helpers\<close>

text \<open>\<open>xs[i]\<close> for a Go \<open>int\<close> that is not negative.\<close>

definition nth_at :: "'a list \<Rightarrow> nat \<Rightarrow> 'a result" where
  "nth_at xs i = (if i < length xs then Inr (xs ! i) else Inl (Panic ''index out of range''))"

text \<open>\<open>if err != nil { log.Printf(...) }\<close>: go on with the old state.\<close>

definition logged :: "'s result \<Rightarrow> 's \<Rightarrow> 's result" where
  "logged r s = if_err r (\<lambda>_. Inr s) Inr"

definition addAction ::
  "'g2 IAction \<Rightarrow> ('g1, 'g2, 'sk, 'ek, 'dk) Decider \<Rightarrow> ('g1, 'g2, 'sk, 'ek, 'dk) Decider" where
  "addAction a dcdr = dcdr \<lparr> dc_Actions := dc_Actions dcdr @ [a] \<rparr>"

definition sendShielderMessage ::
  "string \<Rightarrow> Message \<Rightarrow> ('g1, 'g2, 'sk, 'ek, 'dk) Decider \<Rightarrow> ('g1, 'g2, 'sk, 'ek, 'dk) Decider" where
  "sendShielderMessage description msg dcdr = addAction (SendShielderMessage description msg) dcdr"

definition set_state ::
  "(('g1, 'g2) State \<Rightarrow> ('g1, 'g2) State) \<Rightarrow> ('g1, 'g2, 'sk, 'ek, 'dk) Decider \<Rightarrow> ('g1, 'g2, 'sk, 'ek, 'dk) Decider" where
  "set_state f dcdr = dcdr \<lparr> dc_State := f (dc_State dcdr) \<rparr>"

section \<open>Check-in and batch configs\<close>

definition shouldSendCheckIn :: "('pk, 'sk, 'ek, 'dk) eth \<Rightarrow> ('g1, 'g2, 'sk, 'ek, 'dk) Decider \<Rightarrow> bool" where
  "shouldSendCheckIn E dcdr =
     (let addr = Config_Address E (dc_Config dcdr)
      in if st_CheckInMessageSent (dc_State dcdr) then False
         else if IsCheckedIn (dc_Shielder dcdr) addr then False
         else sh_IsKeyper (dc_Shielder dcdr) addr)"

text \<open>\<open>ed25519.PrivateKey.Public\<close> copies the last 32 bytes of the key.\<close>

definition ed25519_Public :: "bytes \<Rightarrow> bytes" where
  "ed25519_Public priv = copy_bytes (replicate 32 0) (drop 32 priv)"

definition sendCheckIn ::
  "('pk, 'sk, 'ek, 'dk) eth \<Rightarrow> ('g1, 'g2, 'sk, 'ek, 'dk) Decider \<Rightarrow> ('g1, 'g2, 'sk, 'ek, 'dk) Decider" where
  "sendCheckIn E dcdr =
     (let validatorPublicKey = ed25519_Public (kc_ValidatorKey (dc_Config dcdr));
          msg = NewCheckIn E validatorPublicKey (dk_PublicKey E (kc_EncryptionKey (dc_Config dcdr)))
      in sendShielderMessage ''check-in'' msg dcdr)"

definition maybeSendCheckIn ::
  "('pk, 'sk, 'ek, 'dk) eth \<Rightarrow> ('g1, 'g2, 'sk, 'ek, 'dk) Decider \<Rightarrow> ('g1, 'g2, 'sk, 'ek, 'dk) Decider" where
  "maybeSendCheckIn E dcdr =
     (if shouldSendCheckIn E dcdr
      then set_state (\<lambda>st. st \<lparr> st_CheckInMessageSent := True \<rparr>) (sendCheckIn E dcdr)
      else dcdr)"

definition sendBatchConfig ::
  "('pk, 'sk, 'ek, 'dk) eth \<Rightarrow> u64 \<Rightarrow> ContractConfig \<Rightarrow> ('g1, 'g2, 'sk, 'ek, 'dk) Decider \<Rightarrow>
   ('g1, 'g2, 'sk, 'ek, 'dk) Decider" where
  "sendBatchConfig E configIndex config dcdr =
     (let msg = NewBatchConfig E (cc_StartBatchIndex config) (cc_Keypers config) (cc_Threshold config)
                  (kc_ConfigContractAddress (dc_Config dcdr)) configIndex False False
      in sendShielderMessage (''batch config, index='' @ FormatUint (unat configIndex)) msg dcdr)"

definition maybeSendBatchConfig ::
  "('pk, 'sk, 'ek, 'dk) eth \<Rightarrow> ('g1, 'g2, 'sk, 'ek, 'dk) Decider \<Rightarrow> ('g1, 'g2, 'sk, 'ek, 'dk) Decider" where
  "maybeSendBatchConfig E dcdr =
     (if sh_BatchConfigs (dc_Shielder dcdr) = [] then dcdr
      else let configIndex = 1 + bc_ConfigIndex (last (sh_BatchConfigs (dc_Shielder dcdr)))
           in if configIndex \<le> st_LastSentBatchConfigIndex (dc_State dcdr) then dcdr
              else if configIndex < of_nat (length (mc_BatchConfigs (dc_MainChain dcdr)))
              then set_state (\<lambda>st. st \<lparr> st_LastSentBatchConfigIndex := configIndex \<rparr>)
                     (sendBatchConfig E configIndex (mc_BatchConfigs (dc_MainChain dcdr) ! unat configIndex) dcdr)
              else dcdr)"

section \<open>Starting key generations\<close>

definition startDKG ::
  "('pk, 'sk, 'ek, 'dk) eth \<Rightarrow> ('g1, 'g2) Eon \<Rightarrow> ('g1, 'g2, 'sk, 'ek, 'dk) Decider \<Rightarrow>
   ('g1, 'g2, 'sk, 'ek, 'dk) Decider result" where
  "startDKG E eon dcdr =
     result_bind (FindBatchConfigByBatchIndex (dc_Shielder dcdr) (es_BatchIndex (eo_StartEvent eon))) (\<lambda>batchConfig.
     case FindAddressIndex (bc_Keypers batchConfig) (Config_Address E (dc_Config dcdr)) of
       Inl err \<Rightarrow> Inr dcdr
     | Inr keyperIndex \<Rightarrow>
         (let pure = NewPureDKG (eo_Eon eon) (of_nat (length (bc_Keypers batchConfig))) (bc_Threshold batchConfig)
                       (of_nat keyperIndex);
              dkg = \<lparr> dg_Eon = eo_Eon eon, dg_StartBatchIndex = es_BatchIndex (eo_StartEvent eon),
                      dg_Keypers = bc_Keypers batchConfig, dg_Pure = pure, dg_OutgoingPolyEvalMsgs = [],
                      dg_PhaseLength = dc_PhaseLength dcdr \<rparr>
          in Inr (set_state (\<lambda>st. st \<lparr> st_DKGs := st_DKGs st @ [dkg] \<rparr>) dcdr)))"

definition maybeStartDKG ::
  "('pk, 'sk, 'ek, 'dk) eth \<Rightarrow> ('g1, 'g2, 'sk, 'ek, 'dk) Decider \<Rightarrow> ('g1, 'g2, 'sk, 'ek, 'dk) Decider result" where
  "maybeStartDKG E dcdr =
     loop_result (\<lambda>eon dcdr.
       if eo_Eon eon > st_LastEonStarted (dc_State dcdr)
       then result_bind (startDKG E eon dcdr) (\<lambda>dcdr'.
            Inr (set_state (\<lambda>st. st \<lparr> st_LastEonStarted := eo_Eon eon \<rparr>) dcdr'))
       else Inr dcdr) (sh_Eons (dc_Shielder dcdr)) dcdr"

section \<open>Phases\<close>

definition NewConstantPhaseLength :: "i64 \<Rightarrow> PhaseLength" where
  "NewConstantPhaseLength l =
     \<lparr> pl_Off = 0 * l, pl_Dealing = 1 * l, pl_Accusing = 2 * l, pl_Apologizing = 3 * l \<rparr>"

definition getPhaseAtHeight :: "PhaseLength \<Rightarrow> i64 \<Rightarrow> i64 \<Rightarrow> Phase" where
  "getPhaseAtHeight plen height eonStartHeight =
     (if sint height < sint (eonStartHeight + pl_Off plen) then Off
      else if sint height < sint (eonStartHeight + pl_Dealing plen) then Dealing
      else if sint height < sint (eonStartHeight + pl_Accusing plen) then Accusing
      else if sint height < sint (eonStartHeight + pl_Apologizing plen) then Apologizing
      else Finalized)"

section \<open>Messages of a key generation\<close>

definition DKG_IsFinalized :: "'g2 DKG \<Rightarrow> bool" where
  "DKG_IsFinalized dkg \<longleftrightarrow> pd_Phase (dg_Pure dkg) = Finalized"

definition newApology :: "('pk, 'sk, 'ek, 'dk) eth \<Rightarrow> ApologyMsg list \<Rightarrow> 'g2 DKG \<Rightarrow> Message result" where
  "newApology E apologies dkg =
     result_bind (collect (\<lambda>a. index_at (dg_Keypers dkg) (apm_Accuser a)) apologies) (\<lambda>accusers.
     NewApology E (dg_Eon dkg) accusers (map apm_Eval apologies))"

definition newAccusation :: "('pk, 'sk, 'ek, 'dk) eth \<Rightarrow> AccusationMsg list \<Rightarrow> 'g2 DKG \<Rightarrow> Message result" where
  "newAccusation E accusations dkg =
     result_bind (collect (\<lambda>a. index_at (dg_Keypers dkg) (acm_Accused a)) accusations) (\<lambda>accused.
     Inr (NewAccusation E (dg_Eon dkg) accused))"

text \<open>\<open>err = dkg.Pure.Handle...; if err != nil { log }\<close>\<close>

definition on_pure :: "('g2 PureDKG \<Rightarrow> 'g2 PureDKG result) \<Rightarrow> 'g2 DKG \<Rightarrow> 'g2 DKG result" where
  "on_pure f dkg = logged (result_bind (f (dg_Pure dkg)) (\<lambda>pure. Inr (dkg \<lparr> dg_Pure := pure \<rparr>))) dkg"

definition syncCommitments :: "i64 \<Rightarrow> ('g1, 'g2) Eon \<Rightarrow> 'g2 DKG \<Rightarrow> 'g2 DKG result" where
  "syncCommitments syncHeight eon dkg =
     loop_result (\<lambda>comm dkg.
       if getPhaseAtHeight (dg_PhaseLength dkg) (pc_Height comm) (eo_StartHeight eon) \<noteq> Dealing then Inr dkg
       else case FindAddressIndex (dg_Keypers dkg) (pc_Sender comm) of
         Inl err \<Rightarrow> Inr dkg
       | Inr sender \<Rightarrow> on_pure (HandlePolyCommitmentMsg
           \<lparr> pcm_Eon = pc_Eon comm, pcm_Sender = of_nat sender, pcm_Gammas = pc_Gammas comm \<rparr>) dkg)
       (GetPolyCommitments eon syncHeight) dkg"

text \<open>The body of the loop over the receivers of one event.\<close>

definition syncPolyEval ::
  "('g1, 'g2, 'gt) bn256 \<Rightarrow> (bytes \<Rightarrow> bytes result) \<Rightarrow> PolyEval \<Rightarrow> nat \<Rightarrow> nat \<times> address \<Rightarrow> 'g2 DKG \<Rightarrow> 'g2 DKG result" where
  "syncPolyEval B decrypt eval sender = (\<lambda>(j, receiver) dkg.
     case FindAddressIndex (dg_Keypers dkg) receiver of
       Inl err \<Rightarrow> Inr dkg
     | Inr receiverIndex \<Rightarrow>
         if of_nat receiverIndex \<noteq> pd_Keyper (dg_Pure dkg) then Inr dkg
         else result_bind (nth_at (pe_EncryptedEvals eval) j) (\<lambda>encrypted.
              if_err (decrypt encrypted) (\<lambda>_. Inr dkg) (\<lambda>evalBytes.
              on_pure (HandlePolyEvalMsg B
                \<lparr> pem_Eon = pe_Eon eval, pem_Sender = of_nat sender, pem_Receiver = pd_Keyper (dg_Pure dkg),
                  pem_Eval = big_SetBytes evalBytes \<rparr>) dkg)))"

definition syncPolyEvals ::
  "('g1, 'g2, 'gt) bn256 \<Rightarrow> i64 \<Rightarrow> ('g1, 'g2) Eon \<Rightarrow> (bytes \<Rightarrow> bytes result) \<Rightarrow> 'g2 DKG \<Rightarrow> 'g2 DKG result" where
  "syncPolyEvals B syncHeight eon decrypt dkg =
     loop_result (\<lambda>eval dkg.
       if getPhaseAtHeight (dg_PhaseLength dkg) (pe_Height eval) (eo_StartHeight eon) \<noteq> Dealing then Inr dkg
       else case FindAddressIndex (dg_Keypers dkg) (pe_Sender eval) of
         Inl err \<Rightarrow> Inr dkg
       | Inr sender \<Rightarrow>
           if of_nat sender = pd_Keyper (dg_Pure dkg) then Inr dkg
           else loop_result (syncPolyEval B decrypt eval sender) (List.enumerate 0 (pe_Receivers eval)) dkg)
       (GetPolyEvals eon syncHeight) dkg"

definition syncAccusations :: "i64 \<Rightarrow> ('g1, 'g2) Eon \<Rightarrow> 'g2 DKG \<Rightarrow> 'g2 DKG result" where
  "syncAccusations syncHeight eon dkg =
     loop_result (\<lambda>accusation dkg.
       if getPhaseAtHeight (dg_PhaseLength dkg) (acc_Height accusation) (eo_StartHeight eon) \<noteq> Accusing then Inr dkg
       else case FindAddressIndex (dg_Keypers dkg) (acc_Sender accusation) of
         Inl err \<Rightarrow> Inr dkg
       | Inr sender \<Rightarrow>
           loop_result (\<lambda>accused dkg.
             case FindAddressIndex (dg_Keypers dkg) accused of
               Inl err \<Rightarrow> Inr dkg
             | Inr accusedIndex \<Rightarrow> on_pure (HandleAccusationMsg
                 \<lparr> acm_Eon = dg_Eon dkg, acm_Accuser = of_nat sender, acm_Accused = of_nat accusedIndex \<rparr>) dkg)
             (acc_Accused accusation) dkg)
       (GetAccusations eon syncHeight) dkg"

definition syncApologies ::
  "('g1, 'g2, 'gt) bn256 \<Rightarrow> i64 \<Rightarrow> ('g1, 'g2) Eon \<Rightarrow> 'g2 DKG \<Rightarrow> 'g2 DKG result" where
  "syncApologies B syncHeight eon dkg =
     loop_result (\<lambda>apology dkg.
       if getPhaseAtHeight (dg_PhaseLength dkg) (apo_Height apology) (eo_StartHeight eon) \<noteq> Apologizing then Inr dkg
       else case FindAddressIndex (dg_Keypers dkg) (apo_Sender apology) of
         Inl err \<Rightarrow> Inr dkg
       | Inr sender \<Rightarrow>
           loop_result (\<lambda>(j, accuser) dkg.
             case FindAddressIndex (dg_Keypers dkg) accuser of
               Inl err \<Rightarrow> Inr dkg
             | Inr accuserIndex \<Rightarrow> result_bind (nth_at (apo_PolyEval apology) j) (\<lambda>eval.
                 on_pure (HandleApologyMsg B
                 \<lparr> apm_Eon = dg_Eon dkg, apm_Accuser = of_nat accuserIndex, apm_Accused = of_nat sender,
                   apm_Eval = eval \<rparr>) dkg))
             (List.enumerate 0 (apo_Accusers apology)) dkg)
       (GetApologies eon syncHeight) dkg"

section \<open>Running a key generation\<close>

text \<open>
  \<open>sendPolyEvals\<close>: each outgoing message is paired with the receiver and the encrypted evaluation when the
  receiver's encryption key is known.
\<close>

definition sendPolyEvals ::
  "dec_choices \<Rightarrow> ('pk, 'sk, 'ek, 'dk) eth \<Rightarrow> 'g2 DKG \<Rightarrow> ('g1, 'g2, 'sk, 'ek, 'dk) Decider \<Rightarrow>
   ('g2 DKG \<times> ('g1, 'g2, 'sk, 'ek, 'dk) Decider) result" where
  "sendPolyEvals R E dkg dcdr =
     (if dg_OutgoingPolyEvalMsgs dkg = [] then Inr (dkg, dcdr)
      else if pd_Phase (dg_Pure dkg) > Dealing then Inr (dkg \<lparr> dg_OutgoingPolyEvalMsgs := [] \<rparr>, dcdr)
      else result_bind (collect (\<lambda>p.
             result_bind (index_at (dg_Keypers dkg) (pem_Receiver p)) (\<lambda>receiver.
             case sh_KeyperEncryptionKeys (dc_Shielder dcdr) receiver of
               None \<Rightarrow> Inr (p, None)
             | Some encryptionKey \<Rightarrow>
                 (case ecies_Encrypt E (dec_Encrypt R (dg_Eon dkg) (pem_Receiver p)) encryptionKey (big_Bytes (pem_Eval p)) of
                    Inl err \<Rightarrow> Inl (Panic ''cannot encrypt'')
                  | Inr encrypted \<Rightarrow> Inr (p, Some (receiver, encrypted))))) (dg_OutgoingPolyEvalMsgs dkg))
        (\<lambda>ps. let sent = List.map_filter snd ps;
                  newOutgoing = map fst (filter (\<lambda>p. snd p = None) ps)
              in if length sent > 0
                 then Inr (dkg \<lparr> dg_OutgoingPolyEvalMsgs := newOutgoing \<rparr>,
                   sendShielderMessage (''poly eval, eon='' @ FormatUint (unat (dg_Eon dkg)) @ '', '' @
                       FormatUint (length sent) @ '' receivers, '' @ FormatUint (length newOutgoing) @ '' still outgoing'')
                     (NewPolyEval E (dg_Eon dkg) (map fst sent) (map snd sent)) dcdr)
                 else Inr (dkg, dcdr)))"

definition startPhase1Dealing ::
  "dec_choices \<Rightarrow> ('g1, 'g2, 'gt) bn256 \<Rightarrow> Phase \<Rightarrow> 'g2 DKG \<Rightarrow> ('g1, 'g2, 'sk, 'ek, 'dk) Decider \<Rightarrow>
   ('g2 DKG \<times> ('g1, 'g2, 'sk, 'ek, 'dk) Decider) result" where
  "startPhase1Dealing R B phaseAtNextBlockHeight dkg dcdr =
     (case StartPhase1Dealing B (dec_Polynomial R (dg_Eon dkg)) (dg_Pure dkg) of
        (Inl err, pure) \<Rightarrow> Inl (Panic ''Aborting due to unexpected error'')
      | (Inr (commitment, polyEvals), pure) \<Rightarrow>
          (let dkg' = dkg \<lparr> dg_Pure := pure \<rparr>
           in if phaseAtNextBlockHeight \<noteq> Dealing then Inr (dkg', dcdr)
              else case pcm_Gammas commitment of
                None \<Rightarrow> Inl (Panic ''nil pointer'')
              | Some gammas \<Rightarrow> Inr (dkg' \<lparr> dg_OutgoingPolyEvalMsgs := polyEvals \<rparr>,
                  sendShielderMessage (''poly commitment, eon='' @ FormatUint (unat (dg_Eon dkg)))
                    (NewPolyCommitment B (dg_Eon dkg) gammas) dcdr)))"

definition startPhase2Accusing ::
  "('g1, 'g2, 'gt) bn256 \<Rightarrow> ('pk, 'sk, 'ek, 'dk) eth \<Rightarrow> Phase \<Rightarrow> 'g2 DKG \<Rightarrow> ('g1, 'g2, 'sk, 'ek, 'dk) Decider \<Rightarrow>
   ('g2 DKG \<times> ('g1, 'g2, 'sk, 'ek, 'dk) Decider) result" where
  "startPhase2Accusing B E phaseAtNextBlockHeight dkg dcdr =
     result_bind (StartPhase2Accusing B (dg_Pure dkg)) (\<lambda>(accusations, pure).
     let dkg' = dkg \<lparr> dg_Pure := pure \<rparr>
     in if phaseAtNextBlockHeight \<noteq> Accusing then Inr (dkg', dcdr)
        else result_bind (newAccusation E accusations dkg') (\<lambda>msg.
             Inr (dkg', sendShielderMessage (''accusations, eon='' @ FormatUint (unat (dg_Eon dkg)) @ '', count='' @
               FormatUint (length accusations)) msg dcdr)))"

definition startPhase3Apologizing ::
  "dec_choices \<Rightarrow> ('g1, 'g2, 'gt) bn256 \<Rightarrow> ('pk, 'sk, 'ek, 'dk) eth \<Rightarrow> Phase \<Rightarrow> 'g2 DKG \<Rightarrow>
   ('g1, 'g2, 'sk, 'ek, 'dk) Decider \<Rightarrow> ('g2 DKG \<times> ('g1, 'g2, 'sk, 'ek, 'dk) Decider) result" where
  "startPhase3Apologizing R B E phaseAtNextBlockHeight dkg dcdr =
     result_bind (StartPhase3Apologizing (dec_orders R) B (dg_Pure dkg)) (\<lambda>(apologies, pure).
     let dkg' = dkg \<lparr> dg_Pure := pure \<rparr>
     in if phaseAtNextBlockHeight \<noteq> Apologizing then Inr (dkg', dcdr)
        else result_bind (newApology E apologies dkg') (\<lambda>msg.
             Inr (dkg', sendShielderMessage (''apologies, eon='' @ FormatUint (unat (dg_Eon dkg)) @ '', count='' @
               FormatUint (length apologies)) msg dcdr)))"

definition broadcastEonPublicKey ::
  "'g2 Result \<Rightarrow> u64 \<Rightarrow> ('g1, 'g2, 'sk, 'ek, 'dk) Decider \<Rightarrow> ('g1, 'g2, 'sk, 'ek, 'dk) Decider" where
  "broadcastEonPublicKey dkgResult startBatchIndex dcdr =
     addAction (EonKeyBroadcast (res_Keyper dkgResult) startBatchIndex (res_PublicKey dkgResult)) dcdr"

text \<open>Both branches log \<open>ShortInfo\<close>, whose computation can panic.\<close>

definition dkgFinalize ::
  "dec_choices \<Rightarrow> ('g1, 'g2, 'gt) bn256 \<Rightarrow> 'g2 DKG \<Rightarrow> ('g1, 'g2, 'sk, 'ek, 'dk) Decider \<Rightarrow>
   ('g2 DKG \<times> ('g1, 'g2, 'sk, 'ek, 'dk) Decider) result" where
  "dkgFinalize R B dkg dcdr =
     result_bind (Finalize (dg_Pure dkg)) (\<lambda>pure.
     let dkg' = dkg \<lparr> dg_Pure := pure \<rparr>
     in if_err (ComputeResult (dec_orders R) B pure)
          (\<lambda>err. result_bind (ShortInfo (dec_orders R) B pure) (\<lambda>_.
             Inr (dkg', sendShielderMessage ''requesting DKG restart'' (NewEonStartVote (dg_StartBatchIndex dkg)) dcdr)))
          (\<lambda>dkgresult. result_bind (ShortInfo (dec_orders R) B pure) (\<lambda>_.
             let ekg = \<lparr> ek_Eon = dg_Eon dkg, ek_Keypers = dg_Keypers dkg, ek_EpochKG = NewEpochKG dkgresult \<rparr>
             in Inr (dkg', broadcastEonPublicKey dkgresult (dg_StartBatchIndex dkg)
                  (set_state (\<lambda>st. st \<lparr> st_EKGs := st_EKGs st @ [ekg] \<rparr>) dcdr)))))"

text \<open>The three guards \<open>dkg.Pure.Phase == p && phaseAtNextBlockHeight >= q\<close>.\<close>

definition phase_turn ::
  "Phase \<Rightarrow> Phase \<Rightarrow> Phase \<Rightarrow> ('g2 DKG \<Rightarrow> 'd \<Rightarrow> ('g2 DKG \<times> 'd) result) \<Rightarrow> 'g2 DKG \<Rightarrow> 'd \<Rightarrow> ('g2 DKG \<times> 'd) result" where
  "phase_turn p q phaseAtNextBlockHeight start dkg dcdr =
     (if pd_Phase (dg_Pure dkg) = p \<and> phaseAtNextBlockHeight \<ge> q then start dkg dcdr else Inr (dkg, dcdr))"

definition syncDKGWithEon ::
  "dec_choices \<Rightarrow> ('g1, 'g2, 'gt) bn256 \<Rightarrow> ('pk, 'sk, 'ek, 'dk) eth \<Rightarrow> ('g1, 'g2) Eon \<Rightarrow> 'g2 DKG \<Rightarrow>
   ('g1, 'g2, 'sk, 'ek, 'dk) Decider \<Rightarrow> ('g2 DKG \<times> ('g1, 'g2, 'sk, 'ek, 'dk) Decider) result" where
  "syncDKGWithEon R B E eon dkg dcdr =
     (let decrypt = (\<lambda>encrypted. ecies_Decrypt E (kc_EncryptionKey (dc_Config dcdr)) encrypted);
          syncHeight = st_SyncHeight (dc_State dcdr);
          next = getPhaseAtHeight (dc_PhaseLength dcdr) (sh_CurrentBlock (dc_Shielder dcdr) + 1) (eo_StartHeight eon)
      in result_bind (phase_turn Off Dealing next (startPhase1Dealing R B next) dkg dcdr) (\<lambda>(dkg, dcdr).
         result_bind (syncCommitments syncHeight eon dkg) (\<lambda>dkg.
         result_bind (syncPolyEvals B syncHeight eon decrypt dkg) (\<lambda>dkg.
         result_bind (phase_turn Dealing Accusing next (startPhase2Accusing B E next) dkg dcdr) (\<lambda>(dkg, dcdr).
         result_bind (syncAccusations syncHeight eon dkg) (\<lambda>dkg.
         result_bind (phase_turn Accusing Apologizing next (startPhase3Apologizing R B E next) dkg dcdr) (\<lambda>(dkg, dcdr).
         result_bind (syncApologies B syncHeight eon dkg) (\<lambda>dkg.
         phase_turn Apologizing Finalized next (dkgFinalize R B) dkg dcdr))))))))"

text \<open>A Go panic with the error: the result has one panic for it.\<close>

definition must :: "'a result \<Rightarrow> 'a result" where
  "must r = (case r of Inl err \<Rightarrow> Inl (Panic ''error'') | Inr v \<Rightarrow> Inr v)"

definition handleDKG ::
  "dec_choices \<Rightarrow> ('g1, 'g2, 'gt) bn256 \<Rightarrow> ('pk, 'sk, 'ek, 'dk) eth \<Rightarrow> nat \<Rightarrow>
   ('g1, 'g2, 'sk, 'ek, 'dk) Decider \<Rightarrow> ('g1, 'g2, 'sk, 'ek, 'dk) Decider result" where
  "handleDKG R B E i dcdr =
     (let dkg = st_DKGs (dc_State dcdr) ! i
      in if DKG_IsFinalized dkg then Inr dcdr
         else result_bind (must (FindEon (dc_Shielder dcdr) (dg_Eon dkg))) (\<lambda>idx.
              result_bind (syncDKGWithEon R B E (sh_Eons (dc_Shielder dcdr) ! idx) dkg dcdr) (\<lambda>(dkg, dcdr).
              result_bind (sendPolyEvals R E dkg dcdr) (\<lambda>(dkg, dcdr).
              Inr (set_state (\<lambda>st. st \<lparr> st_DKGs := (st_DKGs st)[i := dkg] \<rparr>) dcdr)))))"

definition handleDKGs ::
  "dec_choices \<Rightarrow> ('g1, 'g2, 'gt) bn256 \<Rightarrow> ('pk, 'sk, 'ek, 'dk) eth \<Rightarrow>
   ('g1, 'g2, 'sk, 'ek, 'dk) Decider \<Rightarrow> ('g1, 'g2, 'sk, 'ek, 'dk) Decider result" where
  "handleDKGs R B E dcdr = loop_result (handleDKG R B E) [0..<length (st_DKGs (dc_State dcdr))] dcdr"

end
