(* ===== verification/Decide.thy ===== *)
theory Decide
  imports DecideDKG
begin

text \<open>
  \<open>keyper/decide.go\<close>, second part: epoch secret keys, decryption signatures, the execution of batches,
  accusations and appeals, and \<open>Decide\<close> itself.
\<close>

section \<open>Batches and signatures\<close>

definition VerifySignature :: "('pk, 'sk, 'ek, 'dk) eth \<Rightarrow> Batch \<Rightarrow> address \<Rightarrow> bytes \<Rightarrow> bool" where
  "VerifySignature E batch sender signature =
     (case SigToPub E (ba_DecryptionSignatureHash batch) signature of
        Inl err \<Rightarrow> False
      | Inr pubkey \<Rightarrow> (let signer = PubkeyToAddress E pubkey in signer = sender))"

definition decrypt_hashPrefix :: bytes where
  "decrypt_hashPrefix = [0x19, 0x64, 0x65, 0x63, 0x74, 0x78]"

definition transactionsHash :: "('g1, 'g2, 'gt) bn256 \<Rightarrow> bytes list \<Rightarrow> bytes" where
  "transactionsHash B txs = foldl (\<lambda>hash tx. Keccak256 B (tx @ hash)) (replicate 32 0) txs"

text \<open>\<open>binary.Write(..., binary.BigEndian, batchIndex)\<close>\<close>

definition big_endian :: "u64 \<Rightarrow> bytes" where
  "big_endian w = map (\<lambda>i. ucast (drop_bit (8 * i) w)) [7, 6, 5, 4, 3, 2, 1, 0]"

definition computeDecryptionSignatureHash ::
  "('g1, 'g2, 'gt) bn256 \<Rightarrow> ('pk, 'sk, 'ek, 'dk) eth \<Rightarrow> ('sk, 'dk) Config \<Rightarrow> u64 \<Rightarrow> bytes \<Rightarrow> bytes \<Rightarrow> bytes" where
  "computeDecryptionSignatureHash B E config batchIndex cipherBatchHash batchHash =
     Keccak256 B (decrypt_hashPrefix @ Address_Bytes E (kc_BatcherContractAddress config) @ big_endian batchIndex @
       cipherBatchHash @ batchHash)"

text \<open>\<open>dcdr.State.Batches[i] = b\<close>\<close>

definition put_Batch :: "u64 \<Rightarrow> Batch \<Rightarrow> ('g1, 'g2, 'sk, 'ek, 'dk) Decider \<Rightarrow> ('g1, 'g2, 'sk, 'ek, 'dk) Decider" where
  "put_Batch i b = set_state (\<lambda>st. st \<lparr> st_Batches := AList.update i b (st_Batches st) \<rparr>)"

text \<open>\<open>dcdr.MainChain.Batches[i]\<close>, or \<open>&observe.Batch{BatchIndex: i}\<close>\<close>

definition main_Batch :: "u64 \<Rightarrow> ('g1, 'g2, 'sk, 'ek, 'dk) Decider \<Rightarrow> MBatch" where
  "main_Batch i dcdr = (case mc_Batches (dc_MainChain dcdr) i of Some b \<Rightarrow> b | None \<Rightarrow> emptyBatch i)"

text \<open>A nil key cannot be used.\<close>

definition decryptTransactions ::
  "dec_choices \<Rightarrow> ('g1, 'g2, 'gt) bn256 \<Rightarrow> ('pk, 'sk, 'ek, 'dk) eth \<Rightarrow> 'g1 option \<Rightarrow> u64 \<Rightarrow>
   ('g1, 'g2, 'sk, 'ek, 'dk) Decider \<Rightarrow> ('g1, 'g2, 'sk, 'ek, 'dk) Decider result" where
  "decryptTransactions R B E key epoch dcdr =
     (case key of
        None \<Rightarrow> Inl (Panic ''nil pointer'')
      | Some k \<Rightarrow>
          (let batch = main_Batch epoch dcdr;
               txs = DecryptTransactions B (dec_int31n R) batch k;
               decryptedBatchHash = transactionsHash B txs;
               hash = computeDecryptionSignatureHash B E (dc_Config dcdr) epoch (mb_EncryptedBatchHash batch) decryptedBatchHash
           in Inr (put_Batch epoch
                \<lparr> ba_BatchIndex = epoch, ba_DecryptionSignatureHash = hash, ba_DecryptedTransactions = txs,
                  ba_DecryptedBatchHash = decryptedBatchHash, ba_DecryptionSignatureIndex = 0,
                  ba_SignatureCount = 0 \<rparr> dcdr)))"

text \<open>The signatures of a batch that \<open>syncBatch\<close> counts.\<close>

definition counts :: "('pk, 'sk, 'ek, 'dk) eth \<Rightarrow> ContractConfig \<Rightarrow> Batch \<Rightarrow> DecryptionSignature \<Rightarrow> bool" where
  "counts E config batch ev \<longleftrightarrow>
     cc_IsKeyper config (ds_Sender ev) \<and> VerifySignature E batch (ds_Sender ev) (ds_Signature ev)"

definition syncBatch ::
  "('pk, 'sk, 'ek, 'dk) eth \<Rightarrow> Batch \<Rightarrow> ('g1, 'g2, 'sk, 'ek, 'dk) Decider \<Rightarrow> Batch result" where
  "syncBatch E batch dcdr =
     (case sh_Batches (dc_Shielder dcdr) (ba_BatchIndex batch) of
        None \<Rightarrow> Inr batch
      | Some shBatch \<Rightarrow>
          result_bind (ConfigForBatchIndex (dc_MainChain dcdr) (ba_BatchIndex batch)) (\<lambda>cfg.
          case cfg of
            None \<Rightarrow> Inl (Panic ''Error in syncBatch: config is not active'')
          | Some config \<Rightarrow>
              if ba_DecryptedTransactions batch = [] then Inr batch
              else let new = drop (ba_DecryptionSignatureIndex batch) (bd_DecryptionSignatures shBatch);
                       signatureCount = length (filter (counts E config batch) new)
                   in Inr (batch \<lparr> ba_SignatureCount := ba_SignatureCount batch + signatureCount,
                        ba_DecryptionSignatureIndex := length (bd_DecryptionSignatures shBatch) \<rparr>)))"

definition sendDecryptionSignature ::
  "('pk, 'sk, 'ek, 'dk) eth \<Rightarrow> u64 \<Rightarrow> ('g1, 'g2, 'sk, 'ek, 'dk) Decider \<Rightarrow>
   ('g1, 'g2, 'sk, 'ek, 'dk) Decider result" where
  "sendDecryptionSignature E epoch dcdr =
     (case map_of (st_Batches (dc_State dcdr)) epoch of
        None \<Rightarrow> Inr dcdr
      | Some stBatch0 \<Rightarrow>
          result_bind (syncBatch E stBatch0 dcdr) (\<lambda>stBatch.
          result_bind (ConfigForBatchIndex (dc_MainChain dcdr) epoch) (\<lambda>cfg.
          let dcdr' = put_Batch epoch stBatch dcdr
          in case cfg of
               None \<Rightarrow> Inl (Panic ''no main chain config for batch'')
             | Some config \<Rightarrow>
                 if of_nat (ba_SignatureCount stBatch) < cc_Threshold config \<and> ba_DecryptedTransactions stBatch \<noteq> []
                 then (case crypto_Sign E (ba_DecryptionSignatureHash stBatch) (kc_SigningKey (dc_Config dcdr)) of
                         Inl err \<Rightarrow> Inl (Panic ''Cannot sign the decryption signature'')
                       | Inr signature \<Rightarrow> Inr (sendShielderMessage
                           (''decryption signature, batch index='' @ FormatUint (unat epoch))
                           (NewDecryptionSignature epoch signature) dcdr'))
                 else Inr dcdr')))"

definition handleDecryptionSignatures ::
  "dec_choices \<Rightarrow> ('pk, 'sk, 'ek, 'dk) eth \<Rightarrow> ('g1, 'g2, 'sk, 'ek, 'dk) Decider \<Rightarrow>
   ('g1, 'g2, 'sk, 'ek, 'dk) Decider result" where
  "handleDecryptionSignatures R E dcdr =
     loop_result (\<lambda>(i, batch) dcdr.
       result_bind (syncBatch E batch dcdr) (\<lambda>batch'. Inr (put_Batch i batch' dcdr)))
       (dec_Batches R (st_Batches (dc_State dcdr))) dcdr"

section \<open>Epoch secret keys\<close>

definition FindEKGByEon :: "('g1, 'g2) State \<Rightarrow> u64 \<Rightarrow> nat result" where
  "FindEKGByEon st eon =
     (case find_index (\<lambda>ekg. ek_Eon ekg = eon) (st_EKGs st) of
        Some i \<Rightarrow> Inr i
      | None \<Rightarrow> Inl (Errorf ''EKG not found''))"

definition executionTimeoutReachedOrInactive :: "u64 \<Rightarrow> ('g1, 'g2, 'sk, 'ek, 'dk) Decider \<Rightarrow> bool result" where
  "executionTimeoutReachedOrInactive batchIndex dcdr =
     result_bind (ConfigForBatchIndex (dc_MainChain dcdr) batchIndex) (\<lambda>cfg.
     case cfg of
       None \<Rightarrow> Inr True
     | Some config \<Rightarrow>
         result_bind (BatchEndBlock config batchIndex) (\<lambda>endBlock.
         let executionTimeoutBlock = endBlock + cc_ExecutionTimeout config
         in Inr (mc_CurrentBlock (dc_MainChain dcdr) \<ge> executionTimeoutBlock - 1)))"

definition sendEpochSecretKeyShare ::
  "('g1, 'g2, 'gt) bn256 \<Rightarrow> ('g1, 'g2) EpochKG \<Rightarrow> u64 \<Rightarrow> ('g1, 'g2, 'sk, 'ek, 'dk) Decider \<Rightarrow>
   ('g1, 'g2, 'sk, 'ek, 'dk) Decider" where
  "sendEpochSecretKeyShare B epochKG epoch dcdr =
     (if kg_SecretKeys epochKG epoch = None
      then let epochSecretKeyShare = kg_ComputeEpochSecretKeyShare B epochKG epoch
           in sendShielderMessage (''epoch secret key share, epoch='' @ FormatUint (unat epoch) @ '' in eon='' @
                FormatUint (unat (kg_Eon epochKG))) (NewEpochSecretKeyShare B (kg_Eon epochKG) epoch epochSecretKeyShare) dcdr
      else dcdr)"

definition publishEpochSecretKeyShare ::
  "('g1, 'g2, 'gt) bn256 \<Rightarrow> u64 \<Rightarrow> ('g1, 'g2, 'sk, 'ek, 'dk) Decider \<Rightarrow> ('g1, 'g2, 'sk, 'ek, 'dk) Decider" where
  "publishEpochSecretKeyShare B batchIndex dcdr =
     (case FindEonByBatchIndex (dc_Shielder dcdr) batchIndex of
        Inl err \<Rightarrow> dcdr
      | Inr idx \<Rightarrow>
          (case FindEKGByEon (dc_State dcdr) (eo_Eon (sh_Eons (dc_Shielder dcdr) ! idx)) of
             Inl err \<Rightarrow> dcdr
           | Inr i \<Rightarrow> sendEpochSecretKeyShare B (ek_EpochKG (st_EKGs (dc_State dcdr) ! i)) batchIndex dcdr))"

text \<open>The body of the loop over the shares of \<open>syncEKGWithEon\<close>.\<close>

definition syncShare ::
  "dec_choices \<Rightarrow> ('g1, 'g2, 'gt) bn256 \<Rightarrow> ('pk, 'sk, 'ek, 'dk) eth \<Rightarrow> 'g1 EpochSecretKeyShare \<Rightarrow>
   ('g1, 'g2) EKG \<times> ('g1, 'g2, 'sk, 'ek, 'dk) Decider \<Rightarrow>
   (('g1, 'g2) EKG \<times> ('g1, 'g2, 'sk, 'ek, 'dk) Decider) result" where
  "syncShare R B E share = (\<lambda>(ekg, dcdr).
     case FindAddressIndex (ek_Keypers ekg) (sks_Sender share) of
       Inl err \<Rightarrow> Inr (ekg, dcdr)
     | Inr sender \<Rightarrow>
         if kg_SecretKeys (ek_EpochKG ekg) (sks_Epoch share) \<noteq> None then Inr (ekg, dcdr)
         else case HandleEpochSecretKeyShare B
             \<lparr> kgs_Eon = sks_Eon share, kgs_Epoch = sks_Epoch share, kgs_Sender = of_nat sender,
               kgs_Share = sks_Share share \<rparr> (ek_EpochKG ekg) of
           (Some (Panic p), kg) \<Rightarrow> Inl (Panic p)
         | (Some (Errorf e), kg) \<Rightarrow> Inr (ekg \<lparr> ek_EpochKG := kg \<rparr>, dcdr)
         | (None, kg) \<Rightarrow>
             (let ekg' = ekg \<lparr> ek_EpochKG := kg \<rparr>
              in case kg_SecretKeys kg (sks_Epoch share) of
                   None \<Rightarrow> Inr (ekg', dcdr)
                 | Some key \<Rightarrow>
                     result_bind (decryptTransactions R B E key (sks_Epoch share) dcdr) (\<lambda>dcdr1.
                     result_bind (executionTimeoutReachedOrInactive (sks_Epoch share) dcdr1) (\<lambda>reached.
                     result_bind (if \<not> reached then sendDecryptionSignature E (sks_Epoch share) dcdr1 else Inr dcdr1) (\<lambda>dcdr2.
                     Inr (ekg', dcdr2))))))"

definition syncEKGWithEon ::
  "dec_choices \<Rightarrow> ('g1, 'g2, 'gt) bn256 \<Rightarrow> ('pk, 'sk, 'ek, 'dk) eth \<Rightarrow> i64 \<Rightarrow> ('g1, 'g2) EKG \<Rightarrow> ('g1, 'g2) Eon \<Rightarrow>
   ('g1, 'g2, 'sk, 'ek, 'dk) Decider \<Rightarrow> (('g1, 'g2) EKG \<times> ('g1, 'g2, 'sk, 'ek, 'dk) Decider) result" where
  "syncEKGWithEon R B E syncHeight ekg eon dcdr =
     loop_result (syncShare R B E) (GetEpochSecretKeyShares eon syncHeight) (ekg, dcdr)"

definition syncEKG ::
  "dec_choices \<Rightarrow> ('g1, 'g2, 'gt) bn256 \<Rightarrow> ('pk, 'sk, 'ek, 'dk) eth \<Rightarrow> nat \<Rightarrow>
   ('g1, 'g2, 'sk, 'ek, 'dk) Decider \<Rightarrow> ('g1, 'g2, 'sk, 'ek, 'dk) Decider result" where
  "syncEKG R B E i dcdr =
     (let ekg = st_EKGs (dc_State dcdr) ! i
      in result_bind (must (FindEon (dc_Shielder dcdr) (ek_Eon ekg))) (\<lambda>idx.
         result_bind (syncEKGWithEon R B E (st_SyncHeight (dc_State dcdr)) ekg (sh_Eons (dc_Shielder dcdr) ! idx) dcdr)
           (\<lambda>(ekg, dcdr). Inr (set_state (\<lambda>st. st \<lparr> st_EKGs := (st_EKGs st)[i := ekg] \<rparr>) dcdr))))"

definition syncEKGs ::
  "dec_choices \<Rightarrow> ('g1, 'g2, 'gt) bn256 \<Rightarrow> ('pk, 'sk, 'ek, 'dk) eth \<Rightarrow>
   ('g1, 'g2, 'sk, 'ek, 'dk) Decider \<Rightarrow> ('g1, 'g2, 'sk, 'ek, 'dk) Decider result" where
  "syncEKGs R B E dcdr = loop_result (syncEKG R B E) [0..<length (st_EKGs (dc_State dcdr))] dcdr"

definition publishEpochSecretKeyShares ::
  "('g1, 'g2, 'gt) bn256 \<Rightarrow> ('g1, 'g2, 'sk, 'ek, 'dk) Decider \<Rightarrow> ('g1, 'g2, 'sk, 'ek, 'dk) Decider result" where
  "publishEpochSecretKeyShares B dcdr =
     (let blockNum = mc_CurrentBlock (dc_MainChain dcdr)
      in result_bind (ActiveConfigIndex (dc_MainChain dcdr) blockNum) (\<lambda>activeCFGIdx.
         let bc = mc_BatchConfigs (dc_MainChain dcdr) ! activeCFGIdx
         in case FindBatchConfigByConfigIndex (dc_Shielder dcdr) (of_nat activeCFGIdx) of
              Inl err \<Rightarrow> Inr dcdr
            | Inr _ \<Rightarrow>
                result_bind (BatchIndex bc blockNum) (\<lambda>currentBatchIndex.
                result_bind (loop_result (\<lambda>batchIndex dcdr.
                    result_bind (executionTimeoutReachedOrInactive batchIndex dcdr) (\<lambda>reached.
                    Inr (if \<not> reached then publishEpochSecretKeyShare B batchIndex dcdr else dcdr)))
                  (range64 (st_NextEpochSecretShare (dc_State dcdr)) currentBatchIndex) dcdr) (\<lambda>dcdr'.
                Inr (set_state (\<lambda>st. st \<lparr> st_NextEpochSecretShare := currentBatchIndex \<rparr>) dcdr')))))"

definition handleEpochKG ::
  "dec_choices \<Rightarrow> ('g1, 'g2, 'gt) bn256 \<Rightarrow> ('pk, 'sk, 'ek, 'dk) eth \<Rightarrow>
   ('g1, 'g2, 'sk, 'ek, 'dk) Decider \<Rightarrow> ('g1, 'g2, 'sk, 'ek, 'dk) Decider result" where
  "handleEpochKG R B E dcdr = result_bind (syncEKGs R B E dcdr) (publishEpochSecretKeyShares B)"

section \<open>Execution\<close>

definition maxParallelHalfSteps :: u64 where
  "maxParallelHalfSteps = 10"

definition getNumHalfStepsToExecute :: "u64 \<Rightarrow> u64 \<Rightarrow> u64" where
  "getNumHalfStepsToExecute nextHalfStep batchIndex =
     (if nextHalfStep \<ge> batchIndex * 2 then 0
      else let numMissingHalfSteps = batchIndex * 2 - nextHalfStep
           in if numMissingHalfSteps \<le> maxParallelHalfSteps then numMissingHalfSteps else maxParallelHalfSteps)"

text \<open>A keyper that is not in the list has index 0 here; an empty list is a division by zero.\<close>

definition executionDelay ::
  "('pk, 'sk, 'ek, 'dk) eth \<Rightarrow> ContractConfig \<Rightarrow> u64 \<Rightarrow> ('g1, 'g2, 'sk, 'ek, 'dk) Decider \<Rightarrow> u64 result" where
  "executionDelay E config halfStep dcdr =
     (let divisor = of_nat (length (cc_Keypers config)) - 1 :: u64;
          maxStaggering = (if divisor = 0 then 0 else cc_ExecutionTimeout config div (2 * divisor));
          staggering = (if kc_ExecutionStaggering (dc_Config dcdr) \<ge> maxStaggering then maxStaggering
                        else kc_ExecutionStaggering (dc_Config dcdr));
          keyperIndex = (case cc_KeyperIndex config (Config_Address E (dc_Config dcdr)) of None \<Rightarrow> 0 | Some i \<Rightarrow> i)
      in if of_nat (length (cc_Keypers config)) = (0 :: u64) then Inl (Panic ''integer divide by zero'')
         else let place = (halfStep + keyperIndex) mod of_nat (length (cc_Keypers config))
              in Inr (place * staggering))"

definition executeCipherBatch ::
  "('pk, 'sk, 'ek, 'dk) eth \<Rightarrow> u64 \<Rightarrow> ContractConfig \<Rightarrow> ('g1, 'g2, 'sk, 'ek, 'dk) Decider \<Rightarrow> 'g2 IAction option result" where
  "executeCipherBatch E batchIndex config dcdr =
     (let batch = main_Batch batchIndex dcdr
      in case cc_KeyperIndex config (Config_Address E (dc_Config dcdr)) of
           None \<Rightarrow> Inl (Panic ''executeCipherBatch called from non keyper'')
         | Some keyperIndex \<Rightarrow>
             (case map_of (st_Batches (dc_State dcdr)) batchIndex of
                None \<Rightarrow> Inr None
              | Some stBatch \<Rightarrow>
                  if ba_DecryptedTransactions stBatch \<noteq> [] \<and> of_nat (ba_SignatureCount stBatch) < cc_Threshold config
                  then Inr None
                  else Inr (Some (ExecuteCipherBatch batchIndex (mb_EncryptedBatchHash batch)
                    (ba_DecryptedTransactions stBatch) keyperIndex (cc_TransactionGasLimit config)))))"

definition executePlainBatch :: "u64 \<Rightarrow> ContractConfig \<Rightarrow> ('g1, 'g2, 'sk, 'ek, 'dk) Decider \<Rightarrow> 'g2 IAction" where
  "executePlainBatch batchIndex config dcdr =
     (let batch = main_Batch batchIndex dcdr
      in ExecutePlainBatch batchIndex (mb_PlainTransactions batch) (cc_TransactionGasLimit config))"

definition maybeExecuteHalfStep ::
  "('pk, 'sk, 'ek, 'dk) eth \<Rightarrow> u64 \<Rightarrow> ('g1, 'g2, 'sk, 'ek, 'dk) Decider \<Rightarrow> 'g2 IAction option result" where
  "maybeExecuteHalfStep E nextHalfStep dcdr =
     (let batchIndex = nextHalfStep div 2;
          block = mc_CurrentBlock (dc_MainChain dcdr)
      in result_bind (ConfigForBatchIndex (dc_MainChain dcdr) batchIndex) (\<lambda>cfg.
         case cfg of
           None \<Rightarrow> Inr None
         | Some config \<Rightarrow>
             result_bind (executionDelay E config nextHalfStep dcdr) (\<lambda>delay.
             result_bind (BatchEndBlock config batchIndex) (\<lambda>endBlock.
             let executionBlock = endBlock + delay;
                 executionTimeoutBlock = endBlock + cc_ExecutionTimeout config;
                 isCipherBatch = (nextHalfStep mod 2 = 0)
             in if isCipherBatch \<and> block \<ge> executionTimeoutBlock
                then Inr (if block \<ge> executionTimeoutBlock + delay then Some (SkipCipherBatch batchIndex) else None)
                else if \<not> cc_IsKeyper config (Config_Address E (dc_Config dcdr)) then Inr None
                else if block \<ge> executionBlock
                then (if isCipherBatch then executeCipherBatch E batchIndex config dcdr
                      else Inr (Some (executePlainBatch batchIndex config dcdr)))
                else Inr None))))"

text \<open>The loop over the half steps stops at the first that cannot be executed.\<close>

fun executeHalfSteps ::
  "('pk, 'sk, 'ek, 'dk) eth \<Rightarrow> u64 list \<Rightarrow> ('g1, 'g2, 'sk, 'ek, 'dk) Decider \<Rightarrow>
   ('g1, 'g2, 'sk, 'ek, 'dk) Decider result" where
  "executeHalfSteps E [] dcdr = Inr dcdr"
| "executeHalfSteps E (halfStep # halfSteps) dcdr =
     result_bind (maybeExecuteHalfStep E halfStep dcdr) (\<lambda>action.
     case action of
       None \<Rightarrow> Inr dcdr
     | Some a \<Rightarrow> executeHalfSteps E halfSteps
         (set_state (\<lambda>st. st \<lparr> st_PendingHalfStep := Some halfStep \<rparr>) (addAction a dcdr)))"

definition resetPendingHalfStep ::
  "('g1, 'g2, 'sk, 'ek, 'dk) Decider \<Rightarrow> ('g1, 'g2, 'sk, 'ek, 'dk) Decider" where
  "resetPendingHalfStep dcdr =
     (case st_PendingHalfStep (dc_State dcdr) of
        Some p \<Rightarrow> if mc_NumExecutionHalfSteps (dc_MainChain dcdr) > p
                  then set_state (\<lambda>st. st \<lparr> st_PendingHalfStep := None \<rparr>) dcdr else dcdr
      | None \<Rightarrow> dcdr)"

definition maybeExecuteBatch ::
  "('pk, 'sk, 'ek, 'dk) eth \<Rightarrow> ('g1, 'g2, 'sk, 'ek, 'dk) Decider \<Rightarrow> ('g1, 'g2, 'sk, 'ek, 'dk) Decider result" where
  "maybeExecuteBatch E dcdr =
     result_bind (CurrentConfig (dc_MainChain dcdr)) (\<lambda>config.
     if \<not> IsActive config then Inr dcdr
     else result_bind (BatchIndex config (mc_CurrentBlock (dc_MainChain dcdr))) (\<lambda>batchIndex.
          let nextHalfStep = mc_NumExecutionHalfSteps (dc_MainChain dcdr);
              dcdr' = resetPendingHalfStep dcdr
          in if st_PendingHalfStep (dc_State dcdr') \<noteq> None then Inr dcdr'
             else let numHalfStepsToExecute = getNumHalfStepsToExecute nextHalfStep batchIndex
                  in executeHalfSteps E (range64 nextHalfStep (nextHalfStep + numHalfStepsToExecute)) dcdr'))"

section \<open>Accusations and appeals\<close>

definition syncPendingAppeals ::
  "('g1, 'g2, 'sk, 'ek, 'dk) Decider \<Rightarrow> ('g1, 'g2, 'sk, 'ek, 'dk) Decider" where
  "syncPendingAppeals dcdr =
     set_state (\<lambda>st. st \<lparr> st_PendingAppeals :=
       filter (\<lambda>halfStep. \<not> (\<exists>(i, accusation)\<in>set (mc_Accusations (dc_MainChain dcdr)).
         halfStep = ma_HalfStep accusation \<and> ma_Appealed accusation)) (st_PendingAppeals st) \<rparr>) dcdr"

text \<open>The body of the loop of \<open>maybeAppeal\<close>; getting the signatures may add an empty batch to \<open>Shielder\<close>.\<close>

definition appeal_one ::
  "MAccusation \<Rightarrow> ('g1, 'g2, 'sk, 'ek, 'dk) Decider \<Rightarrow> ('g1, 'g2, 'sk, 'ek, 'dk) Decider result" where
  "appeal_one accusation dcdr =
     (let batchIndex = ma_HalfStep accusation div 2
      in if ma_Appealed accusation then Inr dcdr
         else if ma_HalfStep accusation \<in> set (st_PendingAppeals (dc_State dcdr)) then Inr dcdr
         else case mc_CipherExecutionReceipts (dc_MainChain dcdr) (ma_HalfStep accusation) of
           None \<Rightarrow> Inr dcdr
         | Some receipt \<Rightarrow>
             (case map_of (st_Batches (dc_State dcdr)) batchIndex of
                None \<Rightarrow> Inr dcdr
              | Some stBatch \<Rightarrow>
                  if cr_BatchHash receipt \<noteq> ba_DecryptedBatchHash stBatch then Inr dcdr
                  else case GetSortedDecryptionSignaturesWithIndices batchIndex (dc_Shielder dcdr) of
                    (Inl (Panic p), sh) \<Rightarrow> Inl (Panic p)
                  | (Inl (Errorf e), sh) \<Rightarrow> Inr (dcdr \<lparr> dc_Shielder := sh \<rparr>)
                  | (Inr (signatures, indices), sh) \<Rightarrow>
                      result_bind (FindBatchConfigByBatchIndex sh batchIndex) (\<lambda>batchConfig.
                      let dcdr' = dcdr \<lparr> dc_Shielder := sh \<rparr>
                      in if of_nat (length signatures) < bc_Threshold batchConfig then Inr dcdr'
                         else result_bind (SignaturesToContractFormat signatures) (\<lambda>sigs.
                              let authorization = \<lparr> au_HalfStep = ma_HalfStep accusation,
                                    au_BatchHash = copy_bytes zero_hash (ba_DecryptedBatchHash stBatch),
                                    au_SignerIndices = indices, au_Signatures = sigs \<rparr>
                              in Inr (addAction (Appeal authorization)
                                   (set_state (\<lambda>st. st \<lparr> st_PendingAppeals := st_PendingAppeals st @ [ma_HalfStep accusation] \<rparr>) dcdr'))))))"

definition maybeAppeal ::
  "dec_choices \<Rightarrow> ('g1, 'g2, 'sk, 'ek, 'dk) Decider \<Rightarrow> ('g1, 'g2, 'sk, 'ek, 'dk) Decider result" where
  "maybeAppeal R dcdr =
     loop_result (\<lambda>(i, accusation). appeal_one accusation)
       (dec_Accusations R (mc_Accusations (dc_MainChain dcdr))) (syncPendingAppeals dcdr)"

text \<open>The body of the loop of \<open>maybeAccuse\<close>.\<close>

definition accuse_one ::
  "('pk, 'sk, 'ek, 'dk) eth \<Rightarrow> u64 \<Rightarrow> ('g1, 'g2, 'sk, 'ek, 'dk) Decider \<Rightarrow>
   ('g1, 'g2, 'sk, 'ek, 'dk) Decider result" where
  "accuse_one E halfStep dcdr =
     (if halfStep mod 2 \<noteq> 0 then Inr dcdr
      else let batchIndex = halfStep div 2
           in case mc_CipherExecutionReceipts (dc_MainChain dcdr) halfStep of
                None \<Rightarrow> Inr dcdr
              | Some receipt \<Rightarrow>
                  (case map_of (st_Batches (dc_State dcdr)) batchIndex of
                     None \<Rightarrow> Inr dcdr
                   | Some stBatch \<Rightarrow>
                       if ba_DecryptedBatchHash stBatch = cr_BatchHash receipt then Inr dcdr
                       else if map_of (mc_Accusations (dc_MainChain dcdr)) halfStep \<noteq> None then Inr dcdr
                       else result_bind (ConfigForBatchIndex (dc_MainChain dcdr) batchIndex) (\<lambda>cfg.
                            case cfg of
                              None \<Rightarrow> Inr dcdr
                            | Some config \<Rightarrow>
                                (let keyperIndex = (case cc_KeyperIndex config (Config_Address E (dc_Config dcdr)) of
                                       None \<Rightarrow> 0 | Some i \<Rightarrow> i)
                                 in Inr (addAction (Accuse halfStep keyperIndex) dcdr)))))"

definition maybeAccuse ::
  "('pk, 'sk, 'ek, 'dk) eth \<Rightarrow> ('g1, 'g2, 'sk, 'ek, 'dk) Decider \<Rightarrow> ('g1, 'g2, 'sk, 'ek, 'dk) Decider result" where
  "maybeAccuse E dcdr =
     result_bind (loop_result (accuse_one E)
       (range64 (st_HalfStepsChecked (dc_State dcdr)) (mc_NumExecutionHalfSteps (dc_MainChain dcdr))) dcdr) (\<lambda>dcdr'.
     Inr (set_state (\<lambda>st. st \<lparr> st_HalfStepsChecked := mc_NumExecutionHalfSteps (dc_MainChain dcdr') \<rparr>) dcdr'))"

section \<open>Decide\<close>

definition Decide ::
  "dec_choices \<Rightarrow> ('g1, 'g2, 'gt) bn256 \<Rightarrow> ('pk, 'sk, 'ek, 'dk) eth \<Rightarrow>
   ('g1, 'g2, 'sk, 'ek, 'dk) Decider \<Rightarrow> ('g1, 'g2, 'sk, 'ek, 'dk) Decider result" where
  "Decide R B E dcdr =
     (if \<not> sh_IsSynced (dc_Shielder dcdr) then Inr dcdr
      else if \<not> mc_IsSynced (dc_MainChain dcdr) then Inr dcdr
      else if \<not> sh_IsKeyper (dc_Shielder dcdr) (Config_Address E (dc_Config dcdr)) then Inr dcdr
      else let dcdr1 = maybeSendBatchConfig E (maybeSendCheckIn E dcdr)
           in result_bind (maybeStartDKG E dcdr1) (\<lambda>dcdr2.
              result_bind (handleDKGs R B E dcdr2) (\<lambda>dcdr3.
              result_bind (handleEpochKG R B E dcdr3) (\<lambda>dcdr4.
              result_bind (handleDecryptionSignatures R E dcdr4) (\<lambda>dcdr5.
              result_bind (maybeExecuteBatch E dcdr5) (\<lambda>dcdr6.
              result_bind (maybeAppeal R dcdr6) (\<lambda>dcdr7.
              result_bind (maybeAccuse E dcdr7) (\<lambda>dcdr8.
              Inr (set_state (\<lambda>st. st \<lparr> st_SyncHeight := sh_CurrentBlock (dc_Shielder dcdr8) + 1 \<rparr>) dcdr8)))))))))"

end
