(* ===== verification/ResultRules.thy ===== *)
theory ResultRules
  imports ObserveMain
begin

text \<open>
  Rules for what holds of the value of a computation that may fail: \<open>post r P\<close> says that \<open>P\<close> holds of the
  value of \<open>r\<close>, if it has one. \<open>post_rules\<close> follow the structure of a computation from its end to its start;
  each operation adds a rule of its own, so that a proof about a handler is the rules of what it calls.
\<close>

named_theorems post_rules \<open>rules for the parts a computation is built from\<close>

definition post :: "'a result \<Rightarrow> ('a \<Rightarrow> bool) \<Rightarrow> bool" where
  "post r P \<longleftrightarrow> (\<forall>v. r = Inr v \<longrightarrow> P v)"

lemma postD: "post r P \<Longrightarrow> r = Inr v \<Longrightarrow> P v"
  by (simp add: post_def)

lemma postI: "(\<And>v. r = Inr v \<Longrightarrow> P v) \<Longrightarrow> post r P"
  by (simp add: post_def)

lemma post_any: "(\<And>v. r = Inr v \<Longrightarrow> P v) \<Longrightarrow> post r P"
  by (rule postI)

lemma post_weaken: "post r Q \<Longrightarrow> (\<And>v. Q v \<Longrightarrow> P v) \<Longrightarrow> post r P"
  by (simp add: post_def)

lemma post_weaken_pair: "post r (\<lambda>(x, y). Q y) \<Longrightarrow> (\<And>x y. Q y \<Longrightarrow> P (x, y)) \<Longrightarrow> post r P"
  by (auto simp: post_def)

lemma post_Inl [post_rules]: "post (Inl e) P"
  by (simp add: post_def)

lemma post_Inr [post_rules]: "P v \<Longrightarrow> post (Inr v) P"
  by (simp add: post_def)

lemma post_bind [post_rules]: "post x (\<lambda>v. post (f v) P) \<Longrightarrow> post (result_bind x f) P"
  by (cases x) (simp_all add: post_def)

lemma post_if_err [post_rules]:
  "(\<And>e. x = Inl (Errorf e) \<Longrightarrow> post (h e) P) \<Longrightarrow> post x (\<lambda>v. post (k v) P) \<Longrightarrow> post (if_err x h k) P"
  by (cases x rule: no_panic.cases) (simp_all add: post_def)

lemma post_if [post_rules]: "(c \<Longrightarrow> post x P) \<Longrightarrow> (\<not> c \<Longrightarrow> post y P) \<Longrightarrow> post (if c then x else y) P"
  by simp

lemma post_let [post_rules]: "post (f x) P \<Longrightarrow> post (let v = x in f v) P"
  by simp

lemma post_case_option [post_rules]:
  "(x = None \<Longrightarrow> post a P) \<Longrightarrow> (\<And>v. x = Some v \<Longrightarrow> post (f v) P) \<Longrightarrow> post (case x of None \<Rightarrow> a | Some v \<Rightarrow> f v) P"
  by (cases x) simp_all

lemma post_case_sum [post_rules]:
  "(\<And>v. x = Inl v \<Longrightarrow> post (f v) P) \<Longrightarrow> (\<And>v. x = Inr v \<Longrightarrow> post (g v) P) \<Longrightarrow>
   post (case x of Inl v \<Rightarrow> f v | Inr v \<Rightarrow> g v) P"
  by (cases x) simp_all

lemma post_case_error [post_rules]:
  "(\<And>v. x = Errorf v \<Longrightarrow> post (f v) P) \<Longrightarrow> (\<And>v. x = Panic v \<Longrightarrow> post (g v) P) \<Longrightarrow>
   post (case x of Errorf v \<Rightarrow> f v | Panic v \<Rightarrow> g v) P"
  by (cases x) simp_all

lemma post_case_prod [post_rules]:
  "(\<And>a b. x = (a, b) \<Longrightarrow> post (f a b) P) \<Longrightarrow> post (case x of (a, b) \<Rightarrow> f a b) P"
  by (cases x) simp

lemma post_case_prod_app [post_rules]:
  "(\<And>a b. x = (a, b) \<Longrightarrow> post (f a b s) P) \<Longrightarrow> post ((case x of (a, b) \<Rightarrow> f a b) s) P"
  by (cases x) simp

lemma post_case_pair: "post (f a b) P \<Longrightarrow> post (case (a, b) of (a, b) \<Rightarrow> f a b) P"
  by simp

lemma post_split [post_rules]: "f a b \<Longrightarrow> case (a, b) of (a, b) \<Rightarrow> f a b"
  by simp

lemma post_loop:
  assumes "Q s" "\<And>x s. x \<in> set xs \<Longrightarrow> Q s \<Longrightarrow> post (f x s) Q" "\<And>s. Q s \<Longrightarrow> P s"
  shows "post (loop_result f xs s) P"
proof -
  have "post (loop_result f xs s) Q"
    using assms(1, 2)
  proof (induction xs arbitrary: s)
    case (Cons x xs)
    show ?case
      unfolding loop_result.simps
    proof (rule post_bind, rule post_weaken)
      show "post (f x s) Q" using Cons.prems by simp
      fix s1 assume "Q s1"
      then show "post (loop_result f xs s1) Q" by (rule Cons.IH) (use Cons.prems(2) in simp)
    qed
  qed (simp add: post_def)
  then show ?thesis by (rule post_weaken) (rule assms(3))
qed

lemma post_must [post_rules]: "post r P \<Longrightarrow> post (case r of Inl err \<Rightarrow> Inl (Panic p) | Inr v \<Rightarrow> Inr v) P"
  by (cases r) (simp_all add: post_def)

end
