(* ===== verification/ObserveFacts.thy ===== *)
theory ObserveFacts
  imports ObserveShielder
begin

text \<open>
  Facts about the observed state of the shuttermint chain: its invariant (eons increase, the events of
  an eon name it and are ordered by height), which makes the binary searches exact; what a filter
  keeps; and that reading the chain in queries and pages applies every event once.
\<close>

section \<open>Events ordered by height\<close>

definition height_sorted :: "('e \<Rightarrow> i64) \<Rightarrow> 'e list \<Rightarrow> bool" where
  "height_sorted height evs \<longleftrightarrow> sorted (map (\<lambda>e. sint (height e)) evs)"

definition below :: "i64 \<Rightarrow> ('e \<Rightarrow> i64) \<Rightarrow> 'e list \<Rightarrow> bool" where
  "below h height evs \<longleftrightarrow> (\<forall>e\<in>set evs. sint (height e) \<le> sint h)"

lemma drop_first_is_filter:
  "(\<forall>k<i. \<not> P (xs ! k)) \<Longrightarrow> (\<forall>k. i \<le> k \<longrightarrow> k < length xs \<longrightarrow> P (xs ! k)) \<Longrightarrow> i \<le> length xs \<Longrightarrow>
   drop i xs = filter P xs"
proof (induction xs arbitrary: i)
  case (Cons x xs)
  show ?case
  proof (cases i)
    case 0
    with Cons.prems(2) have "\<forall>y\<in>set (x # xs). P y" by (metis in_set_conv_nth le0)
    then have "filter P (x # xs) = x # xs" by (simp add: filter_id_conv)
    with 0 show ?thesis by simp
  next
    case (Suc j)
    have "drop j xs = filter P xs"
    proof (rule Cons.IH)
      show "\<forall>k<j. \<not> P (xs ! k)" using Cons.prems(1) Suc by fastforce
      show "\<forall>k. j \<le> k \<longrightarrow> k < length xs \<longrightarrow> P (xs ! k)" using Cons.prems(2) Suc by fastforce
      show "j \<le> length xs" using Cons.prems(3) Suc by simp
    qed
    moreover have "\<not> P x" using Cons.prems(1) Suc by fastforce
    ultimately show ?thesis using Suc by simp
  qed
qed simp

text \<open>The binary search returns exactly the events from \<open>syncHeight\<close> on.\<close>

lemma events_from_filter:
  assumes "height_sorted height evs"
  shows "events_from height evs h = filter (\<lambda>e. sint (height e) \<ge> sint h) evs"
proof -
  let ?f = "\<lambda>i. sint (height (evs ! i)) \<ge> sint h"
  let ?n = "length evs"
  have up: "upward ?n ?f"
    unfolding upward_def
  proof (intro allI impI)
    fix a b
    assume ab: "a \<le> b" "b < ?n" "sint h \<le> sint (height (evs ! a))"
    have "map (\<lambda>e. sint (height e)) evs ! a \<le> map (\<lambda>e. sint (height e)) evs ! b"
      using assms ab by (simp only: height_sorted_def) (rule sorted_nth_mono, simp_all)
    with ab show "sint h \<le> sint (height (evs ! b))" by simp
  qed
  have "drop (sort_Search ?n ?f) evs = filter (\<lambda>e. sint (height e) \<ge> sint h) evs"
  proof (rule drop_first_is_filter)
    show "\<forall>k < (sort_Search ?n ?f). \<not> sint h \<le> sint (height (evs ! k))"
      by (rule conjunct1 [OF sort_Search_least [OF up]])
    show "\<forall>k. sort_Search ?n ?f \<le> k \<longrightarrow> k < length evs \<longrightarrow> sint h \<le> sint (height (evs ! k))"
      by (rule conjunct2 [OF sort_Search_least [OF up]])
  qed (rule sort_Search_le)
  then show ?thesis by (auto simp: events_from_def Let_def)
qed

lemma height_sorted_filter: "height_sorted height evs \<Longrightarrow> height_sorted height (filter P evs)"
  unfolding height_sorted_def using sorted_filter by blast

lemma below_filter: "below h height evs \<Longrightarrow> below h height (filter P evs)"
  by (simp add: below_def)

lemma below_mono: "below h height evs \<Longrightarrow> sint h \<le> sint h' \<Longrightarrow> below h' height evs"
  unfolding below_def by fastforce

lemma height_sorted_snoc:
  "height_sorted height (evs @ [e]) \<longleftrightarrow> height_sorted height evs \<and> below (height e) height evs"
  by (auto simp: height_sorted_def below_def sorted_append)

lemma below_snoc: "below h height (evs @ [e]) \<longleftrightarrow> below h height evs \<and> sint (height e) \<le> sint h"
  by (auto simp: below_def)

lemma height_Nil [simp]: "height_sorted height []" "below h height []"
  by (simp_all add: height_sorted_def below_def)

section \<open>The invariant\<close>

definition ordered_events :: "i64 \<Rightarrow> ('e \<Rightarrow> i64) \<Rightarrow> ('e \<Rightarrow> u64) \<Rightarrow> u64 \<Rightarrow> 'e list \<Rightarrow> bool" where
  "ordered_events h height eon n evs \<longleftrightarrow> height_sorted height evs \<and> below h height evs \<and> (\<forall>e\<in>set evs. eon e = n)"

definition eon_ok :: "i64 \<Rightarrow> ('g1, 'g2) Eon \<Rightarrow> bool" where
  "eon_ok h eo \<longleftrightarrow> es_Eon (eo_StartEvent eo) = eo_Eon eo \<and> es_Height (eo_StartEvent eo) = eo_StartHeight eo \<and>
     ordered_events h pc_Height pc_Eon (eo_Eon eo) (eo_Commitments eo) \<and>
     ordered_events h pe_Height pe_Eon (eo_Eon eo) (eo_PolyEvals eo) \<and>
     ordered_events h acc_Height acc_Eon (eo_Eon eo) (eo_Accusations eo) \<and>
     ordered_events h apo_Height apo_Eon (eo_Eon eo) (eo_Apologies eo) \<and>
     ordered_events h sks_Height sks_Eon (eo_Eon eo) (eo_EpochSecretKeyShares eo)"

definition sh_inv :: "i64 \<Rightarrow> ('g1, 'g2, 'ek) Shielder \<Rightarrow> bool" where
  "sh_inv h sh \<longleftrightarrow> sorted_wrt (<) (map eo_Eon (sh_Eons sh)) \<and> (\<forall>eo\<in>set (sh_Eons sh). eon_ok h eo) \<and>
     (\<forall>i b. sh_Batches sh i = Some b \<longrightarrow> bd_BatchIndex b = i \<and>
        (\<forall>s\<in>set (bd_DecryptionSignatures b). ds_BatchIndex s = i))"

lemma ordered_events_mono: "ordered_events h f g n evs \<Longrightarrow> sint h \<le> sint h' \<Longrightarrow> ordered_events h' f g n evs"
  using below_mono by (auto simp: ordered_events_def)

lemma eon_ok_mono: "eon_ok h eo \<Longrightarrow> sint h \<le> sint h' \<Longrightarrow> eon_ok h' eo"
  by (auto simp: eon_ok_def intro: ordered_events_mono)

lemma sh_inv_mono: "sh_inv h sh \<Longrightarrow> sint h \<le> sint h' \<Longrightarrow> sh_inv h' sh"
  unfolding sh_inv_def using eon_ok_mono by blast

lemma sh_inv_New [intro]: "sh_inv h NewShielder"
  by (simp add: sh_inv_def NewShielder_def)

lemma ordered_events_snoc:
  "ordered_events h f g n evs \<Longrightarrow> f e = h \<Longrightarrow> g e = n \<Longrightarrow> ordered_events h f g n (evs @ [e])"
  by (auto simp: ordered_events_def height_sorted_snoc below_snoc)

lemma ordered_events_filter: "ordered_events h f g n evs \<Longrightarrow> ordered_events h f g n (filter P evs)"
  by (auto simp: ordered_events_def height_sorted_filter below_filter)

lemma ordered_events_Nil [simp]: "ordered_events h f g n []"
  by (simp add: ordered_events_def)

section \<open>The search for an eon\<close>

lemma increasing_upward:
  "sorted_wrt (<) (map eo_Eon eons) \<Longrightarrow> upward (length eons) (\<lambda>i. n \<le> eo_Eon (eons ! i))"
  unfolding upward_def
proof (intro allI impI)
  fix a b
  assume eons: "sorted_wrt (<) (map eo_Eon eons)" and ab: "a \<le> b" "b < length eons" "n \<le> eo_Eon (eons ! a)"
  have "eo_Eon (eons ! a) \<le> eo_Eon (eons ! b)"
  proof (cases "a = b")
    case False
    with ab have "a < b" "b < length (map eo_Eon eons)" by simp_all
    with eons have "map eo_Eon eons ! a < map eo_Eon eons ! b" by (rule sorted_wrt_nth_less)
    with ab show ?thesis by simp
  qed simp
  with ab(3) show "n \<le> eo_Eon (eons ! b)" by (rule order_trans)
qed

lemma FindEon_Inr_iff:
  assumes "sorted_wrt (<) (map eo_Eon (sh_Eons sh))"
  shows "FindEon sh n = Inr i \<longleftrightarrow> i < length (sh_Eons sh) \<and> eo_Eon (sh_Eons sh ! i) = n"
proof -
  let ?f = "\<lambda>i. n \<le> eo_Eon (sh_Eons sh ! i)"
  let ?s = "sort_Search (length (sh_Eons sh)) ?f"
  have least: "\<forall>k<?s. \<not> ?f k" "\<forall>k. ?s \<le> k \<longrightarrow> k < length (sh_Eons sh) \<longrightarrow> ?f k"
    using sort_Search_least [OF increasing_upward [OF assms, of n]] by blast+
  have le: "?s \<le> length (sh_Eons sh)" by (rule sort_Search_le)
  have F: "FindEon sh n = Inr i \<longleftrightarrow> ?s < length (sh_Eons sh) \<and> eo_Eon (sh_Eons sh ! ?s) \<le> n \<and> i = ?s"
    using le by (auto simp: FindEon_def searchEon_def Let_def not_less)
  show ?thesis
  proof
    assume "FindEon sh n = Inr i"
    with F have i: "i = ?s" "?s < length (sh_Eons sh)" "eo_Eon (sh_Eons sh ! ?s) \<le> n" by auto
    with least(2) have "n \<le> eo_Eon (sh_Eons sh ! ?s)" by blast
    with i show "i < length (sh_Eons sh) \<and> eo_Eon (sh_Eons sh ! i) = n" by simp
  next
    assume i: "i < length (sh_Eons sh) \<and> eo_Eon (sh_Eons sh ! i) = n"
    with least(1) have s: "?s \<le> i" by (metis not_le order_refl)
    have "?s = i"
    proof (rule ccontr)
      assume "?s \<noteq> i"
      with s have "?s < i" by simp
      with i assms have "eo_Eon (sh_Eons sh ! ?s) < n"
        using sorted_wrt_nth_less [of "(<)" "map eo_Eon (sh_Eons sh)" ?s i] by fastforce
      moreover have "n \<le> eo_Eon (sh_Eons sh ! ?s)" using least(2) \<open>?s < i\<close> i by (meson less_trans order_refl)
      ultimately show False by simp
    qed
    with i F show "FindEon sh n = Inr i" by simp
  qed
qed

lemma FindEonByBatchIndex_loop_Inr:
  "FindEonByBatchIndex_loop eons b n = Inr i \<longleftrightarrow>
     i < n \<and> es_BatchIndex (eo_StartEvent (eons ! i)) \<le> b \<and>
     (\<forall>j. i < j \<longrightarrow> j < n \<longrightarrow> b < es_BatchIndex (eo_StartEvent (eons ! j)))"
  by (induction n) (auto simp: less_Suc_eq not_le)

section \<open>The config of a batch\<close>

text \<open>
  The loop looks at the last config only: for a batch before it the index runs out of the slice.
\<close>

lemma FindBatchConfig_loop_beyond:
  "length configs < i \<Longrightarrow> FindBatchConfig_loop configs b i = Inl (Panic ''index out of range'')"
  by (subst FindBatchConfig_loop.simps) auto

lemma FindBatchConfigByBatchIndex_eq:
  "FindBatchConfigByBatchIndex sh b =
     (if sh_BatchConfigs sh = [] then Inr zero_BatchConfig
      else if bc_StartBatchIndex (last (sh_BatchConfigs sh)) \<le> b then Inr (last (sh_BatchConfigs sh))
      else Inl (Panic ''index out of range''))"
proof (cases "sh_BatchConfigs sh = []")
  case True
  then show ?thesis
    by (simp add: FindBatchConfigByBatchIndex_def FindBatchConfig_loop.simps [of "[]" b 0])
next
  case False
  let ?cs = "sh_BatchConfigs sh"
  have "FindBatchConfig_loop ?cs b (length ?cs) =
      (if bc_StartBatchIndex (last ?cs) \<le> b then Inr (last ?cs)
       else FindBatchConfig_loop ?cs b (length ?cs + 1))"
    using False by (subst FindBatchConfig_loop.simps) (simp add: last_conv_nth)
  with False show ?thesis
    by (simp add: FindBatchConfigByBatchIndex_def FindBatchConfig_loop_beyond)
qed

section \<open>Every event keeps the invariant\<close>

fun event_height :: "('g1, 'g2, 'ek) IEvent \<Rightarrow> i64" where
  "event_height (EvAccusation e) = acc_Height e"
| "event_height (EvApology e) = apo_Height e"
| "event_height (EvBatchConfig e) = bc_Height e"
| "event_height (EvCheckIn e) = ci_Height e"
| "event_height (EvDecryptionSignature e) = ds_Height e"
| "event_height (EvEonStarted e) = es_Height e"
| "event_height (EvPolyCommitment e) = pc_Height e"
| "event_height (EvPolyEval e) = pe_Height e"
| "event_height (EvEpochSecretKeyShare e) = sks_Height e"

lemma make_heights:
  "makeAccusation E ev h = Inr a \<Longrightarrow> acc_Height a = h"
  "makeApology E ev h = Inr b \<Longrightarrow> apo_Height b = h"
  "makeBatchConfig E ev h = Inr c \<Longrightarrow> bc_Height c = h"
  "makeCheckIn E ev h = Inr d \<Longrightarrow> ci_Height d = h"
  "makeDecryptionSignature E ev h = Inr e \<Longrightarrow> ds_Height e = h"
  "makeEonStarted ev h = Inr f \<Longrightarrow> es_Height f = h"
  "makePolyCommitment B E ev h = Inr g \<Longrightarrow> pc_Height g = h"
  "makePolyEval E ev h = Inr i \<Longrightarrow> pe_Height i = h"
  "makeEpochSecretKeyShare B E ev h = Inr j \<Longrightarrow> sks_Height j = h"
  by (auto simp: make_defs Let_def result_bind_Inr_iff split: option.splits if_split_asm sum.splits)

lemma result_map_Inr: "result_map f r = Inr y \<longleftrightarrow> (\<exists>x. r = Inr x \<and> y = f x)"
  by (cases r) (auto simp: result_map_def)

lemma MakeEvent_height: "MakeEvent B E ev h = Inr x \<Longrightarrow> event_height x = h"
  by (auto simp: MakeEvent_def Let_def result_map_Inr make_heights split: if_split_asm)

lemma sorted_wrt_snoc: "sorted_wrt (<) (xs @ [x]) \<longleftrightarrow> sorted_wrt (<) xs \<and> (\<forall>y\<in>set xs. y < x)"
  by (simp add: sorted_wrt_append)

lemma append_to_eon_inv:
  assumes inv: "sh_inv h sh" and r: "append_to_eon n f sh = Inr sh'"
    and f: "\<And>eo. eon_ok h eo \<Longrightarrow> eo_Eon eo = n \<Longrightarrow> eon_ok h (f eo) \<and> eo_Eon (f eo) = n"
  shows "sh_inv h sh'"
proof -
  have s: "sorted_wrt (<) (map eo_Eon (sh_Eons sh))" and ok: "\<forall>eo\<in>set (sh_Eons sh). eon_ok h eo"
    using inv by (simp_all add: sh_inv_def)
  from r obtain i where i: "FindEon sh n = Inr i" "sh' = sh \<lparr> sh_Eons := (sh_Eons sh) [i := f (sh_Eons sh ! i)] \<rparr>"
    by (auto simp: append_to_eon_def elim!: result_bindE)
  with FindEon_Inr_iff [OF s] have il: "i < length (sh_Eons sh)" "eo_Eon (sh_Eons sh ! i) = n" by auto
  with ok f have fi: "eon_ok h (f (sh_Eons sh ! i))" "eo_Eon (f (sh_Eons sh ! i)) = n" by auto
  have "map eo_Eon (sh_Eons sh') = map eo_Eon (sh_Eons sh)"
    using i(2) il fi(2) by (simp add: map_update list_update_same_conv)
  moreover have "\<forall>eo\<in>set (sh_Eons sh'). eon_ok h eo"
    using ok fi(1) i(2) set_update_subset_insert [of "sh_Eons sh" i "f (sh_Eons sh ! i)"] by auto
  ultimately show ?thesis using inv i(2) by (simp add: sh_inv_def)
qed

lemma applyEonStarted_inv:
  assumes inv: "sh_inv h sh" and h: "es_Height e = h" and r: "applyEonStarted e sh = Inr sh'"
  shows "sh_inv h sh' \<and> sh_Eons sh' = sh_Eons sh @ [new_eon e] \<and> (\<forall>eo\<in>set (sh_Eons sh). eo_Eon eo < es_Eon e)"
proof -
  let ?f = "\<lambda>i. es_Eon e \<le> eo_Eon (sh_Eons sh ! i)"
  have s: "sorted_wrt (<) (map eo_Eon (sh_Eons sh))" using inv by (simp add: sh_inv_def)
  from r have sh': "sh' = sh \<lparr> sh_Eons := sh_Eons sh @ [new_eon e] \<rparr>" "length (sh_Eons sh) \<le> searchEon sh (es_Eon e)"
    by (auto simp: applyEonStarted_def Let_def split: if_split_asm)
  have "\<forall>k < (sort_Search (length (sh_Eons sh)) ?f). \<not> ?f k"
    by (rule conjunct1 [OF sort_Search_least [OF increasing_upward [OF s]]])
  then have "\<forall>k<length (sh_Eons sh). \<not> ?f k"
    using sh'(2) by (simp add: searchEon_def)
  then have less: "\<forall>eo\<in>set (sh_Eons sh). eo_Eon eo < es_Eon e"
    by (simp add: all_set_conv_all_nth not_le)
  then have "sorted_wrt (<) (map eo_Eon (sh_Eons sh'))"
    using s sh'(1) by (simp add: sorted_wrt_snoc new_eon_def)
  moreover have "eon_ok h (new_eon e)" using h by (simp add: eon_ok_def new_eon_def)
  ultimately show ?thesis using inv less sh'(1) by (auto simp: sh_inv_def)
qed

text \<open>The data of a batch, empty before its first signature.\<close>

definition batch_data :: "('g1, 'g2, 'ek) Shielder \<Rightarrow> u64 \<Rightarrow> BatchData" where
  "batch_data sh i = fst (getBatchData i sh)"

lemma batch_data_simps:
  "sh_Batches sh i = Some b \<Longrightarrow> batch_data sh i = b"
  "sh_Batches sh i = None \<Longrightarrow> batch_data sh i = \<lparr> bd_BatchIndex = i, bd_DecryptionSignatures = [] \<rparr>"
  by (simp_all add: batch_data_def getBatchData_def Let_def)

lemma batch_data_frame [simp]:
  "batch_data (sh \<lparr> sh_Batches := (sh_Batches sh)(i \<mapsto> b) \<rparr>) j = (if j = i then b else batch_data sh j)"
  "batch_data (sh \<lparr> sh_Eons := eons \<rparr>) j = batch_data sh j"
  "batch_data (sh \<lparr> sh_BatchConfigs := cfgs \<rparr>) j = batch_data sh j"
  "batch_data (sh \<lparr> sh_KeyperEncryptionKeys := ks \<rparr>) j = batch_data sh j"
  by (cases "sh_Batches sh j"; simp add: batch_data_simps)+

lemma applyDecryptionSignature_eq:
  "applyDecryptionSignature e sh = Inr (sh \<lparr> sh_Batches := (sh_Batches sh)(ds_BatchIndex e \<mapsto>
     (batch_data sh (ds_BatchIndex e)) \<lparr> bd_DecryptionSignatures :=
        bd_DecryptionSignatures (batch_data sh (ds_BatchIndex e)) @ [e] \<rparr>) \<rparr>)"
  by (cases "sh_Batches sh (ds_BatchIndex e)")
    (simp_all add: applyDecryptionSignature_def getBatchData_def batch_data_def Let_def)

lemma batch_data_inv:
  "sh_inv h sh \<Longrightarrow> bd_BatchIndex (batch_data sh i) = i"
  "sh_inv h sh \<Longrightarrow> s \<in> set (bd_DecryptionSignatures (batch_data sh i)) \<Longrightarrow> ds_BatchIndex s = i"
  by (cases "sh_Batches sh i"; auto simp: batch_data_simps sh_inv_def)+

lemma apply_to_inv:
  assumes inv: "sh_inv h sh" and h: "event_height ev = h" and r: "apply_to ev sh = Inr sh'"
  shows "sh_inv h sh'"
proof (cases ev)
  case (EvEonStarted e)
  with r h have "applyEonStarted e sh = Inr sh'" "es_Height e = h" by simp_all
  with applyEonStarted_inv [OF inv] show ?thesis by blast
next
  case (EvDecryptionSignature e)
  with r have sh': "sh' = sh \<lparr> sh_Batches := (sh_Batches sh)(ds_BatchIndex e \<mapsto>
     (batch_data sh (ds_BatchIndex e)) \<lparr> bd_DecryptionSignatures :=
        bd_DecryptionSignatures (batch_data sh (ds_BatchIndex e)) @ [e] \<rparr>) \<rparr>"
    by (simp add: applyDecryptionSignature_eq)
  from inv batch_data_inv [OF inv] show ?thesis
    unfolding sh' sh_inv_def by (auto split: if_split_asm)
next
  case (EvCheckIn e)
  with r inv show ?thesis by (auto simp: applyCheckIn_def sh_inv_def)
next
  case (EvBatchConfig e)
  with r inv show ?thesis by (auto simp: applyBatchConfig_def sh_inv_def)
next
  case (EvPolyCommitment e)
  with r h have "append_to_eon (pc_Eon e) (\<lambda>eon. eon \<lparr> eo_Commitments := eo_Commitments eon @ [e] \<rparr>) sh = Inr sh'"
    by (simp add: applyPolyCommitment_def)
  then show ?thesis
    by (rule append_to_eon_inv [OF inv]) (use EvPolyCommitment h in \<open>auto simp: eon_ok_def ordered_events_snoc\<close>)
next
  case (EvPolyEval e)
  with r h have "append_to_eon (pe_Eon e) (\<lambda>eon. eon \<lparr> eo_PolyEvals := eo_PolyEvals eon @ [e] \<rparr>) sh = Inr sh'"
    by (simp add: applyPolyEval_def)
  then show ?thesis
    by (rule append_to_eon_inv [OF inv]) (use EvPolyEval h in \<open>auto simp: eon_ok_def ordered_events_snoc\<close>)
next
  case (EvAccusation e)
  with r h have "append_to_eon (acc_Eon e) (\<lambda>eon. eon \<lparr> eo_Accusations := eo_Accusations eon @ [e] \<rparr>) sh = Inr sh'"
    by (simp add: applyAccusation_def)
  then show ?thesis
    by (rule append_to_eon_inv [OF inv]) (use EvAccusation h in \<open>auto simp: eon_ok_def ordered_events_snoc\<close>)
next
  case (EvApology e)
  with r h have "append_to_eon (apo_Eon e) (\<lambda>eon. eon \<lparr> eo_Apologies := eo_Apologies eon @ [e] \<rparr>) sh = Inr sh'"
    by (simp add: applyApology_def)
  then show ?thesis
    by (rule append_to_eon_inv [OF inv]) (use EvApology h in \<open>auto simp: eon_ok_def ordered_events_snoc\<close>)
next
  case (EvEpochSecretKeyShare e)
  with r h have "append_to_eon (sks_Eon e)
      (\<lambda>eon. eon \<lparr> eo_EpochSecretKeyShares := eo_EpochSecretKeyShares eon @ [e] \<rparr>) sh = Inr sh'"
    by (simp add: applyEpochSecretKeyShare_def)
  then show ?thesis
    by (rule append_to_eon_inv [OF inv]) (use EvEpochSecretKeyShare h in \<open>auto simp: eon_ok_def ordered_events_snoc\<close>)
qed

lemma applyEvent_inv: "sh_inv h sh \<Longrightarrow> event_height ev = h \<Longrightarrow> sh_inv h (applyEvent ev sh)"
  using apply_to_inv by (auto simp: applyEvent_def split: sum.split)

lemma applyTxEvents_inv: "sh_inv h sh \<Longrightarrow> sh_inv h (applyTxEvents B E h evs sh)"
proof (induction evs arbitrary: sh)
  case (Cons ev evs)
  show ?case
  proof (cases "MakeEvent B E ev h")
    case (Inl err)
    with Cons show ?thesis by simp
  next
    case (Inr x)
    have "sh_inv h (applyEvent x sh)" by (rule applyEvent_inv [OF Cons.prems MakeEvent_height [OF Inr]])
    then have "sh_inv h (applyTxEvents B E h evs (applyEvent x sh))" by (rule Cons.IH)
    with Inr show ?thesis by simp
  qed
qed simp

text \<open>Transactions in the order of their heights, all of them from \<open>h\<close> on and not after \<open>h'\<close>.\<close>

lemma apply_txs_inv:
  "sh_inv h sh \<Longrightarrow> sorted (map (\<lambda>tx. sint (tx_Height tx)) txs) \<Longrightarrow>
   (\<forall>tx\<in>set txs. sint h \<le> sint (tx_Height tx) \<and> sint (tx_Height tx) \<le> sint h') \<Longrightarrow> sint h \<le> sint h' \<Longrightarrow>
   sh_inv h' (apply_txs B E txs sh)"
proof (induction txs arbitrary: sh h)
  case Nil
  then show ?case using sh_inv_mono by (simp add: apply_txs_def)
next
  case (Cons tx txs)
  let ?sh = "applyTxEvents B E (tx_Height tx) (tx_Events tx) sh"
  have "sh_inv (tx_Height tx) sh" by (rule sh_inv_mono [OF Cons.prems(1)]) (use Cons.prems(3) in simp)
  then have "sh_inv (tx_Height tx) ?sh" by (rule applyTxEvents_inv)
  then have "sh_inv h' (apply_txs B E txs ?sh)" by (rule Cons.IH) (use Cons.prems in auto)
  then show ?case by (simp add: apply_txs_def)
qed

section \<open>Reading the chain applies every event once\<close>

text \<open>
  The documented behaviour of \<open>TxSearch\<close>: the transactions of the chain with a height in the given
  bounds, in the order of the chain, cut into pages of the given size counted from 1.
\<close>

definition in_range :: "int \<Rightarrow> int \<Rightarrow> tm_tx list \<Rightarrow> tm_tx list" where
  "in_range a b chain = filter (\<lambda>tx. a < sint (tx_Height tx) \<and> sint (tx_Height tx) \<le> b) chain"

definition page_of :: "nat \<Rightarrow> nat \<Rightarrow> 'a list \<Rightarrow> 'a list" where
  "page_of page n xs = take n (drop ((page - 1) * n) xs)"

definition node_serves :: "tm_client \<Rightarrow> tm_tx list \<Rightarrow> bool" where
  "node_serves C chain \<longleftrightarrow> sorted (map (\<lambda>tx. sint (tx_Height tx)) chain) \<and>
     (\<forall>lo hi page. 1 \<le> page \<longrightarrow> TxSearch C lo hi page perPage = Inr
       \<lparr> tr_Txs = page_of page perPage (in_range (sint lo - 1) (sint hi) chain),
         tr_TotalCount = int (length (in_range (sint lo - 1) (sint hi) chain)) \<rparr>)"

lemma node_servesD:
  "node_serves C chain \<Longrightarrow> 1 \<le> page \<Longrightarrow> TxSearch C lo hi page perPage = Inr
     \<lparr> tr_Txs = page_of page perPage (in_range (sint lo - 1) (sint hi) chain),
       tr_TotalCount = int (length (in_range (sint lo - 1) (sint hi) chain)) \<rparr>"
  by (simp add: node_serves_def)

lemma apply_txs_append: "apply_txs B E (xs @ ys) sh = apply_txs B E ys (apply_txs B E xs sh)"
  by (simp add: apply_txs_def)

lemma apply_txs_Nil [simp]: "apply_txs B E [] sh = sh"
  by (simp add: apply_txs_def)

lemma apply_next_page:
  "apply_txs B E (page_of (k + 1) n xs) (apply_txs B E (take (k * n) xs) sh) = apply_txs B E (take ((k + 1) * n) xs) sh"
proof -
  have "take ((k + 1) * n) xs = take (k * n) xs @ take n (drop (k * n) xs)"
    by (simp add: take_add [symmetric] add.commute)
  then show ?thesis by (simp add: page_of_def apply_txs_append)
qed

lemma fetch_pages_all:
  assumes "node_serves C chain" and "txs = in_range (sint lo - 1) (sint height) chain"
    and "k = 0 \<or> k * perPage < length txs"
  shows "fetch_pages B E C lo height target (k + 1) (k * perPage) cloned (apply_txs B E (take (k * perPage) txs) sh)
    = Some (Inr (\<not> cloned \<and> txs = [] \<and> height = target, apply_txs B E txs sh))"
  using assms(3)
proof (induction "length txs - k * perPage" arbitrary: k cloned rule: less_induct)
  case less
  let ?sh = "apply_txs B E (take (k * perPage) txs) sh"
  have search: "TxSearch C lo height (k + 1) perPage =
      Inr \<lparr> tr_Txs = page_of (k + 1) perPage txs, tr_TotalCount = int (length txs) \<rparr>"
    using node_servesD [OF assms(1), of "k + 1" lo height] assms(2) by simp
  show ?case
  proof (cases "txs = []")
    case True
    with less.prems have "k = 0" by simp
    with True search show ?thesis by (subst fetch_pages.simps) (simp add: page_of_def)
  next
    case False
    have kl: "k * perPage < length txs" using less.prems False by auto
    have next_page: "apply_txs B E (page_of (k + 1) perPage txs) ?sh = apply_txs B E (take ((k + 1) * perPage) txs) sh"
      by (rule apply_next_page)
    show ?thesis
    proof (cases "length txs \<le> (k + 1) * perPage")
      case True
      have "k * perPage + length (page_of (k + 1) perPage txs) = length txs"
        using True kl by (simp add: page_of_def)
      moreover have "int (length txs) \<le> int ((k + 1) * perPage)" using True by linarith
      moreover have "take ((k + 1) * perPage) txs = txs" using True by simp
      ultimately show ?thesis using False search next_page
        by (subst fetch_pages.simps) (simp add: Let_def del: of_nat_mult of_nat_add)
    next
      case more: False
      have "fetch_pages B E C lo height target ((k + 1) + 1) ((k + 1) * perPage) True
          (apply_txs B E (take ((k + 1) * perPage) txs) sh)
        = Some (Inr (\<not> True \<and> txs = [] \<and> height = target, apply_txs B E txs sh))"
        by (rule less.hyps) (use more kl in \<open>auto simp: perPage_def\<close>)
      moreover have "k * perPage + length (page_of (k + 1) perPage txs) = (k + 1) * perPage"
        using more by (simp add: page_of_def)
      moreover have "\<not> int (length txs) \<le> int ((k + 1) * perPage)" using more by linarith
      ultimately show ?thesis using False search next_page
        by (subst fetch_pages.simps) (simp add: add.commute del: of_nat_mult of_nat_add)
    qed
  qed
qed

lemma sint_add_u64:
  "- (2 ^ 63) \<le> sint (a :: i64) + sint b \<Longrightarrow> sint a + sint b < 2 ^ 63 \<Longrightarrow> sint (a + b) = sint a + sint b"
  by (simp add: sint_word_ariths signed_take_bit_int_eq_self)

lemma in_range_append:
  "sorted (map (\<lambda>tx. sint (tx_Height tx)) chain) \<Longrightarrow> a \<le> b \<Longrightarrow> b \<le> c \<Longrightarrow>
   in_range a b chain @ in_range b c chain = in_range a c chain"
proof (induction chain)
  case (Cons tx chain)
  show ?case
  proof (cases "sint (tx_Height tx) \<le> b")
    case True
    with Cons show ?thesis by (auto simp: in_range_def)
  next
    case False
    with Cons.prems have "\<forall>t\<in>set (tx # chain). \<not> sint (tx_Height t) \<le> b" by auto
    then have "in_range a b (tx # chain) = []" by (simp add: in_range_def)
    moreover have "in_range b c (tx # chain) = in_range a c (tx # chain)"
      unfolding in_range_def by (rule filter_cong [OF refl])
        (use \<open>\<forall>t\<in>set (tx # chain). \<not> sint (tx_Height t) \<le> b\<close> Cons.prems(2) in fastforce)
    ultimately show ?thesis by simp
  qed
qed (simp add: in_range_def)

lemma fetch_heights_all:
  assumes C: "node_serves C chain" and t: "sint targetHeight < 2 ^ 62"
    and cur: "- 1 \<le> sint cur" "sint cur \<le> sint targetHeight"
  shows "fetch_heights B E C targetHeight cur cloned sh =
    Some (Inr (apply_txs B E (in_range (sint cur) (sint targetHeight) chain) sh))"
  using cur
proof (induction "nat (sint targetHeight - sint cur)" arbitrary: cur cloned sh rule: less_induct)
  case less
  define height where "height = (if sint (cur + perQuery) > sint targetHeight then targetHeight else cur + perQuery)"
  let ?txs = "in_range (sint cur) (sint height) chain"
  have q: "sint (cur + perQuery) = sint cur + 500"
    using less.prems t by (subst sint_add_u64) (simp_all add: perQuery_def)
  have one: "sint (cur + 1) - 1 = sint cur"
    using less.prems t by (subst sint_add_u64) simp_all
  have h: "sint cur \<le> sint height" "sint height \<le> sint targetHeight"
    "height \<noteq> targetHeight \<Longrightarrow> sint height = sint cur + 500"
    using q less.prems by (auto simp: height_def split: if_splits)
  have pages: "fetch_pages B E C (cur + 1) height targetHeight 1 0 cloned sh =
      Some (Inr (\<not> cloned \<and> ?txs = [] \<and> height = targetHeight, apply_txs B E ?txs sh))"
    using fetch_pages_all [OF C, of ?txs "cur + 1" height 0 B E targetHeight cloned sh] by (simp add: one)
  have step: "fetch_heights B E C targetHeight cur cloned sh =
      (if height = targetHeight then Some (Inr (apply_txs B E ?txs sh))
       else fetch_heights B E C targetHeight height True (apply_txs B E ?txs sh))"
    by (subst fetch_heights.simps, unfold Let_def height_def [symmetric] pages) simp
  show ?case
  proof (cases "height = targetHeight")
    case True
    then show ?thesis by (simp add: step)
  next
    case False
    have "sint height \<noteq> sint targetHeight" using False by (metis signed_word_eqI)
    with h have "fetch_heights B E C targetHeight height True (apply_txs B E ?txs sh) =
        Some (Inr (apply_txs B E (in_range (sint height) (sint targetHeight) chain) (apply_txs B E ?txs sh)))"
      by (intro less.hyps) (use False less.prems in simp_all)
    moreover have "?txs @ in_range (sint height) (sint targetHeight) chain =
        in_range (sint cur) (sint targetHeight) chain"
      by (rule in_range_append [OF _ h(1,2)]) (use C in \<open>simp add: node_serves_def\<close>)
    ultimately show ?thesis by (simp add: step False apply_txs_append [symmetric])
  qed
qed

lemma fetchAndApplyEvents_all:
  assumes "node_serves C chain" "sint targetHeight < 2 ^ 62"
    "- 1 \<le> sint (sh_CurrentBlock sh)" "sint (sh_CurrentBlock sh) \<le> sint targetHeight"
  shows "fetchAndApplyEvents B E C targetHeight sh =
    Some (Inr (apply_txs B E (in_range (sint (sh_CurrentBlock sh)) (sint targetHeight) chain) sh))"
  using assms fetch_heights_all [OF assms] by (simp add: fetchAndApplyEvents_def)

section \<open>What a filter keeps\<close>

lemma filter_later:
  "h \<le> (h' :: int) \<Longrightarrow> filter (\<lambda>e. h' \<le> f e) (filter (\<lambda>e. h \<le> f e) evs) = filter (\<lambda>e. h' \<le> f e) evs"
  by (induction evs) auto

lemmas eon_accessors = GetPolyCommitments_def GetPolyEvals_def GetAccusations_def GetApologies_def
  GetEpochSecretKeyShares_def

lemma eon_ok_sorted:
  assumes "eon_ok h eo"
  shows "height_sorted pc_Height (eo_Commitments eo)" "height_sorted pe_Height (eo_PolyEvals eo)"
    "height_sorted acc_Height (eo_Accusations eo)" "height_sorted apo_Height (eo_Apologies eo)"
    "height_sorted sks_Height (eo_EpochSecretKeyShares eo)"
  using assms by (simp_all add: eon_ok_def ordered_events_def)

lemma Eon_ApplyFilter_eq:
  assumes "eon_ok h eo"
  shows "Eon_ApplyFilter f eo = eo
    \<lparr> eo_Commitments := filter (\<lambda>e. sint f \<le> sint (pc_Height e)) (eo_Commitments eo),
      eo_PolyEvals := filter (\<lambda>e. sint f \<le> sint (pe_Height e)) (eo_PolyEvals eo),
      eo_Accusations := filter (\<lambda>e. sint f \<le> sint (acc_Height e)) (eo_Accusations eo),
      eo_Apologies := filter (\<lambda>e. sint f \<le> sint (apo_Height e)) (eo_Apologies eo),
      eo_EpochSecretKeyShares := [] \<rparr>"
  by (simp add: Eon_ApplyFilter_def eon_accessors events_from_filter eon_ok_sorted [OF assms])

lemma Eon_ApplyFilter_ok: "eon_ok h eo \<Longrightarrow> eon_ok h (Eon_ApplyFilter f eo)"
  by (subst Eon_ApplyFilter_eq, assumption) (auto simp: eon_ok_def ordered_events_filter)

lemma filtered_accessors:
  assumes "eon_ok h eo" "sint f \<le> sint s"
  shows "GetPolyCommitments (Eon_ApplyFilter f eo) s = GetPolyCommitments eo s"
    "GetPolyEvals (Eon_ApplyFilter f eo) s = GetPolyEvals eo s"
    "GetAccusations (Eon_ApplyFilter f eo) s = GetAccusations eo s"
    "GetApologies (Eon_ApplyFilter f eo) s = GetApologies eo s"
  using assms by (simp_all add: Eon_ApplyFilter_eq eon_accessors events_from_filter eon_ok_sorted
      height_sorted_filter filter_later del: filter_filter)

lemma filtered_shares: "GetEpochSecretKeyShares (Eon_ApplyFilter f eo) s = []"
  by (simp add: Eon_ApplyFilter_def GetEpochSecretKeyShares_def events_from_def Let_def)

lemma ApplyFilter_simps:
  "sh_Eons (ApplyFilter flt sh) =
     (if NeedsUpdate (sh_Filter sh) flt then map (Eon_ApplyFilter (flt_SyncHeight flt)) (sh_Eons sh) else sh_Eons sh)"
  "sh_Batches (ApplyFilter flt sh) b =
     (if NeedsUpdate (sh_Filter sh) flt \<and> b < flt_BatchIndex flt then None else sh_Batches sh b)"
  "sh_BatchConfigs (ApplyFilter flt sh) = sh_BatchConfigs sh"
  "sh_KeyperEncryptionKeys (ApplyFilter flt sh) = sh_KeyperEncryptionKeys sh"
  "sh_CurrentBlock (ApplyFilter flt sh) = sh_CurrentBlock sh"
  by (auto simp: ApplyFilter_def filterBatchIndex_def filterSyncHeight_def)

lemma ApplyFilter_inv:
  assumes "sh_inv h sh"
  shows "sh_inv h (ApplyFilter flt sh)"
proof -
  have "map eo_Eon (map (Eon_ApplyFilter f) (sh_Eons sh)) = map eo_Eon (sh_Eons sh)" for f
    by (simp add: Eon_ApplyFilter_def)
  then show ?thesis using assms
    by (auto simp: sh_inv_def ApplyFilter_simps Eon_ApplyFilter_ok simp del: map_map split: if_split_asm)
qed

text \<open>The position of an eon does not depend on the filter.\<close>

lemma ApplyFilter_FindEon:
  assumes "sh_inv h sh"
  shows "FindEon (ApplyFilter flt sh) n = Inr i \<longleftrightarrow> FindEon sh n = Inr i"
proof -
  have "length (sh_Eons (ApplyFilter flt sh)) = length (sh_Eons sh)" by (simp add: ApplyFilter_simps)
  moreover have "i < length (sh_Eons sh) \<Longrightarrow> eo_Eon (sh_Eons (ApplyFilter flt sh) ! i) = eo_Eon (sh_Eons sh ! i)"
    by (simp add: ApplyFilter_simps Eon_ApplyFilter_def)
  ultimately show ?thesis
    using assms ApplyFilter_inv [OF assms, of flt] by (auto simp: FindEon_Inr_iff sh_inv_def)
qed

section \<open>The signatures for an appeal\<close>

lemma GetSorted_result:
  assumes "GetSortedDecryptionSignaturesWithIndices b sh = (Inr (sigs, indices), sh')"
  obtains config where "FindBatchConfigByBatchIndex sh b = Inr config"
    "length sigs = length indices" "sorted indices"
    "length sigs = length (bd_DecryptionSignatures (batch_data sh b))"
    "\<forall>j<length sigs. \<exists>ev\<in>set (bd_DecryptionSignatures (batch_data sh b)).
       ds_Signature ev = sigs ! j \<and> KeyperIndex config (ds_Sender ev) = Some (indices ! j)"
proof -
  let ?evs = "bd_DecryptionSignatures (batch_data sh b)"
  from assms obtain config where c: "FindBatchConfigByBatchIndex sh b = Inr config"
    by (auto simp: GetSortedDecryptionSignaturesWithIndices_def split: sum.splits)
  let ?f = "\<lambda>ev. case KeyperIndex config (ds_Sender ev) of None \<Rightarrow> Inl (Errorf ''signer not a keyper in batch'')
      | Some keyperIndex \<Rightarrow> Inr (ds_Signature ev, keyperIndex)"
  from assms c obtain xs where xs: "collect ?f ?evs = Inr xs"
    "sigs = map fst (sort_key snd xs)" "indices = map snd (sort_key snd xs)"
    by (auto simp: GetSortedDecryptionSignaturesWithIndices_def batch_data_def Let_def result_bind_Inr_iff
        split: prod.splits)
  have "length xs = length ?evs" using xs(1) by (rule collect_length)
  moreover have "\<forall>x\<in>set xs. \<exists>ev\<in>set ?evs. ?f ev = Inr x"
    using xs(1) by (auto simp: collect_Inr_iff list_all2_conv_all_nth set_conv_nth)
  then have "\<forall>x\<in>set xs. \<exists>ev\<in>set ?evs. ds_Signature ev = fst x \<and> KeyperIndex config (ds_Sender ev) = Some (snd x)"
    by (fastforce split: option.splits)
  then have "\<forall>j<length (sort_key snd xs). \<exists>ev\<in>set ?evs. ds_Signature ev = fst (sort_key snd xs ! j) \<and>
      KeyperIndex config (ds_Sender ev) = Some (snd (sort_key snd xs ! j))"
    by (metis nth_mem set_sort)
  ultimately show thesis using that [OF c] xs(2,3) by simp
qed

end
