(* ===== verification/DecideFacts.thy ===== *)
theory DecideFacts
  imports Decide ResultRules ObserveFacts
begin

text \<open>
  What the handlers of the decider leave alone. Most of them only add actions, change fields of the state
  that count what was done, or add an empty batch to the shielder: the locale \<open>decider_invariant\<close> says what
  such a handler may do, and every property closed under it is kept by all of them. \<open>dec_frame\<close> is one such
  property; the handlers of the key generations, which do more, keep it as well.
\<close>

named_theorems frame_intros \<open>rules for the handlers of the decider\<close>

section \<open>Harmless changes\<close>

text \<open>The decider only adds empty batches to the shielder.\<close>

definition same_shielder :: "('g1, 'g2, 'ek) Shielder \<Rightarrow> ('g1, 'g2, 'ek) Shielder \<Rightarrow> bool" where
  "same_shielder sh sh' \<longleftrightarrow>
     (\<exists>batches. sh' = sh \<lparr> sh_Batches := batches \<rparr>) \<and> (\<forall>i. batch_data sh' i = batch_data sh i)"

lemma same_shielder_refl [simp, intro]: "same_shielder sh sh"
  by (auto simp: same_shielder_def intro: exI [of _ "sh_Batches sh"])

lemma same_shielder_trans: "same_shielder a b \<Longrightarrow> same_shielder b c \<Longrightarrow> same_shielder a c"
  by (auto simp: same_shielder_def)

lemma same_shielder_fields:
  assumes "same_shielder sh sh'"
  shows "sh_Eons sh' = sh_Eons sh" "sh_BatchConfigs sh' = sh_BatchConfigs sh" "sh_Filter sh' = sh_Filter sh"
    "sh_CurrentBlock sh' = sh_CurrentBlock sh" "sh_NodeStatus sh' = sh_NodeStatus sh"
    "sh_KeyperEncryptionKeys sh' = sh_KeyperEncryptionKeys sh" "batch_data sh' i = batch_data sh i"
  using assms by (auto simp: same_shielder_def)

lemma same_shielder_inv: "sh_inv h sh \<Longrightarrow> same_shielder sh sh' \<Longrightarrow> sh_inv h sh'"
  using batch_data_inv [of h sh] batch_data_simps(1) [of sh']
  by (auto simp: sh_inv_def same_shielder_fields) metis+

definition harmless :: "('g1, 'g2) State \<Rightarrow> ('g1, 'g2) State \<Rightarrow> bool" where
  "harmless st st' \<longleftrightarrow>
     st_ActionCounter st' = st_ActionCounter st \<and> st_Actions st' = st_Actions st \<and>
     st_DKGs st' = st_DKGs st \<and> st_LastEonStarted st' = st_LastEonStarted st \<and>
     map ek_Eon (st_EKGs st') = map ek_Eon (st_EKGs st)"

lemma harmless_refl [simp]: "harmless st st"
  by (simp add: harmless_def)

lemma harmless_trans: "harmless a b \<Longrightarrow> harmless b c \<Longrightarrow> harmless a c"
  by (simp add: harmless_def)

lemma getBatchData_same: "same_shielder sh (snd (getBatchData i sh))"
proof (cases "sh_Batches sh i")
  case None
  then have "batch_data (snd (getBatchData i sh)) j = batch_data sh j" for j
    by (cases "j = i") (simp_all add: getBatchData_def Let_def batch_data_simps)
  with None show ?thesis by (auto simp: same_shielder_def getBatchData_def Let_def)
qed (simp add: getBatchData_def)

lemma GetSorted_same: "same_shielder sh (snd (GetSortedDecryptionSignaturesWithIndices i sh))"
  using getBatchData_same [of sh i]
  by (auto simp: GetSortedDecryptionSignaturesWithIndices_def Let_def split: sum.splits prod.splits)

text \<open>\<open>sendDecryptionSignature\<close> and \<open>decryptTransactions\<close> do not touch the epoch key generations.\<close>

lemma put_Batch_EKGs [simp]: "st_EKGs (dc_State (put_Batch i b d)) = st_EKGs (dc_State d)"
  by (simp add: put_Batch_def set_state_def)

lemma send_state [simp]: "dc_State (sendShielderMessage s m d) = dc_State d"
  by (simp add: sendShielderMessage_def addAction_def)

definition same_EKGs :: "('g1, 'g2, 'sk, 'ek, 'dk) Decider \<Rightarrow> ('g1, 'g2, 'sk, 'ek, 'dk) Decider \<Rightarrow> bool" where
  "same_EKGs d d' \<longleftrightarrow> st_EKGs (dc_State d') = st_EKGs (dc_State d)"

lemma decryptTransactions_EKGs: "post (decryptTransactions R B E key epoch d) (same_EKGs d)"
  unfolding decryptTransactions_def same_EKGs_def by (rule post_rules | simp)+

lemma sendDecryptionSignature_EKGs: "post (sendDecryptionSignature E epoch d) (same_EKGs d)"
  unfolding sendDecryptionSignature_def same_EKGs_def by (rule post_rules | rule post_any | simp)+

lemma syncShare_EKGs:
  "post (syncShare R B E share (ekg, d)) (\<lambda>(ekg', d'). ek_Eon ekg' = ek_Eon ekg \<and> same_EKGs d d')"
proof -
  have "same_EKGs d d2" if "decryptTransactions R B E key epoch d = Inr d1" "sendDecryptionSignature E epoch d1 = Inr d2"
    for key epoch d1 d2
    using postD [OF decryptTransactions_EKGs that(1)] postD [OF sendDecryptionSignature_EKGs that(2)]
    by (simp add: same_EKGs_def)
  moreover have "same_EKGs d d1" if "decryptTransactions R B E key epoch d = Inr d1" for key epoch d1
    using postD [OF decryptTransactions_EKGs that] .
  ultimately show ?thesis
    by (auto simp: syncShare_def post_def Let_def result_bind_Inr_iff same_EKGs_def
        split: sum.splits if_splits prod.splits option.splits go_error.splits)
qed

lemma syncEKGWithEon_EKGs:
  "post (syncEKGWithEon R B E h ekg eon d) (\<lambda>(ekg', d'). ek_Eon ekg' = ek_Eon ekg \<and> same_EKGs d d')"
  unfolding syncEKGWithEon_def
proof (rule post_loop [where Q = "\<lambda>(ekg', d'). ek_Eon ekg' = ek_Eon ekg \<and> same_EKGs d d'"])
  fix share and s :: "('a, 'b) EKG \<times> ('a, 'b, 'c, 'd, 'e) Decider"
  assume "case s of (ekg', d') \<Rightarrow> ek_Eon ekg' = ek_Eon ekg \<and> same_EKGs d d'"
  then show "post (syncShare R B E share s) (\<lambda>(ekg', d'). ek_Eon ekg' = ek_Eon ekg \<and> same_EKGs d d')"
    by (cases s) (auto intro: post_weaken [OF syncShare_EKGs] simp: same_EKGs_def)
qed (simp_all add: same_EKGs_def)

section \<open>Invariants of the handlers\<close>

locale decider_invariant =
  fixes I :: "('g1, 'g2, 'sk, 'ek, 'dk) Decider \<Rightarrow> bool"
  assumes I_addAction: "I d \<Longrightarrow> I (addAction act d)"
    and I_state: "I d \<Longrightarrow> harmless (dc_State d) st \<Longrightarrow> I (d \<lparr> dc_State := st \<rparr>)"
    and I_shielder: "I d \<Longrightarrow> same_shielder (dc_Shielder d) sh \<Longrightarrow> I (d \<lparr> dc_Shielder := sh \<rparr>)"
begin

lemma I_send [frame_intros]: "I d \<Longrightarrow> I (sendShielderMessage s m d)"
  unfolding sendShielderMessage_def by (rule I_addAction)

lemma I_act [frame_intros]: "I d \<Longrightarrow> I (addAction act d)"
  by (rule I_addAction)

lemma I_set: "(\<And>st. harmless st (f st)) \<Longrightarrow> I d \<Longrightarrow> I (set_state f d)"
  unfolding set_state_def by (rule I_state) simp_all

lemma I_put_Batch [frame_intros]: "I d \<Longrightarrow> I (put_Batch i b d)"
  unfolding put_Batch_def by (rule I_set) (simp_all add: harmless_def)

lemma keeps_maybeSendCheckIn: "I d \<Longrightarrow> I (maybeSendCheckIn E d)"
  unfolding maybeSendCheckIn_def sendCheckIn_def Let_def by (simp add: I_set I_send harmless_def)

lemma keeps_maybeSendBatchConfig: "I d \<Longrightarrow> I (maybeSendBatchConfig E d)"
  unfolding maybeSendBatchConfig_def sendBatchConfig_def Let_def by (simp add: I_set I_send harmless_def)

lemma keeps_decryptTransactions: "I d \<Longrightarrow> post (decryptTransactions R B E key epoch d) I"
  unfolding decryptTransactions_def by (assumption | rule frame_intros post_rules)+

lemmas keeps_decryptTransactions' [frame_intros] = post_weaken [OF keeps_decryptTransactions]

lemma keeps_sendDecryptionSignature: "I d \<Longrightarrow> post (sendDecryptionSignature E epoch d) I"
  unfolding sendDecryptionSignature_def by (assumption | rule frame_intros post_rules | rule post_any)+

lemmas keeps_sendDecryptionSignature' [frame_intros] = post_weaken [OF keeps_sendDecryptionSignature]

lemma keeps_syncShare: "I d \<Longrightarrow> post (syncShare R B E share (ekg, d)) (\<lambda>(x, d'). I d')"
  unfolding syncShare_def
  by (assumption | rule post_case_pair | rule frame_intros post_rules | rule post_any)+

lemma keeps_syncEKGWithEon: "I d \<Longrightarrow> post (syncEKGWithEon R B E h ekg eon d) (\<lambda>(x, d'). I d')"
  unfolding syncEKGWithEon_def
  by (rule post_loop [where Q = "\<lambda>(x, d'). I d'"]) (auto intro: keeps_syncShare)

lemma keeps_syncEKG: "I d \<Longrightarrow> post (syncEKG R B E i d) I"
proof -
  assume I: "I d"
  let ?ekg = "st_EKGs (dc_State d) ! i"
  have "I (set_state (\<lambda>st. st \<lparr> st_EKGs := (st_EKGs st)[i := ekg] \<rparr>) d')"
    if "syncEKGWithEon R B E h ?ekg eon d = Inr (ekg, d')" for h eon ekg d'
  proof -
    have "I d'" using postD [OF keeps_syncEKGWithEon [OF I] that] by simp
    moreover have "ek_Eon ekg = ek_Eon ?ekg" "st_EKGs (dc_State d') = st_EKGs (dc_State d)"
      using postD [OF syncEKGWithEon_EKGs that] by (simp_all add: same_EKGs_def)
    then have "map ek_Eon ((st_EKGs (dc_State d'))[i := ekg]) = map ek_Eon (st_EKGs (dc_State d'))"
      by (cases "i < length (st_EKGs (dc_State d))")
        (simp_all add: map_update list_update_same_conv list_update_beyond)
    ultimately show ?thesis unfolding set_state_def by (intro I_state) (simp_all add: harmless_def)
  qed
  then show ?thesis
    unfolding syncEKG_def must_def Let_def by (auto simp: post_def result_bind_Inr_iff)
qed

lemma keeps_syncEKGs: "I d \<Longrightarrow> post (syncEKGs R B E d) I"
  unfolding syncEKGs_def by (rule post_loop [where Q = I]) (auto intro: keeps_syncEKG)

lemmas keeps_syncEKGs' [frame_intros] = post_weaken [OF keeps_syncEKGs]

lemma keeps_publishEpochSecretKeyShare: "I d \<Longrightarrow> I (publishEpochSecretKeyShare B i d)"
  by (auto simp: publishEpochSecretKeyShare_def sendEpochSecretKeyShare_def Let_def intro: I_send split: sum.splits)

lemma keeps_publishEpochSecretKeyShares: "I d \<Longrightarrow> post (publishEpochSecretKeyShares B d) I"
proof -
  assume I: "I d"
  have loop: "post (loop_result (\<lambda>batchIndex dcdr. result_bind (executionTimeoutReachedOrInactive batchIndex dcdr) (\<lambda>reached.
      Inr (if \<not> reached then publishEpochSecretKeyShare B batchIndex dcdr else dcdr))) xs d) I" for xs
    by (rule post_loop [where Q = I])
      (auto intro: I keeps_publishEpochSecretKeyShare simp: post_def result_bind_Inr_iff)
  show ?thesis
    unfolding publishEpochSecretKeyShares_def Let_def
    by (assumption | rule I | rule post_weaken [OF loop] post_rules | rule I_set, simp add: harmless_def | rule post_any)+
qed

lemma keeps_handleEpochKG: "I d \<Longrightarrow> post (handleEpochKG R B E d) I"
  unfolding handleEpochKG_def
  by (rule post_bind, rule post_weaken [OF keeps_syncEKGs]) (auto intro: keeps_publishEpochSecretKeyShares)

lemma keeps_handleDecryptionSignatures: "I d \<Longrightarrow> post (handleDecryptionSignatures R E d) I"
  unfolding handleDecryptionSignatures_def
  by (rule post_loop [where Q = I], assumption, (assumption | rule frame_intros post_rules | rule post_any)+)

lemma keeps_executeHalfSteps: "I d \<Longrightarrow> post (executeHalfSteps E hs d) I"
proof (induction E hs d rule: executeHalfSteps.induct)
  case (2 E h hs d)
  show ?case unfolding executeHalfSteps.simps
    by (rule post_bind, rule post_any, rule post_case_option)
      (auto intro!: post_Inr 2 I_set I_addAction simp: harmless_def)
qed (simp add: post_def)

lemma keeps_resetPendingHalfStep: "I d \<Longrightarrow> I (resetPendingHalfStep d)"
  by (auto simp: resetPendingHalfStep_def harmless_def intro: I_set split: option.splits)

lemma keeps_maybeExecuteBatch: "I d \<Longrightarrow> post (maybeExecuteBatch E d) I"
  unfolding maybeExecuteBatch_def Let_def
  by (assumption | rule keeps_resetPendingHalfStep keeps_executeHalfSteps post_rules | rule post_any)+

lemma keeps_appeal_one: "I d \<Longrightarrow> post (appeal_one acc d) I"
proof -
  assume I: "I d"
  have sh: "I (d \<lparr> dc_Shielder := sh \<rparr>)"
    if "GetSortedDecryptionSignaturesWithIndices i (dc_Shielder d) = (r, sh)" for i r sh
    using I_shielder [OF I] GetSorted_same [of "dc_Shielder d" i] that by simp
  have pending: "I (set_state (\<lambda>st. st \<lparr> st_PendingAppeals := st_PendingAppeals st @ [h] \<rparr>) d')" if "I d'" for d' h
    by (rule I_set) (simp_all add: harmless_def that)
  show ?thesis
    unfolding appeal_one_def Let_def
    by (assumption | rule I pending | rule frame_intros post_rules | erule sh | rule post_any)+
qed

lemma keeps_maybeAppeal: "I d \<Longrightarrow> post (maybeAppeal R d) I"
  unfolding maybeAppeal_def syncPendingAppeals_def
  by (rule post_loop [where Q = I]) (auto intro: I_set keeps_appeal_one simp: harmless_def)

lemma keeps_accuse_one: "I d \<Longrightarrow> post (accuse_one E h d) I"
  unfolding accuse_one_def Let_def by (assumption | rule frame_intros post_rules | rule post_any)+

lemma keeps_maybeAccuse: "I d \<Longrightarrow> post (maybeAccuse E d) I"
  unfolding maybeAccuse_def
  by (rule post_bind, rule post_loop [where Q = I])
    (auto intro!: post_Inr I_set intro: keeps_accuse_one simp: harmless_def)

text \<open>The handlers of the key generations are left to the property: then \<open>Decide\<close> keeps it.\<close>

lemma keeps_Decide:
  assumes "\<And>d. I d \<Longrightarrow> post (maybeStartDKG E d) I" "\<And>d. I d \<Longrightarrow> post (handleDKGs R B E d) I" "I d"
  shows "post (Decide R B E d) I"
proof -
  have height: "I (set_state (\<lambda>st. st \<lparr> st_SyncHeight := h \<rparr>) d')" if "I d'" for d' h
    by (rule I_set) (simp_all add: harmless_def that)
  show ?thesis
    unfolding Decide_def Let_def
    by (assumption | rule assms(3) height | rule post_weaken [OF assms(1)] post_weaken [OF assms(2)]
        post_weaken [OF keeps_handleEpochKG] post_weaken [OF keeps_handleDecryptionSignatures]
        post_weaken [OF keeps_maybeExecuteBatch] post_weaken [OF keeps_maybeAppeal] post_weaken [OF keeps_maybeAccuse]
        keeps_maybeSendBatchConfig keeps_maybeSendCheckIn post_rules)+
qed

end

section \<open>The frame\<close>

definition dec_frame ::
  "('g1, 'g2, 'sk, 'ek, 'dk) Decider \<Rightarrow> ('g1, 'g2, 'sk, 'ek, 'dk) Decider \<Rightarrow> bool" where
  "dec_frame d d' \<longleftrightarrow>
     dc_Config d' = dc_Config d \<and> dc_MainChain d' = dc_MainChain d \<and> dc_PhaseLength d' = dc_PhaseLength d \<and>
     same_shielder (dc_Shielder d) (dc_Shielder d') \<and> (\<exists>as. dc_Actions d' = dc_Actions d @ as) \<and>
     st_ActionCounter (dc_State d') = st_ActionCounter (dc_State d) \<and>
     st_Actions (dc_State d') = st_Actions (dc_State d)"

lemma dec_frame_refl [simp, intro]: "dec_frame d d"
  by (simp add: dec_frame_def)

lemma dec_frame_trans: "dec_frame a b \<Longrightarrow> dec_frame b c \<Longrightarrow> dec_frame a c"
  unfolding dec_frame_def by (metis append.assoc same_shielder_trans)

interpretation frame: decider_invariant "dec_frame a" for a
proof unfold_locales
  fix d act st sh
  assume a: "dec_frame a d"
  show "dec_frame a (addAction act d)"
    by (rule dec_frame_trans [OF a]) (simp add: dec_frame_def addAction_def)
  show "dec_frame a (d \<lparr> dc_State := st \<rparr>)" if "harmless (dc_State d) st"
    by (rule dec_frame_trans [OF a]) (use that in \<open>simp add: dec_frame_def harmless_def\<close>)
  show "dec_frame a (d \<lparr> dc_Shielder := sh \<rparr>)" if "same_shielder (dc_Shielder d) sh"
    by (rule dec_frame_trans [OF a]) (use that in \<open>simp add: dec_frame_def\<close>)
qed

lemma dec_frame_set_state:
  "(\<And>st. st_ActionCounter (f st) = st_ActionCounter st) \<Longrightarrow> (\<And>st. st_Actions (f st) = st_Actions st) \<Longrightarrow>
   dec_frame a d \<Longrightarrow> dec_frame a (set_state f d)"
  by (erule dec_frame_trans) (simp add: dec_frame_def set_state_def)

declare frame.I_send [frame_intros] frame.I_act [frame_intros]

section \<open>The handlers of the key generations\<close>

lemma frame_startDKG: "dec_frame a d \<Longrightarrow> post (startDKG E eon d) (dec_frame a)"
  unfolding startDKG_def
  by (assumption | rule post_case_pair | rule frame_intros post_rules | rule dec_frame_set_state, simp, simp | rule post_any)+

lemmas frame_startDKG' [frame_intros] = post_weaken [OF frame_startDKG]

lemma frame_maybeStartDKG: "dec_frame a d \<Longrightarrow> post (maybeStartDKG E d) (dec_frame a)"
  unfolding maybeStartDKG_def
  by (rule post_loop [where Q = "dec_frame a"], assumption, (assumption | rule post_case_pair | rule frame_intros post_rules | rule dec_frame_set_state, simp, simp | rule post_any)+)

lemmas frame_maybeStartDKG' [frame_intros] = post_weaken [OF frame_maybeStartDKG]

lemma frame_sendPolyEvals: "dec_frame a d \<Longrightarrow> post (sendPolyEvals R E dkg d) (\<lambda>(x, d'). dec_frame a d')"
  unfolding sendPolyEvals_def
  by (assumption | rule post_case_pair | rule frame_intros post_rules | rule dec_frame_set_state, simp, simp | rule post_any)+

lemmas frame_sendPolyEvals' [frame_intros] = post_weaken_pair [OF frame_sendPolyEvals]

lemma frame_startPhase1Dealing: "dec_frame a d \<Longrightarrow> post (startPhase1Dealing R B p dkg d) (\<lambda>(x, d'). dec_frame a d')"
  unfolding startPhase1Dealing_def
  by (assumption | rule post_case_pair | rule frame_intros post_rules | rule dec_frame_set_state, simp, simp | rule post_any)+

lemmas frame_startPhase1Dealing' [frame_intros] = post_weaken_pair [OF frame_startPhase1Dealing]

lemma frame_startPhase2Accusing: "dec_frame a d \<Longrightarrow> post (startPhase2Accusing B E p dkg d) (\<lambda>(x, d'). dec_frame a d')"
  unfolding startPhase2Accusing_def
  by (assumption | rule post_case_pair | rule frame_intros post_rules | rule dec_frame_set_state, simp, simp | rule post_any)+

lemmas frame_startPhase2Accusing' [frame_intros] = post_weaken_pair [OF frame_startPhase2Accusing]

lemma frame_startPhase3Apologizing: "dec_frame a d \<Longrightarrow> post (startPhase3Apologizing R B E p dkg d) (\<lambda>(x, d'). dec_frame a d')"
  unfolding startPhase3Apologizing_def
  by (assumption | rule post_case_pair | rule frame_intros post_rules | rule dec_frame_set_state, simp, simp | rule post_any)+

lemmas frame_startPhase3Apologizing' [frame_intros] = post_weaken_pair [OF frame_startPhase3Apologizing]

lemma frame_dkgFinalize: "dec_frame a d \<Longrightarrow> post (dkgFinalize R B dkg d) (\<lambda>(x, d'). dec_frame a d')"
  unfolding dkgFinalize_def broadcastEonPublicKey_def
  by (assumption | rule post_case_pair | rule frame_intros post_rules | rule dec_frame_set_state, simp, simp | rule post_any)+

lemmas frame_dkgFinalize' [frame_intros] = post_weaken_pair [OF frame_dkgFinalize]

lemma frame_phase_turn [frame_intros]:
  "dec_frame a d \<Longrightarrow> post (start dkg d) (\<lambda>(x, d'). dec_frame a d') \<Longrightarrow> (\<And>x d'. dec_frame a d' \<Longrightarrow> P (x, d')) \<Longrightarrow>
   post (phase_turn p q n start dkg d) P"
  by (auto simp: phase_turn_def post_def)

lemma frame_syncDKGWithEon: "dec_frame a d \<Longrightarrow> post (syncDKGWithEon R B E eon dkg d) (\<lambda>(x, d'). dec_frame a d')"
  unfolding syncDKGWithEon_def
  by (assumption | rule post_case_pair | rule frame_intros post_rules | rule dec_frame_set_state, simp, simp | rule post_any)+

lemmas frame_syncDKGWithEon' [frame_intros] = post_weaken_pair [OF frame_syncDKGWithEon]

lemma frame_handleDKG: "dec_frame a d \<Longrightarrow> post (handleDKG R B E i d) (dec_frame a)"
  unfolding handleDKG_def must_def
  by (assumption | rule post_case_pair | rule frame_intros post_rules | rule dec_frame_set_state, simp, simp | rule post_any)+

lemmas frame_handleDKG' [frame_intros] = post_weaken [OF frame_handleDKG]

lemma frame_handleDKGs: "dec_frame a d \<Longrightarrow> post (handleDKGs R B E d) (dec_frame a)"
  unfolding handleDKGs_def
  by (rule post_loop [where Q = "dec_frame a"], assumption, (assumption | rule post_case_pair | rule frame_intros post_rules | rule dec_frame_set_state, simp, simp | rule post_any)+)

lemma frame_Decide: "post (Decide R B E d) (dec_frame d)"
  by (rule frame.keeps_Decide [OF frame_maybeStartDKG frame_handleDKGs dec_frame_refl])

end
