(* ===== verification/DecideDKGFacts.thy ===== *)
theory DecideDKGFacts
  imports DecideFacts DKGRun ObserveFacts
begin

text \<open>
  The decider and the key generations: whatever the decider does to a key generation is a run of the
  operations of \<open>puredkg\<close>, so that its invariants hold of every key generation in the keyper's state; and
  every key generation belongs to an eon of the shielder, so that looking it up does not stop the keyper.
\<close>

named_theorems evolve_intros \<open>handlers only run operations of the key generation\<close>

section \<open>Runs\<close>

definition dkg_evolves :: "('g1, 'g2, 'gt) bn256 \<Rightarrow> 'g2 DKG \<Rightarrow> 'g2 DKG \<Rightarrow> bool" where
  "dkg_evolves B a b \<longleftrightarrow> dkg_run B (dg_Pure a) (dg_Pure b) \<and> dg_Eon b = dg_Eon a \<and> dg_Keypers b = dg_Keypers a \<and>
     dg_StartBatchIndex b = dg_StartBatchIndex a \<and> dg_PhaseLength b = dg_PhaseLength a"

lemma evolves_refl [simp, intro]: "dkg_evolves B a a"
  by (simp add: dkg_evolves_def dkg_run_refl)

lemma evolves_pure [evolve_intros]:
  "dkg_step B (dg_Pure dkg) pure \<Longrightarrow> dkg_evolves B a dkg \<Longrightarrow> dkg_evolves B a (dkg \<lparr> dg_Pure := pure \<rparr>)"
  by (auto simp: dkg_evolves_def intro: dkg_run_step)

lemma evolves_outgoing [evolve_intros]:
  "dkg_evolves B a dkg \<Longrightarrow> dkg_evolves B a (dkg \<lparr> dg_OutgoingPolyEvalMsgs := msgs \<rparr>)"
  by (simp add: dkg_evolves_def)

lemma evolves_on_pure:
  assumes "dkg_evolves B a dkg" "\<And>pure pure'. f pure = Inr pure' \<Longrightarrow> dkg_step B pure pure'"
  shows "post (on_pure f dkg) (dkg_evolves B a)"
  unfolding on_pure_def logged_def
  by (rule post_rules assms(1) post_any | auto intro: evolves_pure assms)+

lemma evolves_syncCommitments:
  "dkg_evolves B a dkg \<Longrightarrow> post (syncCommitments h eon dkg) (dkg_evolves B a)"
  unfolding syncCommitments_def
  by (rule post_loop [where Q = "dkg_evolves B a"], assumption,
      (assumption | rule post_rules evolves_on_pure | erule dkg_step.poly_commitment)+)

lemma evolves_syncPolyEval:
  "dkg_evolves B a dkg \<Longrightarrow> post (syncPolyEval B decrypt eval sender x dkg) (dkg_evolves B a)"
  unfolding syncPolyEval_def
  by (assumption | rule post_rules evolves_on_pure | erule dkg_step.poly_eval | rule post_any)+

lemma evolves_syncPolyEvals:
  "dkg_evolves B a dkg \<Longrightarrow> post (syncPolyEvals B h eon decrypt dkg) (dkg_evolves B a)"
  unfolding syncPolyEvals_def
  by (rule post_loop [where Q = "dkg_evolves B a"], assumption,
      (assumption | rule post_loop [where Q = "dkg_evolves B a"] post_rules evolves_syncPolyEval)+)

lemma evolves_syncAccusations:
  "dkg_evolves B a dkg \<Longrightarrow> post (syncAccusations h eon dkg) (dkg_evolves B a)"
  unfolding syncAccusations_def
  by (rule post_loop [where Q = "dkg_evolves B a"], assumption,
      (assumption | rule post_loop [where Q = "dkg_evolves B a"] post_rules evolves_on_pure | erule dkg_step.accusation)+)

lemma evolves_syncApologies:
  "dkg_evolves B a dkg \<Longrightarrow> post (syncApologies B h eon dkg) (dkg_evolves B a)"
  unfolding syncApologies_def
  by (rule post_loop [where Q = "dkg_evolves B a"], assumption,
      (assumption | rule post_loop [where Q = "dkg_evolves B a"] post_rules evolves_on_pure
        | erule dkg_step.apology | rule post_any)+)

text \<open>What handling one key generation does to the rest of the state: at most an epoch key generation more.\<close>

definition dkg_effect ::
  "u64 \<Rightarrow> ('g1, 'g2, 'sk, 'ek, 'dk) Decider \<Rightarrow> ('g1, 'g2, 'sk, 'ek, 'dk) Decider \<Rightarrow> bool" where
  "dkg_effect eon d d' \<longleftrightarrow> dc_Shielder d' = dc_Shielder d \<and> st_DKGs (dc_State d') = st_DKGs (dc_State d) \<and>
     st_LastEonStarted (dc_State d') = st_LastEonStarted (dc_State d) \<and>
     (\<exists>new. st_EKGs (dc_State d') = st_EKGs (dc_State d) @ new \<and> (\<forall>ekg\<in>set new. ek_Eon ekg = eon))"

lemma dkg_effect_refl [simp]: "dkg_effect e d d"
  by (simp add: dkg_effect_def)

lemma dkg_effect_trans:
  assumes "dkg_effect e a b" "dkg_effect e b c"
  shows "dkg_effect e a c"
proof -
  obtain new1 new2 where "st_EKGs (dc_State b) = st_EKGs (dc_State a) @ new1" "\<forall>ekg\<in>set new1. ek_Eon ekg = e"
    "st_EKGs (dc_State c) = st_EKGs (dc_State b) @ new2" "\<forall>ekg\<in>set new2. ek_Eon ekg = e"
    using assms unfolding dkg_effect_def by blast
  then have "st_EKGs (dc_State c) = st_EKGs (dc_State a) @ (new1 @ new2) \<and> (\<forall>ekg\<in>set (new1 @ new2). ek_Eon ekg = e)"
    by auto
  with assms show ?thesis unfolding dkg_effect_def by metis
qed

lemma dkg_effect_send [simp]: "dkg_effect e a (sendShielderMessage s m d) \<longleftrightarrow> dkg_effect e a d"
  by (simp add: dkg_effect_def sendShielderMessage_def addAction_def)

lemmas dkg_effect_sent [evolve_intros] = dkg_effect_send [THEN iffD2]

lemma dkg_effect_EKG [evolve_intros]:
  "dkg_effect e a d \<Longrightarrow> ek_Eon ekg = e \<Longrightarrow>
   dkg_effect e a (broadcastEonPublicKey r b (set_state (\<lambda>st. st \<lparr> st_EKGs := st_EKGs st @ [ekg] \<rparr>) d))"
  by (erule dkg_effect_trans) (simp add: dkg_effect_def broadcastEonPublicKey_def addAction_def set_state_def)

text \<open>Where a phase starts, and the messages.\<close>

definition pair_evolves ::
  "('g1, 'g2, 'gt) bn256 \<Rightarrow> 'g2 DKG \<Rightarrow> ('g1, 'g2, 'sk, 'ek, 'dk) Decider \<Rightarrow>
   'g2 DKG \<times> ('g1, 'g2, 'sk, 'ek, 'dk) Decider \<Rightarrow> bool" where
  "pair_evolves B a d0 = (\<lambda>(dkg, d). dkg_evolves B a dkg \<and> dkg_effect (dg_Eon a) d0 d)"

lemma pair_evolves [evolve_intros]:
  "dkg_evolves B a dkg \<Longrightarrow> dkg_effect (dg_Eon a) d0 d \<Longrightarrow> pair_evolves B a d0 (dkg, d)"
  by (simp add: pair_evolves_def)

lemma pair_evolves_iff: "pair_evolves B a d0 (dkg, d) \<longleftrightarrow> dkg_evolves B a dkg \<and> dkg_effect (dg_Eon a) d0 d"
  by (simp add: pair_evolves_def)

lemma evolves_startPhase1:
  "pair_evolves B a d0 (dkg, d) \<Longrightarrow> post (startPhase1Dealing R B p dkg d) (pair_evolves B a d0)"
  unfolding startPhase1Dealing_def pair_evolves_iff
  by (erule conjE, rule post_case_prod,
      (assumption | rule post_rules evolve_intros | erule ssubst, (rule post_rules)+ | rule dkg_step.dealing, simp)+)

lemma evolves_startPhase2:
  "pair_evolves B a d0 (dkg, d) \<Longrightarrow> post (startPhase2Accusing B E p dkg d) (pair_evolves B a d0)"
  unfolding startPhase2Accusing_def pair_evolves_iff
  by (rule post_bind, rule post_any, rule post_case_prod)
    (auto simp: post_def Let_def result_bind_Inr_iff intro!: evolve_intros intro: dkg_step.accusing split: if_splits)

lemma evolves_startPhase3:
  "dkg_orders_ok (dec_orders R) \<Longrightarrow> pair_evolves B a d0 (dkg, d) \<Longrightarrow>
   post (startPhase3Apologizing R B E p dkg d) (pair_evolves B a d0)"
  unfolding startPhase3Apologizing_def pair_evolves_iff
  by (rule post_bind, rule post_any, rule post_case_prod)
    (auto simp: post_def Let_def result_bind_Inr_iff intro!: evolve_intros intro: dkg_step.apologizing split: if_splits)

lemma evolves_Eon: "dkg_evolves B a dkg \<Longrightarrow> dg_Eon dkg = dg_Eon a"
  by (simp add: dkg_evolves_def)

lemma evolves_dkgFinalize:
  "pair_evolves B a d0 (dkg, d) \<Longrightarrow> post (dkgFinalize R B dkg d) (pair_evolves B a d0)"
  unfolding dkgFinalize_def pair_evolves_iff
  by (rule post_bind, rule post_any, rule post_let)
    (auto simp: post_def result_bind_Inr_iff Let_def evolves_Eon intro!: evolve_intros intro: dkg_step.finalizing
      split: if_err_splits)

lemma evolves_sendPolyEvals:
  "pair_evolves B a d0 (dkg, d) \<Longrightarrow> post (sendPolyEvals R E dkg d) (pair_evolves B a d0)"
  unfolding sendPolyEvals_def pair_evolves_iff
  by (erule conjE, (assumption | rule post_rules evolve_intros | rule post_any)+)

lemma evolves_phase_turn:
  "pair_evolves B a d0 (dkg, d) \<Longrightarrow> post (start dkg d) (pair_evolves B a d0) \<Longrightarrow>
   post (phase_turn p q n start dkg d) (pair_evolves B a d0)"
  by (auto simp: phase_turn_def intro!: post_rules)

lemma post_pair_evolves:
  "post r (pair_evolves B a d0) \<Longrightarrow> (\<And>dkg d. pair_evolves B a d0 (dkg, d) \<Longrightarrow> post (f dkg d) P) \<Longrightarrow>
   post (result_bind r (\<lambda>(dkg, d). f dkg d)) P"
  by (cases r) (auto simp: post_def)

lemma post_evolves:
  assumes "pair_evolves B a d0 (dkg, d)" "\<And>dkg. dkg_evolves B a dkg \<Longrightarrow> post (sync dkg) (dkg_evolves B a)"
    and "\<And>dkg. pair_evolves B a d0 (dkg, d) \<Longrightarrow> post (f dkg) P"
  shows "post (result_bind (sync dkg) f) P"
  using assms by (cases "sync dkg") (fastforce simp: post_def pair_evolves_iff)+

text \<open>Whatever a block brings, the key generation goes through steps of its own.\<close>

lemma evolves_syncDKGWithEon:
  assumes "dkg_orders_ok (dec_orders R)" "pair_evolves B a d0 (dkg, d)"
  shows "post (syncDKGWithEon R B E eon dkg d) (pair_evolves B a d0)"
  unfolding syncDKGWithEon_def Let_def
  by (rule post_pair_evolves evolves_phase_turn evolves_startPhase1 evolves_startPhase2 evolves_startPhase3
      evolves_dkgFinalize assms | rule post_evolves, assumption,
      rule evolves_syncCommitments evolves_syncPolyEvals evolves_syncAccusations evolves_syncApologies, assumption
    | assumption)+

section \<open>The key generations in the state\<close>

text \<open>A key generation the decider started for an eon it knows.\<close>

definition dkg_known :: "('g1, 'g2, 'gt) bn256 \<Rightarrow> ('g1, 'g2, 'ek) Shielder \<Rightarrow> 'g2 DKG \<Rightarrow> bool" where
  "dkg_known B sh dkg \<longleftrightarrow> dg_Eon dkg \<in> eo_Eon ` set (sh_Eons sh) \<and>
     (\<exists>threshold keyper. dkg_run B (NewPureDKG (dg_Eon dkg) (of_nat (length (dg_Keypers dkg))) threshold keyper) (dg_Pure dkg))"

definition dkgs_inv :: "('g1, 'g2, 'gt) bn256 \<Rightarrow> ('g1, 'g2, 'ek) Shielder \<Rightarrow> ('g1, 'g2) State \<Rightarrow> bool" where
  "dkgs_inv B sh st \<longleftrightarrow>
     (\<forall>dkg\<in>set (st_DKGs st). dkg_known B sh dkg \<and> dg_Eon dkg \<le> st_LastEonStarted st) \<and>
     sorted_wrt (<) (map dg_Eon (st_DKGs st)) \<and>
     (\<forall>ekg\<in>set (st_EKGs st). ek_Eon ekg \<in> eo_Eon ` set (sh_Eons sh))"

definition dec_inv :: "('g1, 'g2, 'gt) bn256 \<Rightarrow> ('g1, 'g2, 'sk, 'ek, 'dk) Decider \<Rightarrow> bool" where
  "dec_inv B d \<longleftrightarrow> sorted_wrt (<) (map eo_Eon (sh_Eons (dc_Shielder d))) \<and> dkgs_inv B (dc_Shielder d) (dc_State d)"

lemma dkgs_inv_cong:
  "sh_Eons sh' = sh_Eons sh \<Longrightarrow> harmless st st' \<Longrightarrow> dkgs_inv B sh st \<Longrightarrow> dkgs_inv B sh' st'"
proof -
  assume sh: "sh_Eons sh' = sh_Eons sh" and h: "harmless st st'" and inv: "dkgs_inv B sh st"
  from h have eons: "ek_Eon ` set (st_EKGs st') = ek_Eon ` set (st_EKGs st)"
    unfolding harmless_def by (metis list.set_map)
  have "ek_Eon ekg \<in> eo_Eon ` set (sh_Eons sh)" if "ekg \<in> set (st_EKGs st')" for ekg
  proof -
    have "ek_Eon ekg \<in> ek_Eon ` set (st_EKGs st)" using that unfolding eons [symmetric] by (rule imageI)
    then show ?thesis using inv by (auto simp: dkgs_inv_def)
  qed
  then show ?thesis using inv h sh by (simp add: dkgs_inv_def dkg_known_def harmless_def)
qed

text \<open>The invariant is one that the handlers keep.\<close>

interpretation known: decider_invariant "dec_inv B" for B
proof unfold_locales
  fix d act st sh
  assume inv: "dec_inv B d"
  show "dec_inv B (addAction act d)" using inv by (simp add: dec_inv_def addAction_def)
  show "dec_inv B (d \<lparr> dc_State := st \<rparr>)" if "harmless (dc_State d) st"
    using inv by (auto simp: dec_inv_def intro: dkgs_inv_cong [OF refl that])
  show "dec_inv B (d \<lparr> dc_Shielder := sh \<rparr>)" if "same_shielder (dc_Shielder d) sh"
  proof -
    have "sh_Eons sh = sh_Eons (dc_Shielder d)" using that by (auto simp: same_shielder_def)
    with inv show ?thesis by (auto simp: dec_inv_def intro: dkgs_inv_cong [OF _ harmless_refl])
  qed
qed

lemma dec_inv_NewState:
  "sorted_wrt (<) (map eo_Eon (sh_Eons (dc_Shielder d))) \<Longrightarrow> dc_State d = NewState \<Longrightarrow> dec_inv B d"
  by (simp add: dec_inv_def dkgs_inv_def NewState_def)

text \<open>A newer shielder has the same eons and maybe more.\<close>

lemma dec_inv_newer:
  assumes "dec_inv B d" "sorted_wrt (<) (map eo_Eon (sh_Eons sh))"
    and "eo_Eon ` set (sh_Eons (dc_Shielder d)) \<subseteq> eo_Eon ` set (sh_Eons sh)"
  shows "dec_inv B (d \<lparr> dc_Shielder := sh \<rparr>)"
  using assms unfolding dec_inv_def dkgs_inv_def dkg_known_def by (simp add: subset_iff)

lemma dec_inv_startDKG:
  fixes d d' :: "('g1, 'g2, 'sk, 'ek, 'dk) Decider"
  assumes inv: "dec_inv B d" and eon: "eon \<in> set (sh_Eons (dc_Shielder d))"
    and later: "st_LastEonStarted (dc_State d) < eo_Eon eon"
    and start: "startDKG E eon d = Inr d'"
  shows "dec_inv B (set_state (\<lambda>st. st \<lparr> st_LastEonStarted := eo_Eon eon \<rparr>) d') \<and> dc_Shielder d' = dc_Shielder d"
proof -
  have le: "dg_Eon dkg < eo_Eon eon" if "dkg \<in> set (st_DKGs (dc_State d))" for dkg
    using inv that later unfolding dec_inv_def dkgs_inv_def by (meson order.strict_trans1)
  from start obtain bc where "FindBatchConfigByBatchIndex (dc_Shielder d) (es_BatchIndex (eo_StartEvent eon)) = Inr bc"
    by (auto simp: startDKG_def result_bind_Inr_iff)
  with start consider "d' = d"
    | dkg t k where "d' = set_state (\<lambda>st. st \<lparr> st_DKGs := st_DKGs st @ [dkg] \<rparr>) d" "dg_Eon dkg = eo_Eon eon"
      "dg_Pure dkg = NewPureDKG (dg_Eon dkg) (of_nat (length (dg_Keypers dkg))) t k"
    by (cases "FindAddressIndex (bc_Keypers bc) (Config_Address E (dc_Config d))")
      (fastforce simp: startDKG_def Let_def)+
  then show ?thesis
  proof cases
    case 1
    then show ?thesis using inv le by (auto simp: dec_inv_def dkgs_inv_def set_state_def less_imp_le)
  next
    case 2
    have "dkg_known B (dc_Shielder d) dkg"
      using 2(2, 3) eon dkg_run_refl by (fastforce simp: dkg_known_def)
    then show ?thesis
      using inv le 2(1, 2) by (auto simp: dec_inv_def dkgs_inv_def set_state_def less_imp_le sorted_wrt_append)
  qed
qed

lemma dec_inv_maybeStartDKG:
  fixes d :: "('g1, 'g2, 'sk, 'ek, 'dk) Decider"
  assumes "dec_inv B d"
  shows "post (maybeStartDKG E d) (dec_inv B)"
  unfolding maybeStartDKG_def
proof (rule post_loop [where Q = "\<lambda>d'. dec_inv B d' \<and> dc_Shielder d' = dc_Shielder d"])
  fix eon and d1 :: "('g1, 'g2, 'sk, 'ek, 'dk) Decider"
  assume eon: "eon \<in> set (sh_Eons (dc_Shielder d))" and Q: "dec_inv B d1 \<and> dc_Shielder d1 = dc_Shielder d"
  show "post (if st_LastEonStarted (dc_State d1) < eo_Eon eon
       then result_bind (startDKG E eon d1) (\<lambda>dcdr'. Inr (set_state (\<lambda>st. st \<lparr> st_LastEonStarted := eo_Eon eon \<rparr>) dcdr'))
       else Inr d1) (\<lambda>d'. dec_inv B d' \<and> dc_Shielder d' = dc_Shielder d)"
  proof (rule post_if)
    assume later: "st_LastEonStarted (dc_State d1) < eo_Eon eon"
    show "post (result_bind (startDKG E eon d1) (\<lambda>dcdr'. Inr (set_state (\<lambda>st. st \<lparr> st_LastEonStarted := eo_Eon eon \<rparr>) dcdr')))
        (\<lambda>d'. dec_inv B d' \<and> dc_Shielder d' = dc_Shielder d)"
    proof (rule post_bind, rule post_any, rule post_Inr)
      fix d2 assume "startDKG E eon d1 = Inr d2"
      from dec_inv_startDKG [OF _ _ later this, of B] Q eon
      show "dec_inv B (set_state (\<lambda>st. st \<lparr> st_LastEonStarted := eo_Eon eon \<rparr>) d2) \<and>
          dc_Shielder (set_state (\<lambda>st. st \<lparr> st_LastEonStarted := eo_Eon eon \<rparr>) d2) = dc_Shielder d"
        by (simp add: set_state_def)
    qed
  qed (use Q in \<open>simp add: post_def\<close>)
qed (use assms in simp_all)

text \<open>A key generation that went on, put back where it was.\<close>

lemma dkg_run_trans: "dkg_run B b c \<Longrightarrow> dkg_run B a b \<Longrightarrow> dkg_run B a c"
  by (induction rule: dkg_run.induct) (auto intro: dkg_run_step)

lemma dkg_known_evolves: "dkg_known B sh a \<Longrightarrow> dkg_evolves B a b \<Longrightarrow> dkg_known B sh b"
  unfolding dkg_known_def dkg_evolves_def by (metis dkg_run_trans)

lemma dec_inv_evolved:
  fixes d d' :: "('g1, 'g2, 'sk, 'ek, 'dk) Decider"
  assumes inv: "dec_inv B d" and i: "i < length (st_DKGs (dc_State d))"
    and dkg: "dkg_evolves B (st_DKGs (dc_State d) ! i) dkg"
    and effect: "dkg_effect (dg_Eon (st_DKGs (dc_State d) ! i)) d d'"
  shows "dec_inv B (set_state (\<lambda>st. st \<lparr> st_DKGs := (st_DKGs st)[i := dkg] \<rparr>) d')"
proof -
  let ?a = "st_DKGs (dc_State d) ! i"
  from i have a: "?a \<in> set (st_DKGs (dc_State d))" by simp
  with inv have known: "dkg_known B (dc_Shielder d) ?a" and le: "dg_Eon ?a \<le> st_LastEonStarted (dc_State d)"
    by (simp_all add: dec_inv_def dkgs_inv_def)
  have dkgs: "map dg_Eon ((st_DKGs (dc_State d))[i := dkg]) = map dg_Eon (st_DKGs (dc_State d))"
    using i evolves_Eon [OF dkg] by (simp add: map_update list_update_same_conv)
  have each: "dkg_known B (dc_Shielder d) x \<and> dg_Eon x \<le> st_LastEonStarted (dc_State d)"
    if "x \<in> set ((st_DKGs (dc_State d))[i := dkg])" for x
  proof -
    from that have "x = dkg \<or> x \<in> set (st_DKGs (dc_State d))" using set_update_subset_insert by fastforce
    then show ?thesis
      using inv known le dkg_known_evolves [OF known dkg] evolves_Eon [OF dkg] by (auto simp: dec_inv_def dkgs_inv_def)
  qed
  obtain new where "st_EKGs (dc_State d') = st_EKGs (dc_State d) @ new" "\<forall>ekg\<in>set new. ek_Eon ekg = dg_Eon ?a"
    using effect by (auto simp: dkg_effect_def)
  then have "\<forall>ekg\<in>set (st_EKGs (dc_State d')). ek_Eon ekg \<in> eo_Eon ` set (sh_Eons (dc_Shielder d))"
    using inv known by (auto simp: dec_inv_def dkgs_inv_def dkg_known_def)
  with effect each inv dkgs show ?thesis
    by (simp add: dec_inv_def dkgs_inv_def dkg_effect_def set_state_def)
qed

lemma dec_inv_handleDKG:
  fixes d :: "('g1, 'g2, 'sk, 'ek, 'dk) Decider"
  assumes R: "dkg_orders_ok (dec_orders R)" and inv: "dec_inv B d" and i: "i < length (st_DKGs (dc_State d))"
  shows "post (handleDKG R B E i d) (\<lambda>d'. dec_inv B d' \<and> length (st_DKGs (dc_State d')) = length (st_DKGs (dc_State d)))"
proof -
  let ?dkg = "st_DKGs (dc_State d) ! i"
  have start: "pair_evolves B ?dkg d (?dkg, d)" by (simp add: pair_evolves_iff)
  have put: "dec_inv B (set_state (\<lambda>st. st \<lparr> st_DKGs := (st_DKGs st)[i := dkg] \<rparr>) d') \<and>
      length (st_DKGs (dc_State (set_state (\<lambda>st. st \<lparr> st_DKGs := (st_DKGs st)[i := dkg] \<rparr>) d'))) =
      length (st_DKGs (dc_State d))"
    if "pair_evolves B ?dkg d (dkg, d')" for dkg d'
    using that dec_inv_evolved [OF inv i, of dkg d'] by (simp add: pair_evolves_iff dkg_effect_def set_state_def)
  show ?thesis
    unfolding handleDKG_def Let_def
    by (rule post_if, simp add: post_def inv, rule post_bind, rule post_any,
        rule post_pair_evolves [OF evolves_syncDKGWithEon [OF R start]],
        rule post_pair_evolves [OF evolves_sendPolyEvals], assumption, rule post_Inr, erule put)
qed

lemma dec_inv_handleDKGs:
  fixes d :: "('g1, 'g2, 'sk, 'ek, 'dk) Decider"
  assumes "dkg_orders_ok (dec_orders R)" "dec_inv B d"
  shows "post (handleDKGs R B E d) (dec_inv B)"
  unfolding handleDKGs_def
proof (rule post_loop [where Q = "\<lambda>d'. dec_inv B d' \<and> length (st_DKGs (dc_State d')) = length (st_DKGs (dc_State d))"])
  fix i and d' :: "('g1, 'g2, 'sk, 'ek, 'dk) Decider"
  assume "i \<in> set [0..<length (st_DKGs (dc_State d))]"
    and Q: "dec_inv B d' \<and> length (st_DKGs (dc_State d')) = length (st_DKGs (dc_State d))"
  then have "i < length (st_DKGs (dc_State d'))" by simp
  from post_weaken [OF dec_inv_handleDKG [OF assms(1) conjunct1 [OF Q] this]] Q
  show "post (handleDKG R B E i d') (\<lambda>d'. dec_inv B d' \<and> length (st_DKGs (dc_State d')) = length (st_DKGs (dc_State d)))"
    by simp
qed (use assms(2) in simp_all)

lemma dec_inv_Decide:
  "dkg_orders_ok (dec_orders R) \<Longrightarrow> dec_inv B d \<Longrightarrow> post (Decide R B E d) (dec_inv B)"
  by (rule known.keeps_Decide [OF dec_inv_maybeStartDKG dec_inv_handleDKGs])

text \<open>The lookups that would stop the keyper find their eon.\<close>

lemma dec_inv_eons:
  assumes "dec_inv B d" "eon \<in> dg_Eon ` set (st_DKGs (dc_State d)) \<union> ek_Eon ` set (st_EKGs (dc_State d))"
  shows "\<exists>i < length (sh_Eons (dc_Shielder d)). FindEon (dc_Shielder d) eon = Inr i \<and> eo_Eon (sh_Eons (dc_Shielder d) ! i) = eon"
proof -
  have sorted: "sorted_wrt (<) (map eo_Eon (sh_Eons (dc_Shielder d)))" using assms(1) by (simp add: dec_inv_def)
  have "eon \<in> eo_Eon ` set (sh_Eons (dc_Shielder d))"
    using assms by (auto simp: dec_inv_def dkgs_inv_def dkg_known_def)
  then obtain i where "i < length (sh_Eons (dc_Shielder d))" "eo_Eon (sh_Eons (dc_Shielder d) ! i) = eon"
    by (auto simp: in_set_conv_nth)
  then show ?thesis using FindEon_Inr_iff [OF sorted] by blast
qed

end
