(* ===== verification/ObserveMainFacts.thy ===== *)
theory ObserveMainFacts
  imports ObserveMain
begin

text \<open>
  The observed state of the main chain is a function of the chain up to the block followed: an abstract
  chain (\<open>main_chain\<close>), what a node that serves it answers, the state a keyper should have at a block,
  and the proof that \<open>SyncToHead\<close> computes that state.
\<close>

section \<open>Loops\<close>

lemma search_down_Some_iff:
  "search_down p n = Some i \<longleftrightarrow> i < n \<and> p i \<and> (\<forall>j. i < j \<longrightarrow> j < n \<longrightarrow> \<not> p j)"
  by (induction n) (auto simp: less_Suc_eq)

lemma search_down_None_iff: "search_down p n = None \<longleftrightarrow> (\<forall>i<n. \<not> p i)"
  by (induction n) (auto simp: less_Suc_eq)

lemma loop_result_append:
  "loop_result f (xs @ ys) s = result_bind (loop_result f xs s) (loop_result f ys)"
proof (induction xs arbitrary: s)
  case (Cons x xs)
  show ?case by (cases "f x s") (simp_all add: Cons.IH)
qed simp

lemma loop_result_total:
  "(\<And>x s. x \<in> set xs \<Longrightarrow> f x s = Inr (g s x)) \<Longrightarrow> loop_result f xs s = Inr (foldl g s xs)"
  by (induction xs arbitrary: s) simp_all

lemma set_range64: "x \<in> set (range64 a b) \<longleftrightarrow> a \<le> x \<and> x < b"
proof
  assume "x \<in> set (range64 a b)"
  then obtain k where k: "x = of_nat k" "unat a \<le> k" "k < unat b" by (auto simp: range64_def)
  moreover have "k < 2 ^ 64" using k(3) unat_less_u64 [of b] by linarith
  ultimately show "a \<le> x \<and> x < b"
    by (simp add: word_le_nat_alt word_less_nat_alt unat_of_nat_u64)
next
  assume "a \<le> x \<and> x < b"
  then have "unat x \<in> {unat a..<unat b}" by (simp add: word_le_nat_alt word_less_nat_alt)
  then have "(of_nat (unat x) :: u64) \<in> of_nat ` {unat a..<unat b}" by (rule imageI)
  then show "x \<in> set (range64 a b)" by (simp add: range64_def)
qed

lemma range64_small: "k \<in> set [unat a..<unat (b :: u64)] \<Longrightarrow> k < 2 ^ 64"
  using unat_less_u64 [of b] by simp

lemma sorted_range64: "sorted (range64 a b)"
proof -
  have "sorted_wrt (\<lambda>x y. (of_nat x :: u64) \<le> of_nat y) [unat a..<unat b]"
  proof (rule sorted_wrt_mono_rel [of _ "(\<le>)"])
    fix x y
    assume "x \<in> set [unat a..<unat b]" "y \<in> set [unat a..<unat b]" and "x \<le> y"
    then show "(of_nat x :: u64) \<le> of_nat y"
      by (simp only: word_le_nat_alt unat_of_nat_u64 [OF range64_small])
  qed simp
  then show ?thesis by (simp add: range64_def sorted_wrt_map)
qed

lemma distinct_range64: "distinct (range64 a b)"
proof -
  have "inj_on (of_nat :: nat \<Rightarrow> u64) (set [unat a..<unat b])"
    by (rule inj_onI) (metis range64_small unat_of_nat_u64)
  then show ?thesis by (simp add: range64_def distinct_map)
qed

lemma range64_append:
  assumes "a \<le> b" "b \<le> c"
  shows "range64 a b @ range64 b c = range64 a c"
proof -
  have ab: "unat a \<le> unat b" and bc: "unat b \<le> unat c" using assms by (simp_all add: word_le_nat_alt)
  have "[unat a..<unat b] @ [unat b..<unat b + (unat c - unat b)] = [unat a..<unat b + (unat c - unat b)]"
    by (rule upt_add_eq_append [OF ab, symmetric])
  then show ?thesis using bc by (simp add: range64_def flip: map_append)
qed

lemma plus_1_le_iff:
  fixes a :: u64
  assumes "a < a + 1"
  shows "a + 1 \<le> x \<longleftrightarrow> \<not> x \<le> a"
proof -
  have "1 + a \<noteq> 0" using assms by (auto simp: add.commute)
  then have "unat (a + 1) = Suc (unat a)" by (simp add: unatSuc add.commute)
  then show ?thesis by (auto simp: word_le_nat_alt)
qed

section \<open>The chain\<close>

record main_chain =
  ch_Txs :: "TransactionAdded list"
  ch_Deposits :: "DepositChanged list"
  ch_Accused :: "Accused list"
  ch_Appealed :: "Appealed list"
  ch_NumConfigs :: "u64 \<Rightarrow> u64"
  ch_Config :: "u64 \<Rightarrow> ContractConfig"
  ch_NumHalfSteps :: "u64 \<Rightarrow> u64"
  ch_Receipt :: "u64 \<Rightarrow> CipherExecutionReceipt"

text \<open>The events up to a block, and between two blocks.\<close>

definition upto_block :: "('e \<Rightarrow> u64) \<Rightarrow> 'e list \<Rightarrow> u64 \<Rightarrow> 'e list" where
  "upto_block block evs b = filter (\<lambda>e. block e \<le> b) evs"

definition between :: "('e \<Rightarrow> u64) \<Rightarrow> 'e list \<Rightarrow> u64 \<Rightarrow> u64 \<Rightarrow> 'e list" where
  "between block evs a b = filter (\<lambda>e. a \<le> block e \<and> block e \<le> b) evs"

definition block_sorted :: "('e \<Rightarrow> u64) \<Rightarrow> 'e list \<Rightarrow> bool" where
  "block_sorted block evs \<longleftrightarrow> sorted (map block evs) \<and> (\<forall>e\<in>set evs. 0 < block e)"

text \<open>What the mapping of the executor contract has for a half step that no receipt was stored for.\<close>

definition zero_receipt :: CipherExecutionReceipt where
  "zero_receipt = \<lparr> cr_Executed = False, cr_Executor = 0, cr_HalfStep = 0, cr_CipherBatchHash = zero_hash,
     cr_BatchHash = zero_hash \<rparr>"

text \<open>
  A chain: events are ordered by block, none is in the genesis block; configs and half steps are only
  added; the batcher contract knows two types of transactions; a half step is accused once, and before
  it is appealed; the executor contract stores a receipt under its half step when a cipher batch is executed,
  and none when it is skipped.
\<close>

definition chain_ok :: "main_chain \<Rightarrow> bool" where
  "chain_ok ch \<longleftrightarrow>
     block_sorted ta_BlockNumber (ch_Txs ch) \<and> block_sorted dc_BlockNumber (ch_Deposits ch) \<and>
     block_sorted ka_BlockNumber (ch_Accused ch) \<and> block_sorted kp_BlockNumber (ch_Appealed ch) \<and>
     (\<forall>a b. a \<le> b \<longrightarrow> ch_NumConfigs ch a \<le> ch_NumConfigs ch b \<and> ch_NumHalfSteps ch a \<le> ch_NumHalfSteps ch b) \<and>
     (\<forall>t\<in>set (ch_Txs ch). ta_TransactionType t \<in> {TransactionTypeCipher, TransactionTypePlain}) \<and>
     distinct (map ka_HalfStep (ch_Accused ch)) \<and>
     (\<forall>h. ch_Receipt ch h = zero_receipt \<or> cr_Executed (ch_Receipt ch h) \<and> cr_HalfStep (ch_Receipt ch h) = h) \<and>
     (\<forall>p\<in>set (ch_Appealed ch). \<exists>a\<in>set (ch_Accused ch). ka_HalfStep a = kp_HalfStep p \<and> ka_BlockNumber a \<le> kp_BlockNumber p)"

text \<open>A node that serves the chain.\<close>

definition node_tells :: "main_node \<Rightarrow> main_chain \<Rightarrow> bool" where
  "node_tells N ch \<longleftrightarrow>
     (\<forall>a b. mn_TransactionAdded N a b = Inr (between ta_BlockNumber (ch_Txs ch) a b)) \<and>
     (\<forall>a b. mn_DepositChanged N a b = Inr (between dc_BlockNumber (ch_Deposits ch) a b)) \<and>
     (\<forall>a b. mn_Accused N a b = Inr (between ka_BlockNumber (ch_Accused ch) a b)) \<and>
     (\<forall>a b. mn_Appealed N a b = Inr (between kp_BlockNumber (ch_Appealed ch) a b)) \<and>
     (\<forall>b. call_NumConfigs (mn_ConfigContract N b) = Inr (ch_NumConfigs ch b)) \<and>
     (\<forall>b i. i < ch_NumConfigs ch b \<longrightarrow> GetConfigByIndex (mn_ConfigContract N b) i = Inr (ch_Config ch i)) \<and>
     (\<forall>b. mn_NumExecutionHalfSteps N b = Inr (ch_NumHalfSteps ch b)) \<and>
     (\<forall>b i. i < ch_NumHalfSteps ch b \<longrightarrow> mn_GetReceipt N b i = Inr (ch_Receipt ch i)) \<and>
     (\<exists>p. mn_SyncProgress N = Inr p)"

lemma between_next:
  assumes s: "block_sorted block evs" and ab: "a \<le> b" "a < a + 1"
  shows "upto_block block evs a @ between block evs (a + 1) b = upto_block block evs b"
proof -
  note le = plus_1_le_iff [OF ab(2)]
  have "sorted (map block evs)" using s by (simp add: block_sorted_def)
  then show ?thesis
  proof (induction evs)
    case (Cons e evs)
    show ?case
    proof (cases "block e \<le> a")
      case True
      from True ab(1) have "block e \<le> b" by (rule order_trans)
      with Cons True show ?thesis by (simp add: upto_block_def between_def le)
    next
      case False
      with Cons.prems have later: "\<forall>x\<in>set (e # evs). \<not> block x \<le> a" by auto
      then have "upto_block block (e # evs) a = []" by (simp only: upto_block_def filter_empty_conv not_False_eq_True)
      moreover have "between block (e # evs) (a + 1) b = upto_block block (e # evs) b"
        unfolding between_def upto_block_def by (rule filter_cong [OF refl]) (use later in \<open>auto simp: le\<close>)
      ultimately show ?thesis by simp
    qed
  qed (simp add: upto_block_def between_def)
qed

lemma upto_block_0: "block_sorted block evs \<Longrightarrow> upto_block block evs 0 = []"
  by (auto simp: upto_block_def block_sorted_def filter_empty_conv)

section \<open>The state at a block\<close>

definition last_hash :: "TransactionAdded list \<Rightarrow> bytes" where
  "last_hash ts = (if ts = [] then zero_hash else ta_BatchHash (last ts))"

definition of_type :: "byte \<Rightarrow> TransactionAdded list \<Rightarrow> TransactionAdded list" where
  "of_type ty ts = filter (\<lambda>t. ta_TransactionType t = ty) ts"

definition batch_spec :: "TransactionAdded list \<Rightarrow> u64 \<Rightarrow> MBatch option" where
  "batch_spec txs i =
     (let ts = filter (\<lambda>t. ta_BatchIndex t = i) txs
      in if ts = [] then None
         else Some \<lparr> mb_BatchIndex = i,
                mb_EncryptedBatchHash = last_hash (of_type TransactionTypeCipher ts),
                mb_EncryptedTransactions = map ta_Transaction (of_type TransactionTypeCipher ts),
                mb_PlainTransactions = map ta_Transaction (of_type TransactionTypePlain ts),
                mb_PlainBatchHash = last_hash (of_type TransactionTypePlain ts) \<rparr>)"

definition deposit_spec :: "DepositChanged list \<Rightarrow> address \<Rightarrow> Deposit option" where
  "deposit_spec evs a =
     (let es = filter (\<lambda>e. dc_Account e = a) evs
      in if es = [] then None
         else let e = last es
              in Some \<lparr> dp_Account = a, dp_Slashed = dc_Slashed e, dp_Amount = Some (dc_Amount e),
                   dp_WithdrawalDelayBlocks = dc_WithdrawalDelayBlocks e,
                   dp_WithdrawalRequestedBlock = dc_WithdrawalRequestedBlock e \<rparr>)"

definition accusation_spec :: "Accused list \<Rightarrow> Appealed list \<Rightarrow> u64 \<Rightarrow> MAccusation option" where
  "accusation_spec accs apps h =
     map_option (\<lambda>a. \<lparr> ma_Executor = ka_Executor a, ma_Accuser = ka_Accuser a,
         ma_Appealed = (\<exists>p\<in>set apps. kp_HalfStep p = h), ma_HalfStep = h, ma_BlockNumber = ka_BlockNumber a \<rparr>)
       (find (\<lambda>a. ka_HalfStep a = h) accs)"

text \<open>
  The receipts of the cipher half steps that were executed among the first \<open>n\<close> half steps. A keyper has
  these, and nothing for a half step that was skipped; but once any was skipped, the empty receipt, which
  names half step 0, is in the place of the receipt of half step 0.
\<close>

definition executed_receipts :: "main_chain \<Rightarrow> u64 \<Rightarrow> (u64 \<Rightarrow> CipherExecutionReceipt option)" where
  "executed_receipts ch n h =
     (if h < n \<and> h mod 2 = 0 \<and> cr_Executed (ch_Receipt ch h) then Some (ch_Receipt ch h) else None)"

definition skipped_step :: "main_chain \<Rightarrow> u64 \<Rightarrow> bool" where
  "skipped_step ch h \<longleftrightarrow> h mod 2 = 0 \<and> \<not> cr_Executed (ch_Receipt ch h)"

definition receipts_spec :: "main_chain \<Rightarrow> u64 \<Rightarrow> (u64 \<Rightarrow> CipherExecutionReceipt option)" where
  "receipts_spec ch n =
     (if \<exists>h < n. skipped_step ch h then (executed_receipts ch n)(0 \<mapsto> zero_receipt) else executed_receipts ch n)"

definition state_at :: "main_chain \<Rightarrow> u64 \<Rightarrow> MainChain \<Rightarrow> bool" where
  "state_at ch b mc \<longleftrightarrow>
     mc_BatchConfigs mc = map (ch_Config ch) (range64 0 (ch_NumConfigs ch b)) \<and>
     mc_Batches mc = batch_spec (upto_block ta_BlockNumber (ch_Txs ch) b) \<and>
     mc_NumExecutionHalfSteps mc = ch_NumHalfSteps ch b \<and>
     mc_CipherExecutionReceipts mc = receipts_spec ch (ch_NumHalfSteps ch b) \<and>
     mc_Deposits mc = deposit_spec (upto_block dc_BlockNumber (ch_Deposits ch) b) \<and>
     map_of (mc_Accusations mc) = accusation_spec (upto_block ka_BlockNumber (ch_Accused ch) b)
        (upto_block kp_BlockNumber (ch_Appealed ch) b) \<and>
     distinct (map fst (mc_Accusations mc))"

section \<open>One step of each part\<close>

lemma batch_spec_snoc:
  "batch_spec (txs @ [t]) = (batch_spec txs)(ta_BatchIndex t \<mapsto>
     (let b = (case batch_spec txs (ta_BatchIndex t) of Some b \<Rightarrow> b | None \<Rightarrow> emptyBatch (ta_BatchIndex t))
      in b \<lparr> mb_EncryptedTransactions := mb_EncryptedTransactions b
               @ (if ta_TransactionType t = TransactionTypeCipher then [ta_Transaction t] else []),
             mb_EncryptedBatchHash :=
               (if ta_TransactionType t = TransactionTypeCipher then ta_BatchHash t else mb_EncryptedBatchHash b),
             mb_PlainTransactions := mb_PlainTransactions b
               @ (if ta_TransactionType t = TransactionTypePlain then [ta_Transaction t] else []),
             mb_PlainBatchHash :=
               (if ta_TransactionType t = TransactionTypePlain then ta_BatchHash t else mb_PlainBatchHash b) \<rparr>))"
proof (rule ext)
  fix i
  show "batch_spec (txs @ [t]) i = ((batch_spec txs)(ta_BatchIndex t \<mapsto>
     (let b = (case batch_spec txs (ta_BatchIndex t) of Some b \<Rightarrow> b | None \<Rightarrow> emptyBatch (ta_BatchIndex t))
      in b \<lparr> mb_EncryptedTransactions := mb_EncryptedTransactions b
               @ (if ta_TransactionType t = TransactionTypeCipher then [ta_Transaction t] else []),
             mb_EncryptedBatchHash :=
               (if ta_TransactionType t = TransactionTypeCipher then ta_BatchHash t else mb_EncryptedBatchHash b),
             mb_PlainTransactions := mb_PlainTransactions b
               @ (if ta_TransactionType t = TransactionTypePlain then [ta_Transaction t] else []),
             mb_PlainBatchHash :=
               (if ta_TransactionType t = TransactionTypePlain then ta_BatchHash t else mb_PlainBatchHash b) \<rparr>))) i"
    by (cases "ta_BatchIndex t = i"; cases "filter (\<lambda>t. ta_BatchIndex t = i) txs")
      (auto simp: batch_spec_def Let_def emptyBatch_def of_type_def last_hash_def)
qed

lemma addTransaction_spec:
  assumes "mc_Batches mc = batch_spec txs"
    and "ta_TransactionType t \<in> {TransactionTypeCipher, TransactionTypePlain}"
  shows "addTransaction t mc = Inr (mc \<lparr> mc_Batches := batch_spec (txs @ [t]) \<rparr>)"
  using assms unfolding batch_spec_snoc
  by (auto simp: addTransaction_def Let_def TransactionTypeCipher_def TransactionTypePlain_def)

lemma addTransactions_spec:
  "mc_Batches mc = batch_spec txs \<Longrightarrow>
   \<forall>t\<in>set ts. ta_TransactionType t \<in> {TransactionTypeCipher, TransactionTypePlain} \<Longrightarrow>
   loop_result addTransaction ts mc = Inr (mc \<lparr> mc_Batches := batch_spec (txs @ ts) \<rparr>)"
proof (induction ts arbitrary: txs mc)
  case (Cons t ts)
  have "addTransaction t mc = Inr (mc \<lparr> mc_Batches := batch_spec (txs @ [t]) \<rparr>)"
    using Cons.prems by (intro addTransaction_spec) simp_all
  moreover have "loop_result addTransaction ts (mc \<lparr> mc_Batches := batch_spec (txs @ [t]) \<rparr>)
      = Inr (mc \<lparr> mc_Batches := batch_spec (txs @ [t]) \<rparr> \<lparr> mc_Batches := batch_spec ((txs @ [t]) @ ts) \<rparr>)"
    using Cons.prems by (intro Cons.IH) simp_all
  ultimately show ?case by simp
qed simp

lemma changeDeposit_spec:
  "mc_Deposits mc = deposit_spec evs \<Longrightarrow>
   changeDeposit e mc = mc \<lparr> mc_Deposits := deposit_spec (evs @ [e]) \<rparr>"
  by (rule MainChain.equality)
    (auto simp: changeDeposit_def GetDeposit_def deposit_spec_def Let_def fun_eq_iff split: option.splits if_splits)

lemma changeDeposits_spec:
  "mc_Deposits mc = deposit_spec evs \<Longrightarrow>
   foldl (\<lambda>mc e. changeDeposit e mc) mc es = mc \<lparr> mc_Deposits := deposit_spec (evs @ es) \<rparr>"
proof (induction es arbitrary: evs mc)
  case (Cons e es)
  have "foldl (\<lambda>mc e. changeDeposit e mc) (mc \<lparr> mc_Deposits := deposit_spec (evs @ [e]) \<rparr>) es
      = mc \<lparr> mc_Deposits := deposit_spec (evs @ [e]) \<rparr> \<lparr> mc_Deposits := deposit_spec ((evs @ [e]) @ es) \<rparr>"
    by (rule Cons.IH) simp
  then show ?case using changeDeposit_spec [OF Cons.prems, of e] by simp
qed simp

lemma find_append: "find p (xs @ ys) = (case find p xs of None \<Rightarrow> find p ys | Some x \<Rightarrow> Some x)"
  by (induction xs) simp_all

definition accusations_are :: "Accused list \<Rightarrow> Appealed list \<Rightarrow> (u64 \<times> MAccusation) list \<Rightarrow> bool" where
  "accusations_are accs apps al \<longleftrightarrow> map_of al = accusation_spec accs apps \<and> distinct (map fst al)"

lemma addAccusation_spec:
  assumes "accusations_are accs apps (mc_Accusations mc)"
    and "ka_HalfStep a \<notin> ka_HalfStep ` set accs" "ka_HalfStep a \<notin> kp_HalfStep ` set apps"
  obtains al where "addAccusation a mc = mc \<lparr> mc_Accusations := al \<rparr>" "accusations_are (accs @ [a]) apps al"
proof
  let ?al = "mc_Accusations (addAccusation a mc)"
  show "addAccusation a mc = mc \<lparr> mc_Accusations := ?al \<rparr>" by (simp add: addAccusation_def Let_def)
  have none: "find (\<lambda>a'. ka_HalfStep a' = ka_HalfStep a) accs = None"
    using assms(2) unfolding find_None_iff by (metis imageI)
  have "map_of ?al = accusation_spec (accs @ [a]) apps"
  proof (rule ext)
    fix h
    show "map_of ?al h = accusation_spec (accs @ [a]) apps h"
      using assms none
      by (cases "h = ka_HalfStep a")
        (auto simp: addAccusation_def Let_def update_conv' accusation_spec_def accusations_are_def find_append image_iff
          split: option.splits)
  qed
  moreover have "distinct (map fst ?al)"
    using assms(1) by (simp add: addAccusation_def Let_def accusations_are_def distinct_update)
  ultimately show "accusations_are (accs @ [a]) apps ?al" by (simp only: accusations_are_def simp_thms)
qed

lemma addAccusations_spec:
  "accusations_are accs apps (mc_Accusations mc) \<Longrightarrow> distinct (map ka_HalfStep (accs @ as)) \<Longrightarrow>
   ka_HalfStep ` set as \<inter> kp_HalfStep ` set apps = {} \<Longrightarrow>
   \<exists>al. foldl (\<lambda>mc a. addAccusation a mc) mc as = mc \<lparr> mc_Accusations := al \<rparr> \<and> accusations_are (accs @ as) apps al"
proof (induction as arbitrary: accs mc)
  case Nil
  then show ?case by (intro exI [of _ "mc_Accusations mc"]) simp
next
  case (Cons a as)
  obtain al where al: "addAccusation a mc = mc \<lparr> mc_Accusations := al \<rparr>" "accusations_are (accs @ [a]) apps al"
    by (rule addAccusation_spec [OF Cons.prems(1), of a]) (use Cons.prems(2, 3) in auto)
  from al(2) have "accusations_are (accs @ [a]) apps (mc_Accusations (mc \<lparr> mc_Accusations := al \<rparr>))" by simp
  from Cons.IH [OF this] Cons.prems(2, 3) obtain al' where
    "foldl (\<lambda>mc a. addAccusation a mc) (mc \<lparr> mc_Accusations := al \<rparr>) as
      = mc \<lparr> mc_Accusations := al \<rparr> \<lparr> mc_Accusations := al' \<rparr>"
    "accusations_are ((accs @ [a]) @ as) apps al'" by auto
  with al(1) show ?case by (intro exI [of _ al']) simp
qed

lemma addAppeal_spec:
  assumes "accusations_are accs apps (mc_Accusations mc)" "kp_HalfStep p \<in> ka_HalfStep ` set accs"
  obtains al where "addAppeal p mc = Inr (mc \<lparr> mc_Accusations := al \<rparr>)" "accusations_are accs (apps @ [p]) al"
proof -
  obtain a where a: "find (\<lambda>a. ka_HalfStep a = kp_HalfStep p) accs = Some a"
    using assms(2) by (cases "find (\<lambda>a. ka_HalfStep a = kp_HalfStep p) accs") (auto simp: find_None_iff)
  then have m: "map_of (mc_Accusations mc) (kp_HalfStep p)
      = Some \<lparr> ma_Executor = ka_Executor a, ma_Accuser = ka_Accuser a,
          ma_Appealed = (\<exists>q\<in>set apps. kp_HalfStep q = kp_HalfStep p), ma_HalfStep = kp_HalfStep p,
          ma_BlockNumber = ka_BlockNumber a \<rparr>" (is "_ = Some ?acc")
    using assms(1) by (simp add: accusations_are_def accusation_spec_def)
  let ?al = "AList.update (kp_HalfStep p) (?acc \<lparr> ma_Appealed := True \<rparr>) (mc_Accusations mc)"
  have "addAppeal p mc = Inr (mc \<lparr> mc_Accusations := ?al \<rparr>)" by (simp add: addAppeal_def m)
  moreover have "map_of ?al = accusation_spec accs (apps @ [p])"
  proof (rule ext)
    fix h
    show "map_of ?al h = accusation_spec accs (apps @ [p]) h"
      using assms(1) a
      by (cases "h = kp_HalfStep p")
        (auto simp: update_conv' accusation_spec_def accusations_are_def split: option.splits)
  qed
  moreover have "distinct (map fst ?al)"
    using assms(1) by (simp add: accusations_are_def distinct_update)
  ultimately show thesis by (intro that [of ?al]) (simp_all only: accusations_are_def simp_thms)
qed

lemma addAppeals_spec:
  "accusations_are accs apps (mc_Accusations mc) \<Longrightarrow> kp_HalfStep ` set ps \<subseteq> ka_HalfStep ` set accs \<Longrightarrow>
   \<exists>al. loop_result addAppeal ps mc = Inr (mc \<lparr> mc_Accusations := al \<rparr>) \<and> accusations_are accs (apps @ ps) al"
proof (induction ps arbitrary: apps mc)
  case Nil
  then show ?case by (intro exI [of _ "mc_Accusations mc"]) simp
next
  case (Cons p ps)
  obtain al where al: "addAppeal p mc = Inr (mc \<lparr> mc_Accusations := al \<rparr>)" "accusations_are accs (apps @ [p]) al"
    by (rule addAppeal_spec [OF Cons.prems(1), of p]) (use Cons.prems(2) in auto)
  from al(2) have "accusations_are accs (apps @ [p]) (mc_Accusations (mc \<lparr> mc_Accusations := al \<rparr>))" by simp
  from Cons.IH [OF this] Cons.prems(2) obtain al' where
    "loop_result addAppeal ps (mc \<lparr> mc_Accusations := al \<rparr>)
      = Inr (mc \<lparr> mc_Accusations := al \<rparr> \<lparr> mc_Accusations := al' \<rparr>)"
    "accusations_are accs ((apps @ [p]) @ ps) al'" by auto
  with al(1) show ?case by (intro exI [of _ al']) simp
qed

lemma syncConfigs_spec:
  assumes "node_tells N ch" "ch_NumConfigs ch a \<le> ch_NumConfigs ch b"
    and "mc_BatchConfigs mc = map (ch_Config ch) (range64 0 (ch_NumConfigs ch a))"
  shows "syncConfigs N b mc = Inr (mc \<lparr> mc_BatchConfigs := map (ch_Config ch) (range64 0 (ch_NumConfigs ch b)) \<rparr>)"
proof -
  let ?na = "ch_NumConfigs ch a" and ?nb = "ch_NumConfigs ch b"
  let ?step = "\<lambda>(mc :: MainChain) i. mc \<lparr> mc_BatchConfigs := mc_BatchConfigs mc @ [ch_Config ch i] \<rparr>"
  have len: "of_nat (length (mc_BatchConfigs mc)) = ?na" using assms(3) by (simp add: range64_def)
  have fold: "foldl ?step s is = s \<lparr> mc_BatchConfigs := mc_BatchConfigs s @ map (ch_Config ch) is \<rparr>" for s "is"
    by (induction "is" arbitrary: s) simp_all
  have "loop_result (\<lambda>configIndex mc. result_bind (GetConfigByIndex (mn_ConfigContract N b) configIndex)
      (\<lambda>config. Inr (mc \<lparr> mc_BatchConfigs := mc_BatchConfigs mc @ [config] \<rparr>))) (range64 ?na ?nb) mc
      = Inr (foldl ?step mc (range64 ?na ?nb))"
    by (rule loop_result_total) (use assms(1) in \<open>simp add: node_tells_def set_range64\<close>)
  also have "\<dots> = Inr (mc \<lparr> mc_BatchConfigs := map (ch_Config ch) (range64 0 ?na @ range64 ?na ?nb) \<rparr>)"
    by (simp only: fold assms(3) map_append)
  finally show ?thesis
    using assms(1, 2) by (simp add: syncConfigs_def len node_tells_def range64_append)
qed

text \<open>One receipt more, as the loop stores it, and the receipts between two blocks.\<close>

definition put_receipt :: "main_chain \<Rightarrow> (u64 \<Rightarrow> CipherExecutionReceipt option) \<Rightarrow> u64 \<Rightarrow> (u64 \<Rightarrow> CipherExecutionReceipt option)" where
  "put_receipt ch m h = (if h mod 2 \<noteq> 0 then m else m(cr_HalfStep (ch_Receipt ch h) \<mapsto> ch_Receipt ch h))"

definition receipts_of :: "main_chain \<Rightarrow> u64 set \<Rightarrow> (u64 \<Rightarrow> CipherExecutionReceipt option)" where
  "receipts_of ch S h =
     (if h = 0 \<and> (\<exists>k\<in>S. skipped_step ch k) then Some zero_receipt
      else if h \<in> S \<and> h mod 2 = 0 \<and> cr_Executed (ch_Receipt ch h) then Some (ch_Receipt ch h)
      else None)"

lemma put_receipt_spec:
  assumes "ch_Receipt ch x = zero_receipt \<or> cr_Executed (ch_Receipt ch x) \<and> cr_HalfStep (ch_Receipt ch x) = x"
    and "x = 0 \<Longrightarrow> S = {}"
  shows "put_receipt ch (receipts_of ch S) x = receipts_of ch (insert x S)"
proof (rule ext)
  fix h
  consider "x mod 2 \<noteq> 0" | "x mod 2 = 0" "cr_Executed (ch_Receipt ch x)" "cr_HalfStep (ch_Receipt ch x) = x"
    | "x mod 2 = 0" "ch_Receipt ch x = zero_receipt"
    using assms(1) by (cases "x mod 2 = 0") auto
  then show "put_receipt ch (receipts_of ch S) x h = receipts_of ch (insert x S) h"
  proof cases
    case 1
    then have "\<not> skipped_step ch x" by (simp add: skipped_step_def)
    with 1 show ?thesis by (cases "h = x") (auto simp: put_receipt_def receipts_of_def)
  next
    case 2
    then have "\<not> skipped_step ch x" by (simp add: skipped_step_def)
    then show ?thesis using 2 assms(2) by (cases "h = x") (auto simp: put_receipt_def receipts_of_def)
  next
    case 3
    then have "skipped_step ch x" "cr_HalfStep (ch_Receipt ch x) = 0" "\<not> cr_Executed (ch_Receipt ch x)"
      by (simp_all add: skipped_step_def zero_receipt_def)
    then show ?thesis using 3 by (auto simp: put_receipt_def receipts_of_def)
  qed
qed

lemma put_receipts_spec:
  assumes ok: "chain_ok ch" and ab: "a \<le> b"
  shows "foldl (put_receipt ch) (receipts_spec ch a) (range64 a b) = receipts_spec ch b"
proof -
  have spec: "receipts_spec ch n = receipts_of ch {h. unat h < unat n}" for n
    by (rule ext) (auto simp: receipts_spec_def executed_receipts_def receipts_of_def word_less_nat_alt)
  have "foldl (put_receipt ch) (receipts_of ch {h. unat h < unat a}) (map of_nat [unat a..<n]) = receipts_of ch {h. unat h < n}"
    if "unat a \<le> n" "n \<le> unat b" for n
    using that
  proof (induction n rule: dec_induct)
    case (step n)
    then have n: "n < 2 ^ 64" using unat_less_u64 [of b] by simp
    then have u: "unat (of_nat n :: u64) = n" by (rule unat_of_nat_u64)
    have "insert (of_nat n) {h :: u64. unat h < n} = {h. unat h < Suc n}"
      using u by (auto simp: less_Suc_eq word_unat_eq_iff)
    moreover have "put_receipt ch (receipts_of ch {h. unat h < n}) (of_nat n) =
        receipts_of ch (insert (of_nat n) {h. unat h < n})"
    proof (rule put_receipt_spec)
      show "ch_Receipt ch (of_nat n) = zero_receipt \<or>
          cr_Executed (ch_Receipt ch (of_nat n)) \<and> cr_HalfStep (ch_Receipt ch (of_nat n)) = of_nat n"
        using ok by (simp add: chain_ok_def)
      show "{h :: u64. unat h < n} = {}" if "of_nat n = (0 :: u64)" using u that by simp
    qed
    ultimately show ?case using step by simp
  qed simp
  from this [of "unat b"] ab show ?thesis by (simp add: spec range64_def word_le_nat_alt)
qed

lemma syncExecutionState_spec:
  assumes ok: "chain_ok ch" and "node_tells N ch" "ch_NumHalfSteps ch a \<le> ch_NumHalfSteps ch b"
    and "mc_NumExecutionHalfSteps mc = ch_NumHalfSteps ch a"
    and "mc_CipherExecutionReceipts mc = receipts_spec ch (ch_NumHalfSteps ch a)"
  shows "syncExecutionState N b mc = Inr (mc \<lparr> mc_NumExecutionHalfSteps := ch_NumHalfSteps ch b,
      mc_CipherExecutionReceipts := receipts_spec ch (ch_NumHalfSteps ch b) \<rparr>)"
proof -
  let ?na = "ch_NumHalfSteps ch a" and ?nb = "ch_NumHalfSteps ch b"
  let ?step = "\<lambda>(mc :: MainChain) h. mc \<lparr> mc_CipherExecutionReceipts := put_receipt ch (mc_CipherExecutionReceipts mc) h \<rparr>"
  have fold: "foldl ?step s hs = s \<lparr> mc_CipherExecutionReceipts := foldl (put_receipt ch) (mc_CipherExecutionReceipts s) hs \<rparr>" for s hs
    by (induction hs arbitrary: s) simp_all
  have "loop_result (\<lambda>halfStep mc.
         if halfStep mod 2 \<noteq> 0 then Inr mc
         else result_bind (mn_GetReceipt N b halfStep) (\<lambda>receipt.
              Inr (mc \<lparr> mc_CipherExecutionReceipts :=
                (mc_CipherExecutionReceipts mc)(cr_HalfStep receipt \<mapsto> receipt) \<rparr>))) (range64 ?na ?nb) mc
      = Inr (foldl ?step mc (range64 ?na ?nb))"
    by (rule loop_result_total) (use assms(2) in \<open>simp add: node_tells_def set_range64 put_receipt_def\<close>)
  also have "foldl ?step mc (range64 ?na ?nb) = mc \<lparr> mc_CipherExecutionReceipts := receipts_spec ch ?nb \<rparr>"
    by (simp add: fold assms(5) put_receipts_spec [OF ok assms(3)])
  finally show ?thesis
    using assms(2) by (simp add: syncExecutionState_def node_tells_def assms(4))
qed

section \<open>Synchronising to the head\<close>

lemma chain_upto:
  assumes "chain_ok ch" "a \<le> b" "a < a + 1"
  shows "upto_block ta_BlockNumber (ch_Txs ch) a @ between ta_BlockNumber (ch_Txs ch) (a + 1) b
           = upto_block ta_BlockNumber (ch_Txs ch) b"
    and "upto_block dc_BlockNumber (ch_Deposits ch) a @ between dc_BlockNumber (ch_Deposits ch) (a + 1) b
           = upto_block dc_BlockNumber (ch_Deposits ch) b"
    and "upto_block ka_BlockNumber (ch_Accused ch) a @ between ka_BlockNumber (ch_Accused ch) (a + 1) b
           = upto_block ka_BlockNumber (ch_Accused ch) b"
    and "upto_block kp_BlockNumber (ch_Appealed ch) a @ between kp_BlockNumber (ch_Appealed ch) (a + 1) b
           = upto_block kp_BlockNumber (ch_Appealed ch) b"
  using assms(1) by (simp_all add: chain_ok_def between_next [OF _ assms(2, 3)])

lemma distinct_map_inj:
  "distinct (map f xs) \<Longrightarrow> x \<in> set xs \<Longrightarrow> y \<in> set xs \<Longrightarrow> f x = f y \<Longrightarrow> x = y"
  by (auto simp: distinct_map dest: inj_onD)

lemma syncSlashings_spec:
  assumes ok: "chain_ok ch" and N: "node_tells N ch" and ab: "a \<le> b" "a < a + 1"
    and acc: "accusations_are (upto_block ka_BlockNumber (ch_Accused ch) a) (upto_block kp_BlockNumber (ch_Appealed ch) a)
               (mc_Accusations mc)"
  shows "\<exists>al. syncSlashings N (a + 1) b mc = Inr (mc \<lparr> mc_Accusations := al \<rparr>) \<and>
     accusations_are (upto_block ka_BlockNumber (ch_Accused ch) b) (upto_block kp_BlockNumber (ch_Appealed ch) b) al"
proof -
  let ?acc = "\<lambda>x. upto_block ka_BlockNumber (ch_Accused ch) x" and ?app = "\<lambda>x. upto_block kp_BlockNumber (ch_Appealed ch) x"
  let ?acc' = "between ka_BlockNumber (ch_Accused ch) (a + 1) b" and ?app' = "between kp_BlockNumber (ch_Appealed ch) (a + 1) b"
  note up = chain_upto(3, 4) [OF ok ab]
  have dist: "distinct (map ka_HalfStep (ch_Accused ch))" using ok by (simp add: chain_ok_def)
  have prior: "\<exists>x\<in>set (ch_Accused ch). ka_HalfStep x = kp_HalfStep p \<and> ka_BlockNumber x \<le> kp_BlockNumber p"
    if "p \<in> set (ch_Appealed ch)" for p using ok that by (simp add: chain_ok_def)
  have "distinct (map ka_HalfStep (?acc a @ ?acc'))"
    unfolding up by (simp add: upto_block_def distinct_map_filter [OF dist])
  moreover have "ka_HalfStep ` set ?acc' \<inter> kp_HalfStep ` set (?app a) = {}"
  proof (rule equals0I)
    fix h assume "h \<in> ka_HalfStep ` set ?acc' \<inter> kp_HalfStep ` set (?app a)"
    then obtain x p where x: "x \<in> set (ch_Accused ch)" "a + 1 \<le> ka_BlockNumber x"
      and p: "p \<in> set (ch_Appealed ch)" "kp_BlockNumber p \<le> a" and eq: "ka_HalfStep x = kp_HalfStep p"
      by (auto simp: between_def upto_block_def)
    from prior [OF p(1)] obtain y where y: "y \<in> set (ch_Accused ch)" "ka_HalfStep y = kp_HalfStep p"
      "ka_BlockNumber y \<le> kp_BlockNumber p" by auto
    then have "x = y" using distinct_map_inj [OF dist x(1) y(1)] eq by simp
    then have "ka_BlockNumber x \<le> a" using y(3) p(2) by simp
    with x(2) show False by (simp add: plus_1_le_iff [OF ab(2)])
  qed
  ultimately obtain al where al: "foldl (\<lambda>mc a. addAccusation a mc) mc ?acc' = mc \<lparr> mc_Accusations := al \<rparr>"
    "accusations_are (?acc b) (?app a) al"
    using addAccusations_spec [OF acc] up(1) by metis
  have "kp_HalfStep ` set ?app' \<subseteq> ka_HalfStep ` set (?acc b)"
  proof (rule image_subsetI)
    fix p assume "p \<in> set ?app'"
    then have p: "p \<in> set (ch_Appealed ch)" "kp_BlockNumber p \<le> b" by (simp_all add: between_def)
    from prior [OF p(1)] obtain y where y: "y \<in> set (ch_Accused ch)" "ka_HalfStep y = kp_HalfStep p"
      "ka_BlockNumber y \<le> kp_BlockNumber p" by auto
    then have "ka_BlockNumber y \<le> b" using p(2) by simp
    then have "y \<in> set (?acc b)" using y(1) by (simp add: upto_block_def)
    then show "kp_HalfStep p \<in> ka_HalfStep ` set (?acc b)" using y(2) by (metis imageI)
  qed
  from addAppeals_spec [of "?acc b" "?app a" "mc \<lparr> mc_Accusations := al \<rparr>", OF _ this] al(2) obtain al' where
    "loop_result addAppeal ?app' (mc \<lparr> mc_Accusations := al \<rparr>) = Inr (mc \<lparr> mc_Accusations := al' \<rparr>)"
    "accusations_are (?acc b) (?app b) al'" using up(2) by auto
  with al(1) N show ?thesis by (auto simp: syncSlashings_def node_tells_def)
qed

text \<open>
  While the block followed does not move backwards, a synchronisation with a node that serves the chain
  yields the state of the chain at the block followed.
\<close>

lemma mc_SyncToHead_refines:
  assumes ok: "chain_ok ch" and N: "node_tells N ch" and head: "mn_HeadNumber N = Inr head"
    and st: "state_at ch (mc_CurrentBlock mc) mc"
    and ab: "mc_CurrentBlock mc \<le> syncUntilBlock mc head" "mc_CurrentBlock mc < mc_CurrentBlock mc + 1"
  shows "\<exists>mc'. mc_SyncToHead N mc = Inr mc' \<and> state_at ch (mc_CurrentBlock mc') mc' \<and>
     (mc_CurrentBlock mc' = syncUntilBlock mc head \<or> head = mc_CurrentBlock mc)"
proof (cases "head = mc_CurrentBlock mc")
  case True
  then show ?thesis using N head st by (auto simp: mc_SyncToHead_def node_tells_def)
next
  case False
  define a b where "a = mc_CurrentBlock mc" and "b = syncUntilBlock mc head"
  have le: "a \<le> b" "a < a + 1" using ab by (simp_all add: a_def b_def)
  note st' = st [folded a_def, unfolded state_at_def]
  obtain p where p: "mn_SyncProgress N = Inr p" using N by (auto simp: node_tells_def)
  have mono: "ch_NumConfigs ch a \<le> ch_NumConfigs ch b" "ch_NumHalfSteps ch a \<le> ch_NumHalfSteps ch b"
    using ok le(1) by (simp_all add: chain_ok_def)
  define mc1 where "mc1 = mc \<lparr> mc_BatchConfigs := map (ch_Config ch) (range64 0 (ch_NumConfigs ch b)) \<rparr>"
  have s1: "syncConfigs N b mc = Inr mc1"
    unfolding mc1_def by (rule syncConfigs_spec [OF N mono(1)]) (use st' in simp)
  define mc2 where "mc2 = mc1 \<lparr> mc_Batches := batch_spec (upto_block ta_BlockNumber (ch_Txs ch) b) \<rparr>"
  have "mc_Batches mc1 = batch_spec (upto_block ta_BlockNumber (ch_Txs ch) a)" using st' by (simp add: mc1_def)
  from addTransactions_spec [OF this, of "between ta_BlockNumber (ch_Txs ch) (a + 1) b"] ok
  have s2: "syncBatches N (a + 1) b mc1 = Inr mc2"
    using N chain_upto(1) [OF ok le] by (simp add: syncBatches_def node_tells_def mc2_def chain_ok_def between_def)
  define mc3 where "mc3 = mc2 \<lparr> mc_NumExecutionHalfSteps := ch_NumHalfSteps ch b,
      mc_CipherExecutionReceipts := receipts_spec ch (ch_NumHalfSteps ch b) \<rparr>"
  have s3: "syncExecutionState N b mc2 = Inr mc3"
    unfolding mc3_def by (rule syncExecutionState_spec [OF ok N mono(2)]) (use st' in \<open>simp_all add: mc1_def mc2_def\<close>)
  define mc4 where "mc4 = mc3 \<lparr> mc_Deposits := deposit_spec (upto_block dc_BlockNumber (ch_Deposits ch) b) \<rparr>"
  have "mc_Deposits mc3 = deposit_spec (upto_block dc_BlockNumber (ch_Deposits ch) a)"
    using st' by (simp add: mc1_def mc2_def mc3_def)
  from changeDeposits_spec [OF this, of "between dc_BlockNumber (ch_Deposits ch) (a + 1) b"]
  have s4: "syncDeposits N (a + 1) b mc3 = Inr mc4"
    using N chain_upto(2) [OF ok le] by (simp add: syncDeposits_def node_tells_def mc4_def)
  have "accusations_are (upto_block ka_BlockNumber (ch_Accused ch) a) (upto_block kp_BlockNumber (ch_Appealed ch) a)
      (mc_Accusations mc4)"
    using st' by (simp add: accusations_are_def mc1_def mc2_def mc3_def mc4_def)
  from syncSlashings_spec [OF ok N le this] obtain al where
    s5: "syncSlashings N (a + 1) b mc4 = Inr (mc4 \<lparr> mc_Accusations := al \<rparr>)"
    and al: "accusations_are (upto_block ka_BlockNumber (ch_Accused ch) b) (upto_block kp_BlockNumber (ch_Appealed ch) b) al"
    by auto
  let ?mc' = "mc4 \<lparr> mc_Accusations := al, mc_CurrentBlock := b, mc_NodeSyncProgress := p \<rparr>"
  have "mc_SyncToHead N mc = Inr ?mc'"
    using False by (simp add: mc_SyncToHead_def p head Let_def s1 s2 s3 s4 s5 flip: a_def b_def)
  moreover have "state_at ch (mc_CurrentBlock ?mc') ?mc'"
    using al by (simp add: state_at_def accusations_are_def mc1_def mc2_def mc3_def mc4_def)
  ultimately show ?thesis by (intro exI [of _ ?mc']) (simp add: b_def)
qed

lemma state_at_NewMainChain:
  assumes "chain_ok ch" "ch_NumConfigs ch 0 = 0" "ch_NumHalfSteps ch 0 = 0"
  shows "state_at ch 0 (NewMainChain d)"
  using assms
  by (simp add: state_at_def NewMainChain_def range64_def receipts_spec_def executed_receipts_def upto_block_0 chain_ok_def batch_spec_def
      deposit_spec_def accusation_spec_def fun_eq_iff)

end
