(* ===== verification/DecideProps.thy ===== *)
theory DecideProps
  imports DecideDKGFacts ObserveMainFacts
begin

text \<open>
  What the decider does with batches: which half steps it executes and when, how it counts decryption
  signatures, whom it accuses, and how long a keyper waits for its turn.
\<close>

section \<open>Execution\<close>

text \<open>The half step that an action executes, and the conditions under which a keyper may execute it.\<close>

fun executes :: "'g2 IAction \<Rightarrow> u64 option" where
  "executes (ExecuteCipherBatch batchIndex hash txs keyperIndex gas) = Some (2 * batchIndex)"
| "executes (ExecutePlainBatch batchIndex txs gas) = Some (2 * batchIndex + 1)"
| "executes (SkipCipherBatch batchIndex) = Some (2 * batchIndex)"
| "executes _ = None"

definition enough_signatures :: "ContractConfig \<Rightarrow> Batch \<Rightarrow> bool" where
  "enough_signatures config batch \<longleftrightarrow>
     ba_DecryptedTransactions batch = [] \<or> cc_Threshold config \<le> of_nat (ba_SignatureCount batch)"

fun may_execute :: "address \<Rightarrow> ('g1, 'g2, 'sk, 'ek, 'dk) Decider \<Rightarrow> ContractConfig \<Rightarrow> u64 \<Rightarrow> 'g2 IAction \<Rightarrow> bool" where
  "may_execute me d config end_block (ExecuteCipherBatch batchIndex hash txs keyperIndex gas) \<longleftrightarrow>
     mc_CurrentBlock (dc_MainChain d) < end_block + cc_ExecutionTimeout config \<and>
     cc_KeyperIndex config me = Some keyperIndex \<and> hash = mb_EncryptedBatchHash (main_Batch batchIndex d) \<and>
     (\<exists>batch. map_of (st_Batches (dc_State d)) batchIndex = Some batch \<and> enough_signatures config batch \<and>
        txs = ba_DecryptedTransactions batch)"
| "may_execute me d config end_block (ExecutePlainBatch batchIndex txs gas) \<longleftrightarrow>
     cc_IsKeyper config me \<and> txs = mb_PlainTransactions (main_Batch batchIndex d)"
| "may_execute me d config end_block (SkipCipherBatch batchIndex) \<longleftrightarrow>
     end_block + cc_ExecutionTimeout config \<le> mc_CurrentBlock (dc_MainChain d)"
| "may_execute me d config end_block _ \<longleftrightarrow> False"

definition execution_ok :: "('pk, 'sk, 'ek, 'dk) eth \<Rightarrow> ('g1, 'g2, 'sk, 'ek, 'dk) Decider \<Rightarrow> 'g2 IAction \<Rightarrow> bool" where
  "execution_ok E d a \<longleftrightarrow> (\<exists>config end_block h.
     executes a = Some h \<and> ConfigForBatchIndex (dc_MainChain d) (h div 2) = Inr (Some config) \<and>
     BatchEndBlock config (h div 2) = Inr end_block \<and>
     may_execute (Config_Address E (dc_Config d)) d config end_block a)"

lemma half_step_parts:
  "(h :: u64) mod 2 = 0 \<Longrightarrow> 2 * (h div 2) = h"
  "(h :: u64) mod 2 \<noteq> 0 \<Longrightarrow> 2 * (h div 2) + 1 = h"
proof -
  have "2 * (h div 2) + h mod 2 = h" by (rule mult_div_mod_eq)
  moreover have "h mod 2 = 0 \<or> h mod 2 = 1"
    by (simp add: mod_2_eq_odd)
  ultimately show "h mod 2 = 0 \<Longrightarrow> 2 * (h div 2) = h" "h mod 2 \<noteq> 0 \<Longrightarrow> 2 * (h div 2) + 1 = h"
    by auto
qed

lemma maybeExecuteHalfStepE:
  assumes "maybeExecuteHalfStep E h d = Inr (Some a)"
  obtains config delay end_block where "ConfigForBatchIndex (dc_MainChain d) (h div 2) = Inr (Some config)"
    "executionDelay E config h d = Inr delay" "BatchEndBlock config (h div 2) = Inr end_block"
  using assms by (auto simp: maybeExecuteHalfStep_def result_bind_Inr_iff Let_def split: option.splits)

lemma maybeExecuteHalfStep_ok:
  assumes "maybeExecuteHalfStep E h d = Inr (Some a)"
  shows "executes a = Some h \<and> execution_ok E d a"
proof -
  from assms obtain config delay end_block where
    facts: "ConfigForBatchIndex (dc_MainChain d) (h div 2) = Inr (Some config)"
      "executionDelay E config h d = Inr delay" "BatchEndBlock config (h div 2) = Inr end_block"
    by (rule maybeExecuteHalfStepE)
  have "executes a = Some h \<and> may_execute (Config_Address E (dc_Config d)) d config end_block a"
  proof (cases "h mod 2 = 0")
    case True
    then show ?thesis
      using assms facts half_step_parts(1) [OF True]
      by (auto simp: maybeExecuteHalfStep_def executeCipherBatch_def enough_signatures_def Let_def not_less
          split: if_splits option.splits)
  next
    case False
    then show ?thesis
      using assms facts half_step_parts(2) [OF False]
      by (auto simp: maybeExecuteHalfStep_def executePlainBatch_def Let_def split: if_splits)
  qed
  with facts show ?thesis by (auto simp: execution_ok_def)
qed

lemma maybeExecuteHalfStep_cipher:
  assumes "maybeExecuteHalfStep E h d = Inr (Some (ExecuteCipherBatch i hash txs k gas))"
  shows "i = h div 2" "\<exists>config batch. ConfigForBatchIndex (dc_MainChain d) i = Inr (Some config) \<and>
    map_of (st_Batches (dc_State d)) i = Some batch \<and> enough_signatures config batch \<and> txs = ba_DecryptedTransactions batch"
proof -
  from assms obtain config delay end_block where
    facts: "ConfigForBatchIndex (dc_MainChain d) (h div 2) = Inr (Some config)"
      "executionDelay E config h d = Inr delay" "BatchEndBlock config (h div 2) = Inr end_block"
    by (rule maybeExecuteHalfStepE)
  then show i: "i = h div 2"
    using assms by (auto simp: maybeExecuteHalfStep_def executeCipherBatch_def executePlainBatch_def Let_def
        split: if_splits option.splits)
  from maybeExecuteHalfStep_ok [OF assms] facts show "\<exists>config batch.
    ConfigForBatchIndex (dc_MainChain d) i = Inr (Some config) \<and> map_of (st_Batches (dc_State d)) i = Some batch \<and>
    enough_signatures config batch \<and> txs = ba_DecryptedTransactions batch"
    unfolding i by (auto simp: execution_ok_def)
qed

lemma execution_ok_cong:
  assumes "dc_MainChain d' = dc_MainChain d" "dc_Config d' = dc_Config d" "st_Batches (dc_State d') = st_Batches (dc_State d)"
  shows "execution_ok E d' = execution_ok E d"
proof
  fix a
  have "may_execute me d' config b a = may_execute me d config b a" for me config b
    by (cases a) (simp_all add: main_Batch_def assms)
  then show "execution_ok E d' a = execution_ok E d a" by (simp add: execution_ok_def assms)
qed

lemma executeHalfSteps_spec:
  assumes "executeHalfSteps E hs d = Inr d'"
  shows "\<exists>as. dc_Actions d' = dc_Actions d @ as \<and> length as \<le> length hs \<and>
    map executes as = map Some (take (length as) hs) \<and> (\<forall>a\<in>set as. execution_ok E d a) \<and>
    st_PendingHalfStep (dc_State d') = (if as = [] then st_PendingHalfStep (dc_State d) else executes (last as))"
  using assms
proof (induction E hs d rule: executeHalfSteps.induct)
  case (2 E h hs d)
  from "2.prems" obtain act where act: "maybeExecuteHalfStep E h d = Inr act" by (auto simp: result_bind_Inr_iff)
  show ?case
  proof (cases act)
    case None
    with "2.prems" act show ?thesis by (intro exI [of _ "[]"]) simp
  next
    case (Some a)
    let ?d = "set_state (\<lambda>st. st \<lparr> st_PendingHalfStep := Some h \<rparr>) (addAction a d)"
    have ok: "execution_ok E ?d = execution_ok E d"
      by (rule execution_ok_cong) (simp_all add: set_state_def addAction_def)
    from "2.prems" act Some have "executeHalfSteps E hs ?d = Inr d'" by simp
    from "2.IH" [OF this] obtain as where as: "dc_Actions d' = dc_Actions ?d @ as" "length as \<le> length hs"
      "map executes as = map Some (take (length as) hs)" "\<forall>a\<in>set as. execution_ok E ?d a"
      "st_PendingHalfStep (dc_State d') = (if as = [] then Some h else executes (last as))"
      by (auto simp: set_state_def)
    moreover have "executes a = Some h" "execution_ok E d a"
      using maybeExecuteHalfStep_ok act Some by blast+
    ultimately show ?thesis
      unfolding ok by (intro exI [of _ "a # as"]) (simp add: set_state_def addAction_def)
  qed
qed (auto intro: exI [of _ "[]"])

lemma getNumHalfSteps_bounds:
  "unat (getNumHalfStepsToExecute n batchIndex) \<le> 10"
  "unat n + unat (getNumHalfStepsToExecute n batchIndex) \<le> max (unat n) (unat (batchIndex * 2))"
proof -
  have "unat (batchIndex * 2 - n) = unat (batchIndex * 2) - unat n" if "\<not> batchIndex * 2 \<le> n"
    by (rule unat_sub_u64) (use that in simp)
  then show "unat (getNumHalfStepsToExecute n batchIndex) \<le> 10"
    "unat n + unat (getNumHalfStepsToExecute n batchIndex) \<le> max (unat n) (unat (batchIndex * 2))"
    by (auto simp: getNumHalfStepsToExecute_def maxParallelHalfSteps_def Let_def word_le_nat_alt)
qed

lemma take_range64:
  assumes "unat n + unat k < 2 ^ 64" "m \<le> unat k"
  shows "length (range64 n (n + k)) = unat k" "take m (range64 n (n + k)) = map (\<lambda>i. n + of_nat i) [0..<m]"
proof -
  have "unat (n + k) = unat n + unat k" by (rule unat_add_u64) (use assms in simp)
  then show "length (range64 n (n + k)) = unat k" "take m (range64 n (n + k)) = map (\<lambda>i. n + of_nat i) [0..<m]"
    using assms(2) by (auto simp: range64_def intro!: nth_equalityI)
qed

text \<open>The half steps that \<open>maybeExecuteBatch\<close> starts: consecutive, due, and none while one is pending.\<close>

lemma resetPendingHalfStep_None:
  "st_PendingHalfStep (dc_State (resetPendingHalfStep d)) = None \<longleftrightarrow>
     (\<forall>p. st_PendingHalfStep (dc_State d) = Some p \<longrightarrow> p < mc_NumExecutionHalfSteps (dc_MainChain d))"
  by (auto simp: resetPendingHalfStep_def set_state_def split: option.splits)

lemma resetPendingHalfStep_keeps [simp]:
  "dc_Actions (resetPendingHalfStep d) = dc_Actions d" "dc_MainChain (resetPendingHalfStep d) = dc_MainChain d"
  "dc_Config (resetPendingHalfStep d) = dc_Config d"
  "st_Batches (dc_State (resetPendingHalfStep d)) = st_Batches (dc_State d)"
  by (auto simp: resetPendingHalfStep_def set_state_def split: option.splits)

lemma maybeExecuteBatch_spec:
  assumes "maybeExecuteBatch E d = Inr d'"
  shows "\<exists>as. dc_Actions d' = dc_Actions d @ as \<and> length as \<le> 10 \<and>
    map executes as = map (\<lambda>i. Some (mc_NumExecutionHalfSteps (dc_MainChain d) + of_nat i)) [0..<length as] \<and>
    (\<forall>a\<in>set as. execution_ok E d a) \<and>
    (as \<noteq> [] \<longrightarrow> st_PendingHalfStep (dc_State d') = executes (last as) \<and>
       (\<forall>p. st_PendingHalfStep (dc_State d) = Some p \<longrightarrow> p < mc_NumExecutionHalfSteps (dc_MainChain d)))"
proof -
  let ?n = "mc_NumExecutionHalfSteps (dc_MainChain d)" and ?d = "resetPendingHalfStep d"
  obtain config where config: "CurrentConfig (dc_MainChain d) = Inr config"
    using assms by (auto simp: maybeExecuteBatch_def result_bind_Inr_iff)
  have ok: "execution_ok E ?d = execution_ok E d" by (rule execution_ok_cong) simp_all
  consider "dc_Actions d' = dc_Actions d"
    | batchIndex where "\<forall>p. st_PendingHalfStep (dc_State d) = Some p \<longrightarrow> p < ?n"
      "executeHalfSteps E (range64 ?n (?n + getNumHalfStepsToExecute ?n batchIndex)) ?d = Inr d'"
    using assms config resetPendingHalfStep_None [of d]
    by (auto simp: maybeExecuteBatch_def result_bind_Inr_iff Let_def split: if_splits)
  then show ?thesis
  proof cases
    case 1
    then show ?thesis by (intro exI [of _ "[]"]) simp
  next
    case 2
    let ?k = "getNumHalfStepsToExecute ?n batchIndex"
    have k: "unat ?n + unat ?k < 2 ^ 64" "unat ?k \<le> 10"
      using getNumHalfSteps_bounds [of ?n batchIndex] unsigned_less [of ?n, where ?'a = nat] unsigned_less [of "batchIndex * 2", where ?'a = nat] by auto
    from executeHalfSteps_spec [OF 2(2)] 2(1) k take_range64 [OF k(1)] show ?thesis
      unfolding ok by (fastforce simp: comp_def)
  qed
qed

section \<open>Whose turn it is\<close>

text \<open>The delay in natural numbers: the place in the order times the staggering.\<close>

definition max_stagger :: "ContractConfig \<Rightarrow> nat" where
  "max_stagger config = (let n = length (cc_Keypers config) in if n \<le> 1 then 0 else unat (cc_ExecutionTimeout config) div (2 * (n - 1)))"

lemma turn_bound: "place < n \<Longrightarrow> place * (if n \<le> 1 then 0 else t div (2 * (n - 1))) \<le> t div (2 :: nat)"
proof (cases "n \<le> 1")
  case False
  assume "place < n"
  then have "place \<le> n - 1" by simp
  then have "place * (t div (2 * (n - 1))) \<le> (n - 1) * (t div 2 div (n - 1))"
    by (simp add: div_mult2_eq)
  also have "\<dots> \<le> t div 2" by simp
  finally show ?thesis using False by simp
qed simp

lemma executionDelay_place:
  assumes n: "length (cc_Keypers config) = n" "0 < n" "n < 2 ^ 62" and h: "unat h + n < 2 ^ 64"
    and k: "cc_KeyperIndex config (Config_Address E (dc_Config d)) = Some k"
  shows "\<exists>delay. executionDelay E config h d = Inr delay \<and>
    unat delay = ((unat h + unat k) mod n) * min (max_stagger config) (unat (kc_ExecutionStaggering (dc_Config d)))"
proof -
  let ?s = "kc_ExecutionStaggering (dc_Config d)" and ?t = "cc_ExecutionTimeout config"
  let ?max = "(if of_nat n - 1 = (0 :: u64) then 0 else ?t div (2 * (of_nat n - 1)))"
  have n64: "unat (of_nat n :: u64) = n" by (rule unat_of_nat_u64) (use n in simp)
  have d64: "unat (of_nat n - 1 :: u64) = n - 1"
    using n n64 by (subst unat_sub_u64) (simp_all add: word_le_nat_alt)
  have k': "unat k < n" using cc_KeyperIndex_SomeD [OF k] n by simp
  have max: "unat ?max = max_stagger config"
  proof (cases "n = 1")
    case False
    have "unat (2 * (of_nat n - 1) :: u64) = 2 * (n - 1)"
      using n d64 by (subst unat_mult_u64) simp_all
    moreover have "of_nat n - 1 \<noteq> (0 :: u64)" using d64 False n by (auto simp: unat_eq_0 [symmetric])
    ultimately show ?thesis using False n by (simp add: max_stagger_def unat_div)
  qed (simp add: max_stagger_def n)
  have sum: "unat (h + k) = unat h + unat k" by (rule unat_add_u64) (use h k' in simp)
  have place: "unat ((h + k) mod of_nat n) = (unat h + unat k) mod n" by (simp add: unat_mod n64 sum)
  have stag: "unat (if ?s \<ge> ?max then ?max else ?s) = min (max_stagger config) (unat ?s)"
    unfolding max [symmetric] by (simp add: word_le_nat_alt min_def)
  have "(unat h + unat k) mod n * min (max_stagger config) (unat ?s) \<le> (unat h + unat k) mod n * max_stagger config" by simp
  also have "\<dots> \<le> unat ?t div 2"
    using turn_bound [of "(unat h + unat k) mod n" n "unat ?t"] n by (simp add: max_stagger_def Let_def)
  finally have "unat ((h + k) mod of_nat n) * unat (if ?s \<ge> ?max then ?max else ?s) < 2 ^ 64"
    unfolding place stag using unsigned_less [of ?t, where ?'a = nat] by simp
  then have "unat ((h + k) mod of_nat n * (if ?s \<ge> ?max then ?max else ?s)) =
      ((unat h + unat k) mod n) * min (max_stagger config) (unat ?s)"
    using place stag by (subst unat_mult_u64) simp_all
  moreover have "of_nat n \<noteq> (0 :: u64)" using n64 n by (auto simp: unat_eq_0 [symmetric])
  ultimately show ?thesis using n(1) k by (simp add: executionDelay_def Let_def)
qed

lemma executionDelay_le:
  assumes "length (cc_Keypers config) = n" "0 < n" "n < 2 ^ 62" "unat h + n < 2 ^ 64"
    "cc_KeyperIndex config (Config_Address E (dc_Config d)) = Some k" "executionDelay E config h d = Inr delay"
  shows "unat delay \<le> unat (cc_ExecutionTimeout config) div 2"
proof -
  have "unat delay \<le> ((unat h + unat k) mod n) * max_stagger config"
    using executionDelay_place [OF assms(1-5)] assms(6) by auto
  also have "\<dots> \<le> unat (cc_ExecutionTimeout config) div 2"
    using turn_bound [of "(unat h + unat k) mod n" n "unat (cc_ExecutionTimeout config)"] assms(1, 2)
    by (simp add: max_stagger_def Let_def)
  finally show ?thesis .
qed

text \<open>Two keypers never have the same place.\<close>

lemma mod_add_inj: "i < n \<Longrightarrow> j < n \<Longrightarrow> (h + i) mod n = (h + j) mod (n :: nat) \<Longrightarrow> i = j"
proof (induction i j rule: linorder_wlog)
  case (le i j)
  then have "(h + j) mod n = (h + i) mod n" "h + i \<le> h + j" by simp_all
  then have "n dvd (h + j) - (h + i)" using mod_eq_dvd_iff_nat by blast
  then have "n dvd j - i" by simp
  with le show ?case using nat_dvd_not_less [of "j - i" n] by (cases "i < j") auto
qed simp

section \<open>Counting signatures\<close>

text \<open>The signatures the keyper has looked at are counted.\<close>

definition counted :: "('pk, 'sk, 'ek, 'dk) eth \<Rightarrow> ContractConfig \<Rightarrow> DecryptionSignature list \<Rightarrow> Batch \<Rightarrow> bool" where
  "counted E config sigs batch \<longleftrightarrow>
     ba_DecryptionSignatureIndex batch \<le> length sigs \<and>
     ba_SignatureCount batch =
       length (filter (counts E config batch) (take (ba_DecryptionSignatureIndex batch) sigs))"

lemma counts_cong:
  "ba_DecryptionSignatureHash b = ba_DecryptionSignatureHash b' \<Longrightarrow> counts E config b = counts E config b'"
  by (auto simp: counts_def VerifySignature_def fun_eq_iff)

lemma counted_append: "counted E config sigs batch \<Longrightarrow> counted E config (sigs @ new) batch"
  by (simp add: counted_def)

lemma counted_fresh: "ba_DecryptionSignatureIndex batch = 0 \<Longrightarrow> ba_SignatureCount batch = 0 \<Longrightarrow> counted E config sigs batch"
  by (simp add: counted_def)

text \<open>Counting only the new ones gives what counting all of them gives.\<close>

lemma syncBatch_counts:
  assumes sh: "sh_Batches (dc_Shielder d) (ba_BatchIndex batch) = Some bd"
    and config: "ConfigForBatchIndex (dc_MainChain d) (ba_BatchIndex batch) = Inr (Some config)"
    and txs: "ba_DecryptedTransactions batch \<noteq> []"
    and counted: "counted E config (bd_DecryptionSignatures bd) batch"
  shows "syncBatch E batch d = Inr (batch \<lparr>
      ba_SignatureCount := length (filter (counts E config batch) (bd_DecryptionSignatures bd)),
      ba_DecryptionSignatureIndex := length (bd_DecryptionSignatures bd) \<rparr>)"
proof -
  let ?sigs = "bd_DecryptionSignatures bd" and ?i = "ba_DecryptionSignatureIndex batch"
  have "filter (counts E config batch) ?sigs =
      filter (counts E config batch) (take ?i ?sigs) @ filter (counts E config batch) (drop ?i ?sigs)"
    by (metis append_take_drop_id filter_append)
  with counted have "length (filter (counts E config batch) ?sigs) =
      ba_SignatureCount batch + length (filter (counts E config batch) (drop ?i ?sigs))"
    by (simp add: counted_def)
  then show ?thesis using sh config txs by (simp add: syncBatch_def Let_def)
qed

lemma syncBatch_counted:
  assumes "sh_Batches (dc_Shielder d) (ba_BatchIndex batch) = Some bd"
    and "ConfigForBatchIndex (dc_MainChain d) (ba_BatchIndex batch) = Inr (Some config)"
    and "counted E config (bd_DecryptionSignatures bd) batch" "syncBatch E batch d = Inr batch'"
  shows "counted E config (bd_DecryptionSignatures bd) batch'"
proof (cases "ba_DecryptedTransactions batch = []")
  case True
  then show ?thesis using assms by (simp add: syncBatch_def)
next
  case False
  from syncBatch_counts [OF assms(1, 2) False assms(3)] assms(4)
  have "batch' = batch \<lparr> ba_SignatureCount := length (filter (counts E config batch) (bd_DecryptionSignatures bd)),
      ba_DecryptionSignatureIndex := length (bd_DecryptionSignatures bd) \<rparr>" by simp
  then show ?thesis
    using counts_cong [of batch' batch E config] by (simp add: counted_def)
qed

text \<open>Who signs once is counted once: so many keypers have signed the batch.\<close>

lemma counted_signers:
  assumes "distinct (map ds_Sender sigs)"
  shows "card {k \<in> set (cc_Keypers config). \<exists>s\<in>set sigs. ds_Sender s = k \<and> VerifySignature E batch k (ds_Signature s)} =
    length (filter (counts E config batch) sigs)"
proof -
  let ?good = "filter (counts E config batch) sigs"
  have "{k \<in> set (cc_Keypers config). \<exists>s\<in>set sigs. ds_Sender s = k \<and> VerifySignature E batch k (ds_Signature s)} =
      set (map ds_Sender ?good)"
    by (auto simp: counts_def)
  moreover have "distinct (map ds_Sender ?good)" by (rule distinct_map_filter) (rule assms)
  ultimately show ?thesis using distinct_card by fastforce
qed

section \<open>Accusations\<close>

text \<open>The half steps for which the keyper accuses: it decrypted something else, and nobody has accused yet.\<close>

definition suspicious :: "('g1, 'g2, 'sk, 'ek, 'dk) Decider \<Rightarrow> u64 \<Rightarrow> bool" where
  "suspicious d h \<longleftrightarrow> h mod 2 = 0 \<and> map_of (mc_Accusations (dc_MainChain d)) h = None \<and>
     (\<exists>receipt batch. mc_CipherExecutionReceipts (dc_MainChain d) h = Some receipt \<and>
        map_of (st_Batches (dc_State d)) (h div 2) = Some batch \<and> ba_DecryptedBatchHash batch \<noteq> cr_BatchHash receipt)"

definition accusation :: "address \<Rightarrow> ('g1, 'g2, 'sk, 'ek, 'dk) Decider \<Rightarrow> u64 \<Rightarrow> 'g2 IAction option" where
  "accusation me d h =
     (if suspicious d h
      then (case ConfigForBatchIndex (dc_MainChain d) (h div 2) of
              Inr (Some config) \<Rightarrow> Some (Accuse h (case cc_KeyperIndex config me of None \<Rightarrow> 0 | Some i \<Rightarrow> i))
            | _ \<Rightarrow> None)
      else None)"

definition with_actions :: "'g2 IAction list \<Rightarrow> ('g1, 'g2, 'sk, 'ek, 'dk) Decider \<Rightarrow> ('g1, 'g2, 'sk, 'ek, 'dk) Decider" where
  "with_actions as d = d \<lparr> dc_Actions := dc_Actions d @ as \<rparr>"

lemma with_actions_simps [simp]:
  "dc_MainChain (with_actions as d) = dc_MainChain d" "dc_Config (with_actions as d) = dc_Config d"
  "dc_State (with_actions as d) = dc_State d" "dc_Shielder (with_actions as d) = dc_Shielder d"
  "dc_Actions (with_actions as d) = dc_Actions d @ as"
  "with_actions [] d = d" "with_actions bs (with_actions as d) = with_actions (as @ bs) d"
  "addAction a d = with_actions [a] d"
  by (simp_all add: with_actions_def addAction_def)

lemma accuse_one_spec:
  assumes "accuse_one E h d = Inr d'"
  shows "d' = with_actions (case accusation (Config_Address E (dc_Config d)) d h of None \<Rightarrow> [] | Some a \<Rightarrow> [a]) d"
proof (cases "suspicious d h")
  case True
  then obtain receipt batch where facts: "h mod 2 = 0" "map_of (mc_Accusations (dc_MainChain d)) h = None"
    "mc_CipherExecutionReceipts (dc_MainChain d) h = Some receipt" "map_of (st_Batches (dc_State d)) (h div 2) = Some batch"
    "ba_DecryptedBatchHash batch \<noteq> cr_BatchHash receipt"
    by (auto simp: suspicious_def)
  with assms obtain cfg where cfg: "ConfigForBatchIndex (dc_MainChain d) (h div 2) = Inr cfg"
    by (auto simp: accuse_one_def result_bind_Inr_iff)
  show ?thesis
    using assms facts cfg True by (cases cfg) (simp_all add: accuse_one_def accusation_def)
next
  case False
  with assms have "d' = d"
    by (auto simp: accuse_one_def suspicious_def Let_def split: if_splits option.splits)
  with False show ?thesis by (simp add: accusation_def)
qed

lemma suspicious_with_actions: "suspicious (with_actions as d) = suspicious d"
  by (rule ext) (simp add: suspicious_def)

lemma accusation_with_actions: "accusation me (with_actions as d) = accusation me d"
  by (rule ext) (simp add: accusation_def suspicious_with_actions)

lemma set_map_filter: "set (List.map_filter f xs) = {y. \<exists>x\<in>set xs. f x = Some y}"
  by (induction xs) (auto simp: List.map_filter_simps split: option.splits)

lemma accuse_loop:
  "loop_result (accuse_one E) hs d = Inr d' \<Longrightarrow>
   d' = with_actions (List.map_filter (accusation (Config_Address E (dc_Config d)) d) hs) d"
proof (induction hs arbitrary: d)
  case (Cons h hs)
  then obtain d1 where d1: "accuse_one E h d = Inr d1" "loop_result (accuse_one E) hs d1 = Inr d'"
    by (auto simp: result_bind_Inr_iff)
  from Cons.IH [OF d1(2)] accuse_one_spec [OF d1(1)] show ?case
    by (simp add: accusation_with_actions List.map_filter_simps split: option.splits)
qed (simp add: List.map_filter_simps)

lemma maybeAccuse_spec:
  assumes "maybeAccuse E d = Inr d'"
  shows "dc_Actions d' = dc_Actions d @ List.map_filter (accusation (Config_Address E (dc_Config d)) d)
      (range64 (st_HalfStepsChecked (dc_State d)) (mc_NumExecutionHalfSteps (dc_MainChain d)))"
    and "st_HalfStepsChecked (dc_State d') = mc_NumExecutionHalfSteps (dc_MainChain d)"
proof -
  obtain d1 where d1: "loop_result (accuse_one E)
      (range64 (st_HalfStepsChecked (dc_State d)) (mc_NumExecutionHalfSteps (dc_MainChain d))) d = Inr d1"
    and d': "d' = set_state (\<lambda>st. st \<lparr> st_HalfStepsChecked := mc_NumExecutionHalfSteps (dc_MainChain d1) \<rparr>) d1"
    using assms by (auto simp: maybeAccuse_def result_bind_Inr_iff)
  from accuse_loop [OF d1] d' show
    "dc_Actions d' = dc_Actions d @ List.map_filter (accusation (Config_Address E (dc_Config d)) d)
      (range64 (st_HalfStepsChecked (dc_State d)) (mc_NumExecutionHalfSteps (dc_MainChain d)))"
    "st_HalfStepsChecked (dc_State d') = mc_NumExecutionHalfSteps (dc_MainChain d)"
    by (simp_all add: set_state_def)
qed

section \<open>Configs that are not the last\<close>

text \<open>An eon that starts before the last config the keyper knows of stops the keyper.\<close>

lemma startDKG_old_config:
  assumes "sh_BatchConfigs (dc_Shielder d) \<noteq> []"
    and "es_BatchIndex (eo_StartEvent eon) < bc_StartBatchIndex (last (sh_BatchConfigs (dc_Shielder d)))"
  shows "\<exists>p. startDKG E eon d = Inl (Panic p)"
  using assms FindBatchConfigByBatchIndex_eq [of "dc_Shielder d" "es_BatchIndex (eo_StartEvent eon)"]
  by (auto simp: startDKG_def not_le)

section \<open>Messages of the key generations\<close>

text \<open>What a step of a key generation leaves of the rest: the run, the eon it belongs to, the keypers.\<close>

lemma dkg_known_typed:
  assumes "dkg_known B sh dkg"
  shows "wf_dkg B (dg_Pure dkg)" "pd_Eon (dg_Pure dkg) = dg_Eon dkg"
    "pd_NumKeypers (dg_Pure dkg) = of_nat (length (dg_Keypers dkg))"
proof -
  obtain t k where run: "dkg_run B (NewPureDKG (dg_Eon dkg) (of_nat (length (dg_Keypers dkg))) t k) (dg_Pure dkg)"
    using assms by (auto simp: dkg_known_def)
  from dkg_run_wf [OF run wf_NewPureDKG] show "wf_dkg B (dg_Pure dkg)" .
  from dkg_run_recorded [OF run] show "pd_Eon (dg_Pure dkg) = dg_Eon dkg"
    "pd_NumKeypers (dg_Pure dkg) = of_nat (length (dg_Keypers dkg))"
    by (simp_all add: recorded_def NewPureDKG_def)
qed

lemma dec_inv_dkg: "dec_inv B d \<Longrightarrow> dkg \<in> set (st_DKGs (dc_State d)) \<Longrightarrow> dkg_known B (dc_Shielder d) dkg"
  by (simp add: dec_inv_def dkgs_inv_def)

text \<open>An eon behind the ones that were started.\<close>

lemma maybeStartDKG_old_config:
  assumes eons: "sh_Eons (dc_Shielder d) = old @ eon # new" "\<forall>eo\<in>set old. eo_Eon eo \<le> st_LastEonStarted (dc_State d)"
    and eon: "st_LastEonStarted (dc_State d) < eo_Eon eon"
    and config: "sh_BatchConfigs (dc_Shielder d) \<noteq> []"
      "es_BatchIndex (eo_StartEvent eon) < bc_StartBatchIndex (last (sh_BatchConfigs (dc_Shielder d)))"
  shows "\<exists>p. maybeStartDKG E d = Inl (Panic p)"
proof -
  have old: "loop_result (\<lambda>eon dcdr. if st_LastEonStarted (dc_State dcdr) < eo_Eon eon
       then result_bind (startDKG E eon dcdr) (\<lambda>dcdr'. Inr (set_state (\<lambda>st. st \<lparr> st_LastEonStarted := eo_Eon eon \<rparr>) dcdr'))
       else Inr dcdr) old d = Inr d"
    using eons(2) by (induction old) (auto simp: not_less [symmetric])
  obtain p where "startDKG E eon d = Inl (Panic p)" using startDKG_old_config [OF config] by blast
  then show ?thesis using old eon by (simp add: maybeStartDKG_def eons(1) loop_result_append)
qed

end
