(* ===== verification/RunEnv.thy ===== *)
theory RunEnv
  imports Actions
begin

text \<open>
  \<open>keyper/fx/runenv.go\<close>: running the pending actions. The three channels are the lists of the ids that
  wait in them. A worker handles an id in one step of the model: what it changes (the pending actions, the
  channel behind it) it changes at the end of its loop. What the node and the contracts answer differs from
  one attempt to the next, so the loop of retries reads the answers of its \<open>k\<close>-th attempt.
\<close>

section \<open>Operations\<close>

record ('g2, 'sk) RunEnv =
  re_PendingActions :: "'g2 PendingActions"
  re_MessageSender :: "'sk RPCMessageSender"
  re_shuttermintMessages :: "ActionID list"
  re_mainChainTXs :: "ActionID list"
  re_inFlightMainChainTXs :: "ActionID list"

definition NewRunEnv :: "'sk RPCMessageSender \<Rightarrow> ('g2, 'sk) RunEnv" where
  "NewRunEnv messageSender =
     \<lparr> re_PendingActions = NewPendingActions, re_MessageSender = messageSender,
       re_shuttermintMessages = [], re_mainChainTXs = [], re_inFlightMainChainTXs = [] \<rparr>"

text \<open>What the world answers to one attempt.\<close>

record answers =
  an_MainChain :: MainChain
  an_Tm :: tm_rpc
  an_Eth :: eth_client
  an_Nonce :: u64

definition scheduleAction :: "ActionID \<Rightarrow> ('g2, 'sk) RunEnv \<Rightarrow> ('g2, 'sk) RunEnv result" where
  "scheduleAction aid env =
     (case GetAction aid (re_PendingActions env) of
        None \<Rightarrow> Inl (Panic ''cannot run nil'')
      | Some act \<Rightarrow>
          Inr (if \<not> is_MainChainTX act
               then env \<lparr> re_shuttermintMessages := re_shuttermintMessages env @ [aid] \<rparr>
               else if GetMainChainTXHash aid (re_PendingActions env) \<noteq> zero_hash
               then env \<lparr> re_inFlightMainChainTXs := re_inFlightMainChainTXs env @ [aid] \<rparr>
               else env \<lparr> re_mainChainTXs := re_mainChainTXs env @ [aid] \<rparr>))"

definition RunActions :: "u64 \<Rightarrow> 'g2 IAction list \<Rightarrow> ('g2, 'sk) RunEnv \<Rightarrow> ('g2, 'sk) RunEnv result" where
  "RunActions actionCounter actions env =
     (if actions = [] then Inr env
      else result_bind (AddActions actionCounter actions (re_PendingActions env)) (\<lambda>((startID, endID), pending).
           loop_result scheduleAction (range64 startID endID) (env \<lparr> re_PendingActions := pending \<rparr>)))"

text \<open>
  \<open>Load\<close> in a new process: \<open>pending\<close> is what the file holds. The result says whether anything is pending.
\<close>

definition Load :: "'g2 PendingActions \<Rightarrow> ('g2, 'sk) RunEnv \<Rightarrow> (bool \<times> ('g2, 'sk) RunEnv) result" where
  "Load pending env =
     (let env' = env \<lparr> re_PendingActions := pending \<rparr>;
          sortedIDs = SortedIDs pending
      in result_bind (loop_result scheduleAction sortedIDs env') (\<lambda>env''. Inr (sortedIDs \<noteq> [], env'')))"

text \<open>\<open>auth.Context = ctx\<close> is evaluated before the error of \<open>Auth\<close> is looked at, when \<open>auth\<close> is nil.\<close>

definition sendMainChainTX ::
  "('g1, 'g2, 'gt) bn256 \<Rightarrow> answers \<Rightarrow> ActionID \<Rightarrow> 'g2 IAction \<Rightarrow> ('g2, 'sk) RunEnv \<Rightarrow>
   (go_error option \<times> ('g2, 'sk) RunEnv) result" where
  "sendMainChainTX B an aid act env =
     (case Auth (an_Eth an) of
        Inl err \<Rightarrow> Inl (Panic ''nil pointer'')
      | Inr auth \<Rightarrow>
          (case SendTX B (an_Eth an) auth act of
             Inl (Panic p) \<Rightarrow> Inl (Panic p)
           | Inl (Errorf e) \<Rightarrow> Inr (Some (Errorf e), env)
           | Inr hash \<Rightarrow> Inr (None, env \<lparr>
               re_PendingActions := SetMainChainTXHash aid hash (re_PendingActions env),
               re_inFlightMainChainTXs := re_inFlightMainChainTXs env @ [aid] \<rparr>)))"

text \<open>Whether to remove the action, the error, the next state.\<close>

definition handleAction ::
  "('g1, 'g2, 'gt) bn256 \<Rightarrow> ('pk, 'sk, 'ek, 'dk) eth \<Rightarrow> proto \<Rightarrow> answers \<Rightarrow> ActionID \<Rightarrow> 'g2 IAction \<Rightarrow>
   ('g2, 'sk) RunEnv \<Rightarrow> (bool \<times> send_error option \<times> ('g2, 'sk) RunEnv) result" where
  "handleAction B E P an aid act env =
     (if \<not> is_MainChainTX act
      then (let (err, ms) = SendMessage E P (an_Tm an) (an_Nonce an) (ac_Msg act) (re_MessageSender env)
            in Inr (err = None, err, env \<lparr> re_MessageSender := ms \<rparr>))
      else result_bind (sendMainChainTX B an aid act env) (\<lambda>(err, env').
           Inr (False, map_option OtherError err, env')))"

text \<open>The inner loop of \<open>handleActions\<close>; \<open>None\<close>: it retries for ever.\<close>

partial_function (option) handle_loop ::
  "('g1, 'g2, 'gt) bn256 \<Rightarrow> ('pk, 'sk, 'ek, 'dk) eth \<Rightarrow> proto \<Rightarrow> (nat \<Rightarrow> answers) \<Rightarrow> nat \<Rightarrow> ActionID \<Rightarrow>
   'g2 IAction \<Rightarrow> ('g2, 'sk) RunEnv \<Rightarrow> (bool \<times> ('g2, 'sk) RunEnv) result option" where
  "handle_loop B E P an k aid act env =
     (if IsExpired (an_MainChain (an k)) act then Some (Inr (True, env))
      else (case handleAction B E P (an k) aid act env of
              Inl p \<Rightarrow> Some (Inl p)
            | Inr (remove, err, env') \<Rightarrow>
                (case err of
                   None \<Rightarrow> Some (Inr (remove, env'))
                 | Some e \<Rightarrow> if \<not> IsRetriable e then Some (Inr (True, env'))
                            else handle_loop B E P an (k + 1) aid act env')))"

definition handle_id ::
  "('g1, 'g2, 'gt) bn256 \<Rightarrow> ('pk, 'sk, 'ek, 'dk) eth \<Rightarrow> proto \<Rightarrow> (nat \<Rightarrow> answers) \<Rightarrow> ActionID \<Rightarrow>
   ('g2, 'sk) RunEnv \<Rightarrow> ('g2, 'sk) RunEnv result option" where
  "handle_id B E P an aid env =
     (case GetAction aid (re_PendingActions env) of
        None \<Rightarrow> Some (Inl (Panic ''nil pointer''))
      | Some act \<Rightarrow>
          (case handle_loop B E P an 0 aid act env of
             None \<Rightarrow> None
           | Some (Inl p) \<Rightarrow> Some (Inl p)
           | Some (Inr (remove, env')) \<Rightarrow>
               Some (Inr (if remove then env' \<lparr> re_PendingActions := RemoveAction aid (re_PendingActions env') \<rparr>
                          else env'))))"

text \<open>\<open>waitMined\<close> only logs what became of the transaction; it stops the program for the zero hash.\<close>

definition waitMined :: "ActionID \<Rightarrow> ('g2, 'sk) RunEnv \<Rightarrow> unit result" where
  "waitMined aid env =
     (if GetMainChainTXHash aid (re_PendingActions env) = zero_hash
      then Inl (Panic ''cannot wait for the zero hash'') else Inr ())"

definition handle_inFlight :: "ActionID \<Rightarrow> ('g2, 'sk) RunEnv \<Rightarrow> ('g2, 'sk) RunEnv result" where
  "handle_inFlight aid env =
     result_bind (waitMined aid env) (\<lambda>_.
     Inr (env \<lparr> re_PendingActions := RemoveAction aid (re_PendingActions env) \<rparr>))"

section \<open>Steps\<close>

text \<open>
  One worker each takes the ids of the first two channels in order; twenty workers wait for transactions
  in flight, which are mined in any order. A restart reads the pending actions from the file. The hash of
  a transaction is never the zero hash.
\<close>

definition hashes_ok :: "('g1, 'g2, 'gt) bn256 \<Rightarrow> (nat \<Rightarrow> answers) \<Rightarrow> bool" where
  "hashes_ok B an \<longleftrightarrow> (\<forall>k auth act hash. SendTX B (an_Eth (an k)) auth act = Inr hash \<longrightarrow> hash \<noteq> zero_hash)"

inductive worker_step ::
  "('g1, 'g2, 'gt) bn256 \<Rightarrow> ('pk, 'sk, 'ek, 'dk) eth \<Rightarrow> proto \<Rightarrow> ('g2, 'sk) RunEnv \<Rightarrow> ('g2, 'sk) RunEnv \<Rightarrow> bool"
  for B E P where
  rs_message: "re_shuttermintMessages env = aid # rest \<Longrightarrow>
     handle_id B E P an aid (env \<lparr> re_shuttermintMessages := rest \<rparr>) = Some (Inr env') \<Longrightarrow> worker_step B E P env env'"
| rs_tx: "re_mainChainTXs env = aid # rest \<Longrightarrow> hashes_ok B an \<Longrightarrow>
     handle_id B E P an aid (env \<lparr> re_mainChainTXs := rest \<rparr>) = Some (Inr env') \<Longrightarrow> worker_step B E P env env'"
| rs_mined: "aid \<in> set (re_inFlightMainChainTXs env) \<Longrightarrow>
     handle_inFlight aid (env \<lparr> re_inFlightMainChainTXs := remove1 aid (re_inFlightMainChainTXs env) \<rparr>) = Inr env' \<Longrightarrow>
     worker_step B E P env env'"

inductive runenv_step ::
  "('g1, 'g2, 'gt) bn256 \<Rightarrow> ('pk, 'sk, 'ek, 'dk) eth \<Rightarrow> proto \<Rightarrow> ('g2, 'sk) RunEnv \<Rightarrow> ('g2, 'sk) RunEnv \<Rightarrow> bool"
  for B E P where
  rs_run: "RunActions actionCounter actions env = Inr env' \<Longrightarrow>
     unat actionCounter + length actions < 2 ^ 64 \<Longrightarrow> runenv_step B E P env env'"
| rs_worker: "worker_step B E P env env' \<Longrightarrow> runenv_step B E P env env'"
| rs_restart: "Load (re_PendingActions env) (NewRunEnv ms) = Inr (havePending, env') \<Longrightarrow> runenv_step B E P env env'"

end
