(* ===== verification/RunEnvFacts.thy ===== *)
theory RunEnvFacts
  imports RunEnv ObserveMainFacts
begin

text \<open>
  No action is lost: in every state that the steps of \<open>RunEnv\<close> reach, each pending action waits in exactly
  one channel, the one its kind and its transaction hash say, and the two channels with one worker hold the
  actions in the order in which they were added.
\<close>

section \<open>Channels\<close>

datatype channel = Messages | Transactions | InFlight

fun queue :: "channel \<Rightarrow> ('g2, 'sk) RunEnv \<Rightarrow> ActionID list" where
  "queue Messages env = re_shuttermintMessages env"
| "queue Transactions env = re_mainChainTXs env"
| "queue InFlight env = re_inFlightMainChainTXs env"

definition channel_of :: "'g2 PendingActions \<Rightarrow> ActionID \<Rightarrow> channel option" where
  "channel_of pending aid = map_option (\<lambda>act.
     if \<not> is_MainChainTX act then Messages
     else if GetMainChainTXHash aid pending \<noteq> zero_hash then InFlight else Transactions) (GetAction aid pending)"

definition pending_inv :: "'g2 PendingActions \<Rightarrow> bool" where
  "pending_inv pending \<longleftrightarrow> distinct (map fst (pa_ActionMap pending)) \<and>
     (\<forall>aid. GetAction aid pending \<noteq> None \<longrightarrow> aid < pa_CurrentID pending) \<and>
     (\<forall>aid. pa_MainChainTXHashes pending aid \<noteq> None \<longrightarrow> GetAction aid pending \<noteq> None)"

definition runenv_inv :: "('g2, 'sk) RunEnv \<Rightarrow> bool" where
  "runenv_inv env \<longleftrightarrow> pending_inv (re_PendingActions env) \<and>
     (\<forall>ch. distinct (queue ch env) \<and>
        (\<forall>aid. aid \<in> set (queue ch env) \<longleftrightarrow> channel_of (re_PendingActions env) aid = Some ch)) \<and>
     sorted (queue Messages env) \<and> sorted (queue Transactions env)"

lemma pending_inv_New [simp]: "pending_inv NewPendingActions"
  unfolding pending_inv_def NewPendingActions_def GetAction_def by simp

lemma runenv_inv_New: "runenv_inv (NewRunEnv ms :: ('g2, 'sk) RunEnv)"
proof -
  let ?env = "NewRunEnv ms :: ('g2, 'sk) RunEnv"
  have p: "re_PendingActions ?env = NewPendingActions" by (simp add: NewRunEnv_def)
  have "channel_of (re_PendingActions ?env) aid = None" for aid
    unfolding p by (simp add: channel_of_def GetAction_def NewPendingActions_def)
  moreover have "queue ch ?env = []" for ch by (cases ch) (simp_all add: NewRunEnv_def)
  ultimately show ?thesis unfolding runenv_inv_def by (simp only: p pending_inv_New) simp
qed

section \<open>Adding actions\<close>

lemma put_actions_keys: "distinct (map fst m) \<Longrightarrow> distinct (map fst (put_actions a acts m))"
  by (induction a acts m rule: put_actions.induct) (simp_all add: distinct_update)

lemma unat_plus_1: "unat (a :: u64) + 1 < 2 ^ 64 \<Longrightarrow> unat (a + 1) = unat a + 1"
  using unat_add_u64 [of a 1] by simp

lemma map_of_put_actions:
  "unat a + length acts < 2 ^ 64 \<Longrightarrow>
   map_of (put_actions a acts m) i =
     (if unat a \<le> unat i \<and> unat i < unat a + length acts then Some (acts ! (unat i - unat a)) else map_of m i)"
proof (induction a acts m rule: put_actions.induct)
  case (2 a act acts m)
  have "unat (a + 1) = unat a + 1" using 2(2) by (intro unat_plus_1) simp
  moreover have "unat i \<noteq> unat a" if "i \<noteq> a" using that by (simp add: word_unat_eq_iff)
  ultimately show ?case
    using 2 by (cases "i = a") (auto simp: update_conv' nth_Cons')
qed auto

lemma unat_diff_le: "b \<le> (a :: u64) \<Longrightarrow> unat (a - b) = unat a - unat b"
  by (rule unat_sub)

text \<open>
  \<open>id\<close> is the id of the first action. Those below the current id were added before; the others get the
  ids from the current one.
\<close>

lemma AddActions_spec:
  assumes "aid \<le> pa_CurrentID pending" "unat aid + length actions < 2 ^ 64"
  obtains P where
    "AddActions aid actions pending = Inr ((pa_CurrentID pending, pa_CurrentID P), P)"
    "pa_MainChainTXHashes P = pa_MainChainTXHashes pending"
    "unat (pa_CurrentID P) = max (unat (pa_CurrentID pending)) (unat aid + length actions)"
    "\<And>i. GetAction i P = (if pa_CurrentID pending \<le> i \<and> i < pa_CurrentID P then Some (actions ! (unat i - unat aid))
       else GetAction i pending)"
    "distinct (map fst (pa_ActionMap pending)) \<Longrightarrow> distinct (map fst (pa_ActionMap P))"
proof -
  let ?c = "pa_CurrentID pending" and ?n = "length actions"
  have sum: "unat (aid + of_nat ?n) = unat aid + ?n"
    using assms(2) by (subst unat_add_u64) (simp_all add: unat_of_nat_u64)
  show thesis
  proof (cases "?c \<ge> aid + of_nat ?n")
    case True
    then have "unat aid + ?n \<le> unat ?c" by (simp add: word_le_nat_alt sum)
    moreover have "AddActions aid actions pending = Inr ((?c, ?c), pending)"
      using assms(1) True by (simp add: AddActions_def not_less Let_def)
    ultimately show thesis by (intro that [of pending]) (auto simp: word_le_nat_alt word_less_nat_alt)
  next
    case False
    then have lt: "unat ?c < unat aid + ?n" by (simp add: word_le_nat_alt sum)
    define k where "k = unat (?c - aid)"
    have k: "k = unat ?c - unat aid" "unat aid \<le> unat ?c"
      using assms(1) by (simp_all add: k_def unat_diff_le word_le_nat_alt)
    define acts where "acts = drop k actions"
    have len: "unat ?c + length acts = unat aid + ?n" using k lt by (simp add: acts_def)
    define P where "P = pending \<lparr> pa_ActionMap := put_actions ?c acts (pa_ActionMap pending),
        pa_CurrentID := ?c + of_nat (length acts) \<rparr>"
    have cur: "unat (pa_CurrentID P) = unat aid + ?n"
      unfolding P_def using assms(2) len by (simp add: unat_add_u64 unat_of_nat_u64)
    have "AddActions aid actions pending = Inr ((?c, pa_CurrentID P), P)"
      using assms(1) False k lt
      by (simp add: AddActions_def Let_def P_def acts_def not_less flip: k_def)
    moreover have "GetAction i P = (if ?c \<le> i \<and> i < pa_CurrentID P then Some (actions ! (unat i - unat aid))
       else GetAction i pending)" for i
    proof -
      have "GetAction i P = (if unat ?c \<le> unat i \<and> unat i < unat ?c + length acts
          then Some (acts ! (unat i - unat ?c)) else GetAction i pending)"
        using assms(2) len by (simp add: GetAction_def P_def map_of_put_actions)
      then show ?thesis
        using k by (auto simp: word_le_nat_alt word_less_nat_alt cur len acts_def)
    qed
    ultimately show thesis
      using lt cur by (intro that [of P]) (simp_all add: P_def put_actions_keys)
  qed
qed

section \<open>Scheduling\<close>

text \<open>The ids that go to a channel, in the given order.\<close>

definition ids_for :: "'g2 PendingActions \<Rightarrow> channel \<Rightarrow> ActionID list \<Rightarrow> ActionID list" where
  "ids_for pending ch ids = filter (\<lambda>aid. channel_of pending aid = Some ch) ids"

lemma scheduleAction_all:
  assumes "\<forall>aid\<in>set ids. GetAction aid (re_PendingActions env) \<noteq> None"
  shows "loop_result scheduleAction ids env = Inr (env \<lparr>
    re_shuttermintMessages := queue Messages env @ ids_for (re_PendingActions env) Messages ids,
    re_mainChainTXs := queue Transactions env @ ids_for (re_PendingActions env) Transactions ids,
    re_inFlightMainChainTXs := queue InFlight env @ ids_for (re_PendingActions env) InFlight ids \<rparr>)"
  using assms
proof (induction ids arbitrary: env)
  case Nil
  then show ?case by (simp add: ids_for_def)
next
  case (Cons aid ids)
  obtain act where act: "GetAction aid (re_PendingActions env) = Some act" using Cons.prems by auto
  obtain env' where env': "scheduleAction aid env = Inr env'" "re_PendingActions env' = re_PendingActions env"
    and rest: "env' = env \<lparr>
      re_shuttermintMessages := queue Messages env @ ids_for (re_PendingActions env) Messages [aid],
      re_mainChainTXs := queue Transactions env @ ids_for (re_PendingActions env) Transactions [aid],
      re_inFlightMainChainTXs := queue InFlight env @ ids_for (re_PendingActions env) InFlight [aid] \<rparr>"
    by (simp add: scheduleAction_def act ids_for_def channel_of_def)
  have "loop_result scheduleAction ids env' = Inr (env' \<lparr>
    re_shuttermintMessages := queue Messages env' @ ids_for (re_PendingActions env') Messages ids,
    re_mainChainTXs := queue Transactions env' @ ids_for (re_PendingActions env') Transactions ids,
    re_inFlightMainChainTXs := queue InFlight env' @ ids_for (re_PendingActions env') InFlight ids \<rparr>)"
    by (rule Cons.IH) (use Cons.prems env'(2) in simp)
  then show ?case unfolding env'(1) loop_result.simps result_bind.simps rest by (simp add: ids_for_def)
qed

lemma queue_scheduled:
  "queue ch (env \<lparr> re_shuttermintMessages := f Messages, re_mainChainTXs := f Transactions,
     re_inFlightMainChainTXs := f InFlight \<rparr>) = f ch"
  by (cases ch) simp_all

lemma set_ids_for: "aid \<in> set (ids_for pending ch ids) \<longleftrightarrow> aid \<in> set ids \<and> channel_of pending aid = Some ch"
  by (auto simp: ids_for_def)

lemma channel_of_None_iff: "channel_of pending aid = None \<longleftrightarrow> GetAction aid pending = None"
  by (simp add: channel_of_def)

lemma sorted_filter_id: "sorted xs \<Longrightarrow> sorted (filter p xs)"
  using sorted_filter [of id xs p] by simp

lemma runenv_inv_Load:
  assumes "pending_inv pending" "Load pending (NewRunEnv ms) = Inr (havePending, env')"
  shows "runenv_inv env'"
proof -
  let ?ids = "SortedIDs pending"
  have ids: "set ?ids = {aid. GetAction aid pending \<noteq> None}"
    by (auto simp: SortedIDs_def GetAction_def map_of_eq_None_iff)
  have dist: "distinct ?ids" "sorted ?ids" using assms(1) by (simp_all add: pending_inv_def SortedIDs_def)
  let ?env = "NewRunEnv ms \<lparr> re_PendingActions := pending \<rparr>"
  have q: "queue ch ?env = []" for ch by (cases ch) (simp_all add: NewRunEnv_def)
  have e: "env' = ?env \<lparr> re_shuttermintMessages := ids_for pending Messages ?ids,
      re_mainChainTXs := ids_for pending Transactions ?ids, re_inFlightMainChainTXs := ids_for pending InFlight ?ids \<rparr>"
    using assms(2) scheduleAction_all [of ?ids ?env] ids q by (simp add: Load_def Let_def)
  have q': "queue ch env' = ids_for pending ch ?ids" for ch unfolding e by (rule queue_scheduled)
  have p: "re_PendingActions env' = pending" unfolding e by simp
  have "aid \<in> set (ids_for pending ch ?ids) \<longleftrightarrow> channel_of pending aid = Some ch" for aid ch
    unfolding set_ids_for ids using channel_of_None_iff [of pending aid] by auto
  then show ?thesis
    using assms(1) dist unfolding runenv_inv_def q' p by (simp add: ids_for_def sorted_filter_id)
qed

lemma Load_ok:
  assumes "pending_inv pending"
  obtains havePending env' where "Load pending (NewRunEnv ms) = Inr (havePending, env')"
    "re_PendingActions env' = pending" "runenv_inv env'"
proof -
  let ?env = "NewRunEnv ms \<lparr> re_PendingActions := pending \<rparr>"
  have "\<forall>aid\<in>set (SortedIDs pending). GetAction aid (re_PendingActions ?env) \<noteq> None"
    by (auto simp: SortedIDs_def GetAction_def map_of_eq_None_iff)
  from scheduleAction_all [OF this] obtain havePending env' where
    l: "Load pending (NewRunEnv ms) = Inr (havePending, env')" "re_PendingActions env' = pending"
    by (simp add: Load_def Let_def)
  with runenv_inv_Load [OF assms l(1)] show thesis by (intro that)
qed

lemma runenv_inv_RunActions:
  assumes inv: "runenv_inv env" and run: "RunActions actionCounter actions env = Inr env'"
    and small: "unat actionCounter + length actions < 2 ^ 64"
  shows "runenv_inv env'"
proof (cases "actions = []")
  case True
  then show ?thesis using run inv by (simp add: RunActions_def)
next
  case False
  let ?p = "re_PendingActions env"
  from inv have p: "pending_inv ?p" by (simp add: runenv_inv_def)
  have le: "actionCounter \<le> pa_CurrentID ?p"
    using run False by (auto simp: RunActions_def AddActions_def not_less split: if_splits)
  obtain P where add: "AddActions actionCounter actions ?p = Inr ((pa_CurrentID ?p, pa_CurrentID P), P)"
    and hashes: "pa_MainChainTXHashes P = pa_MainChainTXHashes ?p"
    and cur: "unat (pa_CurrentID P) = max (unat (pa_CurrentID ?p)) (unat actionCounter + length actions)"
    and get: "\<And>i. GetAction i P = (if pa_CurrentID ?p \<le> i \<and> i < pa_CurrentID P
        then Some (actions ! (unat i - unat actionCounter)) else GetAction i ?p)"
    and dist: "distinct (map fst (pa_ActionMap P))"
    by (rule AddActions_spec [OF le small]) (use p in \<open>auto simp: pending_inv_def\<close>)
  let ?ids = "range64 (pa_CurrentID ?p) (pa_CurrentID P)"
  have new: "channel_of ?p i = None" if "i \<in> set ?ids" for i
    using p that unfolding channel_of_None_iff set_range64 pending_inv_def by (meson not_le)
  have old: "channel_of P i = channel_of ?p i" if "i \<notin> set ?ids" for i
  proof -
    have "GetAction i P = GetAction i ?p" using that unfolding get set_range64 by (rule if_not_P)
    then show ?thesis by (simp add: channel_of_def GetMainChainTXHash_def hashes)
  qed
  have pinv: "pending_inv P"
  proof -
    have "pa_CurrentID ?p \<le> pa_CurrentID P" using cur by (simp add: word_le_nat_alt)
    then have "i < pa_CurrentID P" if "GetAction i ?p \<noteq> None" for i
      using p that unfolding pending_inv_def by (meson order.strict_trans2)
    then show ?thesis using p dist by (auto simp: pending_inv_def get hashes)
  qed
  let ?env = "env \<lparr> re_PendingActions := P \<rparr>"
  have q: "queue ch ?env = queue ch env" for ch by (cases ch) simp_all
  have have_ids: "\<forall>aid\<in>set ?ids. GetAction aid P \<noteq> None" by (simp add: get set_range64)
  have e: "env' = ?env \<lparr> re_shuttermintMessages := queue Messages env @ ids_for P Messages ?ids,
      re_mainChainTXs := queue Transactions env @ ids_for P Transactions ?ids,
      re_inFlightMainChainTXs := queue InFlight env @ ids_for P InFlight ?ids \<rparr>"
    using run False scheduleAction_all [of ?ids ?env] have_ids q by (simp add: RunActions_def add)
  have q': "queue ch env' = queue ch env @ ids_for P ch ?ids" for ch unfolding e by (rule queue_scheduled)
  have p': "re_PendingActions env' = P" unfolding e by simp
  have mem: "aid \<in> set (queue ch env) \<longleftrightarrow> channel_of ?p aid = Some ch" for aid ch
    using inv by (simp add: runenv_inv_def)
  have "aid \<in> set (queue ch env @ ids_for P ch ?ids) \<longleftrightarrow> channel_of P aid = Some ch" for aid ch
    using new old by (cases "aid \<in> set ?ids") (simp_all add: mem set_ids_for)
  moreover have range: "sorted ?ids" "distinct ?ids"
    by (simp_all add: sorted_range64 distinct_range64)
  moreover have "distinct (queue ch env @ ids_for P ch ?ids)" for ch
    using inv new range by (auto simp: runenv_inv_def set_ids_for mem) (simp add: ids_for_def)
  moreover have sorted: "sorted (queue ch env @ ids_for P ch ?ids)" if "sorted (queue ch env)" for ch
  proof -
    have "x \<le> y" if "x \<in> set (queue ch env)" "y \<in> set (ids_for P ch ?ids)" for x y
    proof -
      have "GetAction x ?p \<noteq> None" using that(1) unfolding mem channel_of_None_iff [symmetric] by simp
      then have "x < pa_CurrentID ?p" using p by (simp add: pending_inv_def)
      moreover have "pa_CurrentID ?p \<le> y" using that(2) by (simp add: set_ids_for set_range64)
      ultimately show ?thesis by (rule less_imp_le [OF order.strict_trans2])
    qed
    then show ?thesis using that range by (simp add: sorted_append ids_for_def sorted_filter_id)
  qed
  ultimately show ?thesis
    using inv pinv sorted [of Messages] sorted [of Transactions] unfolding runenv_inv_def q' p' by (simp del: queue.simps)
qed

section \<open>Workers\<close>

text \<open>
  A message is always removed from the pending actions, whatever happened to it. A transaction is removed
  when it has expired, and handed to the workers that wait for it when it was sent.
\<close>

definition tx_sent :: "('g1, 'g2, 'gt) bn256 \<Rightarrow> (nat \<Rightarrow> answers) \<Rightarrow> ActionID \<Rightarrow> 'g2 IAction \<Rightarrow>
   ('g2, 'sk) RunEnv \<Rightarrow> ('g2, 'sk) RunEnv \<Rightarrow> bool" where
  "tx_sent B an aid act env env' \<longleftrightarrow> (\<exists>k auth hash. SendTX B (an_Eth (an k)) auth act = Inr hash \<and>
     env' = env \<lparr> re_PendingActions := SetMainChainTXHash aid hash (re_PendingActions env),
                  re_inFlightMainChainTXs := re_inFlightMainChainTXs env @ [aid] \<rparr>)"

lemma handleAction_message:
  assumes "\<not> is_MainChainTX act" "handleAction B E P an aid act env = Inr (remove, err, env')"
  shows "remove = (err = None) \<and> (\<exists>ms. env' = env \<lparr> re_MessageSender := ms \<rparr>)"
  using assms by (auto simp: handleAction_def split: prod.splits)

lemma handleAction_tx:
  assumes "is_MainChainTX act" "handleAction B E P (an k) aid act env = Inr (remove, err, env')"
  shows "\<not> remove \<and> (err = None \<and> tx_sent B an aid act env env' \<or>
     (\<exists>e. err = Some (OtherError e)) \<and> env' = env)"
  using assms
  by (auto simp: handleAction_def sendMainChainTX_def tx_sent_def split: sum.splits go_error.splits result_bind_splits)

text \<open>What every attempt keeps holds at the end of the loop.\<close>

lemma handle_loop_induct [consumes 1, case_names expired panic sent failed retry]:
  assumes run: "handle_loop B E P an k aid act env = Some r"
    and expired: "\<And>k env. IsExpired (an_MainChain (an k)) act \<Longrightarrow> Q env (Inr (True, env))"
    and panic: "\<And>k env p. handleAction B E P (an k) aid act env = Inl p \<Longrightarrow> Q env (Inl p)"
    and finish: "\<And>k env rem env'. handleAction B E P (an k) aid act env = Inr (rem, None, env') \<Longrightarrow> Q env (Inr (rem, env'))"
    and failed: "\<And>k env rem e env'. handleAction B E P (an k) aid act env = Inr (rem, Some e, env') \<Longrightarrow>
        \<not> IsRetriable e \<Longrightarrow> Q env (Inr (True, env'))"
    and retry: "\<And>k env rem e env' r. handleAction B E P (an k) aid act env = Inr (rem, Some e, env') \<Longrightarrow>
        IsRetriable e \<Longrightarrow> Q env' r \<Longrightarrow> Q env r"
  shows "Q env r"
proof -
  let ?Pa = "\<lambda>(((((((B', E'), P'), an'), k'), aid'), act'), env') r'.
      B' = B \<and> E' = E \<and> P' = P \<and> an' = an \<and> aid' = aid \<and> act' = act \<longrightarrow> Q env' r'"
  have "?Pa (((((((B, E), P), an), k), aid), act), env) r"
  proof (rule handle_loop.raw_induct [where Pa = ?Pa, OF _ run], goal_cases)
    case (1 loop B' E' P' an' k' aid' act' env' r')
    show ?case
    proof (simp only: case_prod_conv, intro impI, elim conjE)
      assume eqs: "B' = B" "E' = E" "P' = P" "an' = an" "aid' = aid" "act' = act"
      note body = 1(2) [unfolded eqs]
      show "Q env' r'"
      proof (cases "IsExpired (an_MainChain (an k')) act")
        case True
        then show ?thesis using body expired by auto
      next
        case False
        show ?thesis
        proof (cases "handleAction B E P (an k') aid act env'")
          case (Inl p)
          then show ?thesis using body False panic by auto
        next
          case (Inr v)
          obtain rem err env1 where v: "v = (rem, err, env1)" by (rule prod_cases3)
          show ?thesis
          proof (cases err)
            case None
            then show ?thesis using body False Inr v finish by auto
          next
            case (Some e)
            show ?thesis
            proof (cases "IsRetriable e")
              case True
              then have "loop B E P an (k' + 1) aid act env1 = Some r'" using body False Inr v Some by simp
              from 1(1) [OF this] have "Q env1 r'" by simp
              then show ?thesis using retry Inr v Some True by blast
            next
              case False
              then show ?thesis using body \<open>\<not> IsExpired _ _\<close> Inr v Some failed by auto
            qed
          qed
        qed
      qed
    qed
  qed
  then show ?thesis by simp
qed

lemma handle_loop_message:
  assumes "handle_loop B E P an k aid act env = Some r" "\<not> is_MainChainTX act"
  shows "\<exists>ms. r = Inr (True, env \<lparr> re_MessageSender := ms \<rparr>)"
  using assms(1)
proof (induction rule: handle_loop_induct)
  case (expired k env)
  show ?case by (rule exI [of _ "re_MessageSender env"]) simp
next
  case (panic k env p)
  then show ?case using assms(2) by (simp add: handleAction_def split: prod.splits)
next
  case (sent k env rem env')
  then show ?case using handleAction_message [OF assms(2)] by fastforce
next
  case (failed k env rem e env')
  then show ?case using handleAction_message [OF assms(2)] by fastforce
next
  case (retry k env rem e env' r)
  from handleAction_message [OF assms(2) retry(1)] obtain ms where "env' = env \<lparr> re_MessageSender := ms \<rparr>" by auto
  with retry(3) show ?case by auto
qed

lemma handle_loop_tx:
  assumes "handle_loop B E P an k aid act env = Some r" "is_MainChainTX act"
  shows "(\<exists>p. r = Inl p) \<or> r = Inr (True, env) \<or> (\<exists>env'. r = Inr (False, env') \<and> tx_sent B an aid act env env')"
  using assms(1)
proof (induction rule: handle_loop_induct)
  case (sent k env rem env')
  then show ?case using handleAction_tx [where an = an and k = k, OF assms(2) sent] by auto
next
  case (failed k env rem e env')
  then show ?case using handleAction_tx [where an = an and k = k, OF assms(2) failed(1)] by auto
next
  case (retry k env rem e env' r)
  then show ?case using handleAction_tx [where an = an and k = k, OF assms(2) retry(1)] by auto
qed simp_all

section \<open>The invariant\<close>

lemma GetAction_RemoveAction: "GetAction i (RemoveAction aid p) = (if i = aid then None else GetAction i p)"
  by (simp add: GetAction_def RemoveAction_def delete_conv')

lemma channel_of_RemoveAction: "channel_of (RemoveAction aid p) i = (if i = aid then None else channel_of p i)"
  unfolding channel_of_def GetAction_RemoveAction GetMainChainTXHash_def by (simp add: RemoveAction_def)

lemma pending_inv_RemoveAction: "pending_inv p \<Longrightarrow> pending_inv (RemoveAction aid p)"
  unfolding pending_inv_def GetAction_RemoveAction by (auto simp: RemoveAction_def distinct_delete)

lemma runenv_inv_remove:
  assumes inv: "runenv_inv env" and p: "re_PendingActions env' = RemoveAction aid (re_PendingActions env)"
    and q: "\<And>ch. queue ch env' = remove1 aid (queue ch env)"
  shows "runenv_inv env'"
proof -
  have "aid' \<in> set (remove1 aid (queue ch env)) \<longleftrightarrow> channel_of (RemoveAction aid (re_PendingActions env)) aid' = Some ch"
    for aid' ch
    using inv by (auto simp: runenv_inv_def channel_of_RemoveAction)
  then show ?thesis
    using inv unfolding runenv_inv_def q p
    by (simp add: pending_inv_RemoveAction sorted_remove1 del: queue.simps)
qed

lemma runenv_inv_sent:
  assumes inv: "runenv_inv env" and aid: "re_mainChainTXs env = aid # rest" and hash: "hash \<noteq> zero_hash"
    and p: "re_PendingActions env' = SetMainChainTXHash aid hash (re_PendingActions env)"
    and q: "queue Messages env' = queue Messages env" "queue Transactions env' = rest"
      "queue InFlight env' = queue InFlight env @ [aid]"
  shows "runenv_inv env'"
proof -
  let ?p = "re_PendingActions env" and ?p' = "SetMainChainTXHash aid hash (re_PendingActions env)"
  have mem: "aid' \<in> set (queue ch env) \<longleftrightarrow> channel_of ?p aid' = Some ch" for aid' ch
    using inv by (simp add: runenv_inv_def)
  have chan: "channel_of ?p aid = Some Transactions" using mem [of aid Transactions] aid by simp
  have get: "GetAction i ?p' = GetAction i ?p" for i by (simp add: GetAction_def SetMainChainTXHash_def)
  have chan': "channel_of ?p' i = (if i = aid then Some InFlight else channel_of ?p i)" for i
  proof (cases "i = aid")
    case True
    have "GetMainChainTXHash aid ?p' = hash" by (simp add: GetMainChainTXHash_def SetMainChainTXHash_def)
    then show ?thesis using True chan hash unfolding channel_of_def get by (auto split: if_splits)
  next
    case False
    then have "GetMainChainTXHash i ?p' = GetMainChainTXHash i ?p"
      by (simp add: GetMainChainTXHash_def SetMainChainTXHash_def)
    then show ?thesis using False unfolding channel_of_def get by simp
  qed
  have dist: "distinct (queue ch env)" for ch using inv by (simp add: runenv_inv_def)
  have d: "aid \<notin> set rest" "distinct rest" using dist [of Transactions] aid by simp_all
  have tq: "queue Transactions env = aid # rest" using aid by simp
  have "aid' \<in> set (queue ch env') \<longleftrightarrow> channel_of ?p' aid' = Some ch" for aid' ch
    using mem [of aid' ch] chan d tq
    by (cases ch) (auto simp: q chan' simp del: queue.simps split: if_splits)
  moreover have "distinct (queue ch env')" for ch
    using dist [of ch] d mem [of aid InFlight] chan by (cases ch) (simp_all add: q del: queue.simps)
  moreover have "pending_inv ?p'"
  proof -
    have "GetAction aid ?p \<noteq> None" using chan channel_of_None_iff [of ?p aid] by auto
    moreover have "pending_inv ?p" using inv by (simp add: runenv_inv_def)
    ultimately show ?thesis unfolding pending_inv_def get by (auto simp: SetMainChainTXHash_def)
  qed
  moreover have "sorted (queue Messages env')" "sorted (queue Transactions env')"
    using inv aid unfolding q by (simp_all add: runenv_inv_def)
  ultimately show ?thesis by (simp add: runenv_inv_def p del: queue.simps)
qed

lemma runenv_inv_channel:
  "runenv_inv env \<Longrightarrow> aid \<in> set (queue ch env) \<Longrightarrow> channel_of (re_PendingActions env) aid = Some ch"
  by (simp add: runenv_inv_def del: queue.simps)

lemma not_InFlight_remove1:
  assumes "runenv_inv env" "channel_of (re_PendingActions env) aid = Some c" "ch \<noteq> c"
  shows "remove1 aid (queue ch env) = queue ch env"
proof (rule remove1_idem, rule notI)
  assume "aid \<in> set (queue ch env)"
  from runenv_inv_channel [OF assms(1) this] assms(2, 3) show False by simp
qed

text \<open>Every step keeps the invariant.\<close>

lemma worker_step_inv:
  assumes "worker_step B E P env env'" "runenv_inv env"
  shows "runenv_inv env'"
  using assms
proof (induction rule: worker_step.induct)
  case (rs_message env aid rest an env')
  let ?env = "env \<lparr> re_shuttermintMessages := rest \<rparr>"
  have chan: "channel_of (re_PendingActions env) aid = Some Messages"
    using rs_message(1) by (intro runenv_inv_channel [OF rs_message(3)]) simp
  then obtain act where act: "GetAction aid (re_PendingActions env) = Some act" "\<not> is_MainChainTX act"
    by (auto simp: channel_of_def split: if_splits)
  from rs_message(2) act(1) obtain r where r: "handle_loop B E P an 0 aid act ?env = Some r"
    by (auto simp: handle_id_def split: option.splits)
  from handle_loop_message [OF r act(2)] obtain ms where "r = Inr (True, ?env \<lparr> re_MessageSender := ms \<rparr>)" by auto
  then have env': "env' = ?env \<lparr> re_MessageSender := ms, re_PendingActions := RemoveAction aid (re_PendingActions env) \<rparr>"
    using rs_message(2) act(1) r by (simp add: handle_id_def)
  show ?case
  proof (rule runenv_inv_remove [OF rs_message(3)])
    show "re_PendingActions env' = RemoveAction aid (re_PendingActions env)" by (simp add: env')
    fix ch
    show "queue ch env' = remove1 aid (queue ch env)"
      using rs_message(1) not_InFlight_remove1 [OF rs_message(3) chan, of ch] by (cases ch) (simp_all add: env')
  qed
next
  case (rs_tx env aid rest an env')
  let ?env = "env \<lparr> re_mainChainTXs := rest \<rparr>"
  have chan: "channel_of (re_PendingActions env) aid = Some Transactions"
    using rs_tx(1) by (intro runenv_inv_channel [OF rs_tx(4)]) simp
  then obtain act where act: "GetAction aid (re_PendingActions env) = Some act" "is_MainChainTX act"
    by (auto simp: channel_of_def split: if_splits)
  from rs_tx(3) act(1) obtain r where r: "handle_loop B E P an 0 aid act ?env = Some r"
    by (auto simp: handle_id_def split: option.splits)
  from handle_loop_tx [OF r act(2)] rs_tx(3) act(1) r consider
    "env' = ?env \<lparr> re_PendingActions := RemoveAction aid (re_PendingActions env) \<rparr>" | "tx_sent B an aid act ?env env'"
    by (auto simp: handle_id_def)
  then show ?case
  proof cases
    case 1
    show ?thesis
    proof (rule runenv_inv_remove [OF rs_tx(4)])
      show "re_PendingActions env' = RemoveAction aid (re_PendingActions env)" by (simp add: 1)
      fix ch
      show "queue ch env' = remove1 aid (queue ch env)"
        using rs_tx(1) not_InFlight_remove1 [OF rs_tx(4) chan, of ch] by (cases ch) (simp_all add: 1)
    qed
  next
    case 2
    then obtain k auth hash where "SendTX B (an_Eth (an k)) auth act = Inr hash"
      and env': "env' = ?env \<lparr> re_PendingActions := SetMainChainTXHash aid hash (re_PendingActions env),
        re_inFlightMainChainTXs := re_inFlightMainChainTXs env @ [aid] \<rparr>"
      by (auto simp: tx_sent_def)
    then have "hash \<noteq> zero_hash" using rs_tx(2) by (simp add: hashes_ok_def)
    from runenv_inv_sent [OF rs_tx(4, 1) this, of env'] show ?thesis by (simp add: env')
  qed
next
  case (rs_mined aid env env')
  have chan: "channel_of (re_PendingActions env) aid = Some InFlight"
    using rs_mined(1) by (intro runenv_inv_channel [OF rs_mined(3)]) simp
  have env': "env' = env \<lparr> re_inFlightMainChainTXs := remove1 aid (re_inFlightMainChainTXs env),
      re_PendingActions := RemoveAction aid (re_PendingActions env) \<rparr>"
    using rs_mined(2) by (auto simp: handle_inFlight_def waitMined_def split: if_splits)
  show ?case
  proof (rule runenv_inv_remove [OF rs_mined(3)])
    show "re_PendingActions env' = RemoveAction aid (re_PendingActions env)" by (simp add: env')
    fix ch
    show "queue ch env' = remove1 aid (queue ch env)"
      using not_InFlight_remove1 [OF rs_mined(3) chan, of ch] by (cases ch) (simp_all add: env')
  qed
qed

lemma runenv_step_inv:
  assumes "runenv_step B E P env env'" "runenv_inv env"
  shows "runenv_inv env'"
  using assms
proof (induction rule: runenv_step.induct)
  case (rs_run actionCounter actions env env')
  show ?case by (rule runenv_inv_RunActions [OF rs_run(3, 1, 2)])
next
  case (rs_worker env env')
  then show ?case by (rule worker_step_inv)
next
  case (rs_restart env ms havePending env')
  have "pending_inv (re_PendingActions env)" using rs_restart(2) by (simp add: runenv_inv_def)
  from runenv_inv_Load [OF this rs_restart(1)] show ?case .
qed

end
