(* ===== verification/Keyper.thy ===== *)
theory Keyper
  imports Decide RunEnvFacts
begin

text \<open>
  \<open>keyper/keyper.go\<close>: the keyper's main loop. A keyper keeps its state and the world it last saw, both saved
  in \<open>state.gob\<close> before any action runs, and the pending actions, saved in \<open>actions.gob\<close> by every change of
  them. A process can end at any time; the next one starts from the two files.
\<close>

section \<open>Operations\<close>

record ('g1, 'g2, 'sk, 'ek, 'dk) Keyper =
  kp_Config :: "('sk, 'dk) Config"
  kp_State :: "('g1, 'g2) State"
  kp_World :: "('g1, 'g2, 'ek) World"
  kp_runenv :: "('g2, 'sk) RunEnv"
  kp_StateFile :: "(('g1, 'g2) State \<times> ('g1, 'g2, 'ek) World) option"

text \<open>\<open>NewKeyper\<close> and \<open>init\<close>: a process that has not read its files.\<close>

definition NewKeyper :: "('sk, 'dk) Config \<Rightarrow> ('g1, 'g2, 'sk, 'ek, 'dk) Keyper" where
  "NewKeyper kc =
     \<lparr> kp_Config = kc, kp_State = NewState,
       kp_World = \<lparr> w_Shielder = NewShielder, w_MainChain = NewMainChain (kc_MainChainFollowDistance kc) \<rparr>,
       kp_runenv = NewRunEnv (NewRPCMessageSender (kc_SigningKey kc)), kp_StateFile = None \<rparr>"

definition NewDecider :: "('g1, 'g2, 'sk, 'ek, 'dk) Keyper \<Rightarrow> ('g1, 'g2, 'sk, 'ek, 'dk) Decider" where
  "NewDecider kpr =
     \<lparr> dc_Config = kp_Config kpr, dc_State = kp_State kpr, dc_Shielder = w_Shielder (kp_World kpr),
       dc_MainChain = w_MainChain (kp_World kpr), dc_Actions = [],
       dc_PhaseLength = NewConstantPhaseLength (kc_DKGPhaseLength (kp_Config kpr)) \<rparr>"

text \<open>The decider changes the state and the shielder that the keyper points to.\<close>

definition keyper_decide ::
  "dec_choices \<Rightarrow> ('g1, 'g2, 'gt) bn256 \<Rightarrow> ('pk, 'sk, 'ek, 'dk) eth \<Rightarrow> ('g1, 'g2, 'sk, 'ek, 'dk) Keyper \<Rightarrow>
   ('g2 IAction list \<times> ('g1, 'g2, 'sk, 'ek, 'dk) Keyper) result" where
  "keyper_decide R B E kpr =
     result_bind (Decide R B E (NewDecider kpr)) (\<lambda>decider.
     Inr (dc_Actions decider, kpr \<lparr> kp_State := dc_State decider,
       kp_World := (kp_World kpr) \<lparr> w_Shielder := dc_Shielder decider \<rparr> \<rparr>))"

text \<open>
  A failure to write the file is a panic of the caller; the model writes it, and keeps the value that is
  encoded for the bytes in the file: what decoding makes of it is \<open>gob_State\<close>.
\<close>

definition saveState :: "('g1, 'g2, 'sk, 'ek, 'dk) Keyper \<Rightarrow> ('g1, 'g2, 'sk, 'ek, 'dk) Keyper" where
  "saveState kpr = kpr \<lparr> kp_StateFile := Some (kp_State kpr, kp_World kpr) \<rparr>"

definition runActions :: "('g1, 'g2, 'sk, 'ek, 'dk) Keyper \<Rightarrow> ('g1, 'g2, 'sk, 'ek, 'dk) Keyper result" where
  "runActions kpr =
     result_bind (RunActions (st_ActionCounter (kp_State kpr)) (st_Actions (kp_State kpr)) (kp_runenv kpr)) (\<lambda>runenv.
     Inr (kpr \<lparr> kp_runenv := runenv,
       kp_State := (kp_State kpr) \<lparr>
         st_ActionCounter := st_ActionCounter (kp_State kpr) + of_nat (length (st_Actions (kp_State kpr))),
         st_Actions := [] \<rparr> \<rparr>))"

text \<open>\<open>runOneStep\<close> up to and with \<open>saveState\<close>; \<open>runActions\<close> follows.\<close>

definition decide_and_save ::
  "dec_choices \<Rightarrow> ('g1, 'g2, 'gt) bn256 \<Rightarrow> ('pk, 'sk, 'ek, 'dk) eth \<Rightarrow> ('g1, 'g2, 'sk, 'ek, 'dk) Keyper \<Rightarrow>
   ('g1, 'g2, 'sk, 'ek, 'dk) Keyper result" where
  "decide_and_save R B E kpr =
     (if st_Actions (kp_State kpr) \<noteq> [] then Inl (Panic ''kpr.State.Actions is not empty'')
      else result_bind (keyper_decide R B E kpr) (\<lambda>(actions, kpr').
           Inr (saveState (kpr' \<lparr> kp_State := (kp_State kpr') \<lparr> st_Actions := actions \<rparr> \<rparr>))))"

definition runOneStep ::
  "dec_choices \<Rightarrow> ('g1, 'g2, 'gt) bn256 \<Rightarrow> ('pk, 'sk, 'ek, 'dk) eth \<Rightarrow> ('g1, 'g2, 'sk, 'ek, 'dk) Keyper \<Rightarrow>
   ('g1, 'g2, 'sk, 'ek, 'dk) Keyper result" where
  "runOneStep R B E kpr = result_bind (decide_and_save R B E kpr) runActions"

text \<open>
  The state that decoding the file gives is not always the one encoded. Every element of a slice is sent, and
  decoding allocates it: a nil \<open>*Gammas\<close> is written as no bytes by \<open>GobEncode\<close>, which \<open>GobDecode\<close> reads as an
  empty \<open>Gammas\<close>, and a nil \<open>*big.Int\<close> comes back as 0. A pointer in a struct is sent as what it points to,
  and a zero or an empty slice is not sent: it comes back as nil. All other fields come back as they were.
\<close>

definition gob_Gammas :: "'g2 list option \<Rightarrow> 'g2 list option" where
  "gob_Gammas g = Some (case g of None \<Rightarrow> [] | Some gammas \<Rightarrow> gammas)"

definition gob_Int :: "int option \<Rightarrow> int option" where
  "gob_Int x = Some (case x of None \<Rightarrow> 0 | Some i \<Rightarrow> i)"

definition gob_PureDKG :: "'g2 PureDKG \<Rightarrow> 'g2 PureDKG" where
  "gob_PureDKG pure = pure \<lparr>
     pd_Polynomial := (if pd_Polynomial pure = Some [] then None else pd_Polynomial pure),
     pd_Commitments := map gob_Gammas (pd_Commitments pure),
     pd_Evals := map gob_Int (pd_Evals pure) \<rparr>"

definition gob_DKG :: "'g2 DKG \<Rightarrow> 'g2 DKG" where
  "gob_DKG dkg = dkg \<lparr> dg_Pure := gob_PureDKG (dg_Pure dkg) \<rparr>"

definition gob_State :: "('g1, 'g2) State \<Rightarrow> ('g1, 'g2) State" where
  "gob_State st = st \<lparr>
     st_DKGs := map gob_DKG (st_DKGs st),
     st_PendingHalfStep := (if st_PendingHalfStep st = Some 0 then None else st_PendingHalfStep st) \<rparr>"

text \<open>
  \<open>LoadState\<close> in a new process; a missing file leaves the state of \<open>NewKeyper\<close>. The file is given by the
  state and the world that \<open>saveState\<close> encoded.
\<close>

definition LoadState ::
  "(('g1, 'g2) State \<times> ('g1, 'g2, 'ek) World) option \<Rightarrow> ('g1, 'g2, 'sk, 'ek, 'dk) Keyper \<Rightarrow>
   ('g1, 'g2, 'sk, 'ek, 'dk) Keyper" where
  "LoadState file kpr =
     (case file of
        None \<Rightarrow> kpr \<lparr> kp_StateFile := None \<rparr>
      | Some (saved, world) \<Rightarrow>
          (let st = gob_State saved;
               block = sh_CurrentBlock (w_Shielder world);
               st' = (if st_SyncHeight st = 0 \<and> sint block > 0 then st \<lparr> st_SyncHeight := block \<rparr> else st)
           in kpr \<lparr> kp_State := st', kp_World := world, kp_StateFile := Some (saved, world) \<rparr>))"

text \<open>
  The start of \<open>Run\<close>: the world is what the first synchronisation found, the pending actions are loaded,
  and the actions of the saved state run.
\<close>

definition start_Run ::
  "'g2 PendingActions \<Rightarrow> ('g1, 'g2, 'ek) World \<Rightarrow> ('g1, 'g2, 'sk, 'ek, 'dk) Keyper \<Rightarrow>
   ('g1, 'g2, 'sk, 'ek, 'dk) Keyper result" where
  "start_Run actionsFile world kpr0 =
     (let kpr = kpr0 \<lparr> kp_World := world \<rparr>
      in result_bind (Load actionsFile (kp_runenv kpr)) (\<lambda>(havePendingActions, runenv).
         let kpr1 = kpr \<lparr> kp_runenv := runenv \<rparr>;
             kpr2 = (if \<not> havePendingActions \<and> st_Actions (kp_State kpr1) = [] \<and> st_PendingHalfStep (kp_State kpr1) \<noteq> None
                     then kpr1 \<lparr> kp_State := (kp_State kpr1) \<lparr> st_PendingHalfStep := None \<rparr> \<rparr> else kpr1)
         in if st_Actions (kp_State kpr2) \<noteq> [] then runActions kpr2 else Inr kpr2))"

definition restart_keyper ::
  "('g1, 'g2, 'ek) World \<Rightarrow> ('g1, 'g2, 'sk, 'ek, 'dk) Keyper \<Rightarrow> ('g1, 'g2, 'sk, 'ek, 'dk) Keyper result" where
  "restart_keyper world kpr =
     start_Run (re_PendingActions (kp_runenv kpr)) world (LoadState (kp_StateFile kpr) (NewKeyper (kp_Config kpr)))"

section \<open>Runs with crashes\<close>

text \<open>
  \<open>keyper_run log kpr\<close>: the keyper reaches \<open>kpr\<close>, and \<open>log\<close> are the actions of all the states it saved. The
  process can end between any two steps, also between saving a state and running its actions.
\<close>

inductive keyper_run ::
  "('g1, 'g2, 'gt) bn256 \<Rightarrow> ('pk, 'sk, 'ek, 'dk) eth \<Rightarrow> proto \<Rightarrow> 'g2 IAction list \<Rightarrow>
   ('g1, 'g2, 'sk, 'ek, 'dk) Keyper \<Rightarrow> bool" for B E P where
  kr_new: "keyper_run B E P [] (NewKeyper config)"
| kr_world: "keyper_run B E P log kpr \<Longrightarrow> keyper_run B E P log (kpr \<lparr> kp_World := world \<rparr>)"
| kr_decide: "keyper_run B E P log kpr \<Longrightarrow> decide_and_save R B E kpr = Inr kpr' \<Longrightarrow>
     length log + length (st_Actions (kp_State kpr')) < 2 ^ 64 \<Longrightarrow>
     keyper_run B E P (log @ st_Actions (kp_State kpr')) kpr'"
| kr_actions: "keyper_run B E P log kpr \<Longrightarrow> runActions kpr = Inr kpr' \<Longrightarrow> keyper_run B E P log kpr'"
| kr_worker: "keyper_run B E P log kpr \<Longrightarrow> worker_step B E P (kp_runenv kpr) runenv \<Longrightarrow>
     keyper_run B E P log (kpr \<lparr> kp_runenv := runenv \<rparr>)"
| kr_restart: "keyper_run B E P log kpr \<Longrightarrow> restart_keyper world kpr = Inr kpr' \<Longrightarrow> keyper_run B E P log kpr'"

end
