(* ===== verification/KeyperFacts.thy ===== *)
theory KeyperFacts
  imports Keyper DecideFacts
begin

text \<open>
  A keyper that crashes loses no action and adds none twice: the invariant of \<open>keyper_run\<close>, and that a
  restart succeeds from every state a run reaches.
\<close>

section \<open>The pending actions against the log\<close>

text \<open>A state, in memory or in the file, whose actions are the end of the log; they were added or not.\<close>

definition state_fits :: "'g2 IAction list \<Rightarrow> 'g2 PendingActions \<Rightarrow> ('g1, 'g2) State \<Rightarrow> bool" where
  "state_fits log pending st \<longleftrightarrow>
     unat (st_ActionCounter st) + length (st_Actions st) = length log \<and>
     st_Actions st = drop (unat (st_ActionCounter st)) log \<and>
     (pa_CurrentID pending = st_ActionCounter st \<or> unat (pa_CurrentID pending) = length log)"

definition pending_fits :: "'g2 IAction list \<Rightarrow> 'g2 PendingActions \<Rightarrow> bool" where
  "pending_fits log pending \<longleftrightarrow>
     (\<forall>i a. GetAction i pending = Some a \<longrightarrow> unat i < length log \<and> a = log ! unat i)"

definition file_state :: "('g1, 'g2, 'sk, 'ek, 'dk) Keyper \<Rightarrow> ('g1, 'g2) State" where
  "file_state kpr = (case kp_StateFile kpr of None \<Rightarrow> NewState | Some (st, world) \<Rightarrow> st)"

definition keyper_inv :: "'g2 IAction list \<Rightarrow> ('g1, 'g2, 'sk, 'ek, 'dk) Keyper \<Rightarrow> bool" where
  "keyper_inv log kpr \<longleftrightarrow> length log < 2 ^ 64 \<and> runenv_inv (kp_runenv kpr) \<and>
     pending_fits log (re_PendingActions (kp_runenv kpr)) \<and>
     state_fits log (re_PendingActions (kp_runenv kpr)) (kp_State kpr) \<and>
     state_fits log (re_PendingActions (kp_runenv kpr)) (file_state kpr)"

text \<open>Running the actions of a state that fits: what was added before is not added again.\<close>

lemma RunActions_fits:
  assumes inv: "runenv_inv env" and len: "length log < 2 ^ 64"
    and fits: "state_fits log (re_PendingActions env) st" "pending_fits log (re_PendingActions env)"
  obtains env' where "RunActions (st_ActionCounter st) (st_Actions st) env = Inr env'" "runenv_inv env'"
    "pending_fits log (re_PendingActions env')"
    "unat (pa_CurrentID (re_PendingActions env')) = length log"
    "\<And>i. i < pa_CurrentID (re_PendingActions env) \<Longrightarrow>
       GetAction i (re_PendingActions env') = GetAction i (re_PendingActions env)"
    "\<And>i. pa_CurrentID (re_PendingActions env) \<le> i \<Longrightarrow> unat i < length log \<Longrightarrow>
       GetAction i (re_PendingActions env') = Some (log ! unat i)"
proof -
  let ?c = "st_ActionCounter st" and ?as = "st_Actions st" and ?p = "re_PendingActions env"
  have sum: "unat ?c + length ?as = length log" and as: "?as = drop (unat ?c) log"
    and cur: "pa_CurrentID ?p = ?c \<or> unat (pa_CurrentID ?p) = length log"
    using fits(1) by (simp_all add: state_fits_def)
  have le: "?c \<le> pa_CurrentID ?p" using cur sum by (auto simp: word_le_nat_alt)
  have small: "unat ?c + length ?as < 2 ^ 64" using sum len by simp
  show thesis
  proof (cases "?as = []")
    case True
    have "unat (pa_CurrentID ?p) = length log" using cur sum True by auto
    then show thesis
      using True inv fits(2) by (intro that [of env]) (auto simp: RunActions_def word_le_nat_alt)
  next
    case False
    obtain P where add: "AddActions ?c ?as ?p = Inr ((pa_CurrentID ?p, pa_CurrentID P), P)"
      and P: "unat (pa_CurrentID P) = max (unat (pa_CurrentID ?p)) (unat ?c + length ?as)"
      and get: "\<And>i. GetAction i P = (if pa_CurrentID ?p \<le> i \<and> i < pa_CurrentID P
          then Some (?as ! (unat i - unat ?c)) else GetAction i ?p)"
      by (rule AddActions_spec [OF le small]) auto
    have top: "unat (pa_CurrentID P) = length log" using P cur sum by auto
    have nth: "?as ! (unat i - unat ?c) = log ! unat i" if "pa_CurrentID ?p \<le> i" "unat i < length log" for i
      using that le by (simp add: as word_le_nat_alt)
    let ?env = "env \<lparr> re_PendingActions := P \<rparr>"
    have "\<forall>aid\<in>set (range64 (pa_CurrentID ?p) (pa_CurrentID P)). GetAction aid (re_PendingActions ?env) \<noteq> None"
      by (simp add: get set_range64)
    from scheduleAction_all [OF this] False add obtain env' where
      env': "RunActions ?c ?as env = Inr env'" "re_PendingActions env' = P"
      by (simp add: RunActions_def)
    show thesis
    proof (rule that [OF env'(1) runenv_inv_RunActions [OF inv env'(1) small]], unfold env'(2))
      show "pending_fits log P"
        using fits(2) nth by (auto simp: pending_fits_def get word_less_nat_alt top split: if_splits)
    qed (use top nth in \<open>auto simp: get word_le_nat_alt word_less_nat_alt\<close>)
  qed
qed

lemma state_fits_after:
  "state_fits log p st \<Longrightarrow> unat (pa_CurrentID q) = length log \<Longrightarrow> state_fits log q st"
  by (simp add: state_fits_def)

lemma state_fits_run:
  assumes "state_fits log p st" "length log < 2 ^ 64" "unat (pa_CurrentID q) = length log"
  shows "state_fits log q (st \<lparr> st_ActionCounter := st_ActionCounter st + of_nat (length (st_Actions st)), st_Actions := [] \<rparr>)"
proof -
  have "unat (st_ActionCounter st) + length (st_Actions st) = length log" using assms(1) by (simp add: state_fits_def)
  then have "unat (st_ActionCounter st + of_nat (length (st_Actions st))) = length log"
    using assms(2) by (subst unat_add_u64) (simp_all add: unat_of_nat_u64)
  then show ?thesis using assms(3) by (simp add: state_fits_def)
qed

lemma runActions_inv:
  assumes "keyper_inv log kpr"
  obtains kpr' where "runActions kpr = Inr kpr'" "keyper_inv log kpr'" "st_Actions (kp_State kpr') = []"
    "unat (pa_CurrentID (re_PendingActions (kp_runenv kpr'))) = length log"
    "\<And>i. i < pa_CurrentID (re_PendingActions (kp_runenv kpr)) \<Longrightarrow>
       GetAction i (re_PendingActions (kp_runenv kpr')) = GetAction i (re_PendingActions (kp_runenv kpr))"
    "\<And>i. pa_CurrentID (re_PendingActions (kp_runenv kpr)) \<le> i \<Longrightarrow> unat i < length log \<Longrightarrow>
       GetAction i (re_PendingActions (kp_runenv kpr')) = Some (log ! unat i)"
proof -
  let ?st = "kp_State kpr"
  from assms have len: "length log < 2 ^ 64" and inv: "runenv_inv (kp_runenv kpr)"
    and pf: "pending_fits log (re_PendingActions (kp_runenv kpr))"
    and sf: "state_fits log (re_PendingActions (kp_runenv kpr)) ?st"
      "state_fits log (re_PendingActions (kp_runenv kpr)) (file_state kpr)"
    by (simp_all add: keyper_inv_def)
  obtain env' where e: "RunActions (st_ActionCounter ?st) (st_Actions ?st) (kp_runenv kpr) = Inr env'" "runenv_inv env'"
    "pending_fits log (re_PendingActions env')" "unat (pa_CurrentID (re_PendingActions env')) = length log"
    and old: "\<And>i. i < pa_CurrentID (re_PendingActions (kp_runenv kpr)) \<Longrightarrow>
       GetAction i (re_PendingActions env') = GetAction i (re_PendingActions (kp_runenv kpr))"
    and new: "\<And>i. pa_CurrentID (re_PendingActions (kp_runenv kpr)) \<le> i \<Longrightarrow> unat i < length log \<Longrightarrow>
       GetAction i (re_PendingActions env') = Some (log ! unat i)"
    by (rule RunActions_fits [OF inv len sf(1) pf]) blast
  define kpr' where "kpr' = kpr \<lparr> kp_runenv := env', kp_State := ?st \<lparr>
      st_ActionCounter := st_ActionCounter ?st + of_nat (length (st_Actions ?st)), st_Actions := [] \<rparr> \<rparr>"
  have "file_state kpr' = file_state kpr" by (simp add: kpr'_def file_state_def)
  then have "keyper_inv log kpr'"
    using len e state_fits_run [OF sf(1) len e(4)] state_fits_after [OF sf(2) e(4)]
    by (simp add: keyper_inv_def kpr'_def)
  moreover have "runActions kpr = Inr kpr'" using e(1) by (simp add: runActions_def kpr'_def)
  ultimately show thesis using old new e(4) by (intro that [of kpr']) (simp_all add: kpr'_def)
qed

section \<open>Steps\<close>

lemma keyper_inv_New: "keyper_inv [] (NewKeyper config)"
  using runenv_inv_New
  by (simp add: keyper_inv_def NewKeyper_def pending_fits_def state_fits_def file_state_def NewState_def
      NewRunEnv_def GetAction_def NewPendingActions_def)

lemma keyper_inv_decide:
  assumes "keyper_inv log kpr" "decide_and_save R B E kpr = Inr kpr'"
    and "length log + length (st_Actions (kp_State kpr')) < 2 ^ 64"
  shows "keyper_inv (log @ st_Actions (kp_State kpr')) kpr'"
proof -
  let ?st = "kp_State kpr" and ?p = "re_PendingActions (kp_runenv kpr)"
  from assms(2) obtain d where empty: "st_Actions ?st = []" and d: "Decide R B E (NewDecider kpr) = Inr d"
    and kpr': "kp_runenv kpr' = kp_runenv kpr" "kp_State kpr' = (dc_State d) \<lparr> st_Actions := dc_Actions d \<rparr>"
      "file_state kpr' = kp_State kpr'"
    by (auto simp: decide_and_save_def keyper_decide_def saveState_def file_state_def result_bind_Inr_iff split: if_splits)
  from postD [OF frame_Decide d] have
    count: "st_ActionCounter (dc_State d) = st_ActionCounter ?st"
    by (simp add: dec_frame_def NewDecider_def)
  from assms(1) have sf: "state_fits log ?p ?st" and pf: "pending_fits log ?p" and inv: "runenv_inv (kp_runenv kpr)"
    by (simp_all add: keyper_inv_def)
  have c: "unat (st_ActionCounter ?st) = length log" using sf empty by (simp add: state_fits_def)
  have cur: "pa_CurrentID ?p = st_ActionCounter ?st"
    using sf c by (auto simp: state_fits_def word_unat_eq_iff)
  have "state_fits (log @ dc_Actions d) ?p (kp_State kpr')"
    using c cur count by (simp add: state_fits_def kpr')
  moreover have "pending_fits (log @ dc_Actions d) ?p"
    using pf by (fastforce simp: pending_fits_def nth_append)
  ultimately show ?thesis using inv assms(3) by (simp add: keyper_inv_def kpr')
qed

lemma worker_step_pending:
  fixes env env' :: "('g2, 'sk) RunEnv"
  assumes "worker_step B E P env env'"
  shows "pa_CurrentID (re_PendingActions env') = pa_CurrentID (re_PendingActions env) \<and>
     (\<forall>i a. GetAction i (re_PendingActions env') = Some a \<longrightarrow> GetAction i (re_PendingActions env) = Some a)"
proof -
  have loop: "pa_CurrentID (re_PendingActions env2) = pa_CurrentID (re_PendingActions env1) \<and>
     (\<forall>i. GetAction i (re_PendingActions env2) = GetAction i (re_PendingActions env1))"
    if "handle_loop B E P an k aid act env1 = Some (Inr (rem, env2))" for an k aid act and env1 env2 :: "('g2, 'sk) RunEnv" and rem
  proof (cases "is_MainChainTX act")
    case True
    from handle_loop_tx [OF that True] show ?thesis
      by (auto simp: tx_sent_def SetMainChainTXHash_def GetAction_def)
  next
    case False
    from handle_loop_message [OF that False] show ?thesis by auto
  qed
  have hid: "pa_CurrentID (re_PendingActions env2) = pa_CurrentID (re_PendingActions env1) \<and>
     (\<forall>i a. GetAction i (re_PendingActions env2) = Some a \<longrightarrow> GetAction i (re_PendingActions env1) = Some a)"
    if "handle_id B E P an aid env1 = Some (Inr env2)" for an aid and env1 env2 :: "('g2, 'sk) RunEnv"
    using that
    by (auto simp: handle_id_def GetAction_RemoveAction dest!: loop split: option.splits sum.splits if_splits)
      (simp_all add: RemoveAction_def)
  show ?thesis
    using assms
  proof cases
    case (rs_message aid rest an)
    from hid [OF rs_message(2)] show ?thesis by simp
  next
    case (rs_tx aid rest an)
    from hid [OF rs_tx(3)] show ?thesis by simp
  next
    case (rs_mined aid)
    then show ?thesis
      by (auto simp: handle_inFlight_def waitMined_def GetAction_RemoveAction split: if_splits) (simp add: RemoveAction_def)
  qed
qed

text \<open>Encoding and decoding the state changes the key generations and \<open>PendingHalfStep\<close> only.\<close>

lemma gob_State_simps [simp]:
  "st_ActionCounter (gob_State st) = st_ActionCounter st" "st_Actions (gob_State st) = st_Actions st"
  "st_SyncHeight (gob_State st) = st_SyncHeight st" "st_DKGs (gob_State st) = map gob_DKG (st_DKGs st)"
  "st_EKGs (gob_State st) = st_EKGs st" "st_PendingHalfStep (gob_State NewState) = None"
  "gob_State NewState = NewState"
  by (simp_all add: gob_State_def NewState_def)

text \<open>A restart succeeds, and then every action of the log was added.\<close>

lemma restart_inv:
  fixes kpr :: "('g1, 'g2, 'sk, 'ek, 'dk) Keyper"
  assumes inv: "keyper_inv log kpr"
  obtains kpr' where "restart_keyper world kpr = Inr kpr'" "keyper_inv log kpr'"
    "unat (pa_CurrentID (re_PendingActions (kp_runenv kpr'))) = length log"
    "\<And>i. i < pa_CurrentID (re_PendingActions (kp_runenv kpr)) \<Longrightarrow>
       GetAction i (re_PendingActions (kp_runenv kpr')) = GetAction i (re_PendingActions (kp_runenv kpr))"
    "\<And>i. pa_CurrentID (re_PendingActions (kp_runenv kpr)) \<le> i \<Longrightarrow> unat i < length log \<Longrightarrow>
       GetAction i (re_PendingActions (kp_runenv kpr')) = Some (log ! unat i)"
proof -
  let ?p = "re_PendingActions (kp_runenv kpr)"
  let ?k0 = "LoadState (kp_StateFile kpr) (NewKeyper (kp_Config kpr)) :: ('g1, 'g2, 'sk, 'ek, 'dk) Keyper"
  from inv have len: "length log < 2 ^ 64" and pinv: "pending_inv ?p" and pf: "pending_fits log ?p"
    and sf: "state_fits log ?p (file_state kpr)"
    by (simp_all add: keyper_inv_def runenv_inv_def)
  have k0: "state_fits log ?p (kp_State ?k0)" "file_state ?k0 = file_state kpr"
      "\<exists>ms. kp_runenv ?k0 = NewRunEnv ms"
    using sf
    by (auto simp: LoadState_def file_state_def NewKeyper_def state_fits_def Let_def split: option.splits)
  then obtain ms where ms: "kp_runenv ?k0 = NewRunEnv ms" by blast
  obtain havePending env where env: "Load ?p (NewRunEnv ms) = Inr (havePending, env)"
    "re_PendingActions env = ?p" "runenv_inv env"
    by (rule Load_ok [OF pinv])
  define k1 where "k1 = ?k0 \<lparr> kp_World := world, kp_runenv := env \<rparr>"
  define k2 where "k2 = (if \<not> havePending \<and> st_Actions (kp_State k1) = [] \<and> st_PendingHalfStep (kp_State k1) \<noteq> None
      then k1 \<lparr> kp_State := (kp_State k1) \<lparr> st_PendingHalfStep := None \<rparr> \<rparr> else k1)"
  have run: "restart_keyper world kpr = (if st_Actions (kp_State k2) \<noteq> [] then runActions k2 else Inr k2)"
    using env(1) by (simp add: restart_keyper_def start_Run_def ms Let_def k1_def k2_def)
  have k2: "kp_runenv k2 = env" "file_state k2 = file_state kpr"
    "st_ActionCounter (kp_State k2) = st_ActionCounter (kp_State ?k0)" "st_Actions (kp_State k2) = st_Actions (kp_State ?k0)"
    using k0(2) by (simp_all add: k2_def k1_def file_state_def)
  have inv2: "keyper_inv log k2"
    using len env pf sf k0(1) by (simp add: keyper_inv_def k2 state_fits_def)
  show thesis
  proof (cases "st_Actions (kp_State k2) = []")
    case True
    have "unat (pa_CurrentID ?p) = length log"
      using inv2 True env(2) by (auto simp: keyper_inv_def state_fits_def k2(1))
    then show thesis
      using run True inv2 env(2) by (intro that [of k2]) (auto simp: k2(1) word_le_nat_alt)
  next
    case False
    obtain k3 where "runActions k2 = Inr k3" "keyper_inv log k3"
      "unat (pa_CurrentID (re_PendingActions (kp_runenv k3))) = length log"
      "\<And>i. i < pa_CurrentID (re_PendingActions (kp_runenv k2)) \<Longrightarrow>
         GetAction i (re_PendingActions (kp_runenv k3)) = GetAction i (re_PendingActions (kp_runenv k2))"
      "\<And>i. pa_CurrentID (re_PendingActions (kp_runenv k2)) \<le> i \<Longrightarrow> unat i < length log \<Longrightarrow>
         GetAction i (re_PendingActions (kp_runenv k3)) = Some (log ! unat i)"
      by (rule runActions_inv [OF inv2]) blast
    then show thesis using run False env(2) by (intro that [of k3]) (simp_all add: k2(1))
  qed
qed

text \<open>Every run keeps the invariant.\<close>

lemma keyper_run_inv: "keyper_run B E P log kpr \<Longrightarrow> keyper_inv log kpr"
proof (induction rule: keyper_run.induct)
  case (kr_new config)
  show ?case by (rule keyper_inv_New)
next
  case (kr_world log kpr world)
  then show ?case by (simp add: keyper_inv_def file_state_def)
next
  case (kr_decide log kpr R kpr')
  show ?case by (rule keyper_inv_decide [OF kr_decide(4, 2, 3)])
next
  case (kr_actions log kpr kpr')
  from runActions_inv [OF kr_actions(3)] kr_actions(2) show ?case by (metis Inr_inject)
next
  case (kr_worker log kpr env')
  have "runenv_inv env'" using kr_worker(2, 3) worker_step_inv by (auto simp: keyper_inv_def)
  with worker_step_pending [OF kr_worker(2)] kr_worker(3) show ?case
    by (simp add: keyper_inv_def pending_fits_def state_fits_def file_state_def)
next
  case (kr_restart log kpr world kpr')
  from restart_inv [OF kr_restart(3), of world] kr_restart(2) show ?case by (metis Inr_inject)
qed

end
