(* ===== verification/ObserveApp.thy ===== *)
theory ObserveApp
  imports ObserveFacts AppSteps
begin

text \<open>
  The two ends of the event stream together: the state a keyper builds from the events of the
  shuttermint application (\<open>observe/shutter.go\<close>) is a projection of the state of the application
  (\<open>app/app.go\<close>). The relation \<open>observes\<close> holds after genesis and is kept by every transaction.
\<close>

section \<open>The relation\<close>

text \<open>What a batch config keeps on its way through an event.\<close>

definition same_published :: "BatchConfig \<Rightarrow> BatchConfig \<Rightarrow> bool" where
  "same_published b c \<longleftrightarrow> bc_Keypers b = bc_Keypers c \<and> bc_StartBatchIndex b = bc_StartBatchIndex c \<and>
     bc_Threshold b = bc_Threshold c \<and> bc_ConfigIndex b = bc_ConfigIndex c"

text \<open>The messages of one eon: those the application has let through, but for unreadable commitments.\<close>

definition observes_dkg :: "DKGInstance \<Rightarrow> ('g1, 'g2) Eon \<Rightarrow> bool" where
  "observes_dkg d eo \<longleftrightarrow>
     pc_Sender ` set (eo_Commitments eo) \<subseteq> dkg_PolyCommitmentsSeen d \<and>
     (\<Union>e\<in>set (eo_PolyEvals eo). {pe_Sender e} \<times> set (pe_Receivers e)) = dkg_PolyEvalsSeen d \<and>
     acc_Sender ` set (eo_Accusations eo) = dkg_AccusationsSeen d \<and>
     apo_Sender ` set (eo_Apologies eo) = dkg_ApologiesSeen d"

definition observes_eons ::
  "u64 \<Rightarrow> (u64 \<Rightarrow> DKGInstance option) \<Rightarrow> ('g1, 'g2) Eon list \<Rightarrow> bool" where
  "observes_eons counter dkgs eons \<longleftrightarrow>
     dom dkgs = eo_Eon ` set eons \<and> (\<forall>eo\<in>set eons. eo_Eon eo \<le> counter) \<and>
     (\<forall>eo\<in>set eons. \<forall>d. dkgs (eo_Eon eo) = Some d \<longrightarrow> observes_dkg d eo)"

definition signatures_of :: "BatchState option \<Rightarrow> (address \<times> bytes) list" where
  "signatures_of bs = (case bs of None \<Rightarrow> [] | Some b \<Rightarrow>
     map (\<lambda>s. (sig_Sender s, sig_Signature s)) (bs_DecryptionSignatures b))"

definition observes_batches ::
  "(u64 \<Rightarrow> BatchState option) \<Rightarrow> ('g1, 'g2, 'ek) Shielder \<Rightarrow> bool" where
  "observes_batches bss sh \<longleftrightarrow> (\<forall>i. map (\<lambda>s. (ds_Sender s, ds_Signature s))
     (bd_DecryptionSignatures (batch_data sh i)) = signatures_of (bss i))"

definition observes :: "ShielderApp \<Rightarrow> ('g1, 'g2, 'ek) Shielder \<Rightarrow> bool" where
  "observes app sh \<longleftrightarrow>
     list_all2 same_published (sh_BatchConfigs sh) (tl (app_Configs app)) \<and>
     dom (sh_KeyperEncryptionKeys sh) = dom (app_Identities app) \<and>
     observes_eons (app_EONCounter app) (app_DKGMap app) (sh_Eons sh) \<and>
     observes_batches (app_BatchStates app) sh"

lemma observes_nonce [simp]: "observes (app \<lparr> app_NonceTracker := t \<rparr>) sh \<longleftrightarrow> observes app sh"
  by (simp add: observes_def)

text \<open>Only these fields matter.\<close>

lemma observes_cong:
  "app_Configs app' = app_Configs app \<Longrightarrow> app_Identities app' = app_Identities app \<Longrightarrow>
   app_EONCounter app' = app_EONCounter app \<Longrightarrow> app_DKGMap app' = app_DKGMap app \<Longrightarrow>
   app_BatchStates app' = app_BatchStates app \<Longrightarrow> observes app' sh \<longleftrightarrow> observes app sh"
  by (simp add: observes_def)

section \<open>Reading back one published event\<close>

lemma applyTxEvents_one:
  assumes "bn_ok B" "eth_ok E" "readable ev"
  shows "applyTxEvents B E h (MakeABCIEvent B E ev # evs) sh = applyTxEvents B E h evs (applyEvent (wire_part h ev) sh)"
  using MakeEvent_MakeABCIEvent [OF assms, of h] by simp

declare applyTxEvents.simps(2) [simp del]

lemma MakeABCIEvent_cases:
  "BatchConfig_MakeABCIEvent E c = MakeABCIEvent B E (EvBatchConfig c)"
  "CheckIn_MakeABCIEvent E ci = MakeABCIEvent B E (EvCheckIn ci)"
  "DecryptionSignature_MakeABCIEvent E ds = MakeABCIEvent B E (EvDecryptionSignature ds)"
  "EonStarted_MakeABCIEvent es = MakeABCIEvent B E (EvEonStarted es)"
  "PolyCommitment_MakeABCIEvent B E pc = MakeABCIEvent B E (EvPolyCommitment pc)"
  "PolyEval_MakeABCIEvent E pe = MakeABCIEvent B E (EvPolyEval pe)"
  "Accusation_MakeABCIEvent E acc = MakeABCIEvent B E (EvAccusation acc)"
  "Apology_MakeABCIEvent E apo = MakeABCIEvent B E (EvApology apo)"
  "EpochSecretKeyShare_MakeABCIEvent B E sks = MakeABCIEvent B E (EvEpochSecretKeyShare sks)"
  by simp_all

text \<open>An event appended to an eon that is there.\<close>

lemma append_to_eon_present:
  assumes "sorted_wrt (<) (map eo_Eon (sh_Eons sh))" "n \<in> eo_Eon ` set (sh_Eons sh)"
  obtains i where "i < length (sh_Eons sh)" "eo_Eon (sh_Eons sh ! i) = n"
    "append_to_eon n f sh = Inr (sh \<lparr> sh_Eons := (sh_Eons sh) [i := f (sh_Eons sh ! i)] \<rparr>)"
proof -
  obtain i where "i < length (sh_Eons sh)" "eo_Eon (sh_Eons sh ! i) = n"
    using assms(2) by (auto simp: in_set_conv_nth)
  moreover from this have "FindEon sh n = Inr i" using FindEon_Inr_iff [OF assms(1)] by blast
  ultimately show thesis using that by (simp add: append_to_eon_def)
qed

text \<open>A message of the key generation: one instance and the eon of the same number change.\<close>

lemma observes_eons_update:
  assumes o: "observes_eons counter dkgs eons" and s: "sorted_wrt (<) (map eo_Eon eons)"
    and d: "dkgs n = Some d" and i: "i < length eons" "eo_Eon (eons ! i) = n"
    and f: "eo_Eon (f (eons ! i)) = n" "observes_dkg d (eons ! i) \<Longrightarrow> observes_dkg d' (f (eons ! i))"
  shows "observes_eons counter (dkgs(n \<mapsto> d')) (eons [i := f (eons ! i)])"
proof -
  have dist: "distinct (map eo_Eon eons)" using s strict_sorted_iff by (metis sorted_wrt_map)
  have eq: "map eo_Eon (eons [i := f (eons ! i)]) = map eo_Eon eons"
    using i f(1) by (simp add: map_update list_update_same_conv)
  then have img: "eo_Eon ` set (eons [i := f (eons ! i)]) = eo_Eon ` set eons" by (metis set_map)
  have od: "observes_dkg d (eons ! i)" using o d i by (auto simp: observes_eons_def)
  have others: "eo_Eon eo \<noteq> n" if "eo \<in> set (eons [i := f (eons ! i)])" "eo \<noteq> f (eons ! i)" for eo
  proof -
    from that(1) obtain j where "j < length eons" "eo = eons [i := f (eons ! i)] ! j"
      by (auto simp: in_set_conv_nth)
    with that(2) have "j < length eons" "j \<noteq> i" "eo = eons ! j"
      using i(1) by (auto simp: nth_list_update split: if_split_asm)
    with dist i show ?thesis by (auto simp: distinct_conv_nth)
  qed
  have sub: "eo \<in> set eons" if "eo \<in> set (eons [i := f (eons ! i)])" "eo \<noteq> f (eons ! i)" for eo
    using that set_update_subset_insert [of eons i "f (eons ! i)"] by auto
  show ?thesis
    unfolding observes_eons_def
  proof (intro conjI ballI allI impI)
    show "dom (dkgs(n \<mapsto> d')) = eo_Eon ` set (eons [i := f (eons ! i)])"
      using o d by (auto simp: img observes_eons_def)
    fix eo
    assume eo: "eo \<in> set (eons [i := f (eons ! i)])"
    then have "eo_Eon eo \<in> eo_Eon ` set eons" using img by blast
    then show "eo_Eon eo \<le> counter" using o by (auto simp: observes_eons_def)
    fix d''
    assume d'': "(dkgs(n \<mapsto> d')) (eo_Eon eo) = Some d''"
    show "observes_dkg d'' eo"
    proof (cases "eo = f (eons ! i)")
      case True
      with d'' f od show ?thesis by simp
    next
      case False
      with d'' others [OF eo] sub [OF eo] o show ?thesis by (auto simp: observes_eons_def)
    qed
  qed
qed

text \<open>A new eon.\<close>

lemma observes_eons_new:
  assumes "observes_eons counter dkgs eons" "counter < counter + 1" "es_Eon e = counter + 1"
  shows "observes_eons (counter + 1) (dkgs(counter + 1 \<mapsto> NewDKGInstance c (counter + 1))) (eons @ [new_eon e])"
proof -
  have new: "\<forall>eo\<in>set eons. eo_Eon eo \<le> counter + 1 \<and> eo_Eon eo \<noteq> counter + 1"
    using assms(1,2) by (fastforce simp: observes_eons_def)
  have "observes_dkg (NewDKGInstance c (counter + 1)) (new_eon e)"
    by (simp add: observes_dkg_def NewDKGInstance_def new_eon_def)
  with assms new show ?thesis
    by (auto simp: observes_eons_def new_eon_def split: if_split_asm)
qed

lemma applyEonStarted_new:
  assumes "observes_eons counter dkgs (sh_Eons sh)" "sorted_wrt (<) (map eo_Eon (sh_Eons sh))"
    "counter < es_Eon e"
  shows "applyEonStarted e sh = Inr (sh \<lparr> sh_Eons := sh_Eons sh @ [new_eon e] \<rparr>)"
proof -
  let ?f = "\<lambda>i. es_Eon e \<le> eo_Eon (sh_Eons sh ! i)"
  have no: "\<forall>k<length (sh_Eons sh). \<not> ?f k"
    using assms(1,3) by (auto simp: observes_eons_def) (meson nth_mem le_less_trans not_le)
  have "\<not> searchEon sh (es_Eon e) < length (sh_Eons sh)"
  proof
    assume *: "searchEon sh (es_Eon e) < length (sh_Eons sh)"
    moreover have "\<forall>k. searchEon sh (es_Eon e) \<le> k \<longrightarrow> k < length (sh_Eons sh) \<longrightarrow> ?f k"
      unfolding searchEon_def by (rule conjunct2 [OF sort_Search_least [OF increasing_upward [OF assms(2)]]])
    ultimately show False using no by blast
  qed
  then show ?thesis by (simp add: applyEonStarted_def Let_def)
qed

section \<open>Every handler keeps the relation\<close>

lemma eon_started_read:
  assumes B: "bn_ok B" and E: "eth_ok E" and inv: "sh_inv h sh"
    and o: "observes_eons counter dkgs (sh_Eons sh)" and c: "counter < counter + 1"
  shows "\<exists>e. es_Eon e = counter + 1 \<and> es_Height e = h \<and>
    applyTxEvents B E h [eonStartedEvent (counter + 1) start] sh = sh \<lparr> sh_Eons := sh_Eons sh @ [new_eon e] \<rparr>"
proof -
  let ?e = "\<lparr> es_Height = h, es_Eon = counter + 1, es_BatchIndex = start \<rparr>"
  have "applyEonStarted ?e sh = Inr (sh \<lparr> sh_Eons := sh_Eons sh @ [new_eon ?e] \<rparr>)"
    by (rule applyEonStarted_new [OF o]) (use inv c in \<open>simp_all add: sh_inv_def\<close>)
  then have "applyEvent (EvEonStarted ?e) sh = sh \<lparr> sh_Eons := sh_Eons sh @ [new_eon ?e] \<rparr>"
    by (simp add: applyEvent_def)
  then show ?thesis
    using applyTxEvents_one [OF B E, of "EvEonStarted \<lparr> es_Height = 0, es_Eon = counter + 1, es_BatchIndex = start \<rparr>" h "[]" sh]
    by (intro exI [of _ ?e]) (simp add: eonStartedEvent_def)
qed

text \<open>The events of a config vote, and the state after a config is accepted.\<close>

lemma ShouldStartDKG_frame [frame_simps]:
  "ShouldStartDKG (updateCheckTxMembers (app \<lparr> app_Configs := cs, app_ConfigVoting := v \<rparr>)) bc = ShouldStartDKG app bc"
  by (simp add: ShouldStartDKG_def frame_simps)

lemma accepted_fields:
  "app_Identities (accepted bc app) = app_Identities app"
  "app_BatchStates (accepted bc app) = app_BatchStates app"
  "app_EONCounter (accepted bc app) = (if ShouldStartDKG app bc then app_EONCounter app + 1 else app_EONCounter app)"
  "app_DKGMap (accepted bc app) = (if ShouldStartDKG app bc
     then (app_DKGMap app)(app_EONCounter app + 1 \<mapsto> NewDKGInstance bc (app_EONCounter app + 1)) else app_DKGMap app)"
  by (simp_all add: accepted_def Let_def frame_simps)

definition accepted_events :: "('pk, 'sk, 'ek, 'dk) eth \<Rightarrow> BatchConfig \<Rightarrow> ShielderApp \<Rightarrow> abci_event list" where
  "accepted_events E bc app = BatchConfig_MakeABCIEvent E bc #
     (if ShouldStartDKG app bc then [eonStartedEvent (app_EONCounter app + 1) (bc_StartBatchIndex bc)] else [])"

lemma deliverBatchConfig_events:
  assumes ne: "app_Configs app \<noteq> []" and d: "deliverBatchConfig R E msg s app = Inr (r, app')"
  shows "resp_Events r = [] \<and> (app' = app \<or> (\<exists>v. app' = app \<lparr> app_ConfigVoting := v \<rparr>)) \<or>
    (\<exists>bc. app' = accepted bc app \<and> resp_Events r = accepted_events E bc app)"
proof (cases "app' = app \<or> (\<exists>v. app' = app \<lparr> app_ConfigVoting := v \<rparr>)")
  case True
  then have "length (app_Configs app') = length (app_Configs app)" by auto
  moreover have "app_Configs (accepted bc app) \<noteq> app_Configs app" for bc by simp
  ultimately have "resp_Events r = []"
    using d by (auto simp: deliverBatchConfig_def LastConfig_last [OF ne] okResponse_def makeErrorResponse_def
        allowedToVoteOnConfigChanges_def Let_def addConfig_def frame_simps LastConfig_def
        split: option.splits if_splits if_err_splits result_bind_splits prod.splits dest: StartDKG_Configs)
  with True show ?thesis by blast
next
  case False
  obtain bc where bc: "BatchConfigFromMessage E msg = Inr bc"
    using d False by (auto simp: deliverBatchConfig_def split: if_err_splits)
  from deliverBatchConfig_cases [OF ne d] False bc obtain v where
    c: "checkConfig app bc = Inr ()" and k: "IsKeyper (last (app_Configs app)) s" and
    v: "ConfigVoting_AddVote s bc (app_ConfigVoting app) = Inr v" "app' = accepted bc app"
      "ConfigVoting_Outcome R v (required_votes (last (app_Configs app))) \<noteq> None"
    by auto
  have n: "last (app_Configs app) \<noteq> bc" using d False bc by (auto simp: deliverBatchConfig_def LastConfig_last [OF ne])
  have add: "addConfig bc (app \<lparr> app_ConfigVoting := NewConfigVoting \<rparr>)
      = Inr (updateCheckTxMembers (app \<lparr> app_ConfigVoting := NewConfigVoting, app_Configs := app_Configs app @ [bc] \<rparr>))"
    using c by (simp add: addConfig_def checkConfig_frame)
  have "resp_Events r = accepted_events E bc app"
    using d bc n c k v add by (auto simp: deliverBatchConfig_def LastConfig_last [OF ne] IsKeyper_def
        allowedToVoteOnConfigChanges_def Let_def required_votes_def accepted_events_def okResponse_def
        frame_simps LastConfig_def StartDKG_def NewDKGInstance_def split: option.splits if_splits)
  with v(2) show ?thesis by blast
qed

lemma same_published_wire: "same_published (b \<lparr> bc_Height := h, bc_ConfigContractAddress := 0,
     bc_Started := False, bc_ValidatorsUpdated := False \<rparr>) b"
  by (simp add: same_published_def)

lemma observes_accepted:
  assumes B: "bn_ok B" and E: "eth_ok E" and o: "observes app sh" and inv: "sh_inv h sh"
    and ne: "app_Configs app \<noteq> []" and c: "app_EONCounter app < app_EONCounter app + 1"
  shows "observes (accepted bc app) (applyTxEvents B E h (accepted_events E bc app) sh)"
proof -
  let ?b = "bc \<lparr> bc_Height := h, bc_ConfigContractAddress := 0, bc_Started := False, bc_ValidatorsUpdated := False \<rparr>"
  let ?sh = "sh \<lparr> sh_BatchConfigs := sh_BatchConfigs sh @ [?b] \<rparr>"
  have inv': "sh_inv h ?sh" using inv by (simp add: sh_inv_def)
  have cfgs: "list_all2 same_published (sh_BatchConfigs ?sh) (tl (app_Configs (accepted bc app)))"
    using o ne same_published_wire [of h bc] by (auto simp: observes_def intro: list_all2_appendI)
  have first: "applyTxEvents B E h (BatchConfig_MakeABCIEvent E bc # evs) sh = applyTxEvents B E h evs ?sh" for evs
    using applyTxEvents_one [OF B E, of "EvBatchConfig bc" h evs sh]
    by (simp add: applyEvent_def applyBatchConfig_def)
  show ?thesis
  proof (cases "ShouldStartDKG app bc")
    case False
    then show ?thesis
      using o cfgs by (simp add: accepted_events_def first observes_def accepted_fields observes_batches_def)
  next
    case True
    have oe: "observes_eons (app_EONCounter app) (app_DKGMap app) (sh_Eons ?sh)" using o by (simp add: observes_def)
    from eon_started_read [OF B E inv' oe c, of "bc_StartBatchIndex bc"] obtain e where
      e: "es_Eon e = app_EONCounter app + 1" "applyTxEvents B E h
        [eonStartedEvent (app_EONCounter app + 1) (bc_StartBatchIndex bc)] ?sh =
        ?sh \<lparr> sh_Eons := sh_Eons ?sh @ [new_eon e] \<rparr>" by blast
    have "observes_eons (app_EONCounter app + 1)
        ((app_DKGMap app)(app_EONCounter app + 1 \<mapsto> NewDKGInstance bc (app_EONCounter app + 1)))
        (sh_Eons ?sh @ [new_eon e])"
      by (rule observes_eons_new [OF oe c e(1)])
then show ?thesis using o cfgs True
      by (simp add: accepted_events_def first e(2) observes_def accepted_fields observes_batches_def)
  qed
qed

lemma observes_deliverBatchConfig:
  assumes "bn_ok B" "eth_ok E" "observes app sh" "sh_inv h sh" "app_Configs app \<noteq> []"
    "app_EONCounter app < app_EONCounter app + 1" and d: "deliverBatchConfig R E msg s app = Inr (r, app')"
  shows "observes app' (applyTxEvents B E h (resp_Events r) sh)"
proof (cases "\<exists>bc. app' = accepted bc app \<and> resp_Events r = accepted_events E bc app")
  case True
  then show ?thesis using observes_accepted [OF assms(1-6)] by auto
next
  case False
  with deliverBatchConfig_events [OF assms(5) d] have "resp_Events r = []"
    "app' = app \<or> (\<exists>v. app' = app \<lparr> app_ConfigVoting := v \<rparr>)" by auto
  then show ?thesis using assms(3) by (auto simp: observes_def)
qed

lemma observes_deliverEonStartVoteMsg:
  assumes B: "bn_ok B" and E: "eth_ok E" and o: "observes app sh" and inv: "sh_inv h sh" and a: "app_inv app"
    and c: "app_EONCounter app < app_EONCounter app + 1" and d: "deliverEonStartVoteMsg R b s app = Inr (r, app')"
  shows "observes app' (applyTxEvents B E h (resp_Events r) sh)"
  using a d
proof (cases rule: deliverEonStartVoteMsg_cases)
  case 1
  have "resp_Events r = [] \<or> app_EONCounter app' = app_EONCounter app + 1"
    using d by (auto simp: deliverEonStartVoteMsg_def notAKeyper_def makeErrorResponse_def okResponse_def
        maybeStartEon_def StartDKG_def Let_def countEonStartVote_def split: result_bind_splits if_splits option.splits prod.splits)
  then show ?thesis using 1 o c by auto
next
  case (2 c v)
  have "resp_Events r = []" using d 2 by (simp add: deliverEonStartVoteMsg_def countEonStartVote_def
      maybeStartEon_def required_votes_def okResponse_def Let_def) auto
  then show ?thesis using 2(6) o by (simp add: observes_def)
next
  case (3 cfg v start)
  have oe: "observes_eons (app_EONCounter app) (app_DKGMap app) (sh_Eons sh)" using o by (simp add: observes_def)
  from eon_started_read [OF B E inv oe c, of start] obtain e where
    e: "es_Eon e = app_EONCounter app + 1" "applyTxEvents B E h
      [eonStartedEvent (app_EONCounter app + 1) start] sh = sh \<lparr> sh_Eons := sh_Eons sh @ [new_eon e] \<rparr>" by blast
  have "observes_eons (app_EONCounter app + 1)
      ((app_DKGMap app)(app_EONCounter app + 1 \<mapsto> NewDKGInstance cfg (app_EONCounter app + 1))) (sh_Eons sh @ [new_eon e])"
    by (rule observes_eons_new [OF oe c e(1)])
then show ?thesis using o
    by (simp add: 3(6,7) okResponse_def e(2) observes_def frame_simps observes_batches_def)
qed

text \<open>One event of a handler, read back and applied.\<close>

lemma applyTxEvents_single:
  assumes "bn_ok B" "eth_ok E" "readable ev"
  shows "applyTxEvents B E h [MakeABCIEvent B E ev] sh = applyEvent (wire_part h ev) sh"
  using applyTxEvents_one [OF assms, of h "[]" sh] by simp

lemma observes_deliverCheckIn:
  assumes B: "bn_ok (B :: ('g1, 'g2, 'gt) bn256)" and E: "eth_ok E" and o: "observes app (sh :: ('g1, 'g2, 'ek) Shielder)"
    and d: "deliverCheckIn E msg s app = Inr (r, app')"
  shows "observes app' (applyTxEvents B E h (resp_Events r) sh)"
proof (cases "resp_Events r = []")
  case True
  then have "app' = app" using d by (auto simp: deliverCheckIn_def Let_def okResponse_def split: if_splits if_err_splits)
  with True o show ?thesis by simp
next
  case False
  then obtain pk ek where
    r: "resp_Events r = [MakeABCIEvent B E (EvCheckIn \<lparr> ci_Height = 0, ci_Sender = s, ci_EncryptionPublicKey = ek \<rparr>)]"
      "app' = app \<lparr> app_Identities := (app_Identities app)(s \<mapsto> pk) \<rparr>"
    using d by (auto simp: deliverCheckIn_def Let_def okResponse_def makeErrorResponse_def notAKeyper_def
        split: if_splits if_err_splits)
  show ?thesis using o
    by (simp add: r applyTxEvents_single [OF B E] applyEvent_def applyCheckIn_def observes_def
        observes_batches_def del: MakeABCIEvent.simps)
qed

lemma observes_deliverDecryptionSignature:
  assumes B: "bn_ok (B :: ('g1, 'g2, 'gt) bn256)" and E: "eth_ok E" and o: "observes app (sh :: ('g1, 'g2, 'ek) Shielder)"
    and d: "deliverDecryptionSignature E msg s app = Inr (r, app')"
  shows "observes app' (applyTxEvents B E h (resp_Events r) sh)"
proof (cases "resp_Events r = []")
  case True
  then have "app' = app"
    using d by (auto simp: deliverDecryptionSignature_def Let_def okResponse_def split: result_bind_splits if_err_splits)
  with True o show ?thesis by simp
next
  case False
  let ?i = "sds_BatchIndex msg"
  let ?ds = "\<lparr> ds_Height = 0, ds_BatchIndex = ?i, ds_Sender = s, ds_Signature = sds_Signature msg \<rparr>"
  let ?sig = "\<lparr> sig_Sender = s, sig_Signature = sds_Signature msg \<rparr>"
  from False obtain bs bs' where bs: "getBatchState app ?i = Inr bs" "AddDecryptionSignature ?sig bs = Inr bs'"
    and r: "resp_Events r = [MakeABCIEvent B E (EvDecryptionSignature ?ds)]"
      "app' = app \<lparr> app_BatchStates := (app_BatchStates app)(?i \<mapsto> bs') \<rparr>"
    using d by (auto simp: deliverDecryptionSignature_def Let_def okResponse_def makeErrorResponse_def
        split: result_bind_splits if_err_splits)
  have "bs' = bs \<lparr> bs_DecryptionSignatures := bs_DecryptionSignatures bs @ [?sig] \<rparr>"
    using bs(2) by (auto simp: AddDecryptionSignature_def split: if_split_asm)
  moreover have "signatures_of (app_BatchStates app ?i) = signatures_of (Some bs)"
    using bs(1) by (auto simp: getBatchState_def signatures_of_def split: option.splits elim!: result_bindE)
  ultimately have sig: "signatures_of (Some bs') = signatures_of (app_BatchStates app ?i) @ [(s, sds_Signature msg)]"
    by (simp add: signatures_of_def)
  have ap: "applyEvent (wire_part h (EvDecryptionSignature ?ds)) sh = sh \<lparr> sh_Batches := (sh_Batches sh)(?i \<mapsto>
     (batch_data sh ?i) \<lparr> bd_DecryptionSignatures := bd_DecryptionSignatures (batch_data sh ?i) @ [?ds \<lparr> ds_Height := h \<rparr>] \<rparr>) \<rparr>"
    (is "_ = ?sh")
    by (simp add: applyEvent_def applyDecryptionSignature_eq)
  have "observes_batches (app_BatchStates app') ?sh"
    using o sig unfolding observes_def observes_batches_def by (auto simp: r(2))
  moreover have "sh_BatchConfigs ?sh = sh_BatchConfigs sh" "sh_KeyperEncryptionKeys ?sh = sh_KeyperEncryptionKeys sh"
    "sh_Eons ?sh = sh_Eons sh" by simp_all
  moreover have "readable (EvDecryptionSignature ?ds)" by simp
  ultimately show ?thesis using o
    unfolding r(1) by (subst applyTxEvents_single [OF B E]) (simp_all only: ap, simp add: observes_def r(2))
qed

text \<open>
  The handlers of the key generation: the registered message is appended to its eon. \<open>upd\<close> appends the
  message as it is read back.
\<close>

lemma handleDKGMsg_error:
  "handleDKGMsg parsed eon register event app = Inr (r, app') \<Longrightarrow> resp_Code r = 1 \<Longrightarrow> resp_Events r = []"
  by (auto simp: handleDKGMsg_def makeErrorResponse_def okResponse_def split: if_err_splits option.splits)

lemma observes_handleDKGMsg:
  assumes B: "bn_ok (B :: ('g1, 'g2, 'gt) bn256)" and E: "eth_ok E" and o: "observes app (sh :: ('g1, 'g2, 'ek) Shielder)"
    and inv: "sh_inv h sh" and d: "handleDKGMsg parsed eon register (\<lambda>m. MakeABCIEvent B E (ev m)) app = Inr (r, app')"
    and ev: "\<And>m. parsed = Inr m \<Longrightarrow> readable (ev m) \<Longrightarrow> apply_to (wire_part h (ev m)) sh = append_to_eon (eon m) (upd m) sh"
    and upd: "\<And>m eo. eo_Eon (upd m eo) = eo_Eon eo"
    and step: "\<And>m d d' eo. parsed = Inr m \<Longrightarrow> readable (ev m) \<Longrightarrow> register m d = Inr d' \<Longrightarrow> observes_dkg d eo \<Longrightarrow>
      observes_dkg d' (upd m eo)"
    and lost: "\<And>m d d' eo. parsed = Inr m \<Longrightarrow> \<not> readable (ev m) \<Longrightarrow> register m d = Inr d' \<Longrightarrow>
      observes_dkg d (eo :: ('g1, 'g2) Eon) \<Longrightarrow> observes_dkg d' eo"
    and err: "\<And>m. parsed = Inr m \<Longrightarrow> \<not> readable (ev m) \<Longrightarrow> \<exists>e. MakeEvent B E (MakeABCIEvent B E (ev m)) h = Inl e"
  shows "observes app' (applyTxEvents B E h (resp_Events r) sh)"
proof (cases "app' = app \<and> resp_Events r = []")
  case True
  with o show ?thesis by simp
next
  case False
  from d handleDKGMsg_error [OF d] False obtain m dk dk' where m: "parsed = Inr m"
    "app_DKGMap app (eon m) = Some dk" "register m dk = Inr dk'"
    "app' = app \<lparr> app_DKGMap := (app_DKGMap app)(eon m \<mapsto> dk') \<rparr>" "r = okResponse [MakeABCIEvent B E (ev m)]"
    by (elim handleDKGMsg_cases) blast+
  have s: "sorted_wrt (<) (map eo_Eon (sh_Eons sh))" using inv by (simp add: sh_inv_def)
  have oe: "observes_eons (app_EONCounter app) (app_DKGMap app) (sh_Eons sh)" using o by (simp add: observes_def)
  then have n: "eon m \<in> eo_Eon ` set (sh_Eons sh)" using m(2) by (auto simp: observes_eons_def)
  show ?thesis
  proof (cases "readable (ev m)")
    case True
    from append_to_eon_present [OF s n] obtain i where i: "i < length (sh_Eons sh)" "eo_Eon (sh_Eons sh ! i) = eon m"
      "append_to_eon (eon m) (upd m) sh = Inr (sh \<lparr> sh_Eons := (sh_Eons sh) [i := upd m (sh_Eons sh ! i)] \<rparr>)" by metis
    have "observes_eons (app_EONCounter app) ((app_DKGMap app)(eon m \<mapsto> dk'))
        ((sh_Eons sh) [i := upd m (sh_Eons sh ! i)])"
      by (rule observes_eons_update [OF oe s m(2) i(1,2)]) (use i(2) upd step [OF m(1) True m(3)] in auto)
then show ?thesis using o
      by (simp add: m(4,5) okResponse_def applyTxEvents_single [OF B E True] applyEvent_def ev [OF m(1) True] i(3)
          observes_def observes_batches_def)
  next
    case lost': False
    obtain e where "MakeEvent B E (MakeABCIEvent B E (ev m)) h = Inl e" using err [OF m(1) lost'] by blast
    then have sh: "applyTxEvents B E h (resp_Events r) sh = sh"
      by (simp add: m(5) okResponse_def applyTxEvents.simps(2))
    have "observes_eons (app_EONCounter app) ((app_DKGMap app)(eon m \<mapsto> dk')) (sh_Eons sh)"
      unfolding observes_eons_def
    proof (intro conjI ballI allI impI)
      fix eo d
      assume eo: "eo \<in> set (sh_Eons sh)" and d: "((app_DKGMap app)(eon m \<mapsto> dk')) (eo_Eon eo) = Some d"
      show "observes_dkg d eo"
      proof (cases "eo_Eon eo = eon m")
        case True
        with oe eo m(2) have "observes_dkg dk eo" by (simp add: observes_eons_def)
        with d True lost [OF m(1) lost' m(3)] show ?thesis by simp
      next
        case False
        with oe eo d show ?thesis by (simp add: observes_eons_def)
      qed
    qed (use oe m(2) in \<open>auto simp: observes_eons_def\<close>)
    then show ?thesis using o sh by (simp add: m(4) observes_def)
  qed
qed

lemma unreadable_commitment:
  assumes B: "bn_ok B" and E: "eth_ok E" and g: "\<not> readable (EvPolyCommitment m)" and n: "pc_Gammas m \<noteq> None"
  shows "\<exists>e. MakeEvent B E (MakeABCIEvent B E (EvPolyCommitment m)) h = Inl e"
proof -
  from g n have "pc_Gammas m = Some []" by auto
  then have "decodeGammas B (encodeGammas B (pc_Gammas m)) = Inl (Errorf ''bn256.G2: unmarshal'')"
    using decodeGammas_empty [OF B] by simp
  then show ?thesis using B E
    by (simp add: MakeEvent_def MakeABCIEvent_defs evtype_defs make_defs pair_defs expectAttributes_def
        attr_value_def result_map_def codec_simps expect_upt)
qed

lemma foldl_bytes_nonneg: "0 \<le> n \<Longrightarrow> 0 \<le> foldl (\<lambda>n b. 256 * n + int (unat b)) n (bs :: bytes)"
  by (induction bs arbitrary: n) simp_all

lemma big_SetBytes_nonneg [simp]: "0 \<le> big_SetBytes bs"
  by (simp only: big_SetBytes_def foldl_bytes_nonneg)

lemma observes_handlers:
  assumes B: "bn_ok (B :: ('g1, 'g2, 'gt) bn256)" and E: "eth_ok E" and o: "observes app (sh :: ('g1, 'g2, 'ek) Shielder)"
    and inv: "sh_inv h sh"
  shows "handlePolyEvalMsg E pem s app = Inr (r, app') \<Longrightarrow> observes app' (applyTxEvents B E h (resp_Events r) sh)"
    "handlePolyCommitmentMsg B E pcm s app = Inr (r, app') \<Longrightarrow> observes app' (applyTxEvents B E h (resp_Events r) sh)"
    "handleAccusationMsg E acm s app = Inr (r, app') \<Longrightarrow> observes app' (applyTxEvents B E h (resp_Events r) sh)"
    "handleApologyMsg E apm s app = Inr (r, app') \<Longrightarrow> observes app' (applyTxEvents B E h (resp_Events r) sh)"
proof -
  assume d: "handlePolyEvalMsg E pem s app = Inr (r, app')"
  show "observes app' (applyTxEvents B E h (resp_Events r) sh)"
    by (rule observes_handleDKGMsg [OF B E o inv, of "ParsePolyEvalMsg E pem s" pe_Eon RegisterPolyEvalMsg EvPolyEval r app'
          "\<lambda>m eon. eon \<lparr> eo_PolyEvals := eo_PolyEvals eon @ [m \<lparr> pe_Height := h \<rparr>] \<rparr>"])
      (use d in \<open>auto simp: handlePolyEvalMsg_def applyPolyEval_def observes_dkg_def RegisterPolyEvalMsg_Inr\<close>)
next
  assume d: "handlePolyCommitmentMsg B E pcm s app = Inr (r, app')"
  have some: "ParsePolyCommitmentMsg B pcm s = Inr m \<Longrightarrow> pc_Gammas m \<noteq> None" for m
    by (auto simp: ParsePolyCommitmentMsg_def elim!: result_bindE)
  show "observes app' (applyTxEvents B E h (resp_Events r) sh)"
    by (rule observes_handleDKGMsg [OF B E o inv, of "ParsePolyCommitmentMsg B pcm s" pc_Eon RegisterPolyCommitmentMsg
          EvPolyCommitment r app' "\<lambda>m eon. eon \<lparr> eo_Commitments := eo_Commitments eon @ [m \<lparr> pc_Height := h \<rparr>] \<rparr>"])
      (use d unreadable_commitment [OF B E _ some] in
        \<open>auto simp: handlePolyCommitmentMsg_def applyPolyCommitment_def observes_dkg_def RegisterPolyCommitmentMsg_Inr
          simp del: readable.simps MakeABCIEvent.simps\<close>, simp add: handlePolyCommitmentMsg_def)
next
  assume d: "handleAccusationMsg E acm s app = Inr (r, app')"
  show "observes app' (applyTxEvents B E h (resp_Events r) sh)"
    by (rule observes_handleDKGMsg [OF B E o inv, of "ParseAccusationMsg E acm s" acc_Eon RegisterAccusationMsg EvAccusation r app'
          "\<lambda>m eon. eon \<lparr> eo_Accusations := eo_Accusations eon @ [m \<lparr> acc_Height := h \<rparr>] \<rparr>"])
      (use d in \<open>auto simp: handleAccusationMsg_def applyAccusation_def observes_dkg_def RegisterAccusationMsg_Inr\<close>)
next
  assume d: "handleApologyMsg E apm s app = Inr (r, app')"
  have pos: "ParseApologyMsg E apm s = Inr m \<Longrightarrow> \<forall>e\<in>set (apo_PolyEval m). 0 \<le> e" for m
    by (auto simp: ParseApologyMsg_def split: if_split_asm option.splits elim!: result_bindE)
  show "observes app' (applyTxEvents B E h (resp_Events r) sh)"
    by (rule observes_handleDKGMsg [OF B E o inv, of "ParseApologyMsg E apm s" apo_Eon RegisterApologyMsg EvApology r app'
          "\<lambda>m eon. eon \<lparr> eo_Apologies := eo_Apologies eon @ [m \<lparr> apo_Height := h \<rparr>] \<rparr>"])
      (use d pos in \<open>auto simp: handleApologyMsg_def applyApology_def observes_dkg_def RegisterApologyMsg_Inr\<close>)
qed

section \<open>Every ABCI call keeps the relation\<close>

lemma EpochSecretKeyShare_frame:
  "applyEpochSecretKeyShare e sh = Inr sh' \<Longrightarrow> sh_inv h sh \<Longrightarrow> observes app sh \<Longrightarrow> observes app sh'"
proof -
  assume r: "applyEpochSecretKeyShare e sh = Inr sh'" and inv: "sh_inv h sh" and o: "observes app sh"
  let ?f = "\<lambda>eon. eon \<lparr> eo_EpochSecretKeyShares := eo_EpochSecretKeyShares eon @ [e] \<rparr>"
  from r obtain i where i: "FindEon sh (sks_Eon e) = Inr i" "sh' = sh \<lparr> sh_Eons := (sh_Eons sh) [i := ?f (sh_Eons sh ! i)] \<rparr>"
    by (auto simp: applyEpochSecretKeyShare_def append_to_eon_def elim!: result_bindE)
  have s: "sorted_wrt (<) (map eo_Eon (sh_Eons sh))" using inv by (simp add: sh_inv_def)
  from i(1) have il: "i < length (sh_Eons sh)" "eo_Eon (sh_Eons sh ! i) = sks_Eon e"
    unfolding FindEon_Inr_iff [OF s] by simp_all
  have oe: "observes_eons (app_EONCounter app) (app_DKGMap app) (sh_Eons sh)" using o by (simp add: observes_def)
  then have "dom (app_DKGMap app) = eo_Eon ` set (sh_Eons sh)" by (simp only: observes_eons_def)
  moreover have "sks_Eon e \<in> eo_Eon ` set (sh_Eons sh)"
    unfolding il(2) [symmetric] by (rule imageI, rule nth_mem, rule il(1))
  ultimately obtain d where d: "app_DKGMap app (sks_Eon e) = Some d" by blast
  have "observes_eons (app_EONCounter app) ((app_DKGMap app)(sks_Eon e \<mapsto> d)) ((sh_Eons sh) [i := ?f (sh_Eons sh ! i)])"
    by (rule observes_eons_update [OF oe s d il]) (use il in \<open>auto simp: observes_dkg_def\<close>)
  then show "observes app sh'" using o d i(2) by (simp add: observes_def observes_batches_def fun_upd_idem)
qed

lemma observes_deliverMessage:
  assumes B: "bn_ok (B :: ('g1, 'g2, 'gt) bn256)" and E: "eth_ok E" and o: "observes app (sh :: ('g1, 'g2, 'ek) Shielder)"
    and inv: "sh_inv h sh" and a: "app_inv app" and c: "app_EONCounter app < app_EONCounter app + 1"
    and d: "deliverMessage R B E m s app = Inr (r, app')"
  shows "observes app' (applyTxEvents B E h (resp_Events r) sh)"
proof (cases "\<exists>p. m = Some (Some p)")
  case True
  then obtain p where m: "m = Some (Some p)" by blast
  show ?thesis
  proof (cases p)
    case (Message_BatchConfig bm)
    with d m observes_deliverBatchConfig [OF B E o inv app_inv_ne [OF a] c] show ?thesis by simp
  next
    case (Message_EonStartVote b)
    with d m observes_deliverEonStartVoteMsg [OF B E o inv a c] show ?thesis by simp
  next
    case (Message_CheckIn ci)
    with d m observes_deliverCheckIn [OF B E o] show ?thesis by simp
  next
    case (Message_DecryptionSignature ds)
    with d m observes_deliverDecryptionSignature [OF B E o] show ?thesis by simp
  next
    case (Message_BatchConfigStarted i)
    with d m have "resp_Events r = [] \<and> app_Configs app' = app_Configs app \<and> app_Identities app' = app_Identities app \<and>
       app_EONCounter app' = app_EONCounter app \<and> app_DKGMap app' = app_DKGMap app \<and>
       app_BatchStates app' = app_BatchStates app"
      by (auto simp: deliverBatchConfigStarted_def Let_def okResponse_def makeErrorResponse_def notAKeyper_def
          split: if_splits elim!: result_bindE)
    with o show ?thesis by (simp add: observes_def)
  next
    case (Message_EpochSecretKeyShare ks)
    show ?thesis
    proof (cases "resp_Events r = []")
      case True
      then have "app' = app" using d m Message_EpochSecretKeyShare
        by (auto simp: handleEpochSecretKeyShareMsg_def okResponse_def split: if_err_splits)
      with True o show ?thesis by simp
    next
      case False
      then obtain e where r: "resp_Events r = [MakeABCIEvent B E (EvEpochSecretKeyShare e)]" "app' = app"
        using d m Message_EpochSecretKeyShare
        by (auto simp: handleEpochSecretKeyShareMsg_def okResponse_def makeErrorResponse_def split: if_err_splits)
      have "readable (EvEpochSecretKeyShare e)" by simp
      from applyTxEvents_single [OF B E this, of h sh]
      have "applyTxEvents B E h (resp_Events r) sh = applyEvent (EvEpochSecretKeyShare (e \<lparr> sks_Height := h \<rparr>)) sh"
        by (simp add: r(1))
      then show ?thesis using r(2) o EpochSecretKeyShare_frame [OF _ inv o]
        by (auto simp: applyEvent_def split: sum.split)
    qed
  qed (use d m observes_handlers [OF B E o inv] in simp_all)
next
  case False
  then have "m = None \<or> m = Some None" by (cases m) auto
  then have "resp_Events r = []" "app' = app" using d by (auto simp: makeErrorResponse_def)
  then show ?thesis using o by simp
qed

lemma DeliverTx_error_events:
  "DeliverTx R B E P tx app = Inr (r, app') \<Longrightarrow>
   (app' = app \<and> resp_Events r = []) \<or> (\<exists>m s t. deliverMessage R B E m s (app \<lparr> app_NonceTracker := t \<rparr>) = Inr (r, app'))"
  by (auto simp: DeliverTx_def makeErrorResponse_def split: if_err_splits if_splits prod.splits)

lemma observes_DeliverTx:
  assumes "bn_ok (B :: ('g1, 'g2, 'gt) bn256)" "eth_ok E" "observes app (sh :: ('g1, 'g2, 'ek) Shielder)"
    "sh_inv h sh" "app_inv app" "app_EONCounter app < app_EONCounter app + 1"
    and d: "DeliverTx R B E P tx app = Inr (r, app')"
  shows "observes app' (applyTxEvents B E h (resp_Events r) sh)"
  using DeliverTx_error_events [OF d]
proof
  assume "app' = app \<and> resp_Events r = []"
  then show ?thesis using assms(3) by simp
next
  assume "\<exists>m s t. deliverMessage R B E m s (app \<lparr> app_NonceTracker := t \<rparr>) = Inr (r, app')"
  then obtain m s t where "deliverMessage R B E m s (app \<lparr> app_NonceTracker := t \<rparr>) = Inr (r, app')" by blast
  from observes_deliverMessage [OF assms(1,2) _ assms(4) _ _ this] assms(3,5,6) show ?thesis by simp
qed

text \<open>The calls that publish nothing.\<close>

lemma observes_silent:
  "observes app sh \<Longrightarrow> app_Configs app \<noteq> [] \<Longrightarrow> EndBlock R height app = Inr (us, app') \<Longrightarrow> observes app' sh"
  "observes app sh \<Longrightarrow> CheckTx E P tx app = Inr (code, app') \<Longrightarrow> observes app' sh"
  "observes app sh \<Longrightarrow> observes (Commit now D app) sh"
proof -
  assume o: "observes app sh" and ne: "app_Configs app \<noteq> []" and e: "EndBlock R height app = Inr (us, app')"
  from e have app': "app_Configs app' = butlast (app_Configs app) @ [ended app]" "app_Identities app' = app_Identities app"
    "app_EONCounter app' = app_EONCounter app" "app_DKGMap app' = app_DKGMap app" "app_BatchStates app' = app_BatchStates app"
    by (auto simp: EndBlock_eq [OF ne] Let_def)
  have l: "list_all2 same_published (sh_BatchConfigs sh) (tl (app_Configs app))" using o by (simp add: observes_def)
  have "list_all2 same_published (sh_BatchConfigs sh) (tl (app_Configs app'))"
  proof (cases "tl (app_Configs app) = []")
    case True
    with ne have "length (app_Configs app) = 1" by (cases "app_Configs app") auto
    with app'(1) ne have "tl (app_Configs app') = []" by (simp add: butlast_conv_take)
    with l True show ?thesis by simp
  next
    case False
    then obtain c cs where cs: "app_Configs app = c # cs" "cs \<noteq> []" by (cases "app_Configs app") auto
    then have t: "tl (app_Configs app') = butlast cs @ [ended app]" "last (app_Configs app) = last cs"
      by (simp_all add: app'(1))
    have "same_but_flags (last cs) (ended app)" using ended_same [of app] t(2) by simp
    then have "same_published b (last cs) \<Longrightarrow> same_published b (ended app)" for b
      by (auto simp: same_but_flags_def same_published_def)
    moreover have "list_all2 same_published (sh_BatchConfigs sh) (butlast cs @ [last cs])" using l cs by simp
    ultimately show ?thesis unfolding t(1) by (auto simp: list_all2_append2 list_all2_Cons2)
  qed
  then show "observes app' sh" using o app' by (simp add: observes_def)
next
  assume o: "observes app sh" and c: "CheckTx E P tx app = Inr (code, app')"
  from c have "app' = app \<or> (\<exists>s. app' = app \<lparr> app_CheckTxState := s \<rparr>)"
    by (auto simp: CheckTx_def Let_def split: if_err_splits if_splits prod.splits)
  then show "observes app' sh" using o by (auto simp: observes_def)
next
  assume "observes app sh"
  then show "observes (Commit now D app) sh"
    by (auto simp: Commit_def maybePersistToDisk_def PersistToDisk_def observes_def Let_def split: option.split)
qed

lemma observes_genesis:
  assumes i: "InitChain U req NewShielderApp = Inr app"
  shows "observes app (NewShielder :: ('g1, 'g2, 'ek) Shielder)"
proof -
  have "tl (app_Configs app) = []" "app_Identities app = Map.empty" "app_EONCounter app = 0"
    "app_DKGMap app = Map.empty" "app_BatchStates app = Map.empty"
    using i by (auto simp: InitChain_def NewShielderApp_def Let_def updateCheckTxMembers_def emptyBatchConfig_def
        split: if_err_splits if_splits option.splits)
  moreover have "batch_data (NewShielder :: ('g1, 'g2, 'ek) Shielder) j =
      \<lparr> bd_BatchIndex = j, bd_DecryptionSignatures = [] \<rparr>" for j
    by (rule batch_data_simps(2)) (simp add: NewShielder_def)
  ultimately show ?thesis
    by (simp add: observes_def observes_eons_def observes_batches_def signatures_of_def) (simp add: NewShielder_def)
qed

section \<open>Commitments that cannot be read\<close>

text \<open>
  The one event the application publishes that no keyper can read: a commitment without points. Every
  commitment the application has let through is in the view, or this event was published for it.
\<close>

definition no_points_event ::
  "('g1, 'g2, 'gt) bn256 \<Rightarrow> ('pk, 'sk, 'ek, 'dk) eth \<Rightarrow> u64 \<Rightarrow> address \<Rightarrow> abci_event" where
  "no_points_event B E eon sender =
     PolyCommitment_MakeABCIEvent B E \<lparr> pc_Height = 0, pc_Eon = eon, pc_Sender = sender, pc_Gammas = Some [] \<rparr>"

definition commitment_shown :: "('g1, 'g2) Eon list \<Rightarrow> u64 \<Rightarrow> address \<Rightarrow> bool" where
  "commitment_shown eons n a \<longleftrightarrow> (\<exists>eo\<in>set eons. eo_Eon eo = n \<and> a \<in> pc_Sender ` set (eo_Commitments eo))"

definition commitments_published ::
  "('g1, 'g2, 'gt) bn256 \<Rightarrow> ('pk, 'sk, 'ek, 'dk) eth \<Rightarrow> abci_event list \<Rightarrow> ShielderApp \<Rightarrow>
   ('g1, 'g2, 'ek) Shielder \<Rightarrow> bool" where
  "commitments_published B E evs app sh \<longleftrightarrow>
     (\<forall>n d a. app_DKGMap app n = Some d \<longrightarrow> a \<in> dkg_PolyCommitmentsSeen d \<longrightarrow>
        commitment_shown (sh_Eons sh) n a \<or> no_points_event B E n a \<in> set evs)"

text \<open>Where a commitment that the application has seen comes from.\<close>

definition seen_before :: "ShielderApp \<Rightarrow> u64 \<Rightarrow> address \<Rightarrow> bool" where
  "seen_before app n a \<longleftrightarrow> (\<exists>d. app_DKGMap app n = Some d \<and> a \<in> dkg_PolyCommitmentsSeen d)"

lemma seen_before_cong: "app_DKGMap app' = app_DKGMap app \<Longrightarrow> seen_before app' n a = seen_before app n a"
  by (simp add: seen_before_def)

lemma seen_before_new:
  "app_DKGMap app' = (app_DKGMap app)(k \<mapsto> NewDKGInstance c k) \<Longrightarrow> seen_before app' n a \<Longrightarrow> seen_before app n a"
  by (auto simp: seen_before_def NewDKGInstance_def split: if_split_asm)

lemma handleDKGMsg_seen:
  assumes "handleDKGMsg parsed eon register event app = Inr (r, app')" "seen_before app' n a"
    and "\<And>m d d'. register m d = Inr d' \<Longrightarrow> dkg_PolyCommitmentsSeen d' = dkg_PolyCommitmentsSeen d"
  shows "seen_before app n a"
  using assms(1)
proof (cases rule: handleDKGMsg_cases)
  case (2 m d d')
  then show ?thesis using assms(2) assms(3) [OF 2(3)] by (auto simp: seen_before_def split: if_split_asm)
qed (use assms(2) in simp)

definition published_commitment ::
  "('g1, 'g2, 'gt) bn256 \<Rightarrow> ('pk, 'sk, 'ek, 'dk) eth \<Rightarrow> ShielderApp \<Rightarrow> u64 \<Rightarrow> address \<Rightarrow> abci_event list \<Rightarrow> bool" where
  "published_commitment B E app n a evs \<longleftrightarrow>
     app_DKGMap app n \<noteq> None \<and>
     (\<exists>gs. evs = [MakeABCIEvent B E (EvPolyCommitment \<lparr> pc_Height = 0, pc_Eon = n, pc_Sender = a, pc_Gammas = Some gs \<rparr>)])"

lemma handlePolyCommitmentMsg_seen:
  assumes "handlePolyCommitmentMsg B E pcm s app = Inr (r, app')" "seen_before app' n a"
  shows "seen_before app n a \<or> published_commitment B E app n a (resp_Events r)"
  using assms(1) unfolding handlePolyCommitmentMsg_def
proof (cases rule: handleDKGMsg_cases)
  case (2 m d d')
  then obtain gs where "m = \<lparr> pc_Height = 0, pc_Eon = pc_Eon m, pc_Sender = pc_Sender m, pc_Gammas = Some gs \<rparr>"
    by (auto simp: ParsePolyCommitmentMsg_def elim!: result_bindE)
  moreover have "n = pc_Eon m \<and> a = pc_Sender m \<or> seen_before app n a"
    using assms(2) 2(2-4) by (auto simp: seen_before_def RegisterPolyCommitmentMsg_Inr split: if_split_asm)
  ultimately show ?thesis using 2(2,5)
    by (auto simp: published_commitment_def okResponse_def) metis
qed (use assms(2) in simp)

lemma deliverMessage_seen:
  assumes a: "app_inv app" and d: "deliverMessage R B E m s app = Inr (r, app')" and seen: "seen_before app' n k"
  shows "seen_before app n k \<or> published_commitment B E app n k (resp_Events r)"
proof (cases "\<exists>p. m = Some (Some p)")
  case True
  then obtain p where m: "m = Some (Some p)" by blast
  show ?thesis
  proof (cases p)
    case (Message_BatchConfig bm)
    then have "deliverBatchConfig R E bm s app = Inr (r, app')" using d m by simp
    from deliverBatchConfig_events [OF app_inv_ne [OF a] this] show ?thesis
      using seen accepted_fields(4) by (auto simp: seen_before_def NewDKGInstance_def split: if_split_asm)
  next
    case (Message_EonStartVote b)
    then have "deliverEonStartVoteMsg R b s app = Inr (r, app')" using d m by simp
    with a show ?thesis using seen
      by (cases rule: deliverEonStartVoteMsg_cases) (auto simp: frame_simps seen_before_def NewDKGInstance_def split: if_split_asm)
  next
    case (Message_PolyCommitment pcm)
    then show ?thesis using handlePolyCommitmentMsg_seen [OF _ seen] d m by simp
  next
    case (Message_BatchConfigStarted i)
    with d m have "app_DKGMap app' = app_DKGMap app"
      by (auto simp: deliverBatchConfigStarted_def Let_def split: if_splits elim!: result_bindE)
    with seen show ?thesis by (simp add: seen_before_def)
  next
    case (Message_CheckIn ci)
    with d m have "app_DKGMap app' = app_DKGMap app"
      by (auto simp: deliverCheckIn_def Let_def split: if_splits if_err_splits)
    with seen show ?thesis by (simp add: seen_before_def)
  next
    case (Message_DecryptionSignature ds)
    with d m have "app_DKGMap app' = app_DKGMap app"
      by (auto simp: deliverDecryptionSignature_def Let_def split: if_splits if_err_splits elim!: result_bindE)
    with seen show ?thesis by (simp add: seen_before_def)
  next
    case (Message_EpochSecretKeyShare ks)
    with d m have "app' = app" by (auto simp: handleEpochSecretKeyShareMsg_def split: if_err_splits)
    with seen show ?thesis by simp
  next
    case (Message_PolyEval pem)
    then show ?thesis using handleDKGMsg_seen [OF _ seen] d m
      by (fastforce simp: handlePolyEvalMsg_def RegisterPolyEvalMsg_Inr)
  next
    case (Message_Accusation am)
    then show ?thesis using handleDKGMsg_seen [OF _ seen] d m
      by (fastforce simp: handleAccusationMsg_def RegisterAccusationMsg_Inr)
  next
    case (Message_Apology am)
    then show ?thesis using handleDKGMsg_seen [OF _ seen] d m
      by (fastforce simp: handleApologyMsg_def RegisterApologyMsg_Inr)
  qed
next
  case False
  then have "m = None \<or> m = Some None" by (cases m) auto
  then show ?thesis using d seen by auto
qed

lemma DeliverTx_seen:
  assumes a: "app_inv app" and d: "DeliverTx R B E P tx app = Inr (r, app')" and seen: "seen_before app' n k"
  shows "seen_before app n k \<or> published_commitment B E app n k (resp_Events r)"
  using DeliverTx_error_events [OF d]
proof
  assume "app' = app \<and> resp_Events r = []"
  then show ?thesis using seen by simp
next
  assume "\<exists>m s t. deliverMessage R B E m s (app \<lparr> app_NonceTracker := t \<rparr>) = Inr (r, app')"
  then obtain m s t where "deliverMessage R B E m s (app \<lparr> app_NonceTracker := t \<rparr>) = Inr (r, app')" by blast
  from deliverMessage_seen [OF _ this seen] a show ?thesis
    by (simp add: seen_before_def published_commitment_def)
qed

text \<open>No event takes a commitment out of the view.\<close>

lemma append_to_eon_shown:
  assumes "append_to_eon n f sh = Inr sh'" "commitment_shown (sh_Eons sh) k a"
    and f: "\<And>eo. eo_Eon (f eo) = eo_Eon eo \<and> set (eo_Commitments eo) \<subseteq> set (eo_Commitments (f eo))"
  shows "commitment_shown (sh_Eons sh') k a"
proof -
  obtain i where sh': "sh_Eons sh' = (sh_Eons sh) [i := f (sh_Eons sh ! i)]"
    using assms(1) by (auto simp: append_to_eon_def elim!: result_bindE)
  from assms(2) obtain eo where eo: "eo \<in> set (sh_Eons sh)" "eo_Eon eo = k" "a \<in> pc_Sender ` set (eo_Commitments eo)"
    unfolding commitment_shown_def by blast
  then obtain j where j: "j < length (sh_Eons sh)" "eo_Eon (sh_Eons sh ! j) = k"
    "a \<in> pc_Sender ` set (eo_Commitments (sh_Eons sh ! j))"
    by (metis in_set_conv_nth)
  have "sh_Eons sh' ! j \<in> set (sh_Eons sh')" using j(1) by (simp add: sh')
  moreover have "eo_Eon (sh_Eons sh' ! j) = k \<and> a \<in> pc_Sender ` set (eo_Commitments (sh_Eons sh' ! j))"
    using j f [of "sh_Eons sh ! j"] by (cases "i = j") (auto simp: sh')
  ultimately show ?thesis unfolding commitment_shown_def by blast
qed

lemma applyEvent_shown:
  assumes "commitment_shown (sh_Eons sh) k a"
  shows "commitment_shown (sh_Eons (applyEvent ev sh)) k a"
proof (cases "apply_to ev sh")
  case (Inr sh')
  have "commitment_shown (sh_Eons sh') k a"
  proof (cases ev)
    case (EvEonStarted e)
    with Inr assms show ?thesis
      by (auto simp: applyEonStarted_def commitment_shown_def Let_def split: if_split_asm)
  next
    case (EvPolyCommitment e)
    with Inr show ?thesis by (auto simp: applyPolyCommitment_def intro: append_to_eon_shown [OF _ assms])
  next
    case (EvPolyEval e)
    with Inr show ?thesis by (auto simp: applyPolyEval_def intro: append_to_eon_shown [OF _ assms])
  next
    case (EvAccusation e)
    with Inr show ?thesis by (auto simp: applyAccusation_def intro: append_to_eon_shown [OF _ assms])
  next
    case (EvApology e)
    with Inr show ?thesis by (auto simp: applyApology_def intro: append_to_eon_shown [OF _ assms])
  next
    case (EvEpochSecretKeyShare e)
    with Inr show ?thesis by (auto simp: applyEpochSecretKeyShare_def intro: append_to_eon_shown [OF _ assms])
  qed (use Inr assms in \<open>auto simp: applyCheckIn_def applyBatchConfig_def applyDecryptionSignature_def
      getBatchData_def Let_def split: option.split_asm prod.split_asm\<close>)
  with Inr show ?thesis by (simp add: applyEvent_def)
qed (use assms in \<open>simp add: applyEvent_def\<close>)

lemma applyTxEvents_shown:
  "commitment_shown (sh_Eons sh) k a \<Longrightarrow> commitment_shown (sh_Eons (applyTxEvents B E h evs sh)) k a"
  by (induction evs arbitrary: sh) (auto simp: applyTxEvents.simps(2) applyEvent_shown split: sum.split)

lemma published_commitment_shown:
  assumes B: "bn_ok (B :: ('g1, 'g2, 'gt) bn256)" and E: "eth_ok E"
    and o: "observes app (sh :: ('g1, 'g2, 'ek) Shielder)" and inv: "sh_inv h sh"
    and p: "published_commitment B E app n a evs"
  shows "commitment_shown (sh_Eons (applyTxEvents B E h evs sh)) n a \<or> no_points_event B E n a \<in> set evs"
proof -
  from p obtain gs where evs: "evs = [MakeABCIEvent B E (EvPolyCommitment
      \<lparr> pc_Height = 0, pc_Eon = n, pc_Sender = a, pc_Gammas = Some gs \<rparr>)]" (is "_ = [MakeABCIEvent B E (EvPolyCommitment ?m)]")
    and dkg: "app_DKGMap app n \<noteq> None" by (auto simp: published_commitment_def)
  show ?thesis
  proof (cases "gs = []")
    case True
    then show ?thesis by (simp add: evs no_points_event_def)
  next
    case False
    then have g: "readable (EvPolyCommitment ?m)" by simp
    have s: "sorted_wrt (<) (map eo_Eon (sh_Eons sh))" using inv by (simp add: sh_inv_def)
    have n: "n \<in> eo_Eon ` set (sh_Eons sh)" using o dkg by (auto simp: observes_def observes_eons_def)
    define f where "f = (\<lambda>eon :: ('g1, 'g2) Eon. eon \<lparr> eo_Commitments := eo_Commitments eon @ [?m \<lparr> pc_Height := h \<rparr>] \<rparr>)"
    from append_to_eon_present [OF s n] obtain i where i: "i < length (sh_Eons sh)" "eo_Eon (sh_Eons sh ! i) = n"
      "append_to_eon n f sh = Inr (sh \<lparr> sh_Eons := (sh_Eons sh) [i := f (sh_Eons sh ! i)] \<rparr>)" by metis
    have "apply_to (wire_part h (EvPolyCommitment ?m)) sh = append_to_eon n f sh"
      by (simp add: applyPolyCommitment_def f_def)
    then have "applyTxEvents B E h evs sh = sh \<lparr> sh_Eons := (sh_Eons sh) [i := f (sh_Eons sh ! i)] \<rparr>"
      unfolding evs applyTxEvents_single [OF B E g] applyEvent_def by (simp only: i(3) sum.case)
    moreover have "f (sh_Eons sh ! i) \<in> set ((sh_Eons sh) [i := f (sh_Eons sh ! i)])"
      by (rule set_update_memI [OF i(1)])
    moreover have "eo_Eon (f (sh_Eons sh ! i)) = n" "a \<in> pc_Sender ` set (eo_Commitments (f (sh_Eons sh ! i)))"
      by (simp_all add: f_def i(2))
    ultimately have "commitment_shown (sh_Eons (applyTxEvents B E h evs sh)) n a"
      unfolding commitment_shown_def by (intro bexI [where x = "f (sh_Eons sh ! i)"]) simp_all
    then show ?thesis ..
  qed
qed

lemma commitments_published_DeliverTx:
  assumes B: "bn_ok (B :: ('g1, 'g2, 'gt) bn256)" and E: "eth_ok E"
    and o: "observes app (sh :: ('g1, 'g2, 'ek) Shielder)" "sh_inv h sh" "app_inv app"
    and c: "commitments_published B E evs app sh" and d: "DeliverTx R B E P tx app = Inr (r, app')"
  shows "commitments_published B E (evs @ resp_Events r) app' (applyTxEvents B E h (resp_Events r) sh)"
  unfolding commitments_published_def
proof (intro allI impI)
  fix n d' a
  assume "app_DKGMap app' n = Some d'" "a \<in> dkg_PolyCommitmentsSeen d'"
  then have "seen_before app' n a" by (auto simp: seen_before_def)
  from DeliverTx_seen [OF o(3) d this]
  show "commitment_shown (sh_Eons (applyTxEvents B E h (resp_Events r) sh)) n a \<or>
      no_points_event B E n a \<in> set (evs @ resp_Events r)"
  proof
    assume "seen_before app n a"
    then have "commitment_shown (sh_Eons sh) n a \<or> no_points_event B E n a \<in> set evs"
      using c by (auto simp: commitments_published_def seen_before_def)
    then show ?thesis by (auto intro: applyTxEvents_shown)
  next
    assume "published_commitment B E app n a (resp_Events r)"
    from published_commitment_shown [OF B E o(1,2) this] show ?thesis by auto
  qed
qed

lemma commitments_published_cong:
  "commitments_published B E evs app sh \<Longrightarrow> app_DKGMap app' = app_DKGMap app \<Longrightarrow> commitments_published B E evs app' sh"
  by (simp add: commitments_published_def)

lemma silent_DKGMap:
  "app_Configs app \<noteq> [] \<Longrightarrow> EndBlock R height app = Inr (us, app') \<Longrightarrow> app_DKGMap app' = app_DKGMap app"
  "CheckTx E P tx app = Inr (code, app') \<Longrightarrow> app_DKGMap app' = app_DKGMap app"
  "app_DKGMap (Commit now D app) = app_DKGMap app"
proof -
  show "app_Configs app \<noteq> [] \<Longrightarrow> EndBlock R height app = Inr (us, app') \<Longrightarrow> app_DKGMap app' = app_DKGMap app"
    by (auto simp: EndBlock_eq Let_def)
  show "CheckTx E P tx app = Inr (code, app') \<Longrightarrow> app_DKGMap app' = app_DKGMap app"
    by (auto simp: CheckTx_def Let_def split: if_err_splits if_splits prod.splits)
  show "app_DKGMap (Commit now D app) = app_DKGMap app"
    by (simp add: Commit_def maybePersistToDisk_def PersistToDisk_def Let_def split: option.split)
qed

lemma commitments_published_genesis:
  "InitChain U req NewShielderApp = Inr app \<Longrightarrow> commitments_published B E [] app sh"
  by (auto simp: commitments_published_def InitChain_def NewShielderApp_def Let_def updateCheckTxMembers_def
      split: if_err_splits if_splits option.splits)

section \<open>The chain and its observer, step by step\<close>

text \<open>
  \<open>h\<close> is the height of the block that is being executed: the observer reads the events of a
  transaction with it. \<open>evs\<close> are all events published so far. Heights do not decrease; the eon counter does
  not wrap around.
\<close>

inductive observed ::
  "(bytes \<Rightarrow> GenesisAppState result) \<Rightarrow> ('g1, 'g2, 'gt) bn256 \<Rightarrow> ('pk, 'sk, 'ek, 'dk) eth \<Rightarrow> proto \<Rightarrow>
   i64 \<Rightarrow> abci_event list \<Rightarrow> ShielderApp \<Rightarrow> ('g1, 'g2, 'ek) Shielder \<Rightarrow> bool"
  for U B E P where
  genesis: "InitChain U req NewShielderApp = Inr app \<Longrightarrow> observed U B E P h [] app NewShielder"
| tx: "observed U B E P h evs app sh \<Longrightarrow> orders_ok R \<Longrightarrow> app_EONCounter app < app_EONCounter app + 1 \<Longrightarrow>
    DeliverTx R B E P t app = Inr (r, app') \<Longrightarrow>
    observed U B E P h (evs @ resp_Events r) app' (applyTxEvents B E h (resp_Events r) sh)"
| block: "observed U B E P h evs app sh \<Longrightarrow> orders_ok R \<Longrightarrow> EndBlock R h app = Inr (us, app') \<Longrightarrow> sint h \<le> sint h' \<Longrightarrow>
    observed U B E P h' evs app' sh"
| check: "observed U B E P h evs app sh \<Longrightarrow> CheckTx E P t app = Inr (code, app') \<Longrightarrow> observed U B E P h evs app' sh"
| commit: "observed U B E P h evs app sh \<Longrightarrow> observed U B E P h evs (Commit now D app) sh"

lemma observed_inv:
  assumes "observed U B E P h evs app sh" "bn_ok B" "eth_ok E"
  shows "app_inv app \<and> sh_inv h sh \<and> observes app sh \<and> commitments_published B E evs app sh"
  using assms(1)
proof (induction rule: observed.induct)
  case (genesis req app h)
  then show ?case using InitChain_inv observes_genesis commitments_published_genesis by auto
next
  case (tx h evs app sh R t r app')
  then have "app_inv app" "sh_inv h sh" "observes app sh" "commitments_published B E evs app sh" by simp_all
  with tx show ?case
    by (intro conjI DeliverTx_inv [OF _ tx(2,4)] applyTxEvents_inv observes_DeliverTx [OF assms(2,3) _ _ _ tx(3,4)]
        commitments_published_DeliverTx [OF assms(2,3) _ _ _ _ tx(4)])
next
  case (block h evs app sh R us app' h')
  then have a: "app_inv app" "sh_inv h sh" "observes app sh" "commitments_published B E evs app sh" by simp_all
  note ne = app_inv_ne [OF a(1)]
  show ?case
    by (intro conjI EndBlock_inv [OF a(1) block(3)] sh_inv_mono [OF a(2) block(4)] observes_silent(1) [OF a(3) ne block(3)]
        commitments_published_cong [OF a(4)] silent_DKGMap(1) [OF ne block(3)])
next
  case (check h evs app sh t code app')
  then show ?case
    by (intro conjI CheckTx_inv [OF _ check(2)] observes_silent(2) [OF _ check(2)]
        commitments_published_cong [OF _ silent_DKGMap(2) [OF check(2)]]) simp_all
next
  case (commit h evs app sh now D)
  then show ?case
    by (intro conjI Commit_inv observes_silent(3) commitments_published_cong [OF _ silent_DKGMap(3)]) simp_all
qed

end
