(* ===== verification/SmallKeyper.thy ===== *)
theory SmallKeyper
  imports SmallRun DecideProps KeyperFacts ObserveMainFacts ObserveApp
begin

text \<open>
  Concrete main chain states, deciders and nodes, for the witnesses only: a main chain at block 35 with one
  config of two keypers, batches of ten blocks, and the keyper with the address 1. Nothing here models code.
\<close>

definition small_cc :: ContractConfig where
  "small_cc = zero_ContractConfig \<lparr> cc_Keypers := [1, 2], cc_Threshold := 1, cc_BatchSpan := 10,
     cc_ExecutionTimeout := 100, cc_TransactionGasLimit := 50 \<rparr>"

definition small_kc :: "(byte, byte) Config" where
  "small_kc = \<lparr> kc_SigningKey = 1, kc_ValidatorKey = replicate 64 3, kc_EncryptionKey = 1,
     kc_ConfigContractAddress = 0, kc_BatcherContractAddress = 0, kc_MainChainFollowDistance = 0,
     kc_ExecutionStaggering = 5, kc_DKGPhaseLength = 10 \<rparr>"

lemma small_address: "Config_Address small_eth small_kc = 1"
  by (simp add: Config_Address_def small_kc_def small_signer)

definition small_mc :: MainChain where
  "small_mc = NewMainChain 0 \<lparr> mc_BatchConfigs := [small_cc], mc_CurrentBlock := 35, mc_NumExecutionHalfSteps := 2,
     mc_CipherExecutionReceipts := [0 \<mapsto>
       \<lparr> cr_Executed = True, cr_Executor = 2, cr_HalfStep = 0, cr_CipherBatchHash = zero_hash, cr_BatchHash = [8] \<rparr>] \<rparr>"

definition small_batch :: "u64 \<Rightarrow> Batch" where
  "small_batch i = \<lparr> ba_BatchIndex = i, ba_DecryptionSignatureHash = [5], ba_DecryptedTransactions = [[9]],
     ba_DecryptedBatchHash = [6], ba_DecryptionSignatureIndex = 1, ba_SignatureCount = 1 \<rparr>"

definition small_sigs :: "DecryptionSignature list" where
  "small_sigs =
     [\<lparr> ds_Height = 3, ds_BatchIndex = 1, ds_Sender = 1, ds_Signature = [1] \<rparr>,
      \<lparr> ds_Height = 4, ds_BatchIndex = 1, ds_Sender = 2, ds_Signature = [2] \<rparr>]"

definition small_sh :: "(z5, z5, byte) Shielder" where
  "small_sh = NewShielder \<lparr> sh_BatchConfigs := [small_config], sh_CurrentBlock := 4,
     sh_Batches := [1 \<mapsto> \<lparr> bd_BatchIndex = 1, bd_DecryptionSignatures = small_sigs \<rparr>] \<rparr>"

definition small_state :: "(z5, z5) State" where
  "small_state = NewState \<lparr> st_Batches := [(0, small_batch 0), (1, small_batch 1)] \<rparr>"

definition small_decider :: "(z5, z5, byte, byte, byte) Decider" where
  "small_decider = \<lparr> dc_Config = small_kc, dc_State = small_state, dc_Shielder = small_sh, dc_MainChain = small_mc,
     dc_Actions = [], dc_PhaseLength = NewConstantPhaseLength 10 \<rparr>"

lemmas small_decider_defs = small_decider_def small_state_def small_sh_def small_mc_def small_kc_def small_cc_def
  zero_ContractConfig_def NewMainChain_def NewState_def NewShielder_def

lemma small_config_for: "ConfigForBatchIndex small_mc i = Inr (Some small_cc)"
  by (simp add: ConfigForBatchIndex_def ConfigIndexForBatchIndex_def small_mc_def NewMainChain_def small_cc_def
      zero_ContractConfig_def IsActive_def)

lemma small_cc_keyper: "cc_KeyperIndex small_cc 1 = Some 0" "cc_KeyperIndex small_cc 2 = Some 1"
  by (simp_all add: cc_KeyperIndex_def small_cc_def zero_ContractConfig_def)

lemma small_decider_fields [simp]:
  "dc_Actions small_decider = []" "dc_MainChain small_decider = small_mc" "dc_Config small_decider = small_kc"
  "dc_State small_decider = small_state" "dc_Shielder small_decider = small_sh"
  by (simp_all add: small_decider_def)

lemma small_mc_fields [simp]:
  "mc_NumExecutionHalfSteps small_mc = 2" "mc_CurrentBlock small_mc = 35" "mc_Accusations small_mc = []"
  by (simp_all add: small_mc_def NewMainChain_def)

lemma small_batch_fields [simp]:
  "ba_BatchIndex (small_batch i) = i" "ba_DecryptedTransactions (small_batch i) = [[9]]"
  "ba_DecryptedBatchHash (small_batch i) = [6]"
  by (simp_all add: small_batch_def)

lemma small_sh_batch [simp]:
  "sh_Batches small_sh 1 = Some \<lparr> bd_BatchIndex = 1, bd_DecryptionSignatures = small_sigs \<rparr>"
  by (simp add: small_sh_def)

lemma small_cc_fields: "length (cc_Keypers small_cc) = 2" "max_stagger small_cc = 50" "cc_ExecutionTimeout small_cc = 100"
  "kc_ExecutionStaggering small_kc = 5"
  by (simp_all add: small_cc_def zero_ContractConfig_def max_stagger_def small_kc_def)

section \<open>A key generation that starts\<close>

definition small_choices :: dec_choices where
  "small_choices = \<lparr> dec_orders = small_dkg_orders, dec_Batches = (\<lambda>xs. xs), dec_Accusations = (\<lambda>xs. xs),
     dec_Polynomial = (\<lambda>eon i. Inr 1), dec_Encrypt = (\<lambda>eon i. []), dec_int31n = (\<lambda>_ _ _. 0) \<rparr>"

definition small_eon :: "(z5, z5) Eon" where
  "small_eon = new_eon \<lparr> es_Height = 2, es_Eon = 1, es_BatchIndex = 5 \<rparr>"

definition small_starter :: "(z5, z5, byte, byte, byte) Decider" where
  "small_starter = small_decider \<lparr> dc_State := NewState,
     dc_Shielder := small_sh \<lparr> sh_Eons := [small_eon] \<rparr> \<rparr>"

lemma small_starter_inv: "dec_inv bn5 small_starter"
  by (rule dec_inv_NewState) (simp_all add: small_starter_def small_eon_def)

lemma small_starts: "case Decide small_choices bn5 small_eth small_starter of
    Inl e \<Rightarrow> False | Inr d \<Rightarrow> map dg_Eon (st_DKGs (dc_State d)) = [1]"
  by code_simp

definition small_new_dkg :: "z5 DKG" where
  "small_new_dkg = \<lparr> dg_Eon = 1, dg_StartBatchIndex = 5, dg_Keypers = [1, 2], dg_Pure = NewPureDKG 1 2 1 0,
     dg_OutgoingPolyEvalMsgs = [], dg_PhaseLength = NewConstantPhaseLength 10 \<rparr>"

section \<open>A main chain\<close>

text \<open>Half steps 0 and 4 were executed, 2 was skipped.\<close>

definition small_receipt :: "u64 \<Rightarrow> CipherExecutionReceipt" where
  "small_receipt h = (if h = 0 \<or> h = 4 then \<lparr> cr_Executed = True, cr_Executor = 2, cr_HalfStep = h,
     cr_CipherBatchHash = zero_hash, cr_BatchHash = [8] \<rparr> else zero_receipt)"

definition small_main :: main_chain where
  "small_main = \<lparr> ch_Txs = [\<lparr> ta_BatchIndex = 0, ta_TransactionType = TransactionTypeCipher, ta_Transaction = [7],
       ta_BatchHash = [1], ta_BlockNumber = 3 \<rparr>],
     ch_Deposits = [], ch_Accused = [], ch_Appealed = [], ch_NumConfigs = (\<lambda>b. if b = 0 then 0 else 1),
     ch_Config = (\<lambda>i. small_cc), ch_NumHalfSteps = (\<lambda>b. if b = 0 then 0 else 6), ch_Receipt = small_receipt \<rparr>"

definition small_contract :: "u64 \<Rightarrow> config_contract" where
  "small_contract b = \<lparr> call_NumConfigs = Inr (ch_NumConfigs small_main b),
     call_Configs = (\<lambda>i. Inr (ConfigFields.truncate small_cc)), call_ConfigNumKeypers = (\<lambda>i. Inr 2),
     call_ConfigKeypers = (\<lambda>i k. Inr (if k = 0 then 1 else 2)), call_NextConfig = Inl (Errorf ''none''),
     call_NextConfigNumKeypers = Inr 0, call_NextConfigKeypers = (\<lambda>k. Inr 0) \<rparr>"

definition small_node :: main_node where
  "small_node = \<lparr> mn_SyncProgress = Inr False, mn_HeadNumber = Inr 10, mn_ConfigContract = small_contract,
     mn_NumExecutionHalfSteps = (\<lambda>b. Inr (ch_NumHalfSteps small_main b)), mn_GetReceipt = (\<lambda>b h. Inr (ch_Receipt small_main h)),
     mn_TransactionAdded = (\<lambda>a b. Inr (between ta_BlockNumber (ch_Txs small_main) a b)),
     mn_DepositChanged = (\<lambda>a b. Inr []), mn_Accused = (\<lambda>a b. Inr []), mn_Appealed = (\<lambda>a b. Inr []) \<rparr>"

lemma small_main_ok: "chain_ok small_main"
  by (auto simp: chain_ok_def small_main_def block_sorted_def small_receipt_def)

lemma small_GetConfig: "GetConfigByIndex (small_contract b) i = Inr small_cc"
  by (simp add: GetConfigByIndex_def GetConfigKeypers_def small_contract_def small_upto small_cc_def
      zero_ContractConfig_def ConfigFields.truncate_def DedupAddresses_def)

lemma small_node_tells: "node_tells small_node small_main"
  by (simp add: node_tells_def small_node_def small_GetConfig between_def)
    (auto simp: small_contract_def small_main_def)

lemma small_main_start: "state_at small_main 0 (NewMainChain 4)"
  by (rule state_at_NewMainChain [OF small_main_ok]) (simp_all add: small_main_def)

section \<open>A keyper process\<close>

definition small_keyper :: "(z5, z5, byte, byte, byte) Keyper" where
  "small_keyper = (NewKeyper small_kc) \<lparr> kp_World := \<lparr> w_Shielder = small_sh, w_MainChain = small_mc \<rparr> \<rparr>"

lemma small_keyper_run: "keyper_run bn5 small_eth small_proto [] small_keyper"
  unfolding small_keyper_def by (intro kr_world kr_new)

lemma small_decides: "case decide_and_save small_choices bn5 small_eth small_keyper of
    Inl e \<Rightarrow> False | Inr kpr \<Rightarrow> length (st_Actions (kp_State kpr)) = 1"
  by code_simp

end
