(* ===== verification/SyncExact.thy ===== *)
theory SyncExact
  imports DecideDKGFacts
begin

text \<open>
  What \<open>syncDKGWithEon\<close> makes of the events of an eon, stated from the events: an entry of a key generation is
  the first event that shows it, and stays. The definitions here say what an event shows; nothing here models
  code.
\<close>

section \<open>The first event that shows something\<close>

primrec first_some :: "('a \<Rightarrow> 'b option) \<Rightarrow> 'a list \<Rightarrow> 'b option" where
  "first_some f [] = None"
| "first_some f (x # xs) = (case f x of None \<Rightarrow> first_some f xs | Some y \<Rightarrow> Some y)"

lemma first_some_filter:
  "(\<And>x. x \<in> set xs \<Longrightarrow> \<not> P x \<Longrightarrow> f x = None) \<Longrightarrow> first_some f (filter P xs) = first_some f xs"
  by (induction xs) (auto split: option.split)

lemma first_some_None: "first_some f xs = None \<longleftrightarrow> (\<forall>x\<in>set xs. f x = None)"
  by (induction xs) (auto split: option.split)

lemma loop_slots:
  assumes "loop_result body xs s = Inr s'" "I s"
    and "\<And>x s s'. x \<in> set xs \<Longrightarrow> I s \<Longrightarrow> body x s = Inr s' \<Longrightarrow>
      I s' \<and> (\<forall>k. P k \<longrightarrow> get s' k = (case get s k of None \<Rightarrow> f k x | Some y \<Rightarrow> Some y))"
  shows "I s' \<and> (\<forall>k. P k \<longrightarrow> get s' k = (case get s k of None \<Rightarrow> first_some (f k) xs | Some y \<Rightarrow> Some y))"
  using assms
proof (induction xs arbitrary: s)
  case (Cons x xs)
  from Cons.prems(1) obtain s1 where s1: "body x s = Inr s1" "loop_result body xs s1 = Inr s'"
    by (auto simp: result_bind_Inr_iff)
  have step: "I s1 \<and> (\<forall>k. P k \<longrightarrow> get s1 k = (case get s k of None \<Rightarrow> f k x | Some y \<Rightarrow> Some y))"
    using Cons.prems(3) [OF _ Cons.prems(2) s1(1)] by simp
  have "I s' \<and> (\<forall>k. P k \<longrightarrow> get s' k = (case get s1 k of None \<Rightarrow> first_some (f k) xs | Some y \<Rightarrow> Some y))"
    by (rule Cons.IH [OF s1(2)]) (use step Cons.prems(3) in auto)
  with step show ?case by (auto split: option.splits)
qed (auto split: option.split)

lemma loop_union:
  assumes "loop_result body xs s = Inr s'" "I s"
    and "\<And>x s s'. x \<in> set xs \<Longrightarrow> I s \<Longrightarrow> body x s = Inr s' \<Longrightarrow> I s' \<and> get s' = get s \<union> F x"
  shows "I s' \<and> get s' = get s \<union> (\<Union>x\<in>set xs. F x)"
  using assms
proof (induction xs arbitrary: s)
  case (Cons x xs)
  from Cons.prems(1) obtain s1 where s1: "body x s = Inr s1" "loop_result body xs s1 = Inr s'"
    by (auto simp: result_bind_Inr_iff)
  have step: "I s1 \<and> get s1 = get s \<union> F x" using Cons.prems(3) [OF _ Cons.prems(2) s1(1)] by simp
  have "I s' \<and> get s' = get s1 \<union> (\<Union>x\<in>set xs. F x)"
    by (rule Cons.IH [OF s1(2)]) (use step Cons.prems(3) in auto)
  with step show ?case by auto
qed simp

lemma on_pure_Inr:
  "on_pure f dkg = Inr dkg' \<longleftrightarrow> (\<exists>p. f (dg_Pure dkg) = Inr p \<and> dkg' = dkg \<lparr> dg_Pure := p \<rparr>) \<or>
     (\<exists>e. f (dg_Pure dkg) = Inl (Errorf e)) \<and> dkg' = dkg"
  by (cases "f (dg_Pure dkg)" rule: no_panic.cases) (auto simp: on_pure_def logged_def)

section \<open>What events show\<close>

text \<open>An event counts if it is not older than the last synchronisation and was made in the right phase.\<close>

definition in_phase :: "Phase \<Rightarrow> i64 \<Rightarrow> ('g1, 'g2) Eon \<Rightarrow> 'g2 DKG \<Rightarrow> i64 \<Rightarrow> bool" where
  "in_phase p h eon dkg height \<longleftrightarrow> pd_Phase (dg_Pure dkg) \<le> p \<and> sint h \<le> sint height \<and>
     getPhaseAtHeight (dg_PhaseLength dkg) height (eo_StartHeight eon) = p"

definition shown_commitment :: "i64 \<Rightarrow> ('g1, 'g2) Eon \<Rightarrow> 'g2 DKG \<Rightarrow> nat \<Rightarrow> 'g2 PolyCommitment \<Rightarrow> 'g2 list option" where
  "shown_commitment h eon dkg j comm =
     (if in_phase Dealing h eon dkg (pc_Height comm) \<and> pc_Eon comm = pd_Eon (dg_Pure dkg) \<and>
         FindAddressIndex (dg_Keypers dkg) (pc_Sender comm) = Inr j \<and>
         Gammas_Degree (the (pc_Gammas comm)) = DegreeFromThreshold (pd_Threshold (dg_Pure dkg))
      then pc_Gammas comm else None)"

definition shown_eval ::
  "('g1, 'g2, 'gt) bn256 \<Rightarrow> (bytes \<Rightarrow> bytes result) \<Rightarrow> i64 \<Rightarrow> ('g1, 'g2) Eon \<Rightarrow> 'g2 DKG \<Rightarrow> nat \<Rightarrow> PolyEval \<Rightarrow> int option" where
  "shown_eval B decrypt h eon dkg j ev =
     (if in_phase Dealing h eon dkg (pe_Height ev) \<and> pe_Eon ev = pd_Eon (dg_Pure dkg) \<and>
         FindAddressIndex (dg_Keypers dkg) (pe_Sender ev) = Inr j \<and> j \<noteq> unat (pd_Keyper (dg_Pure dkg))
      then first_some (\<lambda>(i, receiver).
        if FindAddressIndex (dg_Keypers dkg) receiver \<noteq> Inr (unat (pd_Keyper (dg_Pure dkg))) then None
        else case decrypt (pe_EncryptedEvals ev ! i) of
          Inl err \<Rightarrow> None
        | Inr b \<Rightarrow> if ValidEval B (big_SetBytes b) then Some (big_SetBytes b) else None)
        (List.enumerate 0 (pe_Receivers ev))
      else None)"

definition shown_accusations :: "i64 \<Rightarrow> ('g1, 'g2) Eon \<Rightarrow> 'g2 DKG \<Rightarrow> Accusation \<Rightarrow> accusationKey set" where
  "shown_accusations h eon dkg acc =
     {(of_nat i, of_nat j) | i j. in_phase Accusing h eon dkg (acc_Height acc) \<and> pd_Eon (dg_Pure dkg) = dg_Eon dkg \<and>
        FindAddressIndex (dg_Keypers dkg) (acc_Sender acc) = Inr i \<and>
        (\<exists>accused\<in>set (acc_Accused acc). FindAddressIndex (dg_Keypers dkg) accused = Inr j)}"

definition shown_apology ::
  "('g1, 'g2, 'gt) bn256 \<Rightarrow> i64 \<Rightarrow> ('g1, 'g2) Eon \<Rightarrow> 'g2 DKG \<Rightarrow> accusationKey \<Rightarrow> Apology \<Rightarrow> int option" where
  "shown_apology B h eon dkg key apo =
     (if in_phase Apologizing h eon dkg (apo_Height apo) \<and> pd_Eon (dg_Pure dkg) = dg_Eon dkg \<and>
         FindAddressIndex (dg_Keypers dkg) (apo_Sender apo) = Inr (unat (snd key))
      then first_some (\<lambda>(i, accuser).
        if FindAddressIndex (dg_Keypers dkg) accuser = Inr (unat (fst key)) \<and> ValidEval B (apo_PolyEval apo ! i)
        then Some (apo_PolyEval apo ! i) else None)
        (List.enumerate 0 (apo_Accusers apo))
      else None)"

section \<open>The four loops\<close>

text \<open>One slot for every keyper.\<close>

definition slots_ok :: "'g2 DKG \<Rightarrow> bool" where
  "slots_ok dkg \<longleftrightarrow> length (dg_Keypers dkg) = unat (pd_NumKeypers (dg_Pure dkg)) \<and>
     length (pd_Commitments (dg_Pure dkg)) = unat (pd_NumKeypers (dg_Pure dkg)) \<and>
     length (pd_Evals (dg_Pure dkg)) = unat (pd_NumKeypers (dg_Pure dkg))"

lemma keyper_index:
  assumes "slots_ok dkg" "FindAddressIndex (dg_Keypers dkg) a = Inr i"
  shows "i < unat (pd_NumKeypers (dg_Pure dkg))" "unat (of_nat i :: u64) = i"
proof -
  show i: "i < unat (pd_NumKeypers (dg_Pure dkg))" using assms FindAddressIndex_Inr by (fastforce simp: slots_ok_def)
  then show "unat (of_nat i :: u64) = i"
    using unat_less_u64 [of "pd_NumKeypers (dg_Pure dkg)"] by (intro unat_of_nat_u64) simp
qed

lemma events_shown:
  assumes "height_sorted height evs" "\<And>e. \<not> sint h \<le> sint (height e) \<Longrightarrow> f e = None"
  shows "first_some f (events_from height evs h) = first_some f evs"
  unfolding events_from_filter [OF assms(1)] by (rule first_some_filter) (use assms(2) in simp)

lemma on_pure_cases:
  assumes on: "on_pure H s = Inr s'" and H: "\<And>p. H (dg_Pure s) = Inr p \<longleftrightarrow> C \<and> p = new"
  shows "C \<and> s' = s \<lparr> dg_Pure := new \<rparr> \<or> \<not> C \<and> s' = s"
  using on H [of new] H by (cases C) (fastforce simp: on_pure_Inr)+

text \<open>A handler that fills one slot, if it is empty and the message is good.\<close>

lemma on_pure_slot:
  assumes on: "on_pure H s = Inr s'"
    and H: "\<And>p. H (dg_Pure s) = Inr p \<longleftrightarrow> C \<and> get s k0 = None \<and> p = new"
    and new: "\<And>k. C \<Longrightarrow> get (s \<lparr> dg_Pure := new \<rparr>) k = (if k = k0 then Some v else get s k)"
  shows "s' = s \<or> s' = s \<lparr> dg_Pure := new \<rparr>"
    and "get s' k = (case get s k of None \<Rightarrow> if C \<and> k = k0 then Some v else None | Some y \<Rightarrow> Some y)"
proof -
  consider "C" "get s k0 = None" "s' = s \<lparr> dg_Pure := new \<rparr>" | "\<not> (C \<and> get s k0 = None)" "s' = s"
    using on_pure_cases [OF on, of "C \<and> get s k0 = None" new] H by auto
  then show "s' = s \<or> s' = s \<lparr> dg_Pure := new \<rparr>"
    and "get s' k = (case get s k of None \<Rightarrow> if C \<and> k = k0 then Some v else None | Some y \<Rightarrow> Some y)"
    using new by (cases; auto split: option.split)+
qed

lemma syncCommitments_exact:
  assumes ok: "eon_ok h0 eon" "slots_ok dkg" and sync: "syncCommitments h eon dkg = Inr dkg'"
  shows "\<exists>cs. dkg' = dkg \<lparr> dg_Pure := (dg_Pure dkg) \<lparr> pd_Commitments := cs \<rparr> \<rparr> \<and>
    length cs = length (pd_Commitments (dg_Pure dkg)) \<and> (\<forall>j < unat (pd_NumKeypers (dg_Pure dkg)).
      cs ! j = (case pd_Commitments (dg_Pure dkg) ! j of
        None \<Rightarrow> first_some (shown_commitment h eon dkg j) (eo_Commitments eon) | Some c \<Rightarrow> Some c))"
proof -
  let ?n = "unat (pd_NumKeypers (dg_Pure dkg))"
  let ?I = "\<lambda>s. \<exists>cs. s = dkg \<lparr> dg_Pure := (dg_Pure dkg) \<lparr> pd_Commitments := cs \<rparr> \<rparr> \<and>
    length cs = length (pd_Commitments (dg_Pure dkg))"
  have "?I dkg' \<and> (\<forall>j. j < ?n \<longrightarrow> pd_Commitments (dg_Pure dkg') ! j = (case pd_Commitments (dg_Pure dkg) ! j of
      None \<Rightarrow> first_some (shown_commitment h eon dkg j) (GetPolyCommitments eon h) | Some c \<Rightarrow> Some c))"
  proof (rule loop_slots [OF sync [unfolded syncCommitments_def], where get = "\<lambda>s j. pd_Commitments (dg_Pure s) ! j"])
    show "?I dkg" by (intro exI [of _ "pd_Commitments (dg_Pure dkg)"]) simp
    fix comm and s s' :: "'b DKG"
    assume comm: "comm \<in> set (GetPolyCommitments eon h)" and I: "?I s"
    from I obtain cs where s: "s = dkg \<lparr> dg_Pure := (dg_Pure dkg) \<lparr> pd_Commitments := cs \<rparr> \<rparr>"
      "length cs = length (pd_Commitments (dg_Pure dkg))" by blast
    have later: "sint h \<le> sint (pc_Height comm)"
      using comm by (simp add: GetPolyCommitments_def events_from_filter [OF eon_ok_sorted(1) [OF ok(1)]])
    assume body: "(if getPhaseAtHeight (dg_PhaseLength s) (pc_Height comm) (eo_StartHeight eon) \<noteq> Dealing then Inr s
       else case FindAddressIndex (dg_Keypers s) (pc_Sender comm) of
         Inl err \<Rightarrow> Inr s
       | Inr sender \<Rightarrow> on_pure (HandlePolyCommitmentMsg
           \<lparr> pcm_Eon = pc_Eon comm, pcm_Sender = of_nat sender, pcm_Gammas = pc_Gammas comm \<rparr>) s) = Inr s'"
    show "?I s' \<and> (\<forall>j. j < ?n \<longrightarrow> pd_Commitments (dg_Pure s') ! j = (case pd_Commitments (dg_Pure s) ! j of
        None \<Rightarrow> shown_commitment h eon dkg j comm | Some c \<Rightarrow> Some c))"
    proof (cases "getPhaseAtHeight (dg_PhaseLength dkg) (pc_Height comm) (eo_StartHeight eon) = Dealing \<and>
        (\<exists>i. FindAddressIndex (dg_Keypers dkg) (pc_Sender comm) = Inr i)")
      case False
      with body have "s' = s" by (auto simp: s split: if_splits sum.splits)
      moreover from False have "shown_commitment h eon dkg j comm = None" for j
        by (auto simp: shown_commitment_def in_phase_def)
      ultimately show ?thesis using I by (auto split: option.split)
    next
      case True
      then obtain i where i: "FindAddressIndex (dg_Keypers dkg) (pc_Sender comm) = Inr i" by blast
      note idx = keyper_index [OF ok(2) i]
      let ?m = "\<lparr> pcm_Eon = pc_Eon comm, pcm_Sender = of_nat i, pcm_Gammas = pc_Gammas comm \<rparr>"
      let ?C = "pd_Eon (dg_Pure dkg) = pc_Eon comm \<and> pd_Phase (dg_Pure dkg) \<le> Dealing \<and>
        (\<exists>g. pc_Gammas comm = Some g \<and> Gammas_Degree g = DegreeFromThreshold (pd_Threshold (dg_Pure dkg)))"
      let ?new = "(dg_Pure dkg) \<lparr> pd_Commitments := cs [i := pc_Gammas comm] \<rparr>"
      from body True i have on: "on_pure (HandlePolyCommitmentMsg ?m) s = Inr s'" by (simp add: s)
      have i': "i < length cs" using idx ok(2) s(2) by (simp add: slots_ok_def)
      have H: "HandlePolyCommitmentMsg ?m (dg_Pure s) = Inr p \<longleftrightarrow> ?C \<and> pd_Commitments (dg_Pure s) ! i = None \<and> p = ?new" for p
        using i' by (auto simp: HandlePolyCommitmentMsg_Inr s idx)
      have shown: "shown_commitment h eon dkg j comm = (if ?C \<and> j = i then Some (the (pc_Gammas comm)) else None)" for j
        using True i later by (cases "pc_Gammas comm") (auto simp: shown_commitment_def in_phase_def)
      have new: "pd_Commitments (dg_Pure (s \<lparr> dg_Pure := ?new \<rparr>)) ! j =
          (if j = i then Some (the (pc_Gammas comm)) else pd_Commitments (dg_Pure s) ! j)" if ?C for j
        using that i' by (auto simp: s nth_list_update)
      note slot = on_pure_slot [where get = "\<lambda>s j. pd_Commitments (dg_Pure s) ! j" and new = ?new, OF on H new]
      from slot(1) have "?I s'" using I s by auto
      with slot(2) show ?thesis unfolding shown by simp
    qed
  qed
  then obtain cs where "dkg' = dkg \<lparr> dg_Pure := (dg_Pure dkg) \<lparr> pd_Commitments := cs \<rparr> \<rparr>"
    "length cs = length (pd_Commitments (dg_Pure dkg))"
    "\<forall>j < ?n. cs ! j = (case pd_Commitments (dg_Pure dkg) ! j of
      None \<Rightarrow> first_some (shown_commitment h eon dkg j) (GetPolyCommitments eon h) | Some c \<Rightarrow> Some c)" by auto
  moreover have "first_some (shown_commitment h eon dkg j) (GetPolyCommitments eon h) =
      first_some (shown_commitment h eon dkg j) (eo_Commitments eon)" for j
    unfolding GetPolyCommitments_def
    by (rule events_shown [OF eon_ok_sorted(1) [OF ok(1)]]) (simp add: shown_commitment_def in_phase_def)
  ultimately show ?thesis by (intro exI [of _ cs]) (simp split: option.split)
qed

text \<open>One receiver of one event; \<open>i\<close> is the place of its sender.\<close>

lemma syncPolyEval_exact:
  assumes ok: "slots_ok dkg" and i: "i < unat (pd_NumKeypers (dg_Pure dkg))" "unat (of_nat i :: u64) = i"
    and s: "s = dkg \<lparr> dg_Pure := (dg_Pure dkg) \<lparr> pd_Evals := es \<rparr> \<rparr>" "length es = length (pd_Evals (dg_Pure dkg))"
    and body: "syncPolyEval B decrypt ev i x s = Inr s'"
  defines "C \<equiv> pd_Eon (dg_Pure dkg) = pe_Eon ev \<and> pd_Phase (dg_Pure dkg) \<le> Dealing"
  shows "(\<exists>es. s' = dkg \<lparr> dg_Pure := (dg_Pure dkg) \<lparr> pd_Evals := es \<rparr> \<rparr> \<and> length es = length (pd_Evals (dg_Pure dkg))) \<and>
    (\<forall>j. True \<longrightarrow> pd_Evals (dg_Pure s') ! j = (case pd_Evals (dg_Pure s) ! j of
      None \<Rightarrow> if C \<and> j = i then (\<lambda>(n, receiver).
        if FindAddressIndex (dg_Keypers dkg) receiver \<noteq> Inr (unat (pd_Keyper (dg_Pure dkg))) then None
        else case decrypt (pe_EncryptedEvals ev ! n) of
          Inl err \<Rightarrow> None
        | Inr b \<Rightarrow> if ValidEval B (big_SetBytes b) then Some (big_SetBytes b) else None) x else None
    | Some e \<Rightarrow> Some e))"
proof -
  obtain n receiver where x: "x = (n, receiver)" by (cases x)
  consider (skip) "s' = s"
      "FindAddressIndex (dg_Keypers dkg) receiver \<noteq> Inr (unat (pd_Keyper (dg_Pure dkg))) \<or>
       (\<exists>e. decrypt (pe_EncryptedEvals ev ! n) = Inl e)"
    | (handle) b where "FindAddressIndex (dg_Keypers dkg) receiver = Inr (unat (pd_Keyper (dg_Pure dkg)))"
      "decrypt (pe_EncryptedEvals ev ! n) = Inr b"
      "on_pure (HandlePolyEvalMsg B \<lparr> pem_Eon = pe_Eon ev, pem_Sender = of_nat i, pem_Receiver = pd_Keyper (dg_Pure s),
         pem_Eval = big_SetBytes b \<rparr>) s = Inr s'"
  proof (cases "FindAddressIndex (dg_Keypers dkg) receiver")
    case (Inl e)
    with body show thesis by (intro skip) (simp_all add: syncPolyEval_def x s)
  next
    case (Inr k)
    note k = keyper_index [OF ok Inr]
    show thesis
    proof (cases "of_nat k = pd_Keyper (dg_Pure dkg)")
      case False
      with body Inr k show thesis by (intro skip) (auto simp: syncPolyEval_def x s)
    next
      case True
      then have k': "k = unat (pd_Keyper (dg_Pure dkg))" using k(2) by simp
      show thesis
      proof (cases "decrypt (pe_EncryptedEvals ev ! n)" rule: no_panic.cases)
        case (1 p)
        with body Inr True show thesis by (simp add: syncPolyEval_def x s nth_at_def split: if_splits)
      next
        case (2 e)
        with body Inr True show thesis by (intro skip) (simp_all add: syncPolyEval_def x s nth_at_def split: if_splits)
      next
        case (3 b)
        with body Inr True k' show thesis by (intro handle [of b]) (simp_all add: syncPolyEval_def x s nth_at_def split: if_splits)
      qed
    qed
  qed
  then show ?thesis
  proof cases
    case skip
    with s show ?thesis by (auto simp: x split: option.split sum.split)
  next
    case (handle b)
    let ?new = "(dg_Pure dkg) \<lparr> pd_Evals := es [i := Some (big_SetBytes b)] \<rparr>"
    let ?C = "C \<and> ValidEval B (big_SetBytes b)"
    have i': "i < length es" using i(1) ok s(2) by (simp add: slots_ok_def)
    have H: "HandlePolyEvalMsg B \<lparr> pem_Eon = pe_Eon ev, pem_Sender = of_nat i, pem_Receiver = pd_Keyper (dg_Pure s),
        pem_Eval = big_SetBytes b \<rparr> (dg_Pure s) = Inr p \<longleftrightarrow> ?C \<and> pd_Evals (dg_Pure s) ! i = None \<and> p = ?new" for p
      using i' by (auto simp: HandlePolyEvalMsg_Inr s i(2) C_def)
    have new: "pd_Evals (dg_Pure (s \<lparr> dg_Pure := ?new \<rparr>)) ! j =
        (if j = i then Some (big_SetBytes b) else pd_Evals (dg_Pure s) ! j)" for j
      using i' by (simp add: s)
    note slot = on_pure_slot [where get = "\<lambda>s j. pd_Evals (dg_Pure s) ! j" and new = ?new, OF handle(3) H new]
    from slot(1) s have "\<exists>es. s' = dkg \<lparr> dg_Pure := (dg_Pure dkg) \<lparr> pd_Evals := es \<rparr> \<rparr> \<and> length es = length (pd_Evals (dg_Pure dkg))"
      by auto
    with slot(2) handle(1,2) show ?thesis by (simp add: x split: option.split)
  qed
qed

lemma syncPolyEvals_exact:
  assumes ok: "eon_ok h0 eon" "slots_ok dkg" and sync: "syncPolyEvals B h eon decrypt dkg = Inr dkg'"
  shows "\<exists>es. dkg' = dkg \<lparr> dg_Pure := (dg_Pure dkg) \<lparr> pd_Evals := es \<rparr> \<rparr> \<and>
    length es = length (pd_Evals (dg_Pure dkg)) \<and> (\<forall>j.
      es ! j = (case pd_Evals (dg_Pure dkg) ! j of
        None \<Rightarrow> first_some (shown_eval B decrypt h eon dkg j) (eo_PolyEvals eon) | Some e \<Rightarrow> Some e))"
proof -
  let ?I = "\<lambda>s. \<exists>es. s = dkg \<lparr> dg_Pure := (dg_Pure dkg) \<lparr> pd_Evals := es \<rparr> \<rparr> \<and>
    length es = length (pd_Evals (dg_Pure dkg))"
  have "?I dkg' \<and> (\<forall>j. True \<longrightarrow> pd_Evals (dg_Pure dkg') ! j = (case pd_Evals (dg_Pure dkg) ! j of
      None \<Rightarrow> first_some (shown_eval B decrypt h eon dkg j) (GetPolyEvals eon h) | Some e \<Rightarrow> Some e))"
  proof (rule loop_slots [OF sync [unfolded syncPolyEvals_def], where get = "\<lambda>s j. pd_Evals (dg_Pure s) ! j"])
    show "?I dkg" by (intro exI [of _ "pd_Evals (dg_Pure dkg)"]) simp
    fix ev and s s' :: "'b DKG"
    assume ev: "ev \<in> set (GetPolyEvals eon h)" and I: "?I s"
    from I obtain es where s: "s = dkg \<lparr> dg_Pure := (dg_Pure dkg) \<lparr> pd_Evals := es \<rparr> \<rparr>"
      "length es = length (pd_Evals (dg_Pure dkg))" by blast
    have later: "sint h \<le> sint (pe_Height ev)"
      using ev by (simp add: GetPolyEvals_def events_from_filter [OF eon_ok_sorted(2) [OF ok(1)]])
    assume body: "(if getPhaseAtHeight (dg_PhaseLength s) (pe_Height ev) (eo_StartHeight eon) \<noteq> Dealing then Inr s
       else case FindAddressIndex (dg_Keypers s) (pe_Sender ev) of
         Inl err \<Rightarrow> Inr s
       | Inr sender \<Rightarrow>
           if of_nat sender = pd_Keyper (dg_Pure s) then Inr s
           else loop_result (syncPolyEval B decrypt ev sender) (List.enumerate 0 (pe_Receivers ev)) s) = Inr s'"
    show "?I s' \<and> (\<forall>j. True \<longrightarrow> pd_Evals (dg_Pure s') ! j = (case pd_Evals (dg_Pure s) ! j of
        None \<Rightarrow> shown_eval B decrypt h eon dkg j ev | Some e \<Rightarrow> Some e))"
    proof (cases "getPhaseAtHeight (dg_PhaseLength dkg) (pe_Height ev) (eo_StartHeight eon) = Dealing \<and>
        (\<exists>i. FindAddressIndex (dg_Keypers dkg) (pe_Sender ev) = Inr i \<and> of_nat i \<noteq> pd_Keyper (dg_Pure dkg))")
      case False
      with body have "s' = s" by (auto simp: s split: if_splits sum.splits)
      moreover have "shown_eval B decrypt h eon dkg j ev = None" for j
      proof (rule ccontr)
        assume "shown_eval B decrypt h eon dkg j ev \<noteq> None"
        then have j: "FindAddressIndex (dg_Keypers dkg) (pe_Sender ev) = Inr j" "j \<noteq> unat (pd_Keyper (dg_Pure dkg))"
          "getPhaseAtHeight (dg_PhaseLength dkg) (pe_Height ev) (eo_StartHeight eon) = Dealing"
          by (auto simp: shown_eval_def in_phase_def split: if_splits)
        have "of_nat j \<noteq> pd_Keyper (dg_Pure dkg)" using keyper_index(2) [OF ok(2) j(1)] j(2) by auto
        with False j show False by blast
      qed
      ultimately show ?thesis using I by (auto split: option.split)
    next
      case True
      then obtain i where i: "FindAddressIndex (dg_Keypers dkg) (pe_Sender ev) = Inr i" "of_nat i \<noteq> pd_Keyper (dg_Pure dkg)" by blast
      note idx = keyper_index [OF ok(2) i(1)]
      from body True i have loop: "loop_result (syncPolyEval B decrypt ev i) (List.enumerate 0 (pe_Receivers ev)) s = Inr s'"
        by (simp add: s)
      let ?C = "pd_Eon (dg_Pure dkg) = pe_Eon ev \<and> pd_Phase (dg_Pure dkg) \<le> Dealing"
      let ?f = "\<lambda>(n, receiver).
        if FindAddressIndex (dg_Keypers dkg) receiver \<noteq> Inr (unat (pd_Keyper (dg_Pure dkg))) then None
        else case decrypt (pe_EncryptedEvals ev ! n) of
          Inl err \<Rightarrow> None
        | Inr b \<Rightarrow> if ValidEval B (big_SetBytes b) then Some (big_SetBytes b) else None"
      have receivers: "?I s' \<and> (\<forall>j. True \<longrightarrow> pd_Evals (dg_Pure s') ! j = (case pd_Evals (dg_Pure s) ! j of
          None \<Rightarrow> first_some (\<lambda>x. if ?C \<and> j = i then ?f x else None) (List.enumerate 0 (pe_Receivers ev)) | Some e \<Rightarrow> Some e))"
      proof (rule loop_slots [OF loop, where get = "\<lambda>s j. pd_Evals (dg_Pure s) ! j"])
        show "?I s" by (rule I)
        fix x and t t' :: "'b DKG" assume "?I t" "syncPolyEval B decrypt ev i x t = Inr t'"
        then show "?I t' \<and> (\<forall>j. True \<longrightarrow> pd_Evals (dg_Pure t') ! j = (case pd_Evals (dg_Pure t) ! j of
          None \<Rightarrow> if ?C \<and> j = i then ?f x else None | Some e \<Rightarrow> Some e))"
          using syncPolyEval_exact [OF ok(2) idx] by blast
      qed
      have shown: "first_some (\<lambda>x. if ?C \<and> j = i then ?f x else None) (List.enumerate 0 (pe_Receivers ev)) =
          shown_eval B decrypt h eon dkg j ev" for j
        using True i idx later by (auto simp: shown_eval_def in_phase_def word_unat_eq_iff first_some_None)
      show ?thesis using receivers unfolding shown .
    qed
  qed
  then obtain es where "dkg' = dkg \<lparr> dg_Pure := (dg_Pure dkg) \<lparr> pd_Evals := es \<rparr> \<rparr>"
    "length es = length (pd_Evals (dg_Pure dkg))"
    "\<forall>j. es ! j = (case pd_Evals (dg_Pure dkg) ! j of
      None \<Rightarrow> first_some (shown_eval B decrypt h eon dkg j) (GetPolyEvals eon h) | Some c \<Rightarrow> Some c)" by auto
  moreover have "first_some (shown_eval B decrypt h eon dkg j) (GetPolyEvals eon h) =
      first_some (shown_eval B decrypt h eon dkg j) (eo_PolyEvals eon)" for j
    unfolding GetPolyEvals_def
    by (rule events_shown [OF eon_ok_sorted(2) [OF ok(1)]]) (simp add: shown_eval_def in_phase_def)
  ultimately show ?thesis by (intro exI [of _ es]) (simp split: option.split)
qed

lemma syncAccusations_exact:
  assumes ok: "eon_ok h0 eon" and sync: "syncAccusations h eon dkg = Inr dkg'"
  shows "\<exists>as. dkg' = dkg \<lparr> dg_Pure := (dg_Pure dkg) \<lparr> pd_Accusations := as \<rparr> \<rparr> \<and>
    set as = set (pd_Accusations (dg_Pure dkg)) \<union> (\<Union>acc\<in>set (eo_Accusations eon). shown_accusations h eon dkg acc)"
proof -
  let ?I = "\<lambda>s. \<exists>as. s = dkg \<lparr> dg_Pure := (dg_Pure dkg) \<lparr> pd_Accusations := as \<rparr> \<rparr>"
  let ?C = "pd_Phase (dg_Pure dkg) \<le> Accusing \<and> pd_Eon (dg_Pure dkg) = dg_Eon dkg"
  let ?one = "\<lambda>i accused. {(of_nat i, of_nat j) :: accusationKey | j. ?C \<and> FindAddressIndex (dg_Keypers dkg) accused = Inr j}"
  have "?I dkg' \<and> set (pd_Accusations (dg_Pure dkg')) = set (pd_Accusations (dg_Pure dkg)) \<union>
      (\<Union>acc\<in>set (GetAccusations eon h). shown_accusations h eon dkg acc)"
  proof (rule loop_union [OF sync [unfolded syncAccusations_def], where get = "\<lambda>s. set (pd_Accusations (dg_Pure s))"])
    show "?I dkg" by (intro exI [of _ "pd_Accusations (dg_Pure dkg)"]) simp
    fix acc and s s' :: "'b DKG"
    assume acc: "acc \<in> set (GetAccusations eon h)" and I: "?I s"
    have later: "sint h \<le> sint (acc_Height acc)"
      using acc by (simp add: GetAccusations_def events_from_filter [OF eon_ok_sorted(3) [OF ok(1)]])
    assume body: "(if getPhaseAtHeight (dg_PhaseLength s) (acc_Height acc) (eo_StartHeight eon) \<noteq> Accusing then Inr s
       else case FindAddressIndex (dg_Keypers s) (acc_Sender acc) of
         Inl err \<Rightarrow> Inr s
       | Inr sender \<Rightarrow>
           loop_result (\<lambda>accused dkg.
             case FindAddressIndex (dg_Keypers dkg) accused of
               Inl err \<Rightarrow> Inr dkg
             | Inr accusedIndex \<Rightarrow> on_pure (HandleAccusationMsg
                 \<lparr> acm_Eon = dg_Eon dkg, acm_Accuser = of_nat sender, acm_Accused = of_nat accusedIndex \<rparr>) dkg)
             (acc_Accused acc) s) = Inr s'"
    show "?I s' \<and> set (pd_Accusations (dg_Pure s')) = set (pd_Accusations (dg_Pure s)) \<union> shown_accusations h eon dkg acc"
    proof (cases "getPhaseAtHeight (dg_PhaseLength dkg) (acc_Height acc) (eo_StartHeight eon) = Accusing \<and>
        (\<exists>i. FindAddressIndex (dg_Keypers dkg) (acc_Sender acc) = Inr i)")
      case False
      with body I have "s' = s" by (auto split: if_splits sum.splits)
      moreover from False have "shown_accusations h eon dkg acc = {}"
        by (auto simp: shown_accusations_def in_phase_def)
      ultimately show ?thesis using I by simp
    next
      case True
      then obtain i where i: "FindAddressIndex (dg_Keypers dkg) (acc_Sender acc) = Inr i" by blast
      from I have fields: "dg_PhaseLength s = dg_PhaseLength dkg" "dg_Keypers s = dg_Keypers dkg" by auto
      note loop = body [unfolded fields i, simplified True, simplified]
      have "?I s' \<and> set (pd_Accusations (dg_Pure s')) = set (pd_Accusations (dg_Pure s)) \<union> (\<Union>accused\<in>set (acc_Accused acc). ?one i accused)"
      proof (rule loop_union [OF loop, where get = "\<lambda>s. set (pd_Accusations (dg_Pure s))"])
        show "?I s" by (rule I)
        fix accused and t t' :: "'b DKG"
        assume "?I t" and one: "(case FindAddressIndex (dg_Keypers t) accused of
            Inl err \<Rightarrow> Inr t
          | Inr accusedIndex \<Rightarrow> on_pure (HandleAccusationMsg
              \<lparr> acm_Eon = dg_Eon t, acm_Accuser = of_nat i, acm_Accused = of_nat accusedIndex \<rparr>) t) = Inr t'"
        from this(1) obtain as where t: "t = dkg \<lparr> dg_Pure := (dg_Pure dkg) \<lparr> pd_Accusations := as \<rparr> \<rparr>" by blast
        show "?I t' \<and> set (pd_Accusations (dg_Pure t')) = set (pd_Accusations (dg_Pure t)) \<union> ?one i accused"
        proof (cases "FindAddressIndex (dg_Keypers dkg) accused")
          case (Inl e)
          with one t show ?thesis by auto
        next
          case (Inr j)
          let ?m = "\<lparr> acm_Eon = dg_Eon dkg, acm_Accuser = of_nat i, acm_Accused = of_nat j \<rparr>"
          from one Inr have on: "on_pure (HandleAccusationMsg ?m) t = Inr t'" by (simp add: t)
          have H: "HandleAccusationMsg ?m (dg_Pure t) = Inr p \<longleftrightarrow> ?C \<and> (of_nat i, of_nat j) \<notin> set as \<and>
              p = (dg_Pure dkg) \<lparr> pd_Accusations := as @ [(of_nat i, of_nat j)] \<rparr>" for p
            by (auto simp: HandleAccusationMsg_Inr t)
          from on_pure_cases [OF on, of "?C \<and> (of_nat i, of_nat j) \<notin> set as", OF H [unfolded conj_assoc [symmetric]]] Inr
          show ?thesis by (auto simp: t)
        qed
      qed
      moreover have "(\<Union>accused\<in>set (acc_Accused acc). ?one i accused) = shown_accusations h eon dkg acc"
        using True i later by (auto simp: shown_accusations_def in_phase_def)
      ultimately show ?thesis by simp
    qed
  qed
  moreover have "(\<Union>acc\<in>set (GetAccusations eon h). shown_accusations h eon dkg acc) =
      (\<Union>acc\<in>set (eo_Accusations eon). shown_accusations h eon dkg acc)"
    by (auto simp: GetAccusations_def events_from_filter [OF eon_ok_sorted(3) [OF ok(1)]] shown_accusations_def in_phase_def)
  ultimately show ?thesis by auto
qed

lemma key_index:
  assumes "slots_ok dkg" "FindAddressIndex (dg_Keypers dkg) a = Inr i"
  shows "(of_nat i = (k :: u64)) \<longleftrightarrow> FindAddressIndex (dg_Keypers dkg) a = Inr (unat k)"
  using keyper_index(2) [OF assms] assms(2) by (auto simp: word_unat_eq_iff)

definition apology_from ::
  "('g1, 'g2, 'gt) bn256 \<Rightarrow> 'g2 DKG \<Rightarrow> Apology \<Rightarrow> u64 \<Rightarrow> nat \<times> address \<Rightarrow> int option" where
  "apology_from B dkg apo k = (\<lambda>(n, accuser).
     if FindAddressIndex (dg_Keypers dkg) accuser = Inr (unat k) \<and> ValidEval B (apo_PolyEval apo ! n)
     then Some (apo_PolyEval apo ! n) else None)"

lemma syncApology_exact:
  assumes ok: "slots_ok dkg" and i: "FindAddressIndex (dg_Keypers dkg) sender = Inr i"
    and s: "s = dkg \<lparr> dg_Pure := (dg_Pure dkg) \<lparr> pd_Apologies := ap \<rparr> \<rparr>"
    and body: "(\<lambda>(j, accuser) dkg.
             case FindAddressIndex (dg_Keypers dkg) accuser of
               Inl err \<Rightarrow> Inr dkg
             | Inr accuserIndex \<Rightarrow> result_bind (nth_at (apo_PolyEval apo) j) (\<lambda>eval.
                 on_pure (HandleApologyMsg B
                 \<lparr> apm_Eon = dg_Eon dkg, apm_Accuser = of_nat accuserIndex, apm_Accused = of_nat i,
                   apm_Eval = eval \<rparr>) dkg)) x s = Inr s'"
  defines "C \<equiv> pd_Phase (dg_Pure dkg) \<le> Apologizing \<and> pd_Eon (dg_Pure dkg) = dg_Eon dkg"
  shows "(\<exists>ap. s' = dkg \<lparr> dg_Pure := (dg_Pure dkg) \<lparr> pd_Apologies := ap \<rparr> \<rparr>) \<and>
    (\<forall>key. True \<longrightarrow> map_of (pd_Apologies (dg_Pure s')) key = (case map_of (pd_Apologies (dg_Pure s)) key of
      None \<Rightarrow> if C \<and> of_nat i = snd key then apology_from B dkg apo (fst key) x else None | Some e \<Rightarrow> Some e))"
proof -
  obtain n accuser where x: "x = (n, accuser)" by (cases x)
  show ?thesis
  proof (cases "FindAddressIndex (dg_Keypers dkg) accuser")
    case (Inl e)
    with body show ?thesis by (auto simp: x s apology_from_def split: option.split)
  next
    case (Inr k)
    let ?e = "apo_PolyEval apo ! n"
    let ?m = "\<lparr> apm_Eon = dg_Eon dkg, apm_Accuser = of_nat k, apm_Accused = of_nat i, apm_Eval = ?e \<rparr>"
    let ?C = "C \<and> ValidEval B ?e"
    let ?new = "(dg_Pure dkg) \<lparr> pd_Apologies := AList.update (of_nat k, of_nat i) ?e ap \<rparr>"
    from body Inr have on: "on_pure (HandleApologyMsg B ?m) s = Inr s'"
      by (auto simp: x s nth_at_def split: if_splits)
    have H: "HandleApologyMsg B ?m (dg_Pure s) = Inr p \<longleftrightarrow>
        ?C \<and> map_of (pd_Apologies (dg_Pure s)) (of_nat k, of_nat i) = None \<and> p = ?new" for p
      by (auto simp: HandleApologyMsg_Inr s C_def)
    have new: "map_of (pd_Apologies (dg_Pure (s \<lparr> dg_Pure := ?new \<rparr>))) key =
        (if key = (of_nat k, of_nat i) then Some ?e else map_of (pd_Apologies (dg_Pure s)) key)" for key
      by (simp add: s update_conv')
    note slot = on_pure_slot [where get = "\<lambda>s. map_of (pd_Apologies (dg_Pure s))" and new = ?new, OF on H new]
    have shown: "(if ?C \<and> key = (of_nat k, of_nat i) then Some ?e else None) =
        (if C \<and> of_nat i = snd key then apology_from B dkg apo (fst key) x else None)" for key
      using key_index [OF ok Inr, of "fst key"] by (cases key) (auto simp: x apology_from_def)
    from slot(1) have "\<exists>ap. s' = dkg \<lparr> dg_Pure := (dg_Pure dkg) \<lparr> pd_Apologies := ap \<rparr> \<rparr>" by (auto simp: s)
    with slot(2) show ?thesis unfolding shown by blast
  qed
qed

lemma syncApologies_exact:
  assumes ok: "eon_ok h0 eon" "slots_ok dkg" and sync: "syncApologies B h eon dkg = Inr dkg'"
  shows "\<exists>ap. dkg' = dkg \<lparr> dg_Pure := (dg_Pure dkg) \<lparr> pd_Apologies := ap \<rparr> \<rparr> \<and> (\<forall>key.
      map_of ap key = (case map_of (pd_Apologies (dg_Pure dkg)) key of
        None \<Rightarrow> first_some (shown_apology B h eon dkg key) (eo_Apologies eon) | Some e \<Rightarrow> Some e))"
proof -
  let ?I = "\<lambda>s. \<exists>ap. s = dkg \<lparr> dg_Pure := (dg_Pure dkg) \<lparr> pd_Apologies := ap \<rparr> \<rparr>"
  let ?C = "pd_Phase (dg_Pure dkg) \<le> Apologizing \<and> pd_Eon (dg_Pure dkg) = dg_Eon dkg"
  have "?I dkg' \<and> (\<forall>key. True \<longrightarrow> map_of (pd_Apologies (dg_Pure dkg')) key = (case map_of (pd_Apologies (dg_Pure dkg)) key of
      None \<Rightarrow> first_some (shown_apology B h eon dkg key) (GetApologies eon h) | Some e \<Rightarrow> Some e))"
  proof (rule loop_slots [OF sync [unfolded syncApologies_def], where get = "\<lambda>s. map_of (pd_Apologies (dg_Pure s))"])
    show "?I dkg" by (intro exI [of _ "pd_Apologies (dg_Pure dkg)"]) simp
    fix apo and s s' :: "'b DKG"
    assume apo: "apo \<in> set (GetApologies eon h)" and I: "?I s"
    have later: "sint h \<le> sint (apo_Height apo)"
      using apo by (simp add: GetApologies_def events_from_filter [OF eon_ok_sorted(4) [OF ok(1)]])
    let ?one = "\<lambda>sender. \<lambda>(j, accuser) dkg.
             case FindAddressIndex (dg_Keypers dkg) accuser of
               Inl err \<Rightarrow> Inr dkg
             | Inr accuserIndex \<Rightarrow> result_bind (nth_at (apo_PolyEval apo) j) (\<lambda>eval.
                 on_pure (HandleApologyMsg B
                 \<lparr> apm_Eon = dg_Eon dkg, apm_Accuser = of_nat accuserIndex, apm_Accused = of_nat sender,
                   apm_Eval = eval \<rparr>) dkg)"
    assume body: "(if getPhaseAtHeight (dg_PhaseLength s) (apo_Height apo) (eo_StartHeight eon) \<noteq> Apologizing then Inr s
       else case FindAddressIndex (dg_Keypers s) (apo_Sender apo) of
         Inl err \<Rightarrow> Inr s
       | Inr sender \<Rightarrow> loop_result (?one sender) (List.enumerate 0 (apo_Accusers apo)) s) = Inr s'"
    show "?I s' \<and> (\<forall>key. True \<longrightarrow> map_of (pd_Apologies (dg_Pure s')) key = (case map_of (pd_Apologies (dg_Pure s)) key of
        None \<Rightarrow> shown_apology B h eon dkg key apo | Some e \<Rightarrow> Some e))"
    proof (cases "getPhaseAtHeight (dg_PhaseLength dkg) (apo_Height apo) (eo_StartHeight eon) = Apologizing \<and>
        (\<exists>i. FindAddressIndex (dg_Keypers dkg) (apo_Sender apo) = Inr i)")
      case False
      with body I have "s' = s" by (auto split: if_splits sum.splits)
      moreover from False have "shown_apology B h eon dkg key apo = None" for key
        by (auto simp: shown_apology_def in_phase_def)
      ultimately show ?thesis using I by (auto split: option.split)
    next
      case True
      then obtain i where i: "FindAddressIndex (dg_Keypers dkg) (apo_Sender apo) = Inr i" by blast
      from I have fields: "dg_PhaseLength s = dg_PhaseLength dkg" "dg_Keypers s = dg_Keypers dkg" by auto
      from body True i have loop: "loop_result (?one i) (List.enumerate 0 (apo_Accusers apo)) s = Inr s'" by (simp add: fields)
      have accusers: "?I s' \<and> (\<forall>key. True \<longrightarrow> map_of (pd_Apologies (dg_Pure s')) key = (case map_of (pd_Apologies (dg_Pure s)) key of
          None \<Rightarrow> first_some (\<lambda>x. if ?C \<and> of_nat i = snd key then apology_from B dkg apo (fst key) x else None)
            (List.enumerate 0 (apo_Accusers apo)) | Some e \<Rightarrow> Some e))"
      proof (rule loop_slots [OF loop, where get = "\<lambda>s. map_of (pd_Apologies (dg_Pure s))"])
        show "?I s" by (rule I)
        fix x and t t' :: "'b DKG" assume "?I t" and one: "?one i x t = Inr t'"
        from this(1) obtain ap where "t = dkg \<lparr> dg_Pure := (dg_Pure dkg) \<lparr> pd_Apologies := ap \<rparr> \<rparr>" by blast
        from syncApology_exact [OF ok(2) i this one]
        show "?I t' \<and> (\<forall>key. True \<longrightarrow> map_of (pd_Apologies (dg_Pure t')) key = (case map_of (pd_Apologies (dg_Pure t)) key of
          None \<Rightarrow> if ?C \<and> of_nat i = snd key then apology_from B dkg apo (fst key) x else None | Some e \<Rightarrow> Some e))" .
      qed
      have shown: "first_some (\<lambda>x. if ?C \<and> of_nat i = snd key then apology_from B dkg apo (fst key) x else None)
          (List.enumerate 0 (apo_Accusers apo)) = shown_apology B h eon dkg key apo" for key
        using True later by (auto simp: shown_apology_def in_phase_def key_index [OF ok(2) i] first_some_None
            apology_from_def [abs_def])
      show ?thesis using accusers unfolding shown .
    qed
  qed
  then obtain ap where "dkg' = dkg \<lparr> dg_Pure := (dg_Pure dkg) \<lparr> pd_Apologies := ap \<rparr> \<rparr>"
    "\<forall>key. map_of ap key = (case map_of (pd_Apologies (dg_Pure dkg)) key of
      None \<Rightarrow> first_some (shown_apology B h eon dkg key) (GetApologies eon h) | Some c \<Rightarrow> Some c)" by auto
  moreover have "first_some (shown_apology B h eon dkg key) (GetApologies eon h) =
      first_some (shown_apology B h eon dkg key) (eo_Apologies eon)" for key
    unfolding GetApologies_def
    by (rule events_shown [OF eon_ok_sorted(4) [OF ok(1)]]) (simp add: shown_apology_def in_phase_def)
  ultimately show ?thesis by (intro exI [of _ ap]) (simp split: option.split)
qed

section \<open>The turns of the phases\<close>

text \<open>The phase that the turn from \<open>p\<close> to \<open>q\<close> leaves.\<close>

definition turned :: "Phase \<Rightarrow> Phase \<Rightarrow> Phase \<Rightarrow> Phase \<Rightarrow> Phase" where
  "turned p q next phase = (if phase = p \<and> q \<le> next then q else phase)"

lemma Dealing_loop_evals:
  "Dealing_loop B p rs msgs pure = Inr (out, pure') \<Longrightarrow>
   \<exists>es. pure' = pure \<lparr> pd_Evals := es \<rparr> \<and> length es = length (pd_Evals pure) \<and>
     (\<forall>j. j \<noteq> unat (pd_Keyper pure) \<longrightarrow> es ! j = pd_Evals pure ! j)"
proof (induction B p rs msgs pure rule: Dealing_loop.induct)
  case (1 B polynomial msgs pure)
  then show ?case by (intro exI [of _ "pd_Evals pure"]) simp
next
  case (2 B polynomial receiver receivers msgs pure)
  from 2(3) obtain v where v: "EvalForKeyper B polynomial (sint receiver) = Inr v" by (auto elim: result_bindE)
  let ?m = "\<lparr> pem_Eon = pd_Eon pure, pem_Sender = pd_Keyper pure, pem_Receiver = receiver, pem_Eval = v \<rparr>"
  show ?case
  proof (cases "receiver = pd_Keyper pure")
    case True
    with 2(3) v obtain pure1 where pure1: "HandlePolyEvalMsg B ?m pure = Inr pure1"
      "Dealing_loop B polynomial receivers msgs pure1 = Inr (out, pure')"
      by (auto simp: Let_def split: sum.splits)
    from 2(1) [OF refl True pure1] pure1(1) show ?thesis
      by (auto simp: HandlePolyEvalMsg_Inr nth_list_update)
  next
    case False
    with 2(3) v 2(2) [OF refl False] show ?thesis by (simp add: Let_def)
  qed
qed

lemma turn_dealing:
  assumes "phase_turn Off Dealing next (startPhase1Dealing R B next) dkg d = Inr (dkg', d')"
  shows "\<exists>poly es out as. dkg' = dkg \<lparr> dg_Pure := (dg_Pure dkg)
      \<lparr> pd_Phase := turned Off Dealing next (pd_Phase (dg_Pure dkg)), pd_Polynomial := poly, pd_Evals := es \<rparr>,
      dg_OutgoingPolyEvalMsgs := out \<rparr> \<and> length es = length (pd_Evals (dg_Pure dkg)) \<and>
    (\<forall>j. j \<noteq> unat (pd_Keyper (dg_Pure dkg)) \<longrightarrow> es ! j = pd_Evals (dg_Pure dkg) ! j) \<and> d' = d \<lparr> dc_Actions := as \<rparr>"
proof (cases "pd_Phase (dg_Pure dkg) = Off \<and> Dealing \<le> next")
  case False
  with assms have "dkg' = dkg" "d' = d" by (auto simp: phase_turn_def split: if_splits)
  with False show ?thesis
    by (intro exI [of _ "pd_Polynomial (dg_Pure dkg)"] exI [of _ "pd_Evals (dg_Pure dkg)"]
        exI [of _ "dg_OutgoingPolyEvalMsgs dkg"] exI [of _ "dc_Actions d"]) (auto simp: turned_def)
next
  case True
  with assms have start: "startPhase1Dealing R B next dkg d = Inr (dkg', d')" by (simp add: phase_turn_def)
  then obtain c msgs pure where pure: "StartPhase1Dealing B (dec_Polynomial R (dg_Eon dkg)) (dg_Pure dkg) = (Inr (c, msgs), pure)"
    by (auto simp: startPhase1Dealing_def split: prod.splits sum.splits)
  obtain poly pure1 out where "setPhase Dealing (dg_Pure dkg) = Inr pure1"
    "Dealing_loop B poly (upto64 (pd_NumKeypers (dg_Pure dkg))) [] (pure1 \<lparr> pd_Polynomial := Some poly \<rparr>) = Inr (out, pure)"
    using pure by (auto simp: StartPhase1Dealing_def Let_def split: sum.splits prod.splits)
  from Dealing_loop_evals [OF this(2)] this(1) obtain es where es:
    "pure = (dg_Pure dkg) \<lparr> pd_Phase := Dealing, pd_Polynomial := Some poly, pd_Evals := es \<rparr>"
    "length es = length (pd_Evals (dg_Pure dkg))"
    "\<forall>j. j \<noteq> unat (pd_Keyper (dg_Pure dkg)) \<longrightarrow> es ! j = pd_Evals (dg_Pure dkg) ! j"
    by (auto simp: setPhase_Inr)
  have "\<exists>out as. dkg' = dkg \<lparr> dg_Pure := pure, dg_OutgoingPolyEvalMsgs := out \<rparr> \<and> d' = d \<lparr> dc_Actions := as \<rparr>"
  proof (cases "next = Dealing")
    case True
    then show ?thesis using start pure
      by (auto simp: startPhase1Dealing_def Let_def sendShielderMessage_def addAction_def split: option.splits)
  next
    case False
    with start pure have "dkg' = dkg \<lparr> dg_Pure := pure \<rparr>" "d' = d" by (simp_all add: startPhase1Dealing_def Let_def)
    then show ?thesis
      by (intro exI [of _ "dg_OutgoingPolyEvalMsgs dkg"] exI [of _ "dc_Actions d"]) simp
  qed
  then obtain out as where "dkg' = dkg \<lparr> dg_Pure := pure, dg_OutgoingPolyEvalMsgs := out \<rparr>" "d' = d \<lparr> dc_Actions := as \<rparr>"
    by blast
  with True es show ?thesis
    by (intro exI [of _ "Some poly"] exI [of _ es] exI [of _ out] exI [of _ as]) (simp add: turned_def)
qed

lemma turn_accusing:
  assumes "phase_turn Dealing Accusing next (startPhase2Accusing B E next) dkg d = Inr (dkg', d')"
  shows "\<exists>as. dkg' = dkg \<lparr> dg_Pure := (dg_Pure dkg) \<lparr> pd_Phase := turned Dealing Accusing next (pd_Phase (dg_Pure dkg)) \<rparr> \<rparr> \<and>
    d' = d \<lparr> dc_Actions := as \<rparr>"
proof (cases "pd_Phase (dg_Pure dkg) = Dealing \<and> Accusing \<le> next")
  case False
  with assms have "dkg' = dkg" "d' = d" by (auto simp: phase_turn_def split: if_splits)
  with False show ?thesis by (intro exI [of _ "dc_Actions d"]) (auto simp: turned_def)
next
  case True
  with assms have "startPhase2Accusing B E next dkg d = Inr (dkg', d')" by (simp add: phase_turn_def)
  then obtain accs pure where "StartPhase2Accusing B (dg_Pure dkg) = Inr (accs, pure)"
    "dkg' = dkg \<lparr> dg_Pure := pure \<rparr>" "d' = d \<or> (\<exists>s m. d' = sendShielderMessage s m d)"
    by (auto simp: startPhase2Accusing_def Let_def result_bind_Inr_iff split: if_splits)
  with phases_advance(1) [OF this(1)] True show ?thesis
    by (auto simp: turned_def sendShielderMessage_def addAction_def intro: exI [of _ "dc_Actions d"])
qed

lemma turn_apologizing:
  assumes "phase_turn Accusing Apologizing next (startPhase3Apologizing R B E next) dkg d = Inr (dkg', d')"
  shows "\<exists>as. dkg' = dkg \<lparr> dg_Pure := (dg_Pure dkg) \<lparr> pd_Phase := turned Accusing Apologizing next (pd_Phase (dg_Pure dkg)) \<rparr> \<rparr> \<and>
    d' = d \<lparr> dc_Actions := as \<rparr>"
proof (cases "pd_Phase (dg_Pure dkg) = Accusing \<and> Apologizing \<le> next")
  case False
  with assms have "dkg' = dkg" "d' = d" by (auto simp: phase_turn_def split: if_splits)
  with False show ?thesis by (intro exI [of _ "dc_Actions d"]) (auto simp: turned_def)
next
  case True
  with assms have "startPhase3Apologizing R B E next dkg d = Inr (dkg', d')" by (simp add: phase_turn_def)
  then obtain apos pure where "StartPhase3Apologizing (dec_orders R) B (dg_Pure dkg) = Inr (apos, pure)"
    "dkg' = dkg \<lparr> dg_Pure := pure \<rparr>" "d' = d \<or> (\<exists>s m. d' = sendShielderMessage s m d)"
    by (auto simp: startPhase3Apologizing_def Let_def result_bind_Inr_iff split: if_splits)
  with phases_advance(2) [OF this(1)] True show ?thesis
    by (auto simp: turned_def sendShielderMessage_def addAction_def intro: exI [of _ "dc_Actions d"])
qed

text \<open>The epoch key generation of a key generation that has just finished.\<close>

definition new_EKGs :: "dec_choices \<Rightarrow> ('g1, 'g2, 'gt) bn256 \<Rightarrow> 'g2 DKG \<Rightarrow> ('g1, 'g2) EKG list" where
  "new_EKGs R B dkg = (case ComputeResult (dec_orders R) B (dg_Pure dkg) of
     Inl err \<Rightarrow> []
   | Inr r \<Rightarrow> [\<lparr> ek_Eon = dg_Eon dkg, ek_Keypers = dg_Keypers dkg, ek_EpochKG = NewEpochKG r \<rparr>])"

lemma turn_finalized:
  assumes "phase_turn Apologizing Finalized next (dkgFinalize R B) dkg d = Inr (dkg', d')"
  shows "dkg' = dkg \<lparr> dg_Pure := (dg_Pure dkg) \<lparr> pd_Phase := turned Apologizing Finalized next (pd_Phase (dg_Pure dkg)) \<rparr> \<rparr> \<and>
    (\<exists>as. d' = d \<lparr> dc_State := (dc_State d) \<lparr> st_EKGs := st_EKGs (dc_State d) @
       (if pd_Phase (dg_Pure dkg) = Apologizing \<and> Finalized \<le> next then new_EKGs R B dkg' else []) \<rparr>, dc_Actions := as \<rparr>)"
proof (cases "pd_Phase (dg_Pure dkg) = Apologizing \<and> Finalized \<le> next")
  case False
  with assms have "dkg' = dkg" "d' = d" by (auto simp: phase_turn_def split: if_splits)
  with False show ?thesis by (auto simp: turned_def intro: exI [of _ "dc_Actions d"])
next
  case True
  with assms have fin: "dkgFinalize R B dkg d = Inr (dkg', d')" by (simp add: phase_turn_def)
  let ?pure = "(dg_Pure dkg) \<lparr> pd_Phase := Finalized \<rparr>"
  have "Finalize (dg_Pure dkg) = Inr ?pure" using True by (simp add: Finalize_def setPhase_def)
  with fin True show ?thesis
    by (cases "ComputeResult (dec_orders R) B ?pure" rule: no_panic.cases)
      (auto simp: dkgFinalize_def Let_def result_bind_Inr_iff turned_def new_EKGs_def sendShielderMessage_def addAction_def
        set_state_def broadcastEonPublicKey_def)
qed

section \<open>One synchronisation\<close>

lemma Phase_less_eq [simp]: "p \<le> q \<longleftrightarrow> phase_num p \<le> phase_num q"
  by (simp add: less_eq_Phase_def)

lemma turned_le:
  "turned Off Dealing next p \<le> Dealing \<longleftrightarrow> p \<le> Dealing"
  "turned Dealing Accusing next (turned Off Dealing next p) \<le> Accusing \<longleftrightarrow> p \<le> Accusing"
  "turned Accusing Apologizing next (turned Dealing Accusing next (turned Off Dealing next p)) \<le> Apologizing \<longleftrightarrow> p \<le> Apologizing"
  by (cases p; simp add: turned_def)+

lemma turned_all:
  "turned Apologizing Finalized next (turned Accusing Apologizing next (turned Dealing Accusing next (turned Off Dealing next p))) = max p next"
  "turned Accusing Apologizing next (turned Dealing Accusing next (turned Off Dealing next p)) = Apologizing \<and> Finalized \<le> next \<longleftrightarrow>
     p \<noteq> Finalized \<and> next = Finalized"
  by (cases p; cases "next"; simp add: turned_def max_def)+

text \<open>What an event shows depends on few fields of the key generation.\<close>

lemma shown_cong:
  assumes "dg_Keypers a = dg_Keypers b" "dg_PhaseLength a = dg_PhaseLength b" "dg_Eon a = dg_Eon b"
    and "pd_Eon (dg_Pure a) = pd_Eon (dg_Pure b)" "pd_Keyper (dg_Pure a) = pd_Keyper (dg_Pure b)"
    and "pd_Threshold (dg_Pure a) = pd_Threshold (dg_Pure b)"
  shows "(pd_Phase (dg_Pure a) \<le> Dealing \<longleftrightarrow> pd_Phase (dg_Pure b) \<le> Dealing) \<Longrightarrow>
      shown_commitment h eon a = shown_commitment h eon b \<and> shown_eval B decrypt h eon a = shown_eval B decrypt h eon b"
    and "(pd_Phase (dg_Pure a) \<le> Accusing \<longleftrightarrow> pd_Phase (dg_Pure b) \<le> Accusing) \<Longrightarrow>
      shown_accusations h eon a = shown_accusations h eon b"
    and "(pd_Phase (dg_Pure a) \<le> Apologizing \<longleftrightarrow> pd_Phase (dg_Pure b) \<le> Apologizing) \<Longrightarrow>
      shown_apology B h eon a = shown_apology B h eon b"
  by (simp_all add: fun_eq_iff shown_commitment_def shown_eval_def shown_accusations_def shown_apology_def in_phase_def
      assms del: Phase_less_eq)

lemma syncDKGWithEon_exact:
  assumes ok: "eon_ok h0 eon" "slots_ok dkg" and sync: "syncDKGWithEon R B E eon dkg d = Inr (dkg', d')"
  defines "h \<equiv> st_SyncHeight (dc_State d)" and "decrypt \<equiv> ecies_Decrypt E (kc_EncryptionKey (dc_Config d))"
    and "phase \<equiv> getPhaseAtHeight (dc_PhaseLength d) (sh_CurrentBlock (dc_Shielder d) + 1) (eo_StartHeight eon)"
  shows "\<exists>poly cs es acs aps out as.
    dkg' = dkg \<lparr> dg_Pure := (dg_Pure dkg) \<lparr> pd_Phase := max (pd_Phase (dg_Pure dkg)) phase, pd_Polynomial := poly,
      pd_Commitments := cs, pd_Evals := es, pd_Accusations := acs, pd_Apologies := aps \<rparr>,
      dg_OutgoingPolyEvalMsgs := out \<rparr> \<and>
    (\<forall>j < length (dg_Keypers dkg). cs ! j = (case pd_Commitments (dg_Pure dkg) ! j of
       None \<Rightarrow> first_some (shown_commitment h eon dkg j) (eo_Commitments eon) | Some c \<Rightarrow> Some c)) \<and>
    (\<forall>j < length (dg_Keypers dkg). j \<noteq> unat (pd_Keyper (dg_Pure dkg)) \<longrightarrow> es ! j = (case pd_Evals (dg_Pure dkg) ! j of
       None \<Rightarrow> first_some (shown_eval B decrypt h eon dkg j) (eo_PolyEvals eon) | Some e \<Rightarrow> Some e)) \<and>
    set acs = set (pd_Accusations (dg_Pure dkg)) \<union> (\<Union>acc\<in>set (eo_Accusations eon). shown_accusations h eon dkg acc) \<and>
    (\<forall>key. map_of aps key = (case map_of (pd_Apologies (dg_Pure dkg)) key of
       None \<Rightarrow> first_some (shown_apology B h eon dkg key) (eo_Apologies eon) | Some e \<Rightarrow> Some e)) \<and>
    d' = d \<lparr> dc_State := (dc_State d) \<lparr> st_EKGs := st_EKGs (dc_State d) @
      (if pd_Phase (dg_Pure dkg) \<noteq> Finalized \<and> phase = Finalized then new_EKGs R B dkg' else []) \<rparr>, dc_Actions := as \<rparr>"
proof -
  obtain dkg1 d1 dkg2 dkg3 dkg4 d4 dkg5 dkg6 d6 dkg7 where
    t1: "phase_turn Off Dealing phase (startPhase1Dealing R B phase) dkg d = Inr (dkg1, d1)" and
    s2: "syncCommitments h eon dkg1 = Inr dkg2" and s3: "syncPolyEvals B h eon decrypt dkg2 = Inr dkg3" and
    t4: "phase_turn Dealing Accusing phase (startPhase2Accusing B E phase) dkg3 d1 = Inr (dkg4, d4)" and
    s5: "syncAccusations h eon dkg4 = Inr dkg5" and
    t6: "phase_turn Accusing Apologizing phase (startPhase3Apologizing R B E phase) dkg5 d4 = Inr (dkg6, d6)" and
    s7: "syncApologies B h eon dkg6 = Inr dkg7" and
    t8: "phase_turn Apologizing Finalized phase (dkgFinalize R B) dkg7 d6 = Inr (dkg', d')"
    using sync by (auto simp: syncDKGWithEon_def Let_def result_bind_Inr_iff h_def decrypt_def [abs_def] phase_def)
  let ?p0 = "dg_Pure dkg"
  define ph1 where "ph1 = turned Off Dealing phase (pd_Phase ?p0)"
  define ph4 where "ph4 = turned Dealing Accusing phase ph1"
  define ph6 where "ph6 = turned Accusing Apologizing phase ph4"
  obtain poly es1 out as1 where dkg1: "dkg1 = dkg \<lparr> dg_Pure := ?p0 \<lparr> pd_Phase := ph1, pd_Polynomial := poly, pd_Evals := es1 \<rparr>,
      dg_OutgoingPolyEvalMsgs := out \<rparr>" "length es1 = length (pd_Evals ?p0)"
    "\<forall>j. j \<noteq> unat (pd_Keyper ?p0) \<longrightarrow> es1 ! j = pd_Evals ?p0 ! j" "d1 = d \<lparr> dc_Actions := as1 \<rparr>"
    using turn_dealing [OF t1] unfolding ph1_def by blast
  have ok1: "slots_ok dkg1" using ok(2) by (simp add: slots_ok_def dkg1)
  note le = turned_le [of phase "pd_Phase ?p0", folded ph1_def, folded ph4_def, folded ph6_def]
  obtain cs where dkg2: "dkg2 = dkg1 \<lparr> dg_Pure := (dg_Pure dkg1) \<lparr> pd_Commitments := cs \<rparr> \<rparr>"
    "length cs = length (pd_Commitments ?p0)"
    "\<forall>j < unat (pd_NumKeypers ?p0). cs ! j = (case pd_Commitments ?p0 ! j of
        None \<Rightarrow> first_some (shown_commitment h eon dkg1 j) (eo_Commitments eon) | Some c \<Rightarrow> Some c)"
    using syncCommitments_exact [OF ok(1) ok1 s2] by (auto simp: dkg1)
  have ok2: "slots_ok dkg2" using ok1 by (simp add: slots_ok_def dkg2 dkg1)
  obtain es where dkg3: "dkg3 = dkg2 \<lparr> dg_Pure := (dg_Pure dkg2) \<lparr> pd_Evals := es \<rparr> \<rparr>"
    "length es = length es1"
    "\<forall>j. es ! j = (case es1 ! j of
        None \<Rightarrow> first_some (shown_eval B decrypt h eon dkg2 j) (eo_PolyEvals eon) | Some c \<Rightarrow> Some c)"
    using syncPolyEvals_exact [OF ok(1) ok2 s3] by (auto simp: dkg2 dkg1)
  obtain as4 where dkg4: "dkg4 = dkg3 \<lparr> dg_Pure := (dg_Pure dkg3) \<lparr> pd_Phase := ph4 \<rparr> \<rparr>" "d4 = d1 \<lparr> dc_Actions := as4 \<rparr>"
    using turn_accusing [OF t4] by (auto simp: dkg3 dkg2 dkg1 ph4_def)
  obtain acs where dkg5: "dkg5 = dkg4 \<lparr> dg_Pure := (dg_Pure dkg4) \<lparr> pd_Accusations := acs \<rparr> \<rparr>"
    "set acs = set (pd_Accusations ?p0) \<union> (\<Union>acc\<in>set (eo_Accusations eon). shown_accusations h eon dkg4 acc)"
    using syncAccusations_exact [OF ok(1) s5] by (auto simp: dkg4 dkg3 dkg2 dkg1)
  obtain as6 where dkg6: "dkg6 = dkg5 \<lparr> dg_Pure := (dg_Pure dkg5) \<lparr> pd_Phase := ph6 \<rparr> \<rparr>" "d6 = d4 \<lparr> dc_Actions := as6 \<rparr>"
    using turn_apologizing [OF t6] by (auto simp: dkg5 dkg4 ph6_def)
  have ok6: "slots_ok dkg6" using ok(2) dkg1(2) dkg2(2) dkg3(2) by (simp add: slots_ok_def dkg6 dkg5 dkg4 dkg3 dkg2 dkg1)
  obtain aps where dkg7: "dkg7 = dkg6 \<lparr> dg_Pure := (dg_Pure dkg6) \<lparr> pd_Apologies := aps \<rparr> \<rparr>"
    "\<forall>key. map_of aps key = (case map_of (pd_Apologies ?p0) key of
        None \<Rightarrow> first_some (shown_apology B h eon dkg6 key) (eo_Apologies eon) | Some e \<Rightarrow> Some e)"
    using syncApologies_exact [OF ok(1) ok6 s7] by (auto simp: dkg6 dkg5 dkg4 dkg3 dkg2 dkg1)
  have ph7: "pd_Phase (dg_Pure dkg7) = ph6" by (simp add: dkg7 dkg6)
  note all = turned_all [of phase "pd_Phase ?p0", folded ph1_def, folded ph4_def, folded ph6_def]
  obtain as where dkg': "dkg' = dkg7 \<lparr> dg_Pure := (dg_Pure dkg7) \<lparr> pd_Phase := max (pd_Phase ?p0) phase \<rparr> \<rparr>"
    "d' = d6 \<lparr> dc_State := (dc_State d6) \<lparr> st_EKGs := st_EKGs (dc_State d6) @
       (if pd_Phase ?p0 \<noteq> Finalized \<and> phase = Finalized then new_EKGs R B dkg' else []) \<rparr>, dc_Actions := as \<rparr>"
    using turn_finalized [OF t8] unfolding ph7 all by blast
  have "shown_commitment h eon dkg1 = shown_commitment h eon dkg"
    by (rule conjunct1 [OF shown_cong(1)]) (simp_all add: dkg1 le(1) del: Phase_less_eq)
  moreover have "shown_eval B decrypt h eon dkg2 = shown_eval B decrypt h eon dkg"
    by (rule conjunct2 [OF shown_cong(1)]) (simp_all add: dkg1 dkg2 le(1) del: Phase_less_eq)
  moreover have "shown_accusations h eon dkg4 = shown_accusations h eon dkg"
    by (rule shown_cong(2)) (simp_all add: dkg1 dkg2 dkg3 dkg4 le(2) del: Phase_less_eq)
  moreover have "shown_apology B h eon dkg6 = shown_apology B h eon dkg"
    by (rule shown_cong(3)) (simp_all add: dkg1 dkg2 dkg3 dkg4 dkg5 dkg6 le(3) del: Phase_less_eq)
  ultimately have shown: "shown_commitment h eon dkg1 = shown_commitment h eon dkg" "shown_eval B decrypt h eon dkg2 = shown_eval B decrypt h eon dkg"
    "shown_accusations h eon dkg4 = shown_accusations h eon dkg" "shown_apology B h eon dkg6 = shown_apology B h eon dkg" by blast+
  have n: "unat (pd_NumKeypers ?p0) = length (dg_Keypers dkg)" using ok(2) by (simp add: slots_ok_def)
  have "dkg' = dkg \<lparr> dg_Pure := ?p0 \<lparr> pd_Phase := max (pd_Phase ?p0) phase, pd_Polynomial := poly,
      pd_Commitments := cs, pd_Evals := es, pd_Accusations := acs, pd_Apologies := aps \<rparr>,
      dg_OutgoingPolyEvalMsgs := out \<rparr>"
    by (simp add: dkg'(1) dkg7(1) dkg6(1) dkg5(1) dkg4(1) dkg3(1) dkg2(1) dkg1(1))
  moreover have "d' = d \<lparr> dc_State := (dc_State d) \<lparr> st_EKGs := st_EKGs (dc_State d) @
      (if pd_Phase ?p0 \<noteq> Finalized \<and> phase = Finalized then new_EKGs R B dkg' else []) \<rparr>, dc_Actions := as \<rparr>"
    unfolding dkg'(2) by (simp add: dkg6 dkg4 dkg1)
  ultimately show ?thesis
    using dkg1(3) dkg2(3) dkg3(3) dkg5(2) dkg7(2) unfolding shown n by (intro exI conjI) (assumption | simp)+
qed

end
