(* ===== verification/KeyperProps.thy ===== *)
theory KeyperProps
  imports SmallKeyper SyncExact
begin

text \<open>
  The properties of a keyper: what it sees of the two chains, which actions it takes and when, and that
  none of them is lost.
\<close>

section \<open>Execution of batches\<close>

text \<open>
  A keyper executes half steps in order: it starts with the first one the executor contract has not
  executed, takes at most ten in a row, and takes none while an earlier transaction of its own for a half
  step that is not yet executed is pending. Each of them is due: a cipher batch is executed before the
  execution timeout by a keyper of its config, with enough decryption signatures, and skipped after it.
\<close>

theorem executes_half_steps_in_order:
  assumes "maybeExecuteBatch E d = Inr d'"
  shows "\<exists>as. dc_Actions d' = dc_Actions d @ as \<and> length as \<le> 10 \<and>
    map executes as = map (\<lambda>i. Some (mc_NumExecutionHalfSteps (dc_MainChain d) + of_nat i)) [0..<length as] \<and>
    (\<forall>a\<in>set as. execution_ok E d a) \<and>
    (as \<noteq> [] \<longrightarrow> st_PendingHalfStep (dc_State d') = executes (last as) \<and>
       (\<forall>p. st_PendingHalfStep (dc_State d) = Some p \<longrightarrow> p < mc_NumExecutionHalfSteps (dc_MainChain d)))"
  using assms by (rule maybeExecuteBatch_spec)

theorem executes_half_steps_in_order_witness:
  "\<exists>d' as. maybeExecuteBatch small_eth small_decider = Inr d' \<and> dc_Actions d' = as \<and>
     map executes as = [Some 2, Some 3] \<and> (\<forall>a\<in>set as. execution_ok small_eth small_decider a)"
proof -
  have "case maybeExecuteBatch small_eth small_decider of Inl e \<Rightarrow> False | Inr d' \<Rightarrow> length (dc_Actions d') = 2"
    by code_simp
  then obtain d' where d': "maybeExecuteBatch small_eth small_decider = Inr d'" "length (dc_Actions d') = 2"
    by (auto split: sum.splits)
  have "[0..<2] = [0, 1 :: nat]" by (simp add: upt_rec)
  with executes_half_steps_in_order [OF d'(1)] d' show ?thesis by auto
qed

text \<open>
  C14: A cipher batch with transactions is only executed when threshold many different keypers of its
  config have signed what the keyper decrypted. (The signatures counted are those of the shielder, where no
  keyper signs a batch twice.)
\<close>

theorem executed_batch_has_threshold_signers:
  assumes "maybeExecuteHalfStep E h d = Inr (Some (ExecuteCipherBatch i hash txs k gas))" "txs \<noteq> []"
    and "map_of (st_Batches (dc_State d)) i = Some batch" "ConfigForBatchIndex (dc_MainChain d) i = Inr (Some config)"
    and "counted E config sigs batch" "distinct (map ds_Sender sigs)"
  shows "txs = ba_DecryptedTransactions batch \<and> unat (cc_Threshold config) \<le>
    card {m \<in> set (cc_Keypers config). \<exists>s\<in>set sigs. ds_Sender s = m \<and> VerifySignature E batch m (ds_Signature s)}"
proof -
  have enough: "enough_signatures config batch" "txs = ba_DecryptedTransactions batch"
    using maybeExecuteHalfStep_cipher(2) [OF assms(1)] assms(3, 4) by auto
  with assms(2) have "unat (cc_Threshold config) \<le> unat (of_nat (ba_SignatureCount batch) :: u64)"
    by (simp add: enough_signatures_def word_le_nat_alt)
  also have "\<dots> \<le> ba_SignatureCount batch" by (simp add: unat_of_nat)
  also have "\<dots> \<le> length (filter (counts E config batch) sigs)"
    using assms(5) unfolding counted_def by (metis append_take_drop_id filter_append le_add1 length_append)
  finally show ?thesis by (simp add: counted_signers [OF assms(6)] enough(2))
qed

lemma small_executes: "case maybeExecuteHalfStep small_eth 2 small_decider of
    Inr (Some (ExecuteCipherBatch i hash txs k gas)) \<Rightarrow> i = 1 \<and> txs = [[9]] | _ \<Rightarrow> False"
  by code_simp

theorem executed_batch_has_threshold_signers_witness:
  "1 \<le> card {m \<in> set (cc_Keypers small_cc). \<exists>s\<in>set small_sigs. ds_Sender s = m \<and>
     VerifySignature small_eth (small_batch 1) m (ds_Signature s)}"
proof -
  obtain hash k gas where "maybeExecuteHalfStep small_eth 2 small_decider = Inr (Some (ExecuteCipherBatch 1 hash [[9]] k gas))"
    using small_executes by (auto split: sum.splits option.splits IAction.splits)
  moreover have "counted small_eth small_cc small_sigs (small_batch 1)" by code_simp
  moreover have "distinct (map ds_Sender small_sigs)" by (simp add: small_sigs_def)
  moreover have "map_of (st_Batches small_state) 1 = Some (small_batch 1)" by (simp add: small_state_def)
  ultimately show ?thesis
    using executed_batch_has_threshold_signers [of small_eth 2 small_decider 1 hash "[[9]]" k gas "small_batch 1" small_cc small_sigs]
    by (simp add: small_config_for) (simp add: small_cc_def zero_ContractConfig_def)
qed

text \<open>
  C18: A keyper that counts only the decryption signatures that are new since the last time comes to the
  same number as one that counts all of them.
\<close>

theorem signatures_counted_once:
  assumes "sh_Batches (dc_Shielder d) (ba_BatchIndex batch) = Some bd"
    and "ConfigForBatchIndex (dc_MainChain d) (ba_BatchIndex batch) = Inr (Some config)"
    and "ba_DecryptedTransactions batch \<noteq> []" "counted E config seen batch"
    and "bd_DecryptionSignatures bd = seen @ new"
  shows "syncBatch E batch d =
      syncBatch E (batch \<lparr> ba_DecryptionSignatureIndex := 0, ba_SignatureCount := 0 \<rparr>) d \<and>
    (\<exists>batch'. syncBatch E batch d = Inr batch' \<and> counted E config (seen @ new) batch' \<and>
       ba_SignatureCount batch' = length (filter (counts E config batch) (seen @ new)))"
proof -
  let ?fresh = "batch \<lparr> ba_DecryptionSignatureIndex := 0, ba_SignatureCount := 0 \<rparr>"
  have counted: "counted E config (bd_DecryptionSignatures bd) batch"
    unfolding assms(5) by (rule counted_append) (rule assms(4))
  have same: "counts E config ?fresh = counts E config batch" by (rule counts_cong) simp
  note batch = syncBatch_counts [OF assms(1-3) counted]
  have "syncBatch E ?fresh d = syncBatch E batch d"
    using syncBatch_counts [of d ?fresh bd config E] assms(1-3) by (simp add: batch same counted_fresh)
  moreover have "counted E config (bd_DecryptionSignatures bd) (batch \<lparr>
      ba_SignatureCount := length (filter (counts E config batch) (bd_DecryptionSignatures bd)),
      ba_DecryptionSignatureIndex := length (bd_DecryptionSignatures bd) \<rparr>)"
    by (rule syncBatch_counted [OF assms(1, 2) counted batch])
  ultimately show ?thesis using batch assms(5) by simp
qed

theorem signatures_counted_once_witness:
  "\<exists>batch'. syncBatch small_eth (small_batch 1) small_decider = Inr batch' \<and>
     ba_SignatureCount batch' = length (filter (counts small_eth small_cc (small_batch 1)) small_sigs)"
proof -
  have "counted small_eth small_cc (take 1 small_sigs) (small_batch 1)" by code_simp
  then have "\<exists>batch'. syncBatch small_eth (small_batch 1) small_decider = Inr batch' \<and>
      counted small_eth small_cc (take 1 small_sigs @ drop 1 small_sigs) batch' \<and> ba_SignatureCount batch' =
        length (filter (counts small_eth small_cc (small_batch 1)) (take 1 small_sigs @ drop 1 small_sigs))"
    by (intro conjunct2 [OF signatures_counted_once [where bd = "\<lparr> bd_BatchIndex = 1, bd_DecryptionSignatures = small_sigs \<rparr>"]])
      (simp_all add: small_config_for)
  then show ?thesis by auto
qed

text \<open>
  A keyper of a config with \<open>n\<close> keypers waits at most half of the execution timeout before it
  executes a half step: its place in the order, which moves on by one with every half step, times the
  staggering, which is capped so that the last keyper still has half of the timeout left.
\<close>

theorem execution_delay_bounded:
  assumes "length (cc_Keypers config) = n" "0 < n" "n < 2 ^ 62" "unat h + n < 2 ^ 64"
    and "cc_KeyperIndex config (Config_Address E (dc_Config d)) = Some k"
  shows "\<exists>delay. executionDelay E config h d = Inr delay \<and> unat delay \<le> unat (cc_ExecutionTimeout config) div 2 \<and>
    unat delay = ((unat h + unat k) mod n) * min (max_stagger config) (unat (kc_ExecutionStaggering (dc_Config d)))"
  using executionDelay_place [OF assms] executionDelay_le [OF assms] by auto

theorem execution_delay_bounded_witness:
  "\<exists>delay. executionDelay small_eth small_cc 3 small_decider = Inr delay \<and> unat delay = 1 * min 50 5"
  using execution_delay_bounded [of small_cc 2 3 small_eth small_decider 0]
  by (auto simp: small_address small_cc_keyper small_cc_fields)

text \<open>
  C30: Two keypers of a config that are configured with the same execution staggering never have the same
  turn: at every half step their delays differ by at least the staggering they use, which is the configured one
  or, if that is less, the execution timeout divided by \<open>2 * (n - 1)\<close> for \<open>n\<close> keypers. So they do not send
  the same transaction at the same block if the configured staggering is not 0 and the execution timeout is at
  least \<open>2 * (n - 1)\<close>.
\<close>

theorem keypers_take_turns:
  assumes "length (cc_Keypers config) = n" "0 < n" "n < 2 ^ 62" "unat h + n < 2 ^ 64"
    and "cc_KeyperIndex config (Config_Address E (dc_Config d1)) = Some k1"
    and "cc_KeyperIndex config (Config_Address E (dc_Config d2)) = Some k2" "k1 \<noteq> k2"
    and "kc_ExecutionStaggering (dc_Config d1) = s" "kc_ExecutionStaggering (dc_Config d2) = s"
    and "executionDelay E config h d1 = Inr delay1" "executionDelay E config h d2 = Inr delay2"
  shows "(unat delay1 + min (max_stagger config) (unat s) \<le> unat delay2 \<or>
      unat delay2 + min (max_stagger config) (unat s) \<le> unat delay1) \<and>
    (0 < s \<and> 2 * (n - 1) \<le> unat (cc_ExecutionTimeout config) \<longrightarrow> delay1 \<noteq> delay2)"
proof -
  let ?s = "min (max_stagger config) (unat s)"
  define p1 p2 where "p1 = (unat h + unat k1) mod n" and "p2 = (unat h + unat k2) mod n"
  have d: "unat delay1 = p1 * ?s" "unat delay2 = p2 * ?s"
    using executionDelay_place [OF assms(1-5)] executionDelay_place [OF assms(1-4, 6)] assms(8-11)
    by (auto simp: p1_def p2_def)
  have "unat k1 < n" "unat k2 < n"
    using cc_KeyperIndex_SomeD [OF assms(5)] cc_KeyperIndex_SomeD [OF assms(6)] assms(1, 3) by auto
  moreover have "unat k1 \<noteq> unat k2" using assms(7) word_unat_eq_iff by blast
  ultimately have "p1 \<noteq> p2" using mod_add_inj unfolding p1_def p2_def by blast
  then have "p1 + 1 \<le> p2 \<or> p2 + 1 \<le> p1" by linarith
  then have "(p1 + 1) * ?s \<le> p2 * ?s \<or> (p2 + 1) * ?s \<le> p1 * ?s" using mult_le_mono1 by blast
  then have apart: "unat delay1 + ?s \<le> unat delay2 \<or> unat delay2 + ?s \<le> unat delay1"
    unfolding d by (simp add: algebra_simps)
  moreover have "delay1 \<noteq> delay2" if "0 < s" "2 * (n - 1) \<le> unat (cc_ExecutionTimeout config)"
  proof -
    have "1 < n" using \<open>p1 \<noteq> p2\<close> assms(2) by (cases "n = 1") (auto simp: p1_def p2_def)
    then have "0 < max_stagger config" using that(2) assms(1) by (simp add: max_stagger_def div_greater_zero_iff)
    then show ?thesis using apart that(1) by (auto simp: word_less_nat_alt)
  qed
  ultimately show ?thesis by blast
qed

theorem keypers_take_turns_witness:
  "\<exists>delay1 delay2. executionDelay small_eth small_cc 2 small_decider = Inr delay1 \<and>
     executionDelay small_eth small_cc 2 (small_decider \<lparr> dc_Config := small_kc \<lparr> kc_SigningKey := 2 \<rparr> \<rparr>) = Inr delay2 \<and>
     (unat delay1 + 5 \<le> unat delay2 \<or> unat delay2 + 5 \<le> unat delay1) \<and> delay1 \<noteq> delay2"
proof -
  let ?d2 = "small_decider \<lparr> dc_Config := small_kc \<lparr> kc_SigningKey := 2 \<rparr> \<rparr>"
  note len = small_cc_fields(1)
  have a2: "Config_Address small_eth (small_kc \<lparr> kc_SigningKey := 2 \<rparr>) = 2"
    by (simp add: Config_Address_def small_eth_def)
  obtain delay1 delay2 where d: "executionDelay small_eth small_cc 2 small_decider = Inr delay1"
    "executionDelay small_eth small_cc 2 ?d2 = Inr delay2"
    using executionDelay_place [OF len(1), of 2 small_eth small_decider 0]
      executionDelay_place [OF len(1), of 2 small_eth ?d2 1]
    by (auto simp: small_address a2 small_cc_keyper)
  with keypers_take_turns [OF len(1) _ _ _ _ _ _ _ _ d, of 0 1 5] show ?thesis
    by (auto simp: small_address a2 small_cc_keyper small_cc_fields)
qed

text \<open>
  C17: A keyper looks at every executed half step once and accuses exactly where it should: for a cipher
  batch whose receipt names another batch hash than the one the keyper decrypted, if nobody has accused.
\<close>

theorem accuses_exactly_the_mismatches:
  assumes "maybeAccuse E d = Inr d'"
  shows "st_HalfStepsChecked (dc_State d') = mc_NumExecutionHalfSteps (dc_MainChain d) \<and>
    (\<exists>as. dc_Actions d' = dc_Actions d @ as \<and>
      (\<forall>h. (\<exists>k. Accuse h k \<in> set as) \<longleftrightarrow>
         st_HalfStepsChecked (dc_State d) \<le> h \<and> h < mc_NumExecutionHalfSteps (dc_MainChain d) \<and> suspicious d h \<and>
         (\<exists>config. ConfigForBatchIndex (dc_MainChain d) (h div 2) = Inr (Some config))))"
proof -
  let ?acc = "accusation (Config_Address E (dc_Config d)) d"
  let ?hs = "range64 (st_HalfStepsChecked (dc_State d)) (mc_NumExecutionHalfSteps (dc_MainChain d))"
  have iff: "(\<exists>k. ?acc g = Some (Accuse h k)) \<longleftrightarrow> g = h \<and> suspicious d h \<and>
      (\<exists>config. ConfigForBatchIndex (dc_MainChain d) (h div 2) = Inr (Some config))" for g h
    by (auto simp: accusation_def split: sum.splits option.splits if_splits)
  have "(\<exists>k. Accuse h k \<in> set (List.map_filter ?acc ?hs)) \<longleftrightarrow> (\<exists>g\<in>set ?hs. \<exists>k. ?acc g = Some (Accuse h k))" for h
    by (auto simp: set_map_filter)
  then have "(\<exists>k. Accuse h k \<in> set (List.map_filter ?acc ?hs)) \<longleftrightarrow> h \<in> set ?hs \<and> suspicious d h \<and>
      (\<exists>config. ConfigForBatchIndex (dc_MainChain d) (h div 2) = Inr (Some config))" for h
    unfolding iff by auto
  then show ?thesis using maybeAccuse_spec [OF assms] by (auto simp: set_range64)
qed

theorem accuses_exactly_the_mismatches_witness:
  "\<exists>d' k. maybeAccuse small_eth small_decider = Inr d' \<and> Accuse 0 k \<in> set (dc_Actions d')"
proof -
  have "case maybeAccuse small_eth small_decider of Inl e \<Rightarrow> False | Inr d' \<Rightarrow> True" by code_simp
  then obtain d' where d': "maybeAccuse small_eth small_decider = Inr d'" by (auto split: sum.splits)
  have "suspicious small_decider 0"
    by (simp add: suspicious_def) (simp add: small_mc_def small_state_def)
  moreover have "st_HalfStepsChecked small_state = 0" by (simp add: small_state_def NewState_def)
  ultimately show ?thesis
    using accuses_exactly_the_mismatches [OF d'] d' by (auto simp: small_config_for)
qed

section \<open>Key generations\<close>

text \<open>
  C19: One synchronisation of a key generation reads the events of its eon exactly. Of the events since the last
  one that were made in the right phase by a keyper of the config: each keyper's commitment, and its evaluation
  for this keyper, is the first valid one that it sent; the accusations are those made before and now; each
  apology is the first valid one; and what was there before stays. The phase becomes that of the next block, if
  it is later, and all of this is a run of the operations of the key generation. The decider changes in nothing
  but its actions and, exactly when the key generation finishes now and has a result, the epoch key generation
  of this result. (The keyper's own evaluation, which it stores when it deals, is not described here.)
\<close>

theorem sync_reads_every_event:
  assumes "eon_ok h0 eon" "slots_ok dkg" "dkg_orders_ok (dec_orders R)" "syncDKGWithEon R B E eon dkg d = Inr (dkg', d')"
  shows "let h = st_SyncHeight (dc_State d); decrypt = ecies_Decrypt E (kc_EncryptionKey (dc_Config d));
      phase = getPhaseAtHeight (dc_PhaseLength d) (sh_CurrentBlock (dc_Shielder d) + 1) (eo_StartHeight eon);
      pure = dg_Pure dkg; pure' = dg_Pure dkg'
    in dkg_run B pure pure' \<and> pd_Phase pure' = max (pd_Phase pure) phase \<and>
      (\<forall>j < length (dg_Keypers dkg).
        pd_Commitments pure' ! j = (case pd_Commitments pure ! j of Some c \<Rightarrow> Some c
          | None \<Rightarrow> first_some (shown_commitment h eon dkg j) (eo_Commitments eon)) \<and>
        (j \<noteq> unat (pd_Keyper pure) \<longrightarrow> pd_Evals pure' ! j = (case pd_Evals pure ! j of Some e \<Rightarrow> Some e
          | None \<Rightarrow> first_some (shown_eval B decrypt h eon dkg j) (eo_PolyEvals eon)))) \<and>
      set (pd_Accusations pure') = set (pd_Accusations pure) \<union> (\<Union>acc\<in>set (eo_Accusations eon). shown_accusations h eon dkg acc) \<and>
      (\<forall>key. map_of (pd_Apologies pure') key = (case map_of (pd_Apologies pure) key of Some e \<Rightarrow> Some e
        | None \<Rightarrow> first_some (shown_apology B h eon dkg key) (eo_Apologies eon))) \<and>
      dg_Eon dkg' = dg_Eon dkg \<and> dg_Keypers dkg' = dg_Keypers dkg \<and> dg_StartBatchIndex dkg' = dg_StartBatchIndex dkg \<and>
      dg_PhaseLength dkg' = dg_PhaseLength dkg \<and>
      (\<exists>as. d' = d \<lparr> dc_State := (dc_State d) \<lparr> st_EKGs := st_EKGs (dc_State d) @
         (if pd_Phase pure \<noteq> Finalized \<and> phase = Finalized then new_EKGs R B dkg' else []) \<rparr>, dc_Actions := as \<rparr>)"
proof -
  have "pair_evolves B dkg d (dkg, d)" by (simp add: pair_evolves_iff)
  from postD [OF evolves_syncDKGWithEon [OF assms(3) this] assms(4)]
  have run: "dkg_run B (dg_Pure dkg) (dg_Pure dkg')" by (simp add: pair_evolves_iff dkg_evolves_def)
  from syncDKGWithEon_exact [OF assms(1,2,4)] obtain poly cs es acs aps out as where
    "dkg' = dkg \<lparr> dg_Pure := (dg_Pure dkg) \<lparr> pd_Phase := max (pd_Phase (dg_Pure dkg))
        (getPhaseAtHeight (dc_PhaseLength d) (sh_CurrentBlock (dc_Shielder d) + 1) (eo_StartHeight eon)), pd_Polynomial := poly,
      pd_Commitments := cs, pd_Evals := es, pd_Accusations := acs, pd_Apologies := aps \<rparr>,
      dg_OutgoingPolyEvalMsgs := out \<rparr>" and rest:
    "\<forall>j < length (dg_Keypers dkg). cs ! j = (case pd_Commitments (dg_Pure dkg) ! j of
       None \<Rightarrow> first_some (shown_commitment (st_SyncHeight (dc_State d)) eon dkg j) (eo_Commitments eon) | Some c \<Rightarrow> Some c)"
    "\<forall>j < length (dg_Keypers dkg). j \<noteq> unat (pd_Keyper (dg_Pure dkg)) \<longrightarrow> es ! j = (case pd_Evals (dg_Pure dkg) ! j of
       None \<Rightarrow> first_some (shown_eval B (ecies_Decrypt E (kc_EncryptionKey (dc_Config d))) (st_SyncHeight (dc_State d)) eon dkg j)
         (eo_PolyEvals eon) | Some e \<Rightarrow> Some e)"
    "set acs = set (pd_Accusations (dg_Pure dkg)) \<union> (\<Union>acc\<in>set (eo_Accusations eon). shown_accusations (st_SyncHeight (dc_State d)) eon dkg acc)"
    "\<forall>key. map_of aps key = (case map_of (pd_Apologies (dg_Pure dkg)) key of
       None \<Rightarrow> first_some (shown_apology B (st_SyncHeight (dc_State d)) eon dkg key) (eo_Apologies eon) | Some e \<Rightarrow> Some e)"
    "d' = d \<lparr> dc_State := (dc_State d) \<lparr> st_EKGs := st_EKGs (dc_State d) @ (if pd_Phase (dg_Pure dkg) \<noteq> Finalized \<and>
        getPhaseAtHeight (dc_PhaseLength d) (sh_CurrentBlock (dc_Shielder d) + 1) (eo_StartHeight eon) = Finalized
      then new_EKGs R B dkg' else []) \<rparr>, dc_Actions := as \<rparr>"
    by blast
  from this(1) have fields: "pd_Commitments (dg_Pure dkg') = cs" "pd_Evals (dg_Pure dkg') = es"
    "pd_Accusations (dg_Pure dkg') = acs" "pd_Apologies (dg_Pure dkg') = aps"
    "pd_Phase (dg_Pure dkg') = max (pd_Phase (dg_Pure dkg))
        (getPhaseAtHeight (dc_PhaseLength d) (sh_CurrentBlock (dc_Shielder d) + 1) (eo_StartHeight eon))"
    "dg_Eon dkg' = dg_Eon dkg" "dg_Keypers dkg' = dg_Keypers dkg" "dg_StartBatchIndex dkg' = dg_StartBatchIndex dkg"
    "dg_PhaseLength dkg' = dg_PhaseLength dkg"
    by simp_all
  show ?thesis unfolding Let_def fields using run rest by blast
qed

definition small_shown_eon :: "(z5, z5) Eon" where
  "small_shown_eon = small_eon \<lparr> eo_Commitments :=
     [\<lparr> pc_Height = 3, pc_Eon = 1, pc_Sender = 9, pc_Gammas = Some [Z2] \<rparr>, \<lparr> pc_Height = 3, pc_Eon = 1, pc_Sender = 2, pc_Gammas = Some [Z1] \<rparr>,
      \<lparr> pc_Height = 4, pc_Eon = 1, pc_Sender = 2, pc_Gammas = Some [Z3] \<rparr>] \<rparr>"

theorem sync_reads_every_event_witness:
  "\<exists>dkg d. syncDKGWithEon small_choices bn5 small_eth small_shown_eon small_new_dkg small_starter = Inr (dkg, d) \<and>
     pd_Phase (dg_Pure dkg) = Dealing \<and> pd_Commitments (dg_Pure dkg) ! 1 = Some [Z1]"
proof -
  have "case syncDKGWithEon small_choices bn5 small_eth small_shown_eon small_new_dkg small_starter of
      Inl e \<Rightarrow> False | Inr (dkg, d) \<Rightarrow> pd_Phase (dg_Pure dkg) = Dealing" by code_simp
  then obtain dkg d where sync: "syncDKGWithEon small_choices bn5 small_eth small_shown_eon small_new_dkg small_starter = Inr (dkg, d)"
    "pd_Phase (dg_Pure dkg) = Dealing" by (auto split: sum.splits prod.splits)
  have "dkg_orders_ok (dec_orders small_choices)" by (simp add: small_choices_def small_dkg_orders_ok)
  moreover have "eon_ok 9 small_shown_eon"
    by (simp add: eon_ok_def ordered_events_def height_sorted_def below_def small_shown_eon_def small_eon_def new_eon_def)
  moreover have "slots_ok small_new_dkg" by (simp add: slots_ok_def small_new_dkg_def NewPureDKG_def)
  moreover have "first_some (shown_commitment (st_SyncHeight (dc_State small_starter)) small_shown_eon small_new_dkg 1)
      (eo_Commitments small_shown_eon) = Some [Z1]" by code_simp
  moreover have "length (dg_Keypers small_new_dkg) = 2" "pd_Commitments (dg_Pure small_new_dkg) ! 1 = None"
    by (simp_all add: small_new_dkg_def NewPureDKG_def)
  ultimately have "pd_Commitments (dg_Pure dkg) ! 1 = Some [Z1]"
    using sync_reads_every_event [of 9 small_shown_eon small_new_dkg small_choices bn5 small_eth small_starter dkg d] sync(1)
    by (simp add: Let_def)
  with sync show ?thesis by blast
qed

text \<open>
  C31: What a keyper decides keeps its key generations well formed: each is a run that started for an eon
  the keyper knows, with one slot per keyper of the config, its records checked, and none is there twice.
  Finding the eon of a key generation, whose failure would stop the keyper, therefore always succeeds. (This is
  about one decision; what a restart makes of a key generation that is dealing is the subject of \<open>Restart\<close>.)
\<close>

theorem decisions_keep_key_generations_typed:
  assumes "dkg_orders_ok (dec_orders R)" "dec_inv B d" "Decide R B E d = Inr d'"
  shows "dec_inv B d' \<and> distinct (map dg_Eon (st_DKGs (dc_State d'))) \<and>
    (\<forall>dkg\<in>set (st_DKGs (dc_State d')). wf_dkg B (dg_Pure dkg) \<and> pd_Eon (dg_Pure dkg) = dg_Eon dkg \<and>
       pd_NumKeypers (dg_Pure dkg) = of_nat (length (dg_Keypers dkg)) \<and>
       (\<exists>i. FindEon (dc_Shielder d') (dg_Eon dkg) = Inr i \<and> eo_Eon (sh_Eons (dc_Shielder d') ! i) = dg_Eon dkg))"
proof -
  have inv: "dec_inv B d'" by (rule postD [OF dec_inv_Decide [OF assms(1,2)] assms(3)])
  then have "sorted_wrt (<) (map dg_Eon (st_DKGs (dc_State d')))" by (simp add: dec_inv_def dkgs_inv_def)
  then have "distinct (map dg_Eon (st_DKGs (dc_State d')))" using strict_sorted_iff by blast
  with inv show ?thesis
    using dkg_known_typed [OF dec_inv_dkg [OF inv]] dec_inv_eons [OF inv] by blast
qed

theorem decisions_keep_key_generations_typed_witness:
  "\<exists>d dkg. Decide small_choices bn5 small_eth small_starter = Inr d \<and> st_DKGs (dc_State d) = [dkg] \<and>
     wf_dkg bn5 (dg_Pure dkg) \<and> pd_Eon (dg_Pure dkg) = 1"
proof -
  obtain d where d: "Decide small_choices bn5 small_eth small_starter = Inr d" "map dg_Eon (st_DKGs (dc_State d)) = [1]"
    using small_starts by (auto split: sum.splits)
  have "dkg_orders_ok (dec_orders small_choices)" by (simp add: small_choices_def small_dkg_orders_ok)
  from decisions_keep_key_generations_typed [OF this small_starter_inv d(1)] d show ?thesis by auto
qed

text \<open>
  A keyper that comes to an eon which starts before the last batch config it knows of stops with a
  panic: the loop that looks for the config of a batch counts upwards from the last config.
\<close>

theorem old_eon_stops_keyper:
  assumes "sh_Eons (dc_Shielder d) = old @ eon # new" "\<forall>eo\<in>set old. eo_Eon eo \<le> st_LastEonStarted (dc_State d)"
    and "st_LastEonStarted (dc_State d) < eo_Eon eon" "sh_BatchConfigs (dc_Shielder d) = configs @ [config]"
    and "es_BatchIndex (eo_StartEvent eon) < bc_StartBatchIndex config"
  shows "\<exists>p. maybeStartDKG E d = Inl (Panic p)"
  by (rule maybeStartDKG_old_config [OF assms(1-3)]) (use assms(4,5) in simp_all)

definition small_eon_event :: EonStarted where
  "small_eon_event = \<lparr> es_Height = 2, es_Eon = 1, es_BatchIndex = 5 \<rparr>"

theorem old_eon_stops_keyper_witness:
  "\<exists>p. maybeStartDKG small_eth (small_decider \<lparr> dc_Shielder := small_sh \<lparr> sh_Eons := [new_eon small_eon_event],
     sh_BatchConfigs := [small_config, small_next] \<rparr> \<rparr>) = Inl (Panic p)"
  by (rule old_eon_stops_keyper [where old = "[]" and eon = "new_eon small_eon_event" and new = "[]"
        and configs = "[small_config]" and config = small_next])
    (simp_all add: new_eon_def small_eon_event_def small_state_def NewState_def small_next_def emptyBatchConfig_def)

section \<open>What a keyper sees of the shuttermint chain\<close>

text \<open>
  C9: The state a keyper builds from the events alone is a projection of the state of the application:
  after any blocks both agree on the batch configs (but for the genesis config, for which no event is
  published), the checked-in keypers, the eons, the decryption signatures of every batch in their order, and
  exactly who has sent which poly evals, accusations and apologies of a key generation. The commitments a keyper
  sees are from senders the application has let through, and every commitment the application has let
  through is seen, but for those without any point, whose published event no keyper can read.
\<close>

theorem keyper_observes_application:
  assumes "observed U B E P h evs app sh" "bn_ok B" "eth_ok E"
  shows "app_inv app \<and> sh_inv h sh \<and> observes app sh \<and>
    (\<forall>n d a. app_DKGMap app n = Some d \<longrightarrow> a \<in> dkg_PolyCommitmentsSeen d \<longrightarrow>
       (\<exists>eo\<in>set (sh_Eons sh). eo_Eon eo = n \<and> a \<in> pc_Sender ` set (eo_Commitments eo)) \<or>
       no_points_event B E n a \<in> set evs)"
  using observed_inv [OF assms] by (simp add: commitments_published_def commitment_shown_def)

theorem keyper_observes_application_witness:
  "\<exists>r app. DeliverTx small_orders bn5 small_eth small_proto small_tx small_app = Inr (r, app) \<and>
     observes app (applyTxEvents bn5 small_eth 1 (resp_Events r) (NewShielder :: (z5, z5, byte) Shielder))"
proof -
  obtain r app where tx: "DeliverTx small_orders bn5 small_eth small_proto small_tx small_app = Inr (r, app)"
    using small_DeliverTx by blast
  have "observed small_unmarshal bn5 small_eth small_proto 1 ([] @ resp_Events r) app
      (applyTxEvents bn5 small_eth 1 (resp_Events r) (NewShielder :: (z5, z5, byte) Shielder))"
    by (rule observed.tx [OF observed.genesis [OF small_InitChain] small_orders_ok(1) _ tx])
      (simp add: small_app_def NewShielderApp_def)
  from keyper_observes_application [OF this bn_ok_bn5 eth_ok_small] tx show ?thesis by blast
qed

text \<open>
  C33: Fetching the events up to a height ends, and applies the events of exactly the transactions after the
  last synchronisation and up to that height, in order, however many queries and pages that takes.
\<close>

theorem fetch_applies_all_events:
  assumes "node_serves C chain" "sint targetHeight < 2 ^ 62"
    and "- 1 \<le> sint (sh_CurrentBlock sh)" "sint (sh_CurrentBlock sh) \<le> sint targetHeight"
  shows "fetchAndApplyEvents B E C targetHeight sh =
    Some (Inr (apply_txs B E (in_range (sint (sh_CurrentBlock sh)) (sint targetHeight) chain) sh))"
  using assms by (rule fetchAndApplyEvents_all)

definition small_chain :: "tm_tx list" where
  "small_chain = [\<lparr> tx_Height = 3, tx_Events = [] \<rparr>, \<lparr> tx_Height = 700, tx_Events = [] \<rparr>]"

definition small_client :: tm_client where
  "small_client = \<lparr> TxSearch = (\<lambda>lo hi page n. let txs = in_range (sint lo - 1) (sint hi) small_chain
       in Inr \<lparr> tr_Txs = page_of page n txs, tr_TotalCount = int (length txs) \<rparr>),
     Block_LastCommit = Inr (Some 800), Status_CatchingUp = Inr False \<rparr>"

theorem fetch_applies_all_events_witness:
  "fetchAndApplyEvents bn5 small_eth small_client 800 (NewShielder :: (z5, z5, byte) Shielder) =
    Some (Inr (apply_txs bn5 small_eth (in_range (- 1) 800 small_chain) NewShielder))"
proof -
  have "node_serves small_client small_chain"
    by (simp add: node_serves_def small_client_def Let_def) (simp add: small_chain_def)
  from fetch_applies_all_events [OF this, of 800 "NewShielder :: (z5, z5, byte) Shielder" bn5 small_eth] show ?thesis
    by (simp add: NewShielder_def)
qed

text \<open>
  Dropping old events from an eon does not change what the key generation reads of it later; but it
  drops all epoch secret key shares of the eon, also those the keyper has not looked at.
\<close>

theorem filter_keeps_key_generation_events:
  assumes "eon_ok h eo" "sint f \<le> sint s"
  shows "GetPolyCommitments (Eon_ApplyFilter f eo) s = GetPolyCommitments eo s \<and>
    GetPolyEvals (Eon_ApplyFilter f eo) s = GetPolyEvals eo s \<and>
    GetAccusations (Eon_ApplyFilter f eo) s = GetAccusations eo s \<and>
    GetApologies (Eon_ApplyFilter f eo) s = GetApologies eo s \<and>
    GetEpochSecretKeyShares (Eon_ApplyFilter f eo) s = []"
  using filtered_accessors [OF assms] by (simp add: filtered_shares)

theorem filter_keeps_key_generation_events_witness:
  "GetAccusations (Eon_ApplyFilter 2 (small_eon \<lparr> eo_Accusations := [\<lparr> acc_Height = 3, acc_Eon = 1, acc_Sender = 1, acc_Accused = [2] \<rparr>] \<rparr>)) 3 =
    GetAccusations (small_eon \<lparr> eo_Accusations := [\<lparr> acc_Height = 3, acc_Eon = 1, acc_Sender = 1, acc_Accused = [2] \<rparr>] \<rparr>) 3"
  by (rule filter_keeps_key_generation_events [THEN conjunct2, THEN conjunct2, THEN conjunct1, of 3])
    (simp_all add: eon_ok_def ordered_events_def height_sorted_def below_def small_eon_def new_eon_def)

section \<open>What a keyper sees of the main chain\<close>

text \<open>
  C32: While the block it follows does not move backwards, a synchronisation with a node that serves the
  chain gives the keyper the state of the chain at that block: exactly its configs, batches with their hashes,
  number of half steps, deposits, accusations and appeals. Of the receipts it has exactly those of the executed
  cipher half steps as long as no cipher half step was skipped; after one was skipped, the empty receipt is in the
  place of that of half step 0, and the others are still exact (the defect of \<open>syncExecutionState\<close> that
  \<open>skipped_half_step_overwrites_receipt_0\<close> isolates).
\<close>

theorem main_chain_view_exact:
  assumes "chain_ok ch" "node_tells N ch" "mn_HeadNumber N = Inr head" "state_at ch (mc_CurrentBlock mc) mc"
    and "mc_CurrentBlock mc \<le> syncUntilBlock mc head" "mc_CurrentBlock mc < mc_CurrentBlock mc + 1"
  shows "\<exists>mc'. mc_SyncToHead N mc = Inr mc' \<and> state_at ch (mc_CurrentBlock mc') mc' \<and>
    (mc_CurrentBlock mc' = syncUntilBlock mc head \<or> head = mc_CurrentBlock mc) \<and>
    (let n = ch_NumHalfSteps ch (mc_CurrentBlock mc')
     in mc_CipherExecutionReceipts mc' = (if \<exists>h < n. skipped_step ch h
          then (executed_receipts ch n)(0 \<mapsto> zero_receipt) else executed_receipts ch n))"
proof -
  have "state_at ch b mc' \<Longrightarrow> let n = ch_NumHalfSteps ch b
     in mc_CipherExecutionReceipts mc' = (if \<exists>h < n. skipped_step ch h
          then (executed_receipts ch n)(0 \<mapsto> zero_receipt) else executed_receipts ch n)" for b mc'
    by (simp add: state_at_def receipts_spec_def)
  with mc_SyncToHead_refines [OF assms] show ?thesis by blast
qed

theorem main_chain_view_exact_witness:
  "\<exists>mc. mc_SyncToHead small_node (NewMainChain 4) = Inr mc \<and> mc_CurrentBlock mc = 6 \<and> state_at small_main 6 mc \<and>
    mc_CipherExecutionReceipts mc 0 = Some zero_receipt \<and> mc_CipherExecutionReceipts mc 2 = None \<and>
    mc_CipherExecutionReceipts mc 4 = Some (small_receipt 4) \<and> cr_Executed (small_receipt 4)"
proof -
  have "\<exists>h < 6. skipped_step small_main h"
    by (intro exI [of _ 2]) (simp add: skipped_step_def small_main_def small_receipt_def zero_receipt_def)
  then show ?thesis
    using main_chain_view_exact [OF small_main_ok small_node_tells, of 10 "NewMainChain 4"] small_main_start
    by (auto simp: small_node_def syncUntilBlock_def NewMainChain_def executed_receipts_def Let_def)
      (auto simp: small_main_def small_receipt_def zero_receipt_def)
qed

text \<open>
  The executor contract answers for a skipped half step with an empty receipt, whose half step is 0: the
  synchronisation then stores nothing for the skipped half step, but replaces the receipt of half step 0.
\<close>

theorem skipped_half_step_overwrites_receipt_0:
  assumes "mn_NumExecutionHalfSteps N block = Inr (h + 1)" "mc_NumExecutionHalfSteps mc = h" "unat h + 1 < 2 ^ 64" "h mod 2 = 0"
    and "mn_GetReceipt N block h = Inr none" "cr_HalfStep none = 0"
  shows "\<exists>mc'. syncExecutionState N block mc = Inr mc' \<and> mc_CipherExecutionReceipts mc' 0 = Some none \<and>
    (h \<noteq> 0 \<longrightarrow> mc_CipherExecutionReceipts mc' h = mc_CipherExecutionReceipts mc h)"
proof -
  have "unat (h + 1) = Suc (unat h)" using unat_add_u64 [of h 1] assms(3) by simp
  then have "range64 h (h + 1) = [h]" by (simp add: range64_def)
  then show ?thesis using assms by (simp add: syncExecutionState_def)
qed

theorem skipped_half_step_overwrites_receipt_0_witness:
  "\<exists>mc. syncExecutionState (small_node \<lparr> mn_NumExecutionHalfSteps := (\<lambda>b. Inr 3) \<rparr>) 10 small_mc = Inr mc \<and>
     mc_CipherExecutionReceipts mc 0 \<noteq> mc_CipherExecutionReceipts small_mc 0"
  using skipped_half_step_overwrites_receipt_0
    [of "small_node \<lparr> mn_NumExecutionHalfSteps := (\<lambda>b. Inr 3) \<rparr>" 10 2 small_mc "ch_Receipt small_main 2"]
  by (auto simp: small_node_def small_main_def small_receipt_def zero_receipt_def small_mc_def zero_hash_def)

text \<open>
  Of an active config, the batch of a block is the one whose first block is at or before it and whose
  end is after it; no other number of a batch satisfies that.
\<close>

theorem batch_of_block_exact:
  assumes "IsActive bc" "cc_StartBlockNumber bc \<le> n" "batch_fits bc i"
  shows "BatchIndex bc n = Inr i \<longleftrightarrow>
    (\<exists>s e. BatchStartBlock bc i = Inr s \<and> BatchEndBlock bc i = Inr e \<and> s \<le> n \<and> n < e)"
  using assms by (rule BatchIndex_iff)

theorem batch_of_block_exact_witness:
  "BatchIndex small_cc 35 = Inr 3 \<and> BatchEndBlock small_cc 3 = Inr 40"
  using batch_of_block_exact [of small_cc 35 3]
  by (simp add: small_cc_def zero_ContractConfig_def IsActive_def batch_fits_def BatchStartBlock_def BatchEndBlock_def)

section \<open>Actions survive crashes\<close>

text \<open>
  C7: However often a keyper crashes and restarts, no action it has decided on is lost or added twice.
  The pending actions are those of the log of everything the keyper ever saved that are not done; a restart
  always succeeds, adds exactly the actions of the log that were not added before, and leaves the rest alone.
\<close>

theorem no_action_lost:
  fixes kpr :: "('g1, 'g2, 'sk, 'ek, 'dk) Keyper"
  assumes "keyper_run B E P log kpr"
  shows "\<exists>kpr'. restart_keyper world kpr = Inr kpr' \<and>
    unat (pa_CurrentID (re_PendingActions (kp_runenv kpr'))) = length log \<and>
    (\<forall>i a. GetAction i (re_PendingActions (kp_runenv kpr')) = Some a \<longrightarrow> unat i < length log \<and> a = log ! unat i) \<and>
    (\<forall>i < pa_CurrentID (re_PendingActions (kp_runenv kpr)).
       GetAction i (re_PendingActions (kp_runenv kpr')) = GetAction i (re_PendingActions (kp_runenv kpr))) \<and>
    (\<forall>i \<ge> pa_CurrentID (re_PendingActions (kp_runenv kpr)). unat i < length log \<longrightarrow>
       GetAction i (re_PendingActions (kp_runenv kpr')) = Some (log ! unat i))"
proof -
  have inv: "keyper_inv log kpr" using assms by (rule keyper_run_inv)
  obtain kpr' where kpr': "restart_keyper world kpr = Inr kpr'" "keyper_inv log kpr'"
    "unat (pa_CurrentID (re_PendingActions (kp_runenv kpr'))) = length log"
    "\<And>i. i < pa_CurrentID (re_PendingActions (kp_runenv kpr)) \<Longrightarrow>
       GetAction i (re_PendingActions (kp_runenv kpr')) = GetAction i (re_PendingActions (kp_runenv kpr))"
    "\<And>i. pa_CurrentID (re_PendingActions (kp_runenv kpr)) \<le> i \<Longrightarrow> unat i < length log \<Longrightarrow>
       GetAction i (re_PendingActions (kp_runenv kpr')) = Some (log ! unat i)"
    using restart_inv [OF inv] by blast
  from kpr'(2) have "pending_fits log (re_PendingActions (kp_runenv kpr'))" by (simp add: keyper_inv_def)
  then have "\<And>i a. GetAction i (re_PendingActions (kp_runenv kpr')) = Some a \<Longrightarrow> unat i < length log \<and> a = log ! unat i"
    by (simp add: pending_fits_def)
  with kpr'(1,3-5) show ?thesis by (intro exI [of _ kpr'] conjI allI impI) (assumption | blast)+
qed

theorem no_action_lost_witness:
  "\<exists>kpr kpr' a. decide_and_save small_choices bn5 small_eth small_keyper = Inr kpr \<and> st_Actions (kp_State kpr) = [a] \<and>
     restart_keyper (kp_World small_keyper) kpr = Inr kpr' \<and> pa_CurrentID (re_PendingActions (kp_runenv kpr')) = 1"
proof -
  obtain kpr where kpr: "decide_and_save small_choices bn5 small_eth small_keyper = Inr kpr"
    and len: "length (st_Actions (kp_State kpr)) = 1"
    using small_decides by (auto split: sum.splits)
  from keyper_run.kr_decide [OF small_keyper_run kpr] len
  have "keyper_run bn5 small_eth small_proto (st_Actions (kp_State kpr)) kpr" by simp
  from no_action_lost [OF this, of "kp_World small_keyper"] len obtain kpr' where
    "restart_keyper (kp_World small_keyper) kpr = Inr kpr'" "unat (pa_CurrentID (re_PendingActions (kp_runenv kpr'))) = 1"
    by auto
  moreover from this(2) have "pa_CurrentID (re_PendingActions (kp_runenv kpr')) = 1" by (simp add: word_unat_eq_iff)
  moreover obtain a where "st_Actions (kp_State kpr) = [a]" using len by (auto simp: length_Suc_conv)
  ultimately show ?thesis using kpr by blast
qed

text \<open>
  C25: Whatever actions run, are retried, mined or reloaded after a crash, every pending action waits in
  exactly one of the three queues, none waits twice and nothing else waits; messages and new transactions
  wait in the order in which they were decided.
\<close>

theorem pending_actions_queued_once:
  assumes "(runenv_step B E P)\<^sup>*\<^sup>* (NewRunEnv ms) env"
  shows "(\<forall>aid. GetAction aid (re_PendingActions env) \<noteq> None \<longleftrightarrow> (\<exists>!ch. aid \<in> set (queue ch env))) \<and>
    (\<forall>ch. distinct (queue ch env)) \<and> sorted (queue Messages env) \<and> sorted (queue Transactions env)"
proof -
  have "runenv_inv env" using assms
    by (induction rule: rtranclp_induct) (auto intro: runenv_inv_New runenv_step_inv)
  then show ?thesis by (auto simp: runenv_inv_def channel_of_None_iff [symmetric])
qed

theorem pending_actions_queued_once_witness:
  "\<exists>env. RunActions 0 [SkipCipherBatch 3, Accuse 4 1] (NewRunEnv (NewRPCMessageSender (1 :: byte))) = Inr (env :: (z5, byte) RunEnv) \<and>
     (\<exists>!ch. 1 \<in> set (queue ch env))"
proof -
  let ?acts = "[SkipCipherBatch 3, Accuse 4 1] :: z5 IAction list"
  have "case RunActions 0 ?acts (NewRunEnv (NewRPCMessageSender (1 :: byte))) of
      Inl e \<Rightarrow> False | Inr env \<Rightarrow> GetAction 1 (re_PendingActions env) \<noteq> None"
    by code_simp
  then obtain env :: "(z5, byte) RunEnv" where env: "RunActions 0 ?acts (NewRunEnv (NewRPCMessageSender 1)) = Inr env"
    "GetAction 1 (re_PendingActions env) \<noteq> None" by (auto split: sum.splits)
  have "(runenv_step bn5 small_eth small_proto)\<^sup>*\<^sup>* (NewRunEnv (NewRPCMessageSender 1)) env"
    by (rule r_into_rtranclp, rule rs_run [OF env(1)]) simp
  from pending_actions_queued_once [OF this] env show ?thesis by blast
qed

end
