(* ===== verification/Restart.thy ===== *)
theory Restart
  imports SmallKeyper DKGRun
begin

text \<open>
  What a new process makes of the state of the one before it: a restart resumes the saved state as gob decodes
  it, runs its actions, and is where the uninterrupted keyper would be, but for three differences: entries of a
  key generation that had not arrived count as received, a pending half step may be forgotten, and the height
  of the last synchronisation is set when it was 0.
\<close>

section \<open>The resumed state\<close>

lemma SortedIDs_empty: "SortedIDs pending = [] \<longleftrightarrow> (\<forall>i. GetAction i pending = None)"
proof -
  have "SortedIDs pending = [] \<longleftrightarrow> pa_ActionMap pending = []"
    unfolding SortedIDs_def by (metis length_sort length_0_conv length_map)
  then show ?thesis by (cases "pa_ActionMap pending") (auto simp: GetAction_def)
qed

lemma Load_havePending: "Load pending env = Inr (havePending, env') \<Longrightarrow> havePending \<longleftrightarrow> (\<exists>i. GetAction i pending \<noteq> None)"
  by (auto simp: Load_def Let_def result_bind_Inr_iff SortedIDs_empty)

lemma runActions_fields:
  "runActions kpr = Inr kpr' \<Longrightarrow> kp_Config kpr' = kp_Config kpr \<and> kp_World kpr' = kp_World kpr \<and>
     kp_StateFile kpr' = kp_StateFile kpr \<and> kp_State kpr' = (kp_State kpr) \<lparr>
       st_ActionCounter := st_ActionCounter (kp_State kpr) + of_nat (length (st_Actions (kp_State kpr))), st_Actions := [] \<rparr>"
  by (auto simp: runActions_def result_bind_Inr_iff)

lemma restart_state:
  fixes kpr :: "('g1, 'g2, 'sk, 'ek, 'dk) Keyper"
  assumes inv: "keyper_inv log kpr" and stored: "kp_StateFile kpr = Some (st, w)"
  shows "\<exists>kpr'. restart_keyper world kpr = Inr kpr' \<and> keyper_inv log kpr' \<and> kp_World kpr' = world \<and>
    kp_Config kpr' = kp_Config kpr \<and> kp_StateFile kpr' = kp_StateFile kpr \<and>
    kp_State kpr' = (gob_State st) \<lparr>
      st_SyncHeight := (if st_SyncHeight st = 0 \<and> 0 < sint (sh_CurrentBlock (w_Shielder w))
        then sh_CurrentBlock (w_Shielder w) else st_SyncHeight st),
      st_PendingHalfStep := (if st_Actions st = [] \<and> (\<forall>i. GetAction i (re_PendingActions (kp_runenv kpr)) = None)
        then None else st_PendingHalfStep (gob_State st)),
      st_ActionCounter := st_ActionCounter st + of_nat (length (st_Actions st)), st_Actions := [] \<rparr>"
proof -
  let ?p = "re_PendingActions (kp_runenv kpr)"
  obtain kpr' where kpr': "restart_keyper world kpr = Inr kpr'" "keyper_inv log kpr'" using restart_inv [OF inv] by blast
  let ?k0 = "LoadState (Some (st, w)) (NewKeyper (kp_Config kpr)) :: ('g1, 'g2, 'sk, 'ek, 'dk) Keyper"
  let ?block = "sh_CurrentBlock (w_Shielder w)"
  have k0: "kp_State ?k0 = (gob_State st) \<lparr> st_SyncHeight :=
      (if st_SyncHeight st = 0 \<and> 0 < sint ?block then ?block else st_SyncHeight st) \<rparr>"
    "kp_Config ?k0 = kp_Config kpr" "kp_StateFile ?k0 = Some (st, w)"
    by (simp_all add: LoadState_def NewKeyper_def Let_def gob_State_def)
  from kpr'(1) obtain have_pending env where load: "Load ?p (kp_runenv ?k0) = Inr (have_pending, env)"
    by (auto simp: restart_keyper_def start_Run_def stored Let_def result_bind_Inr_iff)
  note pend = Load_havePending [OF load]
  define k1 where "k1 = ?k0 \<lparr> kp_World := world, kp_runenv := env \<rparr>"
  define k2 where "k2 = (if \<not> have_pending \<and> st_Actions (kp_State k1) = [] \<and> st_PendingHalfStep (kp_State k1) \<noteq> None
      then k1 \<lparr> kp_State := (kp_State k1) \<lparr> st_PendingHalfStep := None \<rparr> \<rparr> else k1)"
  have "restart_keyper world kpr = (if st_Actions (kp_State k2) \<noteq> [] then runActions k2 else Inr k2)"
    using load by (simp add: restart_keyper_def start_Run_def stored Let_def k1_def k2_def)
  with kpr'(1) have run: "(if st_Actions (kp_State k2) \<noteq> [] then runActions k2 else Inr k2) = Inr kpr'" by simp
  have k2: "kp_State k2 = (kp_State ?k0) \<lparr> st_PendingHalfStep :=
      (if st_Actions st = [] \<and> (\<forall>i. GetAction i ?p = None) then None else st_PendingHalfStep (gob_State st)) \<rparr>"
    unfolding k2_def k1_def using k0(1) pend by auto
  have "kp_World kpr' = world \<and> kp_Config kpr' = kp_Config kpr \<and> kp_StateFile kpr' = kp_StateFile kpr \<and>
      kp_State kpr' = (kp_State k2) \<lparr>
        st_ActionCounter := st_ActionCounter st + of_nat (length (st_Actions st)), st_Actions := [] \<rparr>"
  proof -
    have k2': "kp_World k2 = world" "kp_Config k2 = kp_Config kpr" "kp_StateFile k2 = kp_StateFile kpr"
      "st_Actions (kp_State k2) = st_Actions st" "st_ActionCounter (kp_State k2) = st_ActionCounter st"
      using k0 stored k2 by (simp_all add: k2_def k1_def)
    with run show ?thesis by (auto dest!: runActions_fields split: if_splits)
  qed
  with kpr' k0(1) k2 show ?thesis by (intro exI [of _ kpr']) simp
qed

text \<open>
  C8: A crash costs a keyper nothing it had decided. Let it end right after it saved its state, or at any time
  after it ran the actions, with any work of the action workers in between: the restart succeeds, and the new
  process has the state the old one had after the step, as gob decodes it, except that a sync height of 0 is
  replaced by the block of the saved view, and that the pending half step is forgotten when no action is pending.
\<close>

theorem restart_resumes_step:
  fixes kpr :: "('g1, 'g2, 'sk, 'ek, 'dk) Keyper"
  assumes "keyper_run B E P log kpr" "decide_and_save R B E kpr = Inr saved"
    and "length log + length (st_Actions (kp_State saved)) < 2 ^ 64" "runActions saved = Inr after"
    and "(worker_step B E P)\<^sup>*\<^sup>* (kp_runenv after) env" "crashed \<in> {saved, after \<lparr> kp_runenv := env \<rparr>}"
  shows "\<exists>kpr'. restart_keyper world crashed = Inr kpr' \<and> kp_World kpr' = world \<and> kp_Config kpr' = kp_Config kpr \<and>
    kp_State kpr' = (gob_State (kp_State after)) \<lparr>
      st_SyncHeight := (let block = sh_CurrentBlock (w_Shielder (kp_World after)) in
        if st_SyncHeight (kp_State after) = 0 \<and> 0 < sint block then block else st_SyncHeight (kp_State after)),
      st_PendingHalfStep := (if st_Actions (kp_State saved) = [] \<and>
          (\<forall>i. GetAction i (re_PendingActions (kp_runenv crashed)) = None)
        then None else st_PendingHalfStep (gob_State (kp_State after))) \<rparr>"
proof -
  have run: "keyper_run B E P (log @ st_Actions (kp_State saved)) saved" by (rule kr_decide [OF assms(1-3)])
  have stored: "kp_StateFile saved = Some (kp_State saved, kp_World saved)" "kp_Config saved = kp_Config kpr"
    using assms(2) by (auto simp: decide_and_save_def keyper_decide_def saveState_def result_bind_Inr_iff split: if_splits)
  note run2 = kr_actions [OF run assms(4)]
  have workers: "keyper_run B E P (log @ st_Actions (kp_State saved)) (after \<lparr> kp_runenv := env \<rparr>)"
    using assms(5)
  proof (induction rule: rtranclp_induct)
    case base
    with run2 show ?case by simp
  next
    case (step env1 env2)
    from kr_worker [OF step.IH] step.hyps(2) show ?case by simp
  qed
  note after = runActions_fields [OF assms(4)]
  have "kp_StateFile crashed = Some (kp_State saved, kp_World saved)" "kp_Config crashed = kp_Config kpr"
    and "keyper_inv (log @ st_Actions (kp_State saved)) crashed"
    using assms(6) stored after keyper_run_inv [OF run] keyper_run_inv [OF workers] by auto
  from restart_state [OF this(3,1), of world] this(2) after show ?thesis
    by (auto simp: Let_def gob_State_def)
qed

theorem restart_resumes_step_witness:
  "\<exists>saved after kpr'. decide_and_save small_choices bn5 small_eth small_keyper = Inr saved \<and> runActions saved = Inr after \<and>
     restart_keyper (kp_World small_keyper) saved = Inr kpr' \<and> kp_State kpr' = gob_State (kp_State after) \<and>
     st_ActionCounter (kp_State kpr') = 1 \<and> st_SyncHeight (kp_State kpr') = 5"
proof -
  have "case decide_and_save small_choices bn5 small_eth small_keyper of Inl e \<Rightarrow> False
      | Inr saved \<Rightarrow> length (st_Actions (kp_State saved)) = 1 \<and> st_SyncHeight (kp_State saved) = 5 \<and>
          st_ActionCounter (kp_State saved) = 0"
    by code_simp
  then obtain saved where saved: "decide_and_save small_choices bn5 small_eth small_keyper = Inr saved"
    "length (st_Actions (kp_State saved)) = 1" "st_SyncHeight (kp_State saved) = 5" "st_ActionCounter (kp_State saved) = 0"
    by (auto split: sum.splits)
  from kr_decide [OF small_keyper_run saved(1)] saved(2)
  have run: "keyper_run bn5 small_eth small_proto (st_Actions (kp_State saved)) saved" by simp
  obtain after where after: "runActions saved = Inr after" using runActions_inv [OF keyper_run_inv [OF run]] by blast
  note fields = runActions_fields [OF after]
  have acts: "st_Actions (kp_State saved) \<noteq> []" using saved(2) by auto
  from restart_resumes_step [OF small_keyper_run saved(1) _ after rtranclp.rtrancl_refl, of saved "kp_World small_keyper"]
  obtain kpr' where kpr': "restart_keyper (kp_World small_keyper) saved = Inr kpr'"
    "kp_State kpr' = (gob_State (kp_State after)) \<lparr> st_SyncHeight := 5,
       st_PendingHalfStep := st_PendingHalfStep (gob_State (kp_State after)) \<rparr>"
    using saved fields acts by (auto simp: Let_def)
  moreover from kpr'(2) saved fields have "kp_State kpr' = gob_State (kp_State after)" by simp
  ultimately show ?thesis using saved after fields by simp
qed

section \<open>Restarts while a key generation is dealing\<close>

text \<open>A nil \<open>Gammas\<close> comes back as what \<open>GobDecode\<close> makes of the bytes that \<open>GobEncode\<close> writes for it.\<close>

lemma gob_Gammas_roundtrip:
  "bn_ok B \<Longrightarrow> Gammas_GobDecode B [] (Gammas_GobEncode B g) = Some (Inr (the (gob_Gammas g)))"
  by (cases g) (simp_all add: Gammas_GobEncode_def gob_Gammas_def Gammas_GobDecode_append
      Gammas_GobDecode_append [of B "[]" "[]", simplified])

lemma kept_filled: "kept xs ys \<Longrightarrow> None \<notin> set xs \<Longrightarrow> ys = xs"
  unfolding kept_def by (intro nth_equalityI) (auto simp: set_conv_nth)

lemma gob_PureDKG_filled: "None \<notin> set (pd_Commitments (gob_PureDKG pure)) \<and> None \<notin> set (pd_Evals (gob_PureDKG pure))"
  by (auto simp: gob_PureDKG_def gob_Gammas_def gob_Int_def)

text \<open>Nothing that is dealt is taken any more.\<close>

lemma after_gob:
  assumes "dkg_run B (gob_PureDKG pure0) pure"
  shows "pd_Commitments pure = map gob_Gammas (pd_Commitments pure0)" "pd_Threshold pure = pd_Threshold pure0"
    and "\<exists>e. HandlePolyCommitmentMsg pc pure = Inl e" "\<exists>e. HandlePolyEvalMsg B pe pure = Inl e"
proof -
  have r: "recorded (gob_PureDKG pure0) pure" by (rule dkg_run_recorded [OF assms])
  then have same: "pd_Commitments pure = pd_Commitments (gob_PureDKG pure0)" "pd_Evals pure = pd_Evals (gob_PureDKG pure0)"
    using gob_PureDKG_filled [of pure0] by (simp_all add: recorded_def kept_filled)
  then show "pd_Commitments pure = map gob_Gammas (pd_Commitments pure0)" by (simp add: gob_PureDKG_def)
  show "pd_Threshold pure = pd_Threshold pure0" using r by (simp add: recorded_def gob_PureDKG_def)
  have "None \<notin> set (pd_Commitments pure)" "None \<notin> set (pd_Evals pure)" using gob_PureDKG_filled [of pure0] same by simp_all
  then show "\<exists>e. HandlePolyCommitmentMsg pc pure = Inl e" "\<exists>e. HandlePolyEvalMsg B pe pure = Inl e"
    by (rule_tac [!] Inl_if_no_Inr) (auto simp: Handle_Inr in_set_conv_nth)
qed

lemma ComputeResult_excludes:
  assumes "ComputeResult O' B pure = Inr r" "dealer < pd_NumKeypers pure"
    and "unat dealer < length (pd_Commitments pure)" "pd_Commitments pure ! unat dealer = Some []" "pd_Threshold pure \<noteq> 0"
  shows "isCorrupt B pure dealer = Inr True"
proof -
  obtain parts where "collect (dealer_part O' B pure) (upto64 (pd_NumKeypers pure)) = Inr parts"
    using ComputeResult_Inr [OF assms(1)] by blast
  moreover have "dealer \<in> set (upto64 (pd_NumKeypers pure))" using assms(2) by (simp add: set_upto64)
  ultimately have "\<exists>x. dealer_part O' B pure dealer = Inr x"
    by (auto simp: collect_Inr_iff list_all2_conv_all_nth set_conv_nth simp del: split_paired_Ex)
  then obtain x where x: "dealer_part O' B pure dealer = Inr x" ..
  have "\<not> VerifyPolyEval B i e [] (pd_Threshold pure)" for i e
    using assms(5) by (simp add: VerifyPolyEval_def Gammas_Degree_def)
  with x assms(3,4) show ?thesis
    by (auto simp: dealer_part_def isCorrupt_def index_at_def split: result_bind_splits if_splits option.splits)
qed

text \<open>
  C38: A keyper that restarts while a key generation is dealing spoils it: from then on its instance takes no
  polynomial commitment and no evaluation any more, whatever comes, because every missing entry was decoded as
  an empty one; and if it finishes at all, every dealer whose commitment had not arrived before the state was
  saved counts as corrupt, so this keyper's result leaves out dealers that the other keypers include.
\<close>

theorem restart_spoils_key_generation:
  assumes "keyper_run B E P log kpr" "kp_StateFile kpr = Some (st, w)" "dkg \<in> set (st_DKGs st)"
  shows "\<exists>kpr' dkg'. restart_keyper world kpr = Inr kpr' \<and> dkg' \<in> set (st_DKGs (kp_State kpr')) \<and>
    dg_Eon dkg' = dg_Eon dkg \<and> dg_Keypers dkg' = dg_Keypers dkg \<and>
    (\<forall>pure. dkg_run B (dg_Pure dkg') pure \<longrightarrow>
       (\<forall>msg. \<exists>e. HandlePolyCommitmentMsg msg pure = Inl e) \<and> (\<forall>msg. \<exists>e. HandlePolyEvalMsg B msg pure = Inl e) \<and>
       (\<forall>O' r dealer. ComputeResult O' B pure = Inr r \<and> pd_Threshold pure \<noteq> 0 \<and> dealer < pd_NumKeypers pure \<and>
          pd_Commitments (dg_Pure dkg) ! unat dealer = None \<and> unat dealer < length (pd_Commitments (dg_Pure dkg)) \<longrightarrow>
          isCorrupt B pure dealer = Inr True))"
proof -
  obtain kpr' where kpr': "restart_keyper world kpr = Inr kpr'" "st_DKGs (kp_State kpr') = map gob_DKG (st_DKGs st)"
    using restart_state [OF keyper_run_inv [OF assms(1)] assms(2), of world] by auto
  have "\<forall>pure. dkg_run B (dg_Pure (gob_DKG dkg)) pure \<longrightarrow>
       (\<forall>msg. \<exists>e. HandlePolyCommitmentMsg msg pure = Inl e) \<and> (\<forall>msg. \<exists>e. HandlePolyEvalMsg B msg pure = Inl e) \<and>
       (\<forall>O' r dealer. ComputeResult O' B pure = Inr r \<and> pd_Threshold pure \<noteq> 0 \<and> dealer < pd_NumKeypers pure \<and>
          pd_Commitments (dg_Pure dkg) ! unat dealer = None \<and> unat dealer < length (pd_Commitments (dg_Pure dkg)) \<longrightarrow>
          isCorrupt B pure dealer = Inr True)"
  proof (intro allI impI)
    fix pure assume "dkg_run B (dg_Pure (gob_DKG dkg)) pure"
    then have run: "dkg_run B (gob_PureDKG (dg_Pure dkg)) pure" by (simp add: gob_DKG_def)
    have "ComputeResult O' B pure = Inr r \<and> pd_Threshold pure \<noteq> 0 \<and> dealer < pd_NumKeypers pure \<and>
        pd_Commitments (dg_Pure dkg) ! unat dealer = None \<and> unat dealer < length (pd_Commitments (dg_Pure dkg)) \<longrightarrow>
        isCorrupt B pure dealer = Inr True" for O' r dealer
      by (intro impI ComputeResult_excludes) (auto simp: after_gob(1) [OF run] gob_Gammas_def)
    with after_gob(3,4) [OF run] show "(\<forall>msg. \<exists>e. HandlePolyCommitmentMsg msg pure = Inl e) \<and>
        (\<forall>msg. \<exists>e. HandlePolyEvalMsg B msg pure = Inl e) \<and>
        (\<forall>O' r dealer. ComputeResult O' B pure = Inr r \<and> pd_Threshold pure \<noteq> 0 \<and> dealer < pd_NumKeypers pure \<and>
          pd_Commitments (dg_Pure dkg) ! unat dealer = None \<and> unat dealer < length (pd_Commitments (dg_Pure dkg)) \<longrightarrow>
          isCorrupt B pure dealer = Inr True)" by blast
  qed
  moreover have "gob_DKG dkg \<in> set (st_DKGs (kp_State kpr'))" using assms(3) kpr'(2) by simp
  moreover have "dg_Eon (gob_DKG dkg) = dg_Eon dkg" "dg_Keypers (gob_DKG dkg) = dg_Keypers dkg"
    by (simp_all add: gob_DKG_def)
  ultimately show ?thesis using kpr'(1) by blast
qed

text \<open>The keyper that has dealt for the eon of the shielder, and has not seen the commitment of keyper 1.\<close>

theorem restart_spoils_key_generation_witness:
  "\<exists>kpr kpr' dkg'. decide_and_save small_choices bn5 small_eth (small_keyper \<lparr> kp_World :=
       \<lparr> w_Shielder = small_sh \<lparr> sh_Eons := [small_eon] \<rparr>, w_MainChain = small_mc \<rparr> \<rparr>) = Inr kpr \<and>
     (\<forall>dkg\<in>set (st_DKGs (kp_State kpr)). pd_Phase (dg_Pure dkg) = Dealing \<and> pd_Commitments (dg_Pure dkg) = [None, None]) \<and>
     restart_keyper (kp_World kpr) kpr = Inr kpr' \<and> dkg' \<in> set (st_DKGs (kp_State kpr')) \<and>
     (\<forall>msg. \<exists>e. HandlePolyCommitmentMsg msg (dg_Pure dkg') = Inl e)"
proof -
  let ?kpr0 = "small_keyper \<lparr> kp_World := \<lparr> w_Shielder = small_sh \<lparr> sh_Eons := [small_eon] \<rparr>, w_MainChain = small_mc \<rparr> \<rparr>"
  have "case decide_and_save small_choices bn5 small_eth ?kpr0 of Inl e \<Rightarrow> False
      | Inr kpr \<Rightarrow> map (\<lambda>dkg. (pd_Phase (dg_Pure dkg), pd_Commitments (dg_Pure dkg))) (st_DKGs (kp_State kpr)) =
          [(Dealing, [None, None])] \<and> length (st_Actions (kp_State kpr)) < 10"
    by code_simp
  then obtain kpr where kpr: "decide_and_save small_choices bn5 small_eth ?kpr0 = Inr kpr"
    "map (\<lambda>dkg. (pd_Phase (dg_Pure dkg), pd_Commitments (dg_Pure dkg))) (st_DKGs (kp_State kpr)) = [(Dealing, [None, None])]"
    "length (st_Actions (kp_State kpr)) < 10"
    by (auto split: sum.splits)
  from kpr(2) obtain dkg where dkg: "st_DKGs (kp_State kpr) = [dkg]" "pd_Phase (dg_Pure dkg) = Dealing"
    "pd_Commitments (dg_Pure dkg) = [None, None]" by (auto simp: map_eq_Cons_conv)
  have "keyper_run bn5 small_eth small_proto [] ?kpr0" by (rule kr_world [OF small_keyper_run])
  from kr_decide [OF this kpr(1)] kpr(3) have run: "keyper_run bn5 small_eth small_proto (st_Actions (kp_State kpr)) kpr" by simp
  have "kp_StateFile kpr = Some (kp_State kpr, kp_World kpr)"
    using kpr(1) by (auto simp: decide_and_save_def keyper_decide_def saveState_def result_bind_Inr_iff split: if_splits)
  from restart_spoils_key_generation [OF run this, of dkg "kp_World kpr"] dkg(1) obtain kpr' dkg' where
    "restart_keyper (kp_World kpr) kpr = Inr kpr'" "dkg' \<in> set (st_DKGs (kp_State kpr'))"
    "\<forall>msg. \<exists>e. HandlePolyCommitmentMsg msg (dg_Pure dkg') = Inl e"
    using dkg_run_refl by fastforce
  with kpr(1) dkg show ?thesis by auto
qed

end
