(* ===== verification/Filtering.thy ===== *)
theory Filtering
  imports ObserveFacts
begin

text \<open>
  What a keyper's view of the shuttermint chain loses when old events are filtered out of it: two views
  agree from a height on when they differ in earlier events only. Later events, and filters that do not
  reach that height, keep the agreement, so filtering now or later makes no difference to a reader that
  starts at that height.
\<close>

section \<open>Views that agree from a height on\<close>

definition later :: "int \<Rightarrow> ('e \<Rightarrow> i64) \<Rightarrow> 'e list \<Rightarrow> 'e list" where
  "later h height evs = filter (\<lambda>e. h \<le> sint (height e)) evs"

text \<open>Epoch secret key shares, which a filter drops altogether, have a bound of their own.\<close>

definition eon_agrees :: "int \<Rightarrow> int \<Rightarrow> ('g1, 'g2) Eon \<Rightarrow> ('g1, 'g2) Eon \<Rightarrow> bool" where
  "eon_agrees h k a b \<longleftrightarrow>
     eo_Eon b = eo_Eon a \<and> eo_StartHeight b = eo_StartHeight a \<and> eo_StartEvent b = eo_StartEvent a \<and>
     later h pc_Height (eo_Commitments b) = later h pc_Height (eo_Commitments a) \<and>
     later h pe_Height (eo_PolyEvals b) = later h pe_Height (eo_PolyEvals a) \<and>
     later h acc_Height (eo_Accusations b) = later h acc_Height (eo_Accusations a) \<and>
     later h apo_Height (eo_Apologies b) = later h apo_Height (eo_Apologies a) \<and>
     later k sks_Height (eo_EpochSecretKeyShares b) = later k sks_Height (eo_EpochSecretKeyShares a)"

definition agrees_from :: "int \<Rightarrow> int \<Rightarrow> ('g1, 'g2, 'ek) Shielder \<Rightarrow> ('g1, 'g2, 'ek) Shielder \<Rightarrow> bool" where
  "agrees_from h k full sh \<longleftrightarrow>
     sh_BatchConfigs sh = sh_BatchConfigs full \<and> sh_KeyperEncryptionKeys sh = sh_KeyperEncryptionKeys full \<and>
     list_all2 (eon_agrees h k) (sh_Eons full) (sh_Eons sh)"

lemma later_append: "later h f (xs @ ys) = later h f xs @ later h f ys"
  by (simp add: later_def)

lemma later_later: "h \<le> h' \<Longrightarrow> later h' f (later h f evs) = later h' f evs"
  unfolding later_def by (rule filter_later)

lemma later_above: "below c f evs \<Longrightarrow> sint c < k \<Longrightarrow> later k f evs = []"
  unfolding later_def below_def by (rule filter_False) fastforce

lemma later_mono: "later h f xs = later h f ys \<Longrightarrow> h \<le> h' \<Longrightarrow> later h' f xs = later h' f ys"
  by (metis later_later)

lemma eon_agrees_refl [simp]: "eon_agrees h k a a"
  by (simp add: eon_agrees_def)

lemma eon_agrees_mono: "eon_agrees h k a b \<Longrightarrow> h \<le> h' \<Longrightarrow> k \<le> k' \<Longrightarrow> eon_agrees h' k' a b"
  unfolding eon_agrees_def by (auto intro: later_mono)

lemma agrees_from_refl [simp]: "agrees_from h k sh sh"
  by (simp add: agrees_from_def list.rel_refl)

lemma agrees_from_mono: "agrees_from h k full sh \<Longrightarrow> h \<le> h' \<Longrightarrow> k \<le> k' \<Longrightarrow> agrees_from h' k' full sh"
  unfolding agrees_from_def by (auto intro: eon_agrees_mono list.rel_mono_strong)

lemma agrees_from_cong:
  "sh_BatchConfigs sh' = sh_BatchConfigs sh \<Longrightarrow> sh_KeyperEncryptionKeys sh' = sh_KeyperEncryptionKeys sh \<Longrightarrow>
   sh_Eons sh' = sh_Eons sh \<Longrightarrow> agrees_from h k full sh' = agrees_from h k full sh"
  by (simp add: agrees_from_def)

section \<open>Events keep the agreement\<close>

lemma sort_Search_loop_cong:
  "(\<forall>a<j. f a = g a) \<Longrightarrow> sort_Search_loop i j f = sort_Search_loop i j g"
proof (induction i j f rule: sort_Search_loop.induct)
  case (1 i j f)
  show ?case
  proof (cases "i < j")
    case True
    let ?h = "(i + j) div 2"
    have "?h < j" using True by simp
    with "1.prems" have "f ?h = g ?h" "\<forall>a<?h. f a = g a" by auto
    with "1.IH" [OF True refl] "1.prems" True show ?thesis
      by (simp add: sort_Search_loop.simps [of i j] Let_def)
  qed (simp add: sort_Search_loop.simps [of i j])
qed

lemma agrees_searchEon:
  assumes "agrees_from h k full sh"
  shows "searchEon sh n = searchEon full n" "FindEon sh n = FindEon full n"
proof -
  have eons: "length (sh_Eons sh) = length (sh_Eons full)"
    "\<And>i. i < length (sh_Eons full) \<Longrightarrow> eo_Eon (sh_Eons sh ! i) = eo_Eon (sh_Eons full ! i)"
    using assms by (simp_all add: agrees_from_def list_all2_conv_all_nth eon_agrees_def)
  show s: "searchEon sh n = searchEon full n"
    unfolding searchEon_def sort_Search_def eons(1) by (rule sort_Search_loop_cong) (simp add: eons(2))
  have "searchEon full n \<le> length (sh_Eons full)" unfolding searchEon_def by (rule sort_Search_le)
  then show "FindEon sh n = FindEon full n"
    unfolding FindEon_def s eons(1) Let_def by (cases "searchEon full n = length (sh_Eons full)") (simp_all add: eons(2))
qed

text \<open>Whether an event is accepted depends on the eons only, so both views accept it or none does.\<close>

lemma agrees_append:
  assumes "agrees_from h k full sh" "\<And>a b. eon_agrees h k a b \<Longrightarrow> eon_agrees h k (f a) (f b)"
  shows "rel_sum (=) (agrees_from h k) (append_to_eon n f full) (append_to_eon n f sh)"
proof (cases "FindEon full n")
  case (Inl e)
  with agrees_searchEon(2) [OF assms(1), of n] show ?thesis by (simp add: append_to_eon_def)
next
  case (Inr i)
  from assms(1) have all: "list_all2 (eon_agrees h k) (sh_Eons full) (sh_Eons sh)" by (simp add: agrees_from_def)
  have "list_all2 (eon_agrees h k) ((sh_Eons full)[i := f (sh_Eons full ! i)]) ((sh_Eons sh)[i := f (sh_Eons sh ! i)])"
  proof (cases "i < length (sh_Eons full)")
    case True
    with all have "eon_agrees h k (sh_Eons full ! i) (sh_Eons sh ! i)" by (rule list_all2_nthD)
    then show ?thesis by (intro list_all2_update_cong all assms(2))
  next
    case False
    with all show ?thesis using list_all2_lengthD [OF all] by (simp add: list_update_beyond)
  qed
  with Inr agrees_searchEon(2) [OF assms(1), of n] assms(1) show ?thesis
    by (simp add: append_to_eon_def agrees_from_def)
qed

lemma agrees_apply_to:
  assumes "agrees_from h k full sh"
  shows "rel_sum (=) (agrees_from h k) (apply_to ev full) (apply_to ev sh)"
proof (cases ev)
  case (EvEonStarted e)
  have "length (sh_Eons sh) = length (sh_Eons full)"
    using assms list_all2_lengthD [of "eon_agrees h k"] by (fastforce simp: agrees_from_def)
  with EvEonStarted assms agrees_searchEon(1) [OF assms, of "es_Eon e"] show ?thesis
    by (auto simp: applyEonStarted_def Let_def agrees_from_def intro!: list_all2_appendI)
next
  case (EvCheckIn e)
  with assms show ?thesis by (simp add: applyCheckIn_def agrees_from_def)
next
  case (EvBatchConfig e)
  with assms show ?thesis by (simp add: applyBatchConfig_def agrees_from_def)
next
  case (EvDecryptionSignature e)
  with assms show ?thesis by (simp add: applyDecryptionSignature_eq agrees_from_def)
next
  case (EvPolyCommitment e)
  show ?thesis unfolding EvPolyCommitment apply_to.simps applyPolyCommitment_def
    by (rule agrees_append [OF assms]) (simp add: eon_agrees_def later_append)
next
  case (EvPolyEval e)
  show ?thesis unfolding EvPolyEval apply_to.simps applyPolyEval_def
    by (rule agrees_append [OF assms]) (simp add: eon_agrees_def later_append)
next
  case (EvAccusation e)
  show ?thesis unfolding EvAccusation apply_to.simps applyAccusation_def
    by (rule agrees_append [OF assms]) (simp add: eon_agrees_def later_append)
next
  case (EvApology e)
  show ?thesis unfolding EvApology apply_to.simps applyApology_def
    by (rule agrees_append [OF assms]) (simp add: eon_agrees_def later_append)
next
  case (EvEpochSecretKeyShare e)
  show ?thesis unfolding EvEpochSecretKeyShare apply_to.simps applyEpochSecretKeyShare_def
    by (rule agrees_append [OF assms]) (simp add: eon_agrees_def later_append)
qed

lemma agrees_applyEvent: "agrees_from h k full sh \<Longrightarrow> agrees_from h k (applyEvent ev full) (applyEvent ev sh)"
  using agrees_apply_to [of h k full sh ev] unfolding applyEvent_def by (auto elim: rel_sum.cases split: sum.split)

lemma agrees_applyTxEvents:
  "agrees_from h k full sh \<Longrightarrow> agrees_from h k (applyTxEvents B E c evs full) (applyTxEvents B E c evs sh)"
proof (induction evs arbitrary: full sh)
  case (Cons ev evs)
  show ?case by (cases "MakeEvent B E ev c") (simp_all add: Cons agrees_applyEvent)
qed simp

lemma agrees_apply_txs: "agrees_from h k full sh \<Longrightarrow> agrees_from h k (apply_txs B E txs full) (apply_txs B E txs sh)"
  by (induction txs arbitrary: full sh) (simp_all add: apply_txs_def agrees_applyTxEvents)

section \<open>Filters keep the agreement\<close>

lemma eon_agrees_filter:
  assumes "eon_agrees h k a b" "eon_ok c b" "sint f \<le> h" "sint c < k" "eon_ok c a"
  shows "eon_agrees h k a (Eon_ApplyFilter f b)"
proof -
  have "later k sks_Height (eo_EpochSecretKeyShares a) = []"
    using assms(4,5) by (intro later_above [of c]) (simp_all add: eon_ok_def ordered_events_def)
  with assms(1,3) show ?thesis
    unfolding Eon_ApplyFilter_eq [OF assms(2)] eon_agrees_def by (simp add: later_def filter_later del: filter_filter)
qed

lemma agrees_ApplyFilter:
  assumes "agrees_from h k full sh" "sh_inv c full" "sh_inv c sh" "sint (flt_SyncHeight flt) \<le> h" "sint c < k"
  shows "agrees_from h k full (ApplyFilter flt sh)"
proof -
  have "list_all2 (eon_agrees h k) (sh_Eons full) (map (Eon_ApplyFilter (flt_SyncHeight flt)) (sh_Eons sh))"
    using assms by (auto simp: agrees_from_def list_all2_conv_all_nth sh_inv_def intro!: eon_agrees_filter)
  with assms(1) show ?thesis by (simp add: agrees_from_def ApplyFilter_simps)
qed

text \<open>A reader that starts at the height of the agreement sees the same in both.\<close>

lemma eon_agrees_reads:
  assumes "eon_agrees (sint h) k a b" "eon_ok c a" "eon_ok c b"
  shows "GetPolyCommitments b h = GetPolyCommitments a h" "GetPolyEvals b h = GetPolyEvals a h"
    "GetAccusations b h = GetAccusations a h" "GetApologies b h = GetApologies a h"
    "k \<le> sint h \<Longrightarrow> GetEpochSecretKeyShares b h = GetEpochSecretKeyShares a h"
proof -
  note sorted = eon_ok_sorted [OF assms(2)] eon_ok_sorted [OF assms(3)]
  note eqs = assms(1) [unfolded eon_agrees_def later_def]
  show "GetPolyCommitments b h = GetPolyCommitments a h" "GetPolyEvals b h = GetPolyEvals a h"
    "GetAccusations b h = GetAccusations a h" "GetApologies b h = GetApologies a h"
    using eqs by (simp_all add: eon_accessors events_from_filter sorted)
  assume "k \<le> sint h"
  moreover have "later k sks_Height (eo_EpochSecretKeyShares b) = later k sks_Height (eo_EpochSecretKeyShares a)"
    using assms(1) by (simp add: eon_agrees_def)
  ultimately have "later (sint h) sks_Height (eo_EpochSecretKeyShares b) =
      later (sint h) sks_Height (eo_EpochSecretKeyShares a)"
    by (rule later_mono [rotated])
  then show "GetEpochSecretKeyShares b h = GetEpochSecretKeyShares a h"
    unfolding GetEpochSecretKeyShares_def events_from_filter [OF sorted(5)] events_from_filter [OF sorted(10)] later_def .
qed

definition same_reads :: "i64 \<Rightarrow> ('g1, 'g2) Eon \<Rightarrow> ('g1, 'g2) Eon \<Rightarrow> bool" where
  "same_reads h a b \<longleftrightarrow>
     eo_Eon b = eo_Eon a \<and> eo_StartEvent b = eo_StartEvent a \<and>
     GetPolyCommitments b h = GetPolyCommitments a h \<and> GetPolyEvals b h = GetPolyEvals a h \<and>
     GetAccusations b h = GetAccusations a h \<and> GetApologies b h = GetApologies a h"

lemma eon_agrees_same_reads:
  assumes "eon_agrees (sint h) k a b" "eon_ok c a" "eon_ok c b"
  shows "same_reads h a b"
proof -
  have "eo_Eon b = eo_Eon a" "eo_StartEvent b = eo_StartEvent a" using assms(1) by (simp_all add: eon_agrees_def)
  with eon_agrees_reads [OF assms] show ?thesis by (simp add: same_reads_def)
qed

lemma agrees_reads:
  assumes "agrees_from (sint h) k full sh" "sh_inv c full" "sh_inv c sh"
  shows "list_all2 (same_reads h) (sh_Eons full) (sh_Eons sh)"
    "k \<le> sint h \<Longrightarrow> list_all2 (\<lambda>a b. GetEpochSecretKeyShares b h = GetEpochSecretKeyShares a h) (sh_Eons full) (sh_Eons sh)"
proof -
  have all: "list_all2 (eon_agrees (sint h) k) (sh_Eons full) (sh_Eons sh)" using assms(1) by (simp add: agrees_from_def)
  have ok: "eon_ok c a" "eon_ok c b" if "a \<in> set (sh_Eons full)" "b \<in> set (sh_Eons sh)" for a b
    using assms(2,3) that by (simp_all add: sh_inv_def)
  show "list_all2 (same_reads h) (sh_Eons full) (sh_Eons sh)"
    by (rule list.rel_mono_strong [OF all]) (rule eon_agrees_same_reads [OF _ ok])
  show "list_all2 (\<lambda>a b. GetEpochSecretKeyShares b h = GetEpochSecretKeyShares a h) (sh_Eons full) (sh_Eons sh)" if "k \<le> sint h"
    by (rule list.rel_mono_strong [OF all]) (rule eon_agrees_reads(5) [OF _ ok that])
qed

section \<open>What a filter loses\<close>

text \<open>The shares of a view are all from after a height: what a filter leaves, and what comes later.\<close>

definition shares_after :: "int \<Rightarrow> ('g1, 'g2) Eon \<Rightarrow> bool" where
  "shares_after c eo \<longleftrightarrow> (\<forall>e\<in>set (eo_EpochSecretKeyShares eo). c < sint (sks_Height e))"

lemma append_to_eon_all:
  assumes "append_to_eon n f sh = Inr sh'" "\<forall>eo\<in>set (sh_Eons sh). P eo" "\<And>eo. P eo \<Longrightarrow> P (f eo)"
  shows "\<forall>eo\<in>set (sh_Eons sh'). P eo"
proof -
  from assms(1) obtain i where sh': "sh_Eons sh' = (sh_Eons sh)[i := f (sh_Eons sh ! i)]"
    by (auto simp: append_to_eon_def result_bind_Inr_iff)
  show ?thesis
  proof (cases "i < length (sh_Eons sh)")
    case True
    then have "P (f (sh_Eons sh ! i))" using assms(2,3) by simp
    with assms(2) show ?thesis unfolding sh' using set_update_subset_insert [of "sh_Eons sh" i] by blast
  qed (use assms(2) sh' in \<open>simp add: list_update_beyond\<close>)
qed

lemma shares_after_event:
  assumes "apply_to ev sh = Inr sh'" "\<forall>eo\<in>set (sh_Eons sh). shares_after c eo" "c < sint (event_height ev)"
  shows "\<forall>eo\<in>set (sh_Eons sh'). shares_after c eo"
proof (cases ev)
  case (EvEonStarted e)
  with assms show ?thesis
    by (auto simp: applyEonStarted_def Let_def shares_after_def new_eon_def split: if_splits)
next
  case (EvPolyCommitment e)
  from assms(1) [unfolded EvPolyCommitment apply_to.simps applyPolyCommitment_def] assms(2) show ?thesis
    by (rule append_to_eon_all) (simp add: shares_after_def)
next
  case (EvPolyEval e)
  from assms(1) [unfolded EvPolyEval apply_to.simps applyPolyEval_def] assms(2) show ?thesis
    by (rule append_to_eon_all) (simp add: shares_after_def)
next
  case (EvAccusation e)
  from assms(1) [unfolded EvAccusation apply_to.simps applyAccusation_def] assms(2) show ?thesis
    by (rule append_to_eon_all) (simp add: shares_after_def)
next
  case (EvApology e)
  from assms(1) [unfolded EvApology apply_to.simps applyApology_def] assms(2) show ?thesis
    by (rule append_to_eon_all) (simp add: shares_after_def)
next
  case (EvEpochSecretKeyShare e)
  from assms(1) [unfolded EvEpochSecretKeyShare apply_to.simps applyEpochSecretKeyShare_def] assms(2) show ?thesis
    by (rule append_to_eon_all) (use assms(3) EvEpochSecretKeyShare in \<open>auto simp: shares_after_def\<close>)
qed (use assms in \<open>simp_all add: applyCheckIn_def applyBatchConfig_def applyDecryptionSignature_eq, auto\<close>)

lemma shares_after_events:
  "\<forall>eo\<in>set (sh_Eons sh). shares_after c eo \<Longrightarrow> c < sint h \<Longrightarrow>
   \<forall>eo\<in>set (sh_Eons (applyTxEvents B E h evs sh)). shares_after c eo"
proof (induction evs arbitrary: sh)
  case (Cons ev evs)
  show ?case
  proof (cases "MakeEvent B E ev h")
    case (Inr x)
    have "c < sint (event_height x)" using MakeEvent_height [OF Inr] Cons.prems(2) by simp
    then have "\<forall>eo\<in>set (sh_Eons (applyEvent x sh)). shares_after c eo"
      using shares_after_event [of x sh _ c] Cons.prems(1) by (auto simp: applyEvent_def split: sum.split)
    then have "\<forall>eo\<in>set (sh_Eons (applyTxEvents B E h evs (applyEvent x sh))). shares_after c eo"
      by (rule Cons.IH) (rule Cons.prems(2))
    with Inr show ?thesis by simp
  qed (use Cons in simp)
qed simp

lemma shares_after_txs:
  "\<forall>eo\<in>set (sh_Eons sh). shares_after c eo \<Longrightarrow> \<forall>tx\<in>set txs. c < sint (tx_Height tx) \<Longrightarrow>
   \<forall>eo\<in>set (sh_Eons (apply_txs B E txs sh)). shares_after c eo"
proof (induction txs arbitrary: sh)
  case (Cons tx txs)
  have "\<forall>eo\<in>set (sh_Eons (applyTxEvents B E (tx_Height tx) (tx_Events tx) sh)). shares_after c eo"
    by (rule shares_after_events) (use Cons.prems in simp_all)
  then have "\<forall>eo\<in>set (sh_Eons (apply_txs B E txs (applyTxEvents B E (tx_Height tx) (tx_Events tx) sh))). shares_after c eo"
    by (rule Cons.IH) (use Cons.prems(2) in simp)
  then show ?case by (simp add: apply_txs_def)
qed (simp add: apply_txs_def)

lemma shares_after_filter:
  "NeedsUpdate (sh_Filter sh) flt \<Longrightarrow> \<forall>eo\<in>set (sh_Eons (ApplyFilter flt sh)). shares_after c eo"
  by (auto simp: ApplyFilter_simps Eon_ApplyFilter_def shares_after_def)

end
