(* ===== verification/MainLoop.thy ===== *)
theory MainLoop
  imports Keyper Filtering
begin

text \<open>
  The process of a keyper: \<open>Keyper.Run\<close> (\<open>keyper/keyper.go\<close>) and the two goroutines that follow the chains,
  \<open>SyncMain\<close> and \<open>SyncShielder\<close> (\<open>keyper/observe\<close>). Each goroutine holds the object it last handed over. It hands
  a newer one over through an unbuffered channel, so it waits until the main loop takes it; the main loop
  sends filters back through a channel of three that it never waits for.

  The goroutines and the main loop share objects only to read them; the one exception are the empty batches
  that \<open>getBatchData\<close> adds, so the model copies the objects. Losing a connection and connecting again, and
  the signal that prints the state, change nothing.
\<close>

section \<open>State\<close>

text \<open>
  \<open>ru_mainChain\<close> and \<open>ru_shielder\<close> are the two fields of the local variable \<open>world\<close> while the first of the
  two loops of \<open>Run\<close> waits for both; afterwards the world is that of the keyper. \<open>ru_mainChains\<close> and
  \<open>ru_shielders\<close> are the objects that wait to be taken. \<open>ru_actionsFile\<close> is what \<open>actions.gob\<close> held when the
  process started.
\<close>

record ('g1, 'g2, 'sk, 'ek, 'dk) Process =
  ru_kpr :: "('g1, 'g2, 'sk, 'ek, 'dk) Keyper"
  ru_actionsFile :: "'g2 PendingActions"
  ru_running :: bool
  ru_mainChain :: "MainChain option"
  ru_shielder :: "('g1, 'g2, 'ek) Shielder option"
  ru_SyncMain :: MainChain
  ru_mainChains :: "MainChain option"
  ru_SyncShielder :: "('g1, 'g2, 'ek) Shielder"
  ru_shielders :: "('g1, 'g2, 'ek) Shielder option"
  ru_filter :: "ShielderFilter list"

text \<open>A new process reads \<open>state.gob\<close>, and the goroutines start from the world it holds.\<close>

definition start_process ::
  "'g2 PendingActions \<Rightarrow> ('g1, 'g2, 'sk, 'ek, 'dk) Keyper \<Rightarrow> ('g1, 'g2, 'sk, 'ek, 'dk) Process" where
  "start_process actionsFile old =
     (let kpr = LoadState (kp_StateFile old) (NewKeyper (kp_Config old))
      in \<lparr> ru_kpr = kpr, ru_actionsFile = actionsFile, ru_running = False, ru_mainChain = None, ru_shielder = None,
           ru_SyncMain = w_MainChain (kp_World kpr), ru_mainChains = None,
           ru_SyncShielder = w_Shielder (kp_World kpr), ru_shielders = None, ru_filter = [] \<rparr>)"

text \<open>What \<open>actions.gob\<close> holds: until the pending actions are loaded, what it held at the start.\<close>

definition actions_file :: "('g1, 'g2, 'sk, 'ek, 'dk) Process \<Rightarrow> 'g2 PendingActions" where
  "actions_file s = (if ru_running s then re_PendingActions (kp_runenv (ru_kpr s)) else ru_actionsFile s)"

section \<open>Following the chains\<close>

text \<open>A new block: the case \<open><-headers\<close> of \<open>SyncMain\<close>. An error is logged, a panic ends the process.\<close>

definition SyncMain_block ::
  "main_node \<Rightarrow> ('g1, 'g2, 'sk, 'ek, 'dk) Process \<Rightarrow> ('g1, 'g2, 'sk, 'ek, 'dk) Process result" where
  "SyncMain_block N s =
     (case mc_SyncToHead N (ru_SyncMain s) of
        Inl (Panic p) \<Rightarrow> Inl (Panic p)
      | Inl (Errorf err) \<Rightarrow> Inr s
      | Inr newMainChain \<Rightarrow> Inr (s \<lparr> ru_mainChains := Some newMainChain \<rparr>))"

text \<open>The cases \<open><-events\<close> and \<open>f := <-filter\<close> of \<open>SyncShielder\<close>.\<close>

definition SyncShielder_block ::
  "('g1, 'g2, 'gt) bn256 \<Rightarrow> ('pk, 'sk, 'ek, 'dk) eth \<Rightarrow> tm_client \<Rightarrow> tm_client \<Rightarrow>
   ('g1, 'g2, 'sk, 'ek, 'dk) Process \<Rightarrow> ('g1, 'g2, 'sk, 'ek, 'dk) Process result option" where
  "SyncShielder_block B E C0 C s =
     map_option (\<lambda>r. case r of
         Inl (Panic p) \<Rightarrow> Inl (Panic p)
       | Inl (Errorf err) \<Rightarrow> Inr s
       | Inr newShielder \<Rightarrow> Inr (s \<lparr> ru_shielders := Some newShielder \<rparr>))
     (sh_SyncToHead B E C0 C (ru_SyncShielder s))"

definition SyncShielder_filter :: "('g1, 'g2, 'sk, 'ek, 'dk) Process \<Rightarrow> ('g1, 'g2, 'sk, 'ek, 'dk) Process" where
  "SyncShielder_filter s =
     (case ru_filter s of
        [] \<Rightarrow> s
      | f # rest \<Rightarrow> s \<lparr> ru_SyncShielder := ApplyFilter f (ru_SyncShielder s), ru_filter := rest \<rparr>)"

section \<open>The main loop\<close>

text \<open>\<open>select { case filter <- kpr.State.GetShielderFilter(world.MainChain): default: }\<close>\<close>

definition sendFilter :: "('g1, 'g2, 'sk, 'ek, 'dk) Process \<Rightarrow> ('g1, 'g2, 'sk, 'ek, 'dk) Process" where
  "sendFilter s =
     (if length (ru_filter s) < 3
      then s \<lparr> ru_filter := ru_filter s @ [GetShielderFilter (w_MainChain (kp_World (ru_kpr s))) (kp_State (ru_kpr s))] \<rparr>
      else s)"

text \<open>The second loop, with the world as the new object makes it.\<close>

definition Run_loop ::
  "dec_choices \<Rightarrow> ('g1, 'g2, 'gt) bn256 \<Rightarrow> ('pk, 'sk, 'ek, 'dk) eth \<Rightarrow> ('g1, 'g2, 'ek) World \<Rightarrow>
   ('g1, 'g2, 'sk, 'ek, 'dk) Process \<Rightarrow> ('g1, 'g2, 'sk, 'ek, 'dk) Process result" where
  "Run_loop R B E world s =
     result_bind (runOneStep R B E ((ru_kpr s) \<lparr> kp_World := world \<rparr>)) (\<lambda>kpr.
     Inr (sendFilter (s \<lparr> ru_kpr := kpr \<rparr>)))"

text \<open>The first loop and what follows it, as soon as both objects are there.\<close>

definition Run_start ::
  "('g1, 'g2, 'sk, 'ek, 'dk) Process \<Rightarrow> ('g1, 'g2, 'sk, 'ek, 'dk) Process result" where
  "Run_start s =
     (case (ru_mainChain s, ru_shielder s) of
        (Some mc, Some sh) \<Rightarrow>
          result_bind (start_Run (ru_actionsFile s) \<lparr> w_Shielder = sh, w_MainChain = mc \<rparr> (ru_kpr s)) (\<lambda>kpr.
          Inr (s \<lparr> ru_kpr := kpr, ru_running := True \<rparr>))
      | _ \<Rightarrow> Inr s)"

text \<open>Taking an object: the goroutine goes on with it as the one it last handed over.\<close>

definition take_mainChain ::
  "dec_choices \<Rightarrow> ('g1, 'g2, 'gt) bn256 \<Rightarrow> ('pk, 'sk, 'ek, 'dk) eth \<Rightarrow> MainChain \<Rightarrow>
   ('g1, 'g2, 'sk, 'ek, 'dk) Process \<Rightarrow> ('g1, 'g2, 'sk, 'ek, 'dk) Process result" where
  "take_mainChain R B E mc s0 =
     (let s = s0 \<lparr> ru_SyncMain := mc, ru_mainChains := None \<rparr>
      in if ru_running s then Run_loop R B E ((kp_World (ru_kpr s)) \<lparr> w_MainChain := mc \<rparr>) s
         else Run_start (s \<lparr> ru_mainChain := Some mc \<rparr>))"

definition take_shielder ::
  "dec_choices \<Rightarrow> ('g1, 'g2, 'gt) bn256 \<Rightarrow> ('pk, 'sk, 'ek, 'dk) eth \<Rightarrow> ('g1, 'g2, 'ek) Shielder \<Rightarrow>
   ('g1, 'g2, 'sk, 'ek, 'dk) Process \<Rightarrow> ('g1, 'g2, 'sk, 'ek, 'dk) Process result" where
  "take_shielder R B E sh s0 =
     (let s = s0 \<lparr> ru_SyncShielder := sh, ru_shielders := None \<rparr>
      in if ru_running s then Run_loop R B E ((kp_World (ru_kpr s)) \<lparr> w_Shielder := sh \<rparr>) s
         else Run_start (s \<lparr> ru_shielder := Some sh \<rparr>))"

section \<open>Runs\<close>

text \<open>
  A node that is at \<open>height\<close> of the chain serves its transactions up to there; it may answer a later question
  from a later height.
\<close>

definition node_at :: "tm_tx list \<Rightarrow> i64 \<Rightarrow> tm_client \<Rightarrow> tm_client \<Rightarrow> bool" where
  "node_at chain height C0 C \<longleftrightarrow> Block_LastCommit C0 = Inr (Some height) \<and> sint height < 2 ^ 62 \<and>
     (\<exists>served. node_serves C served \<and> (\<forall>a b. b \<le> sint height \<longrightarrow> in_range a b served = in_range a b chain))"

text \<open>The keyper decides fewer than 2^64 actions altogether.\<close>

definition few_actions ::
  "dec_choices \<Rightarrow> ('g1, 'g2, 'gt) bn256 \<Rightarrow> ('pk, 'sk, 'ek, 'dk) eth \<Rightarrow> ('g1, 'g2, 'sk, 'ek, 'dk) Keyper \<Rightarrow> bool" where
  "few_actions R B E kpr \<longleftrightarrow> (\<forall>kpr'. decide_and_save R B E kpr = Inr kpr' \<longrightarrow>
     unat (st_ActionCounter (kp_State kpr)) + length (st_Actions (kp_State kpr')) < 2 ^ 64)"

text \<open>
  The steps of a process, in any order that the channels allow. The process can end at any time, also between
  saving the state and running its actions; the next one starts from the files.
\<close>

inductive process_run ::
  "('g1, 'g2, 'gt) bn256 \<Rightarrow> ('pk, 'sk, 'ek, 'dk) eth \<Rightarrow> proto \<Rightarrow> tm_tx list \<Rightarrow>
   ('g1, 'g2, 'sk, 'ek, 'dk) Process \<Rightarrow> bool" for B E P chain where
  pr_new: "process_run B E P chain (start_process NewPendingActions (NewKeyper config))"
| pr_main_block: "process_run B E P chain s \<Longrightarrow> ru_mainChains s = None \<Longrightarrow> SyncMain_block N s = Inr s' \<Longrightarrow>
     process_run B E P chain s'"
| pr_shielder_block: "process_run B E P chain s \<Longrightarrow> ru_shielders s = None \<Longrightarrow> node_at chain height C0 C \<Longrightarrow>
     SyncShielder_block B E C0 C s = Some (Inr s') \<Longrightarrow> process_run B E P chain s'"
| pr_filter: "process_run B E P chain s \<Longrightarrow> ru_shielders s = None \<Longrightarrow> process_run B E P chain (SyncShielder_filter s)"
| pr_take_main: "process_run B E P chain s \<Longrightarrow> ru_mainChains s = Some mc \<Longrightarrow>
     few_actions R B E ((ru_kpr s) \<lparr> kp_World := (kp_World (ru_kpr s)) \<lparr> w_MainChain := mc \<rparr> \<rparr>) \<Longrightarrow>
     take_mainChain R B E mc s = Inr s' \<Longrightarrow> process_run B E P chain s'"
| pr_take_shielder: "process_run B E P chain s \<Longrightarrow> ru_shielders s = Some sh \<Longrightarrow>
     few_actions R B E ((ru_kpr s) \<lparr> kp_World := (kp_World (ru_kpr s)) \<lparr> w_Shielder := sh \<rparr> \<rparr>) \<Longrightarrow>
     take_shielder R B E sh s = Inr s' \<Longrightarrow> process_run B E P chain s'"
| pr_worker: "process_run B E P chain s \<Longrightarrow> ru_running s \<Longrightarrow> worker_step B E P (kp_runenv (ru_kpr s)) env \<Longrightarrow>
     process_run B E P chain (s \<lparr> ru_kpr := (ru_kpr s) \<lparr> kp_runenv := env \<rparr> \<rparr>)"
| pr_crash: "process_run B E P chain s \<Longrightarrow> process_run B E P chain (start_process (actions_file s) (ru_kpr s))"
| pr_crash_saved: "process_run B E P chain s \<Longrightarrow> ru_running s \<Longrightarrow>
     w_MainChain world = w_MainChain (kp_World (ru_kpr s)) \<or> ru_mainChains s = Some (w_MainChain world) \<Longrightarrow>
     w_Shielder world = w_Shielder (kp_World (ru_kpr s)) \<or> ru_shielders s = Some (w_Shielder world) \<Longrightarrow>
     few_actions R B E ((ru_kpr s) \<lparr> kp_World := world \<rparr>) \<Longrightarrow>
     decide_and_save R B E ((ru_kpr s) \<lparr> kp_World := world \<rparr>) = Inr kpr \<Longrightarrow>
     process_run B E P chain (start_process (actions_file s) kpr)"

end
