(* ===== verification/MainLoopFacts.thy ===== *)
theory MainLoopFacts
  imports MainLoop KeyperFacts
begin

text \<open>
  Every process of a keyper is a run of the keyper as \<open>keyper_run\<close> describes it, so no action is lost whatever
  the order in which the goroutines and the main loop take their steps.
\<close>

section \<open>A process is a run of the keyper\<close>

lemma LoadState_keeps [simp]:
  "kp_StateFile (LoadState file kpr) = file" "kp_Config (LoadState file kpr) = kp_Config kpr"
  by (auto simp: LoadState_def Let_def split: option.splits)

lemma NewKeyper_fields [simp]:
  "kp_Config (NewKeyper config) = config" "kp_StateFile (NewKeyper config) = None"
  "re_PendingActions (kp_runenv (NewKeyper config)) = NewPendingActions"
  by (simp_all add: NewKeyper_def NewRunEnv_def)

lemma SyncMain_block_cases:
  assumes "SyncMain_block N s = Inr s'"
  obtains "s' = s" | mc where "mc_SyncToHead N (ru_SyncMain s) = Inr mc" "s' = s \<lparr> ru_mainChains := Some mc \<rparr>"
  using assms by (auto simp: SyncMain_block_def split: sum.splits go_error.splits)

lemma SyncShielder_block_cases:
  assumes "SyncShielder_block B E C0 C s = Some (Inr s')"
  obtains "s' = s"
  | sh where "sh_SyncToHead B E C0 C (ru_SyncShielder s) = Some (Inr sh)" "s' = s \<lparr> ru_shielders := Some sh \<rparr>"
proof (cases "sh_SyncToHead B E C0 C (ru_SyncShielder s)")
  case None
  with assms show thesis by (simp add: SyncShielder_block_def)
next
  case (Some r)
  show thesis
  proof (cases r rule: no_panic.cases)
    case (1 p)
    with Some assms show thesis by (simp add: SyncShielder_block_def)
  next
    case (2 e)
    with Some assms have "s' = s" by (simp add: SyncShielder_block_def)
    then show thesis by (rule that(1))
  next
    case (3 sh)
    with Some assms show thesis by (intro that(2) [of sh]) (simp_all add: SyncShielder_block_def)
  qed
qed

text \<open>Before the pending actions are loaded the process stands for the keyper that left the files.\<close>

definition stands_for ::
  "('g1, 'g2, 'sk, 'ek, 'dk) Process \<Rightarrow> ('g1, 'g2, 'sk, 'ek, 'dk) Keyper \<Rightarrow> bool" where
  "stands_for s kpr \<longleftrightarrow>
     (if ru_running s then kpr = ru_kpr s
      else ru_kpr s = LoadState (kp_StateFile kpr) (NewKeyper (kp_Config kpr)) \<and>
        ru_actionsFile s = re_PendingActions (kp_runenv kpr))"

lemma stands_for_start: "stands_for (start_process (re_PendingActions (kp_runenv kpr)) kpr) kpr"
  by (simp add: stands_for_def start_process_def Let_def)

lemma stands_for_crash: "stands_for s kpr \<Longrightarrow> stands_for (start_process (actions_file s) (ru_kpr s)) kpr"
  by (auto simp: stands_for_def start_process_def actions_file_def Let_def split: if_splits)

lemma keyper_run_decides:
  assumes "keyper_run B E P log kpr" "few_actions R B E (kpr \<lparr> kp_World := world \<rparr>)"
    and "decide_and_save R B E (kpr \<lparr> kp_World := world \<rparr>) = Inr kpr'"
  shows "keyper_run B E P (log @ st_Actions (kp_State kpr')) kpr'"
proof (rule kr_decide [OF kr_world [OF assms(1)] assms(3)])
  have "st_Actions (kp_State kpr) = []" using assms(3) by (auto simp: decide_and_save_def split: if_splits)
  with keyper_run_inv [OF assms(1)] have "unat (st_ActionCounter (kp_State kpr)) = length log"
    by (simp add: keyper_inv_def state_fits_def)
  with assms(2,3) show "length log + length (st_Actions (kp_State kpr')) < 2 ^ 64"
    by (auto simp: few_actions_def)
qed

lemma Run_loop_refines:
  assumes "stands_for s kpr" "keyper_run B E P log kpr" "ru_running s"
    and "few_actions R B E ((ru_kpr s) \<lparr> kp_World := world \<rparr>)" "Run_loop R B E world s = Inr s'"
  shows "\<exists>log kpr. keyper_run B E P log kpr \<and> stands_for s' kpr"
proof -
  have kpr: "kpr = ru_kpr s" using assms(1,3) by (simp add: stands_for_def)
  from assms(5) obtain kpr1 kpr2 where
    k: "decide_and_save R B E (kpr \<lparr> kp_World := world \<rparr>) = Inr kpr1" "runActions kpr1 = Inr kpr2"
    and s': "s' = sendFilter (s \<lparr> ru_kpr := kpr2 \<rparr>)"
    by (auto simp: Run_loop_def runOneStep_def kpr result_bind_Inr_iff)
  have "keyper_run B E P (log @ st_Actions (kp_State kpr1)) kpr2"
    by (rule kr_actions [OF keyper_run_decides k(2)]) (use assms(2,4) k(1) kpr in simp_all)
  moreover have "stands_for s' kpr2" using assms(3) by (simp add: stands_for_def s' sendFilter_def)
  ultimately show ?thesis by blast
qed

lemma Run_start_refines:
  assumes "stands_for s kpr" "keyper_run B E P log kpr" "\<not> ru_running s" "Run_start s = Inr s'"
  shows "\<exists>log kpr. keyper_run B E P log kpr \<and> stands_for s' kpr"
proof (cases "s' = s")
  case True
  with assms show ?thesis by blast
next
  case False
  with assms(4) obtain mc sh kpr' where
    "start_Run (ru_actionsFile s) \<lparr> w_Shielder = sh, w_MainChain = mc \<rparr> (ru_kpr s) = Inr kpr'"
    and s': "s' = s \<lparr> ru_kpr := kpr', ru_running := True \<rparr>"
    by (auto simp: Run_start_def result_bind_Inr_iff split: option.splits)
  with assms(1,3) have "restart_keyper \<lparr> w_Shielder = sh, w_MainChain = mc \<rparr> kpr = Inr kpr'"
    by (simp add: restart_keyper_def stands_for_def)
  from kr_restart [OF assms(2) this] s' show ?thesis by (auto simp: stands_for_def)
qed

lemma process_refines: "process_run B E P chain s \<Longrightarrow> \<exists>log kpr. keyper_run B E P log kpr \<and> stands_for s kpr"
proof (induction rule: process_run.induct)
  case (pr_new config)
  from keyper_run.kr_new [of B E P config] stands_for_start [of "NewKeyper config"] show ?case by auto
next
  case (pr_main_block s N s')
  from pr_main_block.hyps(3) have "stands_for s' k \<longleftrightarrow> stands_for s k" for k
    by (cases rule: SyncMain_block_cases) (simp_all add: stands_for_def)
  with pr_main_block.IH show ?case by simp
next
  case (pr_shielder_block s height C0 C s')
  from pr_shielder_block.hyps(4) have "stands_for s' k \<longleftrightarrow> stands_for s k" for k
    by (cases rule: SyncShielder_block_cases) (simp_all add: stands_for_def)
  with pr_shielder_block.IH show ?case by simp
next
  case (pr_filter s)
  have "stands_for (SyncShielder_filter s) k \<longleftrightarrow> stands_for s k" for k
    by (simp add: SyncShielder_filter_def stands_for_def split: list.split)
  with pr_filter.IH show ?case by simp
next
  case (pr_take_main s mc R s')
  from pr_take_main.IH obtain log kpr where k: "keyper_run B E P log kpr" "stands_for s kpr" by blast
  show ?case
  proof (cases "ru_running s")
    case True
    have "stands_for (s \<lparr> ru_SyncMain := mc, ru_mainChains := None \<rparr>) kpr" using k(2) by (simp add: stands_for_def)
    from Run_loop_refines [OF this k(1)] True pr_take_main.hyps show ?thesis
      by (simp add: take_mainChain_def)
  next
    case False
    have "stands_for (s \<lparr> ru_SyncMain := mc, ru_mainChains := None, ru_mainChain := Some mc \<rparr>) kpr"
      using k(2) by (simp add: stands_for_def)
    from Run_start_refines [OF this k(1)] False pr_take_main.hyps show ?thesis by (simp add: take_mainChain_def)
  qed
next
  case (pr_take_shielder s sh R s')
  from pr_take_shielder.IH obtain log kpr where k: "keyper_run B E P log kpr" "stands_for s kpr" by blast
  show ?case
  proof (cases "ru_running s")
    case True
    have "stands_for (s \<lparr> ru_SyncShielder := sh, ru_shielders := None \<rparr>) kpr" using k(2) by (simp add: stands_for_def)
    from Run_loop_refines [OF this k(1)] True pr_take_shielder.hyps show ?thesis by (simp add: take_shielder_def)
  next
    case False
    have "stands_for (s \<lparr> ru_SyncShielder := sh, ru_shielders := None, ru_shielder := Some sh \<rparr>) kpr"
      using k(2) by (simp add: stands_for_def)
    from Run_start_refines [OF this k(1)] False pr_take_shielder.hyps show ?thesis by (simp add: take_shielder_def)
  qed
next
  case (pr_worker s env)
  then obtain log where "keyper_run B E P log (ru_kpr s)" by (auto simp: stands_for_def)
  from kr_worker [OF this pr_worker.hyps(3)] pr_worker.hyps(2) show ?case by (auto simp: stands_for_def)
next
  case (pr_crash s)
  then show ?case using stands_for_crash by blast
next
  case (pr_crash_saved s world R kpr)
  then obtain log where "keyper_run B E P log (ru_kpr s)" by (auto simp: stands_for_def)
  from keyper_run_decides [OF this pr_crash_saved.hyps(5,6)]
  have "keyper_run B E P (log @ st_Actions (kp_State kpr)) kpr" .
  moreover have "kp_runenv kpr = kp_runenv (ru_kpr s)"
    using pr_crash_saved.hyps(6)
    by (auto simp: decide_and_save_def keyper_decide_def saveState_def result_bind_Inr_iff split: if_splits)
  ultimately show ?case using stands_for_start [of kpr] pr_crash_saved.hyps(2) by (auto simp: actions_file_def)
qed

end
