(* ===== verification/MainLoopView.thy ===== *)
theory MainLoopView
  imports MainLoopFacts
begin

text \<open>
  The views of the shuttermint chain that a process holds, in the goroutine, in the channel and in the main
  loop, agree with the chain on every event the keyper has yet to read, although filters drop old events.
\<close>

section \<open>Views of the chain\<close>

text \<open>What a keyper that filters nothing would see of the chain up to a height.\<close>

definition full_view ::
  "('g1, 'g2, 'gt) bn256 \<Rightarrow> ('pk, 'sk, 'ek, 'dk) eth \<Rightarrow> tm_tx list \<Rightarrow> int \<Rightarrow> ('g1, 'g2, 'ek) Shielder" where
  "full_view B E chain c = apply_txs B E (in_range (- 1) c chain) NewShielder"

definition chain_sorted :: "tm_tx list \<Rightarrow> bool" where
  "chain_sorted chain \<longleftrightarrow> sorted (map (\<lambda>tx. sint (tx_Height tx)) chain)"

definition view_ok ::
  "('g1, 'g2, 'gt) bn256 \<Rightarrow> ('pk, 'sk, 'ek, 'dk) eth \<Rightarrow> tm_tx list \<Rightarrow> int \<Rightarrow> int \<Rightarrow>
   ('g1, 'g2, 'ek) Shielder \<Rightarrow> bool" where
  "view_ok B E chain h k sh \<longleftrightarrow>
     - 1 \<le> sint (sh_CurrentBlock sh) \<and> sint (sh_CurrentBlock sh) < 2 ^ 62 \<and> sh_inv (sh_CurrentBlock sh) sh \<and>
     agrees_from h k (full_view B E chain (sint (sh_CurrentBlock sh))) sh"

lemma sorted_in_range: "chain_sorted chain \<Longrightarrow> sorted (map (\<lambda>tx. sint (tx_Height tx)) (in_range a b chain))"
  unfolding chain_sorted_def in_range_def using sorted_filter by blast

lemma full_view_inv:
  assumes "chain_sorted chain" "- 1 \<le> sint c"
  shows "sh_inv c (full_view B E chain (sint c))"
  unfolding full_view_def
  by (rule apply_txs_inv [OF sh_inv_New [of "- 1"] sorted_in_range [OF assms(1)]])
    (use assms(2) in \<open>auto simp: in_range_def\<close>)

lemma full_view_more:
  assumes "chain_sorted chain" "- 1 \<le> c" "c \<le> c'"
  shows "full_view B E chain c' = apply_txs B E (in_range c c' chain) (full_view B E chain c)"
proof -
  have "in_range (- 1) c chain @ in_range c c' chain = in_range (- 1) c' chain"
    by (rule in_range_append) (use assms in \<open>simp_all add: chain_sorted_def\<close>)
  then show ?thesis by (simp add: full_view_def apply_txs_append [symmetric])
qed

lemma view_ok_New:
  fixes B :: "('g1, 'g2, 'gt) bn256" and E :: "('pk, 'sk, 'ek, 'dk) eth"
  shows "view_ok B E chain h k NewShielder"
proof -
  have "in_range (- 1) (- 1) chain = []" by (auto simp: in_range_def filter_empty_conv)
  then have "full_view B E chain (- 1) = NewShielder" by (simp add: full_view_def)
  moreover have "sint (sh_CurrentBlock (NewShielder :: ('g1, 'g2, 'ek) Shielder)) = - 1" by (simp add: NewShielder_def)
  ultimately show ?thesis by (simp add: view_ok_def sh_inv_New)
qed

lemma view_ok_mono: "view_ok B E chain h k sh \<Longrightarrow> h \<le> h' \<Longrightarrow> k \<le> k' \<Longrightarrow> view_ok B E chain h' k' sh"
  unfolding view_ok_def using agrees_from_mono by blast

lemma view_ok_filter:
  assumes "chain_sorted chain" "view_ok B E chain h k sh" "sint (flt_SyncHeight flt) \<le> h" "sint (sh_CurrentBlock sh) < k"
  shows "view_ok B E chain h k (ApplyFilter flt sh)"
  using assms full_view_inv [OF assms(1), of "sh_CurrentBlock sh" B E]
  by (auto simp: view_ok_def ApplyFilter_simps intro!: ApplyFilter_inv agrees_ApplyFilter [where c = "sh_CurrentBlock sh"])

lemma view_ok_same: "view_ok B E chain h k sh \<Longrightarrow> same_shielder sh sh' \<Longrightarrow> view_ok B E chain h k sh'"
  using agrees_from_cong [of sh' sh h k] same_shielder_inv [of "sh_CurrentBlock sh" sh sh']
  by (simp add: view_ok_def same_shielder_fields)

text \<open>A synchronisation applies the transactions between the two blocks.\<close>

lemma sync_applies:
  assumes node: "node_at chain height C0 C" and low: "- 1 \<le> sint (sh_CurrentBlock sh)"
    and sync: "sh_SyncToHead B E C0 C sh = Some (Inr sh')" and new: "height \<noteq> sh_CurrentBlock sh"
  obtains status last where "sint (sh_CurrentBlock sh) \<le> sint height"
    "sh' = apply_txs B E (in_range (sint (sh_CurrentBlock sh)) (sint height) chain) sh
       \<lparr> sh_CurrentBlock := height, sh_LastCommittedHeight := last, sh_NodeStatus := Some status \<rparr>"
proof -
  let ?c = "sh_CurrentBlock sh"
  from node obtain served where served: "node_serves C served"
    "\<And>a b. b \<le> sint height \<Longrightarrow> in_range a b served = in_range a b chain"
    and h: "sint height < 2 ^ 62" "GetLastCommittedHeight C0 = Inr height"
    by (auto simp: node_at_def GetLastCommittedHeight_def)
  have to: "SyncToHeight B E C height sh = Some (Inr sh')"
    using sync new by (simp add: sh_SyncToHead_def h(2))
  then obtain status last clone where fetch: "fetchAndApplyEvents B E C height sh = Some (Inr clone)"
    and sh': "sh' = clone \<lparr> sh_CurrentBlock := height, sh_LastCommittedHeight := last, sh_NodeStatus := Some status \<rparr>"
    by (auto simp: SyncToHeight_def result_bind_Inr_iff split: sum.splits)
  have le: "sint ?c \<le> sint height" using fetch by (auto simp: fetchAndApplyEvents_def split: if_splits)
  have "clone = apply_txs B E (in_range (sint ?c) (sint height) chain) sh"
    using fetch fetchAndApplyEvents_all [OF served(1) h(1) low le, of B E] served(2) by simp
  with le sh' show thesis by (intro that) simp_all
qed

text \<open>A synchronisation of a good view gives a good view of a later height.\<close>

lemma view_ok_sync:
  assumes chain: "chain_sorted chain" and view: "view_ok B E chain h k sh" and node: "node_at chain height C0 C"
    and sync: "sh_SyncToHead B E C0 C sh = Some (Inr sh')"
  shows "view_ok B E chain h k sh' \<and> sint (sh_CurrentBlock sh) \<le> sint (sh_CurrentBlock sh')"
proof (cases "height = sh_CurrentBlock sh")
  case True
  with sync node have "sh' = sh" by (simp add: sh_SyncToHead_def GetLastCommittedHeight_def node_at_def)
  with view show ?thesis by simp
next
  case False
  let ?c = "sh_CurrentBlock sh"
  let ?clone = "apply_txs B E (in_range (sint ?c) (sint height) chain) sh"
  have low: "- 1 \<le> sint ?c" using view by (simp add: view_ok_def)
  obtain status last where le: "sint ?c \<le> sint height" and sh':
    "sh' = ?clone \<lparr> sh_CurrentBlock := height, sh_LastCommittedHeight := last, sh_NodeStatus := Some status \<rparr>"
    by (rule sync_applies [OF node low sync False])
  have "sh_inv height ?clone"
    using view by (intro apply_txs_inv [where h = ?c] sorted_in_range chain) (use le in \<open>auto simp: view_ok_def in_range_def\<close>)
  then have "sh_inv height sh'" by (simp add: sh' sh_inv_def)
  moreover have "agrees_from h k (full_view B E chain (sint height)) ?clone"
    unfolding full_view_more [OF chain low le]
    by (rule agrees_apply_txs) (use view in \<open>simp add: view_ok_def\<close>)
  then have "agrees_from h k (full_view B E chain (sint height)) sh'" by (simp add: sh' agrees_from_def)
  ultimately show ?thesis using node le low by (simp add: view_ok_def sh' node_at_def)
qed

text \<open>So the shares that a filter dropped do not come back.\<close>

lemma shares_after_sync:
  assumes "node_at chain height C0 C" "- 1 \<le> sint (sh_CurrentBlock sh)" "sh_SyncToHead B E C0 C sh = Some (Inr sh')"
    and "\<forall>eo\<in>set (sh_Eons sh). shares_after (sint (sh_CurrentBlock sh)) eo"
  shows "\<forall>eo\<in>set (sh_Eons sh'). shares_after (sint (sh_CurrentBlock sh)) eo"
proof (cases "height = sh_CurrentBlock sh")
  case True
  with assms(1,3) have "sh' = sh" by (simp add: sh_SyncToHead_def GetLastCommittedHeight_def node_at_def)
  with assms(4) show ?thesis by simp
next
  case False
  obtain status last where sh': "sh' = apply_txs B E (in_range (sint (sh_CurrentBlock sh)) (sint height) chain) sh
      \<lparr> sh_CurrentBlock := height, sh_LastCommittedHeight := last, sh_NodeStatus := Some status \<rparr>"
    by (rule sync_applies [OF assms(1,2,3) False])
  have "\<forall>eo\<in>set (sh_Eons (apply_txs B E (in_range (sint (sh_CurrentBlock sh)) (sint height) chain) sh)).
      shares_after (sint (sh_CurrentBlock sh)) eo"
    by (rule shares_after_txs [OF assms(4)]) (simp add: in_range_def)
  then show ?thesis by (simp add: sh')
qed

section \<open>What a decision does to the height\<close>

lemma Decide_height:
  "Decide R B E d = Inr d' \<Longrightarrow>
   st_SyncHeight (dc_State d') = st_SyncHeight (dc_State d) \<or>
   st_SyncHeight (dc_State d') = sh_CurrentBlock (dc_Shielder d') + 1"
  by (auto simp: Decide_def Let_def result_bind_Inr_iff set_state_def split: if_splits)

lemma decide_and_save_spec:
  fixes kpr :: "('g1, 'g2, 'sk, 'ek, 'dk) Keyper"
  assumes "decide_and_save R B E kpr = Inr kpr'"
  shows "same_shielder (w_Shielder (kp_World kpr)) (w_Shielder (kp_World kpr')) \<and>
    w_MainChain (kp_World kpr') = w_MainChain (kp_World kpr) \<and>
    kp_StateFile kpr' = Some (kp_State kpr', kp_World kpr') \<and>
    (st_SyncHeight (kp_State kpr') = st_SyncHeight (kp_State kpr) \<or>
     st_SyncHeight (kp_State kpr') = sh_CurrentBlock (w_Shielder (kp_World kpr)) + 1)"
proof -
  from assms obtain d where d: "Decide R B E (NewDecider kpr) = Inr d"
    and kpr': "kpr' = saveState (kpr \<lparr> kp_World := (kp_World kpr) \<lparr> w_Shielder := dc_Shielder d \<rparr>,
      kp_State := (dc_State d) \<lparr> st_Actions := dc_Actions d \<rparr> \<rparr>)"
    by (auto simp: decide_and_save_def keyper_decide_def result_bind_Inr_iff split: if_splits)
  have same: "same_shielder (w_Shielder (kp_World kpr)) (dc_Shielder d)"
    using postD [OF frame_Decide d] by (simp add: dec_frame_def NewDecider_def)
  with Decide_height [OF d] show ?thesis
    by (auto simp: kpr' saveState_def NewDecider_def same_shielder_fields)
qed

lemma runActions_spec:
  "runActions kpr = Inr kpr' \<Longrightarrow> kp_World kpr' = kp_World kpr \<and> kp_StateFile kpr' = kp_StateFile kpr \<and>
     st_SyncHeight (kp_State kpr') = st_SyncHeight (kp_State kpr)"
  by (auto simp: runActions_def result_bind_Inr_iff)

lemma start_Run_spec:
  "start_Run file world kpr = Inr kpr' \<Longrightarrow> kp_World kpr' = world \<and> kp_StateFile kpr' = kp_StateFile kpr \<and>
     st_SyncHeight (kp_State kpr') = st_SyncHeight (kp_State kpr)"
  by (auto simp: start_Run_def Let_def result_bind_Inr_iff dest!: runActions_spec split: if_splits)

section \<open>The invariant\<close>

abbreviation cur :: "('g1, 'g2, 'ek) Shielder \<Rightarrow> int" where
  "cur sh \<equiv> sint (sh_CurrentBlock sh)"

abbreviation sync_height :: "('g1, 'g2, 'sk, 'ek, 'dk) Keyper \<Rightarrow> int" where
  "sync_height kpr \<equiv> sint (st_SyncHeight (kp_State kpr))"

abbreviation seen :: "('g1, 'g2, 'sk, 'ek, 'dk) Keyper \<Rightarrow> ('g1, 'g2, 'ek) Shielder" where
  "seen kpr \<equiv> w_Shielder (kp_World kpr)"

text \<open>A state and the view it was decided on, in memory or in the file.\<close>

definition state_ok ::
  "('g1, 'g2, 'gt) bn256 \<Rightarrow> ('pk, 'sk, 'ek, 'dk) eth \<Rightarrow> tm_tx list \<Rightarrow> i64 \<Rightarrow> ('g1, 'g2, 'ek) Shielder \<Rightarrow> bool" where
  "state_ok B E chain h sh \<longleftrightarrow> view_ok B E chain (sint h) (cur sh + 1) sh \<and> sint h \<le> cur sh + 1"

definition keyper_view ::
  "('g1, 'g2, 'gt) bn256 \<Rightarrow> ('pk, 'sk, 'ek, 'dk) eth \<Rightarrow> tm_tx list \<Rightarrow> ('g1, 'g2, 'sk, 'ek, 'dk) Keyper \<Rightarrow> bool" where
  "keyper_view B E chain kpr \<longleftrightarrow> state_ok B E chain (st_SyncHeight (kp_State kpr)) (seen kpr) \<and>
     (\<forall>st world. kp_StateFile kpr = Some (st, world) \<longrightarrow> state_ok B E chain (st_SyncHeight st) (w_Shielder world))"

text \<open>
  What the goroutine holds is never older than what the main loop has, no filter reaches a height that the
  keyper has yet to read, and an object that waits to be taken has all shares after the one before it.
\<close>

definition sync_ok ::
  "('g1, 'g2, 'gt) bn256 \<Rightarrow> ('pk, 'sk, 'ek, 'dk) eth \<Rightarrow> tm_tx list \<Rightarrow> int \<Rightarrow>
   ('g1, 'g2, 'sk, 'ek, 'dk) Process \<Rightarrow> bool" where
  "sync_ok B E chain h s \<longleftrightarrow>
     view_ok B E chain h (cur (ru_SyncShielder s) + 1) (ru_SyncShielder s) \<and>
     (\<forall>sh. ru_shielders s = Some sh \<longrightarrow>
        view_ok B E chain h (cur (ru_SyncShielder s) + 1) sh \<and> cur (ru_SyncShielder s) \<le> cur sh) \<and>
     (\<forall>f\<in>set (ru_filter s). sint (flt_SyncHeight f) \<le> h) \<and> length (ru_filter s) \<le> 3"

definition process_view ::
  "('g1, 'g2, 'gt) bn256 \<Rightarrow> ('pk, 'sk, 'ek, 'dk) eth \<Rightarrow> tm_tx list \<Rightarrow> ('g1, 'g2, 'sk, 'ek, 'dk) Process \<Rightarrow> bool" where
  "process_view B E chain s \<longleftrightarrow>
     keyper_view B E chain (ru_kpr s) \<and> sync_ok B E chain (sync_height (ru_kpr s)) s \<and>
     cur (seen (ru_kpr s)) \<le> cur (ru_SyncShielder s) \<and>
     (ru_running s \<longrightarrow> cur (ru_SyncShielder s) = cur (seen (ru_kpr s))) \<and>
     (\<forall>sh. \<not> ru_running s \<and> ru_shielder s = Some sh \<longrightarrow>
        view_ok B E chain (sync_height (ru_kpr s)) (cur (ru_SyncShielder s) + 1) sh \<and> cur sh = cur (ru_SyncShielder s))"

lemma sync_ok_mono: "sync_ok B E chain h s \<Longrightarrow> h \<le> h' \<Longrightarrow> sync_ok B E chain h' s"
  unfolding sync_ok_def using view_ok_mono order_trans by (smt (verit) order_refl)

lemma sync_ok_main [simp]:
  "sync_ok B E chain h (s \<lparr> ru_mainChains := x \<rparr>) = sync_ok B E chain h s"
  "sync_ok B E chain h (s \<lparr> ru_SyncMain := mc \<rparr>) = sync_ok B E chain h s"
  "sync_ok B E chain h (s \<lparr> ru_kpr := kpr \<rparr>) = sync_ok B E chain h s"
  by (simp_all add: sync_ok_def)

lemma process_view_main [simp]:
  "process_view B E chain (s \<lparr> ru_mainChains := x \<rparr>) = process_view B E chain s"
  "process_view B E chain (s \<lparr> ru_SyncMain := mc \<rparr>) = process_view B E chain s"
  "process_view B E chain (s \<lparr> ru_mainChain := y \<rparr>) = process_view B E chain s"
  by (simp_all add: process_view_def sync_ok_def)

lemma keyper_view_New:
  fixes B :: "('g1, 'g2, 'gt) bn256" and E :: "('pk, 'sk, 'ek, 'dk) eth"
  shows "keyper_view B E chain (NewKeyper config)"
proof -
  let ?sh = "NewShielder :: ('g1, 'g2, 'ek) Shielder" and ?st = "NewState :: ('g1, 'g2) State"
  have "cur ?sh = - 1" "sint (st_SyncHeight ?st) = 0"
    by (simp_all add: NewShielder_def NewState_def)
  then have "state_ok B E chain (st_SyncHeight ?st) ?sh" by (simp add: state_ok_def view_ok_New)
  then show ?thesis by (simp add: keyper_view_def) (simp add: NewKeyper_def)
qed

lemma keyper_view_load:
  assumes "keyper_view B E chain kpr"
  shows "keyper_view B E chain (LoadState (kp_StateFile kpr) (NewKeyper (kp_Config kpr)))"
proof (cases "kp_StateFile kpr")
  case None
  have "keyper_view B E chain (NewKeyper (kp_Config kpr))" by (rule keyper_view_New)
  with None show ?thesis by (simp add: LoadState_def keyper_view_def)
next
  case (Some f)
  obtain st world where f: "f = (st, world)" by (cases f)
  let ?sh = "w_Shielder world"
  have saved: "state_ok B E chain (st_SyncHeight st) ?sh" using assms Some f by (simp add: keyper_view_def)
  define h where "h = (if st_SyncHeight st = 0 \<and> cur ?sh > 0 then sh_CurrentBlock ?sh else st_SyncHeight st)"
  have "sint (st_SyncHeight st) \<le> sint h" by (auto simp: h_def)
  moreover have "sint h \<le> cur ?sh + 1" using saved by (auto simp: h_def state_ok_def)
  ultimately have "state_ok B E chain h ?sh"
    using saved view_ok_mono unfolding state_ok_def by blast
  moreover have "st_SyncHeight (kp_State (LoadState (Some f) (NewKeyper (kp_Config kpr)))) = h"
    "kp_World (LoadState (Some f) (NewKeyper (kp_Config kpr))) = world"
    by (auto simp: LoadState_def f h_def Let_def)
  ultimately show ?thesis using saved Some f by (simp add: keyper_view_def)
qed

lemma process_view_start:
  assumes "keyper_view B E chain kpr"
  shows "process_view B E chain (start_process file kpr)"
proof -
  let ?k = "LoadState (kp_StateFile kpr) (NewKeyper (kp_Config kpr))"
  have "keyper_view B E chain ?k" by (rule keyper_view_load [OF assms])
  then show ?thesis
    by (simp add: process_view_def sync_ok_def start_process_def Let_def keyper_view_def state_ok_def)
qed

section \<open>Every step keeps the invariant\<close>

lemma keyper_view_decide:
  fixes kpr :: "('g1, 'g2, 'sk, 'ek, 'dk) Keyper"
  assumes sh: "view_ok B E chain (sync_height kpr) (cur (w_Shielder world) + 1) (w_Shielder world)"
    "sync_height kpr \<le> cur (w_Shielder world) + 1"
    and decide: "decide_and_save R B E (kpr \<lparr> kp_World := world \<rparr>) = Inr kpr'"
  shows "keyper_view B E chain kpr' \<and> sync_height kpr \<le> sync_height kpr' \<and> cur (seen kpr') = cur (w_Shielder world)"
proof -
  let ?sh = "w_Shielder world"
  note spec = decide_and_save_spec [OF decide, simplified]
  have cur: "cur (seen kpr') = cur ?sh" using same_shielder_fields(4) [OF conjunct1 [OF spec]] by simp
  have "sint (sh_CurrentBlock ?sh + 1) = cur ?sh + 1"
    using sh(1) by (intro sint_add_u64 [of _ 1, simplified]) (simp_all add: view_ok_def)
  with spec sh(2) have h: "sync_height kpr \<le> sync_height kpr'" "sync_height kpr' \<le> cur ?sh + 1" by auto
  have "view_ok B E chain (sync_height kpr') (cur ?sh + 1) (seen kpr')"
    by (rule view_ok_same [OF view_ok_mono [OF sh(1) h(1) order_refl]]) (use spec in blast)
  with h(2) have "state_ok B E chain (st_SyncHeight (kp_State kpr')) (seen kpr')" by (simp add: state_ok_def cur)
  with spec have "keyper_view B E chain kpr'" by (simp add: keyper_view_def)
  with h(1) cur show ?thesis by simp
qed

lemma process_view_loop:
  assumes view: "view_ok B E chain (sync_height (ru_kpr s)) (cur (w_Shielder world) + 1) (w_Shielder world)"
    "sync_height (ru_kpr s) \<le> cur (w_Shielder world) + 1"
    and sync: "sync_ok B E chain (sync_height (ru_kpr s)) s" "cur (ru_SyncShielder s) = cur (w_Shielder world)"
    and run: "ru_running s" "Run_loop R B E world s = Inr s'"
  shows "process_view B E chain s'"
proof -
  from run(2) obtain k1 k2 where k1: "decide_and_save R B E ((ru_kpr s) \<lparr> kp_World := world \<rparr>) = Inr k1"
    and k2: "runActions k1 = Inr k2" and s': "s' = sendFilter (s \<lparr> ru_kpr := k2 \<rparr>)"
    by (auto simp: Run_loop_def runOneStep_def result_bind_Inr_iff)
  note d = keyper_view_decide [OF view k1]
  note a = runActions_spec [OF k2]
  have kv: "keyper_view B E chain k2" using d a by (simp add: keyper_view_def)
  have h: "sync_height (ru_kpr s) \<le> sync_height k2" using d a by simp
  have "sync_ok B E chain (sync_height k2) s" by (rule sync_ok_mono [OF sync(1) h])
  then have so: "sync_ok B E chain (sync_height k2) s'"
    by (auto simp: s' sync_ok_def sendFilter_def GetShielderFilter_def)
  have "ru_kpr s' = k2" "ru_SyncShielder s' = ru_SyncShielder s" "ru_running s'"
    using run(1) by (simp_all add: s' sendFilter_def)
  with kv so d a sync(2) show ?thesis by (simp add: process_view_def)
qed

lemma process_view_Run_start:
  assumes "process_view B E chain s" "\<not> ru_running s" "Run_start s = Inr s'"
  shows "process_view B E chain s'"
proof (cases "s' = s")
  case False
  with assms(3) obtain mc sh k where sh: "ru_shielder s = Some sh"
    and k: "start_Run (ru_actionsFile s) \<lparr> w_Shielder = sh, w_MainChain = mc \<rparr> (ru_kpr s) = Inr k"
    and s': "s' = s \<lparr> ru_kpr := k, ru_running := True \<rparr>"
    by (auto simp: Run_start_def result_bind_Inr_iff split: option.splits)
  note spec = start_Run_spec [OF k]
  have v: "view_ok B E chain (sync_height (ru_kpr s)) (cur sh + 1) sh" "cur sh = cur (ru_SyncShielder s)"
    and kv: "keyper_view B E chain (ru_kpr s)" and le: "cur (seen (ru_kpr s)) \<le> cur (ru_SyncShielder s)"
    and so: "sync_ok B E chain (sync_height (ru_kpr s)) s"
    using assms(1,2) sh by (auto simp: process_view_def)
  have "sync_height (ru_kpr s) \<le> cur sh + 1" using kv le v(2) by (simp add: keyper_view_def state_ok_def)
  with v(1) kv spec have "keyper_view B E chain k" by (simp add: keyper_view_def state_ok_def)
  moreover have "sync_ok B E chain (sync_height k) s'" using so spec by (simp add: s' sync_ok_def)
  ultimately show ?thesis using v(2) spec by (simp add: process_view_def s')
qed (use assms(1) in simp)

lemma process_view_step:
  assumes "chain_sorted chain" "process_run B E P chain s"
  shows "process_view B E chain s"
  using assms(2)
proof (induction rule: process_run.induct)
  case (pr_new config)
  show ?case by (rule process_view_start [OF keyper_view_New])
next
  case (pr_main_block s N s')
  from pr_main_block.hyps(3) show ?case
    by (cases rule: SyncMain_block_cases) (use pr_main_block.IH in \<open>simp_all\<close>)
next
  case (pr_shielder_block s h C0 C s')
  from pr_shielder_block.hyps(4) show ?case
  proof (cases rule: SyncShielder_block_cases)
    case (2 sh)
    have "view_ok B E chain (sync_height (ru_kpr s)) (cur (ru_SyncShielder s) + 1) (ru_SyncShielder s)"
      using pr_shielder_block.IH by (simp add: process_view_def sync_ok_def)
    from view_ok_sync [OF assms(1) this pr_shielder_block.hyps(3) 2(1)] pr_shielder_block.IH 2(2) show ?thesis
      by (simp add: process_view_def sync_ok_def)
  qed (use pr_shielder_block.IH in simp)
next
  case (pr_filter s)
  show ?case
  proof (cases "ru_filter s")
    case (Cons f rest)
    have "view_ok B E chain (sync_height (ru_kpr s)) (cur (ru_SyncShielder s) + 1) (ApplyFilter f (ru_SyncShielder s))"
      by (rule view_ok_filter [OF assms(1)]) (use pr_filter.IH Cons in \<open>simp_all add: process_view_def sync_ok_def\<close>)
    with pr_filter.IH pr_filter.hyps(2) Cons show ?thesis
      by (simp add: process_view_def sync_ok_def SyncShielder_filter_def ApplyFilter_simps)
  qed (use pr_filter.IH in \<open>simp add: SyncShielder_filter_def\<close>)
next
  case (pr_take_main s mc R s')
  let ?s = "s \<lparr> ru_SyncMain := mc, ru_mainChains := None \<rparr>"
  show ?case
  proof (cases "ru_running s")
    case True
    let ?world = "(kp_World (ru_kpr s)) \<lparr> w_MainChain := mc \<rparr>"
    have "Run_loop R B E ?world ?s = Inr s'"
      using pr_take_main.hyps(4) True by (simp add: take_mainChain_def)
    then show ?thesis
      by (rule process_view_loop [rotated -1])
        (use pr_take_main.IH True in \<open>simp_all add: process_view_def keyper_view_def state_ok_def\<close>)
  next
    case False
    have "Run_start (?s \<lparr> ru_mainChain := Some mc \<rparr>) = Inr s'"
      using pr_take_main.hyps(4) False by (simp add: take_mainChain_def)
    then show ?thesis
      by (rule process_view_Run_start [rotated -1])
        (use pr_take_main.IH False in \<open>simp_all add: process_view_def sync_ok_def\<close>)
  qed
next
  case (pr_take_shielder s sh R s')
  let ?s = "s \<lparr> ru_SyncShielder := sh, ru_shielders := None \<rparr>"
  have sh: "view_ok B E chain (sync_height (ru_kpr s)) (cur sh + 1) sh" "cur (ru_SyncShielder s) \<le> cur sh"
    using pr_take_shielder.IH pr_take_shielder.hyps(2) view_ok_mono
    by (fastforce simp: process_view_def sync_ok_def)+
  have le: "sync_height (ru_kpr s) \<le> cur sh + 1" "cur (seen (ru_kpr s)) \<le> cur sh"
    using pr_take_shielder.IH sh(2) by (simp_all add: process_view_def keyper_view_def state_ok_def)
  show ?case
  proof (cases "ru_running s")
    case True
    let ?world = "(kp_World (ru_kpr s)) \<lparr> w_Shielder := sh \<rparr>"
    have "Run_loop R B E ?world ?s = Inr s'"
      using pr_take_shielder.hyps(4) True by (simp add: take_shielder_def)
    then show ?thesis
      by (rule process_view_loop [rotated -1])
        (use pr_take_shielder.IH True sh le in \<open>simp_all add: process_view_def sync_ok_def\<close>)
  next
    case False
    have "Run_start (?s \<lparr> ru_shielder := Some sh \<rparr>) = Inr s'"
      using pr_take_shielder.hyps(4) False by (simp add: take_shielder_def)
    then show ?thesis
      by (rule process_view_Run_start [rotated -1])
        (use pr_take_shielder.IH False sh le in \<open>simp_all add: process_view_def sync_ok_def\<close>)
  qed
next
  case (pr_worker s env)
  then show ?case by (simp add: process_view_def keyper_view_def)
next
  case (pr_crash s)
  then show ?case by (intro process_view_start) (simp add: process_view_def)
next
  case (pr_crash_saved s world R kpr)
  have "view_ok B E chain (sync_height (ru_kpr s)) (cur (w_Shielder world) + 1) (w_Shielder world) \<and>
      sync_height (ru_kpr s) \<le> cur (w_Shielder world) + 1"
    using pr_crash_saved.hyps(4)
  proof
    assume "w_Shielder world = seen (ru_kpr s)"
    with pr_crash_saved.IH show ?thesis by (simp add: process_view_def keyper_view_def state_ok_def)
  next
    assume out: "ru_shielders s = Some (w_Shielder world)"
    with pr_crash_saved.IH have v: "view_ok B E chain (sync_height (ru_kpr s)) (cur (ru_SyncShielder s) + 1) (w_Shielder world)"
      "cur (ru_SyncShielder s) \<le> cur (w_Shielder world)" by (simp_all add: process_view_def sync_ok_def)
    from v(2) have "cur (ru_SyncShielder s) + 1 \<le> cur (w_Shielder world) + 1" by simp
    with view_ok_mono [OF v(1) order_refl] have "view_ok B E chain (sync_height (ru_kpr s)) (cur (w_Shielder world) + 1) (w_Shielder world)"
      by blast
    moreover have "sync_height (ru_kpr s) \<le> cur (w_Shielder world) + 1"
      using pr_crash_saved.IH v(2) by (simp add: process_view_def keyper_view_def state_ok_def)
    ultimately show ?thesis by blast
  qed
  with keyper_view_decide [of B E chain "ru_kpr s" world R kpr] pr_crash_saved.hyps(6) show ?case
    by (intro process_view_start) blast
qed

text \<open>What the keyper has, and what it is about to take, read from its sync_height on.\<close>

lemma process_reads:
  assumes "chain_sorted chain" "process_view B E chain s" "ru_shielders s = Some sh \<or> sh = seen (ru_kpr s)"
  shows "sh_BatchConfigs sh = sh_BatchConfigs (full_view B E chain (cur sh))"
    "sh_KeyperEncryptionKeys sh = sh_KeyperEncryptionKeys (full_view B E chain (cur sh))"
    "list_all2 (same_reads (st_SyncHeight (kp_State (ru_kpr s)))) (sh_Eons (full_view B E chain (cur sh))) (sh_Eons sh)"
    "ru_running s \<Longrightarrow> sync_height (ru_kpr s) = cur (seen (ru_kpr s)) + 1 \<Longrightarrow>
      list_all2 (\<lambda>a b. GetEpochSecretKeyShares b (st_SyncHeight (kp_State (ru_kpr s))) =
        GetEpochSecretKeyShares a (st_SyncHeight (kp_State (ru_kpr s)))) (sh_Eons (full_view B E chain (cur sh))) (sh_Eons sh)"
proof -
  obtain k where view: "view_ok B E chain (sync_height (ru_kpr s)) k sh"
    and k: "ru_running s \<Longrightarrow> k = cur (seen (ru_kpr s)) + 1"
    using assms(2,3) unfolding process_view_def sync_ok_def keyper_view_def state_ok_def by metis
  have a: "agrees_from (sync_height (ru_kpr s)) k (full_view B E chain (cur sh)) sh" "sh_inv (sh_CurrentBlock sh) sh"
    "sh_inv (sh_CurrentBlock sh) (full_view B E chain (cur sh))"
    using view full_view_inv [OF assms(1)] by (auto simp: view_ok_def)
  then show "sh_BatchConfigs sh = sh_BatchConfigs (full_view B E chain (cur sh))"
    "sh_KeyperEncryptionKeys sh = sh_KeyperEncryptionKeys (full_view B E chain (cur sh))"
    by (simp_all add: agrees_from_def)
  show "list_all2 (same_reads (st_SyncHeight (kp_State (ru_kpr s)))) (sh_Eons (full_view B E chain (cur sh))) (sh_Eons sh)"
    by (rule agrees_reads(1) [OF a(1,3,2)])
  assume "ru_running s" "sync_height (ru_kpr s) = cur (seen (ru_kpr s)) + 1"
  with k have "k \<le> sync_height (ru_kpr s)" by simp
  then show "list_all2 (\<lambda>a b. GetEpochSecretKeyShares b (st_SyncHeight (kp_State (ru_kpr s))) =
      GetEpochSecretKeyShares a (st_SyncHeight (kp_State (ru_kpr s)))) (sh_Eons (full_view B E chain (cur sh))) (sh_Eons sh)"
    by (rule agrees_reads(2) [OF a(1,3,2)])
qed

end
