(* ===== verification/Files.thy ===== *)
theory Files
  imports App Keyper
begin

text \<open>
  How the three files of the program are written: \<open>state.gob\<close> (\<open>Keyper.saveState\<close>), \<open>actions.gob\<close>
  (\<open>PendingActions.save\<close>) and the state of the application (\<open>ShielderApp.PersistToDisk\<close>). Each writes a temporary
  file, syncs it and renames it. The file system is modelled as Go's \<open>os\<close> package and POSIX describe it: a
  name leads to an inode, the data of an inode survive a power failure for certain only after a sync, and the
  directory after a power failure is any of those there were since the last one, for nothing syncs it.
\<close>

section \<open>The file system\<close>

record file_system =
  fs_dir :: "string \<Rightarrow> nat option"
  fs_data :: "nat \<Rightarrow> bytes"
  fs_synced :: "nat \<Rightarrow> bool"
  fs_next :: nat
  fs_dirs :: "(string \<Rightarrow> nat option) list"

definition empty_disk :: file_system where
  "empty_disk = \<lparr> fs_dir = Map.empty, fs_data = (\<lambda>i. []), fs_synced = (\<lambda>i. False), fs_next = 0, fs_dirs = [Map.empty] \<rparr>"

datatype file_op = Create string | Write string bytes | Sync string | Rename string string

text \<open>\<open>os.Create\<close> truncates a file that is there; \<open>os.Rename\<close> replaces one.\<close>

definition set_dir :: "(string \<Rightarrow> nat option) \<Rightarrow> file_system \<Rightarrow> file_system" where
  "set_dir dir s = s \<lparr> fs_dir := dir, fs_dirs := dir # fs_dirs s \<rparr>"

fun file_step :: "file_op \<Rightarrow> file_system \<Rightarrow> file_system" where
  "file_step (Create p) s =
     (case fs_dir s p of
        Some i \<Rightarrow> s \<lparr> fs_data := (fs_data s)(i := []), fs_synced := (fs_synced s)(i := False) \<rparr>
      | None \<Rightarrow> set_dir ((fs_dir s)(p \<mapsto> fs_next s))
          (s \<lparr> fs_data := (fs_data s)(fs_next s := []), fs_synced := (fs_synced s)(fs_next s := False), fs_next := fs_next s + 1 \<rparr>))"
| "file_step (Write p b) s =
     (case fs_dir s p of
        Some i \<Rightarrow> s \<lparr> fs_data := (fs_data s)(i := fs_data s i @ b), fs_synced := (fs_synced s)(i := False) \<rparr>
      | None \<Rightarrow> s)"
| "file_step (Sync p) s =
     (case fs_dir s p of Some i \<Rightarrow> s \<lparr> fs_synced := (fs_synced s)(i := True) \<rparr> | None \<Rightarrow> s)"
| "file_step (Rename p q) s =
     (case fs_dir s p of Some i \<Rightarrow> set_dir ((fs_dir s)(p := None, q \<mapsto> i)) s | None \<Rightarrow> s)"

definition file_steps :: "file_op list \<Rightarrow> file_system \<Rightarrow> file_system" where
  "file_steps ops s = foldl (\<lambda>s op. file_step op s) s ops"

definition read_file :: "string \<Rightarrow> file_system \<Rightarrow> bytes option" where
  "read_file p s = map_option (fs_data s) (fs_dir s p)"

text \<open>A power failure: data that were not synced can be anything.\<close>

definition power_failure :: "file_system \<Rightarrow> file_system \<Rightarrow> bool" where
  "power_failure s s' \<longleftrightarrow>
     fs_dir s' \<in> set (fs_dirs s) \<and> fs_dirs s' = [fs_dir s'] \<and> fs_next s' = fs_next s \<and> fs_synced s' = fs_synced s \<and>
     (\<forall>i. fs_synced s i \<longrightarrow> fs_data s' i = fs_data s i)"

section \<open>Saving\<close>

text \<open>
  The three functions have the same shape; \<open>chunks\<close> are the writes of the gob encoder. An error at any
  operation ends the function there, and the process may end anywhere, so every prefix can be all that runs.
\<close>

definition tmp_path :: "string \<Rightarrow> string" where
  "tmp_path path = path @ ''.tmp''"

definition save_ops :: "string \<Rightarrow> bytes list \<Rightarrow> file_op list" where
  "save_ops path chunks =
     [Create (tmp_path path)] @ map (Write (tmp_path path)) chunks @ [Sync (tmp_path path), Rename (tmp_path path) path]"

definition PendingActions_save :: "('g2 PendingActions \<Rightarrow> bytes list) \<Rightarrow> string \<Rightarrow> 'g2 PendingActions \<Rightarrow> file_op list" where
  "PendingActions_save gob path pending = save_ops path (gob pending)"

definition saveState_ops ::
  "(('g1, 'g2) State \<times> ('g1, 'g2, 'ek) World \<Rightarrow> bytes list) \<Rightarrow> string \<Rightarrow> ('g1, 'g2, 'sk, 'ek, 'dk) Keyper \<Rightarrow> file_op list" where
  "saveState_ops gob gobpath kpr = save_ops gobpath (gob (kp_State kpr, kp_World kpr))"

definition PersistToDisk_ops :: "(ShielderApp \<Rightarrow> bytes list) \<Rightarrow> int \<Rightarrow> ShielderApp \<Rightarrow> file_op list" where
  "PersistToDisk_ops gob now app = save_ops (app_Gobpath app) (gob (app \<lparr> app_LastSaved := now \<rparr>))"

text \<open>Opening a file that is not there is no error; else its content is decoded.\<close>

definition load_file :: "(bytes \<Rightarrow> 'a result) \<Rightarrow> string \<Rightarrow> file_system \<Rightarrow> 'a option result" where
  "load_file decode path s =
     (case read_file path s of None \<Rightarrow> Inr None | Some d \<Rightarrow> result_bind (decode d) (\<lambda>x. Inr (Some x)))"

section \<open>What is in a saved file\<close>

text \<open>
  \<open>disk_run save X s\<close>: saves of the values \<open>X\<close>, each of them whole or ended after any number of operations, and
  power failures, in any order.
\<close>

inductive disk_run :: "('a \<Rightarrow> file_op list) \<Rightarrow> 'a set \<Rightarrow> file_system \<Rightarrow> bool" for save where
  dr_new: "disk_run save {} empty_disk"
| dr_save: "disk_run save X s \<Longrightarrow> disk_run save (insert x X) (file_steps (take k (save x)) s)"
| dr_failure: "disk_run save X s \<Longrightarrow> power_failure s s' \<Longrightarrow> disk_run save X s'"

text \<open>
  Whatever directory survives, the file is not there or complete and synced; neither its own temporary file
  nor the present one is the same inode.
\<close>

definition disk_inv :: "string \<Rightarrow> bytes set \<Rightarrow> file_system \<Rightarrow> bool" where
  "disk_inv path saved s \<longleftrightarrow>
     fs_dir s \<in> set (fs_dirs s) \<and>
     (\<forall>D\<in>set (fs_dirs s). \<forall>p i. D p = Some i \<longrightarrow> i < fs_next s) \<and>
     (\<forall>D\<in>set (fs_dirs s). \<forall>i. D path = Some i \<longrightarrow>
        fs_synced s i \<and> fs_data s i \<in> saved \<and> fs_dir s (tmp_path path) \<noteq> Some i \<and> D (tmp_path path) \<noteq> Some i)"

lemma tmp_path_differs [simp]: "tmp_path path \<noteq> path" "path \<noteq> tmp_path path"
  by (simp_all add: tmp_path_def)

lemma file_steps_append: "file_steps (xs @ ys) s = file_steps ys (file_steps xs s)"
  by (simp add: file_steps_def)

lemma file_steps_simps [simp]: "file_steps [] s = s" "file_steps (op # ops) s = file_steps ops (file_step op s)"
  by (simp_all add: file_steps_def)

lemma disk_inv_more: "disk_inv path saved s \<Longrightarrow> saved \<subseteq> saved' \<Longrightarrow> disk_inv path saved' s"
  unfolding disk_inv_def by blast

text \<open>The file being written: it holds \<open>d\<close>, and no directory has it under the name of the file.\<close>

definition writing :: "string \<Rightarrow> bytes \<Rightarrow> file_system \<Rightarrow> bool" where
  "writing path d s \<longleftrightarrow> (\<exists>i. fs_dir s (tmp_path path) = Some i \<and> fs_data s i = d)"

text \<open>The data of the present temporary file may change.\<close>

lemma disk_inv_touch:
  assumes "disk_inv path saved s" "fs_dir s (tmp_path path) = Some i"
  shows "disk_inv path saved (s \<lparr> fs_data := (fs_data s)(i := d), fs_synced := (fs_synced s)(i := b) \<rparr>)"
proof -
  have "j \<noteq> i" if "D \<in> set (fs_dirs s)" "D path = Some j" for D j
    using assms that unfolding disk_inv_def by metis
  with assms(1) show ?thesis by (simp add: disk_inv_def)
qed

lemma disk_inv_Create:
  assumes "disk_inv path saved s"
  shows "disk_inv path saved (file_step (Create (tmp_path path)) s) \<and> writing path [] (file_step (Create (tmp_path path)) s)"
proof (cases "fs_dir s (tmp_path path)")
  case None
  have "D path \<noteq> Some (fs_next s)" if "D \<in> set (fs_dirs s)" for D
    using assms that unfolding disk_inv_def by blast
  with assms None show ?thesis
    by (fastforce simp: disk_inv_def writing_def set_dir_def less_Suc_eq)
next
  case (Some i)
  with disk_inv_touch [OF assms Some, where d = "[]" and b = False] show ?thesis by (simp add: writing_def)
qed

lemma disk_inv_Write:
  assumes "disk_inv path saved s" "writing path d s"
  shows "disk_inv path saved (file_step (Write (tmp_path path) b) s) \<and> writing path (d @ b) (file_step (Write (tmp_path path) b) s)"
proof -
  obtain i where i: "fs_dir s (tmp_path path) = Some i" "fs_data s i = d" using assms(2) by (auto simp: writing_def)
  with disk_inv_touch [OF assms(1) i(1), where d = "fs_data s i @ b" and b = False] show ?thesis by (simp add: writing_def)
qed

lemma disk_inv_Writes:
  "disk_inv path saved s \<Longrightarrow> writing path d s \<Longrightarrow>
   disk_inv path saved (file_steps (map (Write (tmp_path path)) bs) s) \<and>
   writing path (d @ concat bs) (file_steps (map (Write (tmp_path path)) bs) s)"
proof (induction bs arbitrary: d s)
  case (Cons b bs)
  from Cons.IH [of "file_step (Write (tmp_path path) b) s" "d @ b"] disk_inv_Write [OF Cons.prems, of b] show ?case by simp
qed simp

lemma disk_inv_Sync:
  "disk_inv path saved s \<Longrightarrow> writing path d s \<Longrightarrow>
   disk_inv path saved (file_step (Sync (tmp_path path)) s) \<and> writing path d (file_step (Sync (tmp_path path)) s) \<and>
   (\<exists>i. fs_dir (file_step (Sync (tmp_path path)) s) (tmp_path path) = Some i \<and> fs_synced (file_step (Sync (tmp_path path)) s) i)"
  by (auto simp: disk_inv_def writing_def)

lemma disk_inv_Rename:
  assumes "disk_inv path saved s" "fs_dir s (tmp_path path) = Some i" "fs_synced s i" "fs_data s i \<in> saved"
  shows "disk_inv path saved (file_step (Rename (tmp_path path) path) s) \<and>
    read_file path (file_step (Rename (tmp_path path) path) s) = Some (fs_data s i)"
  using assms by (fastforce simp: disk_inv_def set_dir_def read_file_def)

text \<open>Any prefix of a save keeps the invariant; a whole save puts the content into the file.\<close>

lemma disk_inv_save:
  assumes "disk_inv path saved s"
  shows "disk_inv path (insert (concat chunks) saved) (file_steps (take k (save_ops path chunks)) s)"
    and "read_file path (file_steps (save_ops path chunks) s) = Some (concat chunks)"
proof -
  let ?saved = "insert (concat chunks) saved" and ?t = "tmp_path path"
  let ?writes = "map (Write ?t) chunks"
  have inv: "disk_inv path ?saved s" by (rule disk_inv_more [OF assms]) blast
  define s1 where "s1 = file_step (Create ?t) s"
  have s1: "disk_inv path ?saved s1" "writing path [] s1" using disk_inv_Create [OF inv] by (simp_all add: s1_def)
  define s2 where "s2 = file_steps ?writes s1"
  have s2: "disk_inv path ?saved s2" "writing path (concat chunks) s2"
    using disk_inv_Writes [OF s1, of chunks] by (simp_all add: s2_def)
  define s3 where "s3 = file_step (Sync ?t) s2"
  obtain i where s3: "disk_inv path ?saved s3" "fs_dir s3 ?t = Some i" "fs_synced s3 i" "fs_data s3 i = concat chunks"
    using disk_inv_Sync [OF s2] by (auto simp: s3_def writing_def)
  have s4: "disk_inv path ?saved (file_step (Rename ?t path) s3)"
    "read_file path (file_step (Rename ?t path) s3) = Some (concat chunks)"
    using disk_inv_Rename [OF s3(1-3)] s3(4) by simp_all
  have all: "file_steps (save_ops path chunks) s = file_step (Rename ?t path) s3"
    by (simp add: save_ops_def file_steps_append s1_def s2_def s3_def)
  with s4(2) show "read_file path (file_steps (save_ops path chunks) s) = Some (concat chunks)" by simp
  consider "k = 0" | j where "k = Suc j" "j \<le> length chunks" | "k = length chunks + 2" | "length chunks + 3 \<le> k"
    by (cases k) force+
  then show "disk_inv path ?saved (file_steps (take k (save_ops path chunks)) s)"
  proof cases
    case 1
    with inv show ?thesis by simp
  next
    case (2 j)
    then have "take k (save_ops path chunks) = Create ?t # map (Write ?t) (take j chunks)"
      by (simp add: save_ops_def take_map)
    with disk_inv_Writes [OF s1, of "take j chunks"] show ?thesis by (simp add: s1_def)
  next
    case 3
    then have "take k (save_ops path chunks) = Create ?t # ?writes @ [Sync ?t]" by (simp add: save_ops_def)
    with s3(1) show ?thesis by (simp add: file_steps_append s1_def s2_def s3_def)
  next
    case 4
    then have "take k (save_ops path chunks) = save_ops path chunks" by (simp add: save_ops_def)
    with all s4(1) show ?thesis by simp
  qed
qed

lemma disk_inv_failure:
  assumes "disk_inv path saved s" "power_failure s s'"
  shows "disk_inv path saved s'"
proof -
  let ?D = "fs_dir s'"
  have dir: "?D \<in> set (fs_dirs s)" "fs_dirs s' = [?D]" "fs_next s' = fs_next s"
    "\<And>i. fs_synced s i \<Longrightarrow> fs_data s' i = fs_data s i" "fs_synced s' = fs_synced s"
    using assms(2) by (simp_all add: power_failure_def)
  have "\<forall>D\<in>set (fs_dirs s). \<forall>p i. D p = Some i \<longrightarrow> i < fs_next s" using assms(1) by (simp add: disk_inv_def)
  from bspec [OF this dir(1)] have "?D p = Some i \<longrightarrow> i < fs_next s" for p i by simp
  moreover
  have "\<forall>D\<in>set (fs_dirs s). \<forall>i. D path = Some i \<longrightarrow> fs_synced s i \<and> fs_data s i \<in> saved \<and> D (tmp_path path) \<noteq> Some i"
    using assms(1) by (simp add: disk_inv_def)
  from bspec [OF this dir(1)]
  have "?D path = Some i \<longrightarrow> fs_synced s i \<and> fs_data s i \<in> saved \<and> ?D (tmp_path path) \<noteq> Some i" for i by simp
  ultimately show ?thesis using dir(2-5) by (simp add: disk_inv_def)
qed

text \<open>
  What saving a value this way gives: loading finds a value that was saved, never a part of one, and after a
  whole save it finds that one.
\<close>

locale saved_file =
  fixes save :: "'a \<Rightarrow> file_op list" and gob :: "'a \<Rightarrow> bytes list" and path :: string
  assumes save: "save x = save_ops path (gob x)"
begin

lemma run_inv: "disk_run save X s \<Longrightarrow> disk_inv path ((\<lambda>x. concat (gob x)) ` X) s"
proof (induction rule: disk_run.induct)
  case dr_new
  show ?case by (simp add: disk_inv_def empty_disk_def)
next
  case (dr_save X s x k)
  show ?case using disk_inv_save(1) [OF dr_save.IH] by (simp add: save)
next
  case (dr_failure X s s')
  show ?case by (rule disk_inv_failure [OF dr_failure.IH dr_failure.hyps(2)])
qed

lemma load_after_run:
  assumes "disk_run save X s" "\<And>x. x \<in> X \<Longrightarrow> decode (concat (gob x)) = Inr (f x)"
  shows "load_file decode path s \<in> insert (Inr None) ((\<lambda>x. Inr (Some (f x))) ` X)"
proof (cases "fs_dir s path")
  case (Some i)
  then have "fs_data s i \<in> (\<lambda>x. concat (gob x)) ` X"
    using run_inv [OF assms(1)] unfolding disk_inv_def by blast
  with Some assms(2) show ?thesis by (auto simp: load_file_def read_file_def)
qed (simp add: load_file_def read_file_def)

lemma load_after_save:
  assumes "disk_run save X s" "decode (concat (gob x)) = Inr y"
  shows "load_file decode path (file_steps (save x) s) = Inr (Some y)"
  using disk_inv_save(2) [OF run_inv [OF assms(1)], of "gob x"] assms(2) by (simp add: load_file_def save)

end

interpretation state_file: saved_file "saveState_ops gob path" "\<lambda>kpr. gob (kp_State kpr, kp_World kpr)" path for gob path
  by unfold_locales (rule saveState_ops_def)

interpretation pending_file: saved_file "PendingActions_save gob path" gob path for gob path
  by unfold_locales (rule PendingActions_save_def)

text \<open>The application saves itself with the time; its path never changes.\<close>

definition app_saved_at :: "string \<Rightarrow> int \<times> ShielderApp \<Rightarrow> ShielderApp" where
  "app_saved_at path x = (snd x) \<lparr> app_Gobpath := path, app_LastSaved := fst x \<rparr>"

interpretation app_file: saved_file
  "\<lambda>x. PersistToDisk_ops gob (fst x) ((snd x) \<lparr> app_Gobpath := path \<rparr>)" "\<lambda>x. gob (app_saved_at path x)" path for gob path
  by unfold_locales (simp add: PersistToDisk_ops_def app_saved_at_def)

end
