(* ===== verification/MainLoopProps.thy ===== *)
theory MainLoopProps
  imports MainLoopView SmallKeyper Files
begin

text \<open>
  The properties of a keyper's process, its goroutines and its main loop: the filters that the main loop sends
  hide nothing from the key generations, but decryption signatures and epoch secret key shares that are still
  wanted; and what is in the file that the main loop saves.
\<close>

section \<open>A small process\<close>

text \<open>A chain with two events, a node that serves it, and a process that has just read it.\<close>

definition small_events_chain :: "tm_tx list" where
  "small_events_chain =
     [\<lparr> tx_Height = 3, tx_Events = [MakeABCIEvent bn5 small_eth (EvEonStarted \<lparr> es_Height = 3, es_Eon = 1, es_BatchIndex = 5 \<rparr>)] \<rparr>,
      \<lparr> tx_Height = 700, tx_Events = [MakeABCIEvent bn5 small_eth
         (EvAccusation \<lparr> acc_Height = 700, acc_Eon = 1, acc_Sender = 1, acc_Accused = [2] \<rparr>)] \<rparr>]"

definition small_events_client :: tm_client where
  "small_events_client = \<lparr> TxSearch = (\<lambda>lo hi page n. let txs = in_range (sint lo - 1) (sint hi) small_events_chain
       in Inr \<lparr> tr_Txs = page_of page n txs, tr_TotalCount = int (length txs) \<rparr>),
     Block_LastCommit = Inr (Some 800), Status_CatchingUp = Inr False \<rparr>"

lemma small_events_sorted: "chain_sorted small_events_chain"
  by (simp add: chain_sorted_def small_events_chain_def)

lemma small_node_at: "node_at small_events_chain 800 small_events_client small_events_client"
  using small_events_sorted
  by (auto simp: node_at_def small_events_client_def node_serves_def Let_def chain_sorted_def
      intro!: exI [of _ small_events_chain])

definition small_process :: "(z5, z5, byte, byte, byte) Process" where
  "small_process = start_process NewPendingActions (NewKeyper small_kc)"

lemma small_process_run: "process_run bn5 small_eth small_proto chain small_process"
  unfolding small_process_def by (rule pr_new)

abbreviation small_full :: "(z5, z5, byte) Shielder" where
  "small_full \<equiv> full_view bn5 small_eth small_events_chain 800"

lemma small_full: "map eo_Eon (sh_Eons small_full) = [1]" "map eo_Accusations (sh_Eons small_full) =
    [[\<lparr> acc_Height = 700, acc_Eon = 1, acc_Sender = 1, acc_Accused = [2] \<rparr>]]"
proof -
  let ?e = "EvEonStarted \<lparr> es_Height = 3, es_Eon = 1, es_BatchIndex = 5 \<rparr> :: (z5, z5, byte) IEvent"
  let ?a = "EvAccusation \<lparr> acc_Height = 700, acc_Eon = 1, acc_Sender = 1, acc_Accused = [2] \<rparr> :: (z5, z5, byte) IEvent"
  have "in_range (- 1) 800 small_events_chain = small_events_chain"
    by (simp add: in_range_def small_events_chain_def)
  then have full: "small_full = applyEvent (wire_part 700 ?a) (applyEvent (wire_part 3 ?e) NewShielder)"
    by (simp add: full_view_def apply_txs_def) (simp add: small_events_chain_def MakeEvent_MakeABCIEvent [OF bn_ok_bn5 eth_ok_small] del: MakeABCIEvent.simps)
  show "map eo_Eon (sh_Eons small_full) = [1]" unfolding full by code_simp
  show "map eo_Accusations (sh_Eons small_full) =
    [[\<lparr> acc_Height = 700, acc_Eon = 1, acc_Sender = 1, acc_Accused = [2] \<rparr>]]" unfolding full by code_simp
qed

lemma small_sync:
  fixes sh :: "(z5, z5, byte) Shielder"
  assumes "- 1 \<le> sint (sh_CurrentBlock sh)" "sint (sh_CurrentBlock sh) < 800"
  obtains sh' where "sh_SyncToHead bn5 small_eth small_events_client small_events_client sh = Some (Inr sh')"
    "sh_CurrentBlock sh' = 800"
proof -
  have serves: "node_serves small_events_client small_events_chain"
    using small_events_sorted by (simp add: node_serves_def small_events_client_def Let_def chain_sorted_def)
  have fetch: "fetchAndApplyEvents bn5 small_eth small_events_client 800 sh =
      Some (Inr (apply_txs bn5 small_eth (in_range (sint (sh_CurrentBlock sh)) 800 small_events_chain) sh))"
    using fetchAndApplyEvents_all [OF serves, of 800 sh bn5 small_eth] assms by simp
  have client: "Block_LastCommit small_events_client = Inr (Some 800)" "Status_CatchingUp small_events_client = Inr False"
    "800 \<noteq> sh_CurrentBlock sh" using assms by (auto simp: small_events_client_def)
  show thesis
    by (rule that, simp add: sh_SyncToHead_def SyncToHeight_def GetLastCommittedHeight_def client fetch) simp
qed

lemma small_process_view:
  obtains s sh where "process_run bn5 small_eth small_proto small_events_chain s" "ru_shielders s = Some sh"
    "sh_CurrentBlock sh = 800" "ru_kpr s = NewKeyper small_kc"
proof -
  let ?new = "NewShielder :: (z5, z5, byte) Shielder"
  have new: "ru_SyncShielder small_process = ?new" "ru_kpr small_process = NewKeyper small_kc" "ru_shielders small_process = None"
    by (simp_all add: small_process_def start_process_def LoadState_def NewKeyper_def)
  obtain sh where sync: "sh_SyncToHead bn5 small_eth small_events_client small_events_client ?new = Some (Inr sh)"
    and block: "sh_CurrentBlock sh = 800" by (rule small_sync [of ?new]) (simp_all add: NewShielder_def)
  have "SyncShielder_block bn5 small_eth small_events_client small_events_client small_process =
      Some (Inr (small_process \<lparr> ru_shielders := Some sh \<rparr>))"
    by (simp add: SyncShielder_block_def new(1) sync)
  from pr_shielder_block [OF small_process_run new(3) small_node_at this] new(2) block that show thesis by simp
qed

section \<open>What filters keep\<close>

text \<open>
  C20: Filters hide nothing from a key generation. Whatever filters pass from the main loop to the goroutine
  and whenever they are applied, the view that a keyper decides on has the batch configs, the encryption keys
  and the eons of the whole chain up to its block, and the commitments, evaluations, accusations and apologies
  that the keyper has yet to read; and the epoch secret key shares as well, if the keyper has processed the
  view before. The main loop never has more than three filters in the channel.
\<close>

theorem filters_hide_no_event:
  assumes "process_run B E P chain s" "chain_sorted chain" "ru_shielders s = Some sh \<or> sh = w_Shielder (kp_World (ru_kpr s))"
  shows "let full = full_view B E chain (sint (sh_CurrentBlock sh)); h = st_SyncHeight (kp_State (ru_kpr s)) in
    sh_BatchConfigs sh = sh_BatchConfigs full \<and> sh_KeyperEncryptionKeys sh = sh_KeyperEncryptionKeys full \<and>
    list_all2 (same_reads h) (sh_Eons full) (sh_Eons sh) \<and>
    (ru_running s \<and> sint h = sint (sh_CurrentBlock (w_Shielder (kp_World (ru_kpr s)))) + 1 \<longrightarrow>
       list_all2 (\<lambda>a b. GetEpochSecretKeyShares b h = GetEpochSecretKeyShares a h) (sh_Eons full) (sh_Eons sh)) \<and>
    length (ru_filter s) \<le> 3"
proof -
  have view: "process_view B E chain s" by (rule process_view_step [OF assms(2,1)])
  then have "length (ru_filter s) \<le> 3" by (simp add: process_view_def sync_ok_def)
  with process_reads [OF assms(2) view assms(3)] show ?thesis unfolding Let_def by blast
qed

theorem filters_hide_no_event_witness:
  "\<exists>s sh. process_run bn5 small_eth small_proto small_events_chain s \<and> ru_shielders s = Some sh \<and>
     map eo_Eon (sh_Eons sh) = [1] \<and> map (\<lambda>eo. length (GetAccusations eo 0)) (sh_Eons sh) = [1]"
proof -
  obtain s sh where s: "process_run bn5 small_eth small_proto small_events_chain s" "ru_shielders s = Some sh"
    "sh_CurrentBlock sh = 800" "ru_kpr s = NewKeyper small_kc" by (rule small_process_view)
  have "st_SyncHeight (kp_State (ru_kpr s)) = 0" by (simp add: s(4) NewKeyper_def NewState_def)
  with filters_hide_no_event [OF s(1) small_events_sorted, of sh] s(2,3)
  have same: "list_all2 (same_reads 0) (sh_Eons small_full) (sh_Eons sh)" by (simp add: Let_def)
  from small_full(1) obtain z where z: "sh_Eons small_full = [z]" "eo_Eon z = 1" by (auto simp: map_eq_Cons_conv)
  with same obtain y where y: "sh_Eons sh = [y]" "same_reads 0 z y" by (auto simp: list_all2_Cons1)
  have "eo_Accusations z = [\<lparr> acc_Height = 700, acc_Eon = 1, acc_Sender = 1, acc_Accused = [2] \<rparr>]"
    using small_full(2) z(1) by simp
  then have "length (GetAccusations z 0) = 1"
    by (simp add: GetAccusations_def events_from_def sort_Search_def sort_Search_loop.simps)
  with y z(2) have "map eo_Eon (sh_Eons sh) = [1] \<and> map (\<lambda>eo. length (GetAccusations eo 0)) (sh_Eons sh) = [1]"
    by (simp add: same_reads_def)
  with s(1,2) show ?thesis by (intro exI [of _ s] exI [of _ sh]) simp
qed

section \<open>What filters lose\<close>

text \<open>
  C37: An accusation against a batch of which both half steps are executed cannot be answered: the filter of
  the main loop removes the batch and its decryption signatures from the view of the keyper, and without
  signatures the keyper sends no appeal, whatever it has signed and collected.
\<close>

theorem filtered_batch_not_appealed:
  assumes "NeedsUpdate (sh_Filter sh) (GetShielderFilter (dc_MainChain d) st)"
    and "ma_HalfStep acc div 2 < mc_NumExecutionHalfSteps (dc_MainChain d) div 2"
    and "dc_Shielder d = ApplyFilter (GetShielderFilter (dc_MainChain d) st) sh"
    and "\<And>config. FindBatchConfigByBatchIndex sh (ma_HalfStep acc div 2) = Inr config \<Longrightarrow> 0 < bc_Threshold config"
    and "appeal_one acc d = Inr d'"
  shows "dc_Actions d' = dc_Actions d \<and> dc_State d' = dc_State d"
proof -
  let ?i = "ma_HalfStep acc div 2"
  have "sh_Batches (dc_Shielder d) ?i = None"
    using assms(1-3) by (simp add: ApplyFilter_simps GetShielderFilter_def)
  then have none: "getBatchData ?i (dc_Shielder d) =
      (\<lparr> bd_BatchIndex = ?i, bd_DecryptionSignatures = [] \<rparr>, snd (getBatchData ?i (dc_Shielder d)))"
    by (simp add: getBatchData_def Let_def)
  have "sh_BatchConfigs (dc_Shielder d) = sh_BatchConfigs sh" by (simp add: assms(3) ApplyFilter_simps)
  then have config: "FindBatchConfigByBatchIndex (dc_Shielder d) ?i = FindBatchConfigByBatchIndex sh ?i"
    by (simp add: FindBatchConfigByBatchIndex_def)
  have "sh_BatchConfigs (snd (getBatchData ?i (dc_Shielder d))) = sh_BatchConfigs (dc_Shielder d)"
    by (rule same_shielder_fields(2) [OF getBatchData_same])
  with config have again: "FindBatchConfigByBatchIndex (snd (getBatchData ?i (dc_Shielder d))) ?i = FindBatchConfigByBatchIndex sh ?i"
    by (simp add: FindBatchConfigByBatchIndex_def)
  have sorted: "GetSortedDecryptionSignaturesWithIndices ?i (dc_Shielder d) =
      (case FindBatchConfigByBatchIndex sh ?i of Inl p \<Rightarrow> (Inl p, dc_Shielder d)
       | Inr config \<Rightarrow> (Inr ([], []), snd (getBatchData ?i (dc_Shielder d))))"
    unfolding GetSortedDecryptionSignaturesWithIndices_def config by (subst none) (simp split: sum.split)
  show ?thesis
  proof (cases "FindBatchConfigByBatchIndex sh ?i" rule: no_panic.cases)
    case (1 p)
    with assms(5) show ?thesis by (simp add: appeal_one_def Let_def sorted split: if_split_asm option.split_asm)
  next
    case (2 e)
    with assms(5) show ?thesis
      by (simp add: appeal_one_def Let_def sorted split: if_split_asm option.split_asm)
  next
    case (3 config)
    with assms(4) have "0 < bc_Threshold config" by blast
    with 3 assms(5) show ?thesis
      by (simp add: appeal_one_def Let_def sorted again split: if_split_asm option.split_asm) (auto)
  qed
qed

text \<open>A keyper that could appeal, and the same keyper after the filter.\<close>

definition small_accusation :: MAccusation where
  "small_accusation = \<lparr> ma_Executor = 2, ma_Accuser = 1, ma_Appealed = False, ma_HalfStep = 0, ma_BlockNumber = 30 \<rparr>"

definition small_collected :: "(z5, z5, byte) Shielder" where
  "small_collected = small_sh \<lparr> sh_Batches := [0 \<mapsto> \<lparr> bd_BatchIndex = 0, bd_DecryptionSignatures =
     [\<lparr> ds_Height = 3, ds_BatchIndex = 0, ds_Sender = 1, ds_Signature = replicate 65 1 \<rparr>] \<rparr>] \<rparr>"

definition small_accused :: "(z5, z5, byte, byte, byte) Decider" where
  "small_accused = small_decider \<lparr> dc_Shielder := small_collected, dc_MainChain := small_mc \<lparr> mc_CipherExecutionReceipts := [0 \<mapsto>
     \<lparr> cr_Executed = True, cr_Executor = 2, cr_HalfStep = 0, cr_CipherBatchHash = zero_hash, cr_BatchHash = [6] \<rparr>] \<rparr> \<rparr>"

theorem filtered_batch_not_appealed_witness:
  "(case appeal_one small_accusation small_accused of Inl e \<Rightarrow> False | Inr d' \<Rightarrow> length (dc_Actions d') = 1) \<and>
   (\<exists>d'. appeal_one small_accusation (small_accused \<lparr> dc_Shielder :=
      ApplyFilter (GetShielderFilter (dc_MainChain small_accused) small_state) small_collected \<rparr>) = Inr d' \<and> dc_Actions d' = [])"
proof
  show "case appeal_one small_accusation small_accused of Inl e \<Rightarrow> False | Inr d' \<Rightarrow> length (dc_Actions d') = 1"
    by code_simp
  let ?d = "small_accused \<lparr> dc_Shielder :=
      ApplyFilter (GetShielderFilter (dc_MainChain small_accused) small_state) small_collected \<rparr>"
  have "case appeal_one small_accusation ?d of Inl e \<Rightarrow> False | Inr d' \<Rightarrow> True" by code_simp
  then obtain d' where d': "appeal_one small_accusation ?d = Inr d'" by (auto split: sum.splits)
  have steps: "mc_NumExecutionHalfSteps (dc_MainChain small_accused) = 2" "dc_Actions small_accused = []"
    "ma_HalfStep small_accusation = 0"
    by (simp_all add: small_accused_def small_accusation_def)
  have "FindBatchConfigByBatchIndex small_collected 0 = Inr small_config"
    by (simp add: FindBatchConfigByBatchIndex_eq small_collected_def small_sh_def)
      (simp add: small_config_def emptyBatchConfig_def)
  moreover have "0 < bc_Threshold small_config" by (simp add: small_config_def)
  ultimately have "dc_Actions d' = dc_Actions ?d \<and> dc_State d' = dc_State ?d"
    using d' by (intro filtered_batch_not_appealed [of small_collected ?d small_state small_accusation d'])
      (simp_all add: steps NeedsUpdate_def GetShielderFilter_def small_collected_def small_sh_def NewShielder_def)
  with d' steps show "\<exists>d'. appeal_one small_accusation ?d = Inr d' \<and> dc_Actions d' = []" by simp
qed

text \<open>
  While the node of a keyper catches up, the keyper processes nothing and its sync height stands still, but it
  still sends its filter. Whenever this filter is newer than the one the view has, so when it is the first one
  or another batch was executed on the main chain in the meantime, it drops every epoch secret key share of
  the view: the next view has no share of any block up to the one the keyper had seen, although the keyper
  has not read them. (The premise \<open>NeedsUpdate\<close> says that the filter is newer.)
\<close>

theorem unsynced_keyper_loses_shares:
  fixes kpr kpr' :: "('g1, 'g2, 'sk, 'ek, 'dk) Keyper"
  assumes "\<not> sh_IsSynced (w_Shielder (kp_World kpr))" "runOneStep R B E kpr = Inr kpr'"
    and "NeedsUpdate (sh_Filter (w_Shielder (kp_World kpr))) (GetShielderFilter (w_MainChain (kp_World kpr')) (kp_State kpr'))"
    and "node_at chain height C0 C" "- 1 \<le> sint (sh_CurrentBlock (w_Shielder (kp_World kpr)))"
    and "sh_SyncToHead B E C0 C (ApplyFilter (GetShielderFilter (w_MainChain (kp_World kpr')) (kp_State kpr'))
      (w_Shielder (kp_World kpr))) = Some (Inr sh')"
  shows "st_SyncHeight (kp_State kpr') = st_SyncHeight (kp_State kpr) \<and> st_EKGs (kp_State kpr') = st_EKGs (kp_State kpr) \<and>
    (\<forall>eo\<in>set (sh_Eons sh'). \<forall>e\<in>set (eo_EpochSecretKeyShares eo).
       sint (sh_CurrentBlock (w_Shielder (kp_World kpr))) < sint (sks_Height e))"
proof -
  let ?flt = "GetShielderFilter (w_MainChain (kp_World kpr')) (kp_State kpr')"
  let ?sh = "w_Shielder (kp_World kpr)"
  have "Decide R B E (NewDecider kpr) = Inr (NewDecider kpr)"
    using assms(1) by (simp add: Decide_def NewDecider_def)
  with assms(2) have st: "st_SyncHeight (kp_State kpr') = st_SyncHeight (kp_State kpr) \<and> st_EKGs (kp_State kpr') = st_EKGs (kp_State kpr)"
    by (auto simp: runOneStep_def decide_and_save_def keyper_decide_def saveState_def runActions_def NewDecider_def
        result_bind_Inr_iff split: if_splits)
  have "\<forall>eo\<in>set (sh_Eons (ApplyFilter ?flt ?sh)). shares_after (cur ?sh) eo"
    by (rule shares_after_filter [OF assms(3)])
  then have "\<forall>eo\<in>set (sh_Eons sh'). shares_after (cur ?sh) eo"
    using shares_after_sync [OF assms(4) _ assms(6)] assms(5) by (simp add: ApplyFilter_simps)
  with st show ?thesis by (simp add: shares_after_def)
qed

definition small_catching_up :: "(z5, z5, byte) Shielder" where
  "small_catching_up = small_sh \<lparr> sh_NodeStatus := Some True, sh_Eons := [small_eon \<lparr> eo_EpochSecretKeyShares :=
     [\<lparr> sks_Height = 2, sks_Sender = 2, sks_Eon = 1, sks_Epoch = 7, sks_Share = Z1 \<rparr>] \<rparr>] \<rparr>"

theorem unsynced_keyper_loses_shares_witness:
  "\<exists>kpr' sh'. runOneStep small_choices bn5 small_eth
       (small_keyper \<lparr> kp_World := \<lparr> w_Shielder = small_catching_up, w_MainChain = small_mc \<rparr> \<rparr>) = Inr kpr' \<and>
     sh_SyncToHead bn5 small_eth small_events_client small_events_client
       (ApplyFilter (GetShielderFilter small_mc (kp_State kpr')) small_catching_up) = Some (Inr sh') \<and>
     (\<forall>eo\<in>set (sh_Eons small_catching_up). length (eo_EpochSecretKeyShares eo) = 1) \<and>
     (\<forall>eo\<in>set (sh_Eons sh'). \<forall>e\<in>set (eo_EpochSecretKeyShares eo). 4 < sint (sks_Height e))"
proof -
  let ?kpr = "small_keyper \<lparr> kp_World := \<lparr> w_Shielder = small_catching_up, w_MainChain = small_mc \<rparr> \<rparr>"
  have "case runOneStep small_choices bn5 small_eth ?kpr of Inl e \<Rightarrow> False
      | Inr kpr' \<Rightarrow> mc_NumExecutionHalfSteps (w_MainChain (kp_World kpr')) = 2"
    by code_simp
  then obtain kpr' where kpr': "runOneStep small_choices bn5 small_eth ?kpr = Inr kpr'"
    "mc_NumExecutionHalfSteps (w_MainChain (kp_World kpr')) = 2" by (auto split: sum.splits)
  let ?flt = "GetShielderFilter (w_MainChain (kp_World kpr')) (kp_State kpr')"
  have flt: "?flt = GetShielderFilter small_mc (kp_State kpr')" using kpr'(2) by (simp add: GetShielderFilter_def)
  have sh: "sh_CurrentBlock small_catching_up = 4" "\<not> sh_IsSynced small_catching_up"
    "flt_BatchIndex (sh_Filter small_catching_up) = 0"
    by (simp_all add: small_catching_up_def small_sh_def sh_IsSynced_def NewShielder_def)
  obtain sh' where sync: "sh_SyncToHead bn5 small_eth small_events_client small_events_client
      (ApplyFilter ?flt small_catching_up) = Some (Inr sh')"
    by (rule small_sync [of "ApplyFilter ?flt small_catching_up"]) (simp_all add: ApplyFilter_simps sh)
  have "NeedsUpdate (sh_Filter small_catching_up) ?flt"
    using kpr'(2) sh(3) by (simp add: NeedsUpdate_def GetShielderFilter_def)
  with unsynced_keyper_loses_shares [OF _ kpr'(1) _ small_node_at _] sync sh
  have "\<forall>eo\<in>set (sh_Eons sh'). \<forall>e\<in>set (eo_EpochSecretKeyShares eo). 4 < sint (sks_Height e)" by simp
  moreover have "\<forall>eo\<in>set (sh_Eons small_catching_up). length (eo_EpochSecretKeyShares eo) = 1"
    by (simp add: small_catching_up_def)
  ultimately show ?thesis using kpr'(1) sync flt by auto
qed

section \<open>The files\<close>

text \<open>
  C21: The saved state of a keyper is never torn. Let the process or the machine stop as often as it likes,
  in the middle of saving too: opening \<open>state.gob\<close> finds no file or a complete state that some save wrote, and
  directly after a save that ran to its end it finds the state of this save. The hypothesis is what package
  gob does with these types: decoding gives back what was encoded, but a nil element of a slice as an empty
  one, and a pointer to a zero as nil (\<open>gob_State\<close>, the state that \<open>LoadState\<close> starts from).
\<close>

theorem saved_state_never_torn:
  assumes "disk_run (saveState_ops gob path) K s"
    and "\<forall>k\<in>insert kpr K. decode (concat (gob (kp_State k, kp_World k))) = Inr (gob_State (kp_State k), kp_World k)"
  shows "load_file decode path s \<in> insert (Inr None) ((\<lambda>k. Inr (Some (gob_State (kp_State k), kp_World k))) ` K) \<and>
    load_file decode path (file_steps (saveState_ops gob path kpr) s) = Inr (Some (gob_State (kp_State kpr), kp_World kpr))"
proof
  show "load_file decode path s \<in> insert (Inr None) ((\<lambda>k. Inr (Some (gob_State (kp_State k), kp_World k))) ` K)"
    by (rule state_file.load_after_run [OF assms(1)]) (use assms(2) in simp)
  show "load_file decode path (file_steps (saveState_ops gob path kpr) s) = Inr (Some (gob_State (kp_State kpr), kp_World kpr))"
    by (rule state_file.load_after_save [OF assms(1)]) (use assms(2) in simp)
qed

text \<open>
  Two keypers whose files differ, written in two pieces each, and a decoder that takes only the whole files. A
  save that ends before its rename leaves the file of the save before it.
\<close>

definition small_gob :: "(z5, z5) State \<times> (z5, z5, byte) World \<Rightarrow> bytes list" where
  "small_gob x = (if st_PendingHalfStep (fst x) = None then [[1], [2]] else [[1], [3]])"

definition small_decode :: "bytes \<Rightarrow> ((z5, z5) State \<times> (z5, z5, byte) World) result" where
  "small_decode d = (if d = [1, 2] then Inr (gob_State (kp_State small_keyper), kp_World small_keyper)
     else if d = [1, 3] then Inr (gob_State ((kp_State small_keyper) \<lparr> st_PendingHalfStep := Some 7 \<rparr>), kp_World small_keyper)
     else Inl (Errorf ''unexpected EOF''))"

theorem saved_state_never_torn_witness:
  "let kpr2 = small_keyper \<lparr> kp_State := (kp_State small_keyper) \<lparr> st_PendingHalfStep := Some 7 \<rparr> \<rparr>;
       save = saveState_ops small_gob ''state.gob'' :: (z5, z5, byte, byte, byte) Keyper \<Rightarrow> file_op list;
       s = file_steps (take 2 (save kpr2)) (file_steps (save small_keyper) empty_disk)
   in small_decode [1] = Inl (Errorf ''unexpected EOF'') \<and>
      load_file small_decode ''state.gob'' s \<in> {Inr None, Inr (Some (gob_State (kp_State small_keyper), kp_World small_keyper)),
        Inr (Some (gob_State (kp_State kpr2), kp_World kpr2))} \<and>
      load_file small_decode ''state.gob'' (file_steps (save kpr2) s) = Inr (Some (gob_State (kp_State kpr2), kp_World kpr2))"
proof -
  let ?kpr2 = "small_keyper \<lparr> kp_State := (kp_State small_keyper) \<lparr> st_PendingHalfStep := Some 7 \<rparr> \<rparr>"
  let ?save = "saveState_ops small_gob ''state.gob'' :: (z5, z5, byte, byte, byte) Keyper \<Rightarrow> file_op list"
  let ?s = "file_steps (take 2 (?save ?kpr2)) (file_steps (?save small_keyper) empty_disk)"
  have "disk_run ?save {small_keyper} (file_steps (take 9 (?save small_keyper)) empty_disk)" by (rule dr_save [OF dr_new])
  moreover have "take 9 (?save small_keyper) = ?save small_keyper"
    by (simp add: saveState_ops_def save_ops_def small_gob_def)
  ultimately have "disk_run ?save {small_keyper} (file_steps (?save small_keyper) empty_disk)" by simp
  from dr_save [OF this, of ?kpr2 2] have run: "disk_run ?save {?kpr2, small_keyper} ?s" by simp
  have new: "st_PendingHalfStep (kp_State small_keyper) = None" by (simp add: small_keyper_def NewKeyper_def NewState_def)
  have "\<forall>k\<in>insert ?kpr2 {?kpr2, small_keyper}.
      small_decode (concat (small_gob (kp_State k, kp_World k))) = Inr (gob_State (kp_State k), kp_World k)"
    by (simp add: small_gob_def small_decode_def new)
  from saved_state_never_torn [OF run this] have
    "load_file small_decode ''state.gob'' ?s \<in> {Inr None, Inr (Some (gob_State (kp_State small_keyper), kp_World small_keyper)),
        Inr (Some (gob_State (kp_State ?kpr2), kp_World ?kpr2))}"
    "load_file small_decode ''state.gob'' (file_steps (?save ?kpr2) ?s) = Inr (Some (gob_State (kp_State ?kpr2), kp_World ?kpr2))"
    by auto
  moreover have "small_decode [1] = Inl (Errorf ''unexpected EOF'')" by (simp add: small_decode_def)
  ultimately show ?thesis by (simp add: Let_def)
qed

end
