(* ===== verification/ShcryptoWasm.thy ===== *)
theory ShcryptoWasm
  imports EpochKG ObserveMain
begin

text \<open>
  \<open>shcryptowasm/main_wasm.go\<close>: the function \<open>encrypt\<close> that a user's web page calls, and the way of a message
  from there through a batch of the main chain to the keypers that decrypt it. JavaScript values are modelled
  as far as package \<open>syscall/js\<close> looks at them here.
\<close>

section \<open>JavaScript values\<close>

text \<open>
  A number by its integer part; a function by its property \<open>name\<close>; an object by its properties \<open>constructor\<close> and
  \<open>length\<close> and, for a real \<open>Uint8Array\<close>, by its bytes. An absent property is undefined, one of the other values.
  JavaScript's numbers are floating point numbers with 53 bits: a page that means an epoch which is none of these
  passes the number next to it.
\<close>

datatype js_value =
    JSNumber int
  | JSString string
  | JSFunction js_value
  | JSObject js_value int "bytes option"
  | JSOther

definition Uint8Array :: "bytes \<Rightarrow> js_value" where
  "Uint8Array d = JSObject (JSFunction (JSString ''Uint8Array'')) (int (length d)) (Some d)"

text \<open>
  \<open>Value.Int\<close> converts the number to \<open>int\<close>, which has 64 bits: code compiled for WebAssembly gives the least
  integer for a number outside of its range and for NaN, which is such a number here.
\<close>

definition Value_Int :: "int \<Rightarrow> i64" where
  "Value_Int n = (if - (2 ^ 63) \<le> n \<and> n < 2 ^ 63 then word_of_int n else word_of_int (- (2 ^ 63)))"

text \<open>\<open>Value.Length\<close>, \<open>make([]byte, n)\<close> and \<open>js.CopyBytesToGo\<close>, each with its panic.\<close>

fun js_Length :: "js_value \<Rightarrow> int result" where
  "js_Length (JSObject constructor len content) = Inr len"
| "js_Length v = Inl (Panic ''syscall/js: call of Value.Length'')"

definition make_bytes :: "int \<Rightarrow> bytes result" where
  "make_bytes n = (if n < 0 then Inl (Panic ''makeslice: len out of range'') else Inr (replicate (nat n) 0))"

fun CopyBytesToGo :: "bytes \<Rightarrow> js_value \<Rightarrow> bytes result" where
  "CopyBytesToGo dst (JSObject constructor len (Some content)) = Inr (copy_bytes dst content)"
| "CopyBytesToGo dst v = Inl (Panic ''syscall/js: CopyBytesToGo: expected src to be an Uint8Array'')"

section \<open>Checking the arguments\<close>

definition validateUint8Array :: "js_value \<Rightarrow> unit result" where
  "validateUint8Array v =
     (case v of
        JSObject constructor len content \<Rightarrow>
          (case constructor of
             JSFunction name \<Rightarrow>
               (case name of
                  JSString s \<Rightarrow> if s \<noteq> ''Uint8Array'' then Inl (Errorf ''expected Uint8Array, but name is another'') else Inr ()
                | _ \<Rightarrow> Inl (Errorf ''expected Uint8Array, but name is not a string''))
           | _ \<Rightarrow> Inl (Errorf ''expected Uint8Array, but value constructor is not a function''))
      | _ \<Rightarrow> Inl (Errorf ''expected Uint8Array, but value is not an object''))"

definition validateMessage :: "js_value \<Rightarrow> unit result" where
  "validateMessage v = validateUint8Array v"

definition validateEonPublicKey :: "js_value \<Rightarrow> unit result" where
  "validateEonPublicKey v = validateUint8Array v"

definition validateEpochIndex :: "js_value \<Rightarrow> unit result" where
  "validateEpochIndex v =
     (case v of
        JSNumber n \<Rightarrow> if sint (Value_Int n) < 0 then Inl (Errorf ''epoch index must not be negative'') else Inr ()
      | _ \<Rightarrow> Inl (Errorf ''expected number, got non-number''))"

definition validateBlock :: "js_value \<Rightarrow> unit result" where
  "validateBlock v =
     result_bind (validateUint8Array v) (\<lambda>_.
     result_bind (js_Length v) (\<lambda>len.
     if len \<noteq> 32 then Inl (Errorf ''expected array of length 32'') else Inr ()))"

definition validateSigma :: "js_value \<Rightarrow> unit result" where
  "validateSigma v = validateBlock v"

section \<open>Encrypting\<close>

text \<open>What the page gets: the message in hexadecimal digits, and an error or null.\<close>

record wasm_result =
  wr_encryptedMessage :: string
  wr_error :: "string option"

definition returnValue :: "('pk, 'sk, 'ek, 'dk) eth \<Rightarrow> bytes \<Rightarrow> string option \<Rightarrow> wasm_result" where
  "returnValue E encoded err = \<lparr> wr_encryptedMessage = hexutil_Encode E encoded, wr_error = err \<rparr>"

definition errorReturnValue :: "('pk, 'sk, 'ek, 'dk) eth \<Rightarrow> string \<Rightarrow> wasm_result" where
  "errorReturnValue E err = returnValue E [] (Some err)"

text \<open>\<open>if err := f(); err != nil { return errorReturnValue(err) }\<close>; a panic goes on.\<close>

definition or_return ::
  "('pk, 'sk, 'ek, 'dk) eth \<Rightarrow> 'a result \<Rightarrow> ('a \<Rightarrow> wasm_result result) \<Rightarrow> wasm_result result" where
  "or_return E r k =
     (case r of
        Inl (Panic p) \<Rightarrow> Inl (Panic p)
      | Inl (Errorf err) \<Rightarrow> Inr (errorReturnValue E err)
      | Inr x \<Rightarrow> k x)"

definition js_bytes :: "js_value \<Rightarrow> bytes result" where
  "js_bytes v =
     result_bind (js_Length v) (\<lambda>len.
     result_bind (make_bytes len) (\<lambda>dst.
     CopyBytesToGo dst v))"

definition wasm_encrypt ::
  "('g1, 'g2, 'gt) bn256 \<Rightarrow> ('pk, 'sk, 'ek, 'dk) eth \<Rightarrow> js_value list \<Rightarrow> wasm_result result" where
  "wasm_encrypt B E args =
     (if length args \<noteq> 4 then Inr (errorReturnValue E ''expected 4 arguments'')
      else let messageJS = args ! 0; eonPublicKeyJS = args ! 1; epochIndexJS = args ! 2; sigmaJS = args ! 3
      in or_return E (validateMessage messageJS) (\<lambda>_.
         or_return E (validateEonPublicKey eonPublicKeyJS) (\<lambda>_.
         or_return E (validateEpochIndex epochIndexJS) (\<lambda>_.
         or_return E (validateSigma sigmaJS) (\<lambda>_.
         result_bind (js_bytes messageJS) (\<lambda>message.
         result_bind (js_bytes eonPublicKeyJS) (\<lambda>eonPublicKeyBytes.
         or_return E (EonPublicKey_Unmarshal B eonPublicKeyBytes) (\<lambda>eonPublicKey.
         let epochIndex = (case epochIndexJS of JSNumber n \<Rightarrow> Value_Int n | _ \<Rightarrow> 0) :: u64;
             epochID = ComputeEpochID B epochIndex
         in result_bind (CopyBytesToGo zero_block sigmaJS) (\<lambda>sigma.
            let m = Encrypt B message eonPublicKey epochID sigma
            in result_bind (EncryptedMessage_Marshal B m) (\<lambda>encoded.
               Inr (returnValue E encoded None)))))))))))"

section \<open>What a user sends\<close>

lemma js_bytes_Uint8Array [simp]: "js_bytes (Uint8Array d) = Inr d"
  by (simp add: js_bytes_def Uint8Array_def make_bytes_def copy_bytes_full)

lemma validate_Uint8Array [simp]: "validateUint8Array (Uint8Array d) = Inr ()"
  by (simp add: validateUint8Array_def Uint8Array_def)

lemma validateSigma_Uint8Array [simp]: "is_block d \<Longrightarrow> validateSigma (Uint8Array d) = Inr ()"
  by (simp add: validateSigma_def validateBlock_def) (simp add: Uint8Array_def is_block_def BlockSize_def)

lemma Copy_sigma [simp]: "is_block d \<Longrightarrow> CopyBytesToGo zero_block (Uint8Array d) = Inr d"
  by (simp add: Uint8Array_def copy_bytes_full is_block_def zero_block_def)

lemma wasm_encrypt_encrypts:
  assumes "bn_ok B" "is_block sigma" "0 \<le> sint (Value_Int n)"
  shows "\<exists>d. wasm_encrypt B E [Uint8Array m, Uint8Array (EonPublicKey_Marshal B pk), JSNumber n, Uint8Array sigma] =
      Inr (returnValue E d None) \<and>
    EncryptedMessage_Unmarshal B d = Inr (Encrypt B m pk (ComputeEpochID B (Value_Int n)) sigma)"
proof -
  obtain d where d: "EncryptedMessage_Marshal B (Encrypt B m pk (ComputeEpochID B (Value_Int n)) sigma) = Inr d"
    "EncryptedMessage_Unmarshal B d = Inr (Encrypt B m pk (ComputeEpochID B (Value_Int n)) sigma)"
    using Unmarshal_Marshal [OF assms(1) Encrypt_wf [of B m pk "ComputeEpochID B (Value_Int n)" sigma]] by blast
  have pk: "EonPublicKey_Unmarshal B (EonPublicKey_Marshal B pk) = Inr pk"
    using assms(1) by (simp add: EonPublicKey_Unmarshal_def EonPublicKey_Marshal_def G2_Unmarshal_Marshal1)
  with d assms(2,3) show ?thesis
    by (intro exI [of _ d])
      (simp add: wasm_encrypt_def or_return_def validateMessage_def validateEonPublicKey_def validateEpochIndex_def Let_def)
qed

text \<open>No argument makes it panic, as long as what calls itself \<open>Uint8Array\<close> is one.\<close>

definition genuine :: "js_value \<Rightarrow> bool" where
  "genuine v \<longleftrightarrow> (validateUint8Array v = Inr () \<longrightarrow> (\<exists>d. v = Uint8Array d))"

lemma validateUint8Array_cases: "validateUint8Array v = Inr () \<or> (\<exists>err. validateUint8Array v = Inl (Errorf err))"
  by (auto simp: validateUint8Array_def split: js_value.split)

lemma wasm_encrypt_no_panic:
  assumes "\<forall>v\<in>set args. genuine v"
  shows "\<exists>r. wasm_encrypt B E args = Inr r"
proof (cases "length args = 4")
  case False
  then show ?thesis by (simp add: wasm_encrypt_def)
next
  case True
  let ?m = "args ! 0" and ?pk = "args ! 1" and ?n = "args ! 2" and ?s = "args ! 3"
  have g: "genuine ?m" "genuine ?pk" "genuine ?s" using assms True by simp_all
  show ?thesis
  proof (cases "validateMessage ?m = Inr () \<and> validateEonPublicKey ?pk = Inr () \<and> validateEpochIndex ?n = Inr () \<and> validateSigma ?s = Inr ()")
    case valid: True
    then have "validateUint8Array ?s = Inr ()"
      by (auto simp: validateSigma_def validateBlock_def elim: result_bindE)
    then obtain m pk s where v: "?m = Uint8Array m" "?pk = Uint8Array pk" "?s = Uint8Array s"
      using g valid by (auto simp: genuine_def validateMessage_def validateEonPublicKey_def)
    have copy: "\<exists>d. CopyBytesToGo zero_block (Uint8Array s) = Inr d" by (simp add: Uint8Array_def)
    have key: "(\<exists>k. EonPublicKey_Unmarshal B pk = Inr k) \<or> (\<exists>err. EonPublicKey_Unmarshal B pk = Inl (Errorf err))"
      by (auto simp: EonPublicKey_Unmarshal_def split: option.split)
    from copy key True valid v show ?thesis
      by (auto simp: wasm_encrypt_def or_return_def Let_def EncryptedMessage_Marshal_def Encrypt_def)
  next
    case invalid: False
    have "validateEpochIndex ?n = Inr () \<or> (\<exists>err. validateEpochIndex ?n = Inl (Errorf err))"
      by (auto simp: validateEpochIndex_def split: js_value.split)
    moreover have "validateSigma ?s = Inr () \<or> (\<exists>err. validateSigma ?s = Inl (Errorf err))"
    proof (cases "validateUint8Array ?s = Inr ()")
      case True
      then obtain s where "?s = Uint8Array s" using g by (auto simp: genuine_def)
      then show ?thesis by (simp add: validateSigma_def validateBlock_def) (simp add: Uint8Array_def)
    next
      case False
      then show ?thesis using validateUint8Array_cases [of ?s] by (auto simp: validateSigma_def validateBlock_def)
    qed
    ultimately show ?thesis
      using invalid validateUint8Array_cases [of ?m] validateUint8Array_cases [of ?pk] True
      by (auto simp: wasm_encrypt_def or_return_def Let_def validateMessage_def validateEonPublicKey_def)
  qed
qed

text \<open>
  \<open>tx\<close> is what a user submits to the batcher contract for the message \<open>m\<close>: the page passes a number that Go
  reads as the epoch, and the function returns without an error.
\<close>

definition user_tx ::
  "('g1, 'g2, 'gt) bn256 \<Rightarrow> ('pk, 'sk, 'ek, 'dk) eth \<Rightarrow> 'g2 \<Rightarrow> u64 \<Rightarrow> bytes \<Rightarrow> bytes \<Rightarrow> bool" where
  "user_tx B E pk epoch m tx \<longleftrightarrow> (\<exists>sigma n r. is_block sigma \<and> Value_Int n = epoch \<and>
     wasm_encrypt B E [Uint8Array m, Uint8Array (EonPublicKey_Marshal B pk), JSNumber n, Uint8Array sigma] = Inr r \<and>
     wr_error r = None \<and> hexutil_Decode E (wr_encryptedMessage r) = Inr tx)"

lemma user_tx_encrypted:
  assumes "bn_ok B" "eth_ok E" "user_tx B E pk epoch m tx"
  obtains sigma where "is_block sigma" "EncryptedMessage_Unmarshal B tx = Inr (Encrypt B m pk (ComputeEpochID B epoch) sigma)"
proof -
  from assms(3) obtain sigma n r where r: "is_block sigma" "hexutil_Decode E (wr_encryptedMessage r) = Inr tx"
    "wasm_encrypt B E [Uint8Array m, Uint8Array (EonPublicKey_Marshal B pk), JSNumber n, Uint8Array sigma] = Inr r"
    "Value_Int n = epoch" "wr_error r = None"
    unfolding user_tx_def by blast
  have "0 \<le> sint (Value_Int n)"
  proof (rule ccontr)
    assume "\<not> 0 \<le> sint (Value_Int n)"
    then have "wr_error r \<noteq> None"
      using r(3) by (auto simp: wasm_encrypt_def or_return_def validateMessage_def validateEonPublicKey_def
          validateEpochIndex_def errorReturnValue_def returnValue_def)
    with r(5) show False by simp
  qed
  from wasm_encrypt_encrypts [OF assms(1) r(1) this, of E m pk] r(3,4)
  obtain d where d: "r = returnValue E d None"
    "EncryptedMessage_Unmarshal B d = Inr (Encrypt B m pk (ComputeEpochID B epoch) sigma)" by auto
  with r(2) assms(2) have "tx = d" by (simp add: returnValue_def hexutil_laws)
  with d(2) r(1) that show thesis by simp
qed

section \<open>From users to keypers\<close>

lemma mset_map_filter: "mset (List.map_filter f xs) = image_mset (the \<circ> f) (filter_mset (\<lambda>x. f x \<noteq> None) (mset xs))"
  by (simp add: List.map_filter_def)

lemma map_filter_mono: "mset xs \<subseteq># mset ys \<Longrightarrow> mset (List.map_filter f xs) \<subseteq># mset (List.map_filter f ys)"
  unfolding mset_map_filter by (intro image_mset_subseteq_mono multiset_filter_mono)

text \<open>A key that decrypts what users encrypt gives all their messages back, in some order.\<close>

lemma user_messages_decrypt:
  assumes "bn_ok B" "eth_ok E" "\<And>s k n. 0 < n \<Longrightarrow> int31n s k n < n"
    and key: "\<And>m sigma. is_block sigma \<Longrightarrow> Decrypt B (Encrypt B m pk (ComputeEpochID B epoch) sigma) k = Inr m"
    and users: "\<forall>(m, tx)\<in>set sent. user_tx B E pk epoch m tx" "mset (map snd sent) \<subseteq># mset (mb_EncryptedTransactions batch)"
  shows "mset (map fst sent) \<subseteq># mset (DecryptTransactions B int31n batch k)"
proof -
  have "decrypt_transaction B k tx = Some m" if "user_tx B E pk epoch m tx" for m tx
  proof -
    from user_tx_encrypted [OF assms(1,2) that] obtain sigma where
      "is_block sigma" "EncryptedMessage_Unmarshal B tx = Inr (Encrypt B m pk (ComputeEpochID B epoch) sigma)" .
    with key show ?thesis by (simp add: decrypt_transaction_def)
  qed
  with users(1) have "List.map_filter (decrypt_transaction B k) (map snd sent) = map fst sent"
    by (induction sent) (auto simp: List.map_filter_simps)
  with map_filter_mono [OF users(2), of "decrypt_transaction B k"] show ?thesis
    unfolding DecryptTransactions_def by (simp add: Shuffle_mset [OF assms(3)])
qed

end
