(* ===== verification/WaitTx.thy ===== *)
theory WaitTx
  imports Prelude
begin

text \<open>
  Waiting for transactions: \<open>WaitMined\<close> and \<open>WaitMinedMany\<close> of \<open>medley/medley.go\<close> and \<open>waitForTransactions\<close> of
  \<open>sandbox/prepare/prepare.go\<close>. \<open>node\<close> gives the answers of the Ethereum node to the first, the second and every
  further question for the receipt of a transaction: an error, \<open>None\<close> for \<open>ethereum.NotFound\<close>, or the status in
  the receipt.
\<close>

partial_function (option) WaitMined :: "(nat \<Rightarrow> u64 option result) \<Rightarrow> nat \<Rightarrow> u64 result option" where
  "WaitMined node n =
     (case node n of
        Inl err \<Rightarrow> Some (Inl err)
      | Inr None \<Rightarrow> WaitMined node (Suc n)
      | Inr (Some receipt) \<Rightarrow> Some (Inr receipt))"

text \<open>The receipts so far, and whether an error ended the loop.\<close>

fun wait_receipts :: "('tx \<Rightarrow> nat \<Rightarrow> u64 option result) \<Rightarrow> 'tx list \<Rightarrow> (u64 list \<times> unit result) option" where
  "wait_receipts node [] = Some ([], Inr ())"
| "wait_receipts node (tx # txs) =
     Option.bind (WaitMined (node tx) 0) (\<lambda>r.
       case r of
         Inl err \<Rightarrow> Some ([], Inl err)
       | Inr receipt \<Rightarrow> Option.bind (wait_receipts node txs) (\<lambda>(res, e). Some (receipt # res, e)))"

definition WaitMinedMany :: "('tx \<Rightarrow> nat \<Rightarrow> u64 option result) \<Rightarrow> 'tx list \<Rightarrow> (u64 list \<times> unit result) option" where
  "WaitMinedMany node txHashes =
     Option.bind (wait_receipts node txHashes) (\<lambda>(res, e).
       Some (case e of
               Inl err \<Rightarrow> (res, Inl err)
             | Inr _ \<Rightarrow>
                 let failedTxs = filter (\<lambda>i. res ! i \<noteq> 1) [0..<length res]
                 in if failedTxs \<noteq> [] then (res, Inl (Errorf ''some txs have failed, the first being'')) else (res, Inr ())))"

definition waitForTransactions :: "('tx \<Rightarrow> nat \<Rightarrow> u64 option result) \<Rightarrow> 'tx list \<Rightarrow> (u64 list \<times> unit result) option" where
  "waitForTransactions node txs =
     Option.bind (wait_receipts node txs) (\<lambda>(res, e).
       Some (case e of
               Inl err \<Rightarrow> (res, Inl err)
             | Inr _ \<Rightarrow>
                 let failedTxs = filter (\<lambda>i. res ! i \<noteq> 1) [0..<length res]
                 in if failedTxs \<noteq> [] then (res, Inl (Errorf ''some txs have failed'')) else (res, Inr ())))"

text \<open>A transaction is mined: the node answers some question with the receipt, and all before with \<open>NotFound\<close>.\<close>

definition mined :: "(nat \<Rightarrow> u64 option result) \<Rightarrow> u64 \<Rightarrow> bool" where
  "mined answers status \<longleftrightarrow> (\<exists>n. (\<forall>k<n. answers k = Inr None) \<and> answers n = Inr (Some status))"

lemma WaitMined_from:
  "\<forall>k<m. answers (n + k) = Inr None \<Longrightarrow> answers (n + m) = Inr (Some status) \<Longrightarrow> WaitMined answers n = Some (Inr status)"
proof (induction m arbitrary: n)
  case 0
  then show ?case by (simp add: WaitMined.simps)
next
  case (Suc m)
  have "answers n = Inr None" using Suc.prems(1) by force
  moreover have "WaitMined answers (Suc n) = Some (Inr status)"
  proof (rule Suc.IH)
    show "\<forall>k<m. answers (Suc n + k) = Inr None" using Suc.prems(1) by (metis Suc_mono add_Suc_shift)
    show "answers (Suc n + m) = Inr (Some status)" using Suc.prems(2) by simp
  qed
  ultimately show ?case by (subst WaitMined.simps) simp
qed

lemma WaitMined_mined: "mined answers status \<Longrightarrow> WaitMined answers 0 = Some (Inr status)"
  unfolding mined_def using WaitMined_from [of _ answers 0] by force

lemma wait_receipts_mined:
  "list_all2 (\<lambda>tx. mined (node tx)) txs statuses \<Longrightarrow> wait_receipts node txs = Some (statuses, Inr ())"
  by (induction rule: list_all2_induct) (simp_all add: WaitMined_mined)

lemma none_failed: "filter (\<lambda>i. xs ! i \<noteq> v) [0..<length xs] = [] \<longleftrightarrow> (\<forall>x\<in>set xs. x = v)"
  by (auto simp: filter_empty_conv all_set_conv_all_nth)

lemma waitForTransactions_mined:
  assumes "list_all2 (\<lambda>tx. mined (node tx)) txs statuses"
  shows "waitForTransactions node txs =
    Some (statuses, if \<forall>s\<in>set statuses. s = 1 then Inr () else Inl (Errorf ''some txs have failed''))"
  using wait_receipts_mined [OF assms]
  by (simp add: waitForTransactions_def Let_def none_failed)

lemma WaitMinedMany_mined:
  assumes "list_all2 (\<lambda>tx. mined (node tx)) txs statuses"
  shows "WaitMinedMany node txs =
    Some (statuses, if \<forall>s\<in>set statuses. s = 1 then Inr () else Inl (Errorf ''some txs have failed, the first being''))"
  using wait_receipts_mined [OF assms]
  by (simp add: WaitMinedMany_def Let_def none_failed)

end
