(* ===== verification/SetNext.thy ===== *)
theory SetNext
  imports ContractConfig Extern WaitTx
begin

text \<open>
  \<open>cmd/config/setnext.go\<close> with the JSON form of a batch config (\<open>sandbox/contracts.go\<close>): the transactions
  that turn the next config of the config contract into the one the owner wrote into a file. The setters of
  the contract (\<open>contracts/contracts/ConfigContract.sol\<close>) are modelled too, so that the theorems can say what
  is stored in the end.
\<close>

section \<open>A batch config in JSON\<close>

record ConfigJSON =
  cj_StartBatchIndex :: u64
  cj_StartBlockNumber :: u64
  cj_Keypers :: "string list"
  cj_Threshold :: u64
  cj_BatchSpan :: u64
  cj_BatchSizeLimit :: u64
  cj_TransactionSizeLimit :: u64
  cj_TransactionGasLimit :: u64
  cj_FeeReceiver :: string
  cj_TargetAddress :: string
  cj_TargetFunctionSelector :: string
  cj_ExecutionTimeout :: u64

definition selectorLength :: nat where
  "selectorLength = 4"

definition validate_hex_address :: "('pk, 'sk, 'ek, 'dk) eth \<Rightarrow> string \<Rightarrow> unit result" where
  "validate_hex_address E address =
     (let addressParsed = HexToAddress E address
      in if Address_Hex E addressParsed \<noteq> address then Inl (Errorf ''invalid address'') else Inr ())"

definition validateTargetFunctionSelector :: "('pk, 'sk, 'ek, 'dk) eth \<Rightarrow> string \<Rightarrow> unit result" where
  "validateTargetFunctionSelector E selector =
     result_bind (hexutil_Decode E selector) (\<lambda>decoded.
     if length decoded \<noteq> selectorLength then Inl (Errorf ''target function selector must be 4 bytes long'')
     else Inr ())"

definition validateThreshold :: "u64 \<Rightarrow> nat \<Rightarrow> unit result" where
  "validateThreshold threshold numKeypers =
     (if numKeypers = 0 then Inl (Errorf ''there must be at least one keyper'')
      else if of_nat numKeypers < threshold then Inl (Errorf ''threshold must not be greater than number of keypers'')
      else if threshold = 0 then Inl (Errorf ''threshold must not be zero'')
      else Inr ())"

definition ConfigJSON_Validate :: "('pk, 'sk, 'ek, 'dk) eth \<Rightarrow> ConfigJSON \<Rightarrow> unit result" where
  "ConfigJSON_Validate E c =
     result_bind (collect (validate_hex_address E) ([cj_FeeReceiver c, cj_TargetAddress c] @ cj_Keypers c)) (\<lambda>_.
     result_bind (validateTargetFunctionSelector E (cj_TargetFunctionSelector c)) (\<lambda>_.
     validateThreshold (cj_Threshold c) (length (cj_Keypers c))))"

text \<open>\<open>hexutil.MustDecode\<close> panics instead of returning an error; four bytes of its result are copied.\<close>

definition ToBatchConfig :: "('pk, 'sk, 'ek, 'dk) eth \<Rightarrow> ConfigJSON \<Rightarrow> ContractConfig result" where
  "ToBatchConfig E c =
     (case hexutil_Decode E (cj_TargetFunctionSelector c) of
        Inl err \<Rightarrow> Inl (Panic ''hexutil.MustDecode'')
      | Inr selectorSlice \<Rightarrow> Inr
         \<lparr> cc_StartBatchIndex = cj_StartBatchIndex c,
           cc_StartBlockNumber = cj_StartBlockNumber c,
           cc_Threshold = cj_Threshold c,
           cc_BatchSpan = cj_BatchSpan c,
           cc_BatchSizeLimit = cj_BatchSizeLimit c,
           cc_TransactionSizeLimit = cj_TransactionSizeLimit c,
           cc_TransactionGasLimit = cj_TransactionGasLimit c,
           cc_FeeReceiver = HexToAddress E (cj_FeeReceiver c),
           cc_TargetAddress = HexToAddress E (cj_TargetAddress c),
           cc_TargetFunctionSelector = take 4 selectorSlice @ drop (length selectorSlice) (replicate 4 0),
           cc_ExecutionTimeout = cj_ExecutionTimeout c,
           cc_Keypers = map (HexToAddress E) (cj_Keypers c) \<rparr>)"

definition ConfigToJSON :: "('pk, 'sk, 'ek, 'dk) eth \<Rightarrow> ContractConfig \<Rightarrow> ConfigJSON" where
  "ConfigToJSON E config =
     \<lparr> cj_StartBatchIndex = cc_StartBatchIndex config,
       cj_StartBlockNumber = cc_StartBlockNumber config,
       cj_Keypers = map (Address_Hex E) (cc_Keypers config),
       cj_Threshold = cc_Threshold config,
       cj_BatchSpan = cc_BatchSpan config,
       cj_BatchSizeLimit = cc_BatchSizeLimit config,
       cj_TransactionSizeLimit = cc_TransactionSizeLimit config,
       cj_TransactionGasLimit = cc_TransactionGasLimit config,
       cj_FeeReceiver = Address_Hex E (cc_FeeReceiver config),
       cj_TargetAddress = Address_Hex E (cc_TargetAddress config),
       cj_TargetFunctionSelector = hexutil_Encode E (cc_TargetFunctionSelector config),
       cj_ExecutionTimeout = cc_ExecutionTimeout config \<rparr>"

section \<open>The transactions\<close>

datatype config_tx =
    SetStartBatchIndex u64
  | SetStartBlockNumber u64
  | SetThreshold u64
  | SetBatchSpan u64
  | SetBatchSizeLimit u64
  | SetTransactionSizeLimit u64
  | SetTransactionGasLimit u64
  | SetFeeReceiver address
  | SetTargetAddress address
  | SetTargetFunctionSelector bytes
  | SetExecutionTimeout u64
  | RemoveKeypers u64
  | AddKeypers "address list"

text \<open>\<open>addressesEqual\<close>: the loop over the indices of the first list.\<close>

definition addressesEqual :: "address list \<Rightarrow> address list \<Rightarrow> bool" where
  "addressesEqual s1 s2 = (length s1 = length s2 \<and> (\<forall>i<length s1. s1 ! i = s2 ! i))"

text \<open>The calls in their order, each if its field differs.\<close>

definition setNextTransactions :: "ContractConfig \<Rightarrow> ContractConfig \<Rightarrow> config_tx list" where
  "setNextTransactions newNextConfig currentNextConfig =
     (let changed = (\<lambda>differs txs. if differs then txs else [])
      in changed (cc_StartBatchIndex newNextConfig \<noteq> cc_StartBatchIndex currentNextConfig)
           [SetStartBatchIndex (cc_StartBatchIndex newNextConfig)] @
         changed (cc_StartBlockNumber newNextConfig \<noteq> cc_StartBlockNumber currentNextConfig)
           [SetStartBlockNumber (cc_StartBlockNumber newNextConfig)] @
         changed (cc_Threshold newNextConfig \<noteq> cc_Threshold currentNextConfig)
           [SetThreshold (cc_Threshold newNextConfig)] @
         changed (cc_BatchSpan newNextConfig \<noteq> cc_BatchSpan currentNextConfig)
           [SetBatchSpan (cc_BatchSpan newNextConfig)] @
         changed (cc_BatchSizeLimit newNextConfig \<noteq> cc_BatchSizeLimit currentNextConfig)
           [SetBatchSizeLimit (cc_BatchSizeLimit newNextConfig)] @
         changed (cc_TransactionSizeLimit newNextConfig \<noteq> cc_TransactionSizeLimit currentNextConfig)
           [SetTransactionSizeLimit (cc_TransactionSizeLimit newNextConfig)] @
         changed (cc_TransactionGasLimit newNextConfig \<noteq> cc_TransactionGasLimit currentNextConfig)
           [SetTransactionGasLimit (cc_TransactionGasLimit newNextConfig)] @
         changed (cc_FeeReceiver newNextConfig \<noteq> cc_FeeReceiver currentNextConfig)
           [SetFeeReceiver (cc_FeeReceiver newNextConfig)] @
         changed (cc_TargetAddress newNextConfig \<noteq> cc_TargetAddress currentNextConfig)
           [SetTargetAddress (cc_TargetAddress newNextConfig)] @
         changed (cc_TargetFunctionSelector newNextConfig \<noteq> cc_TargetFunctionSelector currentNextConfig)
           [SetTargetFunctionSelector (cc_TargetFunctionSelector newNextConfig)] @
         changed (cc_ExecutionTimeout newNextConfig \<noteq> cc_ExecutionTimeout currentNextConfig)
           [SetExecutionTimeout (cc_ExecutionTimeout newNextConfig)] @
         changed (\<not> addressesEqual (cc_Keypers newNextConfig) (cc_Keypers currentNextConfig))
           [RemoveKeypers (of_nat (length (cc_Keypers currentNextConfig))), AddKeypers (cc_Keypers newNextConfig)])"

text \<open>
  \<open>addTx\<close> counts the nonce up; the first call that fails ends the function with the transactions sent so far.
  \<open>send\<close> is the binding: the nonce and the call, and whether it could be sent.
\<close>

fun send_txs :: "(int \<Rightarrow> 'call \<Rightarrow> 'tx result) \<Rightarrow> int \<Rightarrow> 'call list \<Rightarrow> 'tx list \<times> unit result" where
  "send_txs send nonce [] = ([], Inr ())"
| "send_txs send nonce (tx # txs) =
     (case send nonce tx of
        Inl err \<Rightarrow> ([], Inl err)
      | Inr t \<Rightarrow> (case send_txs send (nonce + 1) txs of (ts, r) \<Rightarrow> (t # ts, r)))"

definition sendSetNextTransactions ::
  "(int \<Rightarrow> config_tx \<Rightarrow> 'tx result) \<Rightarrow> int \<Rightarrow> ContractConfig \<Rightarrow> ContractConfig \<Rightarrow> 'tx list \<times> unit result" where
  "sendSetNextTransactions send nonce newNextConfig currentNextConfig =
     send_txs send nonce (setNextTransactions newNextConfig currentNextConfig)"

text \<open>\<open>setNext\<close>, with the file read and the key parsed: the transactions it waits for.\<close>

definition setNext ::
  "('pk, 'sk, 'ek, 'dk) eth \<Rightarrow> (int \<Rightarrow> config_tx \<Rightarrow> 'tx result) \<Rightarrow> int \<Rightarrow> config_contract \<Rightarrow> ConfigJSON \<Rightarrow> 'tx list result" where
  "setNext E send nonce cc configJSON =
     result_bind (ConfigJSON_Validate E configJSON) (\<lambda>_.
     result_bind (ToBatchConfig E configJSON) (\<lambda>batchConfig.
     result_bind (GetNextConfig cc) (\<lambda>currentNextConfig.
     case sendSetNextTransactions send nonce batchConfig currentNextConfig of
       (txs, Inl err) \<Rightarrow> Inl err
     | (txs, Inr _) \<Rightarrow> Inr txs)))"

text \<open>The whole command: it waits for the transactions; \<open>None\<close> when one of them is never mined.\<close>

definition setNext_command ::
  "('pk, 'sk, 'ek, 'dk) eth \<Rightarrow> (int \<Rightarrow> config_tx \<Rightarrow> 'tx result) \<Rightarrow> ('tx \<Rightarrow> nat \<Rightarrow> u64 option result) \<Rightarrow> int \<Rightarrow> config_contract \<Rightarrow>
   ConfigJSON \<Rightarrow> unit result option" where
  "setNext_command E send node nonce cc configJSON =
     (case setNext E send nonce cc configJSON of
        Inl err \<Rightarrow> Some (Inl err)
      | Inr txs \<Rightarrow> Option.bind (WaitMinedMany node txs) (\<lambda>(res, e). Some e))"

text \<open>\<open>cmd/config/query.go\<close>: the next config, the last one or the one with the index, in JSON.\<close>

definition query :: "('pk, 'sk, 'ek, 'dk) eth \<Rightarrow> config_contract \<Rightarrow> string \<Rightarrow> ConfigJSON result" where
  "query E cc Index =
     result_bind
      (if Index = ''next'' then GetNextConfig cc
       else result_bind
         (if Index = ''last''
          then result_bind (call_NumConfigs cc) (\<lambda>numConfigs.
            if numConfigs = 0 then Inl (Errorf ''no configs scheduled in contract'') else Inr (numConfigs - 1))
          else ParseUint Index)
         (GetConfigByIndex cc))
      (\<lambda>config. Inr (ConfigToJSON E config))"

section \<open>The contract\<close>

text \<open>The setters of the next config; \<open>require\<close> reverts the transaction, which changes nothing.\<close>

fun nextConfig_step :: "config_tx \<Rightarrow> ContractConfig \<Rightarrow> ContractConfig" where
  "nextConfig_step (SetStartBatchIndex x) c = c \<lparr> cc_StartBatchIndex := x \<rparr>"
| "nextConfig_step (SetStartBlockNumber x) c = c \<lparr> cc_StartBlockNumber := x \<rparr>"
| "nextConfig_step (SetThreshold x) c = c \<lparr> cc_Threshold := x \<rparr>"
| "nextConfig_step (SetBatchSpan x) c = c \<lparr> cc_BatchSpan := x \<rparr>"
| "nextConfig_step (SetBatchSizeLimit x) c = c \<lparr> cc_BatchSizeLimit := x \<rparr>"
| "nextConfig_step (SetTransactionSizeLimit x) c = c \<lparr> cc_TransactionSizeLimit := x \<rparr>"
| "nextConfig_step (SetTransactionGasLimit x) c = c \<lparr> cc_TransactionGasLimit := x \<rparr>"
| "nextConfig_step (SetFeeReceiver x) c = c \<lparr> cc_FeeReceiver := x \<rparr>"
| "nextConfig_step (SetTargetAddress x) c = c \<lparr> cc_TargetAddress := x \<rparr>"
| "nextConfig_step (SetTargetFunctionSelector x) c = c \<lparr> cc_TargetFunctionSelector := x \<rparr>"
| "nextConfig_step (SetExecutionTimeout x) c = c \<lparr> cc_ExecutionTimeout := x \<rparr>"
| "nextConfig_step (RemoveKeypers n) c =
     c \<lparr> cc_Keypers := (if unat n \<le> length (cc_Keypers c) then take (length (cc_Keypers c) - unat n) (cc_Keypers c) else []) \<rparr>"
| "nextConfig_step (AddKeypers ks) c =
     (if length (cc_Keypers c) + length ks \<le> 2 ^ 64 - 1 then c \<lparr> cc_Keypers := cc_Keypers c @ ks \<rparr> else c)"

definition nextConfig_steps :: "config_tx list \<Rightarrow> ContractConfig \<Rightarrow> ContractConfig" where
  "nextConfig_steps txs c = fold nextConfig_step txs c"

text \<open>The getters of the next config, as the binding calls them.\<close>

definition next_getters :: "ContractConfig \<Rightarrow> config_contract \<Rightarrow> bool" where
  "next_getters c cc \<longleftrightarrow> length (cc_Keypers c) < 2 ^ 64 \<and>
     call_NextConfig cc = Inr (ConfigFields.truncate c) \<and>
     call_NextConfigNumKeypers cc = Inr (of_nat (length (cc_Keypers c))) \<and>
     (\<forall>i. unat i < length (cc_Keypers c) \<longrightarrow> call_NextConfigKeypers cc i = Inr (cc_Keypers c ! unat i))"

section \<open>What is stored in the end\<close>

lemma addressesEqual_iff [simp]: "addressesEqual xs ys \<longleftrightarrow> xs = ys"
  by (auto simp: addressesEqual_def intro: nth_equalityI)

text \<open>A field that is set, if it differs, has the new value.\<close>

lemma nextConfig_steps_append [simp]: "nextConfig_steps (xs @ ys) c = nextConfig_steps ys (nextConfig_steps xs c)"
  by (simp add: nextConfig_steps_def)

lemma nextConfig_steps_Cons: "nextConfig_steps (tx # txs) c = nextConfig_steps txs (nextConfig_step tx c)" "nextConfig_steps [] c = c"
  by (simp_all add: nextConfig_steps_def)

lemma set_if_differs:
  fixes c :: ContractConfig
  shows "cc_StartBatchIndex c = y \<Longrightarrow> nextConfig_steps (if x \<noteq> y then [SetStartBatchIndex x] else []) c = c \<lparr> cc_StartBatchIndex := x \<rparr>"
    and "cc_StartBlockNumber c = y \<Longrightarrow> nextConfig_steps (if x \<noteq> y then [SetStartBlockNumber x] else []) c = c \<lparr> cc_StartBlockNumber := x \<rparr>"
    and "cc_Threshold c = y \<Longrightarrow> nextConfig_steps (if x \<noteq> y then [SetThreshold x] else []) c = c \<lparr> cc_Threshold := x \<rparr>"
    and "cc_BatchSpan c = y \<Longrightarrow> nextConfig_steps (if x \<noteq> y then [SetBatchSpan x] else []) c = c \<lparr> cc_BatchSpan := x \<rparr>"
    and "cc_BatchSizeLimit c = y \<Longrightarrow> nextConfig_steps (if x \<noteq> y then [SetBatchSizeLimit x] else []) c = c \<lparr> cc_BatchSizeLimit := x \<rparr>"
    and "cc_TransactionSizeLimit c = y \<Longrightarrow> nextConfig_steps (if x \<noteq> y then [SetTransactionSizeLimit x] else []) c = c \<lparr> cc_TransactionSizeLimit := x \<rparr>"
    and "cc_TransactionGasLimit c = y \<Longrightarrow> nextConfig_steps (if x \<noteq> y then [SetTransactionGasLimit x] else []) c = c \<lparr> cc_TransactionGasLimit := x \<rparr>"
    and "cc_FeeReceiver c = a' \<Longrightarrow> nextConfig_steps (if a \<noteq> a' then [SetFeeReceiver a] else []) c = c \<lparr> cc_FeeReceiver := a \<rparr>"
    and "cc_TargetAddress c = a' \<Longrightarrow> nextConfig_steps (if a \<noteq> a' then [SetTargetAddress a] else []) c = c \<lparr> cc_TargetAddress := a \<rparr>"
    and "cc_TargetFunctionSelector c = d' \<Longrightarrow> nextConfig_steps (if d \<noteq> d' then [SetTargetFunctionSelector d] else []) c = c \<lparr> cc_TargetFunctionSelector := d \<rparr>"
    and "cc_ExecutionTimeout c = y \<Longrightarrow> nextConfig_steps (if x \<noteq> y then [SetExecutionTimeout x] else []) c = c \<lparr> cc_ExecutionTimeout := x \<rparr>"
  by (auto simp: nextConfig_steps_Cons)

text \<open>The keypers of the contract can hold one twice; the caller counts every keyper once.\<close>

definition stored_keypers :: "address list \<Rightarrow> address list \<Rightarrow> address list" where
  "stored_keypers new stored =
     (if new = DedupAddresses stored then stored
      else take (length stored - length (DedupAddresses stored)) stored @ new)"

lemma DedupAddresses_length: "length (DedupAddresses addrs) \<le> length addrs"
  by (metis DedupAddresses_distinct DedupAddresses_set card_length distinct_card)

lemma DedupAddresses_shorter: "\<not> distinct addrs \<Longrightarrow> length (DedupAddresses addrs) < length addrs"
  by (metis DedupAddresses_distinct DedupAddresses_length DedupAddresses_set card_distinct distinct_card le_neq_implies_less)

lemma set_keypers:
  assumes "y = DedupAddresses (cc_Keypers c)" "length (cc_Keypers c) < 2 ^ 64"
    and "length (cc_Keypers c) - length y + length x \<le> 2 ^ 64 - 1"
  shows "nextConfig_steps (if \<not> addressesEqual x y then [RemoveKeypers (of_nat (length y)), AddKeypers x] else []) c =
    c \<lparr> cc_Keypers := stored_keypers x (cc_Keypers c) \<rparr>"
proof -
  have le: "length y \<le> length (cc_Keypers c)" by (simp add: assms(1) DedupAddresses_length)
  then have "unat (of_nat (length y) :: u64) = length y" using assms(2) by (intro unat_of_nat_u64) simp
  with assms(1,3) le show ?thesis
    by (cases c) (simp add: nextConfig_steps_Cons stored_keypers_def)
qed

lemma setNextTransactions_store:
  assumes "length (cc_Keypers stored) < 2 ^ 64"
    and "length (cc_Keypers stored) - length (DedupAddresses (cc_Keypers stored)) + length (cc_Keypers new) \<le> 2 ^ 64 - 1"
  shows "nextConfig_steps (setNextTransactions new (stored \<lparr> cc_Keypers := DedupAddresses (cc_Keypers stored) \<rparr>)) stored =
    new \<lparr> cc_Keypers := stored_keypers (cc_Keypers new) (cc_Keypers stored) \<rparr>"
proof -
  let ?dedup = "DedupAddresses (cc_Keypers stored)"
  let ?c = "new \<lparr> cc_Keypers := cc_Keypers stored \<rparr>"
  have keypers: "nextConfig_steps (if \<not> addressesEqual (cc_Keypers new) ?dedup
      then [RemoveKeypers (of_nat (length ?dedup)), AddKeypers (cc_Keypers new)] else []) ?c =
    ?c \<lparr> cc_Keypers := stored_keypers (cc_Keypers new) (cc_Keypers ?c) \<rparr>"
    by (rule set_keypers) (use assms in simp_all)
  have others: "stored
     \<lparr> cc_StartBatchIndex := cc_StartBatchIndex new, cc_StartBlockNumber := cc_StartBlockNumber new,
       cc_Threshold := cc_Threshold new, cc_BatchSpan := cc_BatchSpan new, cc_BatchSizeLimit := cc_BatchSizeLimit new,
       cc_TransactionSizeLimit := cc_TransactionSizeLimit new, cc_TransactionGasLimit := cc_TransactionGasLimit new,
       cc_FeeReceiver := cc_FeeReceiver new, cc_TargetAddress := cc_TargetAddress new,
       cc_TargetFunctionSelector := cc_TargetFunctionSelector new, cc_ExecutionTimeout := cc_ExecutionTimeout new \<rparr> = ?c"
    by simp
  show ?thesis
    unfolding setNextTransactions_def Let_def nextConfig_steps_append
    by (simp add: set_if_differs others keypers del: addressesEqual_iff split del: if_split cong: if_cong)
qed

lemma collect_upto64:
  assumes "unat n = length xs" "\<And>i. unat i < length xs \<Longrightarrow> f i = Inr (xs ! unat i)"
  shows "collect f (upto64 n) = Inr xs"
proof -
  have "f (of_nat i) = Inr (xs ! i)" if "i < length xs" for i
  proof -
    have "unat (of_nat i :: u64) = i" using that assms(1) unat_less_u64 [of n] by (intro unat_of_nat_u64) simp
    then show ?thesis using assms(2) [of "of_nat i"] that by simp
  qed
  with assms(1) show ?thesis by (simp add: collect_Inr_iff list_all2_conv_all_nth)
qed

lemma GetNextConfig_next_getters:
  assumes "next_getters c cc"
  shows "GetNextConfig cc = Inr (c \<lparr> cc_Keypers := DedupAddresses (cc_Keypers c) \<rparr>)"
proof -
  have n: "unat (of_nat (length (cc_Keypers c)) :: u64) = length (cc_Keypers c)"
    using assms by (intro unat_of_nat_u64) (simp add: next_getters_def)
  have "collect (call_NextConfigKeypers cc) (upto64 (of_nat (length (cc_Keypers c)))) = Inr (cc_Keypers c)"
    by (rule collect_upto64) (use assms n in \<open>simp_all add: next_getters_def\<close>)
  with assms show ?thesis
    by (cases c) (simp add: GetNextConfig_def GetNextConfigKeypers_def next_getters_def ConfigFields.truncate_def)
qed

lemma send_txs_calls:
  "(\<And>n tx t. send n tx = Inr t \<Longrightarrow> call t = tx) \<Longrightarrow> send_txs send nonce txs = (ts, Inr u) \<Longrightarrow> map call ts = txs"
  by (induction txs arbitrary: nonce ts) (auto split: sum.splits prod.splits)

lemma collect_InrD: "collect f xs = Inr ys \<Longrightarrow> x \<in> set xs \<Longrightarrow> \<exists>y. f x = Inr y"
  unfolding collect_Inr_iff by (induction rule: list_all2_induct) auto

text \<open>A validated file is read exactly, and written back as it was, but for the digits of the selector.\<close>

lemma ToBatchConfig_valid:
  assumes "ConfigJSON_Validate E c = Inr ()"
  obtains bc where "ToBatchConfig E c = Inr bc"
    "hexutil_Decode E (cj_TargetFunctionSelector c) = Inr (cc_TargetFunctionSelector bc)"
    "ConfigToJSON E bc = c \<lparr> cj_TargetFunctionSelector := hexutil_Encode E (cc_TargetFunctionSelector bc) \<rparr>"
    "0 < cc_Threshold bc" "cc_Threshold bc \<le> of_nat (length (cc_Keypers bc))"
proof -
  obtain us where us: "collect (validate_hex_address E) ([cj_FeeReceiver c, cj_TargetAddress c] @ cj_Keypers c) = Inr us"
    and sel: "validateTargetFunctionSelector E (cj_TargetFunctionSelector c) = Inr ()"
    and thr: "validateThreshold (cj_Threshold c) (length (cj_Keypers c)) = Inr ()"
    using assms by (auto simp: ConfigJSON_Validate_def elim!: result_bindE)
  have "\<forall>a\<in>set ([cj_FeeReceiver c, cj_TargetAddress c] @ cj_Keypers c). Address_Hex E (HexToAddress E a) = a"
  proof
    fix a
    assume "a \<in> set ([cj_FeeReceiver c, cj_TargetAddress c] @ cj_Keypers c)"
    with collect_InrD [OF us] obtain u where "validate_hex_address E a = Inr u" by blast
    then show "Address_Hex E (HexToAddress E a) = a" by (simp add: validate_hex_address_def Let_def split: if_splits)
  qed
  then have addr: "Address_Hex E (HexToAddress E (cj_FeeReceiver c)) = cj_FeeReceiver c"
    "Address_Hex E (HexToAddress E (cj_TargetAddress c)) = cj_TargetAddress c"
    "map (\<lambda>a. Address_Hex E (HexToAddress E a)) (cj_Keypers c) = cj_Keypers c"
    by (simp_all add: map_idI)
  obtain d where d: "hexutil_Decode E (cj_TargetFunctionSelector c) = Inr d" "length d = 4"
    using sel by (auto simp: validateTargetFunctionSelector_def selectorLength_def elim!: result_bindE split: if_splits)
  have t: "0 < cj_Threshold c" "cj_Threshold c \<le> of_nat (length (cj_Keypers c))"
    using thr by (auto simp: validateThreshold_def word_gt_0 split: if_splits)
  obtain bc where bc: "ToBatchConfig E c = Inr bc" by (simp add: ToBatchConfig_def d)
  then have "cc_TargetFunctionSelector bc = d" "cc_Threshold bc = cj_Threshold c" "length (cc_Keypers bc) = length (cj_Keypers c)"
    "ConfigToJSON E bc = c \<lparr> cj_TargetFunctionSelector := hexutil_Encode E d \<rparr>"
    by (auto simp: ToBatchConfig_def d ConfigToJSON_def addr o_def)
  with that [OF bc] d t show thesis by simp
qed

end
