(* ===== verification/UserProps.thy ===== *)
theory UserProps
  imports ShcryptoWasm SetNext SmallRun
begin

text \<open>
  What the people around the keypers can rely on: users who encrypt transactions on a web page, and the owner of
  the config contract who prepares the next config.
\<close>

section \<open>Users\<close>

text \<open>
  C6: From a web page to the keypers. Users encrypt messages for an epoch with the WebAssembly function and
  the eon public key of a key generation, and submit what it returns; others may put anything into the same
  batch. As soon as a keyper has threshold many shares of the epoch key, it decrypts the batch, and every
  message of the users is among the decrypted transactions, as often as it was sent.
\<close>

theorem user_messages_decrypted:
  assumes "bn_ok B" "eth_ok E" "wf_dkg B a" "sane_commitments a" "ComputeResult O' B a = Inr r"
    and "0 < pd_Threshold a" "pd_Threshold a \<le> pd_NumKeypers a"
    and "unat (pd_NumKeypers a) < 2 ^ 63" "int (unat (pd_NumKeypers a)) \<le> Order B"
    and "unat (pd_Threshold a) \<le> card (kgs_Sender ` {sh\<in>set shs. keyper_share B a epoch sh})"
    and "\<And>s k n. 0 < n \<Longrightarrow> int31n s k n < n"
    and "\<forall>(m, tx)\<in>set sent. user_tx B E (res_PublicKey r) epoch m tx"
    and "mset (map snd sent) \<subseteq># mset (mb_EncryptedTransactions batch)"
  shows "\<exists>k. kg_SecretKeys (Handle_all B shs (NewEpochKG r)) epoch = Some (Some k) \<and>
    mset (map fst sent) \<subseteq># mset (DecryptTransactions B int31n batch k)"
proof -
  note key = collected_key_decrypts [OF assms(1,3-10)]
  from key [OF is_block_zero] obtain k where k: "kg_SecretKeys (Handle_all B shs (NewEpochKG r)) epoch = Some (Some k)"
    by blast
  have "Decrypt B (Encrypt B m (res_PublicKey r) (ComputeEpochID B epoch) sigma) k = Inr m" if "is_block sigma" for m sigma
    using key [OF that, of m] k by simp
  with assms(1,2,11-13) have "mset (map fst sent) \<subseteq># mset (DecryptTransactions B int31n batch k)"
    by (intro user_messages_decrypt) blast+
  with k show ?thesis by blast
qed

theorem user_messages_decrypted_witness:
  "\<exists>tx k. user_tx bn5 small_eth Z4 7 [1, 2, 3] tx \<and>
     kg_SecretKeys (Handle_all bn5 [small_share 0 2, small_share 1 0] (NewEpochKG (small_result 0 2))) 7 = Some (Some k) \<and>
     [1, 2, 3] \<in> set (DecryptTransactions bn5 (\<lambda>s k n. 0)
       \<lparr> mb_BatchIndex = 7, mb_EncryptedBatchHash = [], mb_EncryptedTransactions = [[9], tx], mb_PlainTransactions = [],
         mb_PlainBatchHash = [] \<rparr> k)"
proof -
  have senders: "kgs_Sender ` {sh\<in>set [small_share 0 2, small_share 1 0]. keyper_share bn5 (small_dkg 0 [3, 4]) 7 sh} = {0, 1}"
    using small_keyper_shares by force
  obtain d where "wasm_encrypt bn5 small_eth [Uint8Array [1, 2, 3], Uint8Array (EonPublicKey_Marshal bn5 Z4),
      JSNumber 7, Uint8Array zero_block] = Inr (returnValue small_eth d None)"
    using wasm_encrypt_encrypts [OF bn_ok_bn5 is_block_zero, of 7 small_eth "[1, 2, 3]" Z4] by (auto simp: Value_Int_def)
  then have tx: "user_tx bn5 small_eth Z4 7 [1, 2, 3] d"
    unfolding user_tx_def
    by (intro exI [of _ zero_block] exI [of _ 7] exI [of _ "returnValue small_eth d None"])
      (simp add: Value_Int_def returnValue_def hexutil_laws eth_ok_small is_block_zero)
  let ?batch = "\<lparr> mb_BatchIndex = 7, mb_EncryptedBatchHash = [], mb_EncryptedTransactions = [[9], d],
    mb_PlainTransactions = [], mb_PlainBatchHash = [] \<rparr>"
  have pk: "res_PublicKey (small_result 0 2) = Z4" by (simp add: small_result_def)
  have "mset (map snd [([1, 2, 3 :: byte], d)]) \<subseteq># mset (mb_EncryptedTransactions ?batch)" by simp
  with tx pk senders obtain k where k:
    "kg_SecretKeys (Handle_all bn5 [small_share 0 2, small_share 1 0] (NewEpochKG (small_result 0 2))) 7 = Some (Some k)"
    "mset (map fst [([1, 2, 3 :: byte], d)]) \<subseteq># mset (DecryptTransactions bn5 (\<lambda>s k n. 0) ?batch k)"
    using user_messages_decrypted [OF bn_ok_bn5 eth_ok_small small_wf(1) small_sane small_results(1),
        of "[small_share 0 2, small_share 1 0]" 7 "\<lambda>s k n. 0" "[([1, 2, 3], d)]" ?batch]
    by (auto simp: bn5_def)
  from mset_subset_eqD [OF k(2), of "[1, 2, 3]"] have "[1, 2, 3] \<in> set (DecryptTransactions bn5 (\<lambda>s k n. 0) ?batch k)" by simp
  with tx k(1) show ?thesis by blast
qed

section \<open>The owner of the contract\<close>

text \<open>
  C36: The next config of the contract becomes the one in the owner's file. When every transaction that
  \<open>set-next\<close> sends is executed, the command succeeds, all fields are those of the file, and so are the keypers, if the contract had
  no keyper twice; querying the next config then gives the file, if that has no keyper twice either, but for the
  spelling of the selector. If the
  contract had a keyper twice, which it does not forbid, \<open>set-next\<close> counts it once, removes too few keypers,
  and the old ones that remain are keypers of the new config.
\<close>

theorem set_next_stores_config:
  assumes "next_getters stored cc" "length (cc_Keypers stored) + length (cj_Keypers c) < 2 ^ 64"
    and "\<And>n tx t. send n tx = Inr t \<Longrightarrow> call t = tx"
    and "setNext E send nonce cc c = Inr txs" "list_all2 (\<lambda>tx. mined (node tx)) txs (replicate (length txs) 1)"
  shows "setNext_command E send node nonce cc c = Some (Inr ()) \<and>
    (\<exists>bc. ToBatchConfig E c = Inr bc \<and>
    (let stored' = nextConfig_steps (map call txs) stored
     in stored' = bc \<lparr> cc_Keypers := stored_keypers (cc_Keypers bc) (cc_Keypers stored) \<rparr> \<and>
       (distinct (cc_Keypers stored) \<longrightarrow> stored' = bc) \<and>
       (distinct (cc_Keypers stored) \<and> distinct (cj_Keypers c) \<longrightarrow> (\<forall>cc'. next_getters stored' cc' \<longrightarrow>
          query E cc' ''next'' = Inr (c \<lparr> cj_TargetFunctionSelector := hexutil_Encode E (cc_TargetFunctionSelector bc) \<rparr>))) \<and>
       (\<not> distinct (cc_Keypers stored) \<and> cc_Keypers bc \<noteq> DedupAddresses (cc_Keypers stored) \<longrightarrow>
          length (cc_Keypers bc) < length (cc_Keypers stored'))))"
proof -
  have returns: "setNext_command E send node nonce cc c = Some (Inr ())"
    using assms(4) WaitMinedMany_mined [OF assms(5)] by (simp add: setNext_command_def)
  from assms(4) have valid: "ConfigJSON_Validate E c = Inr ()" by (auto simp: setNext_def elim!: result_bindE)
  obtain bc where bc: "ToBatchConfig E c = Inr bc"
    "ConfigToJSON E bc = c \<lparr> cj_TargetFunctionSelector := hexutil_Encode E (cc_TargetFunctionSelector bc) \<rparr>"
    by (rule ToBatchConfig_valid [OF valid])
  have keypers: "map (Address_Hex E) (cc_Keypers bc) = cj_Keypers c"
    using arg_cong [OF bc(2), of cj_Keypers] by (simp add: ConfigToJSON_def)
  then have len: "length (cc_Keypers bc) = length (cj_Keypers c)" by (metis length_map)
  have read: "query E cc' ''next'' = Inr (c \<lparr> cj_TargetFunctionSelector := hexutil_Encode E (cc_TargetFunctionSelector bc) \<rparr>)"
    if "distinct (cj_Keypers c)" "next_getters bc cc'" for cc'
  proof -
    have "distinct (cc_Keypers bc)" using that(1) unfolding keypers [symmetric] by (simp add: distinct_map)
    then show ?thesis using GetNextConfig_next_getters [OF that(2)] by (simp add: query_def bc(2))
  qed
  let ?cur = "stored \<lparr> cc_Keypers := DedupAddresses (cc_Keypers stored) \<rparr>"
  from assms(4) have "send_txs send nonce (setNextTransactions bc ?cur) = (txs, Inr ())"
    by (simp add: setNext_def valid bc(1) GetNextConfig_next_getters [OF assms(1)] sendSetNextTransactions_def
        split: prod.splits sum.splits)
  from send_txs_calls [OF assms(3) this] have "map call txs = setNextTransactions bc ?cur" .
  then have result: "nextConfig_steps (map call txs) stored =
      bc \<lparr> cc_Keypers := stored_keypers (cc_Keypers bc) (cc_Keypers stored) \<rparr>"
    using setNextTransactions_store [of stored bc] assms(2) len by simp
  have same: "stored_keypers (cc_Keypers bc) (cc_Keypers stored) = cc_Keypers bc" if "distinct (cc_Keypers stored)"
    using that by (simp add: stored_keypers_def)
  have more: "length (cc_Keypers bc) < length (stored_keypers (cc_Keypers bc) (cc_Keypers stored))"
    if "\<not> distinct (cc_Keypers stored)" "cc_Keypers bc \<noteq> DedupAddresses (cc_Keypers stored)"
    using that DedupAddresses_shorter by (simp add: stored_keypers_def)
  show ?thesis
    using returns by (intro conjI exI [of _ bc]) (simp_all add: Let_def bc result same more read)
qed

definition small_file_config :: "address list \<Rightarrow> ContractConfig" where
  "small_file_config ks = \<lparr> cc_StartBatchIndex = 10, cc_StartBlockNumber = 200, cc_Threshold = 1, cc_BatchSpan = 5,
     cc_BatchSizeLimit = 100, cc_TransactionSizeLimit = 10, cc_TransactionGasLimit = 50, cc_FeeReceiver = 3,
     cc_TargetAddress = 4, cc_TargetFunctionSelector = [1, 2, 3, 4], cc_ExecutionTimeout = 8, cc_Keypers = ks \<rparr>"

definition small_getters :: "ContractConfig \<Rightarrow> config_contract" where
  "small_getters c = \<lparr> call_NumConfigs = Inr 0, call_Configs = (\<lambda>i. Inl (Errorf ''reverted'')),
     call_ConfigNumKeypers = (\<lambda>i. Inr 0), call_ConfigKeypers = (\<lambda>i k. Inl (Errorf ''reverted'')),
     call_NextConfig = Inr (ConfigFields.truncate c), call_NextConfigNumKeypers = Inr (of_nat (length (cc_Keypers c))),
     call_NextConfigKeypers = (\<lambda>i. if unat i < length (cc_Keypers c) then Inr (cc_Keypers c ! unat i) else Inl (Errorf ''reverted'')) \<rparr>"

theorem set_next_stores_config_witness:
  "\<exists>txs txs'. setNext small_eth (\<lambda>n tx. Inr tx) 5 (small_getters zero_ContractConfig) (ConfigToJSON small_eth (small_file_config [1, 2])) = Inr txs \<and>
     nextConfig_steps txs zero_ContractConfig = small_file_config [1, 2] \<and>
   setNext small_eth (\<lambda>n tx. Inr tx) 5 (small_getters (small_file_config [7, 7])) (ConfigToJSON small_eth (small_file_config [1, 2])) = Inr txs' \<and>
     2 < length (cc_Keypers (nextConfig_steps txs' (small_file_config [7, 7])))"
proof -
  let ?c = "ConfigToJSON small_eth (small_file_config [1, 2])" and ?send = "\<lambda>(n :: int) (tx :: config_tx). Inr tx :: config_tx result"
  have valid: "ConfigJSON_Validate small_eth ?c = Inr ()"
    by (simp add: ConfigJSON_Validate_def ConfigToJSON_def small_file_config_def validate_hex_address_def Let_def Address_Hex_ok [OF eth_ok_small]
        validateTargetFunctionSelector_def hexutil_laws [OF eth_ok_small] selectorLength_def validateThreshold_def)
  have bc: "ToBatchConfig small_eth ?c = Inr (small_file_config [1, 2])"
    by (simp add: ToBatchConfig_def ConfigToJSON_def small_file_config_def Address_Hex_ok [OF eth_ok_small] hexutil_laws [OF eth_ok_small])
  have getters: "next_getters zero_ContractConfig (small_getters zero_ContractConfig)"
    "next_getters (small_file_config [7, 7]) (small_getters (small_file_config [7, 7]))"
    by (simp_all add: next_getters_def small_getters_def zero_ContractConfig_def small_file_config_def)
  have sends: "send_txs ?send n txs = (txs, Inr ())" for n txs
    by (induction txs arbitrary: n) simp_all
  have runs: "\<exists>txs. setNext small_eth ?send 5 cc ?c = Inr txs" if "next_getters stored cc" for stored cc
    by (simp add: setNext_def valid bc GetNextConfig_next_getters [OF that] sendSetNextTransactions_def sends)
  obtain txs where txs: "setNext small_eth ?send 5 (small_getters zero_ContractConfig) ?c = Inr txs"
    using runs [OF getters(1)] by blast
  obtain txs' where txs': "setNext small_eth ?send 5 (small_getters (small_file_config [7, 7])) ?c = Inr txs'"
    using runs [OF getters(2)] by blast
  have "length (cc_Keypers zero_ContractConfig) + length (cj_Keypers ?c) < 2 ^ 64"
    "length (cc_Keypers (small_file_config [7, 7])) + length (cj_Keypers ?c) < 2 ^ 64"
    by (simp_all add: zero_ContractConfig_def ConfigToJSON_def small_file_config_def)
  moreover have "list_all2 (\<lambda>tx :: config_tx. mined (\<lambda>n. Inr (Some 1))) ts (replicate (length ts) 1)" for ts
    by (auto simp: list_all2_conv_all_nth mined_def intro: exI [of _ 0])
  ultimately have stores: "\<exists>bc. ToBatchConfig small_eth ?c = Inr bc \<and>
      (distinct (cc_Keypers zero_ContractConfig) \<longrightarrow> nextConfig_steps (map (\<lambda>t. t) txs) zero_ContractConfig = bc)"
    "\<exists>bc. ToBatchConfig small_eth ?c = Inr bc \<and>
      (\<not> distinct (cc_Keypers (small_file_config [7, 7])) \<and> cc_Keypers bc \<noteq> DedupAddresses (cc_Keypers (small_file_config [7, 7])) \<longrightarrow>
        length (cc_Keypers bc) < length (cc_Keypers (nextConfig_steps (map (\<lambda>t. t) txs') (small_file_config [7, 7]))))"
    using set_next_stores_config [OF getters(1) _ _ txs, where call = "\<lambda>t. t" and node = "\<lambda>tx n. Inr (Some 1)"]
      set_next_stores_config [OF getters(2) _ _ txs', where call = "\<lambda>t. t" and node = "\<lambda>tx n. Inr (Some 1)"]
    unfolding Let_def by blast+
  obtain b where b: "ToBatchConfig small_eth ?c = Inr b"
    "distinct (cc_Keypers zero_ContractConfig) \<longrightarrow> nextConfig_steps (map (\<lambda>t. t) txs) zero_ContractConfig = b"
    using stores(1) by blast
  obtain b' where b': "ToBatchConfig small_eth ?c = Inr b'"
    "\<not> distinct (cc_Keypers (small_file_config [7, 7])) \<and> cc_Keypers b' \<noteq> DedupAddresses (cc_Keypers (small_file_config [7, 7])) \<longrightarrow>
      length (cc_Keypers b') < length (cc_Keypers (nextConfig_steps (map (\<lambda>t. t) txs') (small_file_config [7, 7])))"
    using stores(2) by blast
  have "b = small_file_config [1, 2]" "b' = small_file_config [1, 2]" using b(1) b'(1) bc by simp_all
  moreover have "cc_Keypers zero_ContractConfig = []" "cc_Keypers (small_file_config ks) = ks" for ks
    by (simp_all add: zero_ContractConfig_def small_file_config_def)
  moreover have "DedupAddresses [7, 7] = [7]" by (simp add: DedupAddresses_def)
  ultimately have "nextConfig_steps txs zero_ContractConfig = small_file_config [1, 2]"
    "2 < length (cc_Keypers (nextConfig_steps txs' (small_file_config [7, 7])))"
    using b(2) b'(2) by simp_all
  with txs txs' show ?thesis by (intro exI conjI)
qed

end
