(* ===== verification/ConfigSchedule.thy ===== *)
theory ConfigSchedule
  imports SetNext ObserveMain WaitTx
begin

text \<open>
  How batch configs come into force: the config contract (\<open>contracts/contracts/ConfigContract.sol\<close>), the Go
  tools that schedule a config on it (\<open>sandbox/prepare/prepare.go\<close>, \<open>cmd/config/schedule.go\<close>) and the tool that
  sends transactions to the batch of the current block (\<open>sandbox/user/sendtxs.go\<close>).
\<close>

section \<open>The config contract\<close>

record ConfigStore =
  cs_configs :: "ContractConfig list"
  cs_nextConfig :: ContractConfig
  cs_headsUp :: u64

definition new_ConfigStore :: "u64 \<Rightarrow> ConfigStore" where
  "new_ConfigStore headsUp = \<lparr> cs_configs = [zero_ContractConfig], cs_nextConfig = zero_ContractConfig, cs_headsUp = headsUp \<rparr>"

text \<open>Solidity 0.8 reverts when a sum or a product does not fit: \<open>None\<close>.\<close>

definition checked_add :: "u64 \<Rightarrow> u64 \<Rightarrow> u64 option" where
  "checked_add a b = (if unat a + unat b < 2 ^ 64 then Some (a + b) else None)"

definition checked_mult :: "u64 \<Rightarrow> u64 \<Rightarrow> u64 option" where
  "checked_mult a b = (if unat a * unat b < 2 ^ 64 then Some (a * b) else None)"

definition require :: "bool \<Rightarrow> unit option" where
  "require b = (if b then Some () else None)"

text \<open>The check that no batch of the last config is cut short.\<close>

definition seamless_transition :: "ContractConfig \<Rightarrow> ContractConfig \<Rightarrow> unit option" where
  "seamless_transition config nextConfig =
     (if 0 < cc_BatchSpan config
      then Option.bind (require (cc_StartBatchIndex config < cc_StartBatchIndex nextConfig)) (\<lambda>_.
           let batchDelta = cc_StartBatchIndex nextConfig - cc_StartBatchIndex config
           in Option.bind (checked_mult (cc_BatchSpan config) batchDelta) (\<lambda>blocks.
              Option.bind (checked_add (cc_StartBlockNumber config) blocks) (\<lambda>start.
              require (start = cc_StartBlockNumber nextConfig))))
      else require (cc_StartBatchIndex nextConfig = cc_StartBatchIndex config))"

definition scheduleNextConfig :: "u64 \<Rightarrow> ConfigStore \<Rightarrow> ConfigStore option" where
  "scheduleNextConfig blockNumber s =
     Option.bind (require (length (cs_configs s) < 2 ^ 64 - 2)) (\<lambda>_.
     let config = last (cs_configs s);
         headsUp = (if cs_headsUp s < cc_BatchSpan config then cc_BatchSpan config else cs_headsUp s)
     in Option.bind (checked_add blockNumber headsUp) (\<lambda>b.
        Option.bind (checked_add b 1) (\<lambda>earliestStart.
        Option.bind (require (earliestStart \<le> cc_StartBlockNumber (cs_nextConfig s))) (\<lambda>_.
        Option.bind (seamless_transition config (cs_nextConfig s)) (\<lambda>_.
        Some (s \<lparr> cs_configs := cs_configs s @ [cs_nextConfig s], cs_nextConfig := zero_ContractConfig \<rparr>))))))"

text \<open>The loop pops configs from the end, but never the one with index 0.\<close>

definition unscheduleConfigs :: "u64 \<Rightarrow> u64 \<Rightarrow> ConfigStore \<Rightarrow> ConfigStore option" where
  "unscheduleConfigs blockNumber fromStartBlockNumber s =
     Option.bind (require (unat blockNumber + unat (cs_headsUp s) < unat fromStartBlockNumber)) (\<lambda>_.
     let configs = hd (cs_configs s) #
           rev (dropWhile (\<lambda>config. fromStartBlockNumber \<le> cc_StartBlockNumber config) (rev (tl (cs_configs s))))
     in Option.bind (require (length configs < length (cs_configs s))) (\<lambda>_.
        Some (s \<lparr> cs_configs := configs \<rparr>)))"

datatype config_call = NextConfig config_tx | ScheduleNextConfig

text \<open>
  What a call does when it is executed at a block: \<open>None\<close> when it reverts. The setters, \<open>scheduleNextConfig\<close> and
  \<open>unscheduleConfigs\<close> are \<open>onlyOwner\<close>: the calls modelled are those of the owner, and a call of anyone else
  reverts before any of this. A transaction is given enough gas; the tools send theirs with the fixed limit of
  1000000 (\<open>makeAuth\<close>), which bounds how many keypers can be added at once.
\<close>

fun config_step :: "u64 \<Rightarrow> config_call \<Rightarrow> ConfigStore \<Rightarrow> ConfigStore option" where
  "config_step blockNumber (NextConfig tx) s = Some (s \<lparr> cs_nextConfig := nextConfig_step tx (cs_nextConfig s) \<rparr>)"
| "config_step blockNumber ScheduleNextConfig s = scheduleNextConfig blockNumber s"

text \<open>Executing transactions in their order: the status in the receipt of each, and the store after them.\<close>

fun config_receipts :: "(u64 \<times> config_call) list \<Rightarrow> ConfigStore \<Rightarrow> u64 list \<times> ConfigStore" where
  "config_receipts [] s = ([], s)"
| "config_receipts ((b, c) # cs) s =
     (case config_step b c s of
        None \<Rightarrow> (case config_receipts cs s of (rs, s') \<Rightarrow> (0 # rs, s'))
      | Some s1 \<Rightarrow> (case config_receipts cs s1 of (rs, s') \<Rightarrow> (1 # rs, s')))"

text \<open>\<open>configIndexForBatchIndex\<close> and \<open>batchBoundaryBlocks\<close>, and when \<open>BatcherContract.addTransaction\<close> finds a batch open.\<close>

definition configIndexForBatchIndex :: "u64 \<Rightarrow> ConfigStore \<Rightarrow> nat option" where
  "configIndexForBatchIndex batchIndex s =
     search_down (\<lambda>i. cc_StartBatchIndex (cs_configs s ! i) \<le> batchIndex) (length (cs_configs s))"

definition batchBoundaryBlocks :: "ContractConfig \<Rightarrow> u64 \<Rightarrow> (u64 \<times> u64 \<times> u64) option" where
  "batchBoundaryBlocks config batchIndex =
     Option.bind (require (0 < cc_BatchSpan config \<and> cc_StartBatchIndex config \<le> batchIndex)) (\<lambda>_.
     let relativeBatchIndex = batchIndex - cc_StartBatchIndex config
     in Option.bind (checked_mult relativeBatchIndex (cc_BatchSpan config)) (\<lambda>blocks.
        Option.bind (checked_add (cc_StartBlockNumber config) blocks) (\<lambda>b.
        Option.bind (checked_add b (cc_BatchSpan config)) (\<lambda>stop.
        let start = (if 1 \<le> relativeBatchIndex then stop - cc_BatchSpan config - cc_BatchSpan config else stop - cc_BatchSpan config)
        in Option.bind (checked_add stop (cc_ExecutionTimeout config)) (\<lambda>timeout.
           Some (start, stop, timeout))))))"

definition batch_open :: "u64 \<Rightarrow> u64 \<Rightarrow> ConfigStore \<Rightarrow> bool" where
  "batch_open blockNumber batchIndex s =
     (case configIndexForBatchIndex batchIndex s of
        None \<Rightarrow> False
      | Some configIndex \<Rightarrow>
          0 < cc_BatchSpan (cs_configs s ! configIndex) \<and>
          (case batchBoundaryBlocks (cs_configs s ! configIndex) batchIndex of
             None \<Rightarrow> False
           | Some (start, stop, timeout) \<Rightarrow> start \<le> blockNumber \<and> blockNumber < stop))"

text \<open>What the binding reads from the contract.\<close>

definition store_getters :: "ConfigStore \<Rightarrow> config_contract \<Rightarrow> bool" where
  "store_getters s cc \<longleftrightarrow> length (cs_configs s) < 2 ^ 64 \<and>
     call_NumConfigs cc = Inr (of_nat (length (cs_configs s))) \<and>
     (\<forall>i<length (cs_configs s).
        call_Configs cc (of_nat i) = Inr (ConfigFields.truncate (cs_configs s ! i)) \<and>
        length (cc_Keypers (cs_configs s ! i)) < 2 ^ 64 \<and>
        call_ConfigNumKeypers cc (of_nat i) = Inr (of_nat (length (cc_Keypers (cs_configs s ! i)))) \<and>
        (\<forall>k. unat k < length (cc_Keypers (cs_configs s ! i)) \<longrightarrow>
           call_ConfigKeypers cc (of_nat i) k = Inr (cc_Keypers (cs_configs s ! i) ! unat k)))"

section \<open>Scheduling a config\<close>

text \<open>\<open>prepare schedule\<close>: the flags, and when the new config starts.\<close>

record scheduleFlags =
  sf_TargetContractAddress :: string
  sf_TargetFunctionSelector :: string
  sf_BatchSpan :: int
  sf_TransactionSizeLimit :: int
  sf_BatchSizeLimit :: int

text \<open>\<open>headsUp\<close> is what the contract returns and \<open>header\<close> the number of the newest block.\<close>

definition chooseStartBlockAndBatch :: "config_contract \<Rightarrow> u64 result \<Rightarrow> u64 result \<Rightarrow> (u64 \<times> u64) result" where
  "chooseStartBlockAndBatch cc ConfigChangeHeadsUpBlocks header =
     result_bind (call_NumConfigs cc) (\<lambda>numConfigs.
     result_bind
      (if numConfigs \<noteq> 0
       then result_bind (GetConfigByIndex cc (numConfigs - 1)) (\<lambda>config.
              Inr (cc_BatchSpan config, cc_StartBlockNumber config, cc_StartBatchIndex config))
       else Inr (0, 0, 0)) (\<lambda>(batchSpan, startBlockNumber, startBatchIndex).
     result_bind ConfigChangeHeadsUpBlocks (\<lambda>headsUp.
     result_bind header (\<lambda>headerNumber.
     let minStartBlock = headerNumber + headsUp + 10
     in if batchSpan = 0 then Inr (minStartBlock, startBatchIndex)
        else let delta = minStartBlock - startBlockNumber;
                 numStartedBatches = (delta + batchSpan + 1) div batchSpan;
                 newStartBlockNumber = startBlockNumber + numStartedBatches * batchSpan;
                 newStartBatchIndex = startBatchIndex + numStartedBatches
             in Inr (newStartBlockNumber, newStartBatchIndex)))))"

definition schedule_setters ::
  "('pk, 'sk, 'ek, 'dk) eth \<Rightarrow> scheduleFlags \<Rightarrow> address list \<Rightarrow> bytes \<Rightarrow> config_call list" where
  "schedule_setters E flags keypers selectorBytesSlice =
     (let threshold = of_nat ((length keypers * 2 + 2) div 3) :: u64
      in map NextConfig
          [SetBatchSpan (of_int (sf_BatchSpan flags)),
           AddKeypers keypers,
           SetThreshold threshold,
           SetTargetAddress (HexToAddress E (sf_TargetContractAddress flags)),
           SetTargetFunctionSelector (take 4 selectorBytesSlice @ drop (length selectorBytesSlice) (replicate 4 0)),
           SetExecutionTimeout (of_int (sf_BatchSpan flags)),
           SetTransactionSizeLimit (of_int (sf_TransactionSizeLimit flags)),
           SetBatchSizeLimit (of_int (sf_BatchSizeLimit flags))])"

definition schedule_start :: "u64 \<times> u64 \<Rightarrow> config_call list" where
  "schedule_start start =
     [NextConfig (SetStartBlockNumber (fst start)), NextConfig (SetStartBatchIndex (snd start)), ScheduleNextConfig]"

text \<open>
  The transactions of \<open>scheduleForKeyperConfigs\<close>, with the keypers of the config files: they are sent one after
  the other, with growing nonces, and the start is chosen after the first eight.
\<close>

definition then_send ::
  "(int \<Rightarrow> config_call \<Rightarrow> 'tx result) \<Rightarrow> int \<Rightarrow> config_call list \<Rightarrow> ('tx list \<Rightarrow> 'b result) \<Rightarrow> 'b result" where
  "then_send send nonce calls k =
     (case send_txs send nonce calls of
        (txs, Inl err) \<Rightarrow> Inl err
      | (txs, Inr _) \<Rightarrow> k txs)"

definition schedule_transactions ::
  "('pk, 'sk, 'ek, 'dk) eth \<Rightarrow> (int \<Rightarrow> config_call \<Rightarrow> 'tx result) \<Rightarrow> int \<Rightarrow> config_contract \<Rightarrow> u64 result \<Rightarrow> u64 result \<Rightarrow>
   scheduleFlags \<Rightarrow> address list \<Rightarrow> 'tx list result" where
  "schedule_transactions E send nonce cc headsUp header flags keypers =
     (case hexutil_Decode E (sf_TargetFunctionSelector flags) of
        Inl err \<Rightarrow> then_send send nonce (take 4 (schedule_setters E flags keypers [])) (\<lambda>txs. Inl err)
      | Inr selectorBytesSlice \<Rightarrow>
          then_send send nonce (schedule_setters E flags keypers selectorBytesSlice) (\<lambda>txs.
          result_bind (chooseStartBlockAndBatch cc headsUp header) (\<lambda>start.
          then_send send (nonce + 8) (schedule_start start) (\<lambda>txs'.
          Inr (txs @ txs')))))"

text \<open>\<open>code\<close> and \<open>nonce\<close> are what the node answers; \<open>None\<close> when a transaction is never mined.\<close>

definition checkContractExists :: "bytes result \<Rightarrow> unit result" where
  "checkContractExists code =
     result_bind code (\<lambda>code. if length code = 0 then Inl (Errorf ''no contract exists at address'') else Inr ())"

definition scheduleForKeyperConfigs ::
  "('pk, 'sk, 'ek, 'dk) eth \<Rightarrow> bytes result \<Rightarrow> int result \<Rightarrow> (int \<Rightarrow> config_call \<Rightarrow> 'tx result) \<Rightarrow> ('tx \<Rightarrow> nat \<Rightarrow> u64 option result) \<Rightarrow>
   config_contract \<Rightarrow> u64 result \<Rightarrow> u64 result \<Rightarrow> scheduleFlags \<Rightarrow> address list \<Rightarrow> unit result option" where
  "scheduleForKeyperConfigs E code nonce send node cc headsUp header flags keypers =
     (case result_bind (checkContractExists code) (\<lambda>_.
           result_bind nonce (\<lambda>nonce.
           schedule_transactions E send nonce cc headsUp header flags keypers)) of
        Inl err \<Rightarrow> Some (Inl err)
      | Inr txs \<Rightarrow> Option.bind (waitForTransactions node txs) (\<lambda>(res, e). Some e))"

text \<open>\<open>schedule\<close>, with the config files read.\<close>

definition prepare_schedule ::
  "('pk, 'sk, 'ek, 'dk) eth \<Rightarrow> bytes result \<Rightarrow> int result \<Rightarrow> (int \<Rightarrow> config_call \<Rightarrow> 'tx result) \<Rightarrow> ('tx \<Rightarrow> nat \<Rightarrow> u64 option result) \<Rightarrow>
   config_contract \<Rightarrow> u64 result \<Rightarrow> u64 result \<Rightarrow> scheduleFlags \<Rightarrow> address list \<Rightarrow> unit result option" where
  "prepare_schedule E code nonce send node cc headsUp header flags keypers =
     (if length keypers < 3 then Some (Inl (Errorf ''3 keypers required''))
      else scheduleForKeyperConfigs E code nonce send node cc headsUp header flags keypers)"

text \<open>\<open>config schedule\<close>: one transaction; whether it fails is not looked at.\<close>

definition schedule_command ::
  "(int \<Rightarrow> config_call \<Rightarrow> 'tx result) \<Rightarrow> int result \<Rightarrow> ('tx \<Rightarrow> nat \<Rightarrow> u64 option result) \<Rightarrow> unit result option" where
  "schedule_command send nonce node =
     (case result_bind nonce (\<lambda>nonce. send nonce ScheduleNextConfig) of
        Inl err \<Rightarrow> Some (Inl err)
      | Inr tx \<Rightarrow> Option.bind (WaitMined (node tx) 0) (\<lambda>r. Some (result_bind r (\<lambda>_. Inr ()))))"

section \<open>Sending transactions to the current batch\<close>

text \<open>One round of the loop of \<open>sendtxs\<close>: the batch and the type of the transaction; \<open>None\<close> when it waits or gives up.\<close>

definition sendtxs_batch :: "config_contract \<Rightarrow> u64 result \<Rightarrow> u64 \<Rightarrow> (u64 \<times> byte) option" where
  "sendtxs_batch cc BlockNumber txTypeBig =
     (case BlockNumber of
        Inl err \<Rightarrow> None
      | Inr blockNumber \<Rightarrow>
          (case NextBatchIndex cc blockNumber of
             Inl err \<Rightarrow> None
           | Inr nextBatchIndex \<Rightarrow>
               if nextBatchIndex = 0 then None
               else Some (nextBatchIndex - 1, of_nat (unat txTypeBig mod 2 ^ 8))))"

end
