(* ===== verification/ConfigScheduleFacts.thy ===== *)
theory ConfigScheduleFacts
  imports ConfigSchedule ObserveMainFacts
begin

text \<open>
  The invariant of the config contract: an active config is never cut short within a batch, and the numbers of
  the batches go on without a gap. From it the relation of blocks, batches and configs that keypers, users and the
  batcher contract depend on.
\<close>

section \<open>Reverting\<close>

lemma require_Some [simp]: "require b = Some u \<longleftrightarrow> b" "require b = None \<longleftrightarrow> \<not> b"
  by (simp_all add: require_def)

lemma bind_require [simp]: "Option.bind (require b) f = (if b then f () else None)"
  by (simp add: require_def)

lemma checked_add_Some [simp]:
  "checked_add a b = Some c \<longleftrightarrow> unat a + unat b < 2 ^ 64 \<and> c = a + b"
  by (auto simp: checked_add_def)

lemma checked_mult_Some [simp]:
  "checked_mult a b = Some c \<longleftrightarrow> unat a * unat b < 2 ^ 64 \<and> c = a * b"
  by (auto simp: checked_mult_def)

section \<open>Seamless configs\<close>

text \<open>
  \<open>d\<close> takes over from \<open>c\<close> where a batch of \<open>c\<close> ends: in whole numbers, so nothing wraps around. After an
  inactive config only the number of the next batch is given; \<open>follows\<close> adds that \<open>d\<close> does not start before \<open>c\<close>.
\<close>

definition takes_over :: "ContractConfig \<Rightarrow> ContractConfig \<Rightarrow> bool" where
  "takes_over c d \<longleftrightarrow>
     (if 0 < cc_BatchSpan c
      then unat (cc_StartBatchIndex c) < unat (cc_StartBatchIndex d) \<and>
        unat (cc_StartBlockNumber d) = unat (cc_StartBlockNumber c) +
          (unat (cc_StartBatchIndex d) - unat (cc_StartBatchIndex c)) * unat (cc_BatchSpan c)
      else cc_StartBatchIndex d = cc_StartBatchIndex c)"

definition follows :: "ContractConfig \<Rightarrow> ContractConfig \<Rightarrow> bool" where
  "follows c d \<longleftrightarrow> unat (cc_StartBlockNumber c) \<le> unat (cc_StartBlockNumber d) \<and> takes_over c d"

definition seamless :: "ContractConfig list \<Rightarrow> bool" where
  "seamless cs \<longleftrightarrow> cs \<noteq> [] \<and> cc_StartBlockNumber (cs ! 0) = 0 \<and> cc_StartBatchIndex (cs ! 0) = 0 \<and>
     (\<forall>i. Suc i < length cs \<longrightarrow> takes_over (cs ! i) (cs ! Suc i))"

text \<open>No config starts before the one scheduled before it.\<close>

definition starts_in_order :: "ContractConfig list \<Rightarrow> bool" where
  "starts_in_order cs \<longleftrightarrow> sorted (map cc_StartBlockNumber cs)"

lemma seamless_transition_takes_over:
  assumes "seamless_transition c d = Some u"
  shows "takes_over c d"
proof (cases "0 < cc_BatchSpan c")
  case True
  let ?delta = "cc_StartBatchIndex d - cc_StartBatchIndex c"
  from assms(1) True have idx: "cc_StartBatchIndex c < cc_StartBatchIndex d"
    and mult: "unat (cc_BatchSpan c) * unat ?delta < 2 ^ 64"
    and add: "unat (cc_StartBlockNumber c) + unat (cc_BatchSpan c * ?delta) < 2 ^ 64"
    and start: "cc_StartBlockNumber c + cc_BatchSpan c * ?delta = cc_StartBlockNumber d"
    by (auto simp: seamless_transition_def Let_def Option.bind_eq_Some_conv split: if_splits)
  have "unat ?delta = unat (cc_StartBatchIndex d) - unat (cc_StartBatchIndex c)"
    using idx by (intro unat_sub_u64) simp
  with unat_add_u64 [OF add] unat_mult_u64 [OF mult] True idx show ?thesis
    by (simp add: takes_over_def start word_less_nat_alt mult.commute)
next
  case False
  then have "cc_BatchSpan c = 0" by (simp add: word_gt_0)
  with False assms show ?thesis
    by (simp add: seamless_transition_def takes_over_def)
qed

lemma seamless_transition_follows:
  assumes "seamless_transition c d = Some u"
    and "cc_BatchSpan c = 0 \<Longrightarrow> cc_StartBlockNumber c \<le> cc_StartBlockNumber d"
  shows "follows c d"
  using seamless_transition_takes_over [OF assms(1)] assms(2)
  by (auto simp: follows_def takes_over_def word_le_nat_alt word_gt_0 split: if_split_asm)

lemma seamless_append:
  assumes "seamless cs" "takes_over (last cs) d"
  shows "seamless (cs @ [d])"
proof -
  have "takes_over ((cs @ [d]) ! i) ((cs @ [d]) ! Suc i)" if "Suc i < length (cs @ [d])" for i
  proof (cases "Suc i < length cs")
    case True
    with assms(1) show ?thesis by (simp add: seamless_def nth_append)
  next
    case False
    with that have "i = length cs - 1" "cs \<noteq> []" by auto
    with assms show ?thesis by (simp add: nth_append last_conv_nth)
  qed
  with assms(1) show ?thesis by (auto simp: seamless_def nth_append)
qed

lemma seamless_take: "seamless cs \<Longrightarrow> 0 < k \<Longrightarrow> seamless (take k cs)"
  by (auto simp: seamless_def)

text \<open>
  The life of a contract: any calls that it accepts. All of them are \<open>onlyOwner\<close>; a call of anyone else
  reverts and changes nothing, so only the owner's are steps.
\<close>

inductive config_run :: "u64 \<Rightarrow> u64 \<Rightarrow> ConfigStore \<Rightarrow> bool" for headsUp where
  cr_new: "config_run headsUp b (new_ConfigStore headsUp)"
| cr_block: "config_run headsUp b s \<Longrightarrow> b \<le> b' \<Longrightarrow> config_run headsUp b' s"
| cr_set: "config_run headsUp b s \<Longrightarrow> config_step b (NextConfig tx) s = Some s' \<Longrightarrow> config_run headsUp b s'"
| cr_schedule: "config_run headsUp b s \<Longrightarrow> config_step b ScheduleNextConfig s = Some s' \<Longrightarrow> config_run headsUp b s'"
| cr_unschedule: "config_run headsUp b s \<Longrightarrow> unscheduleConfigs b from s = Some s' \<Longrightarrow> config_run headsUp b s'"

lemma scheduleNextConfig_configs:
  "scheduleNextConfig b s = Some s' \<Longrightarrow> cs_configs s' = cs_configs s @ [cs_nextConfig s] \<and>
     (\<exists>u. seamless_transition (last (cs_configs s)) (cs_nextConfig s) = Some u)"
  by (auto simp: scheduleNextConfig_def Let_def Option.bind_eq_Some_conv split: if_splits)

lemma unscheduleConfigs_prefix:
  assumes "unscheduleConfigs b from s = Some s'" "cs_configs s \<noteq> []"
  shows "\<exists>k>0. cs_configs s' = take k (cs_configs s)"
proof -
  let ?P = "\<lambda>config. from \<le> cc_StartBlockNumber config" and ?cs = "cs_configs s"
  let ?n = "length (takeWhile ?P (rev (tl ?cs)))"
  have "rev (dropWhile ?P (rev (tl ?cs))) = take (length (tl ?cs) - ?n) (tl ?cs)"
    by (simp add: dropWhile_eq_drop rev_drop)
  then have "hd ?cs # rev (dropWhile ?P (rev (tl ?cs))) = take (Suc (length (tl ?cs) - ?n)) ?cs"
    using assms(2) by (cases ?cs) simp_all
  with assms(1) have "cs_configs s' = take (Suc (length (tl ?cs) - ?n)) ?cs"
    by (auto simp: unscheduleConfigs_def Let_def split: if_splits)
  then show ?thesis by blast
qed

lemma config_run_seamless: "config_run headsUp b s \<Longrightarrow> seamless (cs_configs s)"
proof (induction rule: config_run.induct)
  case cr_new
  show ?case by (simp add: new_ConfigStore_def seamless_def zero_ContractConfig_def)
next
  case (cr_set b s tx s')
  then show ?case by auto
next
  case (cr_schedule b s s')
  then have "scheduleNextConfig b s = Some s'" by simp
  from scheduleNextConfig_configs [OF this] obtain u where
    u: "cs_configs s' = cs_configs s @ [cs_nextConfig s]" "seamless_transition (last (cs_configs s)) (cs_nextConfig s) = Some u"
    by blast
  have "takes_over (last (cs_configs s)) (cs_nextConfig s)" by (rule seamless_transition_takes_over [OF u(2)])
  with cr_schedule.IH show ?case by (simp add: u(1) seamless_append)
next
  case (cr_unschedule b s "from" s')
  then have "cs_configs s \<noteq> []" by (simp add: seamless_def)
  from unscheduleConfigs_prefix [OF cr_unschedule.hyps(2) this] obtain k where
    "0 < k" "cs_configs s' = take k (cs_configs s)" by blast
  with seamless_take [OF cr_unschedule.IH] show ?case by simp
qed

section \<open>Blocks, batches and configs\<close>

lemma search_down_cong: "(\<And>i. i < n \<Longrightarrow> p i = q i) \<Longrightarrow> search_down p n = search_down q n"
  by (induction n) simp_all

lemma seamless_mono:
  assumes "seamless cs" "i \<le> j" "j < length cs"
  shows "unat (cc_StartBatchIndex (cs ! i)) \<le> unat (cc_StartBatchIndex (cs ! j))"
  using assms(2,3)
proof (induction rule: dec_induct)
  case base
  show ?case by simp
next
  case (step k)
  then have "takes_over (cs ! k) (cs ! Suc k)" using assms(1) by (simp add: seamless_def)
  with step show ?case by (auto simp: takes_over_def split: if_splits)
qed

text \<open>The batch of a block of an active config lies before the next config, in batches and in blocks.\<close>

lemma batch_before_next:
  assumes "takes_over c d" "0 < cc_BatchSpan c" "cc_StartBlockNumber c \<le> n" "n < cc_StartBlockNumber d"
    and "BatchIndex c n = Inr b" "batch_fits c b"
  shows "unat b < unat (cc_StartBatchIndex d)"
    and "unat (cc_StartBlockNumber c) + (unat b - unat (cc_StartBatchIndex c) + 1) * unat (cc_BatchSpan c) \<le>
      unat (cc_StartBlockNumber d)"
    and "unat (cc_StartBlockNumber c) + (unat b - unat (cc_StartBatchIndex c) + 1) * unat (cc_BatchSpan c) =
      unat (cc_StartBlockNumber d) \<Longrightarrow> unat b + 1 = unat (cc_StartBatchIndex d)"
proof -
  let ?p = "unat (cc_BatchSpan c)" and ?b = "unat (cc_StartBlockNumber c)" and ?i = "unat (cc_StartBatchIndex c)"
    and ?d = "unat (cc_StartBatchIndex d) - unat (cc_StartBatchIndex c)"
  have p: "0 < ?p" using assms(2) by (simp add: word_less_nat_alt)
  have d: "?i < unat (cc_StartBatchIndex d)" "unat (cc_StartBlockNumber d) = ?b + ?d * ?p"
    using assms(1,2) by (simp_all add: takes_over_def)
  obtain s e where se: "BatchStartBlock c b = Inr s" "unat s = ?b + (unat b - ?i) * ?p"
    by (rule BatchStartBlock_fits [OF assms(6)])
  have "IsActive c" using assms(2) by (simp add: IsActive_def)
  from iffD1 [OF BatchIndex_iff [OF this assms(3,6)] assms(5)] se(1) have "s \<le> n" by auto
  have ib: "?i \<le> unat b" using assms(6) by (simp add: batch_fits_def word_le_nat_alt)
  have "unat s < unat (cc_StartBlockNumber d)"
    using \<open>s \<le> n\<close> assms(4) by (simp add: word_le_nat_alt word_less_nat_alt)
  then have "?b + (unat b - ?i) * ?p < ?b + ?d * ?p" unfolding se(2) d(2) .
  then have lt: "unat b - ?i < ?d" by (metis add_less_cancel_left mult_less_cancel2)
  with ib d(1) show "unat b < unat (cc_StartBatchIndex d)" by simp
  from lt have "(unat b - ?i + 1) * ?p \<le> ?d * ?p" by (intro mult_le_mono1) simp
  with d(2) show "?b + (unat b - ?i + 1) * ?p \<le> unat (cc_StartBlockNumber d)" by simp
  assume "?b + (unat b - ?i + 1) * ?p = unat (cc_StartBlockNumber d)"
  with d(2) have "(unat b - ?i + 1) * ?p = ?d * ?p" by linarith
  with p have "unat b - ?i + 1 = ?d" by (metis mult_cancel2 neq0_conv)
  with ib d(1) show "unat b + 1 = unat (cc_StartBatchIndex d)" by simp
qed

text \<open>Looking a config up by a block and by its batch gives the same config.\<close>

lemma same_config:
  assumes "seamless cs" "0 < cc_BatchSpan (cs ! i)" "BatchIndex (cs ! i) n = Inr b" "batch_fits (cs ! i) b"
    and "search_down (\<lambda>i. cc_StartBlockNumber (cs ! i) \<le> n) (length cs) = Some i"
  shows "search_down (\<lambda>i. cc_StartBatchIndex (cs ! i) \<le> b) (length cs) = Some i"
proof -
  have i: "i < length cs" "cc_StartBlockNumber (cs ! i) \<le> n"
    and later: "\<And>j. i < j \<Longrightarrow> j < length cs \<Longrightarrow> n < cc_StartBlockNumber (cs ! j)"
    using assms(5) by (auto simp: search_down_Some_iff not_le)
  have "\<not> cc_StartBatchIndex (cs ! j) \<le> b" if j: "i < j" "j < length cs" for j
  proof -
    have Suc: "Suc i < length cs" "Suc i \<le> j" using j by simp_all
    then have f: "takes_over (cs ! i) (cs ! Suc i)" using assms(1) by (simp add: seamless_def)
    have "unat b < unat (cc_StartBatchIndex (cs ! Suc i))"
      by (rule batch_before_next(1) [OF f assms(2) i(2) later [OF lessI Suc(1)] assms(3,4)])
    also have "\<dots> \<le> unat (cc_StartBatchIndex (cs ! j))" using seamless_mono [OF assms(1) Suc(2) j(2)] by simp
    finally show ?thesis by (simp add: word_le_nat_alt)
  qed
  moreover have "cc_StartBatchIndex (cs ! i) \<le> b" using assms(4) by (simp add: batch_fits_def)
  ultimately show ?thesis using i(1) by (simp add: search_down_Some_iff)
qed

lemma search_down_later:
  assumes "search_down (\<lambda>i. cc_StartBlockNumber (cs ! i) \<le> n) (length cs) = Some i" "n \<le> m"
    and "\<And>j. i < j \<Longrightarrow> j < length cs \<Longrightarrow> m < cc_StartBlockNumber (cs ! j)"
  shows "search_down (\<lambda>i. cc_StartBlockNumber (cs ! i) \<le> m) (length cs) = Some i"
  using assms by (auto simp: search_down_Some_iff not_le intro: order_trans)

definition open_until :: "ContractConfig \<Rightarrow> u64 \<Rightarrow> nat" where
  "open_until c b = unat (cc_StartBlockNumber c) + (unat b - unat (cc_StartBatchIndex c) + 1) * unat (cc_BatchSpan c)"

lemma batchBoundaryBlocks_open:
  assumes "0 < cc_BatchSpan c" "batch_fits c b" "open_until c b + unat (cc_ExecutionTimeout c) < 2 ^ 64"
    and "BatchStartBlock c b = Inr s" "BatchEndBlock c b = Inr e"
  shows "\<exists>start timeout. batchBoundaryBlocks c b = Some (start, e, timeout) \<and> start \<le> s"
proof -
  let ?r = "b - cc_StartBatchIndex c" and ?p = "cc_BatchSpan c" and ?b = "cc_StartBlockNumber c"
  have ib: "cc_StartBatchIndex c \<le> b" using assms(2) by (simp add: batch_fits_def)
  then have r: "unat ?r = unat b - unat (cc_StartBatchIndex c)" by (rule unat_sub_u64)
  have total: "unat ?b + (unat ?r * unat ?p + unat ?p) + unat (cc_ExecutionTimeout c) < 2 ^ 64"
    using assms(3) by (simp add: open_until_def r algebra_simps)
  have m: "unat (?r * ?p) = unat ?r * unat ?p" by (rule unat_mult_u64) (use total in linarith)
  have a: "unat (?b + ?r * ?p) = unat ?b + unat ?r * unat ?p"
    using unat_add_u64 [of ?b "?r * ?p"] total m by linarith
  have e': "unat (?b + ?r * ?p + ?p) = unat ?b + unat ?r * unat ?p + unat ?p"
    using unat_add_u64 [of "?b + ?r * ?p" ?p] total a by linarith
  from assms(4,5) ib have se: "s = ?b + ?r * ?p" "e = ?b + ?r * ?p + ?p"
    by (auto simp: BatchStartBlock_def BatchEndBlock_def Let_def split: if_splits)
  have fits: "checked_mult ?r ?p = Some (?r * ?p)" "checked_add ?b (?r * ?p) = Some s" "checked_add s ?p = Some e"
    "checked_add e (cc_ExecutionTimeout c) = Some (e + cc_ExecutionTimeout c)"
    using total m a e' by (simp_all add: se)
  have "e - ?p - ?p \<le> s" if "1 \<le> ?r"
  proof -
    have "1 \<le> unat ?r" using that by (simp add: word_le_nat_alt)
    then have "1 * unat ?p \<le> unat ?r * unat ?p" by (rule mult_le_mono1)
    then have "unat ?p \<le> unat s" unfolding se(1) a by linarith
    then have "?p \<le> s" by (simp add: word_le_nat_alt)
    then have "unat (s - ?p) = unat s - unat ?p" by (rule unat_sub_u64)
    then show ?thesis by (simp add: se word_le_nat_alt)
  qed
  moreover have "e - ?p \<le> s" by (simp add: se)
  ultimately show ?thesis
    using assms(1) ib by (simp add: batchBoundaryBlocks_def Let_def fits del: checked_add_Some checked_mult_Some)
qed

text \<open>The blocks of a batch: users can send transactions for it.\<close>

lemma batch_blocks:
  assumes cs: "seamless (cs_configs s)" and act: "0 < cc_BatchSpan (cs_configs s ! i)"
    and idx: "BatchIndex (cs_configs s ! i) n = Inr b" "batch_fits (cs_configs s ! i) b"
    and timeout: "open_until (cs_configs s ! i) b + unat (cc_ExecutionTimeout (cs_configs s ! i)) < 2 ^ 64"
    and found: "search_down (\<lambda>i. cc_StartBlockNumber (cs_configs s ! i) \<le> n) (length (cs_configs s)) = Some i"
  obtains start stop where
    "BatchStartBlock (cs_configs s ! i) b = Inr start" "BatchEndBlock (cs_configs s ! i) b = Inr stop"
    "start \<le> n" "n < stop" "unat stop = open_until (cs_configs s ! i) b"
    "\<forall>m. n \<le> m \<longrightarrow> m < stop \<longrightarrow> BatchIndex (cs_configs s ! i) m = Inr b \<and> batch_open m b s"
proof -
  let ?cs = "cs_configs s" and ?c = "cs_configs s ! i"
  have active: "IsActive ?c" using act by (simp add: IsActive_def)
  have i: "i < length ?cs" "cc_StartBlockNumber ?c \<le> n"
    using found by (auto simp: search_down_Some_iff)
  from iffD1 [OF BatchIndex_iff [OF active i(2) idx(2)] idx(1)]
  obtain start stop where se: "BatchStartBlock ?c b = Inr start" "BatchEndBlock ?c b = Inr stop" "start \<le> n" "n < stop"
    by blast
  obtain s' e' where fits: "BatchStartBlock ?c b = Inr s'" "BatchEndBlock ?c b = Inr e'"
    "unat s' = unat (cc_StartBlockNumber ?c) + (unat b - unat (cc_StartBatchIndex ?c)) * unat (cc_BatchSpan ?c)"
    "unat e' = unat s' + unat (cc_BatchSpan ?c)" by (rule BatchStartBlock_fits [OF idx(2)])
  with se have stop: "unat stop = open_until ?c b" by (simp add: open_until_def)
  obtain bs timeout' where bound: "batchBoundaryBlocks ?c b = Some (bs, stop, timeout')" "bs \<le> start"
    using batchBoundaryBlocks_open [OF act idx(2) timeout se(1,2)] by blast
  have config: "configIndexForBatchIndex b s = Some i"
    unfolding configIndexForBatchIndex_def by (rule same_config [OF cs act idx found])
  have "BatchIndex ?c m = Inr b \<and> batch_open m b s" if m: "n \<le> m" "m < stop" for m
  proof (intro conjI)
    have "cc_StartBlockNumber ?c \<le> m" "start \<le> m" using i(2) se(3) m(1) by (blast intro: order_trans)+
    with se(1,2) m(2) show "BatchIndex ?c m = Inr b"
      by (intro iffD2 [OF BatchIndex_iff [OF active _ idx(2)]]) auto
    show "batch_open m b s"
      using config act bound m(2) \<open>start \<le> m\<close> by (simp add: batch_open_def)
  qed
  with se stop that show thesis by blast
qed

text \<open>If configs start in order, the blocks of the batch belong to the config of the batch.\<close>

lemma batch_config:
  assumes cs: "seamless cs" and sorted: "starts_in_order cs" and act: "0 < cc_BatchSpan (cs ! i)"
    and idx: "BatchIndex (cs ! i) n = Inr b" "batch_fits (cs ! i) b"
    and found: "search_down (\<lambda>i. cc_StartBlockNumber (cs ! i) \<le> n) (length cs) = Some i"
    and m: "n \<le> m" "unat m < open_until (cs ! i) b"
  shows "search_down (\<lambda>i. cc_StartBlockNumber (cs ! i) \<le> m) (length cs) = Some i"
proof (rule search_down_later [OF found m(1)])
  fix j
  assume j: "i < j" "j < length cs"
  then have Suc: "Suc i < length cs" "Suc i \<le> j" by simp_all
  have i: "cc_StartBlockNumber (cs ! i) \<le> n" "n < cc_StartBlockNumber (cs ! Suc i)"
    using found Suc(1) by (auto simp: search_down_Some_iff not_le)
  have f: "takes_over (cs ! i) (cs ! Suc i)" using cs Suc(1) by (simp add: seamless_def)
  have "unat m < unat (cc_StartBlockNumber (cs ! Suc i))"
    using m(2) batch_before_next(2) [OF f act i idx] by (simp add: open_until_def)
  also have "\<dots> \<le> unat (cc_StartBlockNumber (cs ! j))"
    using sorted Suc(2) j(2) sorted_nth_mono [of "map cc_StartBlockNumber cs" "Suc i" j]
    by (simp add: starts_in_order_def word_le_nat_alt)
  finally show "m < cc_StartBlockNumber (cs ! j)" by (simp add: word_less_nat_alt)
qed

section \<open>What the tools read\<close>

lemma store_call: "store_getters s cc \<Longrightarrow> i < length (cs_configs s) \<Longrightarrow>
    call_Configs cc (of_nat i) = Inr (ConfigFields.truncate (cs_configs s ! i))"
  by (simp add: store_getters_def)

lemma store_GetConfigByIndex:
  assumes "store_getters s cc" "i < length (cs_configs s)"
  shows "GetConfigByIndex cc (of_nat i) =
    Inr ((cs_configs s ! i) \<lparr> cc_Keypers := DedupAddresses (cc_Keypers (cs_configs s ! i)) \<rparr>)"
proof -
  let ?c = "cs_configs s ! i" and ?ks = "cc_Keypers (cs_configs s ! i)"
  have g: "length ?ks < 2 ^ 64" "call_ConfigNumKeypers cc (of_nat i) = Inr (of_nat (length ?ks))"
    "\<forall>k. unat k < length ?ks \<longrightarrow> call_ConfigKeypers cc (of_nat i) k = Inr (?ks ! unat k)"
    using assms by (simp_all add: store_getters_def)
  have n: "unat (of_nat (length ?ks) :: u64) = length ?ks" by (rule unat_of_nat_u64 [OF g(1)])
  have "collect (call_ConfigKeypers cc (of_nat i)) (upto64 (of_nat (length ?ks))) = Inr ?ks"
    by (rule collect_upto64) (use g n in simp_all)
  with store_call [OF assms] g(2) show ?thesis
    by (cases ?c) (simp add: GetConfigByIndex_def GetConfigKeypers_def ConfigFields.truncate_def)
qed

lemma store_NextBatchIndex:
  assumes "store_getters s cc"
    and "search_down (\<lambda>i. cc_StartBlockNumber (cs_configs s ! i) \<le> n) (length (cs_configs s)) = Some i"
  shows "NextBatchIndex cc n = Inr (next_batch (ConfigFields.truncate (cs_configs s ! i)) n)"
proof -
  have trunc: "cc_StartBlockNumber (ConfigFields.truncate c) = cc_StartBlockNumber c" for c :: ContractConfig
    by (cases c) (simp add: ConfigFields.truncate_def)
  have "active_at cc n (length (cs_configs s)) i (ConfigFields.truncate (cs_configs s ! i))"
    using assms store_call [OF assms(1)] by (auto simp: active_at_def search_down_Some_iff trunc not_le)
  moreover have "unat (of_nat (length (cs_configs s)) :: u64) = length (cs_configs s)"
    by (rule unat_of_nat_u64) (use assms(1) in \<open>simp add: store_getters_def\<close>)
  ultimately show ?thesis
    using assms(1) by (simp add: NextBatchIndex_def store_getters_def NextBatchIndex_loop_active)
qed

section \<open>Scheduling\<close>

definition choose_start :: "ContractConfig \<Rightarrow> u64 \<Rightarrow> u64 \<times> u64" where
  "choose_start c m =
     (if cc_BatchSpan c = 0 then (m, cc_StartBatchIndex c)
      else let k = (m - cc_StartBlockNumber c + cc_BatchSpan c + 1) div cc_BatchSpan c
           in (cc_StartBlockNumber c + k * cc_BatchSpan c, cc_StartBatchIndex c + k))"

lemma chooseStartBlockAndBatch_store:
  assumes "store_getters s cc" "cs_configs s \<noteq> []"
  shows "chooseStartBlockAndBatch cc (Inr headsUp) (Inr header) = Inr (choose_start (last (cs_configs s)) (header + headsUp + 10))"
proof -
  let ?n = "length (cs_configs s)" and ?num = "of_nat (length (cs_configs s)) :: u64"
  have n: "0 < ?n" using assms(2) by simp
  have num: "unat ?num = ?n" by (rule unat_of_nat_u64) (use assms(1) in \<open>simp add: store_getters_def\<close>)
  with n have "?num \<noteq> 0" by (metis less_irrefl unat_0)
  moreover have "?num - 1 = of_nat (?n - 1)" using n by (cases "cs_configs s") simp_all
  moreover have "GetConfigByIndex cc (of_nat (?n - 1)) =
      Inr ((last (cs_configs s)) \<lparr> cc_Keypers := DedupAddresses (cc_Keypers (last (cs_configs s))) \<rparr>)"
    unfolding last_conv_nth [OF assms(2)] by (rule store_GetConfigByIndex [OF assms(1)]) (use n in simp)
  moreover have "call_NumConfigs cc = Inr ?num" using assms(1) by (simp add: store_getters_def)
  ultimately show ?thesis by (simp add: chooseStartBlockAndBatch_def choose_start_def Let_def)
qed

lemma choose_start_later:
  assumes "0 < cc_BatchSpan c" "cc_StartBlockNumber c \<le> m"
    and "unat m < 2 ^ 63" "unat (cc_BatchSpan c) < 2 ^ 62" "unat (cc_StartBatchIndex c) < 2 ^ 62"
  obtains k start b where "choose_start c m = (start, b)" "0 < k" "unat m + 2 \<le> unat start"
    "unat start = unat (cc_StartBlockNumber c) + k * unat (cc_BatchSpan c)" "unat b = unat (cc_StartBatchIndex c) + k"
proof -
  let ?s = "cc_StartBlockNumber c" and ?p = "cc_BatchSpan c" and ?i = "cc_StartBatchIndex c"
  define x where "x = unat m - unat ?s + unat ?p + 1"
  define k where "k = x div unat ?p"
  have p: "0 < unat ?p" using assms(1) by (simp add: word_less_nat_alt)
  have le: "unat ?s \<le> unat m" using assms(2) by (simp add: word_le_nat_alt)
  have delta: "unat (m - ?s) = unat m - unat ?s" by (rule unat_sub_u64 [OF assms(2)])
  have "unat (m - ?s + ?p) = unat m - unat ?s + unat ?p"
    using unat_add_u64 [of "m - ?s" ?p] delta assms(3,4) by simp
  then have x: "unat (m - ?s + ?p + 1) = x"
    using unat_add_u64 [of "m - ?s + ?p" 1] assms(3,4) by (simp add: x_def)
  have kp: "x < k * unat ?p + unat ?p" "k * unat ?p \<le> x" "k \<le> x"
    unfolding k_def using dividend_less_div_times [OF p, of x] by (simp_all add: div_times_less_eq_dividend add.commute)
  have xmax: "x < 2 ^ 63 + 2 ^ 62 + 1" using assms(3,4) by (simp add: x_def)
  let ?k = "(m - ?s + ?p + 1) div ?p"
  have k: "unat ?k = k" by (simp add: unat_div x k_def)
  have "unat (?k * ?p) = k * unat ?p" using unat_mult_u64 [of ?k ?p] kp(2) xmax unfolding k by simp
  moreover have "unat ?s + k * unat ?p < 2 ^ 64" using kp(2) le assms(3,4) by (simp add: x_def)
  ultimately have start: "unat (?s + ?k * ?p) = unat ?s + k * unat ?p"
    using unat_add_u64 [of ?s "?k * ?p"] by simp
  have b: "unat (?i + ?k) = unat ?i + k" using unat_add_u64 [of ?i ?k] kp(3) xmax assms(5) unfolding k by simp
  have "0 < k" using kp(1) by (cases k) (simp_all add: x_def)
  moreover have "unat m + 2 \<le> unat ?s + k * unat ?p" using kp(1) le by (simp add: x_def)
  moreover have "choose_start c m = (?s + ?k * ?p, ?i + ?k)"
    using assms(1) by (simp add: choose_start_def Let_def word_gt_0)
  ultimately show thesis using start b that by simp
qed

lemma seamless_transition_Some:
  assumes "0 < cc_BatchSpan c" "unat (cc_StartBatchIndex d) = unat (cc_StartBatchIndex c) + k" "0 < k"
    and "unat (cc_StartBlockNumber d) = unat (cc_StartBlockNumber c) + k * unat (cc_BatchSpan c)"
  shows "seamless_transition c d = Some ()"
proof -
  let ?delta = "cc_StartBatchIndex d - cc_StartBatchIndex c"
  have lt: "cc_StartBatchIndex c < cc_StartBatchIndex d" using assms(2,3) by (simp add: word_less_nat_alt)
  then have delta: "unat ?delta = k" using unat_sub_u64 [of "cc_StartBatchIndex c" "cc_StartBatchIndex d"] assms(2) by simp
  have bound: "unat (cc_StartBlockNumber c) + k * unat (cc_BatchSpan c) < 2 ^ 64"
    using assms(4) unat_less_u64 [of "cc_StartBlockNumber d"] by simp
  then have fits: "unat (cc_BatchSpan c) * unat ?delta < 2 ^ 64" unfolding delta by (simp add: mult.commute)
  have prod: "unat (cc_BatchSpan c * ?delta) = k * unat (cc_BatchSpan c)"
    using unat_mult_u64 [OF fits] unfolding delta by (simp add: mult.commute)
  have "unat (cc_StartBlockNumber c + cc_BatchSpan c * ?delta) = unat (cc_StartBlockNumber d)"
    using unat_add_u64 [of "cc_StartBlockNumber c" "cc_BatchSpan c * ?delta"] bound assms(4) unfolding prod by simp
  then have "cc_StartBlockNumber c + cc_BatchSpan c * ?delta = cc_StartBlockNumber d" by (simp only: word_unat_eq_iff)
  moreover have "checked_mult (cc_BatchSpan c) ?delta = Some (cc_BatchSpan c * ?delta)" using fits by simp
  moreover have "checked_add (cc_StartBlockNumber c) (cc_BatchSpan c * ?delta) = Some (cc_StartBlockNumber c + cc_BatchSpan c * ?delta)"
    using bound prod by simp
  ultimately show ?thesis
    using assms(1) lt by (simp add: seamless_transition_def Let_def require_def del: checked_add_Some checked_mult_Some)
qed

lemma config_receipts_append:
  "config_receipts (xs @ ys) s =
     (case config_receipts xs s of (rs, s1) \<Rightarrow> case config_receipts ys s1 of (rs', s2) \<Rightarrow> (rs @ rs', s2))"
proof (induction xs arbitrary: s)
  case Nil
  then show ?case by (simp split: prod.split)
next
  case (Cons x xs)
  then show ?case by (cases x) (simp split: prod.splits option.splits)
qed

lemma config_receipts_setters:
  "length bs = length txs \<Longrightarrow> config_receipts (zip bs (map NextConfig txs)) s =
     (replicate (length txs) 1, s \<lparr> cs_nextConfig := nextConfig_steps txs (cs_nextConfig s) \<rparr>)"
  by (induction bs txs arbitrary: s rule: list_induct2) (simp_all add: nextConfig_steps_Cons)

lemma scheduleNextConfig_Some:
  assumes "length (cs_configs s) < 2 ^ 64 - 2" "seamless_transition (last (cs_configs s)) (cs_nextConfig s) = Some u"
    and "unat b + max (unat (cs_headsUp s)) (unat (cc_BatchSpan (last (cs_configs s)))) + 1 \<le> unat (cc_StartBlockNumber (cs_nextConfig s))"
  shows "scheduleNextConfig b s = Some (s \<lparr> cs_configs := cs_configs s @ [cs_nextConfig s], cs_nextConfig := zero_ContractConfig \<rparr>)"
proof -
  let ?h = "if cs_headsUp s < cc_BatchSpan (last (cs_configs s)) then cc_BatchSpan (last (cs_configs s)) else cs_headsUp s"
  have h: "unat ?h = max (unat (cs_headsUp s)) (unat (cc_BatchSpan (last (cs_configs s))))"
    by (simp add: word_less_nat_alt)
  have bound: "unat b + unat ?h + 1 < 2 ^ 64"
    using assms(3) unat_less_u64 [of "cc_StartBlockNumber (cs_nextConfig s)"] unfolding h by simp
  then have sum: "unat (b + ?h) = unat b + unat ?h" by (intro unat_add_u64) linarith
  have "unat (b + ?h + 1) = unat b + unat ?h + 1" using unat_add_u64 [of "b + ?h" 1] bound sum by simp
  then have "b + ?h + 1 \<le> cc_StartBlockNumber (cs_nextConfig s)"
    using assms(3) unfolding h by (simp add: word_le_nat_alt)
  moreover have "checked_add b ?h = Some (b + ?h)" "checked_add (b + ?h) 1 = Some (b + ?h + 1)"
    using bound sum by simp_all
  ultimately show ?thesis
    using assms(1,2) by (simp add: scheduleNextConfig_def Let_def del: checked_add_Some)
qed

text \<open>What \<open>prepare schedule\<close> sends, and the config it means.\<close>

definition scheduled_config ::
  "('pk, 'sk, 'ek, 'dk) eth \<Rightarrow> scheduleFlags \<Rightarrow> address list \<Rightarrow> bytes \<Rightarrow> u64 \<times> u64 \<Rightarrow> ContractConfig" where
  "scheduled_config E flags keypers selector start = zero_ContractConfig
     \<lparr> cc_StartBatchIndex := snd start, cc_StartBlockNumber := fst start, cc_Threshold := of_nat ((length keypers * 2 + 2) div 3),
       cc_BatchSpan := of_int (sf_BatchSpan flags), cc_BatchSizeLimit := of_int (sf_BatchSizeLimit flags),
       cc_TransactionSizeLimit := of_int (sf_TransactionSizeLimit flags),
       cc_TargetAddress := HexToAddress E (sf_TargetContractAddress flags),
       cc_TargetFunctionSelector := take 4 selector @ drop (length selector) (replicate 4 0),
       cc_ExecutionTimeout := of_int (sf_BatchSpan flags), cc_Keypers := keypers \<rparr>"

lemma scheduled_calls:
  assumes "length keypers < 2 ^ 64"
  obtains setters where "schedule_setters E flags keypers d @ schedule_start start = map NextConfig setters @ [ScheduleNextConfig]"
    "length setters = 10" "nextConfig_steps setters zero_ContractConfig = scheduled_config E flags keypers d start"
proof -
  let ?setters = "[SetBatchSpan (of_int (sf_BatchSpan flags)), AddKeypers keypers,
      SetThreshold (of_nat ((length keypers * 2 + 2) div 3)), SetTargetAddress (HexToAddress E (sf_TargetContractAddress flags)),
      SetTargetFunctionSelector (take 4 d @ drop (length d) (replicate 4 0)),
      SetExecutionTimeout (of_int (sf_BatchSpan flags)), SetTransactionSizeLimit (of_int (sf_TransactionSizeLimit flags)),
      SetBatchSizeLimit (of_int (sf_BatchSizeLimit flags)), SetStartBlockNumber (fst start), SetStartBatchIndex (snd start)]"
  show thesis
    by (rule that [of ?setters])
      (use assms in \<open>simp_all add: schedule_setters_def schedule_start_def nextConfig_steps_Cons scheduled_config_def
        zero_ContractConfig_def Let_def\<close>)
qed

lemma schedule_transactions_calls:
  assumes "\<And>n c t. send n c = Inr t \<Longrightarrow> call t = c" "hexutil_Decode E (sf_TargetFunctionSelector flags) = Inr d"
    and "schedule_transactions E send nonce cc headsUp header flags keypers = Inr txs"
  obtains start where "chooseStartBlockAndBatch cc headsUp header = Inr start"
    "map call txs = schedule_setters E flags keypers d @ schedule_start start"
proof -
  let ?setters = "schedule_setters E flags keypers d"
  obtain ts u where ts: "send_txs send nonce ?setters = (ts, Inr u)"
    using assms(2,3) by (cases "send_txs send nonce ?setters"; cases "snd (send_txs send nonce ?setters)")
      (auto simp: schedule_transactions_def then_send_def)
  then obtain start where start: "chooseStartBlockAndBatch cc headsUp header = Inr start"
    using assms(2,3) by (auto simp: schedule_transactions_def then_send_def elim: result_bindE)
  obtain ts' u' where ts': "send_txs send (nonce + 8) (schedule_start start) = (ts', Inr u')"
    using assms(2,3) ts start by (cases "send_txs send (nonce + 8) (schedule_start start)";
        cases "snd (send_txs send (nonce + 8) (schedule_start start))")
      (auto simp: schedule_transactions_def then_send_def)
  have "txs = ts @ ts'" using assms(2,3) ts start ts' by (simp add: schedule_transactions_def then_send_def)
  with send_txs_calls [OF assms(1) ts] send_txs_calls [OF assms(1) ts'] start that show thesis by simp
qed

text \<open>The setters of a whole run, and the schedule at its last block.\<close>

lemma scheduled_run:
  assumes "cs_nextConfig s = zero_ContractConfig" "length keypers < 2 ^ 64" "length bs = length calls"
    and "calls = schedule_setters E flags keypers d @ schedule_start start"
    and "s1 = s \<lparr> cs_nextConfig := scheduled_config E flags keypers d start \<rparr>"
  shows "config_receipts (zip bs calls) s =
    (case scheduleNextConfig (last bs) s1 of None \<Rightarrow> (replicate 10 1 @ [0], s1) | Some s2 \<Rightarrow> (replicate 10 1 @ [1], s2))"
proof -
  obtain setters where setters: "calls = map NextConfig setters @ [ScheduleNextConfig]" "length setters = 10"
    "nextConfig_steps setters zero_ContractConfig = scheduled_config E flags keypers d start"
    unfolding assms(4) by (rule scheduled_calls [OF assms(2), of E flags d start])
  with assms(3) have "bs \<noteq> []" by auto
  then have bs: "bs = butlast bs @ [last bs]" by simp
  have len: "length (butlast bs) = length setters" using assms(3) setters(1) by simp
  then have len': "length (butlast bs) = length (map NextConfig setters)" by simp
  have "zip bs calls = zip (butlast bs) (map NextConfig setters) @ [(last bs, ScheduleNextConfig)]"
    by (subst bs) (simp only: setters(1) zip_append [OF len'] zip.simps list.simps zip_Cons_Cons zip_Nil)
  moreover have "config_receipts (zip (butlast bs) (map NextConfig setters)) s = (replicate 10 1, s1)"
    using config_receipts_setters [OF len, of s] setters(2,3) assms(1,5) by simp
  ultimately show ?thesis by (simp add: config_receipts_append split: option.split)
qed

text \<open>What the tool returns when all its transactions are mined.\<close>

lemma prepare_schedule_mined:
  assumes "schedule_transactions E send nonce cc headsUp header flags keypers = Inr txs"
    and "list_all2 (\<lambda>tx. mined (node tx)) txs statuses" "code \<noteq> []" "3 \<le> length keypers"
  shows "prepare_schedule E (Inr code) (Inr nonce) send node cc headsUp header flags keypers =
    Some (if \<forall>st\<in>set statuses. st = 1 then Inr () else Inl (Errorf ''some txs have failed''))"
  using assms(1,3,4) waitForTransactions_mined [OF assms(2)]
  by (simp add: prepare_schedule_def scheduleForKeyperConfigs_def checkContractExists_def)

text \<open>
  While the last config is still to come, the distance to its start wraps around, and the start that is
  chosen never fits.
\<close>

lemma choose_start_pending:
  assumes "0 < cc_BatchSpan c" "unat m + 1 < unat (cc_StartBlockNumber c)"
    and "choose_start c m = (cc_StartBlockNumber d, cc_StartBatchIndex d)"
  shows "seamless_transition c d = None"
proof -
  let ?s = "cc_StartBlockNumber c" and ?p = "cc_BatchSpan c" and ?i = "cc_StartBatchIndex c"
  let ?x = "m - ?s + ?p + 1"
  let ?k = "?x div ?p"
  have idx: "cc_StartBatchIndex d = ?i + ?k" using assms(1,3) by (simp add: choose_start_def Let_def word_gt_0)
  have p: "0 < unat ?p" using assms(1) by (simp add: word_less_nat_alt)
  have delta: "unat (m - ?s) = 2 ^ 64 - (unat ?s - unat m)"
    using assms(2) unat_less_u64 [of ?s] by (simp add: unat_sub_if_size word_size)
  have x: "unat ?x = (2 ^ 64 - (unat ?s - unat m) + unat ?p + 1) mod 2 ^ 64"
    by (simp add: unat_word_ariths delta mod_simps)
  show ?thesis
  proof (cases "unat ?s - unat m \<le> unat ?p + 1")
    case True
    then have "2 ^ 64 - (unat ?s - unat m) + unat ?p + 1 = (unat ?p + 1 - (unat ?s - unat m)) + 2 ^ 64"
      using unat_less_u64 [of ?s] by simp
    then have "unat ?x = (unat ?p + 1 - (unat ?s - unat m)) mod 2 ^ 64" unfolding x by simp
    also have "\<dots> = unat ?p + 1 - (unat ?s - unat m)" using assms(2) unat_less_u64 [of ?p] by simp
    finally have "unat ?x < unat ?p" using assms(2) p by linarith
    then have "unat ?k = 0" by (simp add: unat_div)
    then have "?k = 0" by (simp add: unat_eq_0)
    with idx assms(1) show ?thesis by (simp add: seamless_transition_def)
  next
    case False
    then have "unat ?x = 2 ^ 64 - (unat ?s - unat m) + unat ?p + 1"
      unfolding x using unat_less_u64 [of ?s] by simp
    moreover have "unat ?x < unat ?k * unat ?p + unat ?p"
      using dividend_less_div_times [OF p, of "unat ?x"] by (simp add: unat_div add.commute)
    ultimately have "2 ^ 64 \<le> unat ?s + unat ?k * unat ?p" using assms(2) unat_less_u64 [of ?s] by linarith
    then have "\<not> (unat ?p * unat ?k < 2 ^ 64 \<and> unat ?s + unat (?p * ?k) < 2 ^ 64)"
      using unat_mult_u64 [of ?p ?k] by (auto simp: mult.commute)
    then show ?thesis
      using assms(1) by (auto simp: seamless_transition_def Let_def idx checked_add_def checked_mult_def)
  qed
qed

end
