(* ===== verification/Bootstrap.thy ===== *)
theory Bootstrap
  imports AppFacts Actions
begin

text \<open>
  \<open>cmd/bootstrap.go\<close>: a new chain gets its first batch config from the config contract. The tool sends two
  messages as the only keyper of the genesis state. What the chain does with them.
\<close>

section \<open>The tool\<close>

text \<open>The index of the flag, or that of the last config if it is negative, and the config.\<close>

definition bootstrap_config :: "config_contract \<Rightarrow> int \<Rightarrow> (u64 \<times> ContractConfig) result" where
  "bootstrap_config cc BatchConfigIndex =
     result_bind
      (if BatchConfigIndex < 0
       then if_err (call_NumConfigs cc) (\<lambda>err. Inl (Panic ''Failed to fetch number of configs'')) (\<lambda>numConfigs.
            if numConfigs = 0 then Inl (Panic ''no configs found'') else Inr (numConfigs - 1))
       else Inr (of_int BatchConfigIndex)) (\<lambda>batchConfigIndex.
     if_err (GetConfigByIndex cc batchConfigIndex) (\<lambda>err. Inl (Panic ''Failed to fetch config'')) (\<lambda>bc.
     Inr (batchConfigIndex, bc)))"

text \<open>\<open>T1\<close> and \<open>T2\<close> are the node when the first and the second message is sent.\<close>

definition bootstrap ::
  "('pk, 'sk, 'ek, 'dk) eth \<Rightarrow> proto \<Rightarrow> tm_rpc \<Rightarrow> tm_rpc \<Rightarrow> u64 \<Rightarrow> u64 \<Rightarrow> config_contract \<Rightarrow> address \<Rightarrow> int \<Rightarrow> 'sk \<Rightarrow> unit result" where
  "bootstrap E P T1 T2 randomNonce1 randomNonce2 configContract configContractAddress BatchConfigIndex signingKey =
     result_bind (bootstrap_config configContract BatchConfigIndex) (\<lambda>(batchConfigIndex, bc).
     let keypers = cc_Keypers bc;
         ms = NewRPCMessageSender signingKey;
         batchConfigMsg = NewBatchConfig E (cc_StartBatchIndex bc) keypers (cc_Threshold bc) configContractAddress
           batchConfigIndex False False
     in case SendMessage E P T1 randomNonce1 batchConfigMsg ms of
          (Some err, ms1) \<Rightarrow> Inl (Panic ''Failed to send batch config message'')
        | (None, ms1) \<Rightarrow>
            (let batchConfigStartedMsg = NewBatchConfigStarted batchConfigIndex
             in case SendMessage E P T2 randomNonce2 batchConfigStartedMsg ms1 of
                  (Some err, ms2) \<Rightarrow> Inl (Panic ''Failed to send start message'')
                | (None, ms2) \<Rightarrow> Inr ()))"

section \<open>The chain\<close>

text \<open>The state after the genesis file of \<open>cmd/init.go\<close>: one keyper with threshold one.\<close>

definition genesis_config :: "address \<Rightarrow> BatchConfig" where
  "genesis_config a = emptyBatchConfig \<lparr> bc_Keypers := [a], bc_Threshold := 1 \<rparr>"

definition contract_batch_config :: "ContractConfig \<Rightarrow> address \<Rightarrow> u64 \<Rightarrow> BatchConfig" where
  "contract_batch_config c configContractAddress i =
     \<lparr> bc_Height = 0, bc_Keypers = cc_Keypers c, bc_StartBatchIndex = cc_StartBatchIndex c, bc_Threshold = cc_Threshold c,
       bc_ConfigIndex = i, bc_ConfigContractAddress = configContractAddress, bc_Started = False, bc_ValidatorsUpdated = False \<rparr>"

lemma ranging_singleton [simp]: "ranging f \<Longrightarrow> f [x] = [x]"
  by (auto dest: rangingD [of f "[x]"] simp: mset_single_iff_right)

lemma single_vote:
  assumes "orders_ok R" "map_of (vt_Votes v) = Map.empty" "cv_Candidates v = []"
    and "ConfigVoting_AddVote a bc v = Inr v'"
  shows "ConfigVoting_Outcome R v' 1 = Some bc"
proof -
  have "vt_Votes v = []" using assms(2) by simp
  then have "v' = \<lparr> vt_Votes = [(a, 0)], cv_Candidates = [bc] \<rparr>"
    using assms(3,4) by (cases v) (simp add: ConfigVoting_AddVote_def AddVoteForIndex_def)
  then show ?thesis
    using assms(1) by (simp add: ConfigVoting_Outcome_def OutcomeIndex_def orders_ok_def count_votes_def Let_def)
qed

lemma deliverBatchConfig_genesis:
  assumes "orders_ok R" "app_Configs app = [genesis_config a]" "app_ConfigVoting app = NewConfigVoting"
    and "BatchConfigFromMessage E m = Inr bc" "0 < bc_ConfigIndex bc" "EnsureValid bc = None" "app_DKGMap app = Map.empty"
  shows "\<exists>r app'. deliverBatchConfig R E m a app = Inr (r, app') \<and> resp_Code r = 0 \<and>
    app_Configs app' = [genesis_config a, bc] \<and> app_EONCounter app' = app_EONCounter app + 1 \<and>
    app_DKGMap app' (app_EONCounter app') = Some (NewDKGInstance bc (app_EONCounter app')) \<and>
    app_StartedVotes app' = app_StartedVotes app \<and> app_Identities app' = app_Identities app \<and>
    app_NonceTracker app' = app_NonceTracker app \<and> app_ChainID app' = app_ChainID app"
proof -
  obtain voting where vote: "ConfigVoting_AddVote a bc NewConfigVoting = Inr voting"
    by (simp add: ConfigVoting_AddVote_def NewConfigVoting_def)
  have wins: "ConfigVoting_Outcome R voting 1 = Some bc"
    by (rule single_vote [OF assms(1) _ _ vote]) (simp_all add: NewConfigVoting_def)
  have fresh: "genesis_config a \<noteq> bc" using assms(5) by (auto simp: genesis_config_def emptyBatchConfig_def)
  have g: "bc_Threshold (genesis_config a) = 1" "bc_ConfigIndex (genesis_config a) = 0" "bc_StartBatchIndex (genesis_config a) = 0"
    "KeyperIndex (genesis_config a) a \<noteq> None"
    by (simp_all add: genesis_config_def emptyBatchConfig_def KeyperIndex_def)
  have check: "checkConfig app' bc = Inr ()" if "app_Configs app' = [genesis_config a]" for app'
    using assms(5,6) by (simp add: checkConfig_def LastConfig_def that g not_le)
  show ?thesis
    using assms(2-4,7) fresh g
    by (simp add: deliverBatchConfig_def LastConfig_def check allowedToVoteOnConfigChanges_def vote wins addConfig_def
        updateCheckTxMembers_def ShouldStartDKG_def StartDKG_def NewDKGInstance_def okResponse_def Let_def)
qed

lemma InitChain_genesis:
  assumes "UnmarshalJSON (req_AppStateBytes req) = Inr (NewGenesisAppState [a] 1)" "InitChain UnmarshalJSON req NewShielderApp = Inr app"
  shows "app_Configs app = [genesis_config a] \<and> app_ConfigVoting app = NewConfigVoting \<and> app_DKGMap app = Map.empty \<and>
    app_StartedVotes app = {} \<and> app_Identities app = Map.empty \<and> app_NonceTracker app = NewNonceTracker \<and>
    app_ChainID app = req_ChainId req \<and> app_EONCounter app = 0"
  using assms
  by (auto simp: InitChain_def Let_def NewGenesisAppState_def GetKeypers_def NewShielderApp_def genesis_config_def
      updateCheckTxMembers_def emptyBatchConfig_def EnsureValid_def split: if_err_splits)

lemma decodeTx_signed:
  assumes "eth_ok E" "proto_ok P" "SignMessage E P msg sk = Inr signedMsg"
  shows "decodeTx E P (b64_EncodeToString signedMsg) = Inr (PubkeyToAddress E (sk_PublicKey E sk), msg)"
  using GetSigner_SignMessage [OF assms] by (simp add: decodeTx_def)

lemma nobody_checked_in: "app_Identities app = Map.empty \<Longrightarrow> countCheckedInKeypers app keypers = 0"
  by (induction keypers rule: rev_induct) (simp_all add: countCheckedInKeypers_def)

text \<open>The end of a block, when the last config is waiting for the vote of the genesis keyper.\<close>

lemma EndBlock_waiting:
  assumes "app_Configs app = [genesis_config a, bc]" "\<not> bc_Started bc" "app_Identities app = Map.empty" "0 < bc_Threshold bc"
    and "app_StartedVotes app = {} \<or> app_StartedVotes app = {a}"
  shows "\<exists>us app'. EndBlock R h app = Inr (us, app') \<and>
    app_Configs app' = [genesis_config a, bc \<lparr> bc_Started := app_StartedVotes app = {a} \<rparr>] \<and> app_StartedVotes app' = {} \<and>
    app_Identities app' = Map.empty \<and> app_NonceTracker app' = app_NonceTracker app \<and> app_ChainID app' = app_ChainID app \<and>
    app_EONCounter app' = app_EONCounter app \<and> app_DKGMap app' = app_DKGMap app"
proof -
  have g: "bc_Threshold (genesis_config a) = 1" by (simp add: genesis_config_def)
  have enough: "enoughStartedVotes app \<longleftrightarrow> app_StartedVotes app = {a}"
    using assms(5) by (auto simp: enoughStartedVotes_def assms(1) g)
  have few: "\<not> bc_Threshold bc \<le> countCheckedInKeypers app keypers" for keypers
    using assms(4) by (simp add: nobody_checked_in [OF assms(3)])
  have "bc \<lparr> bc_Started := False \<rparr> = bc" using assms(2) by (cases bc) simp
  then show ?thesis
    using assms(1-3,5) enough few by (auto simp: EndBlock_def LastConfig_def Let_def)
qed

lemma run_block_single:
  assumes "DeliverTx (Rs 0) B E P tx app = Inr (r, app')" "EndBlock R h app' = Inr (us, app'')"
  shows "run_block Rs R B E P h [tx] app = Inr ([r], us, app'')"
  using assms by (simp add: run_block_def)

lemma bootstrap_sent:
  assumes "bootstrap_config cc index = Inr (i, c)" "chain \<noteq> []"
    and "SignMessage E P \<lparr> mwn_Msg = Some (NewBatchConfig E (cc_StartBatchIndex c) (cc_Keypers c) (cc_Threshold c) cca i False False),
           mwn_ChainId = chain, mwn_RandomNonce = n1 \<rparr> sk = Inr signed1"
    and "SignMessage E P \<lparr> mwn_Msg = Some (NewBatchConfigStarted i), mwn_ChainId = chain, mwn_RandomNonce = n2 \<rparr> sk = Inr signed2"
    and "rpc_BlockchainInfo T1 = Inr (chain # metas)" "rpc_BroadcastTxCommit T1 (b64_EncodeToString signed1) = Inr 0"
    and "rpc_BroadcastTxCommit T2 (b64_EncodeToString signed2) = Inr 0"
  shows "bootstrap E P T1 T2 n1 n2 cc cca index sk = Inr ()"
  using assms by (simp add: bootstrap_def SendMessage_def maybeFetchChainID_def NewRPCMessageSender_def addNonceAndChainID_def)

end
