(* ===== verification/ScheduleProps.thy ===== *)
theory ScheduleProps
  imports ConfigScheduleFacts Bootstrap SmallRun
begin

text \<open>
  The properties of scheduled configs: what the tools schedule is accepted, keypers, users and the batcher
  contract agree on the batch of a block, and the first config of a new chain comes into force.
\<close>

section \<open>Batches\<close>

text \<open>
  C26: Batches tile the blocks. Take the configs that the contract holds after any calls of its owner, as a
  keyper sees them, provided that no config starts before the one scheduled before it (the contract ensures that
  after an active config, but not after an inactive one), and a block whose config is active. The batch of the
  block belongs to this config again when it is looked up by its index; it is a range of blocks around the given
  one, every later block of the range has the same config and batch, and the range ends before the next config, or
  exactly where that begins, and then the next config starts with the next batch.
\<close>

theorem batches_tile_blocks:
  assumes "config_run headsUp blk s" "starts_in_order (cs_configs s)"
    and "mc_BatchConfigs mc = map (\<lambda>c. c \<lparr> cc_Keypers := DedupAddresses (cc_Keypers c) \<rparr>) (cs_configs s)"
    and "ActiveConfigIndex mc n = Inr i" "config = cs_configs s ! i" "0 < cc_BatchSpan config"
    and "BatchIndex config n = Inr b" "batch_fits config b" "open_until config b + unat (cc_ExecutionTimeout config) < 2 ^ 64"
  shows "ConfigIndexForBatchIndex mc b = Inr (Some i) \<and>
    (\<exists>start stop. BatchStartBlock config b = Inr start \<and> BatchEndBlock config b = Inr stop \<and> start \<le> n \<and> n < stop \<and>
       (\<forall>m. n \<le> m \<and> m < stop \<longrightarrow> ActiveConfigIndex mc m = Inr i \<and> BatchIndex config m = Inr b) \<and>
       (Suc i < length (cs_configs s) \<longrightarrow> stop \<le> cc_StartBlockNumber (cs_configs s ! Suc i) \<and>
          (stop = cc_StartBlockNumber (cs_configs s ! Suc i) \<longrightarrow> b + 1 = cc_StartBatchIndex (cs_configs s ! Suc i))))"
proof -
  let ?cs = "cs_configs s"
  have cs: "seamless ?cs" by (rule config_run_seamless [OF assms(1)])
  have view: "length (mc_BatchConfigs mc) = length ?cs"
    "\<And>j. j < length ?cs \<Longrightarrow> cc_StartBlockNumber (mc_BatchConfigs mc ! j) = cc_StartBlockNumber (?cs ! j)"
    "\<And>j. j < length ?cs \<Longrightarrow> cc_StartBatchIndex (mc_BatchConfigs mc ! j) = cc_StartBatchIndex (?cs ! j)"
    "\<And>j. j < length ?cs \<Longrightarrow> cc_BatchSpan (mc_BatchConfigs mc ! j) = cc_BatchSpan (?cs ! j)"
    by (simp_all add: assms(3))
  have "search_down (\<lambda>i. cc_StartBlockNumber (mc_BatchConfigs mc ! i) \<le> m) (length ?cs) =
      search_down (\<lambda>i. cc_StartBlockNumber (?cs ! i) \<le> m) (length ?cs)" for m
    by (rule search_down_cong) (simp add: view)
  then have by_block: "ActiveConfigIndex mc m = Inr j \<longleftrightarrow>
      search_down (\<lambda>i. cc_StartBlockNumber (?cs ! i) \<le> m) (length ?cs) = Some j" for m j
    by (simp add: ActiveConfigIndex_def view(1) split: option.split)
  have found: "search_down (\<lambda>i. cc_StartBlockNumber (?cs ! i) \<le> n) (length ?cs) = Some i"
    using assms(4) by (simp add: by_block)
  then have i: "i < length ?cs" "cc_StartBlockNumber (?cs ! i) \<le> n"
    and later: "\<And>j. i < j \<Longrightarrow> j < length ?cs \<Longrightarrow> n < cc_StartBlockNumber (?cs ! j)"
    by (auto simp: search_down_Some_iff not_le)
  note config = assms(6-9) [unfolded assms(5)]
  have "search_down (\<lambda>i. cc_StartBatchIndex (?cs ! i) \<le> b) (length ?cs) = Some i"
    by (rule same_config [OF cs config(1-3) found])
  moreover have "search_down (\<lambda>i. cc_StartBatchIndex (mc_BatchConfigs mc ! i) \<le> b) (length ?cs) =
      search_down (\<lambda>i. cc_StartBatchIndex (?cs ! i) \<le> b) (length ?cs)"
    by (rule search_down_cong) (simp add: view)
  ultimately have "search_down (\<lambda>i. cc_StartBatchIndex (mc_BatchConfigs mc ! i) \<le> b) (length (mc_BatchConfigs mc)) = Some i"
    by (simp add: view(1))
  then have same: "ConfigIndexForBatchIndex mc b = Inr (Some i)"
    using config(1) i(1) by (simp add: ConfigIndexForBatchIndex_def IsActive_def view)
  obtain start stop where range: "BatchStartBlock (?cs ! i) b = Inr start" "BatchEndBlock (?cs ! i) b = Inr stop"
    "start \<le> n" "n < stop" "unat stop = open_until (?cs ! i) b"
    "\<forall>m. n \<le> m \<longrightarrow> m < stop \<longrightarrow> BatchIndex (?cs ! i) m = Inr b \<and> batch_open m b s"
    by (rule batch_blocks [OF cs config(1-4) found])
  have config_of: "\<forall>m. n \<le> m \<longrightarrow> m < stop \<longrightarrow> ActiveConfigIndex mc m = Inr i"
    using batch_config [OF cs assms(2) config(1-3) found] range(5) by (simp add: by_block word_less_nat_alt)
  have next_config: "stop \<le> cc_StartBlockNumber (?cs ! Suc i) \<and>
      (stop = cc_StartBlockNumber (?cs ! Suc i) \<longrightarrow> b + 1 = cc_StartBatchIndex (?cs ! Suc i))" if Suc: "Suc i < length ?cs"
  proof -
    have f: "takes_over (?cs ! i) (?cs ! Suc i)" using cs Suc by (simp add: seamless_def)
    note before = batch_before_next [OF f config(1) i(2) later [OF lessI Suc] config(2,3), folded open_until_def]
    have "b + 1 = cc_StartBatchIndex (?cs ! Suc i)" if "stop = cc_StartBlockNumber (?cs ! Suc i)"
    proof -
      have "unat b + 1 = unat (cc_StartBatchIndex (?cs ! Suc i))"
        by (rule before(3)) (simp add: range(5) [symmetric] that)
      then show ?thesis
        using unat_add_u64 [of b 1] unat_less_u64 [of "cc_StartBatchIndex (?cs ! Suc i)"] by (simp add: word_unat_eq_iff)
    qed
    with before(2) show ?thesis by (simp add: word_le_nat_alt range(5))
  qed
  show ?thesis
    unfolding assms(5) using same range(1-4,6) next_config config_of by blast
qed

text \<open>A contract with a config scheduled at block 100 and its successor.\<close>

definition small_scheduled :: "u64 \<Rightarrow> u64 \<Rightarrow> ContractConfig" where
  "small_scheduled start b = zero_ContractConfig \<lparr> cc_StartBatchIndex := b, cc_StartBlockNumber := start, cc_Threshold := 2,
     cc_BatchSpan := 10, cc_BatchSizeLimit := 1000, cc_TransactionSizeLimit := 100, cc_TargetAddress := 4,
     cc_TargetFunctionSelector := [1, 2, 3, 4], cc_ExecutionTimeout := 10, cc_Keypers := [1, 2, 3] \<rparr>"

definition small_store :: "ContractConfig list \<Rightarrow> ConfigStore" where
  "small_store cs = \<lparr> cs_configs = zero_ContractConfig # cs, cs_nextConfig = zero_ContractConfig, cs_headsUp = 5 \<rparr>"

definition small_setters :: "u64 \<Rightarrow> u64 \<Rightarrow> config_tx list" where
  "small_setters start b = [SetBatchSpan 10, AddKeypers [1, 2, 3], SetThreshold 2, SetTargetAddress 4,
     SetTargetFunctionSelector [1, 2, 3, 4], SetExecutionTimeout 10, SetTransactionSizeLimit 100, SetBatchSizeLimit 1000,
     SetStartBlockNumber start, SetStartBatchIndex b]"

lemma config_run_setters:
  "config_run h b s \<Longrightarrow> config_run h b (s \<lparr> cs_nextConfig := nextConfig_steps txs (cs_nextConfig s) \<rparr>)"
proof (induction txs arbitrary: s)
  case Nil
  then show ?case by (simp add: nextConfig_steps_Cons)
next
  case (Cons tx txs)
  have "config_run h b (s \<lparr> cs_nextConfig := nextConfig_step tx (cs_nextConfig s) \<rparr>)"
    by (rule cr_set [OF Cons.prems]) simp
  from Cons.IH [OF this] show ?case by (simp add: nextConfig_steps_Cons)
qed

lemma small_setters_next: "nextConfig_steps (small_setters start b) zero_ContractConfig = small_scheduled start b"
  by (simp add: small_setters_def small_scheduled_def nextConfig_steps_Cons zero_ContractConfig_def)

lemma small_run0: "config_run 5 100 (small_store [])"
  using cr_new [of 5 100] by (simp add: small_store_def new_ConfigStore_def)

lemma small_run1: "config_run 5 100 (small_store [small_scheduled 115 0])"
proof (rule cr_schedule [OF config_run_setters [OF small_run0, of "small_setters 115 0"]])
  show "config_step 100 ScheduleNextConfig (small_store []
      \<lparr> cs_nextConfig := nextConfig_steps (small_setters 115 0) (cs_nextConfig (small_store [])) \<rparr>) =
    Some (small_store [small_scheduled 115 0])"
    by (simp add: small_setters_next small_store_def) (simp add: scheduleNextConfig_def small_scheduled_def zero_ContractConfig_def
        checked_add_def seamless_transition_def Let_def)
qed

lemma small_run2: "config_run 5 100 (small_store [small_scheduled 115 0, small_scheduled 125 1])"
proof (rule cr_schedule [OF config_run_setters [OF small_run1, of "small_setters 125 1"]])
  show "config_step 100 ScheduleNextConfig (small_store [small_scheduled 115 0]
      \<lparr> cs_nextConfig := nextConfig_steps (small_setters 125 1) (cs_nextConfig (small_store [small_scheduled 115 0])) \<rparr>) =
    Some (small_store [small_scheduled 115 0, small_scheduled 125 1])"
    by (simp add: small_setters_next small_store_def) (simp add: scheduleNextConfig_def small_scheduled_def zero_ContractConfig_def
        checked_add_def checked_mult_def seamless_transition_def Let_def)
qed

theorem batches_tile_blocks_witness:
  "\<exists>mc. mc_BatchConfigs mc = [zero_ContractConfig, small_scheduled 115 0, small_scheduled 125 1] \<and>
     ActiveConfigIndex mc 117 = Inr 1 \<and> ConfigIndexForBatchIndex mc 0 = Inr (Some 1) \<and>
     (\<exists>stop. BatchEndBlock (small_scheduled 115 0) 0 = Inr stop \<and> stop \<le> 125)"
proof -
  let ?s = "small_store [small_scheduled 115 0, small_scheduled 125 1]"
  let ?mc = "(NewMainChain 0) \<lparr> mc_BatchConfigs := [zero_ContractConfig, small_scheduled 115 0, small_scheduled 125 1] \<rparr>"
  have configs: "mc_BatchConfigs ?mc = map (\<lambda>c. c \<lparr> cc_Keypers := DedupAddresses (cc_Keypers c) \<rparr>) (cs_configs ?s)"
    by (simp add: small_store_def small_scheduled_def zero_ContractConfig_def)
  have active: "ActiveConfigIndex ?mc 117 = Inr 1" by code_simp
  have fits: "0 < cc_BatchSpan (small_scheduled 115 0)" "BatchIndex (small_scheduled 115 0) 117 = Inr 0"
    "batch_fits (small_scheduled 115 0) 0"
    "open_until (small_scheduled 115 0) 0 + unat (cc_ExecutionTimeout (small_scheduled 115 0)) < 2 ^ 64"
    by (simp_all add: small_scheduled_def BatchIndex_def batch_fits_def open_until_def zero_ContractConfig_def)
  have nth: "cs_configs ?s ! 1 = small_scheduled 115 0" "cs_configs ?s ! Suc 1 = small_scheduled 125 1" "length (cs_configs ?s) = 3"
    by (simp_all add: small_store_def)
  have "cc_StartBlockNumber (small_scheduled 125 1) = 125" by (simp add: small_scheduled_def)
  moreover have "starts_in_order (cs_configs ?s)"
    by (simp add: starts_in_order_def small_store_def small_scheduled_def zero_ContractConfig_def)
  ultimately have "ConfigIndexForBatchIndex ?mc 0 = Inr (Some 1) \<and> (\<exists>stop. BatchEndBlock (small_scheduled 115 0) 0 = Inr stop \<and> stop \<le> 125)"
    using batches_tile_blocks [OF small_run2 _ configs active nth(1) [symmetric] fits]
    unfolding nth by auto
  with active show ?thesis by (intro exI [of _ ?mc]) simp
qed

text \<open>
  The contract does accept a config that starts before a pending inactive one: batches of 10 blocks from block
  115, none from block 205, and batches again from block 160.
\<close>

theorem configs_out_of_order:
  "\<exists>s. config_run 5 100 s \<and> \<not> starts_in_order (cs_configs s)"
proof -
  let ?idle = "small_scheduled 205 9 \<lparr> cc_BatchSpan := 0 \<rparr>"
  let ?cs = "[small_scheduled 115 0, ?idle]"
  have idle: "nextConfig_steps (small_setters 205 9 @ [SetBatchSpan 0]) zero_ContractConfig = ?idle"
    by (simp add: small_setters_def small_scheduled_def nextConfig_steps_Cons zero_ContractConfig_def)
  have none: "cs_nextConfig (small_store cs) = zero_ContractConfig" for cs by (simp add: small_store_def)
  have run: "config_run 5 100 (small_store ?cs)"
  proof (rule cr_schedule [OF config_run_setters [OF small_run1, of "small_setters 205 9 @ [SetBatchSpan 0]"]])
    show "config_step 100 ScheduleNextConfig (small_store [small_scheduled 115 0] \<lparr> cs_nextConfig :=
        nextConfig_steps (small_setters 205 9 @ [SetBatchSpan 0]) (cs_nextConfig (small_store [small_scheduled 115 0])) \<rparr>) =
      Some (small_store ?cs)"
      unfolding none idle by (simp add: small_store_def) (simp add: scheduleNextConfig_def small_scheduled_def zero_ContractConfig_def
          checked_add_def checked_mult_def seamless_transition_def Let_def)
  qed
  have "config_run 5 100 (small_store (?cs @ [small_scheduled 160 9]))"
  proof (rule cr_schedule [OF config_run_setters [OF run, of "small_setters 160 9"]])
    show "config_step 100 ScheduleNextConfig (small_store ?cs
        \<lparr> cs_nextConfig := nextConfig_steps (small_setters 160 9) (cs_nextConfig (small_store ?cs)) \<rparr>) =
      Some (small_store (?cs @ [small_scheduled 160 9]))"
      by (simp add: small_setters_next small_store_def) (simp add: scheduleNextConfig_def small_scheduled_def zero_ContractConfig_def
          checked_add_def checked_mult_def seamless_transition_def Let_def)
  qed
  moreover have "\<not> starts_in_order (cs_configs (small_store (?cs @ [small_scheduled 160 9])))"
    by (simp add: starts_in_order_def small_store_def small_scheduled_def zero_ContractConfig_def)
  ultimately show ?thesis by blast
qed

text \<open>
  C27: What a user sends is accepted. The tool that sends transactions picks the batch of the newest block; as
  long as its transaction is executed before that batch ends, the batcher contract finds the batch open.
\<close>

theorem sent_transactions_accepted:
  assumes "config_run headsUp blk s" "store_getters s cc" "sendtxs_batch cc (Inr n) txType = Some (b, t)"
    and "search_down (\<lambda>i. cc_StartBlockNumber (cs_configs s ! i) \<le> n) (length (cs_configs s)) = Some i"
    and "config = cs_configs s ! i" "0 < cc_BatchSpan config" "batch_fits config b"
    and "open_until config b + unat (cc_ExecutionTimeout config) < 2 ^ 64"
  shows "\<exists>stop. BatchEndBlock config b = Inr stop \<and> n < stop \<and> (\<forall>m. n \<le> m \<and> m < stop \<longrightarrow> batch_open m b s)"
proof -
  let ?c = "cs_configs s ! i"
  note config = assms(6-8) [unfolded assms(5)]
  have "cc_StartBlockNumber ?c \<le> n" using assms(4) by (simp add: search_down_Some_iff)
  moreover have "b = next_batch (ConfigFields.truncate ?c) n - 1"
    using assms(3) by (auto simp: sendtxs_batch_def store_NextBatchIndex [OF assms(2,4)] split: if_splits)
  ultimately have "BatchIndex ?c n = Inr b"
    using config(1) by (cases ?c) (auto simp: BatchIndex_def next_batch_def ConfigFields.truncate_def)
  from batch_blocks [OF config_run_seamless [OF assms(1)] config(1) this config(2,3) assms(4)]
  obtain stop where "BatchEndBlock ?c b = Inr stop" "n < stop" "\<forall>m. n \<le> m \<longrightarrow> m < stop \<longrightarrow> batch_open m b s" by metis
  then show ?thesis unfolding assms(5) by blast
qed

definition getters_of :: "ConfigStore \<Rightarrow> config_contract" where
  "getters_of s = \<lparr> call_NumConfigs = Inr (of_nat (length (cs_configs s))),
     call_Configs = (\<lambda>i. if unat i < length (cs_configs s) then Inr (ConfigFields.truncate (cs_configs s ! unat i)) else Inl (Errorf ''reverted'')),
     call_ConfigNumKeypers = (\<lambda>i. Inr (of_nat (length (cc_Keypers (cs_configs s ! unat i))))),
     call_ConfigKeypers = (\<lambda>i k. Inr (cc_Keypers (cs_configs s ! unat i) ! unat k)),
     call_NextConfig = Inr (ConfigFields.truncate (cs_nextConfig s)),
     call_NextConfigNumKeypers = Inr (of_nat (length (cc_Keypers (cs_nextConfig s)))),
     call_NextConfigKeypers = (\<lambda>k. Inr (cc_Keypers (cs_nextConfig s) ! unat k)) \<rparr>"

lemma store_getters_of:
  assumes "length (cs_configs s) < 2 ^ 64" "\<forall>c\<in>set (cs_configs s). length (cc_Keypers c) < 2 ^ 64"
  shows "store_getters s (getters_of s)"
proof -
  have "unat (of_nat i :: u64) = i" if "i < length (cs_configs s)" for i
    using that assms(1) by (intro unat_of_nat_u64) simp
  with assms show ?thesis by (simp add: store_getters_def getters_of_def)
qed

lemma small_store_getters: "store_getters (small_store [small_scheduled 115 0]) (getters_of (small_store [small_scheduled 115 0]))"
  "store_getters (small_store [small_scheduled 115 0, small_scheduled 125 1])
    (getters_of (small_store [small_scheduled 115 0, small_scheduled 125 1]))"
  by (rule store_getters_of; simp add: small_store_def small_scheduled_def zero_ContractConfig_def)+

theorem sent_transactions_accepted_witness:
  "sendtxs_batch (getters_of (small_store [small_scheduled 115 0, small_scheduled 125 1])) (Inr 131) 1 = Some (1, 1) \<and>
   batch_open 134 1 (small_store [small_scheduled 115 0, small_scheduled 125 1])"
proof -
  let ?s = "small_store [small_scheduled 115 0, small_scheduled 125 1]"
  have found: "search_down (\<lambda>i. cc_StartBlockNumber (cs_configs ?s ! i) \<le> 131) (length (cs_configs ?s)) = Some 2"
    by (simp add: small_store_def small_scheduled_def)
  have nth: "small_scheduled 125 1 = cs_configs ?s ! 2" by (simp add: small_store_def)
  have "next_batch (ConfigFields.truncate (small_scheduled 125 1)) 131 = 2"
    by (simp add: next_batch_def small_scheduled_def zero_ContractConfig_def ConfigFields.truncate_def)
  then have sent: "sendtxs_batch (getters_of ?s) (Inr 131) 1 = Some (1, 1)"
    using store_NextBatchIndex [OF small_store_getters(2) found] by (simp add: sendtxs_batch_def nth [symmetric])
  have fits: "0 < cc_BatchSpan (small_scheduled 125 1)" "batch_fits (small_scheduled 125 1) 1"
    "open_until (small_scheduled 125 1) 1 + unat (cc_ExecutionTimeout (small_scheduled 125 1)) < 2 ^ 64"
    "BatchEndBlock (small_scheduled 125 1) 1 = Inr 135"
    by (simp_all add: small_scheduled_def batch_fits_def open_until_def zero_ContractConfig_def BatchEndBlock_def BatchStartBlock_def)
  have "batch_open 134 1 ?s"
    using sent_transactions_accepted [OF small_run2 small_store_getters(2) sent found nth fits(1-3)] fits(4) by auto
  with sent show ?thesis by blast
qed

section \<open>Scheduling\<close>

text \<open>
  C29: \<open>prepare schedule\<close> schedules a config. On a contract without a prepared next config, whose last config
  begins within the heads-up time, the command succeeds if the last of its transactions is executed in time,
  and they append one config to the contract: its keypers are those of the config files, its threshold is two
  thirds of them rounded up, and it follows the last config without gap or overlap.
\<close>

theorem schedule_accepted:
  assumes "store_getters s cc" "cs_configs s \<noteq> []" "length (cs_configs s) < 2 ^ 64 - 2" "cs_nextConfig s = zero_ContractConfig"
    and "c = last (cs_configs s)" "unat (cc_StartBlockNumber c) \<le> unat header + unat (cs_headsUp s) + 10"
    and "unat header < 2 ^ 61" "unat (cs_headsUp s) < 2 ^ 61" "unat (cc_BatchSpan c) < 2 ^ 62" "unat (cc_StartBatchIndex c) < 2 ^ 62"
    and "length keypers < 2 ^ 62" "hexutil_Decode E (sf_TargetFunctionSelector flags) = Inr selector"
    and "\<And>n c t. send n c = Inr t \<Longrightarrow> call t = c"
    and "schedule_transactions E send nonce cc (Inr (cs_headsUp s)) (Inr header) flags keypers = Inr txs"
    and "length blocks = length txs"
    and "unat (last blocks) + max (unat (cs_headsUp s)) (unat (cc_BatchSpan c)) + 1 \<le> unat header + unat (cs_headsUp s) + 10"
    and "config_receipts (zip blocks (map call txs)) s = (statuses, s')" "list_all2 (\<lambda>tx. mined (node tx)) txs statuses"
    and "code \<noteq> []" "3 \<le> length keypers"
  shows "prepare_schedule E (Inr code) (Inr nonce) send node cc (Inr (cs_headsUp s)) (Inr header) flags keypers = Some (Inr ()) \<and>
    (\<exists>start. let config = scheduled_config E flags keypers selector start in
       s' = s \<lparr> cs_configs := cs_configs s @ [config], cs_nextConfig := zero_ContractConfig \<rparr> \<and>
       follows c config \<and> cc_Keypers config = keypers \<and>
       2 * length keypers \<le> 3 * unat (cc_Threshold config) \<and> 3 * unat (cc_Threshold config) \<le> 2 * length keypers + 2)"
proof -
  let ?m = "header + cs_headsUp s + 10"
  obtain start where start: "chooseStartBlockAndBatch cc (Inr (cs_headsUp s)) (Inr header) = Inr start"
    "map call txs = schedule_setters E flags keypers selector @ schedule_start start"
    by (rule schedule_transactions_calls [OF assms(13,12,14)])
  have chosen: "choose_start c ?m = start"
    using start(1) chooseStartBlockAndBatch_store [OF assms(1,2)] assms(5) by simp
  let ?config = "scheduled_config E flags keypers selector start" and ?s = "s \<lparr> cs_nextConfig := scheduled_config E flags keypers selector start \<rparr>"
  have config: "cc_StartBlockNumber ?config = fst start" "cc_StartBatchIndex ?config = snd start" "cc_Keypers ?config = keypers"
    "cc_Threshold ?config = of_nat ((length keypers * 2 + 2) div 3)"
    by (simp_all add: scheduled_config_def zero_ContractConfig_def)
  have "unat (header + cs_headsUp s) = unat header + unat (cs_headsUp s)" using assms(7,8) by (intro unat_add_u64) simp
  then have m: "unat ?m = unat header + unat (cs_headsUp s) + 10"
    using unat_add_u64 [of "header + cs_headsUp s" 10] assms(7,8) by simp
  then have pending: "cc_StartBlockNumber c \<le> ?m" using assms(6) by (simp add: word_le_nat_alt)
  have late: "unat ?m \<le> unat (fst start)" and seam: "seamless_transition c ?config = Some ()"
  proof -
    have "unat ?m \<le> unat (fst start) \<and> seamless_transition c ?config = Some ()"
    proof (cases "cc_BatchSpan c = 0")
      case True
      with chosen have "start = (?m, cc_StartBatchIndex c)" by (simp add: choose_start_def)
      with True config show ?thesis by (simp add: seamless_transition_def require_def)
    next
      case False
      then have span: "0 < cc_BatchSpan c" by (simp add: word_gt_0)
      have "unat ?m < 2 ^ 63" using m assms(7,8) by simp
      from choose_start_later [OF span pending this assms(9,10)] obtain k st b where
        k: "choose_start c ?m = (st, b)" "0 < k" "unat ?m + 2 \<le> unat st"
        "unat st = unat (cc_StartBlockNumber c) + k * unat (cc_BatchSpan c)" "unat b = unat (cc_StartBatchIndex c) + k" .
      with chosen have "start = (st, b)" by simp
      with k config seamless_transition_Some [OF span _ k(2), of ?config] show ?thesis by simp
    qed
    then show "unat ?m \<le> unat (fst start)" "seamless_transition c ?config = Some ()" by blast+
  qed
  have "scheduleNextConfig (last blocks) ?s = Some (?s \<lparr> cs_configs := cs_configs ?s @ [cs_nextConfig ?s], cs_nextConfig := zero_ContractConfig \<rparr>)"
    by (rule scheduleNextConfig_Some) (use assms(3,5,16) late seam m config(1) in simp_all)
  moreover have "length keypers < 2 ^ 64" "length blocks = length (map call txs)" using assms(11,15) by simp_all
  ultimately have run: "statuses = replicate 10 1 @ [1]" "s' = s \<lparr> cs_configs := cs_configs s @ [?config], cs_nextConfig := zero_ContractConfig \<rparr>"
    using scheduled_run [OF assms(4) _ _ start(2) refl, of blocks] assms(17) by simp_all
  have returns: "prepare_schedule E (Inr code) (Inr nonce) send node cc (Inr (cs_headsUp s)) (Inr header) flags keypers = Some (Inr ())"
    using prepare_schedule_mined [OF assms(14,18-20)] run(1) by simp
  have "follows c ?config"
    by (rule seamless_transition_follows [OF seam]) (use pending late config(1) in \<open>simp add: word_le_nat_alt\<close>)
  moreover have "unat (cc_Threshold ?config) = (length keypers * 2 + 2) div 3"
    unfolding config(4) by (rule unat_of_nat_u64) (use assms(11) in simp)
  moreover have "2 * length keypers \<le> 3 * ((length keypers * 2 + 2) div 3)" "3 * ((length keypers * 2 + 2) div 3) \<le> 2 * length keypers + 2"
    by presburger+
  ultimately show ?thesis
    using config(3) returns run(2) unfolding Let_def by (intro conjI exI [of _ start]) simp_all
qed

definition small_flags :: scheduleFlags where
  "small_flags = \<lparr> sf_TargetContractAddress = Address_Hex small_eth 4, sf_TargetFunctionSelector = hexutil_Encode small_eth [1, 2, 3, 4],
     sf_BatchSpan = 10, sf_TransactionSizeLimit = 100, sf_BatchSizeLimit = 1000 \<rparr>"

lemma small_selector: "hexutil_Decode small_eth (sf_TargetFunctionSelector small_flags) = Inr [1, 2, 3, 4]"
  by (simp add: small_flags_def hexutil_laws [OF eth_ok_small])

lemma send_all: "send_txs (\<lambda>n c. Inr c) nonce calls = (calls, Inr ())"
  by (induction calls arbitrary: nonce) simp_all

lemma small_sent:
  assumes "chooseStartBlockAndBatch cc headsUp header = Inr start"
  shows "schedule_transactions small_eth (\<lambda>n c. Inr c) 7 cc headsUp header small_flags [1, 2, 3] =
    Inr (schedule_setters small_eth small_flags [1, 2, 3] [1, 2, 3, 4] @ schedule_start start)"
  by (simp add: schedule_transactions_def small_selector then_send_def send_all assms)

text \<open>A node that answers the second question for a receipt with the status.\<close>

definition small_mining :: "'tx list \<Rightarrow> u64 list \<Rightarrow> 'tx \<Rightarrow> nat \<Rightarrow> u64 option result" where
  "small_mining txs statuses tx n = Inr (if n = 0 then None else map_of (zip txs statuses) tx)"

lemma small_mining_mined:
  assumes "distinct txs" "length statuses = length txs"
  shows "list_all2 (\<lambda>tx. mined (small_mining txs statuses tx)) txs statuses"
  unfolding list_all2_conv_all_nth
  using assms by (auto simp: mined_def small_mining_def map_of_zip_nth intro!: exI [of _ 1])

lemma length_config_receipts: "config_receipts calls s = (statuses, s') \<Longrightarrow> length statuses = length calls"
proof (induction calls arbitrary: s statuses s')
  case (Cons c calls)
  then show ?case by (cases c) (auto split: option.splits prod.splits)
qed simp

text \<open>The run of the witnesses: all blocks are the same, and the node tells what happened.\<close>

lemma small_schedule_run:
  assumes "chooseStartBlockAndBatch cc (Inr 5) (Inr header) = Inr start"
  obtains txs statuses s' where
    "schedule_transactions small_eth (\<lambda>n c. Inr c) 7 cc (Inr 5) (Inr header) small_flags [1, 2, 3] = Inr txs" "length txs = 11"
    "config_receipts (zip (replicate 11 b) (map (\<lambda>t. t) txs)) s = (statuses, s')"
    "list_all2 (\<lambda>tx. mined (small_mining txs statuses tx)) txs statuses"
proof -
  let ?txs = "schedule_setters small_eth small_flags [1, 2, 3] [1, 2, 3, 4] @ schedule_start start"
  have txs: "length ?txs = 11" "distinct ?txs" by (simp_all add: schedule_setters_def schedule_start_def Let_def)
  obtain statuses s' where run: "config_receipts (zip (replicate 11 b) (map (\<lambda>t. t) ?txs)) s = (statuses, s')"
    by (cases "config_receipts (zip (replicate 11 b) (map (\<lambda>t. t) ?txs)) s")
  have "length statuses = length ?txs" using length_config_receipts [OF run] txs(1) by simp
  from that [OF small_sent [OF assms] txs(1) run small_mining_mined [OF txs(2) this]] show thesis .
qed

theorem schedule_accepted_witness:
  "\<exists>node start. prepare_schedule small_eth (Inr [96]) (Inr 7) (\<lambda>n c. Inr c) node
       (getters_of (small_store [small_scheduled 115 0])) (Inr 5) (Inr 120) small_flags [1, 2, 3] = Some (Inr ()) \<and>
     follows (small_scheduled 115 0) (scheduled_config small_eth small_flags [1, 2, 3] [1, 2, 3, 4] start)"
proof -
  let ?s = "small_store [small_scheduled 115 0]" and ?cc = "getters_of (small_store [small_scheduled 115 0])"
  have last: "small_scheduled 115 0 = last (cs_configs ?s)" "cs_headsUp ?s = 5" "cs_nextConfig ?s = zero_ContractConfig"
    "cs_configs ?s = [zero_ContractConfig, small_scheduled 115 0]"
    by (simp_all add: small_store_def)
  have c: "cc_StartBlockNumber (small_scheduled 115 0) = 115" "cc_BatchSpan (small_scheduled 115 0) = 10"
    "cc_StartBatchIndex (small_scheduled 115 0) = 0" by (simp_all add: small_scheduled_def zero_ContractConfig_def)
  obtain start where "chooseStartBlockAndBatch ?cc (Inr 5) (Inr 120) = Inr start"
    using chooseStartBlockAndBatch_store [OF small_store_getters(1)] last(4) by simp
  from small_schedule_run [OF this, of 122 ?s] obtain txs statuses s' where
    sent: "schedule_transactions small_eth (\<lambda>n c. Inr c) 7 ?cc (Inr 5) (Inr 120) small_flags [1, 2, 3] = Inr txs" "length txs = 11" and
    run: "config_receipts (zip (replicate 11 122) (map (\<lambda>t. t) txs)) ?s = (statuses, s')" and
    node: "list_all2 (\<lambda>tx. mined (small_mining txs statuses tx)) txs statuses" .
  have "prepare_schedule small_eth (Inr [96]) (Inr 7) (\<lambda>n c. Inr c) (small_mining txs statuses) ?cc (Inr (cs_headsUp ?s)) (Inr 120)
      small_flags [1, 2, 3] = Some (Inr ()) \<and>
    (\<exists>start. let config = scheduled_config small_eth small_flags [1, 2, 3] [1, 2, 3, 4] start in
       s' = ?s \<lparr> cs_configs := cs_configs ?s @ [config], cs_nextConfig := zero_ContractConfig \<rparr> \<and>
       follows (small_scheduled 115 0) config \<and> cc_Keypers config = [1, 2, 3] \<and>
       2 * length [1 :: address, 2, 3] \<le> 3 * unat (cc_Threshold config) \<and>
       3 * unat (cc_Threshold config) \<le> 2 * length [1 :: address, 2, 3] + 2)"
    by (rule schedule_accepted [OF small_store_getters(1) _ _ last(3,1) _ _ _ _ _ _ small_selector _ sent(1) [folded last(2)] _ _ run node])
      (simp_all add: last(2,4) c sent(2))
  then show ?thesis unfolding last(2) Let_def by blast
qed

text \<open>
  C39: While the last config of the contract is an active one that begins more than 11 blocks after the end of the
  heads-up time (\<open>header + headsUp + 11 < start\<close>), \<open>prepare schedule\<close> fails: the unsigned distance from its start to
  the first possible start of the new config wraps around, and the transaction that schedules the new config
  reverts, whenever it is executed. The keypers stay in the next config, so trying again later adds them a second
  time. (\<open>schedule_accepted\<close> is the case of a last config that begins within the heads-up time; after an
  inactive one the distance is not computed.)
\<close>

theorem schedule_reverts_while_pending:
  assumes "store_getters s cc" "cs_configs s \<noteq> []" "cs_nextConfig s = zero_ContractConfig"
    and "c = last (cs_configs s)" "0 < cc_BatchSpan c" "unat (header + cs_headsUp s + 10) + 1 < unat (cc_StartBlockNumber c)"
    and "length keypers < 2 ^ 62" "hexutil_Decode E (sf_TargetFunctionSelector flags) = Inr selector"
    and "\<And>n c t. send n c = Inr t \<Longrightarrow> call t = c"
    and "schedule_transactions E send nonce cc (Inr (cs_headsUp s)) (Inr header) flags keypers = Inr txs"
    and "length blocks = length txs"
    and "config_receipts (zip blocks (map call txs)) s = (statuses, s')" "list_all2 (\<lambda>tx. mined (node tx)) txs statuses"
    and "code \<noteq> []" "3 \<le> length keypers"
  shows "prepare_schedule E (Inr code) (Inr nonce) send node cc (Inr (cs_headsUp s)) (Inr header) flags keypers =
      Some (Inl (Errorf ''some txs have failed'')) \<and>
    cs_configs s' = cs_configs s \<and>
    cc_Keypers (nextConfig_step (AddKeypers keypers) (cs_nextConfig s')) = keypers @ keypers"
proof -
  obtain start where start: "chooseStartBlockAndBatch cc (Inr (cs_headsUp s)) (Inr header) = Inr start"
    "map call txs = schedule_setters E flags keypers selector @ schedule_start start"
    by (rule schedule_transactions_calls [OF assms(9,8,10)])
  let ?config = "scheduled_config E flags keypers selector start"
  have "choose_start c (header + cs_headsUp s + 10) = (cc_StartBlockNumber ?config, cc_StartBatchIndex ?config)"
    using start(1) chooseStartBlockAndBatch_store [OF assms(1,2)] assms(4)
    by (simp add: scheduled_config_def zero_ContractConfig_def)
  then have "seamless_transition c ?config = None" by (rule choose_start_pending [OF assms(5,6)])
  then have none: "seamless_transition (last (cs_configs (s \<lparr> cs_nextConfig := ?config \<rparr>))) (cs_nextConfig (s \<lparr> cs_nextConfig := ?config \<rparr>)) = None"
    by (simp add: assms(4))
  have "scheduleNextConfig (last blocks) (s \<lparr> cs_nextConfig := ?config \<rparr>) = None"
  proof (rule ccontr)
    assume "scheduleNextConfig (last blocks) (s \<lparr> cs_nextConfig := ?config \<rparr>) \<noteq> None"
    then obtain s' where "scheduleNextConfig (last blocks) (s \<lparr> cs_nextConfig := ?config \<rparr>) = Some s'" by blast
    from scheduleNextConfig_configs [OF this] none show False by simp
  qed
  moreover have "length keypers < 2 ^ 64" "length blocks = length (map call txs)" using assms(7,11) by simp_all
  ultimately have run: "statuses = replicate 10 1 @ [0]" "s' = s \<lparr> cs_nextConfig := ?config \<rparr>"
    using scheduled_run [OF assms(3) _ _ start(2) refl, of blocks] assms(12) by simp_all
  have "cc_Keypers ?config = keypers" by (simp add: scheduled_config_def zero_ContractConfig_def)
  then show ?thesis
    using prepare_schedule_mined [OF assms(10,13-15)] run assms(7) by simp
qed

theorem schedule_reverts_while_pending_witness:
  "\<exists>node. prepare_schedule small_eth (Inr [96]) (Inr 7) (\<lambda>n c. Inr c) node
     (getters_of (small_store [small_scheduled 115 0, small_scheduled 125 1])) (Inr 5) (Inr 100) small_flags [1, 2, 3] =
       Some (Inl (Errorf ''some txs have failed''))"
proof -
  let ?s = "small_store [small_scheduled 115 0, small_scheduled 125 1]"
  have last: "small_scheduled 125 1 = last (cs_configs ?s)" "cs_headsUp ?s = 5" "cs_nextConfig ?s = zero_ContractConfig" "cs_configs ?s \<noteq> []"
    by (simp_all add: small_store_def)
  have c: "0 < cc_BatchSpan (small_scheduled 125 1)" "cc_StartBlockNumber (small_scheduled 125 1) = 125"
    by (simp_all add: small_scheduled_def zero_ContractConfig_def)
  obtain start where "chooseStartBlockAndBatch (getters_of ?s) (Inr 5) (Inr 100) = Inr start"
    using chooseStartBlockAndBatch_store [OF small_store_getters(2) last(4)] by simp
  from small_schedule_run [OF this, of 101 ?s] obtain txs statuses s' where
    sent: "schedule_transactions small_eth (\<lambda>n c. Inr c) 7 (getters_of ?s) (Inr 5) (Inr 100) small_flags [1, 2, 3] = Inr txs" "length txs = 11" and
    run: "config_receipts (zip (replicate 11 101) (map (\<lambda>t. t) txs)) ?s = (statuses, s')" and
    node: "list_all2 (\<lambda>tx. mined (small_mining txs statuses tx)) txs statuses" .
  have "prepare_schedule small_eth (Inr [96]) (Inr 7) (\<lambda>n c. Inr c) (small_mining txs statuses) (getters_of ?s) (Inr (cs_headsUp ?s)) (Inr 100)
      small_flags [1, 2, 3] = Some (Inl (Errorf ''some txs have failed'')) \<and> cs_configs s' = cs_configs ?s \<and>
    cc_Keypers (nextConfig_step (AddKeypers [1, 2, 3]) (cs_nextConfig s')) = [1, 2, 3] @ [1, 2, 3]"
    by (rule schedule_reverts_while_pending [OF small_store_getters(2) last(4,3,1) c(1) _ _ small_selector _ sent(1) [folded last(2)] _ run node])
      (simp_all add: c(2) sent(2) last(2))
  then show ?thesis unfolding last(2) by blast
qed

section \<open>Bootstrapping\<close>

text \<open>
  C28: A new chain can be bootstrapped. From the genesis state of \<open>cmd/init.go\<close>, with one keyper and threshold
  one, the two messages of \<open>bootstrap\<close>, signed by that keyper and each in a block of its own, make the config
  of the contract the started config of the chain and start its key generation, and the tool succeeds.
\<close>

theorem bootstrap_starts_keypers:
  assumes "eth_ok E" "proto_ok P" "\<And>i. orders_ok (Rs i)" "a = PubkeyToAddress E (sk_PublicKey E sk)"
    and "UnmarshalJSON (req_AppStateBytes req) = Inr (NewGenesisAppState [a] 1)"
    and "InitChain UnmarshalJSON req NewShielderApp = Inr app" "req_ChainId req \<noteq> []"
    and "bootstrap_config cc index = Inr (i, c)" "0 < i"
    and "cc_Keypers c \<noteq> []" "0 < cc_Threshold c" "sint (cc_Threshold c) \<le> int (length (cc_Keypers c))"
    and "SignMessage E P \<lparr> mwn_Msg = Some (NewBatchConfig E (cc_StartBatchIndex c) (cc_Keypers c) (cc_Threshold c) cca i False False),
           mwn_ChainId = req_ChainId req, mwn_RandomNonce = n1 \<rparr> sk = Inr signed1"
    and "SignMessage E P \<lparr> mwn_Msg = Some (NewBatchConfigStarted i), mwn_ChainId = req_ChainId req, mwn_RandomNonce = n2 \<rparr> sk = Inr signed2"
    and "n1 \<noteq> n2"
  shows "\<exists>r1 us1 app1 r2 us2 app2.
    run_block Rs R B E P h1 [b64_EncodeToString signed1] app = Inr ([r1], us1, app1) \<and>
    run_block Rs R B E P h2 [b64_EncodeToString signed2] app1 = Inr ([r2], us2, app2) \<and>
    app_Configs app2 = [genesis_config a, (contract_batch_config c cca i) \<lparr> bc_Started := True \<rparr>] \<and>
    app_EONCounter app2 = 1 \<and> app_DKGMap app2 1 = Some (NewDKGInstance (contract_batch_config c cca i) 1) \<and>
    (\<forall>T1 T2 metas. rpc_BlockchainInfo T1 = Inr (req_ChainId req # metas) \<and>
       rpc_BroadcastTxCommit T1 (b64_EncodeToString signed1) = Inr (resp_Code r1) \<and>
       rpc_BroadcastTxCommit T2 (b64_EncodeToString signed2) = Inr (resp_Code r2) \<longrightarrow>
       bootstrap E P T1 T2 n1 n2 cc cca index sk = Inr ())"
proof -
  let ?bc = "contract_batch_config c cca i"
  note genesis = InitChain_genesis [OF assms(5,6)]
  have bc: "0 < bc_ConfigIndex ?bc" "EnsureValid ?bc = None" "\<not> bc_Started ?bc" "0 < bc_Threshold ?bc" "bc_ConfigIndex ?bc = i"
    using assms(9-12) by (simp_all add: contract_batch_config_def EnsureValid_None_iff word_gt_0)
  have d: "distinct (cc_Keypers c)"
    using assms(8) GetConfigByIndex_distinct by (fastforce simp: bootstrap_config_def elim!: result_bindE split: if_err_splits)
  obtain m where m: "NewBatchConfig E (cc_StartBatchIndex c) (cc_Keypers c) (cc_Threshold c) cca i False False = Some (Message_BatchConfig m)"
    by (simp add: NewBatchConfig_def)
  then have read: "BatchConfigFromMessage E m = Inr ?bc"
    using BatchConfigFromMessage_NewBatchConfig [OF assms(1) d m] by (simp add: contract_batch_config_def)
  note decode = decodeTx_signed [OF assms(1,2,13), folded assms(4)] decodeTx_signed [OF assms(1,2,14), folded assms(4)]
  let ?app = "app \<lparr> app_NonceTracker := NonceTracker_Add a n1 (app_NonceTracker app) \<rparr>"
  obtain r1 app' where first: "deliverBatchConfig (Rs 0) E m a ?app = Inr (r1, app')" "resp_Code r1 = 0"
    "app_Configs app' = [genesis_config a, ?bc]" "app_EONCounter app' = 1" "app_DKGMap app' 1 = Some (NewDKGInstance ?bc 1)"
    "app_StartedVotes app' = {}" "app_Identities app' = Map.empty" "app_ChainID app' = req_ChainId req"
    "app_NonceTracker app' = NonceTracker_Add a n1 NewNonceTracker"
    using deliverBatchConfig_genesis [OF assms(3) _ _ read bc(1,2), of ?app a 0] genesis by auto
  have tx1: "DeliverTx (Rs 0) B E P (b64_EncodeToString signed1) app = Inr (r1, app')"
    using genesis first(1) by (simp add: DeliverTx_def decode(1) m)
  obtain us1 app1 where end1: "EndBlock R h1 app' = Inr (us1, app1)"
    "app_Configs app1 = [genesis_config a, ?bc]" "app_StartedVotes app1 = {}" "app_Identities app1 = Map.empty"
    "app_NonceTracker app1 = NonceTracker_Add a n1 NewNonceTracker" "app_ChainID app1 = req_ChainId req"
    "app_EONCounter app1 = 1" "app_DKGMap app1 1 = Some (NewDKGInstance ?bc 1)"
    using EndBlock_waiting [OF first(3) bc(3) first(7) bc(4), of R h1] first(4-9) bc(3) by (auto simp: contract_batch_config_def)
  let ?app1 = "app1 \<lparr> app_NonceTracker := NonceTracker_Add a n2 (app_NonceTracker app1) \<rparr>"
  let ?app2 = "?app1 \<lparr> app_StartedVotes := {a} \<rparr>"
  have "IsKeyper (genesis_config a) a" by (simp add: IsKeyper_iff genesis_config_def)
  then have tx2: "DeliverTx (Rs 0) B E P (b64_EncodeToString signed2) app1 = Inr (okResponse [], ?app2)"
    using end1(2-6) bc(3,5) assms(15)
    by (simp add: DeliverTx_def decode(2) NewBatchConfigStarted_def deliverBatchConfigStarted_def LastConfig_def)
  obtain us2 app2 where end2: "EndBlock R h2 ?app2 = Inr (us2, app2)"
    "app_Configs app2 = [genesis_config a, ?bc \<lparr> bc_Started := True \<rparr>]" "app_EONCounter app2 = 1"
    "app_DKGMap app2 1 = Some (NewDKGInstance ?bc 1)"
    using EndBlock_waiting [of ?app2 a ?bc R h2] end1(2,4,7,8) bc(3,4) by auto
  have "run_block Rs R B E P h2 [b64_EncodeToString signed2] app1 = Inr ([okResponse []], us2, app2)"
    by (rule run_block_single [of Rs, OF tx2 end2(1)])
  moreover have "run_block Rs R B E P h1 [b64_EncodeToString signed1] app = Inr ([r1], us1, app1)"
    by (rule run_block_single [of Rs, OF tx1 end1(1)])
  moreover have "bootstrap E P T1 T2 n1 n2 cc cca index sk = Inr ()"
    if "rpc_BlockchainInfo T1 = Inr (req_ChainId req # metas) \<and>
       rpc_BroadcastTxCommit T1 (b64_EncodeToString signed1) = Inr (resp_Code r1) \<and>
       rpc_BroadcastTxCommit T2 (b64_EncodeToString signed2) = Inr (resp_Code (okResponse []))" for T1 T2 metas
    using bootstrap_sent [OF assms(8,7,13,14)] that first(2) by (simp add: okResponse_def)
  ultimately show ?thesis using end2(2-4) by blast
qed

text \<open>The two messages of the witness and how they are marshalled.\<close>

definition small_boot_msg :: MessageWithNonce where
  "small_boot_msg = \<lparr> mwn_Msg = Some (NewBatchConfig small_eth 0 [1, 2, 3] 2 9 1 False False), mwn_ChainId = [7], mwn_RandomNonce = 1 \<rparr>"

definition small_start_msg :: MessageWithNonce where
  "small_start_msg = \<lparr> mwn_Msg = Some (NewBatchConfigStarted 1), mwn_ChainId = [7], mwn_RandomNonce = 2 \<rparr>"

definition small_boot_proto :: proto where
  "small_boot_proto = \<lparr>
     proto_Marshal = (\<lambda>m. if m = small_boot_msg then Inr [1] else if m = small_start_msg then Inr [2] else Inl (Errorf ''marshal'')),
     proto_Unmarshal = (\<lambda>d. if d = [1] then Inr small_boot_msg else if d = [2] then Inr small_start_msg else Inl (Errorf ''unmarshal'')),
     msg_Marshal = (\<lambda>m. Inl (Errorf ''marshal'')), msg_Unmarshal = (\<lambda>d. Inl (Errorf ''unmarshal'')),
     sha3_256 = pad_bytes 32 \<rparr>"

lemma small_boot_signed:
  "SignMessage small_eth small_boot_proto small_boot_msg 1 = Inr (pad_bytes 65 [1] @ [1])"
  "SignMessage small_eth small_boot_proto small_start_msg 1 = Inr (pad_bytes 65 [1] @ [2])"
  and small_boot_proto_ok: "proto_ok small_boot_proto"
proof -
  have "small_boot_msg \<noteq> small_start_msg" by (simp add: small_boot_msg_def small_start_msg_def)
  then show "SignMessage small_eth small_boot_proto small_boot_msg 1 = Inr (pad_bytes 65 [1] @ [1])"
    "SignMessage small_eth small_boot_proto small_start_msg 1 = Inr (pad_bytes 65 [1] @ [2])" "proto_ok small_boot_proto"
    by (auto simp: SignMessage_def small_boot_proto_def small_eth_def proto_ok_def)
qed

theorem bootstrap_starts_keypers_witness:
  "\<exists>app us1 us2 app1 app2 r1 r2.
     InitChain (\<lambda>d. Inr (NewGenesisAppState [1] 1)) small_request NewShielderApp = Inr app \<and>
     run_block (\<lambda>i. small_orders) small_orders bn5 small_eth small_boot_proto 1 [b64_EncodeToString (pad_bytes 65 [1] @ [1])] app =
       Inr ([r1], us1, app1) \<and>
     run_block (\<lambda>i. small_orders) small_orders bn5 small_eth small_boot_proto 2 [b64_EncodeToString (pad_bytes 65 [1] @ [2])] app1 =
       Inr ([r2], us2, app2) \<and>
     map bc_Started (app_Configs app2) = [False, True] \<and> app_EONCounter app2 = 1"
proof -
  let ?s = "small_store [small_scheduled 115 0]" and ?unmarshal = "\<lambda>d :: bytes. Inr (NewGenesisAppState [1] 1) :: GenesisAppState result"
  have signer: "1 = PubkeyToAddress small_eth (sk_PublicKey small_eth 1)" by (simp add: small_signer)
  obtain app where app: "InitChain ?unmarshal small_request NewShielderApp = Inr app"
    by (simp add: InitChain_def small_request_def NewShielderApp_def emptyBatchConfig_def NewGenesisAppState_def GetKeypers_def
        EnsureValid_def MakePowermap_def NewValidatorPubkey_def PublicKeySize_def add_power_def power_of_def Let_def)
  have chain: "req_ChainId small_request = [7]" by (simp add: small_request_def)
  have "GetConfigByIndex (getters_of ?s) 1 = Inr (small_scheduled 115 0)"
    using store_GetConfigByIndex [OF small_store_getters(1), of 1]
    by (simp add: small_store_def small_scheduled_def DedupAddresses_def zero_ContractConfig_def)
  then have config: "bootstrap_config (getters_of ?s) (- 1) = Inr (1, small_scheduled 115 0)"
    by (simp add: bootstrap_config_def getters_of_def small_store_def)
  have c: "cc_Keypers (small_scheduled 115 0) = [1, 2, 3]" "cc_Threshold (small_scheduled 115 0) = 2" "cc_StartBatchIndex (small_scheduled 115 0) = 0"
    by (simp_all add: small_scheduled_def)
  have signed: "SignMessage small_eth small_boot_proto \<lparr> mwn_Msg = Some (NewBatchConfig small_eth
      (cc_StartBatchIndex (small_scheduled 115 0)) (cc_Keypers (small_scheduled 115 0)) (cc_Threshold (small_scheduled 115 0)) 9 1 False False),
      mwn_ChainId = req_ChainId small_request, mwn_RandomNonce = 1 \<rparr> 1 = Inr (pad_bytes 65 [1] @ [1])"
    "SignMessage small_eth small_boot_proto \<lparr> mwn_Msg = Some (NewBatchConfigStarted 1), mwn_ChainId = req_ChainId small_request,
      mwn_RandomNonce = 2 \<rparr> 1 = Inr (pad_bytes 65 [1] @ [2])"
    using small_boot_signed unfolding c chain small_boot_msg_def small_start_msg_def .
  obtain r1 us1 app1 r2 us2 app2 where
    "run_block (\<lambda>i. small_orders) small_orders bn5 small_eth small_boot_proto 1 [b64_EncodeToString (pad_bytes 65 [1] @ [1])] app = Inr ([r1], us1, app1)"
    "run_block (\<lambda>i. small_orders) small_orders bn5 small_eth small_boot_proto 2 [b64_EncodeToString (pad_bytes 65 [1] @ [2])] app1 = Inr ([r2], us2, app2)"
    "app_Configs app2 = [genesis_config 1, (contract_batch_config (small_scheduled 115 0) 9 1) \<lparr> bc_Started := True \<rparr>]"
    "app_EONCounter app2 = 1"
    using bootstrap_starts_keypers [where Rs = "\<lambda>i. small_orders" and R = small_orders and B = bn5 and ?h1.0 = 1 and ?h2.0 = 2,
        OF eth_ok_small small_boot_proto_ok _ signer _ app _ config _ _ _ _ signed]
    by (auto simp: small_orders_ok c chain)
  then show ?thesis using app by (intro exI conjI) (assumption | simp add: genesis_config_def emptyBatchConfig_def)+
qed

end
