(* ===== verification/ConfigChange.thy ===== *)
theory ConfigChange
  imports AppFacts SmallRun
begin

text \<open>
  A config change on the chain, from the first vote to the end of the block that starts the new config: votes of
  threshold many keypers are enough.
\<close>

text \<open>The messages of several keypers, one after the other.\<close>

fun deliver_each ::
  "(address \<Rightarrow> ShielderApp \<Rightarrow> step_result) \<Rightarrow> address list \<Rightarrow> ShielderApp \<Rightarrow> (ResponseDeliverTx list \<times> ShielderApp) result" where
  "deliver_each deliver [] app = Inr ([], app)"
| "deliver_each deliver (a # as) app =
     result_bind (deliver a app) (\<lambda>(r, app').
     result_bind (deliver_each deliver as app') (\<lambda>(rs, app''). Inr (r # rs, app'')))"

lemma accepted_keeps_StartedVotes [simp]: "app_StartedVotes (accepted bc app) = app_StartedVotes app"
  by (simp add: accepted_def Let_def StartDKG_frame) (simp add: updateCheckTxMembers_def)

text \<open>One vote for a config that can follow the last one.\<close>

lemma deliverBatchConfig_vote:
  assumes inv: "app_inv app" and R: "orders_ok R" and bc: "BatchConfigFromMessage E m = Inr bc" and c: "checkConfig app bc = Inr ()"
    and a: "a \<in> set (bc_Keypers (last (app_Configs app)))" "config_choice (app_ConfigVoting app) a = None"
  obtains r app' where "deliverBatchConfig R E m a app = Inr (r, app')" "resp_Code r = 0"
    "if required_votes (last (app_Configs app)) \<le> int (card (insert a {b. config_choice (app_ConfigVoting app) b = Some bc}))
     then app' = accepted bc app
     else \<exists>v. app' = app \<lparr> app_ConfigVoting := v \<rparr> \<and> config_choice v = (config_choice (app_ConfigVoting app))(a \<mapsto> bc)"
proof -
  let ?last = "last (app_Configs app)"
  have ne: "app_Configs app \<noteq> []" using inv by simp
  have old: "wf_ConfigVoting (app_ConfigVoting app)" "config_ballot.undecided (app_ConfigVoting app) (required_votes ?last)"
    using inv by (auto simp: app_inv_def config_voting_ok_def)
  obtain v where v: "ConfigVoting_AddVote a bc (app_ConfigVoting app) = Inr v"
    using ConfigVoting_AddVote_spec(2) [OF old(1), of a bc] a(2) by (cases "ConfigVoting_AddVote a bc (app_ConfigVoting app)") auto
  note v' = ConfigVoting_AddVote_spec(1) [OF old(1) v]
  have voters: "{b. config_choice v b = Some bc} = insert a {b. config_choice (app_ConfigVoting app) b = Some bc}"
    using v' a(2) by auto
  have o: "ConfigVoting_Outcome R v (required_votes ?last) =
      (if required_votes ?last \<le> int (card {b. config_choice v b = Some bc}) then Some bc else None)"
    by (rule config_ballot.outcome_after_vote [OF old(2,1) _ R]) (use v' in auto)
  have new: "?last \<noteq> bc" using c by (auto simp: checkConfig_Inr [OF ne])
  have "addConfig bc (app \<lparr> app_ConfigVoting := NewConfigVoting \<rparr>)
      = Inr (updateCheckTxMembers (app \<lparr> app_ConfigVoting := NewConfigVoting, app_Configs := app_Configs app @ [bc] \<rparr>))"
    using c by (simp add: addConfig_def checkConfig_frame)
  moreover have "KeyperIndex ?last a \<noteq> None" using a(1) by (simp add: IsKeyper_iff [symmetric] IsKeyper_def)
  ultimately have step: "deliverBatchConfig R E m a app =
      (case ConfigVoting_Outcome R v (required_votes ?last) of
         None \<Rightarrow> Inr (okResponse [], app \<lparr> app_ConfigVoting := v \<rparr>)
       | Some _ \<Rightarrow> Inr (okResponse (BatchConfig_MakeABCIEvent E bc #
           (if ShouldStartDKG (updateCheckTxMembers (app \<lparr> app_ConfigVoting := NewConfigVoting, app_Configs := app_Configs app @ [bc] \<rparr>)) bc
            then [eonStartedEvent (app_EONCounter app + 1) (bc_StartBatchIndex bc)] else [])), accepted bc app))"
    using new bc c v ne
    by (simp add: deliverBatchConfig_def LastConfig_last [OF ne] allowedToVoteOnConfigChanges_def Let_def required_votes_def
        accepted_def LastConfig_def StartDKG_def NewDKGInstance_def updateCheckTxMembers_def split: option.split)
  then obtain r app' where d: "deliverBatchConfig R E m a app = Inr (r, app')" "resp_Code r = 0"
    "app' = (case ConfigVoting_Outcome R v (required_votes ?last) of None \<Rightarrow> app \<lparr> app_ConfigVoting := v \<rparr> | Some _ \<Rightarrow> accepted bc app)"
    by (cases "ConfigVoting_Outcome R v (required_votes ?last)") (simp_all add: okResponse_def)
  show thesis
    by (rule that [OF d(1,2)]) (use d(3) o v' voters in auto)
qed

text \<open>After the config is added, further votes for it are answered without effect.\<close>

lemma deliverBatchConfig_added:
  assumes "app_Configs app \<noteq> []" "BatchConfigFromMessage E m = Inr (last (app_Configs app))"
  shows "deliver_each (deliverBatchConfig R E m) voters app = Inr (map (\<lambda>a. okResponse []) voters, app)"
  by (induction voters) (simp_all add: deliverBatchConfig_def LastConfig_last [OF assms(1)] assms(2))

lemma votes_add_config:
  assumes "app_inv app" "orders_ok R" "BatchConfigFromMessage E m = Inr bc" "checkConfig app bc = Inr ()"
    and "distinct voters" "set voters \<subseteq> set (bc_Keypers (last (app_Configs app)))"
    and "\<forall>a\<in>set voters. config_choice (app_ConfigVoting app) a = None" "voters \<noteq> []"
    and "required_votes (last (app_Configs app)) \<le> int (card ({b. config_choice (app_ConfigVoting app) b = Some bc} \<union> set voters))"
  shows "\<exists>rs app'. deliver_each (deliverBatchConfig R E m) voters app = Inr (rs, app') \<and> (\<forall>r\<in>set rs. resp_Code r = 0) \<and>
    app_inv app' \<and> app_Configs app' = app_Configs app @ [bc] \<and> app_StartedVotes app' = app_StartedVotes app"
  using assms
proof (induction voters arbitrary: app)
  case (Cons a voters)
  let ?last = "last (app_Configs app)" and ?for = "{b. config_choice (app_ConfigVoting app) b = Some bc}"
  have a: "a \<in> set (bc_Keypers ?last)" "config_choice (app_ConfigVoting app) a = None" using Cons.prems(6,7) by auto
  obtain r app1 where d: "deliverBatchConfig R E m a app = Inr (r, app1)" "resp_Code r = 0"
    "if required_votes ?last \<le> int (card (insert a ?for)) then app1 = accepted bc app
     else \<exists>v. app1 = app \<lparr> app_ConfigVoting := v \<rparr> \<and> config_choice v = (config_choice (app_ConfigVoting app))(a \<mapsto> bc)"
    by (rule deliverBatchConfig_vote [OF Cons.prems(1-4) a])
  have inv: "app_inv app1" by (rule deliverBatchConfig_inv [OF Cons.prems(1,2) d(1)])
  show ?case
  proof (cases "required_votes ?last \<le> int (card (insert a ?for))")
    case True
    then have "app1 = accepted bc app" using d(3) by simp
    with d(1,2) inv Cons.prems(3) show ?thesis
      using deliverBatchConfig_added [of app1 E m R voters] by (simp add: okResponse_def)
  next
    case False
    then obtain v where v: "app1 = app \<lparr> app_ConfigVoting := v \<rparr>" "config_choice v = (config_choice (app_ConfigVoting app))(a \<mapsto> bc)"
      using d(3) by auto
    have "{b. config_choice v b = Some bc} = insert a ?for" using v(2) a(2) by auto
    then have count: "required_votes ?last \<le> int (card ({b. config_choice v b = Some bc} \<union> set voters))"
      using Cons.prems(9) by (simp add: insert_commute)
    with False \<open>{b. config_choice v b = Some bc} = insert a ?for\<close> have "voters \<noteq> []" by auto
    moreover have "checkConfig app1 bc = Inr ()" using Cons.prems(4) by (simp add: v(1) checkConfig_frame)
    moreover have "\<forall>b\<in>set voters. config_choice (app_ConfigVoting app1) b = None"
      using Cons.prems(5,7) v by auto
    moreover have "set voters \<subseteq> set (bc_Keypers (last (app_Configs app1)))" "distinct voters" using Cons.prems(5,6) v(1) by auto
    moreover have "required_votes (last (app_Configs app1)) \<le> int (card ({b. config_choice (app_ConfigVoting app1) b = Some bc} \<union> set voters))"
      using count v(1) by simp
    ultimately obtain rs app2 where "deliver_each (deliverBatchConfig R E m) voters app1 = Inr (rs, app2)"
      "\<forall>r\<in>set rs. resp_Code r = 0" "app_inv app2" "app_Configs app2 = app_Configs app1 @ [bc]" "app_StartedVotes app2 = app_StartedVotes app1"
      using Cons.IH [OF inv Cons.prems(2,3)] by blast
    with d(1,2) v(1) show ?thesis by simp
  qed
qed simp

lemma started_votes_counted:
  assumes "length (app_Configs app) \<ge> 2" "set voters \<subseteq> set (bc_Keypers (app_Configs app ! (length (app_Configs app) - 2)))"
  shows "deliver_each (deliverBatchConfigStarted (bc_ConfigIndex (last (app_Configs app)))) voters app =
    Inr (map (\<lambda>a. okResponse []) voters,
      if bc_Started (last (app_Configs app)) then app else app \<lparr> app_StartedVotes := app_StartedVotes app \<union> set voters \<rparr>)"
  using assms
proof (induction voters arbitrary: app)
  case Nil
  then show ?case by simp
next
  case (Cons a voters)
  have ne: "app_Configs app \<noteq> []" using Cons.prems(1) by auto
  have k: "IsKeyper (app_Configs app ! (length (app_Configs app) - 2)) a" using Cons.prems(2) by (simp add: IsKeyper_iff)
  let ?app = "if bc_Started (last (app_Configs app)) then app else app \<lparr> app_StartedVotes := insert a (app_StartedVotes app) \<rparr>"
  have "deliverBatchConfigStarted (bc_ConfigIndex (last (app_Configs app))) a app = Inr (okResponse [], ?app)"
    using Cons.prems(1) k by (simp add: deliverBatchConfigStarted_def LastConfig_last [OF ne] Let_def)
  with Cons.IH [of ?app] Cons.prems show ?case by (auto simp: insert_commute)
qed

lemma EndBlock_starts:
  assumes "app_Configs app = cs @ [bc]" "cs \<noteq> []" "bc_Started bc \<or> enoughStartedVotes app"
  shows "\<exists>us app' upd. EndBlock R h app = Inr (us, app') \<and>
    app_Configs app' = cs @ [bc \<lparr> bc_Started := True, bc_ValidatorsUpdated := upd \<rparr>]"
proof -
  define last1 where "last1 = (if enoughStartedVotes app then bc \<lparr> bc_Started := True \<rparr> else bc)"
  have started: "last1 = bc \<lparr> bc_Started := True \<rparr>" using assms(3) by (cases bc) (auto simp: last1_def)
  define last2 where "last2 = (if bc_Started last1 \<and> \<not> bc_ValidatorsUpdated last1 \<and>
    countCheckedInKeypers app (bc_Keypers last1) \<ge> bc_Threshold last1 then last1 \<lparr> bc_ValidatorsUpdated := True \<rparr> else last1)"
  have last: "LastConfig app = Inr bc" "butlast (app_Configs app) = cs" using assms(1) by (simp_all add: LastConfig_def)
  have "(if enoughStartedVotes app then (bc \<lparr> bc_Started := True \<rparr>, {}) else (bc, app_StartedVotes app)) =
      (last1, if enoughStartedVotes app then {} else app_StartedVotes app)"
    by (simp add: last1_def)
  then have "EndBlock R h app \<in> range Inr \<and> app_Configs (snd (projr (EndBlock R h app))) = cs @ [last2]"
    unfolding EndBlock_def last Let_def by (simp add: last last2_def)
  then obtain us app' where "EndBlock R h app = Inr (us, app')" "app_Configs app' = cs @ [last2]" by auto
  moreover obtain upd where "last2 = last1 \<lparr> bc_ValidatorsUpdated := upd \<rparr>"
  proof (cases "last2 = last1")
    case True
    then show thesis by (intro that [of "bc_ValidatorsUpdated last1"]) (cases last1; simp)
  next
    case False
    then show thesis by (intro that [of True]) (simp add: last2_def split: if_splits)
  qed
  ultimately show ?thesis unfolding started by auto
qed

text \<open>
  C13: The keypers can change the config. Take a config that may follow the last one, and threshold many keypers
  of the last config, none of which has voted yet. When they vote for it, in any order and whatever others
  have voted for before, it becomes the last config of the chain; when they then report that it has started,
  it is marked as started at the end of the block. All their messages succeed.
\<close>

theorem threshold_votes_change_config:
  assumes "reachable U B E P app" "orders_ok R" "BatchConfigFromMessage E m = Inr bc" "checkConfig app bc = Inr ()"
    and "distinct voters" "voters \<noteq> []" "set voters \<subseteq> set (bc_Keypers (last (app_Configs app)))"
    and "\<forall>a\<in>set voters. config_choice (app_ConfigVoting app) a = None"
    and "unat (bc_Threshold (last (app_Configs app))) \<le> length voters" "card (app_StartedVotes app) + length voters < 2 ^ 63"
  shows "\<exists>rs1 app1 rs2 app2 us app3 upd.
    deliver_each (deliverBatchConfig R E m) voters app = Inr (rs1, app1) \<and> app_Configs app1 = app_Configs app @ [bc] \<and>
    deliver_each (deliverBatchConfigStarted (bc_ConfigIndex bc)) voters app1 = Inr (rs2, app2) \<and>
    EndBlock R h app2 = Inr (us, app3) \<and>
    app_Configs app3 = app_Configs app @ [bc \<lparr> bc_Started := True, bc_ValidatorsUpdated := upd \<rparr>] \<and>
    (\<forall>r\<in>set (rs1 @ rs2). resp_Code r = 0)"
proof -
  let ?last = "last (app_Configs app)"
  have inv: "app_inv app" by (rule reachable_inv [OF assms(1)])
  have ne: "app_Configs app \<noteq> []" using inv by simp
  let ?for = "{b. config_choice (app_ConfigVoting app) b = Some bc}"
  have "finite ?for" by (simp add: config_choice_def finite_choice_of)
  then have "card (set voters) \<le> card (?for \<union> set voters)" by (intro card_mono) auto
  then have "length voters \<le> card (?for \<union> set voters)" using assms(5) by (simp add: distinct_card)
  moreover have "sint (bc_Threshold ?last) = int (unat (bc_Threshold ?last))"
    using assms(9,10) by (intro sint_small) simp
  ultimately have enough: "required_votes ?last \<le> int (card (?for \<union> set voters))"
    using assms(9) unfolding required_votes_def by linarith
  obtain rs1 app1 where votes: "deliver_each (deliverBatchConfig R E m) voters app = Inr (rs1, app1)" "\<forall>r\<in>set rs1. resp_Code r = 0"
    "app_inv app1" "app_Configs app1 = app_Configs app @ [bc]" "app_StartedVotes app1 = app_StartedVotes app"
    using votes_add_config [OF inv assms(2-5,7,8,6) enough] by blast
  have two: "length (app_Configs app1) \<ge> 2" "app_Configs app1 ! (length (app_Configs app1) - 2) = ?last" "last (app_Configs app1) = bc"
    using ne votes(4) by (cases "app_Configs app" rule: rev_cases; simp)+
  let ?app2 = "if bc_Started bc then app1 else app1 \<lparr> app_StartedVotes := app_StartedVotes app1 \<union> set voters \<rparr>"
  have started: "deliver_each (deliverBatchConfigStarted (bc_ConfigIndex bc)) voters app1 = Inr (map (\<lambda>a. okResponse []) voters, ?app2)"
    using started_votes_counted [of app1 voters] two assms(7) by simp
  have "bc_Started bc \<or> enoughStartedVotes ?app2"
  proof (cases "bc_Started bc")
    case False
    let ?S = "app_StartedVotes app1 \<union> set voters"
    have fin: "finite ?S" using inv votes(5) by (simp add: app_inv_def)
    have "card (set voters) \<le> card ?S" by (rule card_mono [OF fin]) simp
    moreover have "card ?S \<le> card (app_StartedVotes app) + length voters"
      using card_Un_le [of "app_StartedVotes app1" "set voters"] assms(5) votes(5) by (simp add: distinct_card)
    ultimately have "unat (bc_Threshold ?last) \<le> unat (of_nat (card ?S) :: u64)"
      using assms(5,9,10) by (simp add: distinct_card unat_of_nat_u64)
    then have "enoughStartedVotes ?app2"
      using two False by (simp add: enoughStartedVotes_def word_le_nat_alt)
    then show ?thesis ..
  qed simp
  moreover have "app_Configs ?app2 = app_Configs app @ [bc]" using votes(4) by simp
  ultimately obtain us app3 upd where "EndBlock R h ?app2 = Inr (us, app3)"
    "app_Configs app3 = app_Configs app @ [bc \<lparr> bc_Started := True, bc_ValidatorsUpdated := upd \<rparr>]"
    using EndBlock_starts [of ?app2 "app_Configs app" bc R h] ne by blast
  with votes(1,2,4) started show ?thesis
    by (intro exI [of _ rs1] exI [of _ app1] exI [of _ "map (\<lambda>a. okResponse []) voters"] exI [of _ ?app2] exI [of _ us]
        exI [of _ app3] exI [of _ upd]) (simp add: ball_Un okResponse_def)
qed

theorem threshold_votes_change_config_witness:
  "\<exists>rs1 app1 rs2 app2 us app3. deliver_each (deliverBatchConfig small_orders small_eth small_bcm) [2, 1] small_app = Inr (rs1, app1) \<and>
     deliver_each (deliverBatchConfigStarted 1) [2, 1] app1 = Inr (rs2, app2) \<and> EndBlock small_orders 3 app2 = Inr (us, app3) \<and>
     map bc_Started (app_Configs app3) = [False, True]"
proof -
  have app: "app_Configs small_app = [small_config]" "app_ConfigVoting small_app = NewConfigVoting" "app_StartedVotes small_app = {}"
    by (simp_all add: small_app_def NewShielderApp_def)
  have check: "checkConfig small_app small_next = Inr ()"
    using checkConfig_Inr [of small_app small_next "()"]
    by (simp add: app small_config_def small_next_def emptyBatchConfig_def EnsureValid_None_iff)
  have c: "bc_Keypers small_config = [1, 2]" "bc_Threshold small_config = 1" "bc_ConfigIndex small_next = 1" "bc_Started small_config = False"
    by (simp_all add: small_config_def small_next_def emptyBatchConfig_def)
  have nobody: "config_choice NewConfigVoting a = None" for a by (simp add: config_choice_def choice_of_def NewConfigVoting_def)
  have "\<exists>rs1 app1 rs2 app2 us app3 upd.
      deliver_each (deliverBatchConfig small_orders small_eth small_bcm) [2, 1] small_app = Inr (rs1, app1) \<and>
      app_Configs app1 = app_Configs small_app @ [small_next] \<and>
      deliver_each (deliverBatchConfigStarted (bc_ConfigIndex small_next)) [2, 1] app1 = Inr (rs2, app2) \<and>
      EndBlock small_orders 3 app2 = Inr (us, app3) \<and>
      app_Configs app3 = app_Configs small_app @ [small_next \<lparr> bc_Started := True, bc_ValidatorsUpdated := upd \<rparr>] \<and>
      (\<forall>r\<in>set (rs1 @ rs2). resp_Code r = 0)"
    by (rule threshold_votes_change_config [OF small_reachable small_orders_ok(1) small_bcm_decoded check])
      (simp_all add: app c nobody)
  then obtain rs1 app1 rs2 app2 us app3 upd where
    "deliver_each (deliverBatchConfig small_orders small_eth small_bcm) [2, 1] small_app = Inr (rs1, app1)"
    "deliver_each (deliverBatchConfigStarted (bc_ConfigIndex small_next)) [2, 1] app1 = Inr (rs2, app2)"
    "EndBlock small_orders 3 app2 = Inr (us, app3)"
    "app_Configs app3 = app_Configs small_app @ [small_next \<lparr> bc_Started := True, bc_ValidatorsUpdated := upd \<rparr>]" by blast
  then show ?thesis by (intro exI conjI) (assumption | simp add: app c)+
qed

end
