(* ===== verification/Spec2Isabelle.thy ===== *)
theory Spec2Isabelle
  imports SmallRun AppFacts DKGRun KeyperProps Restart MainLoopProps UserProps ScheduleProps ConfigChange
begin

text \<open>
  A verification of Shielder's Go node, \<open>src/shuttermint\<close>: a tendermint application and the keypers that
  talk through it to run distributed key generations, to produce epoch decryption keys and to execute
  batches of transactions on the main chain.

  How the program works. A keyper signs a message (\<open>shmsg\<close>) and broadcasts it as a transaction. The
  application (\<open>app\<close>) checks it in the mempool, delivers it inside a block, changes its state and publishes
  events (\<open>keyper/shutterevents\<close>). Every keyper reads these events and the contracts of the main chain into
  a view of both chains (\<open>keyper/observe\<close>), decides on it (\<open>keyper/decide.go\<close>) and thereby drives its key
  generations (\<open>keyper/puredkg\<close>) and epoch keys (\<open>keyper/epochkg\<close>), both on top of \<open>shcrypto\<close>. What it
  decides are actions, which it stores and runs (\<open>keyper/fx\<close>): messages to the application and transactions
  on the main chain. Users encrypt for an epoch with the eon public key; threshold many keypers together can
  decrypt.

  Theories and what they model.
  \<^item> \<open>Prelude\<close>, \<open>ModArith\<close>, \<open>GoLib\<close>: Go's errors as values (\<open>go_error\<close>: \<open>Errorf\<close> for an error, \<open>Panic\<close>
    for a panic; \<open>result\<close> is error or value), map ranges (\<open>ranging\<close>), 64-bit loops, modular arithmetic
    and Lagrange interpolation, and the standard library routines the code calls (hex, base64, varint,
    \<open>big.Int\<close>, \<open>strconv\<close>, \<open>strings\<close>, \<open>sort\<close>). \<open>ResultRules\<close>: rules for results (\<open>post\<close>).
  \<^item> \<open>Extern\<close>: the curve (\<open>bn256\<close>) and go-ethereum (\<open>eth\<close>) as records of functions, arguments of every
    definition that uses them; \<open>bn_ok\<close> and \<open>eth_ok\<close> state their documented behaviour. \<open>SmallInstance\<close>,
    \<open>SmallRun\<close> and \<open>SmallKeyper\<close> give concrete instances, states and messages for the witnesses.
  \<^item> \<open>Medley\<close>: \<open>medley/medley.go\<close>. \<open>Feldman\<close>, \<open>Keys\<close>, \<open>Encryption\<close>: \<open>shcrypto/feldman.go\<close>, \<open>keys.go\<close>,
    \<open>encryption.go\<close>, \<open>encoding.go\<close>, \<open>shuffle.go\<close>.
  \<^item> \<open>ShMsg\<close>: \<open>shmsg\<close>, with protocol buffers as the parameter \<open>proto\<close>. \<open>ShielderEvents\<close>:
    \<open>keyper/shutterevents\<close>, the events and their text encoding.
  \<^item> \<open>Powers\<close>, \<open>Votes\<close>, \<open>Mempool\<close>, \<open>AppDKG\<close>, \<open>App\<close>: the files of \<open>app\<close>; one record \<open>ShielderApp\<close> is the
    state of the application, one definition per handler and ABCI call. \<open>AppInv\<close>, \<open>AppSteps\<close>, \<open>AppFacts\<close>:
    its invariant \<open>app_inv\<close>, the step relation \<open>chain_step\<close> (a delivered or checked transaction, the end of
    a block, a commit) and what holds along its runs. \<open>ConfigChange\<close>: a config change from its first vote to
    its start.
  \<^item> \<open>PureDKG\<close>, \<open>DKGResult\<close>, \<open>DKGRun\<close>: \<open>keyper/puredkg\<close>, one keyper's key generation, its result and
    its runs. \<open>EpochKG\<close>: \<open>keyper/epochkg\<close>, and the way from the key generation to a decryption.
  \<^item> \<open>ContractConfig\<close>: \<open>contract\<close>, batch configs of the main chain and which blocks form a batch.
  \<^item> \<open>ObserveShielder\<close>, \<open>ObserveFacts\<close>, \<open>ObserveApp\<close>: \<open>keyper/observe/shutter.go\<close>, the record \<open>Shielder\<close>
    built from events; fetching them page by page; that the keyper sees what the application did.
    \<open>ObserveMain\<close>, \<open>ObserveMainFacts\<close>: \<open>keyper/observe/mainchain.go\<close>, the record \<open>MainChain\<close> read from the
    contracts, and its specification. \<open>Filtering\<close>: what applying a filter to a \<open>Shielder\<close> leaves as it was.
  \<^item> \<open>Actions\<close>, \<open>RunEnv\<close>, \<open>RunEnvFacts\<close>: \<open>keyper/fx\<close>, the actions, the table of pending ones with its
    file, the queues of the two workers and their steps.
  \<^item> \<open>DecideDKG\<close>, \<open>Decide\<close>: \<open>keyper/decide.go\<close>, every step of \<open>Decide\<close> on the record \<open>Decider\<close>.
    \<open>DecideFacts\<close>, \<open>DecideDKGFacts\<close>, \<open>DecideProps\<close>: what each step leaves alone, the invariant of the key
    generations and the behaviour of the steps. \<open>SyncExact\<close>: what synchronising a key generation makes of the
    events of its eon, stated from the events alone.
  \<^item> \<open>Keyper\<close>, \<open>KeyperFacts\<close>, \<open>KeyperProps\<close>: \<open>keyper/keyper.go\<close>, one step of a keyper, saving, restarting;
    its runs \<open>keyper_run\<close> with crashes at every point. \<open>gob_State\<close> is what decoding the file makes of a state:
    nil elements of slices come back as empty ones, a pointer to a zero as nil. \<open>Restart\<close>: the state that a
    restart resumes, and what that does to a key generation that is dealing. \<open>MainLoop\<close>: \<open>Run\<close> with its two loops, the goroutines
    \<open>SyncMain\<close> and \<open>SyncShielder\<close> and the channels between them; \<open>process_run\<close> interleaves their steps.
    \<open>MainLoopFacts\<close>: \<open>process_run\<close> refines \<open>keyper_run\<close>. \<open>MainLoopView\<close>: the view of a process against the
    whole chain (\<open>full_view\<close>). \<open>Files\<close>: how the three gob files are written, on a file system that can lose
    what was not synced. \<open>MainLoopProps\<close>: the properties of the three.
  \<^item> \<open>ShcryptoWasm\<close>: \<open>shcryptowasm/main_wasm.go\<close>, encryption on a user's web page, and the way of a message
    through a batch to the keypers. \<open>SetNext\<close>: \<open>cmd/config/setnext.go\<close> and \<open>query.go\<close> with the JSON form of
    a config (\<open>sandbox/contracts.go\<close>), and the setters of \<open>ConfigContract.sol\<close> they call. \<open>UserProps\<close>: the
    properties of both.
  \<^item> \<open>ConfigSchedule\<close>: how configs come into force, \<open>sandbox/prepare/prepare.go\<close> (the command \<open>schedule\<close>),
    \<open>cmd/config/schedule.go\<close>, the batch that \<open>sandbox/user/sendtxs.go\<close> picks, and of the contracts what these
    call: the record \<open>ConfigStore\<close> of \<open>ConfigContract.sol\<close> with scheduling and unscheduling, and which batch
    \<open>BatcherContract.sol\<close> finds open. \<open>WaitTx\<close>: waiting for receipts (\<open>medley/medley.go\<close> and \<open>prepare.go\<close>).
    \<open>Bootstrap\<close>: \<open>cmd/bootstrap.go\<close> and what the chain does with its messages. \<open>ConfigScheduleFacts\<close>: the runs
    \<open>config_run\<close> of the contract (the calls of its owner) and that their configs are seamless. \<open>ScheduleProps\<close>: the properties of these.

  Interfaces. The locales \<open>text_codec\<close>, \<open>token_codec\<close> (an encoder, a decoder and the values they agree on;
  interpreted for each encoding of the events), \<open>ballot\<close> (a vote: who backs what, and the outcome;
  interpreted for config and eon votes), \<open>once_per_key\<close> (registering a key generation message; interpreted
  for the four kinds), \<open>decider_invariant\<close> (a relation that each primitive operation of a decider keeps, and
  so every step of \<open>Decide\<close>; interpreted for the frame \<open>dec_frame\<close> and the invariant \<open>dec_inv\<close>) and
  \<open>saved_file\<close> (a file that is written beside its old content and then renamed; interpreted for the three
  files) carry the lemmas that several components share.

  How the model reads. A Go struct is a record with the fields' names behind a short prefix, an integer is a
  word of its width, a map whose order matters is an association list (\<open>wf_map\<close>: no key twice) and any other
  a partial function. Where the code ranges over a map, the order is an argument (\<open>map_orders\<close>,
  \<open>dkg_orders\<close>, \<open>dec_choices\<close>), and the theorems hold for every order. Randomness, the clock, the nodes of
  both chains and the file system are arguments as well. A conversion \<open>int(x)\<close> of a uint64 is \<open>sint x\<close>.
  Channels are lists of bounded length, goroutines are steps of a relation.

  What the theorems show. C1 to C6: threshold many honest keypers decrypt, keys are right, all keypers agree
  on them, and what users encrypt in the browser arrives. C10 to C13, C15, C16 and C22 to C24: the chain
  is deterministic, never panics, never replays, and changes configs and starts eons when threshold many
  vote for it and only then. C9, C32 and C33: keypers see what the two chains did, with the exceptions the
  code has (no event for the genesis config, a commitment without points, receipts after a skipped half step).
  C14, C17 to C19, C30 and C31: what a keyper reads into its key generations, and what it decides. C7, C8, C20,
  C21 and C25: the process around the decisions loses no action and no event and does nothing twice, whatever
  interleaves or crashes, and a restart resumes the saved state up to \<open>gob_State\<close>. C26 to C29 and C36: batches tile the blocks for
  everybody alike, and what the owner and the users send is accepted, from the first config of a new chain
  on. C34 and C35: events and messages round trip. C37 to C40, and the second half of C36, are about behaviour
  the authors may not have meant.

  Bounds. Where the code converts a keyper number to \<open>int\<close> the theorems ask for fewer than 2^63 keypers (2^62
  where it adds two), and where two keypers must have different evaluation points, for no more keypers than
  the group has elements; \<open>sane_commitments\<close> asks that a list in memory is shorter than 2^63. Heights of the
  application's chain are below 2^62, a keyper decides fewer than 2^64 actions in its life, and block numbers,
  spans and batch indices stay below 2^61 or 2^62 where a schedule is computed from them. Recursions
  are on lists or on \<open>upto64 n\<close> and total, but for the loops that ask a node until it answers
  (\<open>fetch_pages\<close>, \<open>fetch_heights\<close>, \<open>handle_loop\<close>, \<open>WaitMined\<close>) and the decoder \<open>Gammas_GobDecode\<close>: these are partial
  functions, \<open>None\<close> where they never end; C33 shows that fetching ends with a node that serves its chain, and
  C29 and C36 that waiting for mined transactions ends.

  Not modelled. The configs stored with a batch or an eon are pointers to the application's configs in Go and
  copies here; they can differ only in the two flags the end of a block sets, which no code reads there. The
  goroutines of a keyper share the objects they hand over, copies here; the only write to a shared one adds
  an empty batch, which reads like none. Connecting, losing a connection and connecting again, signals,
  timeouts, logging, HTTP and JSON-RPC, protocol buffers, the JSON of the genesis state, the bytes of gob (a
  parameter; \<open>gob_State\<close> is what a round trip through them loses), the gas of transactions, the
  parsing of the configuration file, the generated contract bindings (but for the structs the keyper reads),
  the other command line tools (\<open>cmd\<close>, \<open>sandbox\<close>; among them deployment, the files of a new tendermint node,
  and the commands of \<open>prepare\<close> that write config files and fund keypers) and the other code that is not Go are not modelled: they are
  input and output, or calls of libraries without logic of their own.
\<close>

section \<open>From key generation to decryption\<close>

text \<open>
  C1: A keyper collects shares of an epoch key, whatever else arrives and in whatever order. As soon as
  threshold many keypers whose key generation saw the same messages have sent their share, the keyper
  has the epoch key, and it decrypts every message encrypted for that epoch with the eon public key.
\<close>

theorem threshold_decryption:
  assumes "bn_ok B" "wf_dkg B a" "sane_commitments a" "ComputeResult O' B a = Inr r"
    and "0 < pd_Threshold a" "pd_Threshold a \<le> pd_NumKeypers a"
    and "unat (pd_NumKeypers a) < 2 ^ 63" "int (unat (pd_NumKeypers a)) \<le> Order B"
    and "unat (pd_Threshold a) \<le> card (kgs_Sender ` {sh\<in>set shs. keyper_share B a epoch sh})"
    and "is_block sigma"
  shows "\<exists>k. kg_SecretKeys (Handle_all B shs (NewEpochKG r)) epoch = Some (Some k) \<and>
    Decrypt B (Encrypt B m (res_PublicKey r) (ComputeEpochID B epoch) sigma) k = Inr m"
  using assms by (rule collected_key_decrypts)

theorem threshold_decryption_witness:
  "\<exists>k. kg_SecretKeys (Handle_all bn5 [small_share 0 2, small_share 1 0] (NewEpochKG (small_result 0 2))) 7 = Some (Some k) \<and>
    Decrypt bn5 (Encrypt bn5 [1, 2, 3] Z4 (ComputeEpochID bn5 7) zero_block) k = Inr [1, 2, 3]"
proof -
  have "kgs_Sender ` {sh\<in>set [small_share 0 2, small_share 1 0]. keyper_share bn5 (small_dkg 0 [3, 4]) 7 sh} = {0, 1}"
    using small_keyper_shares by force
  then show ?thesis
    using threshold_decryption [OF bn_ok_bn5 small_wf(1) small_sane small_results(1),
        of "[small_share 0 2, small_share 1 0]" 7 zero_block "[1, 2, 3]"]
    by (simp add: bn5_def small_result_def)
qed

text \<open>
  C2: A keyper holds the key of an epoch exactly when threshold many keypers have sent it a valid share
  of that epoch; the key is then the one that belongs to the joint polynomial of the key generation.
  Invalid and repeated shares make no difference.
\<close>

theorem epoch_key_iff_enough_shares:
  assumes "bn_ok B" "consistent B p r" "0 < res_Threshold r" "res_Threshold r \<le> res_NumKeypers r"
    and "unat (res_NumKeypers r) < 2 ^ 63" "int (unat (res_NumKeypers r)) \<le> Order B"
  shows "kg_SecretKeys (Handle_all B shs (NewEpochKG r)) epoch =
    (if unat (res_Threshold r) \<le> card (valid_senders B p (res_NumKeypers r) epoch shs)
     then Some (Some (epoch_key B p epoch)) else None)"
proof -
  have inv: "kg_inv B p (NewEpochKG r)" using assms(2-6) by (rule NewEpochKG_inv)
  have f: "kg_Threshold (NewEpochKG r) = res_Threshold r" "kg_NumKeypers (NewEpochKG r) = res_NumKeypers r"
    "kg_SecretShares (NewEpochKG r) epoch = None" "kg_SecretKeys (NewEpochKG r) epoch = None"
    by (simp_all add: NewEpochKG_def)
  show ?thesis using key_iff_enough_shares [OF assms(1) inv f(3,4), of shs] unfolding f(1,2) .
qed

theorem epoch_key_iff_enough_shares_witness:
  "kg_SecretKeys (Handle_all bn5 [small_share 0 2] (NewEpochKG (small_result 0 2))) 7 =
    (if 2 \<le> card (valid_senders bn5 [4, 3] 2 7 [small_share 0 2]) then Some (Some (epoch_key bn5 [4, 3] 7)) else None)"
  using epoch_key_iff_enough_shares [OF bn_ok_bn5 small_consistent, of "[small_share 0 2]" 7]
  by (simp add: small_result_def bn5_def)

text \<open>
  C3: When every dealer is honest towards a keyper or found corrupt, and threshold many are honest, the
  keyper's key generation produces a result, with the public key of the honest dealers' polynomials.
\<close>

theorem key_generation_succeeds:
  assumes "bn_ok B" "dkg_orders_ok O'" "wf_dkg B pure" "pd_Phase pure = Finalized"
    and "\<And>i. i < pd_NumKeypers pure \<Longrightarrow>
      (case ps i of Some p \<Rightarrow> honest_dealer B pure i p | None \<Rightarrow> isCorrupt B pure i = Inr True)"
    and "unat (pd_Threshold pure) \<le> length (filter (\<lambda>i. ps i \<noteq> None) (upto64 (pd_NumKeypers pure)))"
  shows "\<exists>r. ComputeResult O' B pure = Inr r \<and> res_PublicKey r =
    G2_ScalarBaseMult B (\<Sum>i\<leftarrow>upto64 (pd_NumKeypers pure). case ps i of Some p \<Rightarrow> peval p 0 | None \<Rightarrow> 0)"
  using assms(1,2) _ assms(4-6) by (rule ComputeResult_succeeds) (use assms(3) in \<open>simp add: wf_dkg_def\<close>)

theorem key_generation_succeeds_witness:
  "\<exists>r. ComputeResult small_dkg_orders bn5 (small_dkg 0 [3, 4]) = Inr r \<and> res_PublicKey r = Z4"
  using key_generation_succeeds [OF bn_ok_bn5 small_dkg_orders_ok small_wf(1) _ small_dealers]
  by (simp add: small_upto small_polys_def small_base)

text \<open>
  C4: Two keypers that saw the same messages, and whose key generations both succeed, have the same eon
  public key and the same public key shares, whatever they received privately.
\<close>

theorem key_generation_agreement:
  assumes "same_view a b" "wf_dkg B a" "wf_dkg B b" "ComputeResult O1 B a = Inr ra" "ComputeResult O2 B b = Inr rb"
  shows "res_PublicKey ra = res_PublicKey rb \<and> res_PublicKeyShares ra = res_PublicKeyShares rb \<and>
    res_NumKeypers ra = res_NumKeypers rb \<and> res_Threshold ra = res_Threshold rb"
  using assms by (rule ComputeResult_agreement)

theorem key_generation_agreement_witness:
  "res_PublicKey (small_result 0 2) = res_PublicKey (small_result 1 0) \<and>
   res_PublicKeyShares (small_result 0 2) = res_PublicKeyShares (small_result 1 0)"
  using key_generation_agreement [OF small_view small_wf(1,2) small_results(1,2)] by simp

text \<open>
  C5: A result of the key generation is consistent: there is one polynomial, with at most threshold many
  coefficients, whose value at zero gives the public key, whose value at each keyper gives that keyper's
  public key share, and whose value at the keyper itself is its secret share.
\<close>

theorem key_generation_consistent:
  assumes "bn_ok B" "sane_commitments pure" "ComputeResult O' B pure = Inr r"
  shows "\<exists>p. length p \<le> unat (res_Threshold r) \<and> res_PublicKey r = G2_ScalarBaseMult B (peval p 0) \<and>
    length (res_PublicKeyShares r) = unat (res_NumKeypers r) \<and>
    (\<forall>i < res_NumKeypers r. res_PublicKeyShares r ! unat i = G2_ScalarBaseMult B (peval p (KeyperX (sint i)))) \<and>
    res_SecretKeyShare r = peval p (KeyperX (sint (res_Keyper r))) mod Order B"
  using ComputeResult_consistent [OF assms] by (simp add: consistent_def)

theorem key_generation_consistent_witness:
  "\<exists>p. length p \<le> 2 \<and> Z4 = G2_ScalarBaseMult bn5 (peval p 0) \<and>
    (\<forall>i < (2 :: u64). [Z2, Z0] ! unat i = G2_ScalarBaseMult bn5 (peval p (KeyperX (sint i)))) \<and>
    2 = peval p (KeyperX 0) mod 5"
proof -
  have "Order bn5 = 5" by (simp add: bn5_def)
  with key_generation_consistent [OF bn_ok_bn5 small_sane small_results(1)] show ?thesis
    by (auto simp: small_result_def)
qed

section \<open>The chain\<close>

text \<open>
  C10: Replicas agree. From a reachable state, the transactions of a block and the end of the block give
  the same responses, validator updates and next state on every replica, although each replica ranges over
  Go maps in its own order in every call.
\<close>

theorem replicas_agree:
  assumes "reachable U B E P app" "\<And>i. orders_ok (Rs i)" "\<And>i. orders_ok (Rs' i)" "orders_ok R" "orders_ok R'"
  shows "run_block Rs R B E P h txs app = run_block Rs' R' B E P h txs app"
  using reachable_inv [OF assms(1)] assms(2-5) by (rule run_block_deterministic)

theorem replicas_agree_witness:
  "run_block (\<lambda>i. small_orders) small_orders bn5 small_eth small_proto 1 [small_tx, small_tx] small_app =
   run_block (\<lambda>i. rev_orders) rev_orders bn5 small_eth small_proto 1 [small_tx, small_tx] small_app"
  by (rule replicas_agree [OF small_reachable]) (rule small_orders_ok)+

text \<open>
  C11: The invariant of the application holds in every reachable state: the configs start at batch 0, grow
  in start batch index and config index and are valid; no stored vote is decided, and only keypers of the
  config concerned have voted; what is stored for batches and eons belongs to a config; and the mempool
  filter admits exactly the keypers.
\<close>

theorem reachable_app_inv:
  assumes "reachable U B E P app"
  shows "app_inv app"
  using assms by (rule reachable_inv)

theorem reachable_app_inv_witness: "app_inv small_app \<and> length (app_Configs small_app) = 1"
  using reachable_app_inv [OF small_reachable [of bn5 small_eth small_proto]] by (simp add: small_app_def)

text \<open>
  C12: A config is added only when the keypers of the config in force want it: at least threshold many of
  them have voted for exactly this config, and nobody else's vote counts.
\<close>

theorem config_needs_threshold_votes:
  assumes "reachable U B E P app" "orders_ok R" "deliverBatchConfig R E msg s app = Inr (r, app')"
    and "app_Configs app' \<noteq> app_Configs app"
  shows "\<exists>bc v. BatchConfigFromMessage E msg = Inr bc \<and> app_Configs app' = app_Configs app @ [bc] \<and>
    ConfigVoting_AddVote s bc (app_ConfigVoting app) = Inr v \<and>
    {a. config_choice v a = Some bc} \<subseteq> set (bc_Keypers (last (app_Configs app))) \<and>
    sint (bc_Threshold (last (app_Configs app))) \<le> int (card {a. config_choice v a = Some bc})"
  using accepted_config_backed [OF reachable_inv [OF assms(1)] assms(2-4)] unfolding required_votes_def by blast

theorem config_needs_threshold_votes_witness:
  "\<exists>r app' bc v. deliverBatchConfig small_orders small_eth small_bcm 1 small_app = Inr (r, app') \<and>
    app_Configs app' = app_Configs small_app @ [bc] \<and>
    ConfigVoting_AddVote 1 bc (app_ConfigVoting small_app) = Inr v \<and>
    1 \<le> int (card {a. config_choice v a = Some bc})"
proof -
  have s: "small_app \<lparr> app_StartedVotes := {} \<rparr> = small_app" by (simp add: small_app_def NewShielderApp_def)
  obtain r app' where d: "deliverBatchConfig small_orders small_eth small_bcm 1 small_app = Inr (r, app')"
    "app_Configs app' \<noteq> app_Configs small_app" using small_accept [of "{}"] unfolding s by blast
  have t: "sint (bc_Threshold (last (app_Configs small_app))) = 1"
    by (simp add: small_app_def small_config_def)
  show ?thesis
    using config_needs_threshold_votes [OF small_reachable [of bn5 small_eth small_proto] small_orders_ok(1) d] d(1)
    unfolding t by blast
qed

text \<open>
  C15: Every transaction is answered: in a reachable state \<open>DeliverTx\<close> neither panics nor fails, whatever
  bytes it is given.
\<close>

theorem tx_always_answered:
  assumes "reachable U B E P app" "eth_ok E" "proto_ok P"
  shows "\<exists>r app'. DeliverTx R B E P tx app = Inr (r, app')"
  using reachable_inv [OF assms(1)] assms(2,3) by (rule DeliverTx_total)

theorem tx_always_answered_witness:
  "\<exists>r app'. DeliverTx small_orders bn5 small_eth small_proto ''A'' small_app = Inr (r, app')"
  by (rule tx_always_answered [OF small_reachable eth_ok_small small_proto_ok])

text \<open>
  C16: No replay: once a transaction has succeeded, the same bytes are rejected by \<open>DeliverTx\<close> and by
  \<open>CheckTx\<close> in every later state of the chain, and change nothing there.
\<close>

theorem tx_replay_rejected:
  assumes "reachable U B E P app" "orders_ok R" "decodeTx E P tx = Inr (a, msg)"
    and "DeliverTx R B E P tx app = Inr (r, app1)" "resp_Code r = 0" "chain_run B E P app1 app2"
  shows "\<exists>r'. DeliverTx R' B E P tx app2 = Inr (r', app2) \<and> resp_Code r' = 1 \<and> CheckTx E P tx app2 = Inr (1, app2)"
proof -
  have inv: "app_inv app" using assms(1) by (rule reachable_inv)
  have "nonce_used app1 a (mwn_RandomNonce msg)" using DeliverTx_nonce_used(2) [OF inv assms(4,3,5)] .
  with assms(6) DeliverTx_inv [OF inv assms(2,4)] have "nonce_used app2 a (mwn_RandomNonce msg)"
    by (rule nonce_used_run)
  with assms(3) show ?thesis by (rule replay_rejected_now)
qed

theorem tx_replay_rejected_witness:
  "\<exists>r app1 r'. DeliverTx small_orders bn5 small_eth small_proto small_tx small_app = Inr (r, app1) \<and> resp_Code r = 0 \<and>
    DeliverTx rev_orders bn5 small_eth small_proto small_tx (Commit 0 small_disk app1) = Inr (r', Commit 0 small_disk app1) \<and>
    resp_Code r' = 1"
proof -
  obtain r app1 where d: "DeliverTx small_orders bn5 small_eth small_proto small_tx small_app = Inr (r, app1)" "resp_Code r = 0"
    using small_DeliverTx by blast
  have "chain_run bn5 small_eth small_proto app1 (Commit 0 small_disk app1)"
    by (rule run_step [OF run_refl chain_step.commit])
  from tx_replay_rejected [OF small_reachable small_orders_ok(1) small_decodeTx d this, of rev_orders] d show ?thesis by blast
qed

text \<open>
  C22: A transaction that is answered with an error code leaves everything as it was, except that its
  nonce may have been recorded as used.
\<close>

theorem failed_tx_changes_nothing:
  assumes "reachable U B E P app" "DeliverTx R B E P tx app = Inr (r, app')" "resp_Code r \<noteq> 0"
  shows "app' = app \<or> (\<exists>signer msg. decodeTx E P tx = Inr (signer, msg) \<and>
    app' = app \<lparr> app_NonceTracker := NonceTracker_Add signer (mwn_RandomNonce msg) (app_NonceTracker app) \<rparr>)"
  using reachable_inv [OF assms(1)] assms(2,3) by (rule DeliverTx_error)

theorem failed_tx_changes_nothing_witness:
  "\<exists>r app'. DeliverTx small_orders bn5 small_eth small_proto ''A'' small_app = Inr (r, app') \<and> resp_Code r \<noteq> 0 \<and>
    app_Configs app' = app_Configs small_app"
proof -
  have "b64_DecodeString ''A'' = Inl (Errorf ''illegal base64 data'')" by code_simp
  then have "decodeTx small_eth small_proto ''A'' = Inl (Errorf ''illegal base64 data'')" by (simp add: decodeTx_def)
  then obtain r app' where d: "DeliverTx small_orders bn5 small_eth small_proto ''A'' small_app = Inr (r, app')" "resp_Code r \<noteq> 0"
    by (auto simp: DeliverTx_def makeErrorResponse_def)
  from failed_tx_changes_nothing [OF small_reachable d] d show ?thesis by auto
qed

text \<open>
  C23: An eon starts on a vote only when threshold many keypers of the config the vote names have voted
  for the same start batch; it gets the next eon number and a fresh key generation with that config.
\<close>

theorem eon_needs_threshold_votes:
  assumes "reachable U B E P app" "orders_ok R" "deliverEonStartVoteMsg R b s app = Inr (r, app')"
    and "app_EONCounter app' \<noteq> app_EONCounter app"
  shows "\<exists>c v start. getConfig app b = Inr c \<and>
    v = EonStartVoting_AddVote s b (case app_EonStartVotings app (bc_ConfigIndex c) of
      None \<Rightarrow> NewEonStartVoting | Some v \<Rightarrow> v) \<and>
    {a. eon_choice v a = Some start} \<subseteq> set (bc_Keypers c) \<and>
    sint (bc_Threshold c) \<le> int (card {a. eon_choice v a = Some start}) \<and>
    app_EONCounter app' = app_EONCounter app + 1 \<and>
    app_DKGMap app' (app_EONCounter app') = Some (NewDKGInstance c (app_EONCounter app')) \<and>
    r = okResponse [eonStartedEvent (app_EONCounter app') start]"
  using eon_started_backed [OF reachable_inv [OF assms(1)] assms(2-4)] unfolding required_votes_def .

theorem eon_needs_threshold_votes_witness:
  "\<exists>r app' c v start. deliverEonStartVoteMsg small_orders 5 1 small_app = Inr (r, app') \<and>
    getConfig small_app 5 = Inr c \<and> {a. eon_choice v a = Some start} \<subseteq> set (bc_Keypers c) \<and>
    app_EONCounter app' = app_EONCounter small_app + 1 \<and> r = okResponse [eonStartedEvent (app_EONCounter app') start]"
proof -
  obtain r app' where d: "deliverEonStartVoteMsg small_orders 5 1 small_app = Inr (r, app')"
    "app_EONCounter app' \<noteq> app_EONCounter small_app" using small_eon by blast
  from eon_needs_threshold_votes [OF small_reachable [of bn5 small_eth small_proto] small_orders_ok(1) d] d(1)
  show ?thesis by blast
qed

text \<open>
  C24: Tendermint follows the powers the application means: applying the validator updates of
  \<open>EndBlock\<close> to the old voting powers gives exactly the new ones (outside the development mode, which
  sends no updates).
\<close>

theorem validator_updates_complete:
  assumes "reachable U B E P app" "orders_ok R" "\<not> app_DevMode app" "EndBlock R h app = Inr (us, app')"
  shows "foldl (\<lambda>f u. apply_update u f) (power_of (app_Validators app)) us = power_of (app_Validators app')"
  using reachable_inv [OF assms(1)] assms(2-4) by (rule EndBlock_powers)

theorem validator_updates_complete_witness:
  "\<exists>us app'. EndBlock small_orders 1 small_app = Inr (us, app') \<and>
    foldl (\<lambda>f u. apply_update u f) (power_of (app_Validators small_app)) us = power_of (app_Validators app')"
proof -
  have dev: "\<not> app_DevMode small_app" by (simp add: small_app_def NewShielderApp_def)
  obtain us app' where e: "EndBlock small_orders 1 small_app = Inr (us, app')"
    using EndBlock_eq [of small_app small_orders 1] app_inv_ne [OF small_app_inv] by (simp add: Let_def)
  from validator_updates_complete [OF small_reachable [of bn5 small_eth small_proto] small_orders_ok(1) dev e] e
  show ?thesis by blast
qed

text \<open>
  Configs are never removed or rewritten: along every run the configs of the earlier state are a
  prefix of those of the later one, except for the two flags the end of a block sets.
\<close>

theorem configs_only_extend:
  assumes "reachable U B E P app" "chain_run B E P app app'"
  shows "\<exists>es. list_all2 (\<lambda>c d. \<exists>s u. d = c \<lparr> bc_Started := s, bc_ValidatorsUpdated := u \<rparr>)
    (app_Configs app @ es) (app_Configs app')"
  using chain_run_extends [OF assms(2) reachable_inv [OF assms(1)]]
  unfolding extends_configs_def same_configs_def same_but_flags_def .

theorem configs_only_extend_witness:
  "\<exists>us app' es. EndBlock small_orders 1 small_app = Inr (us, app') \<and>
    list_all2 (\<lambda>c d. \<exists>s u. d = c \<lparr> bc_Started := s, bc_ValidatorsUpdated := u \<rparr>) (app_Configs small_app @ es) (app_Configs app')"
proof -
  obtain us app' where e: "EndBlock small_orders 1 small_app = Inr (us, app')"
    using EndBlock_eq [of small_app small_orders 1] app_inv_ne [OF small_app_inv] by (simp add: Let_def)
  then have "chain_run bn5 small_eth small_proto small_app app'"
    by (intro run_step [OF run_refl] chain_step.end_block [OF small_orders_ok(1)])
  from configs_only_extend [OF small_reachable this] e show ?thesis by blast
qed

text \<open>
  For every batch the application stores at most one decryption signature per keyper, only of keypers
  of the batch's config, and so at most as many as there are keypers.
\<close>

theorem one_signature_per_keyper:
  assumes "reachable U B E P app" "app_BatchStates app i = Some bs"
  shows "bs_BatchIndex bs = i \<and> distinct (map sig_Sender (bs_DecryptionSignatures bs)) \<and>
    sig_Sender ` set (bs_DecryptionSignatures bs) \<subseteq> set (bc_Keypers (bs_Config bs)) \<and>
    length (bs_DecryptionSignatures bs) \<le> length (bc_Keypers (bs_Config bs))"
proof -
  have "wf_BatchState bs" "bs_BatchIndex bs = i"
    using reachable_inv [OF assms(1)] assms(2) unfolding app_inv_def batches_ok_def by blast+
  then show ?thesis using wf_BatchState_bound [of bs] by (auto simp: wf_BatchState_def IsKeyper_iff)
qed

theorem one_signature_per_keyper_witness:
  "\<exists>r app' bs. DeliverTx small_orders bn5 small_eth small_proto small_tx2 small_app = Inr (r, app') \<and>
    app_BatchStates app' 5 = Some bs \<and> bs_DecryptionSignatures bs \<noteq> [] \<and>
    length (bs_DecryptionSignatures bs) \<le> length (bc_Keypers (bs_Config bs))"
proof -
  obtain r app' bs where d: "DeliverTx small_orders bn5 small_eth small_proto small_tx2 small_app = Inr (r, app')"
    "app_BatchStates app' 5 = Some bs" "bs_DecryptionSignatures bs \<noteq> []" using small_signature by blast
  have "reachable small_unmarshal bn5 small_eth small_proto app'"
    using small_InitChain run_step [OF run_refl chain_step.deliver_tx [OF small_orders_ok(1) d(1)]]
    unfolding reachable_def by blast
  from one_signature_per_keyper [OF this d(2)] d show ?thesis by blast
qed

text \<open>
  The guard element of \<open>getConfig\<close> is never missing: in a reachable state every batch index has a
  config, the last one in the list that starts at or before it.
\<close>

theorem config_of_batch:
  assumes "reachable U B E P app"
  shows "\<exists>ys c zs. app_Configs app = ys @ c # zs \<and> getConfig app i = Inr c \<and> bc_StartBatchIndex c \<le> i \<and>
    (\<forall>z\<in>set zs. i < bc_StartBatchIndex z)"
proof -
  obtain c where c: "getConfig app i = Inr c"
    using getConfig_exists reachable_inv [OF assms] unfolding app_inv_def by blast
  then show ?thesis unfolding getConfig_Inr_iff not_le by blast
qed

theorem config_of_batch_witness:
  "\<exists>ys c zs. app_Configs small_app = ys @ c # zs \<and> getConfig small_app 7 = Inr c"
  using config_of_batch [OF small_reachable [of bn5 small_eth small_proto], of 7] by blast

section \<open>Messages and events\<close>

text \<open>
  C34: Reading back an event that the application published gives the event it published, at the height it
  is read, up to the fields of a batch config that events do not carry. It holds for the events that can be
  written: apologies with non-negative values and commitments with at least one point.
\<close>

theorem event_roundtrip:
  assumes "bn_ok B" "eth_ok E" "readable ev"
  shows "MakeEvent B E (MakeABCIEvent B E ev) h = Inr (wire_part h ev)"
  using assms by (rule MakeEvent_MakeABCIEvent)

theorem event_roundtrip_witness:
  "MakeEvent bn5 small_eth (MakeABCIEvent bn5 small_eth
     (EvApology \<lparr> apo_Height = 0, apo_Eon = 3, apo_Sender = 1, apo_Accusers = [2, 4], apo_PolyEval = [300, 0] \<rparr>)) 9 =
   Inr (EvApology \<lparr> apo_Height = 9, apo_Eon = 3, apo_Sender = 1, apo_Accusers = [2, 4], apo_PolyEval = [300, 0] \<rparr>)"
  using event_roundtrip [OF bn_ok_bn5 eth_ok_small, of "EvApology \<lparr> apo_Height = 0, apo_Eon = 3, apo_Sender = 1,
    apo_Accusers = [2, 4], apo_PolyEval = [300, 0] \<rparr>" 9] by simp

text \<open>
  The commitment of a dealer who publishes no points cannot be read back: the event of a nil or empty
  list of gammas is written as the empty string, and reading that fails.
\<close>

theorem empty_gammas_unreadable:
  assumes "bn_ok B"
  shows "decodeGammas B (encodeGammas B None) = Inl (Errorf ''bn256.G2: unmarshal'') \<and>
    decodeGammas B (encodeGammas B (Some [])) = Inl (Errorf ''bn256.G2: unmarshal'')"
  using decodeGammas_empty [OF assms] by blast

theorem empty_gammas_unreadable_witness:
  "decodeGammas bn5 (encodeGammas bn5 (Some [])) = Inl (Errorf ''bn256.G2: unmarshal'')"
  using empty_gammas_unreadable [OF bn_ok_bn5] by blast

text \<open>
  C35: A signed message tells who signed it and what was signed: from the bytes of \<open>SignMessage\<close> the signer
  is the address of the signing key and the message is the one that was signed.
\<close>

theorem signed_message_roundtrip:
  assumes "eth_ok E" "proto_ok P" "SignMessage E P msg sk = Inr signedMsg"
  shows "GetSigner E P signedMsg = Inr (PubkeyToAddress E (sk_PublicKey E sk)) \<and> GetMessage P signedMsg = Inr msg"
  using GetSigner_SignMessage [OF assms] by blast

theorem signed_message_roundtrip_witness:
  "GetSigner small_eth small_proto small_signed = Inr 1 \<and> GetMessage small_proto small_signed = Inr small_mwn"
  using signed_message_roundtrip [OF eth_ok_small small_proto_ok small_SignMessage] by (simp add: small_signer)

text \<open>
  A batch config message made by a keyper is read by the application as the same batch config.
\<close>

theorem batch_config_message_roundtrip:
  assumes "eth_ok E" "distinct ks"
    and "NewBatchConfig E sbi ks t cca ci st vu = Some (Message_BatchConfig m)"
  shows "BatchConfigFromMessage E m = Inr \<lparr> bc_Height = 0, bc_Keypers = ks, bc_StartBatchIndex = sbi,
    bc_Threshold = t, bc_ConfigIndex = ci, bc_ConfigContractAddress = cca, bc_Started = st, bc_ValidatorsUpdated = vu \<rparr>"
  using assms by (rule BatchConfigFromMessage_NewBatchConfig)

theorem batch_config_message_roundtrip_witness:
  "BatchConfigFromMessage small_eth small_bcm = Inr \<lparr> bc_Height = 0, bc_Keypers = [1, 2, 3], bc_StartBatchIndex = 10,
    bc_Threshold = 2, bc_ConfigIndex = 1, bc_ConfigContractAddress = 0, bc_Started = False, bc_ValidatorsUpdated = False \<rparr>"
  by (rule batch_config_message_roundtrip [OF eth_ok_small]) (simp_all add: NewBatchConfig_def small_bcm_def)

text \<open>
  The key generation messages made by a keyper are parsed by the application into what the keyper put
  into them, with the signer as sender.
\<close>

theorem dkg_message_roundtrip:
  assumes "eth_ok E" "bn_ok B"
  shows "(distinct rs \<longrightarrow> length rs = length evs \<longrightarrow> NewPolyEval E eon rs evs = Some (Message_PolyEval pm) \<longrightarrow>
      ParsePolyEvalMsg E pm s =
        Inr \<lparr> pe_Height = 0, pe_Sender = s, pe_Eon = eon, pe_Receivers = rs, pe_EncryptedEvals = evs \<rparr>) \<and>
    (NewPolyCommitment B eon gs = Some (Message_PolyCommitment cm) \<longrightarrow>
      ParsePolyCommitmentMsg B cm s = Inr \<lparr> pc_Height = 0, pc_Eon = eon, pc_Sender = s, pc_Gammas = Some gs \<rparr>) \<and>
    (distinct as \<longrightarrow> NewAccusation E eon as = Some (Message_Accusation am) \<longrightarrow>
      ParseAccusationMsg E am s = Inr \<lparr> acc_Height = 0, acc_Eon = eon, acc_Sender = s, acc_Accused = as \<rparr>) \<and>
    (distinct as \<longrightarrow> (\<forall>e\<in>set es. 0 \<le> e) \<longrightarrow> NewApology E eon as es = Inr (Some (Message_Apology om)) \<longrightarrow>
      ParseApologyMsg E om s =
        Inr \<lparr> apo_Height = 0, apo_Eon = eon, apo_Sender = s, apo_Accusers = as, apo_PolyEval = es \<rparr>) \<and>
    (NewEpochSecretKeyShare B eon epoch share = Some (Message_EpochSecretKeyShare sm) \<longrightarrow>
      ParseEpochSecretKeyShareMsg B sm s =
        Inr \<lparr> sks_Height = 0, sks_Sender = s, sks_Eon = eon, sks_Epoch = epoch, sks_Share = share \<rparr>)"
  using assms by (auto intro: Parse_New Parse_New_group)

theorem dkg_message_roundtrip_witness:
  "\<exists>pm. NewPolyEval small_eth 1 [2, 3] [[5], [6]] = Some (Message_PolyEval pm) \<and> ParsePolyEvalMsg small_eth pm 1 =
    Inr \<lparr> pe_Height = 0, pe_Sender = 1, pe_Eon = 1, pe_Receivers = [2, 3], pe_EncryptedEvals = [[5], [6]] \<rparr>"
proof -
  obtain pm where pm: "NewPolyEval small_eth 1 [2, 3] [[5], [6]] = Some (Message_PolyEval pm)"
    by (simp add: NewPolyEval_def)
  from dkg_message_roundtrip [OF eth_ok_small bn_ok_bn5, of "[2, 3]" "[[5], [6]]" 1 pm] pm show ?thesis by auto
qed

section \<open>Replays inside a key generation\<close>

text \<open>
  Once the evaluations of a sender for some receivers are registered with a key generation, no later
  message of that sender for one of these receivers is accepted, whatever is registered in between.
\<close>

theorem poly_evals_once:
  assumes "RegisterPolyEvalMsg m d = Inr d'" "pe_Sender m' = pe_Sender m" "set (pe_Receivers m') \<inter> set (pe_Receivers m) \<noteq> {}"
  shows "\<exists>e. RegisterPolyEvalMsg m'
    (foldl (\<lambda>d m. case RegisterPolyEvalMsg m d of Inl e \<Rightarrow> d | Inr d' \<Rightarrow> d') d' ms) = Inl e"
  using poly_eval_register.never_again [OF assms(1), of m' ms] assms(2,3)
  unfolding poly_eval_register.register_all_def by blast

theorem poly_evals_once_witness:
  "\<exists>d' e. RegisterPolyEvalMsg small_poly_eval (NewDKGInstance small_config 1) = Inr d' \<and>
    RegisterPolyEvalMsg small_poly_eval d' = Inl e"
proof -
  obtain d' where d: "RegisterPolyEvalMsg small_poly_eval (NewDKGInstance small_config 1) = Inr d'"
    using small_poly_eval_accepted by blast
  from poly_evals_once [OF d refl, of "[]"] d show ?thesis by (auto simp: small_poly_eval_def)
qed

text \<open>
  A key generation accepts at most one commitment, one accusation message and one apology message
  from each sender, whatever is registered in between.
\<close>

theorem dkg_messages_once:
  fixes c c' :: "'g2 PolyCommitment" and cs :: "'g2 PolyCommitment list"
  shows "(RegisterPolyCommitmentMsg c d = Inr d1 \<longrightarrow> pc_Sender c' = pc_Sender c \<longrightarrow>
      (\<exists>e. RegisterPolyCommitmentMsg c'
        (foldl (\<lambda>d m. case RegisterPolyCommitmentMsg m d of Inl e \<Rightarrow> d | Inr d' \<Rightarrow> d') d1 cs) = Inl e)) \<and>
    (RegisterAccusationMsg a d = Inr d2 \<longrightarrow> acc_Sender a' = acc_Sender a \<longrightarrow>
      (\<exists>e. RegisterAccusationMsg a'
        (foldl (\<lambda>d m. case RegisterAccusationMsg m d of Inl e \<Rightarrow> d | Inr d' \<Rightarrow> d') d2 as) = Inl e)) \<and>
    (RegisterApologyMsg p d = Inr d3 \<longrightarrow> apo_Sender p' = apo_Sender p \<longrightarrow>
      (\<exists>e. RegisterApologyMsg p'
        (foldl (\<lambda>d m. case RegisterApologyMsg m d of Inl e \<Rightarrow> d | Inr d' \<Rightarrow> d') d3 ps) = Inl e))"
  using poly_commitment_register.never_again [of c d d1 c' cs] accusation_register.never_again [of a d d2 a' as]
    apology_register.never_again [of p d d3 p' ps]
  unfolding poly_commitment_register.register_all_def accusation_register.register_all_def
    apology_register.register_all_def by simp

theorem dkg_messages_once_witness:
  "\<exists>d1 e. RegisterPolyCommitmentMsg small_commitment (NewDKGInstance small_config 1) = Inr d1 \<and>
    RegisterPolyCommitmentMsg small_commitment d1 = Inl e"
proof -
  obtain d1 where d: "RegisterPolyCommitmentMsg small_commitment (NewDKGInstance small_config 1) = Inr d1"
    using small_commitment_accepted by blast
  have "\<exists>e. RegisterPolyCommitmentMsg small_commitment d1 = Inl e"
    using dkg_messages_once [of small_commitment "NewDKGInstance small_config 1" d1 small_commitment "[]"] d by simp
  with d show ?thesis by blast
qed

section \<open>The mempool\<close>

text \<open>
  Between two commits the mempool takes at most ten transactions of each sender.
\<close>

theorem mempool_limit:
  assumes "ct_TxCounts s = Map.empty"
  shows "length (filter (\<lambda>x. fst x = a) (fst (AddTx_all txs s))) \<le> 10"
proof -
  have "tx_count s b = 0" for b using assms by (simp add: tx_count_def)
  then show ?thesis using AddTx_all_counts [of s a txs] by (simp add: MaxTxsPerBlock_def)
qed

theorem mempool_limit_witness:
  "length (filter (\<lambda>x. fst x = 1) (fst (AddTx_all (replicate 12 (1, small_mwn)) NewCheckTxState))) \<le> 10"
  by (rule mempool_limit) (simp add: NewCheckTxState_def CheckTxState_Reset_def)

text \<open>
  No transaction enters the mempool twice: the transactions it takes have pairwise different pairs of
  sender and nonce, none of them used before.
\<close>

theorem mempool_no_replay:
  shows "distinct (map (\<lambda>(a, m). (a, mwn_RandomNonce m)) (fst (AddTx_all txs s))) \<and>
    (\<forall>(a, m)\<in>set (fst (AddTx_all txs s)). NonceTracker_Check (ct_NonceTracker s) a (mwn_RandomNonce m))"
  by (rule AddTx_all_nonces)

theorem mempool_no_replay_witness:
  "distinct (map (\<lambda>(a, m). (a, mwn_RandomNonce m))
    (fst (AddTx_all [(1, small_mwn), (1, small_mwn), (2, small_mwn)] NewCheckTxState)))"
  using mempool_no_replay by blast

section \<open>Encryption\<close>

text \<open>
  Decrypting with the secret key of the epoch gives back any message, of any length.
\<close>

theorem decrypt_encrypt:
  assumes "bn_ok B" "is_block sigma"
  shows "Decrypt B (Encrypt B m (G2_ScalarBaseMult B sk) epochID sigma) (ComputeEpochSecretKeyShare B sk epochID) = Inr m"
  using assms by (rule Decrypt_Encrypt)

theorem decrypt_encrypt_witness:
  "Decrypt bn5 (Encrypt bn5 (replicate 32 7) (G2_ScalarBaseMult bn5 3) Z2 zero_block) (ComputeEpochSecretKeyShare bn5 3 Z2) =
   Inr (replicate 32 7)"
  by (rule decrypt_encrypt [OF bn_ok_bn5 is_block_zero])

text \<open>
  An encrypted message survives being written to bytes and read back.
\<close>

theorem encrypted_message_roundtrip:
  assumes "bn_ok B"
  shows "\<exists>d. EncryptedMessage_Marshal B (Encrypt B m pk epochID sigma) = Inr d \<and>
    EncryptedMessage_Unmarshal B d = Inr (Encrypt B m pk epochID sigma)"
  using assms Encrypt_wf by (rule Unmarshal_Marshal)

theorem encrypted_message_roundtrip_witness:
  "\<exists>d. EncryptedMessage_Marshal bn5 (Encrypt bn5 [1] Z3 Z2 zero_block) = Inr d \<and>
    EncryptedMessage_Unmarshal bn5 d = Inr (Encrypt bn5 [1] Z3 Z2 zero_block)"
  by (rule encrypted_message_roundtrip [OF bn_ok_bn5])

text \<open>
  Padding is undone exactly, for every message; a message that fills its last block gets a block more.
\<close>

theorem unpad_pad: "UnpadMessage (PadMessage m) = Inr m \<and> length (PadMessage m) = length m div BlockSize + 1"
proof -
  have "length (PadMessage m) * BlockSize = length m + (BlockSize - length m mod BlockSize)" by (rule PadMessage_padded(5))
  then have "length (PadMessage m) = length m div BlockSize + 1"
    using div_mult_mod_eq [of "length m" 32] mod_less_divisor [of 32 "length m"] unfolding BlockSize_def by linarith
  then show ?thesis using Unpad_Pad by simp
qed

section \<open>Commitments and shares\<close>

text \<open>
  An evaluation that is in range passes the check against a commitment exactly when the committed
  polynomial has the right degree and the evaluation is its value for that keyper.
\<close>

theorem verify_poly_eval_exact:
  assumes "bn_ok B" "valid_poly B p" "ValidEval B v"
  shows "VerifyPolyEval B i v (Polynomial_Gammas B p) t \<longleftrightarrow>
    Polynomial_Degree p = DegreeFromThreshold t \<and> EvalForKeyper B p i = Inr v"
  using assms by (rule VerifyPolyEval_iff_Eval)

theorem verify_poly_eval_exact_witness:
  "VerifyPolyEval bn5 1 0 (Polynomial_Gammas bn5 [1, 2]) 2 \<longleftrightarrow>
    Polynomial_Degree [1, 2] = DegreeFromThreshold 2 \<and> EvalForKeyper bn5 [1, 2] 1 = Inr 0"
  by (rule verify_poly_eval_exact [OF bn_ok_bn5]) (simp_all add: valid_poly_def ValidEval_iff bn5_def)

text \<open>
  A share of an epoch key passes the check against a public key share exactly when it is the share the
  holder of the matching secret computes.
\<close>

theorem verify_share_exact:
  assumes "bn_ok B"
  shows "VerifyEpochSecretKeyShare B share (G2_ScalarBaseMult B sk) epochID \<longleftrightarrow>
    share = ComputeEpochSecretKeyShare B sk epochID"
  using assms by (rule Verify_iff_share)

theorem verify_share_exact_witness:
  "VerifyEpochSecretKeyShare bn5 Z1 (G2_ScalarBaseMult bn5 3) Z2 \<longleftrightarrow> Z1 = ComputeEpochSecretKeyShare bn5 3 Z2"
  by (rule verify_share_exact [OF bn_ok_bn5])

text \<open>
  The key of one epoch gives the key of every other: with the epoch identities as they are computed,
  the key of epoch \<open>e\<close> is the key of epoch 0 multiplied by the public number \<open>e + 1\<close>.
\<close>

theorem epoch_keys_are_multiples:
  assumes "bn_ok B"
  shows "ComputeEpochSecretKeyShare B s (ComputeEpochID B e) =
    G1_ScalarMult B (ComputeEpochSecretKeyShare B s (ComputeEpochID B 0)) (uint (e + 1))"
  using assms by (rule epoch_keys_related)

theorem epoch_keys_are_multiples_witness:
  "ComputeEpochSecretKeyShare bn5 3 (ComputeEpochID bn5 6) =
    G1_ScalarMult bn5 (ComputeEpochSecretKeyShare bn5 3 (ComputeEpochID bn5 0)) 7"
  using epoch_keys_are_multiples [OF bn_ok_bn5, of 3 6] by simp

section \<open>One keyper's key generation\<close>

text \<open>
  What a key generation has recorded stays recorded: along every run the commitments, evaluations,
  accusations and apologies of the earlier state are in the later one unchanged, the phase never goes back,
  and every state reached from a new instance is well formed.
\<close>

theorem key_generation_records:
  assumes "dkg_run B (NewPureDKG eon n t k) a" "dkg_run B a b"
  shows "wf_dkg B b \<and> recorded a b"
proof -
  have "wf_dkg B a" using dkg_run_wf [OF assms(1) wf_NewPureDKG] .
  with assms(2) show ?thesis using dkg_run_wf dkg_run_recorded by blast
qed

theorem key_generation_records_witness:
  "\<exists>b. HandleAccusationMsg \<lparr> acm_Eon = 1, acm_Accuser = 0, acm_Accused = 1 \<rparr> (NewPureDKG 1 2 2 0 :: z5 PureDKG) = Inr b \<and>
    wf_dkg bn5 b \<and> recorded (NewPureDKG 1 2 2 0) b"
proof -
  obtain b :: "z5 PureDKG" where b: "HandleAccusationMsg \<lparr> acm_Eon = 1, acm_Accuser = 0, acm_Accused = 1 \<rparr> (NewPureDKG 1 2 2 0) = Inr b"
    unfolding HandleAccusationMsg_Inr by (simp add: NewPureDKG_def less_eq_Phase_def)
  from key_generation_records [OF dkg_run_refl dkg_run_step [OF dkg_run_refl dkg_step.accusation [OF b]], of bn5] b
  show ?thesis by blast
qed

text \<open>
  A finalized key generation never changes again, so its result is final.
\<close>

theorem finalized_is_final:
  assumes "pd_Phase a = Finalized" "dkg_run B a b"
  shows "b = a \<and> ComputeResult O' B b = ComputeResult O' B a"
  using finalized_run [OF assms(2,1)] by simp

theorem finalized_is_final_witness:
  "pd_Phase (small_dkg 0 [3, 4]) = Finalized \<and>
   ComputeResult small_dkg_orders bn5 (small_dkg 0 [3, 4]) = ComputeResult small_dkg_orders bn5 (small_dkg 0 [3, 4])"
  using finalized_is_final [OF small_phase dkg_run_refl] by simp

text \<open>
  A dealer that keeps to the protocol is never considered corrupt: when its commitment is that of its
  polynomial and it has answered every accusation with that polynomial's value, no set of other messages
  makes \<open>isCorrupt\<close> true. An accusation it has not answered does.
\<close>

theorem honest_dealers_stay_in:
  assumes "bn_ok B" "wf_dkg B pure" "unat dealer < length (pd_Commitments pure)"
    and "pd_Commitments pure ! unat dealer = Some (Polynomial_Gammas B p)"
    and "Polynomial_Degree p = DegreeFromThreshold (pd_Threshold pure)"
    and "\<And>accuser e. map_of (pd_Apologies pure) (accuser, dealer) = Some e \<Longrightarrow>
      cng (Order B) e (peval p (KeyperX (sint accuser)))"
  shows "isCorrupt B pure dealer =
    Inr (\<exists>accuser. (accuser, dealer) \<in> set (pd_Accusations pure) \<and> map_of (pd_Apologies pure) (accuser, dealer) = None)"
proof (cases "\<exists>accuser. (accuser, dealer) \<in> set (pd_Accusations pure) \<and> map_of (pd_Apologies pure) (accuser, dealer) = None")
  case True
  then show ?thesis using unanswered_corrupt [OF assms(3)] by auto
next
  case False
  have "wf_map (pd_Apologies pure)" using assms(2) by (simp add: wf_dkg_def)
  with False show ?thesis using honest_not_corrupt [OF assms(1,3-5)] assms(6) by auto
qed

theorem honest_dealers_stay_in_witness: "isCorrupt bn5 (small_dkg 0 [3, 4]) 0 = Inr False"
proof -
  have "isCorrupt bn5 (small_dkg 0 [3, 4]) 0 =
    Inr (\<exists>accuser. (accuser, 0) \<in> set (pd_Accusations (small_dkg 0 [3, 4])) \<and>
      map_of (pd_Apologies (small_dkg 0 [3, 4])) (accuser, 0) = None)"
    by (rule honest_dealers_stay_in [OF bn_ok_bn5 small_wf(1), of 0 "[1, 2]"])
      (auto simp: small_dkg_def Polynomial_Degree_def DegreeFromThreshold_def cng_def KeyperX_def bn5_def split: if_splits)
  then show ?thesis by (simp add: small_dkg_def)
qed

section \<open>Where the code falls short\<close>

text \<open>
  C40: A threshold of 2^63 or more counts as negative where it is compared: such a config is valid, and
  while it is in force the first vote decides every config vote.
\<close>

theorem huge_threshold_needs_one_vote:
  assumes "2 ^ 63 \<le> unat (bc_Threshold bc)" "bc_Keypers bc \<noteq> []"
    and "orders_ok R" "wf_ConfigVoting v" "config_choice v a = Some c"
  shows "EnsureValid bc = None \<and> ConfigVoting_Outcome R v (sint (bc_Threshold bc)) \<noteq> None"
  using assms by (rule threshold_overflow)

theorem huge_threshold_needs_one_vote_witness:
  "\<exists>v. ConfigVoting_AddVote 1 small_next NewConfigVoting = Inr v \<and>
    EnsureValid (small_config \<lparr> bc_Threshold := - 1 \<rparr>) = None \<and> ConfigVoting_Outcome small_orders v (- 1) \<noteq> None"
proof -
  obtain v where v: "ConfigVoting_AddVote 1 small_next NewConfigVoting = Inr v"
    using ConfigVoting_AddVote_spec(2) [of NewConfigVoting 1 small_next] by (cases "ConfigVoting_AddVote 1 small_next NewConfigVoting") auto
  have w: "wf_ConfigVoting v" "config_choice v 1 = Some small_next"
    using ConfigVoting_AddVote_spec(1) [OF new_votings(1) v] by auto
  have t: "2 ^ 63 \<le> unat (bc_Threshold (small_config \<lparr> bc_Threshold := - 1 \<rparr>))" "bc_Keypers (small_config \<lparr> bc_Threshold := - 1 \<rparr>) \<noteq> []"
    by (simp_all add: small_config_def unsigned_minus_1_eq_mask mask_eq_exp_minus_1)
  from huge_threshold_needs_one_vote [OF t small_orders_ok(1) w] v show ?thesis by simp
qed

text \<open>
  The votes for starting a config outlive it: when a new config is accepted while enough start votes
  for the previous one are stored, the next end of a block starts the new config, for which nobody voted.
\<close>

theorem start_votes_outlive_config:
  assumes "app_inv app" "orders_ok R" "deliverBatchConfig R E msg s app = Inr (r, app')"
    and "app_Configs app' \<noteq> app_Configs app"
    and "bc_Threshold (last (app_Configs app)) \<le> of_nat (card (app_StartedVotes app))"
  shows "\<exists>us app''. EndBlock R h app' = Inr (us, app'') \<and> bc_Started (last (app_Configs app''))"
  using assms by (rule started_votes_survive)

theorem start_votes_outlive_config_witness:
  "\<exists>r app' us app''. deliverBatchConfig small_orders small_eth small_bcm 1 (small_app \<lparr> app_StartedVotes := {2} \<rparr>) = Inr (r, app') \<and>
    EndBlock small_orders 1 app' = Inr (us, app'') \<and> bc_Started (last (app_Configs app''))"
proof -
  let ?app = "small_app \<lparr> app_StartedVotes := {2} \<rparr>"
  obtain r app' where d: "deliverBatchConfig small_orders small_eth small_bcm 1 ?app = Inr (r, app')"
    "app_Configs app' \<noteq> app_Configs ?app" using small_accept by blast
  have inv: "app_inv ?app" using small_app_inv by (simp add: app_inv_def)
  have t: "bc_Threshold (last (app_Configs ?app)) \<le> of_nat (card (app_StartedVotes ?app))"
    by (simp add: small_app_def small_config_def)
  from start_votes_outlive_config [OF inv small_orders_ok(1) d t, of 1] d show ?thesis by blast
qed

end
